(* ===== verification/Prelude.thy ===== *)
theory Prelude
  imports Main "HOL-Library.Word" "HOL-Library.Sublist"
begin

text \<open>
  The base of the development: the exceptions the program can raise, the type of a stateful,
  fallible piece of C++ code, the combinators its statements are written with, and the generic
  lemmas and proof rules every component uses.

  A C++ function that reads and writes the state \<open>'s\<close> and returns an \<open>'a\<close> is a function
  \<open>'s \<Rightarrow> (exn + 'a) \<times> 's\<close>: a thrown exception is a value of the left summand, and the state
  reached when it was thrown is kept, because C++ does not roll anything back.
\<close>

named_theorems keeps_intro "rules that show that a program keeps an invariant or a step order"
named_theorems run_simps "equations that run a program symbolically"

section \<open>Exceptions\<close>

text \<open>
  The exceptions of the standard library, of the serial library and of the logger that the code
  throws. Three values are no exceptions: \<open>Terminate\<close> is a call of \<open>std::terminate\<close>,
  \<open>Undefined\<close> is an operation whose behaviour the C++ standard leaves undefined (a null
  dereference, an access out of bounds, a conversion out of range), and \<open>NoReturn\<close> says that a
  loop has not returned within the number of iterations the model follows.
\<close>

datatype exn =
    InvalidArgument string
  | RuntimeError string
  | OutOfRange
  | SerialException string
  | IOException_errno int
  | IOException string
  | PortNotOpenedException string
  | LoggerException string
  | BadAlloc
  | Terminate
  | Undefined string
  | NoReturn

section \<open>Programs\<close>

type_synonym ('s, 'a) prog = "'s \<Rightarrow> (exn + 'a) \<times> 's"

definition ret :: "'a \<Rightarrow> ('s, 'a) prog" where
  "ret x = (\<lambda>s. (Inr x, s))"

definition throw :: "exn \<Rightarrow> ('s, 'a) prog" where
  "throw e = (\<lambda>s. (Inl e, s))"

definition bindE :: "('s, 'a) prog \<Rightarrow> ('a \<Rightarrow> ('s, 'b) prog) \<Rightarrow> ('s, 'b) prog" where
  "bindE m k = (\<lambda>s. case m s of (Inl e, t) \<Rightarrow> (Inl e, t) | (Inr x, t) \<Rightarrow> k x t)"

definition seqE :: "('s, 'a) prog \<Rightarrow> ('s, 'b) prog \<Rightarrow> ('s, 'b) prog" where
  "seqE m n = bindE m (\<lambda>_. n)"

definition gets :: "('s \<Rightarrow> 'a) \<Rightarrow> ('s, 'a) prog" where
  "gets f = (\<lambda>s. (Inr (f s), s))"

definition modify :: "('s \<Rightarrow> 's) \<Rightarrow> ('s, unit) prog" where
  "modify f = (\<lambda>s. (Inr (), f s))"

definition whenE :: "bool \<Rightarrow> ('s, unit) prog \<Rightarrow> ('s, unit) prog" where
  "whenE b m = (if b then m else ret ())"

text \<open>
  Destructors run on the normal and on the exceptional path: \<open>finallyE m f\<close> runs \<open>f\<close> after
  \<open>m\<close> whatever \<open>m\<close> did. A destructor is \<open>noexcept\<close>, so an exception inside \<open>f\<close> is a call of
  \<open>std::terminate\<close>. After \<open>Terminate\<close>, \<open>Undefined\<close> or \<open>NoReturn\<close> no destructor runs.
\<close>

fun unwinds :: "exn \<Rightarrow> bool" where
  "unwinds Terminate = False"
| "unwinds (Undefined _) = False"
| "unwinds NoReturn = False"
| "unwinds _ = True"

definition finallyE :: "('s, 'a) prog \<Rightarrow> ('s, unit) prog \<Rightarrow> ('s, 'a) prog" where
  "finallyE m f = (\<lambda>s. case m s of
      (Inl e, t) \<Rightarrow> (if unwinds e
                    then (case f t of (Inl _, u) \<Rightarrow> (Inl Terminate, u) | (Inr _, u) \<Rightarrow> (Inl e, u))
                    else (Inl e, t))
    | (Inr x, t) \<Rightarrow> (case f t of (Inl _, u) \<Rightarrow> (Inl Terminate, u) | (Inr _, u) \<Rightarrow> (Inr x, u)))"

lemma ret_run [simp, run_simps]: "ret x s = (Inr x, s)"
  by (simp add: ret_def)

lemma throw_run [simp, run_simps]: "throw e s = (Inl e, s)"
  by (simp add: throw_def)

lemma gets_run [simp, run_simps]: "gets f s = (Inr (f s), s)"
  by (simp add: gets_def)

lemma modify_run [simp, run_simps]: "modify f s = (Inr (), f s)"
  by (simp add: modify_def)

lemma whenE_True [simp, run_simps]: "whenE True m = m"
  by (simp add: whenE_def)

lemma whenE_False [simp, run_simps]: "whenE False m = ret ()"
  by (simp add: whenE_def)

lemma bindE_Inr [run_simps]: "m s = (Inr x, t) \<Longrightarrow> bindE m k s = k x t"
  by (simp add: bindE_def)

lemma bindE_Inl [run_simps]: "m s = (Inl e, t) \<Longrightarrow> bindE m k s = (Inl e, t)"
  by (simp add: bindE_def)

lemma seqE_Inr [run_simps]: "m s = (Inr x, t) \<Longrightarrow> seqE m n s = n t"
  by (simp add: seqE_def bindE_def)

lemma seqE_Inl [run_simps]: "m s = (Inl e, t) \<Longrightarrow> seqE m n s = (Inl e, t)"
  by (simp add: seqE_def bindE_def)

lemma bindE_ret [simp]: "bindE (ret x) k = k x"
  by (simp add: bindE_def ret_def)

lemma bindE_gets [simp]: "bindE (gets f) k s = k (f s) s"
  by (simp add: bindE_def gets_def)

lemma bindE_throw [simp]: "bindE (throw e) k = throw e"
  by (simp add: bindE_def throw_def)

lemma seqE_modify [simp]: "seqE (modify f) n s = n (f s)"
  by (simp add: seqE_def bindE_def)

lemma bindE_modify [simp]: "bindE (modify f) k s = k () (f s)"
  by (simp add: bindE_def modify_def)

lemma seqE_ret [simp]: "seqE (ret x) n = n"
  by (simp add: seqE_def)

lemma seqE_throw [simp]: "seqE (throw e) n = throw e"
  by (simp add: seqE_def)

lemma seqE_assoc: "seqE m (seqE n p) = seqE (seqE m n) p"
  by (auto simp: seqE_def bindE_def fun_eq_iff split: prod.split sum.split)

lemma bindE_cases:
  assumes "bindE m k s = (r, t)"
  obtains (exn) e where "m s = (Inl e, t)" and "r = Inl e"
  | (ok) x u where "m s = (Inr x, u)" and "k x u = (r, t)"
  using assms by (auto simp: bindE_def split: prod.splits sum.splits)

lemma seqE_cases:
  assumes "seqE m n s = (r, t)"
  obtains (exn) e where "m s = (Inl e, t)" and "r = Inl e"
  | (ok) x u where "m s = (Inr x, u)" and "n u = (r, t)"
  using assms unfolding seqE_def by (auto elim: bindE_cases)

section \<open>Step orders and invariants\<close>

text \<open>
  Most facts about a C++ function relate the state before and after it, whatever it returns or
  throws: the trace grows, the locks are released, a field keeps its value. Such a fact is a
  preorder \<open>R\<close> on states that every statement respects; the locale collects the rules that
  lift it from statements to programs. An invariant is the special case
  \<open>\<lambda>s t. I s \<longrightarrow> I t\<close>.
\<close>

definition obeys :: "('s \<Rightarrow> 's \<Rightarrow> bool) \<Rightarrow> ('s, 'a) prog \<Rightarrow> bool" where
  "obeys R m \<longleftrightarrow> (\<forall>s. R s (snd (m s)))"

lemma obeysD: "obeys R m \<Longrightarrow> m s = (r, t) \<Longrightarrow> R s t"
  unfolding obeys_def by (metis snd_conv)

lemma obeysI: "(\<And>s r t. m s = (r, t) \<Longrightarrow> R s t) \<Longrightarrow> obeys R m"
  unfolding obeys_def by (metis surjective_pairing)

locale step_order =
  fixes R :: "'s \<Rightarrow> 's \<Rightarrow> bool"
  assumes refl_R: "R s s"
    and trans_R: "R s t \<Longrightarrow> R t u \<Longrightarrow> R s u"
begin

lemma ret_obeys: "obeys R (ret x)"
  by (simp add: obeys_def refl_R)

lemma throw_obeys: "obeys R (throw e)"
  by (simp add: obeys_def refl_R)

lemma gets_obeys: "obeys R (gets f)"
  by (simp add: obeys_def refl_R)

lemma bindE_obeys:
  assumes "obeys R m" and "\<And>x. obeys R (k x)"
  shows "obeys R (bindE m k)"
proof (rule obeysI)
  fix s r t
  assume "bindE m k s = (r, t)"
  then show "R s t"
    by (cases rule: bindE_cases) (auto intro: trans_R dest: obeysD [OF assms(1)] obeysD [OF assms(2)])
qed

lemma seqE_obeys: "obeys R m \<Longrightarrow> obeys R n \<Longrightarrow> obeys R (seqE m n)"
  unfolding seqE_def by (rule bindE_obeys)

lemma whenE_obeys: "(b \<Longrightarrow> obeys R m) \<Longrightarrow> obeys R (whenE b m)"
  by (cases b) (simp_all add: ret_obeys)

lemma if_obeys: "(b \<Longrightarrow> obeys R m) \<Longrightarrow> (\<not> b \<Longrightarrow> obeys R n) \<Longrightarrow> obeys R (if b then m else n)"
  by simp

lemma finallyE_obeys:
  assumes "obeys R m" and "obeys R f"
  shows "obeys R (finallyE m f)"
proof (rule obeysI)
  fix s r t
  assume run: "finallyE m f s = (r, t)"
  obtain r1 t1 where m: "m s = (r1, t1)" by (cases "m s")
  obtain r2 t2 where f: "f t1 = (r2, t2)" by (cases "f t1")
  have "R s t1" using assms(1) m by (rule obeysD)
  moreover have "R t1 t2" using assms(2) f by (rule obeysD)
  moreover have "t = t1 \<or> t = t2"
    using run m f by (auto simp: finallyE_def split: sum.splits if_splits)
  ultimately show "R s t" by (auto intro: trans_R)
qed

lemmas order_intros =
  ret_obeys throw_obeys gets_obeys bindE_obeys seqE_obeys whenE_obeys
  finallyE_obeys

end

definition keeps :: "('s \<Rightarrow> bool) \<Rightarrow> ('s, 'a) prog \<Rightarrow> bool" where
  "keeps I m \<longleftrightarrow> obeys (\<lambda>s t. I s \<longrightarrow> I t) m"

interpretation inv: step_order "\<lambda>s t. I s \<longrightarrow> I t" for I :: "'s \<Rightarrow> bool"
  by unfold_locales auto

lemma keepsD: "keeps I m \<Longrightarrow> I s \<Longrightarrow> m s = (r, t) \<Longrightarrow> I t"
  unfolding keeps_def by (blast dest: obeysD)

lemma keepsI: "(\<And>s r t. I s \<Longrightarrow> m s = (r, t) \<Longrightarrow> I t) \<Longrightarrow> keeps I m"
  unfolding keeps_def by (rule obeysI) blast

lemma keeps_basic [keeps_intro]:
  "keeps I (ret x)" "keeps I (throw e)" "keeps I (gets f)"
  by (simp_all add: keeps_def inv.ret_obeys inv.throw_obeys inv.gets_obeys)

lemma keeps_bindE [keeps_intro]:
  "keeps I m \<Longrightarrow> (\<And>x. keeps I (k x)) \<Longrightarrow> keeps I (bindE m k)"
  unfolding keeps_def by (rule inv.bindE_obeys)

lemma keeps_seqE [keeps_intro]: "keeps I m \<Longrightarrow> keeps I n \<Longrightarrow> keeps I (seqE m n)"
  unfolding keeps_def by (rule inv.seqE_obeys)

lemma keeps_whenE [keeps_intro]: "(b \<Longrightarrow> keeps I m) \<Longrightarrow> keeps I (whenE b m)"
  unfolding keeps_def by (rule inv.whenE_obeys)

lemma keeps_if [keeps_intro]:
  "(b \<Longrightarrow> keeps I m) \<Longrightarrow> (\<not> b \<Longrightarrow> keeps I n) \<Longrightarrow> keeps I (if b then m else n)"
  by simp

lemma keeps_finallyE [keeps_intro]: "keeps I m \<Longrightarrow> keeps I f \<Longrightarrow> keeps I (finallyE m f)"
  unfolding keeps_def by (rule inv.finallyE_obeys)

lemma keeps_modify [keeps_intro]: "(\<And>s. I s \<Longrightarrow> I (f s)) \<Longrightarrow> keeps I (modify f)"
  by (rule keepsI) simp

section \<open>Pure computations that can fail\<close>

text \<open>A pure C++ computation returns a value or an exception; \<open>bindR\<close> is its sequencing.\<close>

definition bindR :: "exn + 'a \<Rightarrow> ('a \<Rightarrow> exn + 'b) \<Rightarrow> exn + 'b" where
  "bindR r k = (case r of Inl e \<Rightarrow> Inl e | Inr x \<Rightarrow> k x)"

definition lift :: "exn + 'a \<Rightarrow> ('s, 'a) prog" where
  "lift r = (\<lambda>s. (r, s))"

lemma bindR_simps [simp]: "bindR (Inl e) k = Inl e" "bindR (Inr x) k = k x"
  by (simp_all add: bindR_def)

lemma bindR_Inr_iff: "bindR r k = Inr y \<longleftrightarrow> (\<exists>x. r = Inr x \<and> k x = Inr y)"
  by (cases r) auto

lemma lift_run [simp, run_simps]: "lift r s = (r, s)"
  by (simp add: lift_def)

lemma bindE_lift_Inr [simp]: "bindE (lift (Inr x)) k = k x"
  by (simp add: bindE_def lift_def fun_eq_iff)

lemma bindE_lift_Inl [simp]: "bindE (lift (Inl e)) k = throw e"
  by (simp add: bindE_def lift_def throw_def fun_eq_iff)

lemma keeps_lift [keeps_intro]: "keeps I (lift r)"
  by (rule keepsI) simp

section \<open>Arrays\<close>

text \<open>
  C arrays of a fixed length: an access outside the array is undefined behaviour.
\<close>

type_synonym u8 = "8 word"
type_synonym u32 = "32 word"

definition arr_get :: "'a list \<Rightarrow> nat \<Rightarrow> exn + 'a" where
  "arr_get xs i = (if i < length xs then Inr (xs ! i) else Inl (Undefined ''read out of bounds''))"

definition arr_set :: "'a list \<Rightarrow> nat \<Rightarrow> 'a \<Rightarrow> exn + 'a list" where
  "arr_set xs i v = (if i < length xs then Inr (xs[i := v]) else Inl (Undefined ''write out of bounds''))"

lemma arr_get_in [simp]: "i < length xs \<Longrightarrow> arr_get xs i = Inr (xs ! i)"
  by (simp add: arr_get_def)

lemma arr_get_out [simp]: "length xs \<le> i \<Longrightarrow> arr_get xs i = Inl (Undefined ''read out of bounds'')"
  by (simp add: arr_get_def)

lemma arr_set_in [simp]: "i < length xs \<Longrightarrow> arr_set xs i v = Inr (xs[i := v])"
  by (simp add: arr_set_def)

lemma arr_set_InrD: "arr_set xs i v = Inr ys \<Longrightarrow> i < length xs \<and> ys = xs[i := v]"
  by (simp add: arr_set_def split: if_splits)

section \<open>Numbers as text\<close>

text \<open>Decimal output of an unsigned value, as \<open>std::dec\<close> and \<open>%d\<close> print it.\<close>

definition digit_char :: "nat \<Rightarrow> char" where
  "digit_char d = char_of (48 + d)"

fun show_nat :: "nat \<Rightarrow> string" where
  "show_nat n = (if n < 10 then [digit_char n] else show_nat (n div 10) @ [digit_char (n mod 10)])"

declare show_nat.simps [simp del]

definition show_int :: "int \<Rightarrow> string" where
  "show_int i = (if i < 0 then CHR ''-'' # show_nat (nat (- i)) else show_nat (nat i))"

fun read_digits :: "nat \<Rightarrow> string \<Rightarrow> nat" where
  "read_digits a [] = a"
| "read_digits a (c # cs) = read_digits (10 * a + (of_char c - 48)) cs"

lemma read_digits_append: "read_digits a (xs @ ys) = read_digits (read_digits a xs) ys"
  by (induction xs arbitrary: a) auto

lemma of_char_digit [simp]: "d < 10 \<Longrightarrow> (of_char (digit_char d) :: nat) = 48 + d"
  by (simp add: digit_char_def)

lemma read_digits_show_nat [simp]: "read_digits 0 (show_nat n) = n"
proof (induction n rule: show_nat.induct)
  case (1 n)
  show ?case
  proof (cases "n < 10")
    case True
    then show ?thesis by (subst show_nat.simps) simp
  next
    case False
    with "1.IH" have "read_digits 0 (show_nat (n div 10)) = n div 10" by simp
    with False show ?thesis by (subst show_nat.simps) (simp add: read_digits_append)
  qed
qed

lemma show_nat_inj [simp]: "show_nat m = show_nat n \<longleftrightarrow> m = n"
  by (metis read_digits_show_nat)

lemma show_nat_digits: "c \<in> set (show_nat n) \<Longrightarrow> \<exists>d < 10. c = digit_char d"
proof (induction n rule: show_nat.induct)
  case (1 n)
  then show ?case
    by (subst (asm) (2) show_nat.simps) (auto split: if_splits intro: exI [of _ "n mod 10"])
qed

lemma show_nat_nonempty [simp]: "show_nat n \<noteq> []"
  by (subst show_nat.simps) simp

end
