(* ===== verification/CText.thy ===== *)
theory CText
  imports Prelude
begin

text \<open>
  The parts of the C library's text handling the program uses: \<open>atol\<close> and \<open>atoi\<close>, \<open>strncmp\<close>,
  the substring search of \<open>std::string::find\<close>, and padded output of numbers and names.
\<close>

section \<open>Reading numbers\<close>

definition is_space :: "char \<Rightarrow> bool" where
  "is_space c \<longleftrightarrow> c = CHR '' '' \<or> (9 \<le> (of_char c :: nat) \<and> of_char c \<le> (13 :: nat))"

definition is_digit :: "char \<Rightarrow> bool" where
  "is_digit c \<longleftrightarrow> 48 \<le> (of_char c :: nat) \<and> of_char c \<le> (57 :: nat)"

definition clamp_long :: "int \<Rightarrow> int" where
  "clamp_long i = max (- (2 ^ 63)) (min (2 ^ 63 - 1) i)"

text \<open>
  \<open>atol\<close> of glibc is \<open>strtol\<close> with base 10: white space, an optional sign, digits; the value saturates,
  and a text without digits is 0.
\<close>

definition unsigned_prefix :: "string \<Rightarrow> int" where
  "unsigned_prefix s = int (read_digits 0 (takeWhile is_digit s))"

fun atol :: "string \<Rightarrow> int" where
  "atol s = (case dropWhile is_space s of
      [] \<Rightarrow> 0
    | c # cs \<Rightarrow> clamp_long (if c = CHR ''-'' then - unsigned_prefix cs
                          else if c = CHR ''+'' then unsigned_prefix cs
                          else unsigned_prefix (c # cs)))"

declare atol.simps [simp del]

text \<open>\<open>atoi\<close> converts the result to \<open>int\<close>.\<close>

definition atoi :: "string \<Rightarrow> int" where
  "atoi s = sint (word_of_int (atol s) :: 32 word)"

lemma digit_is_digit: "d < 10 \<Longrightarrow> is_digit (digit_char d)"
  by (simp add: is_digit_def)

lemma digit_not_space: "d < 10 \<Longrightarrow> \<not> is_space (digit_char d) \<and> digit_char d \<noteq> CHR ''-'' \<and> digit_char d \<noteq> CHR ''+''"
proof -
  assume d: "d < 10"
  have "digit_char d \<noteq> CHR '' ''" "digit_char d \<noteq> CHR ''-''" "digit_char d \<noteq> CHR ''+''"
    using of_char_digit [OF d] by (auto dest: arg_cong [of _ _ "of_char :: char \<Rightarrow> nat"])
  then show ?thesis using d by (simp add: is_space_def)
qed

lemma takeWhile_show_nat: "takeWhile is_digit (show_nat n) = show_nat n"
  using show_nat_digits by (auto simp: takeWhile_eq_all_conv intro: digit_is_digit)

lemma atol_show_nat:
  assumes "int n < 2 ^ 63"
  shows "atol (show_nat n) = int n"
proof -
  obtain c cs where c: "show_nat n = c # cs" by (cases "show_nat n") auto
  then obtain d where d: "d < 10" "c = digit_char d" using show_nat_digits [of c n] by auto
  with digit_not_space have ns: "\<not> is_space c" "c \<noteq> CHR ''-''" "c \<noteq> CHR ''+''" by auto
  with c have "atol (show_nat n) = clamp_long (unsigned_prefix (show_nat n))" by (simp add: atol.simps)
  also have "\<dots> = int n"
    using assms by (simp add: unsigned_prefix_def takeWhile_show_nat clamp_long_def)
  finally show ?thesis .
qed

lemma atoi_show_nat:
  assumes "n < 2 ^ 31"
  shows "atoi (show_nat n) = int n"
proof -
  from assms have n: "int n < 2 ^ 31" by (metis of_nat_less_iff of_nat_numeral of_nat_power)
  with atol_show_nat [of n] have "atoi (show_nat n) = sint (word_of_int (int n) :: 32 word)"
    by (simp add: atoi_def)
  also have "\<dots> = int n" using n unfolding int_word_sint by simp
  finally show ?thesis .
qed

lemma atoi_no_digits:
  assumes "\<not> is_space c" and "\<not> is_digit c" and "c \<noteq> CHR ''-''" and "c \<noteq> CHR ''+''"
  shows "atoi (c # cs) = 0"
  using assms by (simp add: atoi_def atol.simps unsigned_prefix_def clamp_long_def)

section \<open>Comparing and searching\<close>

text \<open>\<open>0 == strncmp(a, b, n)\<close> for strings without NUL characters.\<close>

definition strncmp_eq :: "string \<Rightarrow> string \<Rightarrow> nat \<Rightarrow> bool" where
  "strncmp_eq a b n \<longleftrightarrow> take n a = take n b"

text \<open>\<open>npos != a.find(b)\<close>\<close>

fun contains :: "string \<Rightarrow> string \<Rightarrow> bool" where
  "contains [] b = (b = [])"
| "contains (c # a) b = (take (length b) (c # a) = b \<or> contains a b)"

section \<open>Padding\<close>

text \<open>\<open>%.4u\<close>, \<open>%.2u\<close>, \<open>%.3u\<close>: at least so many digits; \<open>%-12s\<close>: at least so many characters.\<close>

definition pad_num :: "nat \<Rightarrow> nat \<Rightarrow> string" where
  "pad_num k n = replicate (k - length (show_nat n)) (CHR ''0'') @ show_nat n"

definition pad_right :: "nat \<Rightarrow> string \<Rightarrow> string" where
  "pad_right k s = s @ replicate (k - length s) (CHR '' '')"

definition newline :: string where
  "newline = [char_of (10 :: nat)]"

end
