(* ===== verification/Logger.thy ===== *)
theory Logger
  imports CText
begin

text \<open>
  The logging library, \<^verbatim>\<open>src/src/LoggerCpp\<close>: severity levels, the configuration of the outputs, the
  log file with its rotation, the console, the manager with its channels, and the statement
  \<open>logger->level() << text\<close>. The files on disk are a map from names to contents; whether
  a file can be opened for appending is a parameter of the log state.
\<close>

section \<open>Levels\<close>

datatype Level = eDebug | eInfo | eNotice | eWarning | eError | eCritic

fun level_val :: "Level \<Rightarrow> nat" where
  "level_val eDebug = 0"
| "level_val eInfo = 1"
| "level_val eNotice = 2"
| "level_val eWarning = 3"
| "level_val eError = 4"
| "level_val eCritic = 5"

lemma level_val_inj [simp]: "level_val a = level_val b \<longleftrightarrow> a = b"
  by (cases a; cases b) simp_all

text \<open>Levels are compared as the numbers of the enumeration.\<close>

instantiation Level :: linorder
begin

definition less_eq_Level :: "Level \<Rightarrow> Level \<Rightarrow> bool" where
  "less_eq_Level a b \<longleftrightarrow> level_val a \<le> level_val b"

definition less_Level :: "Level \<Rightarrow> Level \<Rightarrow> bool" where
  "less_Level a b \<longleftrightarrow> level_val a < level_val b"

instance
  by standard (auto simp: less_eq_Level_def less_Level_def)

end

fun toString :: "Level \<Rightarrow> string" where
  "toString eDebug = ''DBUG''"
| "toString eInfo = ''INFO''"
| "toString eNotice = ''NOTE''"
| "toString eWarning = ''WARN''"
| "toString eError = ''EROR''"
| "toString eCritic = ''CRIT''"

definition toLevel :: "string \<Rightarrow> Level" where
  "toLevel l = (if strncmp_eq l ''DBUG'' 4 then eDebug
     else if strncmp_eq l ''INFO'' 4 then eInfo
     else if strncmp_eq l ''NOTE'' 4 then eNotice
     else if strncmp_eq l ''WARN'' 4 then eWarning
     else if strncmp_eq l ''EROR'' 4 then eError
     else eCritic)"

section \<open>Configuration of the outputs\<close>

record config =
  cfg_name :: string
  cfg_values :: "string \<Rightarrow> string option"

definition config_get :: "config \<Rightarrow> string \<Rightarrow> string \<Rightarrow> string" where
  "config_get c key def = (case cfg_values c key of Some v \<Rightarrow> v | None \<Rightarrow> def)"

definition config_get_long :: "config \<Rightarrow> string \<Rightarrow> int \<Rightarrow> int" where
  "config_get_long c key def = (case cfg_values c key of Some v \<Rightarrow> atol v | None \<Rightarrow> def)"

definition addOutput :: "config list \<Rightarrow> string \<Rightarrow> config list" where
  "addOutput cs name = cs @ [\<lparr>cfg_name = name, cfg_values = (\<lambda>_. None)\<rparr>]"

text \<open>\<open>setOption\<close> changes the last configuration; \<open>back()\<close> of an empty vector is undefined.\<close>

definition setOption :: "config list \<Rightarrow> string \<Rightarrow> string \<Rightarrow> exn + config list" where
  "setOption cs key v =
     (if cs = [] then Inl (Undefined ''back of an empty vector'')
      else Inr (butlast cs @ [(last cs)\<lparr>cfg_values := (cfg_values (last cs))(key \<mapsto> v)\<rparr>]))"

section \<open>The log file\<close>

type_synonym files = "string \<Rightarrow> string option"

record output_file =
  of_open :: bool
  of_size :: int
  of_max_startup :: int
  of_max :: int
  of_name :: string
  of_old :: string

text \<open>
  \<open>fopen(name, "ab")\<close> creates the file when it does not exist. The predicate says which names can be
  opened.
\<close>

definition of_do_open :: "(string \<Rightarrow> bool) \<Rightarrow> output_file \<Rightarrow> files \<Rightarrow> (exn + output_file) \<times> files" where
  "of_do_open openable o1 fs =
     (if openable (of_name o1)
      then (Inr (o1\<lparr>of_open := True\<rparr>),
            case fs (of_name o1) of None \<Rightarrow> fs(of_name o1 \<mapsto> []) | Some _ \<Rightarrow> fs)
      else (Inl (LoggerException (''file '' @ [char_of (34 :: nat)] @ of_name o1 @ [char_of (34 :: nat)] @ '' not opened'')), fs))"

definition of_do_close :: "output_file \<Rightarrow> output_file" where
  "of_do_close o1 = (if of_open o1 then o1\<lparr>of_open := False, of_size := 0\<rparr> else o1)"

text \<open>\<open>remove\<close> and \<open>rename\<close>: removing or renaming a file that does not exist changes nothing.\<close>

definition rename_file :: "string \<Rightarrow> string \<Rightarrow> files \<Rightarrow> files" where
  "rename_file old new fs = (case fs old of None \<Rightarrow> fs | Some c \<Rightarrow> if old = new then fs else (fs(old := None))(new \<mapsto> c))"

definition of_rotate :: "(string \<Rightarrow> bool) \<Rightarrow> output_file \<Rightarrow> files \<Rightarrow> (exn + output_file) \<times> files" where
  "of_rotate openable o1 fs =
     (let o2 = of_do_close o1;
          fs1 = fs(of_old o1 := None);
          fs2 = rename_file (of_name o1) (of_old o1) fs1
      in of_do_open openable o2 fs2)"

text \<open>
  The constructor. \<open>mSize\<close> has no initial value: when \<open>stat\<close> fails it keeps whatever the memory
  held, the argument \<open>stale\<close>.
\<close>

definition of_new :: "(string \<Rightarrow> bool) \<Rightarrow> int \<Rightarrow> config \<Rightarrow> files \<Rightarrow> (exn + output_file) \<times> files" where
  "of_new openable stale c fs =
     (let name = config_get c ''filename'' ''log.txt'';
          o1 = \<lparr>of_open = False,
                of_size = (case fs name of Some txt \<Rightarrow> int (length txt) | None \<Rightarrow> stale),
                of_max_startup = config_get_long c ''max_startup_size'' 0,
                of_max = config_get_long c ''max_size'' (1024 * 1024),
                of_name = name,
                of_old = config_get c ''filename_old'' ''log.old.txt''\<rparr>
      in if of_size o1 > of_max_startup o1 then of_rotate openable o1 fs else of_do_open openable o1 fs)"

record DateTime =
  dt_year :: nat
  dt_month :: nat
  dt_day :: nat
  dt_hour :: nat
  dt_minute :: nat
  dt_second :: nat
  dt_ms :: nat
  dt_us :: nat

definition stamp :: "DateTime \<Rightarrow> string" where
  "stamp t = pad_num 4 (dt_year t) @ ''-'' @ pad_num 2 (dt_month t) @ ''-'' @ pad_num 2 (dt_day t) @ '' ''
     @ pad_num 2 (dt_hour t) @ '':'' @ pad_num 2 (dt_minute t) @ '':'' @ pad_num 2 (dt_second t) @ ''.''
     @ pad_num 3 (dt_ms t)"

definition file_line :: "DateTime \<Rightarrow> string \<Rightarrow> Level \<Rightarrow> string \<Rightarrow> string" where
  "file_line t channel lvl txt =
     stamp t @ ''  '' @ pad_right 12 channel @ '' '' @ toString lvl @ '' '' @ txt @ newline"

text \<open>\<open>OutputFile::output\<close>: rotate when the file is too long, then append the line.\<close>

definition of_output :: "(string \<Rightarrow> bool) \<Rightarrow> string \<Rightarrow> output_file \<Rightarrow> files \<Rightarrow> (exn + output_file) \<times> files" where
  "of_output openable line o1 fs =
     (let (r, fs1) = (if of_size o1 > of_max o1 then of_rotate openable o1 fs else (Inr o1, fs))
      in case r of
           Inl e \<Rightarrow> (Inl e, fs1)
         | Inr o2 \<Rightarrow>
             (if of_open o2
              then (Inr (o2\<lparr>of_size := of_size o2 + int (length line)\<rparr>),
                    fs1(of_name o2 := map_option (\<lambda>c. c @ line) (fs1 (of_name o2))))
              else (Inr o2, fs1)))"

section \<open>The console\<close>

fun toEscapeCode :: "Level \<Rightarrow> nat" where
  "toEscapeCode eDebug = 34"
| "toEscapeCode eInfo = 39"
| "toEscapeCode eNotice = 32"
| "toEscapeCode eWarning = 33"
| "toEscapeCode eError = 31"
| "toEscapeCode eCritic = 95"

definition escape_code :: string where
  "escape_code = [char_of (27 :: nat)]"

definition console_line :: "DateTime \<Rightarrow> string \<Rightarrow> Level \<Rightarrow> string \<Rightarrow> string" where
  "console_line t channel lvl txt =
     escape_code @ ''['' @ pad_num 2 (toEscapeCode lvl) @ ''m'' @ stamp t @ ''  '' @ pad_right 12 channel @ '' ''
     @ toString lvl @ '' '' @ txt @ escape_code @ ''[39m'' @ newline"

section \<open>The manager\<close>

datatype output_t = OutputConsole | OutputFile output_file

text \<open>
  The static members of \<open>Manager\<close>, and what the outputs write to. A channel is shared by
  its pointer, so the map holds the one copy of its level.
\<close>

record log_state =
  channels :: "string \<Rightarrow> Level option"
  outputs :: "output_t list"
  default_level :: Level
  disk :: files
  can_append :: "string \<Rightarrow> bool"
  stdout :: string
  log_time :: DateTime

type_synonym 'a logp = "(log_state, 'a) prog"

definition typeid_console :: string where "typeid_console = ''N3LMB3Log13OutputConsoleE''"
definition typeid_file :: string where "typeid_file = ''N3LMB3Log10OutputFileE''"

definition new_file_output :: "int \<Rightarrow> config \<Rightarrow> output_t logp" where
  "new_file_output stale c = (\<lambda>l. case of_new (can_append l) stale c (disk l) of
      (Inl e, fs) \<Rightarrow> (Inl e, l\<lparr>disk := fs\<rparr>)
    | (Inr o1, fs) \<Rightarrow> (Inr (OutputFile o1), l\<lparr>disk := fs\<rparr>))"

text \<open>\<open>Manager::configure\<close> appends an output for each configuration; the list is not cleared first.\<close>

fun configure :: "int \<Rightarrow> config list \<Rightarrow> unit logp" where
  "configure stale [] = ret ()"
| "configure stale (c # cs) =
     bindE (if contains typeid_console (cfg_name c) then ret OutputConsole
            else if contains typeid_file (cfg_name c) then new_file_output stale c
            else throw (LoggerException (''Unknown Output name '' @ [char_of (39 :: nat)] @ cfg_name c @ [char_of (39 :: nat)])))
       (\<lambda>out. seqE (modify (\<lambda>l. l\<lparr>outputs := outputs l @ [out]\<rparr>)) (configure stale cs))"

definition manager_terminate :: "unit logp" where
  "manager_terminate = modify (\<lambda>l. l\<lparr>outputs := []\<rparr>)"

definition manager_get :: "string \<Rightarrow> unit logp" where
  "manager_get name = (\<lambda>l. case channels l name of
      Some _ \<Rightarrow> (Inr (), l)
    | None \<Rightarrow> (Inr (), l\<lparr>channels := (channels l)(name \<mapsto> default_level l)\<rparr>))"

definition channel_level :: "string \<Rightarrow> log_state \<Rightarrow> Level" where
  "channel_level name l = (case channels l name of Some v \<Rightarrow> v | None \<Rightarrow> default_level l)"

definition set_channel_level :: "string \<Rightarrow> Level \<Rightarrow> unit logp" where
  "set_channel_level name lvl = modify (\<lambda>l. l\<lparr>channels := (channels l)(name \<mapsto> lvl)\<rparr>)"

text \<open>
  \<open>setChannelConfig\<close> walks the values in the order of the map, here given as the list of its
  entries; \<open>getChannelConfig\<close> stores the text of each channel's level.
\<close>

definition getChannelConfig :: "log_state \<Rightarrow> config" where
  "getChannelConfig l = \<lparr>cfg_name = ''ChannelConfig'', cfg_values = (\<lambda>n. map_option toString (channels l n))\<rparr>"

fun setChannelConfig :: "(string \<times> string) list \<Rightarrow> unit logp" where
  "setChannelConfig [] = ret ()"
| "setChannelConfig ((n, v) # vs) =
     seqE (manager_get n) (seqE (set_channel_level n (toLevel v)) (setChannelConfig vs))"

definition print_console :: "string \<Rightarrow> Level \<Rightarrow> string \<Rightarrow> unit logp" where
  "print_console channel lvl txt = modify (\<lambda>l. l\<lparr>stdout := stdout l @ console_line (log_time l) channel lvl txt\<rparr>)"

text \<open>The loop over the outputs; \<open>i\<close> is the position of the iterator.\<close>

fun output_loop :: "nat \<Rightarrow> nat \<Rightarrow> string \<Rightarrow> Level \<Rightarrow> string \<Rightarrow> unit logp" where
  "output_loop 0 i channel lvl txt = ret ()"
| "output_loop (Suc n) i channel lvl txt =
     bindE (gets (\<lambda>l. outputs l ! i)) (\<lambda>out.
     seqE (case out of
             OutputConsole \<Rightarrow> print_console channel lvl txt
           | OutputFile o1 \<Rightarrow> (\<lambda>l. case of_output (can_append l) (file_line (log_time l) channel lvl txt) o1 (disk l) of
               (Inl e, fs) \<Rightarrow> (Inl e, l\<lparr>disk := fs, outputs := (outputs l)[i := OutputFile (of_do_close o1)]\<rparr>)
             | (Inr o2, fs) \<Rightarrow> (Inr (), l\<lparr>disk := fs, outputs := (outputs l)[i := OutputFile o2]\<rparr>)))
       (output_loop n (Suc i) channel lvl txt))"

definition manager_output :: "string \<Rightarrow> Level \<Rightarrow> string \<Rightarrow> unit logp" where
  "manager_output channel lvl txt =
     bindE (gets (\<lambda>l. length (outputs l))) (\<lambda>n.
     seqE (whenE (n = 0) (print_console channel lvl txt)) (output_loop n 0 channel lvl txt))"

text \<open>
  The statement \<open>logger->level() << text;\<close>: the \<open>Log\<close> object collects text only when its severity
  reaches the level of the channel, and its destructor writes it. An exception that leaves the
  destructor terminates the program.
\<close>

definition log_stmt :: "string \<Rightarrow> Level \<Rightarrow> string \<Rightarrow> unit logp" where
  "log_stmt channel lvl txt =
     bindE (gets (channel_level channel)) (\<lambda>min_level.
     if min_level \<le> lvl then
       (\<lambda>l. case manager_output channel lvl txt l of (Inl e, l') \<Rightarrow> (Inl Terminate, l') | (Inr _, l') \<Rightarrow> (Inr (), l'))
     else ret ())"

end
