(* ===== verification/LoggerFacts.thy ===== *)
theory LoggerFacts
  imports Logger
begin

text \<open>
  What the logging library guarantees: levels survive their text form, a statement below the
  level does nothing, the log file stays within its limit and rotation moves it whole to the old
  file; and the two places where the library loses a log or ends the program.
\<close>

section \<open>One log file\<close>

text \<open>The recorded size is the size of the file.\<close>

definition file_sized :: "output_file \<Rightarrow> files \<Rightarrow> bool" where
  "file_sized o1 fs \<longleftrightarrow> (\<exists>c. fs (of_name o1) = Some c \<and> int (length c) = of_size o1)"

lemma of_do_open_Inr:
  "of_do_open openable o1 fs = (Inr o2, fs') \<longleftrightarrow>
     openable (of_name o1) \<and> o2 = o1\<lparr>of_open := True\<rparr> \<and>
     fs' = (case fs (of_name o1) of None \<Rightarrow> fs(of_name o1 \<mapsto> []) | Some c \<Rightarrow> fs)"
  by (auto simp: of_do_open_def)

lemma of_do_close_names [simp]:
  "of_name (of_do_close o1) = of_name o1" "of_old (of_do_close o1) = of_old o1"
  "of_max (of_do_close o1) = of_max o1" "of_open (of_do_close o1) = False"
  "of_size (of_do_close o1) = (if of_open o1 then 0 else of_size o1)"
  by (simp_all add: of_do_close_def)

lemma of_rotate_Inr:
  assumes "of_rotate openable o1 fs = (Inr o2, fs')" and "fs (of_name o1) = Some c" and "of_name o1 \<noteq> of_old o1"
  shows "o2 = (of_do_close o1)\<lparr>of_open := True\<rparr> \<and> fs' = fs(of_old o1 \<mapsto> c, of_name o1 \<mapsto> [])"
  using assms by (auto simp: of_rotate_def Let_def of_do_open_Inr rename_file_def fun_upd_twist)

lemma of_output_cases:
  assumes "of_output openable line o1 fs = (Inr o2, fs')"
  obtains (append) "\<not> of_size o1 > of_max o1" "of_open o1" "o2 = o1\<lparr>of_size := of_size o1 + int (length line)\<rparr>"
      "fs' = fs(of_name o1 := map_option (\<lambda>c. c @ line) (fs (of_name o1)))"
  | (closed) "\<not> of_size o1 > of_max o1" "\<not> of_open o1" "o2 = o1" "fs' = fs"
  | (rotate) o3 fs1 where "of_size o1 > of_max o1" "of_rotate openable o1 fs = (Inr o3, fs1)"
      "o2 = (if of_open o3 then o3\<lparr>of_size := of_size o3 + int (length line)\<rparr> else o3)"
      "fs' = (if of_open o3 then fs1(of_name o3 := map_option (\<lambda>c. c @ line) (fs1 (of_name o3))) else fs1)"
  using assms by (auto simp: of_output_def Let_def split: if_splits prod.splits sum.splits)

section \<open>Channels\<close>

lemma setChannelConfig_level:
  assumes "distinct (map fst vs)"
  shows "\<exists>l'. setChannelConfig vs l = (Inr (), l') \<and>
    channels l' = channels l ++ map_of (map (\<lambda>(n, v). (n, toLevel v)) vs)"
  using assms
proof (induction vs arbitrary: l)
  case Nil
  then show ?case by simp
next
  case (Cons p vs)
  obtain n v where p: "p = (n, v)" by (cases p)
  let ?l = "snd (manager_get n l)"
  have get: "manager_get n l = (Inr (), ?l)" "(channels ?l)(n \<mapsto> toLevel v) = (channels l)(n \<mapsto> toLevel v)"
    by (auto simp: manager_get_def split: option.split)
  let ?l1 = "?l\<lparr>channels := (channels ?l)(n \<mapsto> toLevel v)\<rparr>"
  from Cons obtain l' where l': "setChannelConfig vs ?l1 = (Inr (), l')"
      "channels l' = channels ?l1 ++ map_of (map (\<lambda>(n, v). (n, toLevel v)) vs)"
    by fastforce
  have "n \<notin> dom (map_of (map (\<lambda>(n, v). (n, toLevel v)) vs))"
    using Cons.prems p by (auto simp: dom_map_of_conv_image_fst image_image split_def)
  then have "channels l' = channels l ++ (map_of (map (\<lambda>(n, v). (n, toLevel v)) vs))(n \<mapsto> toLevel v)"
    using l'(2) get(2) by (simp add: map_add_upd_left)
  moreover have "setChannelConfig (p # vs) l = (Inr (), l')"
    using get(1) l'(1) by (simp add: p seqE_Inr set_channel_level_def)
  ultimately show ?case by (auto simp: p map_add_def fun_eq_iff split: option.split)
qed

lemma level_text: "toLevel (toString l) = l"
  by (cases l) (simp_all add: toLevel_def strncmp_eq_def)

section \<open>Properties\<close>

text \<open>
  C31: the text form of the levels can be read back, and saving the levels of all channels and
  loading them again, into whatever state, gives every saved channel the level it had.
\<close>

theorem channel_levels_roundtrip:
  assumes "distinct (map fst vs)" and "\<forall>(n, v) \<in> set vs. cfg_values (getChannelConfig l) n = Some v"
  shows "\<exists>l'. setChannelConfig vs l0 = (Inr (), l') \<and> (\<forall>n \<in> fst ` set vs. channels l' n = channels l n)"
proof -
  let ?m = "map (\<lambda>(n, v). (n, toLevel v)) vs"
  obtain l' where l': "setChannelConfig vs l0 = (Inr (), l')" "channels l' = channels l0 ++ map_of ?m"
    using setChannelConfig_level [OF assms(1)] by blast
  have "map_of ?m n = channels l n" if n: "n \<in> fst ` set vs" for n
  proof -
    from n obtain v where nv: "(n, v) \<in> set vs" by auto
    with assms(2) obtain x where x: "channels l n = Some x" "v = toString x"
      by (auto simp: getChannelConfig_def)
    have "distinct (map fst ?m)" using assms(1) by (simp add: comp_def split_def)
    moreover have "(n, toLevel v) \<in> set ?m" using nv by force
    ultimately show ?thesis using x level_text by (simp add: map_of_eq_Some_iff)
  qed
  moreover have "n \<in> dom (map_of ?m)" if "n \<in> fst ` set vs" for n
  proof -
    from that have "n \<in> fst ` set ?m" by force
    then show ?thesis by (simp add: dom_map_of_conv_image_fst)
  qed
  ultimately have "\<forall>n \<in> fst ` set vs. channels l' n = channels l n"
    unfolding l'(2) by (intro ballI) (simp only: map_add_dom_app_simps(1))
  with l'(1) show ?thesis by blast
qed

definition demo_log :: log_state where
  "demo_log = \<lparr>channels = [''LMBd'' \<mapsto> eWarning], outputs = [], default_level = eInfo, disk = Map.empty,
     can_append = (\<lambda>_. True), stdout = [], log_time = \<lparr>dt_year = 2015, dt_month = 3, dt_day = 9, dt_hour = 7,
     dt_minute = 5, dt_second = 0, dt_ms = 42, dt_us = 0\<rparr>\<rparr>"

theorem channel_levels_roundtrip_witness:
  "\<exists>l'. setChannelConfig [(''LMBd'', ''WARN'')] (demo_log\<lparr>channels := Map.empty\<rparr>) = (Inr (), l')
     \<and> channels l' ''LMBd'' = Some eWarning"
  using channel_levels_roundtrip [of "[(''LMBd'', ''WARN'')]" demo_log "demo_log\<lparr>channels := Map.empty\<rparr>"]
  by (auto simp: getChannelConfig_def demo_log_def)

text \<open>
  The level word \<open>Warning\<close>, the default the configuration uses for \<open>ConsoleLogLevel\<close>, is not one of
  the words the library knows: it, like every unknown word, selects the level \<open>eCritic\<close>, at which
  none of the program's messages is logged.
\<close>

theorem unknown_level_is_critic:
  "(\<forall>w. take 4 w \<notin> toString ` UNIV \<longrightarrow> toLevel w = eCritic) \<and> take 4 ''Warning'' \<notin> toString ` UNIV"
proof -
  have "toString ` UNIV = {''DBUG'', ''INFO'', ''NOTE'', ''WARN'', ''EROR'', ''CRIT''}" (is "?L = ?R")
  proof
    show "?L \<subseteq> ?R"
    proof
      fix x assume "x \<in> ?L"
      then obtain l where "x = toString l" by blast
      then show "x \<in> ?R" by (cases l) simp_all
    qed
    show "?R \<subseteq> ?L"
      using rangeI [of toString eDebug] rangeI [of toString eInfo] rangeI [of toString eNotice]
        rangeI [of toString eWarning] rangeI [of toString eError] rangeI [of toString eCritic] by simp
  qed
  then show ?thesis by (auto simp: toLevel_def strncmp_eq_def)
qed

theorem unknown_level_is_critic_witness: "toLevel ''Warning'' = eCritic"
  using unknown_level_is_critic by blast



text \<open>
  a log longer than its limit does not survive a restart. The constructor renames it to the old
  file, but keeps its size as the size of the new, empty file; so the first line rotates again,
  and the old log is replaced by an empty file.
\<close>

theorem startup_destroys_long_log:
  assumes "of_new openable stale cfg fs = (Inr o1, fs1)"
    and "of_output openable line o1 fs1 = (Inr o2, fs2)"
    and "fs (of_name o1) = Some c" and "of_name o1 \<noteq> of_old o1"
    and "int (length c) > of_max_startup o1" and "int (length c) > of_max o1"
  shows "fs1 (of_old o1) = Some c \<and> fs2 (of_old o1) = Some [] \<and> fs2 (of_name o1) = Some line
    \<and> (\<forall>f. f \<noteq> of_name o1 \<longrightarrow> f \<noteq> of_old o1 \<longrightarrow> fs2 f = fs f)"
proof -
  define o0 where "o0 = \<lparr>of_open = False,
      of_size = (case fs (config_get cfg ''filename'' ''log.txt'') of Some txt \<Rightarrow> int (length txt) | None \<Rightarrow> stale),
      of_max_startup = config_get_long cfg ''max_startup_size'' 0,
      of_max = config_get_long cfg ''max_size'' (1024 * 1024),
      of_name = config_get cfg ''filename'' ''log.txt'',
      of_old = config_get cfg ''filename_old'' ''log.old.txt''\<rparr>"
  have new: "(if of_size o0 > of_max_startup o0 then of_rotate openable o0 fs else of_do_open openable o0 fs) = (Inr o1, fs1)"
    using assms(1) by (simp only: of_new_def o0_def Let_def)
  have same: "of_name o1 = of_name o0" "of_old o1 = of_old o0" "of_max o1 = of_max o0" "of_max_startup o1 = of_max_startup o0"
    using new by (auto simp: of_rotate_def Let_def of_do_open_Inr of_do_close_def split: if_splits)
  have sz: "of_size o0 = int (length c)" using assms(3) same(1) by (simp add: o0_def)
  with new assms(5) same have rot: "of_rotate openable o0 fs = (Inr o1, fs1)" by simp
  have c0: "fs (of_name o0) = Some c" "of_name o0 \<noteq> of_old o0" using assms(3,4) same by simp_all
  from of_rotate_Inr [OF rot c0] have o1: "o1 = o0\<lparr>of_open := True\<rparr>" "fs1 = fs(of_old o0 \<mapsto> c, of_name o0 \<mapsto> [])"
    by (auto simp: of_do_close_def o0_def)
  have big: "of_size o1 > of_max o1" using o1 sz assms(6) same by simp
  from assms(2) show ?thesis
  proof (cases rule: of_output_cases)
    case (rotate o3 fs3)
    have "fs1 (of_name o1) = Some []" "of_name o1 \<noteq> of_old o1" using o1 c0 by simp_all
    from of_rotate_Inr [OF rotate(2) this] show ?thesis using rotate(3,4) o1 c0 by auto
  qed (use big in simp_all)
qed

theorem startup_destroys_long_log_witness:
  "(let cfg = \<lparr>cfg_name = ''OutputFile'', cfg_values = [''filename'' \<mapsto> ''a'', ''filename_old'' \<mapsto> ''b'', ''max_size'' \<mapsto> ''2'']\<rparr>
    in \<exists>o1 fs1 o2 fs2. of_new (\<lambda>_. True) 0 cfg [''a'' \<mapsto> ''old''] = (Inr o1, fs1) \<and> fs1 ''b'' = Some ''old''
      \<and> of_output (\<lambda>_. True) ''xy'' o1 fs1 = (Inr o2, fs2) \<and> fs2 ''b'' = Some [])"
proof -
  let ?cfg = "\<lparr>cfg_name = ''OutputFile'', cfg_values = [''filename'' \<mapsto> ''a'', ''filename_old'' \<mapsto> ''b'', ''max_size'' \<mapsto> ''2'']\<rparr>"
  let ?o = "\<lparr>of_open = True, of_size = 3, of_max_startup = 0, of_max = 2, of_name = ''a'', of_old = ''b''\<rparr>"
  have two: "atol ''2'' = 2"
    by code_simp
  have new: "of_new (\<lambda>_. True) 0 ?cfg [''a'' \<mapsto> ''old''] = (Inr ?o, [''b'' \<mapsto> ''old'', ''a'' \<mapsto> []])"
    by (simp add: of_new_def of_rotate_def of_do_open_def of_do_close_def rename_file_def Let_def config_get_def
        config_get_long_def two fun_upd_twist)
  obtain o2 fs2 where out: "of_output (\<lambda>_. True) ''xy'' ?o [''b'' \<mapsto> ''old'', ''a'' \<mapsto> []] = (Inr o2, fs2)"
    by (simp add: of_output_def of_rotate_def of_do_open_def of_do_close_def rename_file_def Let_def)
  from startup_destroys_long_log [OF new out] new out show ?thesis by auto
qed

text \<open>
  C32: a statement whose severity is below the level of the channel changes nothing at all; one that
  reaches it, in a program without outputs, prints exactly one line on the console; with the log file
  as the only output it writes its line to the file, and when the file cannot be reopened after a
  rotation it terminates the program, because the exception leaves a destructor.
\<close>

theorem log_stmt_behaviour:
  shows "(lvl < channel_level ch l \<longrightarrow> log_stmt ch lvl txt l = (Inr (), l))
    \<and> (channel_level ch l \<le> lvl \<longrightarrow> outputs l = [] \<longrightarrow>
         log_stmt ch lvl txt l = (Inr (), l\<lparr>stdout := stdout l @ console_line (log_time l) ch lvl txt\<rparr>))
    \<and> (channel_level ch l \<le> lvl \<longrightarrow> outputs l = [OutputFile o1] \<longrightarrow>
         of_output (can_append l) (file_line (log_time l) ch lvl txt) o1 (disk l) = (Inr o2, fs) \<longrightarrow>
         log_stmt ch lvl txt l = (Inr (), l\<lparr>disk := fs, outputs := [OutputFile o2]\<rparr>))
    \<and> (channel_level ch l \<le> lvl \<longrightarrow> outputs l = [OutputFile o1] \<longrightarrow> of_size o1 > of_max o1 \<longrightarrow>
         \<not> can_append l (of_name o1) \<longrightarrow> fst (log_stmt ch lvl txt l) = Inl Terminate)"
  by (auto simp: log_stmt_def manager_output_def print_console_def bindE_def seqE_def gets_def modify_def
      of_output_def of_rotate_def of_do_open_def Let_def ret_def)

theorem log_stmt_behaviour_witness:
  "log_stmt ''LMBd'' eInfo ''hello'' demo_log = (Inr (), demo_log)"
  using log_stmt_behaviour [of eInfo "''LMBd''" demo_log] by (simp add: channel_level_def demo_log_def less_Level_def)

end
