(* ===== verification/Posix.thy ===== *)
theory Posix
  imports Prelude
begin

text \<open>
  The boundary to the operating system: the system calls the serial library, the driver and the
  daemon make, the replies they get, and the trace of both. The system itself is not under
  \<^verbatim>\<open>src/\<close>; it is a parameter, the field \<open>answer\<close> of a record \<open>os\<close>, which may answer every
  call as it likes and may let its answer depend on everything that happened before. What a
  theorem needs to know about it is a named hypothesis (\<open>kernel_ok\<close>, \<open>mutex_ok\<close>,
  \<open>clock_advances\<close>) that states documented behaviour of the calls.
\<close>

unbundle bit_operations_syntax

section \<open>Data passed to and from the system\<close>

text \<open>\<open>timespec\<close>: seconds and nanoseconds.\<close>

type_synonym timespec = "int \<times> int"

text \<open>The fields of \<open>struct termios\<close> the code touches; a speed is represented by its baud rate.\<close>

record termios =
  c_iflag :: u32
  c_oflag :: u32
  c_cflag :: u32
  c_lflag :: u32
  c_vmin :: u8
  c_vtime :: u8
  c_ispeed :: nat
  c_ospeed :: nat

record serial_struct =
  baud_base :: int
  custom_divisor :: int
  ser_flags :: u32

datatype mutex_id = ReadMutex | WriteMutex | IoMutex

datatype queue_sel = TCIFLUSH | TCOFLUSH

datatype syscall =
    Open string
  | Close int
  | Tcgetattr int
  | Tcsetattr int termios
  | TIOCGSERIAL int
  | TIOCSSERIAL int serial_struct
  | TIOCINQ int
  | TIOCSBRK int
  | TIOCCBRK int
  | TIOCMBIS int u32
  | TIOCMBIC int u32
  | TIOCMGET int
  | TIOCMIWAIT int u32
  | SelectRead int timespec
  | SelectWrite int timespec
  | SelectSleep timespec
  | Read int nat
  | Write int "u8 list"
  | ClockGettime
  | Tcdrain int
  | Tcflush int queue_sel
  | Tcsendbreak int int
  | MutexLock mutex_id
  | MutexUnlock mutex_id
  | Usleep nat

text \<open>
  A reply: the return value, \<open>errno\<close>, and what the call stores through its pointers. For
  \<open>Read\<close>, a non-negative \<open>ret_val\<close> means success and the bytes are \<open>rdata\<close>, whose length is
  the number the call returns.
\<close>

record reply =
  ret_val :: int
  err_no :: int
  fd_is_set :: bool
  rdata :: "u8 list"
  tspec :: timespec
  tios :: termios
  sstruct :: serial_struct
  status :: u32

type_synonym trace = "(syscall \<times> reply) list"

text \<open>
  The system: its answers, and the number of iterations of a loop without a bound of its own that
  the model follows before it gives up with \<open>NoReturn\<close>.
\<close>

record os =
  answer :: "trace \<Rightarrow> syscall \<Rightarrow> reply"
  patience :: nat

definition read_count :: "reply \<Rightarrow> int" where
  "read_count r = (if ret_val r < 0 then - 1 else int (length (rdata r)))"

definition EINTR :: int where "EINTR = 4"
definition ENFILE :: int where "ENFILE = 23"
definition EMFILE :: int where "EMFILE = 24"

section \<open>What a trace says\<close>

text \<open>The bytes the device accepted.\<close>

fun sent1 :: "syscall \<times> reply \<Rightarrow> u8 list" where
  "sent1 (Write fd bs, r) = take (nat (ret_val r)) bs"
| "sent1 _ = []"

definition sent :: "trace \<Rightarrow> u8 list" where
  "sent t = concat (map sent1 t)"

text \<open>The bytes the device delivered.\<close>

fun received1 :: "syscall \<times> reply \<Rightarrow> u8 list" where
  "received1 (Read fd n, r) = (if read_count r < 1 then [] else rdata r)"
| "received1 _ = []"

definition received :: "trace \<Rightarrow> u8 list" where
  "received t = concat (map received1 t)"

text \<open>How often a mutex is held: successful locks minus successful unlocks.\<close>

fun held1 :: "mutex_id \<Rightarrow> syscall \<times> reply \<Rightarrow> int" where
  "held1 m (MutexLock m', r) = (if m' = m \<and> ret_val r = 0 then 1 else 0)"
| "held1 m (MutexUnlock m', r) = (if m' = m \<and> ret_val r = 0 then - 1 else 0)"
| "held1 m _ = 0"

definition held :: "mutex_id \<Rightarrow> trace \<Rightarrow> int" where
  "held m t = sum_list (map (held1 m) t)"

text \<open>The descriptors of the port that are open, as a multiset given by its counts.\<close>

fun fd_count1 :: "int \<Rightarrow> syscall \<times> reply \<Rightarrow> int" where
  "fd_count1 fd (Open p, r) = (if ret_val r = fd \<and> fd \<noteq> - 1 then 1 else 0)"
| "fd_count1 fd (Close fd', r) = (if fd' = fd \<and> ret_val r = 0 then - 1 else 0)"
| "fd_count1 fd _ = 0"

definition fd_count :: "int \<Rightarrow> trace \<Rightarrow> int" where
  "fd_count fd t = sum_list (map (fd_count1 fd) t)"

text \<open>How often the clock was read.\<close>

definition clock_reads :: "trace \<Rightarrow> nat" where
  "clock_reads t = length (filter (\<lambda>(c, r). c = ClockGettime) t)"

named_theorems trace_simps "equations for what a trace says"

lemma sent_simps [simp, trace_simps]: "sent [] = []" "sent (t @ u) = sent t @ sent u" "sent (e # t) = sent1 e @ sent t"
  by (simp_all add: sent_def)

lemma received_simps [simp, trace_simps]:
  "received [] = []" "received (t @ u) = received t @ received u" "received (e # t) = received1 e @ received t"
  by (simp_all add: received_def)

lemma held_simps [simp, trace_simps]: "held m [] = 0" "held m (t @ u) = held m t + held m u" "held m (e # t) = held1 m e + held m t"
  by (simp_all add: held_def)

lemma fd_count_simps [simp, trace_simps]:
  "fd_count fd [] = 0" "fd_count fd (t @ u) = fd_count fd t + fd_count fd u" "fd_count fd (e # t) = fd_count1 fd e + fd_count fd t"
  by (simp_all add: fd_count_def)

lemma clock_reads_simps [simp, trace_simps]:
  "clock_reads [] = 0" "clock_reads (t @ u) = clock_reads t + clock_reads u"
  "clock_reads ((c, r) # t) = (if c = ClockGettime then 1 else 0) + clock_reads t"
  by (simp_all add: clock_reads_def)

section \<open>Documented behaviour of the system\<close>

text \<open>\<open>read\<close> and \<open>write\<close> never transfer more than they were asked to.\<close>

definition kernel_ok :: "os \<Rightarrow> bool" where
  "kernel_ok sys \<longleftrightarrow>
     (\<forall>t fd bs. ret_val (answer sys t (Write fd bs)) \<le> int (length bs)) \<and>
     (\<forall>t fd n. length (rdata (answer sys t (Read fd n))) \<le> n)"

lemma kernel_ok_write: "kernel_ok sys \<Longrightarrow> nat (ret_val (answer sys t (Write fd bs))) \<le> length bs"
  unfolding kernel_ok_def by (metis nat_int nat_mono)

lemma kernel_ok_read: "kernel_ok sys \<Longrightarrow> length (rdata (answer sys t (Read fd n))) \<le> n"
  unfolding kernel_ok_def by blast

text \<open>Locking and unlocking a mutex the caller may lock and unlock succeeds.\<close>

definition mutex_ok :: "os \<Rightarrow> bool" where
  "mutex_ok sys \<longleftrightarrow> (\<forall>t m. ret_val (answer sys t (MutexLock m)) = 0 \<and> ret_val (answer sys t (MutexUnlock m)) = 0)"

text \<open>
  The clock: readings are normalised, and between any two readings it advances by at least
  \<open>d\<close> nanoseconds.
\<close>

definition nanos :: "timespec \<Rightarrow> int" where
  "nanos ts = fst ts * 10 ^ 9 + snd ts"

definition clock_advances :: "os \<Rightarrow> int \<Rightarrow> bool" where
  "clock_advances sys d \<longleftrightarrow> 0 < d \<and>
     (\<forall>t. 0 \<le> snd (tspec (answer sys t ClockGettime)) \<and> snd (tspec (answer sys t ClockGettime)) < 10 ^ 9) \<and>
     (\<forall>t u. nanos (tspec (answer sys t ClockGettime)) + d * int (clock_reads u)
            \<le> nanos (tspec (answer sys (t @ u) ClockGettime)))"

lemma clock_advancesD:
  "clock_advances sys d \<Longrightarrow>
   nanos (tspec (answer sys t ClockGettime)) + d * int (clock_reads u)
     \<le> nanos (tspec (answer sys (t @ u) ClockGettime))"
  by (simp add: clock_advances_def)

section \<open>A system for examples\<close>

text \<open>
  A concrete system the examples run on: every call succeeds, a read delivers as many bytes
  \<^verbatim>\<open>0x54\<close> as it was asked for, a write takes everything, and each reading of the clock is a
  millisecond after the one before.
\<close>

definition quiet_reply :: reply where
  "quiet_reply = \<lparr>ret_val = 0, err_no = 0, fd_is_set = True, rdata = [], tspec = (0, 0),
     tios = \<lparr>c_iflag = 0, c_oflag = 0, c_cflag = 0, c_lflag = 0, c_vmin = 1, c_vtime = 0,
             c_ispeed = 0, c_ospeed = 0\<rparr>,
     sstruct = \<lparr>baud_base = 115200, custom_divisor = 0, ser_flags = 0\<rparr>, status = 0\<rparr>"

fun demo_answer :: "trace \<Rightarrow> syscall \<Rightarrow> reply" where
  "demo_answer t (Open p) = quiet_reply\<lparr>ret_val := 3\<rparr>"
| "demo_answer t (Read fd n) = quiet_reply\<lparr>ret_val := int n, rdata := replicate n 0x54\<rparr>"
| "demo_answer t (Write fd bs) = quiet_reply\<lparr>ret_val := int (length bs)\<rparr>"
| "demo_answer t (SelectRead fd ts) = quiet_reply\<lparr>ret_val := 1\<rparr>"
| "demo_answer t (SelectWrite fd ts) = quiet_reply\<lparr>ret_val := 1\<rparr>"
| "demo_answer t ClockGettime = quiet_reply\<lparr>tspec := (int (clock_reads t) div 1000, (int (clock_reads t) mod 1000) * 10 ^ 6)\<rparr>"
| "demo_answer t _ = quiet_reply"

definition demo_os :: os where
  "demo_os = \<lparr>answer = demo_answer, patience = 3\<rparr>"

lemma demo_kernel_ok: "kernel_ok demo_os"
  by (simp add: kernel_ok_def demo_os_def)

lemma demo_mutex_ok: "mutex_ok demo_os"
  by (simp add: mutex_ok_def demo_os_def quiet_reply_def)

lemma demo_nanos: "nanos (tspec (demo_answer t ClockGettime)) = int (clock_reads t) * 10 ^ 6"
proof -
  define q r where "q = int (clock_reads t) div 1000" and "r = int (clock_reads t) mod 1000"
  have "int (clock_reads t) = q * 1000 + r" by (simp add: q_def r_def)
  moreover have "nanos (tspec (demo_answer t ClockGettime)) = (q * 1000 + r) * 10 ^ 6"
    by (simp add: nanos_def q_def [symmetric] r_def [symmetric])
  ultimately show ?thesis by simp
qed

lemma demo_clock_advances: "clock_advances demo_os (10 ^ 6)"
  unfolding clock_advances_def
proof (intro conjI allI)
  fix t u
  show "nanos (tspec (answer demo_os t ClockGettime)) + 10 ^ 6 * int (clock_reads u)
      \<le> nanos (tspec (answer demo_os (t @ u) ClockGettime))"
    using demo_nanos [of t] demo_nanos [of "t @ u"] by (simp add: demo_os_def)
next
  fix t
  have "int (clock_reads t) mod 1000 < 1000" by simp
  then have "int (clock_reads t) mod 1000 * 10 ^ 6 < 1000 * 10 ^ 6" by (intro mult_strict_right_mono) simp_all
  then show "snd (tspec (answer demo_os t ClockGettime)) < 10 ^ 9" by (simp add: demo_os_def)
qed (simp_all add: demo_os_def)

end
