(* ===== verification/SerialImpl.thy ===== *)
theory SerialImpl
  imports Posix
begin

text \<open>
  The Unix implementation of a serial port, \<^verbatim>\<open>src/src/serial/src/impl/unix.cc\<close>, as compiled
  for Linux with glibc: \<open>Serial::SerialImpl\<close> with its fields, opening and configuring the port,
  closing it, the read and write loops with their timeouts, the modem lines, and the two mutexes.
  Floating-point expressions such as \<open>1e9 / baudrate_\<close> are computed exactly and truncated, as
  the doubles of the code are for the values that occur.
\<close>

section \<open>Types of \<^verbatim>\<open>serial.h\<close>\<close>

text \<open>The enumerations, each with the numbers a cast can produce beside its enumerators.\<close>

datatype bytesize_t = fivebits | sixbits | sevenbits | eightbits | bytesize_cast nat
datatype parity_t = parity_none | parity_odd | parity_even | parity_mark | parity_space | parity_cast nat
datatype stopbits_t = stopbits_one | stopbits_two | stopbits_one_point_five | stopbits_cast nat
datatype flowcontrol_t = flowcontrol_none | flowcontrol_software | flowcontrol_hardware | flowcontrol_cast nat

fun bytesize_val :: "bytesize_t \<Rightarrow> nat" where
  "bytesize_val fivebits = 5"
| "bytesize_val sixbits = 6"
| "bytesize_val sevenbits = 7"
| "bytesize_val eightbits = 8"
| "bytesize_val (bytesize_cast n) = n"

fun parity_val :: "parity_t \<Rightarrow> nat" where
  "parity_val parity_none = 0"
| "parity_val parity_odd = 1"
| "parity_val parity_even = 2"
| "parity_val parity_mark = 3"
| "parity_val parity_space = 4"
| "parity_val (parity_cast n) = n"

fun stopbits_val :: "stopbits_t \<Rightarrow> nat" where
  "stopbits_val stopbits_one = 1"
| "stopbits_val stopbits_two = 2"
| "stopbits_val stopbits_one_point_five = 3"
| "stopbits_val (stopbits_cast n) = n"

record Timeout =
  inter_byte_timeout :: u32
  read_timeout_constant :: u32
  read_timeout_multiplier :: u32
  write_timeout_constant :: u32
  write_timeout_multiplier :: u32

definition Timeout_max :: u32 where
  "Timeout_max = 0xFFFFFFFF"

definition simpleTimeout :: "u32 \<Rightarrow> Timeout" where
  "simpleTimeout tmo = \<lparr>inter_byte_timeout = Timeout_max, read_timeout_constant = tmo,
     read_timeout_multiplier = 0, write_timeout_constant = tmo, write_timeout_multiplier = 0\<rparr>"

definition default_Timeout :: Timeout where
  "default_Timeout = \<lparr>inter_byte_timeout = 0, read_timeout_constant = 0,
     read_timeout_multiplier = 0, write_timeout_constant = 0, write_timeout_multiplier = 0\<rparr>"

section \<open>The object\<close>

record serial_impl =
  ser_port :: string
  ser_fd :: int
  ser_is_open :: bool
  ser_xonxoff :: bool
  ser_rtscts :: bool
  ser_timeout :: Timeout
  ser_baudrate :: nat
  ser_byte_time_ns :: u32
  ser_parity :: parity_t
  ser_bytesize :: bytesize_t
  ser_stopbits :: stopbits_t
  ser_flowcontrol :: flowcontrol_t

type_synonym ser_state = "serial_impl \<times> trace"

type_synonym 'a ser = "(ser_state, 'a) prog"

definition call :: "os \<Rightarrow> syscall \<Rightarrow> reply ser" where
  "call sys c = (\<lambda>(s, t). (Inr (answer sys t c), (s, t @ [(c, answer sys t c)])))"

definition fld :: "(serial_impl \<Rightarrow> 'a) \<Rightarrow> 'a ser" where
  "fld f = gets (\<lambda>(s, t). f s)"

definition upd :: "(serial_impl \<Rightarrow> serial_impl) \<Rightarrow> unit ser" where
  "upd f = modify (\<lambda>(s, t). (f s, t))"

text \<open>The pattern \<open>if (-1 == call) throw e\<close>.\<close>

definition call_or_throw :: "os \<Rightarrow> syscall \<Rightarrow> (reply \<Rightarrow> exn) \<Rightarrow> reply ser" where
  "call_or_throw sys c e = bindE (call sys c) (\<lambda>r. if ret_val r = - 1 then throw (e r) else ret r)"

abbreviation ioctl_failed :: "string \<Rightarrow> reply \<Rightarrow> exn" where
  "ioctl_failed what \<equiv> (\<lambda>r. SerialException (what @ show_int (err_no r)))"

section \<open>Timers\<close>

text \<open>\<open>timespec_from_ms\<close> for an unsigned number of milliseconds.\<close>

definition timespec_from_ms :: "u32 \<Rightarrow> timespec" where
  "timespec_from_ms millis = (uint millis div 1000, uint millis mod 1000 * 10 ^ 6)"

text \<open>
  The constructor of \<open>MillisecondTimer\<close>: the expiry time. \<open>static_cast<int> (1e9 * sec_diff)\<close>
  converts a double to \<open>int\<close>, which is undefined when the value does not fit.
\<close>

definition timer_expiry :: "timespec \<Rightarrow> u32 \<Rightarrow> exn + timespec" where
  "timer_expiry now millis =
     (let tv_nsec = snd now + uint millis * 10 ^ 6
      in if tv_nsec \<ge> 10 ^ 9 then
           (let sec_diff = tv_nsec div 10 ^ 9
            in if 10 ^ 9 * sec_diff \<ge> 2 ^ 31 then Inl (Undefined ''double to int out of range'')
               else Inr (fst now + sec_diff, tv_nsec - 10 ^ 9 * sec_diff))
         else Inr (fst now, tv_nsec))"

definition new_timer :: "os \<Rightarrow> u32 \<Rightarrow> timespec ser" where
  "new_timer sys millis =
     bindE (call sys ClockGettime) (\<lambda>r. lift (timer_expiry (tspec r) millis))"

text \<open>Division of C: towards zero.\<close>

definition trunc_div :: "int \<Rightarrow> int \<Rightarrow> int" where
  "trunc_div a b = sgn a * sgn b * (\<bar>a\<bar> div \<bar>b\<bar>)"

definition remaining_ms :: "timespec \<Rightarrow> timespec \<Rightarrow> int" where
  "remaining_ms expiry now =
     trunc_div ((fst expiry - fst now) * 10 ^ 9 + (snd expiry - snd now)) (10 ^ 6)"

definition remaining :: "os \<Rightarrow> timespec \<Rightarrow> int ser" where
  "remaining sys expiry = bindE (call sys ClockGettime) (\<lambda>r. ret (remaining_ms expiry (tspec r)))"

text \<open>\<open>long total_timeout_ms = constant + multiplier * size\<close>, passed on as a \<open>uint32_t\<close>.\<close>

definition total_timeout_ms :: "u32 \<Rightarrow> u32 \<Rightarrow> nat \<Rightarrow> u32" where
  "total_timeout_ms constant multiplier sz = word_of_int (uint constant + uint multiplier * int sz)"

section \<open>Configuring the port\<close>

definition CLOCAL :: u32 where "CLOCAL = 0x800"
definition CREAD :: u32 where "CREAD = 0x80"
definition ICANON :: u32 where "ICANON = 0x2"
definition ECHO :: u32 where "ECHO = 0x8"
definition ECHOE :: u32 where "ECHOE = 0x10"
definition ECHOK :: u32 where "ECHOK = 0x20"
definition ECHONL :: u32 where "ECHONL = 0x40"
definition ISIG :: u32 where "ISIG = 0x1"
definition IEXTEN :: u32 where "IEXTEN = 0x8000"
definition OPOST :: u32 where "OPOST = 0x1"
definition INLCR :: u32 where "INLCR = 0x40"
definition IGNCR :: u32 where "IGNCR = 0x80"
definition ICRNL :: u32 where "ICRNL = 0x100"
definition IGNBRK :: u32 where "IGNBRK = 0x1"
definition IUCLC :: u32 where "IUCLC = 0x200"
definition PARMRK :: u32 where "PARMRK = 0x8"
definition CSIZE :: u32 where "CSIZE = 0x30"
definition CS5 :: u32 where "CS5 = 0x0"
definition CS6 :: u32 where "CS6 = 0x10"
definition CS7 :: u32 where "CS7 = 0x20"
definition CS8 :: u32 where "CS8 = 0x30"
definition CSTOPB :: u32 where "CSTOPB = 0x40"
definition PARENB :: u32 where "PARENB = 0x100"
definition PARODD :: u32 where "PARODD = 0x200"
definition CMSPAR :: u32 where "CMSPAR = 0x40000000"
definition INPCK :: u32 where "INPCK = 0x10"
definition ISTRIP :: u32 where "ISTRIP = 0x20"
definition IXON :: u32 where "IXON = 0x400"
definition IXOFF :: u32 where "IXOFF = 0x1000"
definition IXANY :: u32 where "IXANY = 0x800"
definition CRTSCTS :: u32 where "CRTSCTS = 0x80000000"
definition ASYNC_SPD_MASK :: u32 where "ASYNC_SPD_MASK = 0x1030"
definition ASYNC_SPD_CUST :: u32 where "ASYNC_SPD_CUST = 0x30"

lemmas termios_flags =
  CLOCAL_def CREAD_def ICANON_def ECHO_def ECHOE_def ECHOK_def ECHONL_def ISIG_def IEXTEN_def
  OPOST_def INLCR_def IGNCR_def ICRNL_def IGNBRK_def IUCLC_def PARMRK_def CSIZE_def CS5_def
  CS6_def CS7_def CS8_def CSTOPB_def PARENB_def PARODD_def CMSPAR_def INPCK_def ISTRIP_def
  IXON_def IXOFF_def IXANY_def CRTSCTS_def

text \<open>Raw mode, no echo, binary.\<close>

definition raw_mode :: "termios \<Rightarrow> termios" where
  "raw_mode opt = opt\<lparr>
     c_cflag := c_cflag opt OR (CLOCAL OR CREAD),
     c_lflag := c_lflag opt AND NOT (ICANON OR ECHO OR ECHOE OR ECHOK OR ECHONL OR ISIG OR IEXTEN),
     c_oflag := c_oflag opt AND NOT OPOST,
     c_iflag := ((c_iflag opt AND NOT (INLCR OR IGNCR OR ICRNL OR IGNBRK)) AND NOT IUCLC) AND NOT PARMRK\<rparr>"

text \<open>
  The cases of the \<open>switch (baudrate_)\<close> whose constant exists on Linux, in the source's order.
  The others (\<open>B7200\<close>, \<open>B14400\<close>, \<open>B28800\<close>, \<open>B76800\<close>, \<open>B128000\<close>, \<open>B153600\<close>, \<open>B256000\<close>)
  are compiled out by their \<open>#ifdef\<close>.
\<close>

definition linux_bauds :: "nat list" where
  "linux_bauds = [0, 50, 75, 110, 134, 150, 200, 300, 600, 1200, 1800, 2400, 4800, 9600, 19200,
     57600, 38400, 115200, 230400, 460800, 576000, 921600, 1000000, 1152000, 1500000, 2000000,
     2500000, 3000000, 3500000, 4000000]"

definition setup_baud :: "os \<Rightarrow> int \<Rightarrow> nat \<Rightarrow> termios \<Rightarrow> termios ser" where
  "setup_baud sys fd baud opt =
     (if baud \<in> set linux_bauds then ret (opt\<lparr>c_ispeed := baud, c_ospeed := baud\<rparr>)
      else bindE (call_or_throw sys (TIOCGSERIAL fd) (\<lambda>r. IOException_errno (err_no r))) (\<lambda>r.
        let ser = sstruct r; b = sint (of_nat baud :: u32)
        in if b = 0 then throw (Undefined ''division by zero'')
           else seqE (call_or_throw sys
                   (TIOCSSERIAL fd (ser\<lparr>custom_divisor := trunc_div (baud_base ser) b,
                      ser_flags := (ser_flags ser AND NOT ASYNC_SPD_MASK) OR ASYNC_SPD_CUST\<rparr>))
                   (\<lambda>r. IOException_errno (err_no r)))
                (ret opt)))"

definition setup_bytesize :: "bytesize_t \<Rightarrow> termios \<Rightarrow> exn + termios" where
  "setup_bytesize bs opt =
     (let cf = c_cflag opt AND NOT CSIZE
      in case bs of
           eightbits \<Rightarrow> Inr (opt\<lparr>c_cflag := cf OR CS8\<rparr>)
         | sevenbits \<Rightarrow> Inr (opt\<lparr>c_cflag := cf OR CS7\<rparr>)
         | sixbits \<Rightarrow> Inr (opt\<lparr>c_cflag := cf OR CS6\<rparr>)
         | fivebits \<Rightarrow> Inr (opt\<lparr>c_cflag := cf OR CS5\<rparr>)
         | bytesize_cast _ \<Rightarrow> Inl (InvalidArgument ''invalid char len''))"

definition setup_stopbits :: "stopbits_t \<Rightarrow> termios \<Rightarrow> exn + termios" where
  "setup_stopbits sb opt =
     (case sb of
        stopbits_one \<Rightarrow> Inr (opt\<lparr>c_cflag := c_cflag opt AND NOT CSTOPB\<rparr>)
      | stopbits_one_point_five \<Rightarrow> Inr (opt\<lparr>c_cflag := c_cflag opt OR CSTOPB\<rparr>)
      | stopbits_two \<Rightarrow> Inr (opt\<lparr>c_cflag := c_cflag opt OR CSTOPB\<rparr>)
      | stopbits_cast _ \<Rightarrow> Inl (InvalidArgument ''invalid stop bit''))"

definition setup_parity :: "parity_t \<Rightarrow> termios \<Rightarrow> exn + termios" where
  "setup_parity p opt0 =
     (let opt = opt0\<lparr>c_iflag := c_iflag opt0 AND NOT (INPCK OR ISTRIP)\<rparr>; cf = c_cflag opt
      in case p of
           parity_none \<Rightarrow> Inr (opt\<lparr>c_cflag := cf AND NOT (PARENB OR PARODD)\<rparr>)
         | parity_even \<Rightarrow> Inr (opt\<lparr>c_cflag := (cf AND NOT PARODD) OR PARENB\<rparr>)
         | parity_odd \<Rightarrow> Inr (opt\<lparr>c_cflag := cf OR (PARENB OR PARODD)\<rparr>)
         | parity_mark \<Rightarrow> Inr (opt\<lparr>c_cflag := cf OR (PARENB OR CMSPAR OR PARODD)\<rparr>)
         | parity_space \<Rightarrow> Inr (opt\<lparr>c_cflag := (cf OR (PARENB OR CMSPAR)) AND NOT PARODD\<rparr>)
         | parity_cast _ \<Rightarrow> Inl (InvalidArgument ''invalid parity''))"

definition setup_flow :: "serial_impl \<Rightarrow> serial_impl" where
  "setup_flow s =
     (case ser_flowcontrol s of
        flowcontrol_none \<Rightarrow> s\<lparr>ser_xonxoff := False, ser_rtscts := False\<rparr>
      | flowcontrol_software \<Rightarrow> s\<lparr>ser_xonxoff := True, ser_rtscts := False\<rparr>
      | flowcontrol_hardware \<Rightarrow> s\<lparr>ser_xonxoff := False, ser_rtscts := True\<rparr>
      | flowcontrol_cast _ \<Rightarrow> s)"

definition flow_flags :: "serial_impl \<Rightarrow> termios \<Rightarrow> termios" where
  "flow_flags s opt = opt\<lparr>
     c_iflag := (if ser_xonxoff s then c_iflag opt OR (IXON OR IXOFF)
                 else c_iflag opt AND NOT (IXON OR IXOFF OR IXANY)),
     c_cflag := (if ser_rtscts s then c_cflag opt OR CRTSCTS else c_cflag opt AND NOT CRTSCTS),
     c_vmin := 0, c_vtime := 0\<rparr>"

text \<open>
  The time of one byte in nanoseconds. \<open>1e9 / baudrate_\<close> is infinite for baud rate 0, and the
  correction for one and a half stop bits can be negative; neither converts to \<open>uint32_t\<close>.
\<close>

definition byte_time :: "nat \<Rightarrow> bytesize_t \<Rightarrow> parity_t \<Rightarrow> stopbits_t \<Rightarrow> exn + u32" where
  "byte_time baud bs p sb =
     (if baud = 0 then Inl (Undefined ''double to uint32_t out of range'')
      else let bit_time_ns = of_nat (10 ^ 9 div baud) :: u32;
               bt = bit_time_ns * (1 + of_nat (bytesize_val bs) + of_nat (parity_val p) + of_nat (stopbits_val sb))
           in if sb = stopbits_one_point_five
              then (let twice = 2 * uint bt - 3 * uint bit_time_ns
                    in if twice \<le> - 2 then Inl (Undefined ''double to uint32_t out of range'')
                       else Inr (of_nat (nat twice div 2)))
              else Inr bt)"

definition reconfigurePort :: "os \<Rightarrow> unit ser" where
  "reconfigurePort sys =
     bindE (fld ser_fd) (\<lambda>fd.
     if fd = - 1 then throw (IOException ''Invalid file descriptor, is the serial port open?'')
     else
     bindE (call_or_throw sys (Tcgetattr fd) (\<lambda>r. IOException ''::tcgetattr'')) (\<lambda>r.
     bindE (fld (\<lambda>s. s)) (\<lambda>s.
     bindE (setup_baud sys fd (ser_baudrate s) (raw_mode (tios r))) (\<lambda>o1.
     bindE (lift (setup_bytesize (ser_bytesize s) o1)) (\<lambda>o2.
     bindE (lift (setup_stopbits (ser_stopbits s) o2)) (\<lambda>o3.
     bindE (lift (setup_parity (ser_parity s) o3)) (\<lambda>o4.
     seqE (upd setup_flow) (
     bindE (fld (\<lambda>s. s)) (\<lambda>s1.
     seqE (call sys (Tcsetattr fd (flow_flags s1 o4))) (
     bindE (lift (byte_time (ser_baudrate s) (ser_bytesize s) (ser_parity s) (ser_stopbits s))) (\<lambda>bt.
     upd (\<lambda>s. s\<lparr>ser_byte_time_ns := bt\<rparr>))))))))))))"

section \<open>Opening and closing\<close>

fun impl_open_loop :: "os \<Rightarrow> nat \<Rightarrow> unit ser" where
  "impl_open_loop sys 0 = throw NoReturn"
| "impl_open_loop sys (Suc n) =
     bindE (fld (\<lambda>s. s)) (\<lambda>s.
     if ser_port s = [] then throw (InvalidArgument ''Empty port is invalid.'')
     else if ser_is_open s then throw (SerialException ''Serial port already open.'')
     else bindE (call sys (Open (ser_port s))) (\<lambda>r.
       seqE (upd (\<lambda>s. s\<lparr>ser_fd := ret_val r\<rparr>)) (
       if ret_val r = - 1 then
         (if err_no r = EINTR then impl_open_loop sys n
          else if err_no r = ENFILE \<or> err_no r = EMFILE then throw (IOException ''Too many file handles open.'')
          else throw (IOException_errno (err_no r)))
       else seqE (reconfigurePort sys) (upd (\<lambda>s. s\<lparr>ser_is_open := True\<rparr>)))))"

definition impl_open :: "os \<Rightarrow> unit ser" where
  "impl_open sys = impl_open_loop sys (patience sys)"

definition impl_close :: "os \<Rightarrow> unit ser" where
  "impl_close sys =
     bindE (fld (\<lambda>s. s)) (\<lambda>s.
     if ser_is_open s then
       seqE (if ser_fd s \<noteq> - 1 then
               bindE (call sys (Close (ser_fd s))) (\<lambda>r.
                 if ret_val r = 0 then upd (\<lambda>s. s\<lparr>ser_fd := - 1\<rparr>)
                 else throw (IOException_errno (err_no r)))
             else ret ())
         (upd (\<lambda>s. s\<lparr>ser_is_open := False\<rparr>))
     else ret ())"

text \<open>
  The constructor initialises the fields and opens the port unless its name is empty; the byte
  time is not initialised before the port is configured (\<open>bt0\<close> stands for its value).
\<close>

definition new_impl :: "string \<Rightarrow> nat \<Rightarrow> bytesize_t \<Rightarrow> parity_t \<Rightarrow> stopbits_t \<Rightarrow> flowcontrol_t \<Rightarrow> u32 \<Rightarrow> serial_impl" where
  "new_impl port baud bs p sb fc bt0 = \<lparr>ser_port = port, ser_fd = - 1, ser_is_open = False,
     ser_xonxoff = False, ser_rtscts = False, ser_timeout = default_Timeout, ser_baudrate = baud,
     ser_byte_time_ns = bt0, ser_parity = p, ser_bytesize = bs, ser_stopbits = sb, ser_flowcontrol = fc\<rparr>"

definition impl_ctor :: "os \<Rightarrow> unit ser" where
  "impl_ctor sys = bindE (fld ser_port) (\<lambda>p. if p \<noteq> [] then impl_open sys else ret ())"

definition impl_isOpen :: "bool ser" where
  "impl_isOpen = fld ser_is_open"

end
