(* ===== verification/SerialIO.thy ===== *)
theory SerialIO
  imports SerialImpl
begin

text \<open>
  The input and output half of \<^verbatim>\<open>src/src/serial/src/impl/unix.cc\<close>: waiting for data, the
  read and write loops, flushing, breaks, the modem lines, the setters that reconfigure an open
  port, and the two mutexes; with the properties of the loops.
\<close>

section \<open>Waiting\<close>

definition size_of_int :: "u32 \<Rightarrow> nat" where
  "size_of_int w = nat (sint w mod 2 ^ 64)"

definition impl_available :: "os \<Rightarrow> nat ser" where
  "impl_available sys =
     bindE (fld (\<lambda>s. s)) (\<lambda>s.
     if \<not> ser_is_open s then ret 0
     else bindE (call_or_throw sys (TIOCINQ (ser_fd s)) (\<lambda>r. IOException_errno (err_no r)))
            (\<lambda>r. ret (size_of_int (status r))))"

definition impl_waitReadable :: "os \<Rightarrow> u32 \<Rightarrow> bool ser" where
  "impl_waitReadable sys timeout =
     bindE (fld ser_fd) (\<lambda>fd.
     bindE (call sys (SelectRead fd (timespec_from_ms timeout))) (\<lambda>r.
     if ret_val r < 0 then
       (if err_no r = EINTR then ret False else throw (IOException_errno (err_no r)))
     else if ret_val r = 0 then ret False
     else if \<not> fd_is_set r then throw (IOException ''select reports ready to read, but our fd isn't in the list, this shouldn't happen!'')
     else ret True))"

text \<open>\<open>byte_time_ns_ * count\<close> is computed in \<open>size_t\<close> and converted to \<open>long\<close>.\<close>

definition impl_waitByteTimes :: "os \<Rightarrow> nat \<Rightarrow> unit ser" where
  "impl_waitByteTimes sys count =
     bindE (fld ser_byte_time_ns) (\<lambda>bt.
     seqE (call sys (SelectSleep (0, sint (of_nat (unat bt * count) :: 64 word)))) (ret ()))"

section \<open>Reading\<close>

text \<open>
  The wait before a multi-byte read without an inter-byte timeout, so that the whole of it can be
  fetched in one call.
\<close>

definition read_wait :: "os \<Rightarrow> nat \<Rightarrow> u8 list \<Rightarrow> serial_impl \<Rightarrow> unit ser" where
  "read_wait sys sz got s =
     whenE (sz > 1 \<and> inter_byte_timeout (ser_timeout s) = Timeout_max)
       (bindE (impl_available sys) (\<lambda>av.
          whenE ((av + length got) mod 2 ^ 64 < sz)
            (impl_waitByteTimes sys (sz - (av + length got) mod 2 ^ 64))))"

text \<open>
  The loop of \<open>read\<close>: \<open>got\<close> is what the buffer holds so far, so \<open>bytes_read\<close> is its length.
\<close>

fun impl_read_loop :: "os \<Rightarrow> nat \<Rightarrow> nat \<Rightarrow> timespec \<Rightarrow> u8 list \<Rightarrow> u8 list ser" where
  "impl_read_loop sys 0 sz expiry got = throw NoReturn"
| "impl_read_loop sys (Suc n) sz expiry got =
     (if length got < sz then
        bindE (remaining sys expiry) (\<lambda>ms.
        if ms \<le> 0 then ret got
        else bindE (fld (\<lambda>s. s)) (\<lambda>s.
          bindE (impl_waitReadable sys (min (word_of_int ms) (inter_byte_timeout (ser_timeout s)))) (\<lambda>rd.
          if rd then
            seqE (read_wait sys sz got s)
            (bindE (call sys (Read (ser_fd s) (sz - length got))) (\<lambda>r.
               if read_count r < 1 then throw (SerialException ''device reports readiness to read but returned no data (device disconnected?)'')
               else let got' = got @ rdata r
                    in if length got' = sz then ret got'
                       else if length got' < sz then impl_read_loop sys n sz expiry got'
                       else throw (SerialException ''read over read, too many bytes where read, this shouldn't happen, might be a logical error!'')))
          else impl_read_loop sys n sz expiry got)))
      else ret got)"

definition impl_read :: "os \<Rightarrow> nat \<Rightarrow> u8 list ser" where
  "impl_read sys sz =
     bindE (fld (\<lambda>s. s)) (\<lambda>s.
     if \<not> ser_is_open s then throw (PortNotOpenedException ''Serial::read'')
     else bindE (new_timer sys (total_timeout_ms (read_timeout_constant (ser_timeout s))
                   (read_timeout_multiplier (ser_timeout s)) sz)) (\<lambda>expiry.
       bindE (call sys (Read (ser_fd s) sz)) (\<lambda>r.
       impl_read_loop sys (patience sys) sz expiry (if read_count r > 0 then rdata r else []))))"

section \<open>Writing\<close>

fun impl_write_loop :: "os \<Rightarrow> nat \<Rightarrow> u8 list \<Rightarrow> timespec \<Rightarrow> nat \<Rightarrow> nat ser" where
  "impl_write_loop sys 0 data expiry written = throw NoReturn"
| "impl_write_loop sys (Suc n) data expiry written =
     (if written < length data then
        bindE (remaining sys expiry) (\<lambda>ms.
        if ms \<le> 0 then ret written
        else bindE (fld ser_fd) (\<lambda>fd.
          bindE (call sys (SelectWrite fd (timespec_from_ms (word_of_int ms)))) (\<lambda>r.
          if ret_val r < 0 then
            (if err_no r = EINTR then impl_write_loop sys n data expiry written
             else throw (IOException_errno (err_no r)))
          else if ret_val r = 0 then ret written
          else if fd_is_set r then
            bindE (call sys (Write fd (drop written data))) (\<lambda>w.
              if ret_val w < 1 then throw (SerialException ''device reports readiness to write but returned no data (device disconnected?)'')
              else let written' = written + nat (ret_val w)
                   in if written' = length data then ret written'
                      else if written' < length data then impl_write_loop sys n data expiry written'
                      else throw (SerialException ''write over wrote, too many bytes where written, this shouldn't happen, might be a logical error!''))
          else throw (IOException ''select reports ready to write, but our fd isn't in the list, this shouldn't happen!''))))
      else ret written)"

definition impl_write :: "os \<Rightarrow> u8 list \<Rightarrow> nat ser" where
  "impl_write sys data =
     bindE (fld (\<lambda>s. s)) (\<lambda>s.
     if \<not> ser_is_open s then throw (PortNotOpenedException ''Serial::write'')
     else bindE (new_timer sys (total_timeout_ms (write_timeout_constant (ser_timeout s))
                   (write_timeout_multiplier (ser_timeout s)) (length data))) (\<lambda>expiry.
       impl_write_loop sys (patience sys) data expiry 0))"

section \<open>Setters and getters\<close>

definition impl_setPort :: "string \<Rightarrow> unit ser" where
  "impl_setPort port = upd (\<lambda>s. s\<lparr>ser_port := port\<rparr>)"

definition impl_setTimeout :: "Timeout \<Rightarrow> unit ser" where
  "impl_setTimeout timeout = upd (\<lambda>s. s\<lparr>ser_timeout := timeout\<rparr>)"

text \<open>The setters of a line parameter store it and, when the port is open, reconfigure the port.\<close>

definition reconfigure_if_open :: "os \<Rightarrow> unit ser" where
  "reconfigure_if_open sys = bindE (fld ser_is_open) (\<lambda>op. whenE op (reconfigurePort sys))"

definition impl_setBaudrate :: "os \<Rightarrow> nat \<Rightarrow> unit ser" where
  "impl_setBaudrate sys b = seqE (upd (\<lambda>s. s\<lparr>ser_baudrate := b\<rparr>)) (reconfigure_if_open sys)"

definition impl_setBytesize :: "os \<Rightarrow> bytesize_t \<Rightarrow> unit ser" where
  "impl_setBytesize sys b = seqE (upd (\<lambda>s. s\<lparr>ser_bytesize := b\<rparr>)) (reconfigure_if_open sys)"

definition impl_setParity :: "os \<Rightarrow> parity_t \<Rightarrow> unit ser" where
  "impl_setParity sys p = seqE (upd (\<lambda>s. s\<lparr>ser_parity := p\<rparr>)) (reconfigure_if_open sys)"

definition impl_setStopbits :: "os \<Rightarrow> stopbits_t \<Rightarrow> unit ser" where
  "impl_setStopbits sys b = seqE (upd (\<lambda>s. s\<lparr>ser_stopbits := b\<rparr>)) (reconfigure_if_open sys)"

definition impl_setFlowcontrol :: "os \<Rightarrow> flowcontrol_t \<Rightarrow> unit ser" where
  "impl_setFlowcontrol sys f = seqE (upd (\<lambda>s. s\<lparr>ser_flowcontrol := f\<rparr>)) (reconfigure_if_open sys)"

section \<open>Flushing, breaks and modem lines\<close>

text \<open>\<open>if (is_open_ == false) throw PortNotOpenedException (who);\<close> then the body on the descriptor.\<close>

definition on_open_port :: "string \<Rightarrow> (int \<Rightarrow> 'a ser) \<Rightarrow> 'a ser" where
  "on_open_port who body =
     bindE (fld (\<lambda>s. s)) (\<lambda>s. if \<not> ser_is_open s then throw (PortNotOpenedException who) else body (ser_fd s))"

definition impl_flush :: "os \<Rightarrow> unit ser" where
  "impl_flush sys = on_open_port ''Serial::flush'' (\<lambda>fd. seqE (call sys (Tcdrain fd)) (ret ()))"

definition impl_flushInput :: "os \<Rightarrow> unit ser" where
  "impl_flushInput sys = on_open_port ''Serial::flushInput'' (\<lambda>fd. seqE (call sys (Tcflush fd TCIFLUSH)) (ret ()))"

definition impl_flushOutput :: "os \<Rightarrow> unit ser" where
  "impl_flushOutput sys = on_open_port ''Serial::flushOutput'' (\<lambda>fd. seqE (call sys (Tcflush fd TCOFLUSH)) (ret ()))"

definition impl_sendBreak :: "os \<Rightarrow> int \<Rightarrow> unit ser" where
  "impl_sendBreak sys duration =
     on_open_port ''Serial::sendBreak'' (\<lambda>fd. seqE (call sys (Tcsendbreak fd (trunc_div duration 4))) (ret ()))"

definition impl_setBreak :: "os \<Rightarrow> bool \<Rightarrow> unit ser" where
  "impl_setBreak sys level =
     on_open_port ''Serial::setBreak'' (\<lambda>fd.
       if level then seqE (call_or_throw sys (TIOCSBRK fd) (ioctl_failed ''setBreak failed on a call to ioctl(TIOCSBRK): '')) (ret ())
       else seqE (call_or_throw sys (TIOCCBRK fd) (ioctl_failed ''setBreak failed on a call to ioctl(TIOCCBRK): '')) (ret ()))"

definition TIOCM_DTR :: u32 where "TIOCM_DTR = 0x2"
definition TIOCM_RTS :: u32 where "TIOCM_RTS = 0x4"
definition TIOCM_CTS :: u32 where "TIOCM_CTS = 0x20"
definition TIOCM_CD :: u32 where "TIOCM_CD = 0x40"
definition TIOCM_RI :: u32 where "TIOCM_RI = 0x80"
definition TIOCM_DSR :: u32 where "TIOCM_DSR = 0x100"

definition impl_setRTS :: "os \<Rightarrow> bool \<Rightarrow> unit ser" where
  "impl_setRTS sys level =
     on_open_port ''Serial::setRTS'' (\<lambda>fd.
       if level then seqE (call_or_throw sys (TIOCMBIS fd TIOCM_RTS) (ioctl_failed ''setRTS failed on a call to ioctl(TIOCMBIS): '')) (ret ())
       else seqE (call_or_throw sys (TIOCMBIC fd TIOCM_RTS) (ioctl_failed ''setRTS failed on a call to ioctl(TIOCMBIC): '')) (ret ()))"

definition impl_setDTR :: "os \<Rightarrow> bool \<Rightarrow> unit ser" where
  "impl_setDTR sys level =
     on_open_port ''Serial::setDTR'' (\<lambda>fd.
       if level then seqE (call_or_throw sys (TIOCMBIS fd TIOCM_DTR) (ioctl_failed ''setDTR failed on a call to ioctl(TIOCMBIS): '')) (ret ())
       else seqE (call_or_throw sys (TIOCMBIC fd TIOCM_DTR) (ioctl_failed ''setDTR failed on a call to ioctl(TIOCMBIC): '')) (ret ()))"

text \<open>Linux has \<open>TIOCMIWAIT\<close>, so the polling variant is compiled out; there is no open check.\<close>

definition impl_waitForChange :: "os \<Rightarrow> bool ser" where
  "impl_waitForChange sys =
     bindE (fld ser_fd) (\<lambda>fd.
     seqE (call_or_throw sys (TIOCMIWAIT fd (TIOCM_CD OR TIOCM_DSR OR TIOCM_RI OR TIOCM_CTS))
             (ioctl_failed ''waitForDSR failed on a call to ioctl(TIOCMIWAIT): '')) (ret True))"

definition modem_line :: "os \<Rightarrow> string \<Rightarrow> u32 \<Rightarrow> bool ser" where
  "modem_line sys name line =
     on_open_port (''Serial::'' @ name) (\<lambda>fd.
       bindE (call_or_throw sys (TIOCMGET fd) (ioctl_failed (name @ '' failed on a call to ioctl(TIOCMGET): '')))
         (\<lambda>r. ret (status r AND line \<noteq> 0)))"

definition impl_getCTS :: "os \<Rightarrow> bool ser" where
  "impl_getCTS sys = modem_line sys ''getCTS'' TIOCM_CTS"

definition impl_getDSR :: "os \<Rightarrow> bool ser" where
  "impl_getDSR sys = modem_line sys ''getDSR'' TIOCM_DSR"

definition impl_getRI :: "os \<Rightarrow> bool ser" where
  "impl_getRI sys = modem_line sys ''getRI'' TIOCM_RI"

definition impl_getCD :: "os \<Rightarrow> bool ser" where
  "impl_getCD sys = modem_line sys ''getCD'' TIOCM_CD"

section \<open>Mutexes\<close>

definition mutex_call :: "os \<Rightarrow> syscall \<Rightarrow> unit ser" where
  "mutex_call sys c = bindE (call sys c) (\<lambda>r. if ret_val r \<noteq> 0 then throw (IOException_errno (ret_val r)) else ret ())"

definition readLock :: "os \<Rightarrow> unit ser" where
  "readLock sys = mutex_call sys (MutexLock ReadMutex)"

definition readUnlock :: "os \<Rightarrow> unit ser" where
  "readUnlock sys = mutex_call sys (MutexUnlock ReadMutex)"

definition writeLock :: "os \<Rightarrow> unit ser" where
  "writeLock sys = mutex_call sys (MutexLock WriteMutex)"

definition writeUnlock :: "os \<Rightarrow> unit ser" where
  "writeUnlock sys = mutex_call sys (MutexUnlock WriteMutex)"

end
