(* ===== verification/SerialPort.thy ===== *)
theory SerialPort
  imports SerialIO
begin

text \<open>
  The class \<open>serial::Serial\<close>, \<^verbatim>\<open>src/src/serial/src/serial.cc\<close>: the public operations of a port.
  They forward to \<open>SerialImpl\<close>; the ones that read hold the read mutex, the ones that write the
  write mutex, and the ones that do both hold both, in that order, until the scope is left.
\<close>

section \<open>Scoped locks\<close>

text \<open>
  \<open>ScopedReadLock\<close> and \<open>ScopedWriteLock\<close> lock in the constructor and unlock in the destructor. When
  the constructor throws there is no object and nothing is unlocked.
\<close>

definition ScopedReadLock :: "os \<Rightarrow> 'a ser \<Rightarrow> 'a ser" where
  "ScopedReadLock sys body = seqE (readLock sys) (finallyE body (readUnlock sys))"

definition ScopedWriteLock :: "os \<Rightarrow> 'a ser \<Rightarrow> 'a ser" where
  "ScopedWriteLock sys body = seqE (writeLock sys) (finallyE body (writeUnlock sys))"

section \<open>Opening, closing, waiting\<close>

text \<open>
  The constructor allocates a \<open>SerialImpl\<close>, whose constructor opens the port with the default
  timeout of 0, and sets the timeout afterwards.
\<close>

definition serial_ctor :: "os \<Rightarrow> Timeout \<Rightarrow> unit ser" where
  "serial_ctor sys timeout = seqE (impl_ctor sys) (impl_setTimeout timeout)"

definition serial_dtor :: "os \<Rightarrow> unit ser" where
  "serial_dtor sys = impl_close sys"

definition serial_open :: "os \<Rightarrow> unit ser" where
  "serial_open sys = impl_open sys"

definition serial_close :: "os \<Rightarrow> unit ser" where
  "serial_close sys = impl_close sys"

definition serial_isOpen :: "bool ser" where
  "serial_isOpen = impl_isOpen"

definition serial_available :: "os \<Rightarrow> nat ser" where
  "serial_available sys = impl_available sys"

definition serial_waitReadable :: "os \<Rightarrow> bool ser" where
  "serial_waitReadable sys =
     bindE (fld ser_timeout) (\<lambda>tmo. impl_waitReadable sys (read_timeout_constant tmo))"

definition serial_waitByteTimes :: "os \<Rightarrow> nat \<Rightarrow> unit ser" where
  "serial_waitByteTimes sys count = impl_waitByteTimes sys count"

section \<open>Reading\<close>

definition serial_read1 :: "os \<Rightarrow> nat \<Rightarrow> u8 list ser" where
  "serial_read1 sys sz = impl_read sys sz"

text \<open>The overloads of \<open>read\<close>: into an array, appended to a vector or a string, as a new string.\<close>

definition serial_read :: "os \<Rightarrow> nat \<Rightarrow> u8 list ser" where
  "serial_read sys sz = ScopedReadLock sys (impl_read sys sz)"

definition serial_read_append :: "os \<Rightarrow> u8 list \<Rightarrow> nat \<Rightarrow> (u8 list \<times> nat) ser" where
  "serial_read_append sys buffer sz =
     ScopedReadLock sys (bindE (impl_read sys sz) (\<lambda>bs. ret (buffer @ bs, length bs)))"

definition serial_read_string :: "os \<Rightarrow> nat \<Rightarrow> u8 list ser" where
  "serial_read_string sys sz = bindE (serial_read_append sys [] sz) (\<lambda>(buffer, n). ret buffer)"

text \<open>
  \<open>string (buffer_ + read_so_far - eol_len, eol_len) == eol\<close>: when fewer than \<open>eol_len\<close> bytes
  have been read, this reads memory before the buffer.
\<close>

definition ends_with :: "u8 list \<Rightarrow> u8 list \<Rightarrow> exn + bool" where
  "ends_with buf eol =
     (if length eol \<le> length buf then Inr (drop (length buf - length eol) buf = eol)
      else Inl (Undefined ''read out of bounds''))"

text \<open>
  The loop of \<open>readline\<close>. The argument \<open>k\<close> is \<open>size - read_so_far\<close>, the room left in the buffer;
  with no room left (only possible for size 0) a byte that arrives is written past the end.
\<close>

fun readline_loop :: "os \<Rightarrow> u8 list \<Rightarrow> nat \<Rightarrow> u8 list \<Rightarrow> u8 list ser" where
  "readline_loop sys eol 0 buf =
     bindE (serial_read1 sys 1) (\<lambda>b. if b = [] then ret buf else throw (Undefined ''write out of bounds''))"
| "readline_loop sys eol (Suc k) buf =
     bindE (serial_read1 sys 1) (\<lambda>b.
     if b = [] then ret buf
     else bindE (lift (ends_with (buf @ b) eol)) (\<lambda>found.
       if found then ret (buf @ b)
       else if k = 0 then ret (buf @ b)
       else readline_loop sys eol k (buf @ b)))"

definition serial_readline_append :: "os \<Rightarrow> u8 list \<Rightarrow> nat \<Rightarrow> u8 list \<Rightarrow> (u8 list \<times> nat) ser" where
  "serial_readline_append sys buffer sz eol =
     ScopedReadLock sys (bindE (readline_loop sys eol sz []) (\<lambda>bs. ret (buffer @ bs, length bs)))"

definition serial_readline :: "os \<Rightarrow> nat \<Rightarrow> u8 list \<Rightarrow> u8 list ser" where
  "serial_readline sys sz eol = bindE (serial_readline_append sys [] sz eol) (\<lambda>(buffer, n). ret buffer)"

text \<open>
  The loop of \<open>readlines\<close>: \<open>k\<close> is \<open>size - read_so_far\<close>, \<open>start\<close> is \<open>start_of_line\<close>.
\<close>

fun readlines_loop :: "os \<Rightarrow> u8 list \<Rightarrow> nat \<Rightarrow> u8 list \<Rightarrow> nat \<Rightarrow> u8 list list \<Rightarrow> u8 list list ser" where
  "readlines_loop sys eol 0 buf start found = ret found"
| "readlines_loop sys eol (Suc k) buf start found =
     bindE (serial_read1 sys 1) (\<lambda>b.
     if b = [] then ret (if start \<noteq> length buf then found @ [drop start buf] else found)
     else
       let buf' = buf @ b
       in bindE (lift (ends_with buf' eol)) (\<lambda>isEol.
         let found' = (if isEol then found @ [drop start buf'] else found);
             start' = (if isEol then length buf' else start)
         in if k = 0 then ret (if start' \<noteq> length buf' then found' @ [drop start' buf'] else found')
            else readlines_loop sys eol k buf' start' found'))"

definition serial_readlines :: "os \<Rightarrow> nat \<Rightarrow> u8 list \<Rightarrow> u8 list list ser" where
  "serial_readlines sys sz eol = ScopedReadLock sys (readlines_loop sys eol sz [] 0 [])"

section \<open>Writing\<close>

definition serial_write1 :: "os \<Rightarrow> u8 list \<Rightarrow> nat ser" where
  "serial_write1 sys data = impl_write sys data"

definition serial_write :: "os \<Rightarrow> u8 list \<Rightarrow> nat ser" where
  "serial_write sys data = ScopedWriteLock sys (serial_write1 sys data)"

section \<open>Parameters\<close>

definition serial_setPort :: "os \<Rightarrow> string \<Rightarrow> unit ser" where
  "serial_setPort sys port =
     ScopedReadLock sys (ScopedWriteLock sys (
       bindE impl_isOpen (\<lambda>was_open.
       seqE (whenE was_open (serial_close sys))
      (seqE (impl_setPort port)
            (whenE was_open (serial_open sys))))))"

definition serial_getPort :: "string ser" where
  "serial_getPort = fld ser_port"

definition serial_setTimeout :: "Timeout \<Rightarrow> unit ser" where
  "serial_setTimeout timeout = impl_setTimeout timeout"

definition serial_getTimeout :: "Timeout ser" where
  "serial_getTimeout = fld ser_timeout"

definition serial_setBaudrate :: "os \<Rightarrow> u32 \<Rightarrow> unit ser" where
  "serial_setBaudrate sys b = impl_setBaudrate sys (unat b)"

definition serial_getBaudrate :: "u32 ser" where
  "serial_getBaudrate = fld (\<lambda>s. of_nat (ser_baudrate s))"

definition serial_setBytesize :: "os \<Rightarrow> bytesize_t \<Rightarrow> unit ser" where
  "serial_setBytesize sys b = impl_setBytesize sys b"

definition serial_getBytesize :: "bytesize_t ser" where
  "serial_getBytesize = fld ser_bytesize"

definition serial_setParity :: "os \<Rightarrow> parity_t \<Rightarrow> unit ser" where
  "serial_setParity sys p = impl_setParity sys p"

definition serial_getParity :: "parity_t ser" where
  "serial_getParity = fld ser_parity"

definition serial_setStopbits :: "os \<Rightarrow> stopbits_t \<Rightarrow> unit ser" where
  "serial_setStopbits sys b = impl_setStopbits sys b"

definition serial_getStopbits :: "stopbits_t ser" where
  "serial_getStopbits = fld ser_stopbits"

definition serial_setFlowcontrol :: "os \<Rightarrow> flowcontrol_t \<Rightarrow> unit ser" where
  "serial_setFlowcontrol sys f = impl_setFlowcontrol sys f"

definition serial_getFlowcontrol :: "flowcontrol_t ser" where
  "serial_getFlowcontrol = fld ser_flowcontrol"

section \<open>Flushing, breaks and modem lines\<close>

definition serial_flush :: "os \<Rightarrow> unit ser" where
  "serial_flush sys = ScopedReadLock sys (ScopedWriteLock sys (impl_flush sys))"

definition serial_flushInput :: "os \<Rightarrow> unit ser" where
  "serial_flushInput sys = ScopedReadLock sys (impl_flushInput sys)"

definition serial_flushOutput :: "os \<Rightarrow> unit ser" where
  "serial_flushOutput sys = ScopedWriteLock sys (impl_flushOutput sys)"

definition serial_sendBreak :: "os \<Rightarrow> int \<Rightarrow> unit ser" where
  "serial_sendBreak sys duration = impl_sendBreak sys duration"

definition serial_setBreak :: "os \<Rightarrow> bool \<Rightarrow> unit ser" where
  "serial_setBreak sys level = impl_setBreak sys level"

definition serial_setRTS :: "os \<Rightarrow> bool \<Rightarrow> unit ser" where
  "serial_setRTS sys level = impl_setRTS sys level"

definition serial_setDTR :: "os \<Rightarrow> bool \<Rightarrow> unit ser" where
  "serial_setDTR sys level = impl_setDTR sys level"

definition serial_waitForChange :: "os \<Rightarrow> bool ser" where
  "serial_waitForChange sys = impl_waitForChange sys"

definition serial_getCTS :: "os \<Rightarrow> bool ser" where
  "serial_getCTS sys = impl_getCTS sys"

definition serial_getDSR :: "os \<Rightarrow> bool ser" where
  "serial_getDSR sys = impl_getDSR sys"

definition serial_getRI :: "os \<Rightarrow> bool ser" where
  "serial_getRI sys = impl_getRI sys"

definition serial_getCD :: "os \<Rightarrow> bool ser" where
  "serial_getCD sys = impl_getCD sys"

end
