(* ===== verification/SerialOrder.thy ===== *)
theory SerialOrder
  imports SerialPort
begin

text \<open>
  What all operations of a port share. Most facts about \<open>SerialImpl\<close> are step orders that the
  individual system calls respect: the locks are left alone, the descriptor and the open flag keep
  their values. The locale \<open>line_order\<close> states what such an order has to provide and lifts it to every
  operation of \<^verbatim>\<open>unix.cc\<close> but opening and closing; the public operations of
  \<^verbatim>\<open>serial.cc\<close> are collected in \<open>serial_op\<close>.
\<close>

section \<open>Kinds of system calls\<close>

fun is_mutex_call :: "syscall \<Rightarrow> bool" where
  "is_mutex_call (MutexLock m) = True"
| "is_mutex_call (MutexUnlock m) = True"
| "is_mutex_call _ = False"

fun fd_neutral :: "syscall \<Rightarrow> bool" where
  "fd_neutral (Open p) = False"
| "fd_neutral (Close fd) = False"
| "fd_neutral _ = True"

lemma held_other [simp]: "\<not> is_mutex_call c \<Longrightarrow> held1 m (c, r) = 0"
  by (cases c) auto

lemma fd_count_neutral [simp]: "fd_neutral c \<Longrightarrow> fd_count1 fd (c, r) = 0"
  by (cases c) auto

lemma setup_flow_fields [simp]:
  "ser_is_open (setup_flow s) = ser_is_open s" "ser_fd (setup_flow s) = ser_fd s"
  "ser_port (setup_flow s) = ser_port s" "ser_timeout (setup_flow s) = ser_timeout s"
  by (simp_all add: setup_flow_def split: flowcontrol_t.split)

section \<open>Orders the operations on the line respect\<close>

locale line_order = step_order R for R :: "ser_state \<Rightarrow> ser_state \<Rightarrow> bool" +
  assumes call_R: "\<not> is_mutex_call c \<Longrightarrow> fd_neutral c \<Longrightarrow> obeys R (call sys c)"
    and upd_R: "(\<And>s. ser_is_open (f s) = ser_is_open s \<and> ser_fd (f s) = ser_fd s \<and> ser_port (f s) = ser_port s)
      \<Longrightarrow> obeys R (upd f)"
begin

lemma fld_R: "obeys R (fld f)"
  by (simp add: fld_def gets_obeys)

lemma lift_R: "obeys R (lift r)"
  by (rule obeysI) (auto intro: refl_R)

lemma call_or_throw_R: "\<not> is_mutex_call c \<Longrightarrow> fd_neutral c \<Longrightarrow> obeys R (call_or_throw sys c e)"
  unfolding call_or_throw_def by (intro order_intros if_obeys call_R)

lemmas line_intros = order_intros if_obeys call_R upd_R fld_R lift_R call_or_throw_R

lemma reconfigurePort_R: "obeys R (reconfigurePort sys)"
  unfolding reconfigurePort_def setup_baud_def Let_def
  by (intro line_intros) simp_all

lemma waiting_R:
  "obeys R (impl_available sys)" "obeys R (impl_waitReadable sys tmo)" "obeys R (impl_waitByteTimes sys k)"
  unfolding impl_available_def impl_waitReadable_def impl_waitByteTimes_def
  by (intro line_intros; simp)+

lemma timer_R: "obeys R (new_timer sys ms)" "obeys R (remaining sys ts)"
  unfolding new_timer_def remaining_def by (intro line_intros; simp)+

lemma impl_read_loop_R: "obeys R (impl_read_loop sys n sz expiry got)"
proof (induction n arbitrary: got)
  case (Suc n)
  show ?case
    by (simp only: impl_read_loop.simps read_wait_def Let_def, intro line_intros waiting_R timer_R Suc.IH) simp_all
qed (simp only: impl_read_loop.simps throw_obeys)

lemma impl_read_R: "obeys R (impl_read sys sz)"
  unfolding impl_read_def by (intro line_intros timer_R impl_read_loop_R) simp_all

lemma impl_write_loop_R: "obeys R (impl_write_loop sys n data expiry w)"
proof (induction n arbitrary: w)
  case (Suc n)
  show ?case
    by (simp only: impl_write_loop.simps Let_def, intro line_intros waiting_R timer_R Suc.IH) simp_all
qed (simp only: impl_write_loop.simps throw_obeys)

lemma impl_write_R: "obeys R (impl_write sys data)"
  unfolding impl_write_def by (intro line_intros timer_R impl_write_loop_R)

lemma readline_loop_R: "obeys R (readline_loop sys eol k buf)"
proof (induction k arbitrary: buf)
  case (Suc k)
  show ?case
    by (simp only: readline_loop.simps serial_read1_def, intro line_intros impl_read_R Suc.IH)
qed (simp only: readline_loop.simps serial_read1_def, intro line_intros impl_read_R)

lemma readlines_loop_R: "obeys R (readlines_loop sys eol k buf start found)"
proof (induction k arbitrary: buf start found)
  case (Suc k)
  show ?case
    by (simp only: readlines_loop.simps serial_read1_def Let_def, intro line_intros impl_read_R Suc.IH)
qed (simp only: readlines_loop.simps ret_obeys)

lemma on_open_port_R: "(\<And>fd. obeys R (body fd)) \<Longrightarrow> obeys R (on_open_port who body)"
  unfolding on_open_port_def by (intro line_intros)

lemma flush_R: "obeys R (impl_flush sys)" "obeys R (impl_flushInput sys)" "obeys R (impl_flushOutput sys)"
  unfolding impl_flush_def impl_flushInput_def impl_flushOutput_def
  by (intro line_intros on_open_port_R; simp)+

lemma breaks_R: "obeys R (impl_sendBreak sys d)" "obeys R (impl_setBreak sys b)" "obeys R (impl_setRTS sys b)"
  "obeys R (impl_setDTR sys b)" "obeys R (impl_waitForChange sys)"
  unfolding impl_sendBreak_def impl_setBreak_def impl_setRTS_def impl_setDTR_def impl_waitForChange_def
  by (intro line_intros on_open_port_R; simp)+

lemma modem_R: "obeys R (impl_getCTS sys)" "obeys R (impl_getDSR sys)" "obeys R (impl_getRI sys)" "obeys R (impl_getCD sys)"
  unfolding impl_getCTS_def impl_getDSR_def impl_getRI_def impl_getCD_def modem_line_def
  by (intro line_intros on_open_port_R; simp)+

lemma reconfigure_if_open_R: "obeys R (reconfigure_if_open sys)"
  unfolding reconfigure_if_open_def by (intro line_intros reconfigurePort_R)

lemma setters_R: "obeys R (impl_setTimeout tmo)" "obeys R (impl_setBaudrate sys b)" "obeys R (impl_setBytesize sys bs)"
  "obeys R (impl_setParity sys p)" "obeys R (impl_setStopbits sys sb)" "obeys R (impl_setFlowcontrol sys fc)"
  unfolding impl_setTimeout_def impl_setBaudrate_def impl_setBytesize_def impl_setParity_def
    impl_setStopbits_def impl_setFlowcontrol_def
  by (intro line_intros reconfigure_if_open_R; simp)+

lemmas impl_R = reconfigurePort_R waiting_R timer_R impl_read_R impl_write_R readline_loop_R readlines_loop_R
  flush_R breaks_R modem_R setters_R

end

section \<open>The public operations\<close>

text \<open>
  The public operations of a port, as the daemon and other clients can call them; the results the
  caller gets are not needed here.
\<close>

datatype serial_op =
    OpOpen | OpClose | OpAvailable | OpWaitReadable | OpWaitByteTimes nat
  | OpRead nat | OpReadline nat "u8 list" | OpReadlines nat "u8 list" | OpWrite "u8 list"
  | OpSetPort string | OpSetTimeout Timeout | OpSetBaudrate u32 | OpSetBytesize bytesize_t
  | OpSetParity parity_t | OpSetStopbits stopbits_t | OpSetFlowcontrol flowcontrol_t
  | OpFlush | OpFlushInput | OpFlushOutput | OpSendBreak int | OpSetBreak bool | OpSetRTS bool
  | OpSetDTR bool | OpWaitForChange | OpGetCTS | OpGetDSR | OpGetRI | OpGetCD

definition void :: "'a ser \<Rightarrow> unit ser" where
  "void m = bindE m (\<lambda>_. ret ())"

fun serial_run :: "os \<Rightarrow> serial_op \<Rightarrow> unit ser" where
  "serial_run sys OpOpen = serial_open sys"
| "serial_run sys OpClose = serial_close sys"
| "serial_run sys OpAvailable = void (serial_available sys)"
| "serial_run sys OpWaitReadable = void (serial_waitReadable sys)"
| "serial_run sys (OpWaitByteTimes n) = serial_waitByteTimes sys n"
| "serial_run sys (OpRead n) = void (serial_read_string sys n)"
| "serial_run sys (OpReadline n eol) = void (serial_readline sys n eol)"
| "serial_run sys (OpReadlines n eol) = void (serial_readlines sys n eol)"
| "serial_run sys (OpWrite bs) = void (serial_write sys bs)"
| "serial_run sys (OpSetPort p) = serial_setPort sys p"
| "serial_run sys (OpSetTimeout tmo) = serial_setTimeout tmo"
| "serial_run sys (OpSetBaudrate b) = serial_setBaudrate sys b"
| "serial_run sys (OpSetBytesize b) = serial_setBytesize sys b"
| "serial_run sys (OpSetParity p) = serial_setParity sys p"
| "serial_run sys (OpSetStopbits b) = serial_setStopbits sys b"
| "serial_run sys (OpSetFlowcontrol f) = serial_setFlowcontrol sys f"
| "serial_run sys OpFlush = serial_flush sys"
| "serial_run sys OpFlushInput = serial_flushInput sys"
| "serial_run sys OpFlushOutput = serial_flushOutput sys"
| "serial_run sys (OpSendBreak d) = serial_sendBreak sys d"
| "serial_run sys (OpSetBreak b) = serial_setBreak sys b"
| "serial_run sys (OpSetRTS b) = serial_setRTS sys b"
| "serial_run sys (OpSetDTR b) = serial_setDTR sys b"
| "serial_run sys OpWaitForChange = void (serial_waitForChange sys)"
| "serial_run sys OpGetCTS = void (serial_getCTS sys)"
| "serial_run sys OpGetDSR = void (serial_getDSR sys)"
| "serial_run sys OpGetRI = void (serial_getRI sys)"
| "serial_run sys OpGetCD = void (serial_getCD sys)"

text \<open>The bodies of the public operations.\<close>

lemmas serial_defs =
  serial_open_def serial_close_def serial_available_def serial_waitReadable_def serial_waitByteTimes_def
  serial_read_string_def serial_read_append_def serial_readline_def serial_readline_append_def
  serial_readlines_def serial_write_def serial_write1_def serial_setTimeout_def serial_setBaudrate_def
  serial_setBytesize_def serial_setParity_def serial_setStopbits_def serial_setFlowcontrol_def
  serial_flush_def serial_flushInput_def serial_flushOutput_def serial_sendBreak_def serial_setBreak_def
  serial_setRTS_def serial_setDTR_def serial_waitForChange_def serial_getCTS_def serial_getDSR_def
  serial_getRI_def serial_getCD_def

end
