(* ===== verification/SerialLocks.thy ===== *)
theory SerialLocks
  imports SerialOrder
begin

text \<open>
  The locking of \<open>serial::Serial\<close>: no operation of \<open>SerialImpl\<close> touches a mutex, every public
  operation releases what it locked on the normal and on the exceptional path, no mutex is locked
  while it is held, and the read mutex is never requested while the write mutex is held.
\<close>

section \<open>Disciplined traces\<close>

definition disciplined :: "trace \<Rightarrow> bool" where
  "disciplined t \<longleftrightarrow> (\<forall>p m r q. t = p @ (MutexLock m, r) # q \<longrightarrow>
     held m p = 0 \<and> (m = ReadMutex \<longrightarrow> held WriteMutex p = 0))"

fun lock_allowed :: "trace \<Rightarrow> syscall \<Rightarrow> bool" where
  "lock_allowed t (MutexLock m) = (held m t = 0 \<and> (m = ReadMutex \<longrightarrow> held WriteMutex t = 0))"
| "lock_allowed t _ = True"

lemma disciplined_Nil [simp]: "disciplined []"
  by (simp add: disciplined_def)

lemma disciplined_snoc: "disciplined (t @ [(c, r)]) \<longleftrightarrow> disciplined t \<and> lock_allowed t c"
proof
  assume a: "disciplined (t @ [(c, r)])"
  have "disciplined t"
    unfolding disciplined_def
  proof (intro allI impI)
    fix p m x q
    assume "t = p @ (MutexLock m, x) # q"
    then have "t @ [(c, r)] = p @ (MutexLock m, x) # (q @ [(c, r)])" by simp
    with a show "held m p = 0 \<and> (m = ReadMutex \<longrightarrow> held WriteMutex p = 0)"
      unfolding disciplined_def by blast
  qed
  moreover have "lock_allowed t c"
    using a unfolding disciplined_def by (cases c) auto
  ultimately show "disciplined t \<and> lock_allowed t c" ..
next
  assume a: "disciplined t \<and> lock_allowed t c"
  show "disciplined (t @ [(c, r)])"
    unfolding disciplined_def
  proof (intro allI impI)
    fix p m x q
    assume eq: "t @ [(c, r)] = p @ (MutexLock m, x) # q"
    show "held m p = 0 \<and> (m = ReadMutex \<longrightarrow> held WriteMutex p = 0)"
    proof (cases q rule: rev_cases)
      case Nil
      with eq a show ?thesis by auto
    next
      case (snoc q' e)
      with eq have "t = p @ (MutexLock m, x) # q'" by simp
      with a show ?thesis unfolding disciplined_def by blast
    qed
  qed
qed

lemma lock_allowed_other [simp]: "\<not> is_mutex_call c \<Longrightarrow> lock_allowed t c"
  by (cases c) auto

section \<open>Operations that leave the locks alone\<close>

definition unlocked :: "ser_state \<Rightarrow> ser_state \<Rightarrow> bool" where
  "unlocked x y \<longleftrightarrow> (disciplined (snd x) \<longrightarrow> disciplined (snd y)) \<and> (\<forall>m. held m (snd y) = held m (snd x))"

lemma call_unlocked: "\<not> is_mutex_call c \<Longrightarrow> obeys unlocked (call sys c)"
  by (rule obeysI) (auto simp: call_def unlocked_def disciplined_snoc)

interpretation nolock: line_order unlocked
  by unfold_locales (auto simp: unlocked_def upd_def split_def intro: call_unlocked obeysI)

lemma upd_unlocked: "obeys unlocked (upd f)"
  by (rule obeysI) (auto simp: upd_def unlocked_def)

lemma impl_open_loop_unlocked: "obeys unlocked (impl_open_loop sys n)"
proof (induction n)
  case (Suc n)
  show ?case
    by (simp only: impl_open_loop.simps,
        intro nolock.order_intros nolock.if_obeys call_unlocked upd_unlocked nolock.fld_R Suc.IH nolock.reconfigurePort_R)
       simp_all
qed (simp only: impl_open_loop.simps nolock.throw_obeys)

lemma impl_open_unlocked: "obeys unlocked (impl_open sys)"
  unfolding impl_open_def by (rule impl_open_loop_unlocked)

lemma impl_close_unlocked: "obeys unlocked (impl_close sys)"
  unfolding impl_close_def
  by (intro nolock.order_intros nolock.if_obeys call_unlocked upd_unlocked nolock.fld_R) simp_all

lemma setPort_unlocked: "obeys unlocked (impl_setPort p)" "obeys unlocked impl_isOpen"
  unfolding impl_setPort_def impl_isOpen_def by (intro upd_unlocked nolock.fld_R)+

section \<open>Operations that lock and unlock\<close>

text \<open>
  \<open>balanced W m\<close>: started with the mutexes of \<open>W\<close> free, \<open>m\<close> follows the discipline, and when
  it returns or throws an exception every mutex is held as often as before.
\<close>

definition completes :: "exn + 'a \<Rightarrow> bool" where
  "completes r \<longleftrightarrow> (case r of Inl e \<Rightarrow> unwinds e | Inr _ \<Rightarrow> True)"

lemma completes_simps [simp]: "completes (Inr x)" "completes (Inl e) = unwinds e"
  by (simp_all add: completes_def)

definition balanced :: "mutex_id set \<Rightarrow> 'a ser \<Rightarrow> bool" where
  "balanced W m \<longleftrightarrow> (\<forall>s t r s' t'. disciplined t \<longrightarrow> (\<forall>x \<in> W. held x t = 0) \<longrightarrow> m (s, t) = (r, (s', t')) \<longrightarrow>
     disciplined t' \<and> (completes r \<longrightarrow> (\<forall>x. held x t' = held x t)))"

lemma balancedI:
  "(\<And>s t r s' t'. disciplined t \<Longrightarrow> \<forall>x \<in> W. held x t = 0 \<Longrightarrow> m (s, t) = (r, (s', t')) \<Longrightarrow>
     disciplined t' \<and> (completes r \<longrightarrow> (\<forall>x. held x t' = held x t))) \<Longrightarrow> balanced W m"
  unfolding balanced_def by blast

lemma balancedD:
  "balanced W m \<Longrightarrow> disciplined t \<Longrightarrow> \<forall>x \<in> W. held x t = 0 \<Longrightarrow> m (s, t) = (r, (s', t')) \<Longrightarrow>
     disciplined t' \<and> (completes r \<longrightarrow> (\<forall>x. held x t' = held x t))"
  unfolding balanced_def by blast

lemma balanced_mono: "balanced W m \<Longrightarrow> W \<subseteq> V \<Longrightarrow> balanced V m"
  unfolding balanced_def by (meson subset_iff)

lemma balanced_unlocked: "obeys unlocked m \<Longrightarrow> balanced W m"
  by (rule balancedI) (auto dest!: obeysD simp: unlocked_def)

lemma balanced_bindE:
  assumes "balanced W m" and "\<And>x. balanced W (k x)"
  shows "balanced W (bindE m k)"
proof (rule balancedI)
  fix s t r s' t'
  assume t: "disciplined t" "\<forall>x \<in> W. held x t = 0" and run: "bindE m k (s, t) = (r, (s', t'))"
  from run show "disciplined t' \<and> (completes r \<longrightarrow> (\<forall>x. held x t' = held x t))"
  proof (cases rule: bindE_cases)
    case (exn e)
    with balancedD [OF assms(1) t exn(1)] show ?thesis by simp
  next
    case (ok x u)
    obtain s1 t1 where u: "u = (s1, t1)" by (cases u)
    have 1: "disciplined t1 \<and> (\<forall>x. held x t1 = held x t)"
      using balancedD [OF assms(1) t ok(1) [unfolded u]] by simp
    with t(2) have "\<forall>x \<in> W. held x t1 = 0" by simp
    with 1 balancedD [OF assms(2) _ _ ok(2) [unfolded u]] show ?thesis by simp
  qed
qed

lemma mutex_call_ok:
  "mutex_ok sys \<Longrightarrow> c = MutexLock m \<or> c = MutexUnlock m \<Longrightarrow>
   mutex_call sys c (s, t) = (Inr (), (s, t @ [(c, answer sys t c)])) \<and> ret_val (answer sys t c) = 0"
  by (auto simp: mutex_call_def call_def bindE_def mutex_ok_def)

text \<open>A scoped lock around a balanced body is balanced.\<close>

lemma scoped_balanced:
  assumes ok: "mutex_ok sys" and body: "balanced W body" and m: "m \<notin> W"
    and order: "m = ReadMutex \<Longrightarrow> WriteMutex \<in> V" and V: "m \<in> V" "W \<subseteq> V"
  shows "balanced V (seqE (mutex_call sys (MutexLock m)) (finallyE body (mutex_call sys (MutexUnlock m))))"
proof (rule balancedI)
  fix s t r s' t'
  assume t: "disciplined t" "\<forall>x \<in> V. held x t = 0"
    and run: "seqE (mutex_call sys (MutexLock m)) (finallyE body (mutex_call sys (MutexUnlock m))) (s, t) = (r, (s', t'))"
  let ?l = "(MutexLock m, answer sys t (MutexLock m))"
  let ?t1 = "t @ [?l]"
  have lock: "mutex_call sys (MutexLock m) (s, t) = (Inr (), (s, ?t1))" "ret_val (snd ?l) = 0"
    using mutex_call_ok [OF ok, of "MutexLock m" m s t] by auto
  have h1: "held x ?t1 = held x t + (if x = m then 1 else 0)" for x using lock(2) by simp
  have d1: "disciplined ?t1" using t order V(1) by (auto simp: disciplined_snoc)
  have W1: "\<forall>x \<in> W. held x ?t1 = 0" using h1 m t(2) V(2) by auto
  obtain r1 s2 t2 where b: "body (s, ?t1) = (r1, (s2, t2))" by (metis prod_cases3)
  note b' = balancedD [OF body d1 W1 b]
  from run lock(1) have fin: "finallyE body (mutex_call sys (MutexUnlock m)) (s, ?t1) = (r, (s', t'))"
    by (simp add: seqE_Inr)
  let ?u = "(MutexUnlock m, answer sys t2 (MutexUnlock m))"
  have unlock: "mutex_call sys (MutexUnlock m) (s2, t2) = (Inr (), (s2, t2 @ [?u]))" "ret_val (snd ?u) = 0"
    using mutex_call_ok [OF ok, of "MutexUnlock m" m s2 t2] by auto
  have h2: "held x (t2 @ [?u]) = held x t2 - (if x = m then 1 else 0)" for x using unlock(2) by simp
  have d2: "disciplined (t2 @ [?u])" using b' by (simp add: disciplined_snoc)
  show "disciplined t' \<and> (completes r \<longrightarrow> (\<forall>x. held x t' = held x t))"
  proof (cases "completes r1")
    case True
    with fin b unlock(1) have "r = r1" and "t' = t2 @ [?u]"
      by (auto simp: finallyE_def split: sum.splits)
    with d2 h1 h2 b' True show ?thesis by simp
  next
    case False
    with fin b have "r = r1" and "t' = t2" by (auto simp: finallyE_def split: sum.splits)
    with b' False show ?thesis by simp
  qed
qed

lemma ScopedWriteLock_balanced:
  "mutex_ok sys \<Longrightarrow> balanced {} body \<Longrightarrow> balanced {WriteMutex} (ScopedWriteLock sys body)"
  unfolding ScopedWriteLock_def writeLock_def writeUnlock_def by (rule scoped_balanced) auto

lemma ScopedReadLock_balanced:
  "mutex_ok sys \<Longrightarrow> balanced {WriteMutex} body \<Longrightarrow>
   balanced {ReadMutex, WriteMutex} (ScopedReadLock sys body)"
  unfolding ScopedReadLock_def readLock_def readUnlock_def by (rule scoped_balanced) auto

section \<open>Every public operation\<close>

lemma balanced_ret: "balanced W (ret x)"
  by (rule balanced_unlocked) (rule nolock.ret_obeys)

lemma balanced_void: "balanced W m \<Longrightarrow> balanced W (void m)"
  unfolding void_def by (intro balanced_bindE balanced_ret)

lemma serial_run_balanced:
  assumes ok: "mutex_ok sys"
  shows "balanced {ReadMutex, WriteMutex} (serial_run sys op)"
proof -
  note un = nolock.impl_R [THEN balanced_unlocked] balanced_ret
  have rd: "balanced {ReadMutex, WriteMutex} (ScopedReadLock sys m)" if "balanced {} m" for m :: "'x ser"
    using ScopedReadLock_balanced [OF ok] balanced_mono [OF that] by blast
  have wr: "balanced {ReadMutex, WriteMutex} (ScopedWriteLock sys m)" if "balanced {} m" for m :: "'x ser"
    using ScopedWriteLock_balanced [OF ok that] by (rule balanced_mono) simp
  have rw: "balanced {ReadMutex, WriteMutex} (ScopedReadLock sys (ScopedWriteLock sys m))"
    if "balanced {} m" for m :: "'x ser"
    by (intro ScopedReadLock_balanced [OF ok] ScopedWriteLock_balanced [OF ok] that)
  have setPort: "balanced {ReadMutex, WriteMutex} (serial_setPort sys p)" for p
    unfolding serial_setPort_def serial_close_def serial_open_def
    by (intro rw balanced_unlocked nolock.order_intros setPort_unlocked impl_close_unlocked impl_open_unlocked)
  have wait: "balanced {ReadMutex, WriteMutex} (bindE (fld ser_timeout) (\<lambda>tmo. impl_waitReadable sys (read_timeout_constant tmo)))"
    by (intro balanced_bindE un balanced_unlocked nolock.fld_R)
  show ?thesis
    by (cases op)
      (auto simp: serial_defs setPort split_def
        intro!: balanced_unlocked [OF impl_open_unlocked] balanced_unlocked [OF impl_close_unlocked]
          balanced_void wait rd wr rw un balanced_bindE)
qed

section \<open>Properties\<close>



end
