(* ===== verification/SerialFacts.thy ===== *)
theory SerialFacts
  imports SerialLocks
begin

text \<open>
  What the loops of the serial port do: which bytes a write delivers and a read returns, that both
  return in bounded time when the clock advances, what the timers compute, how the descriptor
  and the open flag go together, and what configuring the port asks the system for.
\<close>

lemmas ser_run = bindE_def seqE_def call_def fld_def upd_def gets_def modify_def ret_def throw_def
  lift_def whenE_def

section \<open>Writing\<close>

text \<open>
  One iteration of the write loop, whatever the system does: it reads the clock once, sends
  \<open>j\<close> more bytes, and then either leaves the loop with the number of bytes sent so far or an
  exception, or goes on while the timer has not expired.
\<close>

definition write_iter :: "os \<Rightarrow> nat \<Rightarrow> u8 list \<Rightarrow> timespec \<Rightarrow> nat \<Rightarrow> serial_impl \<Rightarrow> trace \<Rightarrow> trace \<Rightarrow> nat \<Rightarrow> bool" where
  "write_iter sys n data expiry w s t u j \<longleftrightarrow>
     w + j \<le> length data \<and> sent u = take j (drop w data) \<and> clock_reads u = 1 \<and>
     ((\<exists>r. impl_write_loop sys (Suc n) data expiry w (s, t) = (r, (s, t @ u))
           \<and> (\<forall>x. r = Inr x \<longrightarrow> x = w + j) \<and> r \<noteq> Inl NoReturn)
      \<or> impl_write_loop sys (Suc n) data expiry w (s, t) = impl_write_loop sys n data expiry (w + j) (s, t @ u)
           \<and> 0 < remaining_ms expiry (tspec (answer sys t ClockGettime)))"

lemma write_loop_iter:
  assumes "kernel_ok sys" and w: "w < length data"
  shows "\<exists>u j. write_iter sys n data expiry w s t u j"
proof -
  let ?a = "answer sys" and ?L = "impl_write_loop sys (Suc n) data expiry w (s, t)"
  define r1 where "r1 = ?a t ClockGettime"
  define t1 where "t1 = t @ [(ClockGettime, r1)]"
  define ms where "ms = remaining_ms expiry (tspec r1)"
  define c2 where "c2 = SelectWrite (ser_fd s) (timespec_from_ms (word_of_int ms))"
  define r2 where "r2 = ?a t1 c2"
  define c3 where "c3 = Write (ser_fd s) (drop w data)"
  define r3 where "r3 = ?a (t1 @ [(c2, r2)]) c3"
  define j where "j = nat (ret_val r3)"
  note defs = r1_def t1_def ms_def c2_def r2_def c3_def r3_def
  have j: "w + j \<le> length data"
    using kernel_ok_write [OF assms(1), of "t1 @ [(c2, r2)]" "ser_fd s" "drop w data"] w
    by (simp add: j_def r3_def c3_def)
  have run: "?L = (if ms \<le> 0 then (Inr w, (s, t1)) else
      if ret_val r2 < 0 then
        (if err_no r2 = EINTR then impl_write_loop sys n data expiry w (s, t1 @ [(c2, r2)])
         else (Inl (IOException_errno (err_no r2)), (s, t1 @ [(c2, r2)])))
      else if ret_val r2 = 0 then (Inr w, (s, t1 @ [(c2, r2)]))
      else if \<not> fd_is_set r2 then
        (Inl (IOException ''select reports ready to write, but our fd isn't in the list, this shouldn't happen!''),
         (s, t1 @ [(c2, r2)]))
      else if ret_val r3 < 1 then
        (Inl (SerialException ''device reports readiness to write but returned no data (device disconnected?)''),
         (s, t1 @ [(c2, r2), (c3, r3)]))
      else if w + j = length data then (Inr (w + j), (s, t1 @ [(c2, r2), (c3, r3)]))
      else impl_write_loop sys n data expiry (w + j) (s, t1 @ [(c2, r2), (c3, r3)]))"
    using w j by (simp add: ser_run remaining_def Let_def defs j_def)
  have u: "t1 = t @ [(ClockGettime, r1)]" by (simp add: t1_def)
  show ?thesis
  proof (cases "ms \<le> 0")
    case True
    with run w u have "write_iter sys n data expiry w s t [(ClockGettime, r1)] 0"
      by (simp add: write_iter_def)
    then show ?thesis by blast
  next
    case False
    have pos: "0 < remaining_ms expiry (tspec (?a t ClockGettime))" using False by (simp add: ms_def r1_def)
    show ?thesis
    proof (cases "ret_val r2 \<le> 0 \<or> \<not> fd_is_set r2")
      case True
      with False run w u pos have "write_iter sys n data expiry w s t [(ClockGettime, r1), (c2, r2)] 0"
        by (auto simp: write_iter_def c2_def)
      then show ?thesis by blast
    next
      case go: False
      have "sent [(c3, r3)] = take j (drop w data)" by (simp add: c3_def j_def)
      with go False run w u pos j
      have "write_iter sys n data expiry w s t [(ClockGettime, r1), (c2, r2), (c3, r3)] j"
        by (auto simp: write_iter_def c2_def c3_def j_def)
      then show ?thesis by blast
    qed
  qed
qed

lemma write_loop_sends:
  assumes "kernel_ok sys" and "w \<le> length data"
    and "impl_write_loop sys n data expiry w (s, t) = (r, (s', t'))"
  shows "s' = s \<and> (\<exists>k. w \<le> k \<and> k \<le> length data \<and> sent t' = sent t @ take (k - w) (drop w data)
    \<and> (\<forall>x. r = Inr x \<longrightarrow> x = k))"
  using assms(2,3)
proof (induction n arbitrary: w t)
  case 0
  then show ?case by (auto simp: throw_def)
next
  case (Suc n)
  show ?case
  proof (cases "w < length data")
    case False
    with Suc.prems show ?thesis by (auto simp: ret_def)
  next
    case True
    from write_loop_iter [OF assms(1) True, of n expiry s t] obtain u j
      where it: "write_iter sys n data expiry w s t u j" by blast
    then have j: "w + j \<le> length data" "sent u = take j (drop w data)" by (auto simp: write_iter_def)
    from it consider
        (stop) x where "impl_write_loop sys (Suc n) data expiry w (s, t) = (x, (s, t @ u))"
          "\<forall>y. x = Inr y \<longrightarrow> y = w + j"
      | (go) "impl_write_loop sys (Suc n) data expiry w (s, t) = impl_write_loop sys n data expiry (w + j) (s, t @ u)"
      unfolding write_iter_def by blast
    then show ?thesis
    proof cases
      case stop
      with Suc.prems j show ?thesis by (intro conjI exI [of _ "w + j"]) (auto simp del: impl_write_loop.simps)
    next
      case go
      with Suc.prems(2) have "impl_write_loop sys n data expiry (w + j) (s, t @ u) = (r, (s', t'))" by simp
      from Suc.IH [OF j(1) this] obtain k where k: "s' = s" "w + j \<le> k" "k \<le> length data"
          "sent t' = sent (t @ u) @ take (k - (w + j)) (drop (w + j) data)" "\<forall>x. r = Inr x \<longrightarrow> x = k"
        by blast
      have "take (j + (k - (w + j))) (drop w data) = take j (drop w data) @ take (k - (w + j)) (drop (w + j) data)"
        by (simp add: take_add add.commute)
      with k j show ?thesis by (intro conjI exI [of _ k]) auto
    qed
  qed
qed

section \<open>Reading\<close>

text \<open>Waiting for the rest of a multi-byte read: it transfers nothing and does not read the clock.\<close>

lemma read_wait_quiet:
  "\<exists>u q. read_wait sys sz got s0 (s, t) = (q, (s, t @ u)) \<and> received u = [] \<and> clock_reads u = 0
     \<and> q \<noteq> Inl NoReturn"
proof (cases "sz > 1 \<and> inter_byte_timeout (ser_timeout s0) = Timeout_max")
  case False
  then show ?thesis by (intro exI [of _ "[]"]) (auto simp: read_wait_def ser_run)
next
  case True
  have sleep: "\<exists>u q. whenE b (impl_waitByteTimes sys k) (s, t') = (q, (s, t' @ u))
      \<and> received u = [] \<and> clock_reads u = 0 \<and> q \<noteq> Inl NoReturn" for b k t'
    by (cases b) (auto simp: impl_waitByteTimes_def ser_run)
  let ?c = "TIOCINQ (ser_fd s)"
  let ?r = "answer sys t ?c"
  consider (closed) "\<not> ser_is_open s" | (failed) "ser_is_open s" "ret_val ?r = - 1"
    | (ok) "ser_is_open s" "ret_val ?r \<noteq> - 1" by blast
  then show ?thesis
  proof cases
    case closed
    with True have "read_wait sys sz got s0 (s, t) =
        whenE (length got mod 2 ^ 64 < sz) (impl_waitByteTimes sys (sz - length got mod 2 ^ 64)) (s, t)"
      by (simp add: read_wait_def impl_available_def bindE_def fld_def ret_def)
    with sleep [of _ _ t] show ?thesis by presburger
  next
    case failed
    with True show ?thesis
      by (intro exI [of _ "[(?c, ?r)]"]) (auto simp: read_wait_def impl_available_def call_or_throw_def ser_run)
  next
    case ok
    let ?av = "size_of_int (status ?r) + length got"
    from True ok have eq: "read_wait sys sz got s0 (s, t) =
        whenE (?av mod 2 ^ 64 < sz) (impl_waitByteTimes sys (sz - ?av mod 2 ^ 64)) (s, t @ [(?c, ?r)])"
      by (simp add: read_wait_def impl_available_def call_or_throw_def bindE_def call_def fld_def ret_def)
    from sleep obtain u q where "whenE (?av mod 2 ^ 64 < sz) (impl_waitByteTimes sys (sz - ?av mod 2 ^ 64))
        (s, t @ [(?c, ?r)]) = (q, (s, (t @ [(?c, ?r)]) @ u))" "received u = []" "clock_reads u = 0" "q \<noteq> Inl NoReturn"
      by blast
    with eq show ?thesis by (intro exI [of _ "(?c, ?r) # u"]) auto
  qed
qed

definition read_iter :: "os \<Rightarrow> nat \<Rightarrow> nat \<Rightarrow> timespec \<Rightarrow> u8 list \<Rightarrow> serial_impl \<Rightarrow> trace \<Rightarrow> trace \<Rightarrow> u8 list \<Rightarrow> bool" where
  "read_iter sys n sz expiry got s t u bs \<longleftrightarrow>
     length got + length bs \<le> sz \<and> received u = bs \<and> clock_reads u = 1 \<and>
     ((\<exists>r. impl_read_loop sys (Suc n) sz expiry got (s, t) = (r, (s, t @ u))
           \<and> (\<forall>x. r = Inr x \<longrightarrow> x = got @ bs) \<and> r \<noteq> Inl NoReturn)
      \<or> impl_read_loop sys (Suc n) sz expiry got (s, t) = impl_read_loop sys n sz expiry (got @ bs) (s, t @ u)
           \<and> 0 < remaining_ms expiry (tspec (answer sys t ClockGettime)))"

lemma read_loop_iter:
  assumes "kernel_ok sys" and w: "length got < sz"
  shows "\<exists>u bs. read_iter sys n sz expiry got s t u bs"
proof -
  let ?a = "answer sys" and ?L = "impl_read_loop sys (Suc n) sz expiry got (s, t)"
  define r1 where "r1 = ?a t ClockGettime"
  define t1 where "t1 = t @ [(ClockGettime, r1)]"
  define ms where "ms = remaining_ms expiry (tspec r1)"
  define c2 where "c2 = SelectRead (ser_fd s) (timespec_from_ms (min (word_of_int ms) (inter_byte_timeout (ser_timeout s))))"
  define r2 where "r2 = ?a t1 c2"
  define t2 where "t2 = t1 @ [(c2, r2)]"
  obtain v q where v: "read_wait sys sz got s (s, t2) = (q, (s, t2 @ v))" "received v = []"
      "clock_reads v = 0" "q \<noteq> Inl NoReturn"
    using read_wait_quiet by blast
  define c3 where "c3 = Read (ser_fd s) (sz - length got)"
  define r3 where "r3 = ?a (t2 @ v) c3"
  note defs = r1_def t1_def ms_def c2_def r2_def t2_def c3_def r3_def
  have bs: "length got + length (rdata r3) \<le> sz"
    using kernel_ok_read [OF assms(1), of "t2 @ v" "ser_fd s" "sz - length got"] w
    by (simp add: r3_def c3_def)
  have w2: "impl_waitReadable sys (min (word_of_int ms) (inter_byte_timeout (ser_timeout s))) (s, t1) =
      (if ret_val r2 < 0 then
         (if err_no r2 = EINTR then Inr False else Inl (IOException_errno (err_no r2)))
       else if ret_val r2 = 0 then Inr False
       else if \<not> fd_is_set r2 then Inl (IOException ''select reports ready to read, but our fd isn't in the list, this shouldn't happen!'')
       else Inr True, (s, t2))"
    by (simp add: impl_waitReadable_def ser_run c2_def r2_def t2_def)
  have run: "?L = (if ms \<le> 0 then (Inr got, (s, t1)) else
      if ret_val r2 < 0 then
        (if err_no r2 = EINTR then impl_read_loop sys n sz expiry got (s, t2)
         else (Inl (IOException_errno (err_no r2)), (s, t2)))
      else if ret_val r2 = 0 then impl_read_loop sys n sz expiry got (s, t2)
      else if \<not> fd_is_set r2 then
        (Inl (IOException ''select reports ready to read, but our fd isn't in the list, this shouldn't happen!''), (s, t2))
      else (case q of Inl e \<Rightarrow> (Inl e, (s, t2 @ v)) | Inr _ \<Rightarrow>
       (if read_count r3 < 1 then
          (Inl (SerialException ''device reports readiness to read but returned no data (device disconnected?)''),
           (s, t2 @ v @ [(c3, r3)]))
        else if length got + length (rdata r3) = sz then (Inr (got @ rdata r3), (s, t2 @ v @ [(c3, r3)]))
        else impl_read_loop sys n sz expiry (got @ rdata r3) (s, t2 @ v @ [(c3, r3)]))))"
    using w bs w2 v(1)
    by (simp add: bindE_def seqE_def call_def fld_def ret_def throw_def remaining_def Let_def
        r1_def [symmetric] t1_def [symmetric] ms_def [symmetric] c3_def [symmetric] r3_def [symmetric]
        split: sum.split)
  have pos: "0 < remaining_ms expiry (tspec (?a t ClockGettime))" if "\<not> ms \<le> 0"
    using that by (simp add: ms_def r1_def)
  have u: "t1 = t @ [(ClockGettime, r1)]" "t2 = t @ [(ClockGettime, r1), (c2, r2)]" by (simp_all add: t1_def t2_def)
  consider (a) "ms \<le> 0" | (b) "0 < ms" "ret_val r2 \<le> 0 \<or> \<not> fd_is_set r2"
    | (c) e where "0 < ms" "0 < ret_val r2" "fd_is_set r2" "q = Inl e"
    | (d) "0 < ms" "0 < ret_val r2" "fd_is_set r2" "q = Inr ()"
    by (cases q) (auto simp: not_less intro: leI; metis leI)+
  then show ?thesis
  proof cases
    case a
    with run w u have "read_iter sys n sz expiry got s t [(ClockGettime, r1)] []" by (simp add: read_iter_def)
    then show ?thesis by blast
  next
    case b
    with run w u pos have "read_iter sys n sz expiry got s t [(ClockGettime, r1), (c2, r2)] []"
      by (auto simp: read_iter_def c2_def)
    then show ?thesis by blast
  next
    case c
    with run w u v have "read_iter sys n sz expiry got s t ([(ClockGettime, r1), (c2, r2)] @ v) []"
      by (auto simp: read_iter_def c2_def)
    then show ?thesis by blast
  next
    case d
    have "received1 (c3, r3) = (if read_count r3 < 1 then [] else rdata r3)" by (simp add: c3_def)
    with d run w u v pos bs
    have "read_iter sys n sz expiry got s t ([(ClockGettime, r1), (c2, r2)] @ v @ [(c3, r3)])
        (if read_count r3 < 1 then [] else rdata r3)"
      by (auto simp: read_iter_def c2_def c3_def)
    then show ?thesis by blast
  qed
qed

lemma read_loop_receives:
  assumes "kernel_ok sys" and "length got \<le> sz"
    and "impl_read_loop sys n sz expiry got (s, t) = (r, (s', t'))"
  shows "s' = s \<and> (\<exists>bs. length got + length bs \<le> sz \<and> received t' = received t @ bs
    \<and> (\<forall>x. r = Inr x \<longrightarrow> x = got @ bs))"
  using assms(2,3)
proof (induction n arbitrary: got t)
  case 0
  then show ?case by (auto simp: throw_def)
next
  case (Suc n)
  show ?case
  proof (cases "length got < sz")
    case False
    with Suc.prems show ?thesis by (auto simp: ret_def)
  next
    case True
    from read_loop_iter [OF assms(1) True, of n expiry s t] obtain u bs
      where it: "read_iter sys n sz expiry got s t u bs" by blast
    then have bs: "length (got @ bs) \<le> sz" "received u = bs" by (auto simp: read_iter_def)
    from it consider
        (stop) x where "impl_read_loop sys (Suc n) sz expiry got (s, t) = (x, (s, t @ u))"
          "\<forall>y. x = Inr y \<longrightarrow> y = got @ bs"
      | (go) "impl_read_loop sys (Suc n) sz expiry got (s, t) = impl_read_loop sys n sz expiry (got @ bs) (s, t @ u)"
      unfolding read_iter_def by blast
    then show ?thesis
    proof cases
      case stop
      with Suc.prems bs show ?thesis by (intro conjI exI [of _ bs]) (auto simp del: impl_read_loop.simps)
    next
      case go
      with Suc.prems(2) have "impl_read_loop sys n sz expiry (got @ bs) (s, t @ u) = (r, (s', t'))" by simp
      from Suc.IH [OF bs(1) this] obtain bs' where "s' = s" "length (got @ bs) + length bs' \<le> sz"
          "received t' = received (t @ u) @ bs'" "\<forall>x. r = Inr x \<longrightarrow> x = (got @ bs) @ bs'"
        by blast
      with bs show ?thesis by (intro conjI exI [of _ "bs @ bs'"]) auto
    qed
  qed
qed

section \<open>Timers\<close>

lemma trunc_div_pos: "0 < trunc_div a b \<Longrightarrow> 0 < b \<Longrightarrow> b \<le> a"
proof -
  assume a: "0 < trunc_div a b" and b: "0 < b"
  then have "0 < sgn a * (\<bar>a\<bar> div b)" by (simp add: trunc_div_def)
  moreover have "0 \<le> \<bar>a\<bar> div b" using b by (simp add: pos_imp_zdiv_nonneg_iff)
  ultimately have "0 < sgn a" and "0 < \<bar>a\<bar> div b" by (auto simp: zero_less_mult_iff)
  then have "0 < a" and "0 < a div b" by (simp_all add: sgn_if split: if_splits)
  with b show "b \<le> a" by (simp add: pos_imp_zdiv_pos_iff)
qed

lemma remaining_pos: "0 < remaining_ms e now \<Longrightarrow> nanos now < nanos e"
  unfolding remaining_ms_def nanos_def by (drule trunc_div_pos) (simp_all add: algebra_simps)

lemma timer_expiry_nanos:
  assumes "timer_expiry now ms = Inr e"
  shows "nanos e = nanos now + uint ms * 10 ^ 6"
  using assms by (auto simp: timer_expiry_def nanos_def Let_def algebra_simps split: if_splits)

lemma timer_expiry_Inl: "timer_expiry now ms = Inl e \<Longrightarrow> e = Undefined ''double to int out of range''"
  by (auto simp: timer_expiry_def Let_def split: if_splits)

lemma timer_expiry_short:
  assumes "0 \<le> snd now" and "snd now < 10 ^ 9" and "uint ms \<le> 2000"
  shows "\<exists>e. timer_expiry now ms = Inr e \<and> 0 \<le> snd e \<and> snd e < 10 ^ 9"
proof -
  let ?n = "snd now + uint ms * 10 ^ 6"
  have "0 \<le> ?n" and lt: "?n < 3 * 10 ^ 9" using assms by simp_all
  then have "?n div 10 ^ 9 \<le> 2" by simp
  then have "10 ^ 9 * (?n div 10 ^ 9) < 2 ^ 31" by simp
  moreover have "?n - 10 ^ 9 * (?n div 10 ^ 9) = ?n mod 10 ^ 9" by (simp add: minus_mult_div_eq_mod)
  ultimately show ?thesis
    using \<open>0 \<le> ?n\<close> by (auto simp: timer_expiry_def Let_def)
qed

section \<open>Bounded time\<close>

lemma iter_fuel:
  assumes clk: "clock_advances sys d" and u: "clock_reads u = 1"
    and left: "nanos e - nanos (tspec (answer sys t ClockGettime)) \<le> d * (int (Suc n) - 1)"
    and pos: "0 < remaining_ms e (tspec (answer sys t ClockGettime))"
  shows "0 < n \<and> nanos e - nanos (tspec (answer sys (t @ u) ClockGettime)) \<le> d * (int n - 1)"
proof
  from pos left have "0 < d * int n" by (auto dest: remaining_pos)
  then show "0 < n" by (cases n) auto
  show "nanos e - nanos (tspec (answer sys (t @ u) ClockGettime)) \<le> d * (int n - 1)"
    using clock_advancesD [OF clk, of t u] left u by (simp add: algebra_simps)
qed

lemma write_loop_returns:
  assumes "kernel_ok sys" and "clock_advances sys d" and "w \<le> length data" and "0 < n"
    and "nanos e - nanos (tspec (answer sys t ClockGettime)) \<le> d * (int n - 1)"
  shows "fst (impl_write_loop sys n data e w (s, t)) \<noteq> Inl NoReturn"
  using assms(3-)
proof (induction n arbitrary: w t)
  case 0
  then show ?case by simp
next
  case (Suc n)
  show ?case
  proof (cases "w < length data")
    case False
    then show ?thesis by (simp add: ret_def)
  next
    case True
    from write_loop_iter [OF assms(1) True, of n e s t] obtain u j
      where it: "write_iter sys n data e w s t u j" by blast
    then have j: "w + j \<le> length data" "clock_reads u = 1" by (auto simp: write_iter_def)
    from it consider "\<exists>r. impl_write_loop sys (Suc n) data e w (s, t) = (r, (s, t @ u)) \<and> r \<noteq> Inl NoReturn"
      | (go) "impl_write_loop sys (Suc n) data e w (s, t) = impl_write_loop sys n data e (w + j) (s, t @ u)"
        "0 < remaining_ms e (tspec (answer sys t ClockGettime))"
      unfolding write_iter_def by blast
    then show ?thesis
    proof cases
      case go
      from iter_fuel [OF assms(2) j(2) Suc.prems(3) go(2)] show ?thesis
        unfolding go(1) by (intro Suc.IH [OF j(1)]) auto
    qed (auto simp del: impl_write_loop.simps)
  qed
qed

lemma read_loop_returns:
  assumes "kernel_ok sys" and "clock_advances sys d" and "length got \<le> sz" and "0 < n"
    and "nanos e - nanos (tspec (answer sys t ClockGettime)) \<le> d * (int n - 1)"
  shows "fst (impl_read_loop sys n sz e got (s, t)) \<noteq> Inl NoReturn"
  using assms(3-)
proof (induction n arbitrary: got t)
  case 0
  then show ?case by simp
next
  case (Suc n)
  show ?case
  proof (cases "length got < sz")
    case False
    then show ?thesis by (simp add: ret_def)
  next
    case True
    from read_loop_iter [OF assms(1) True, of n e s t] obtain u bs
      where it: "read_iter sys n sz e got s t u bs" by blast
    then have j: "length (got @ bs) \<le> sz" "clock_reads u = 1" by (auto simp: read_iter_def)
    from it consider "\<exists>r. impl_read_loop sys (Suc n) sz e got (s, t) = (r, (s, t @ u)) \<and> r \<noteq> Inl NoReturn"
      | (go) "impl_read_loop sys (Suc n) sz e got (s, t) = impl_read_loop sys n sz e (got @ bs) (s, t @ u)"
        "0 < remaining_ms e (tspec (answer sys t ClockGettime))"
      unfolding read_iter_def by blast
    then show ?thesis
    proof cases
      case go
      from iter_fuel [OF assms(2) j(2) Suc.prems(3) go(2)] show ?thesis
        unfolding go(1) by (intro Suc.IH [OF j(1)]) auto
    qed (auto simp del: impl_read_loop.simps)
  qed
qed

lemma new_timer_run:
  "new_timer sys ms (s, t) =
     (timer_expiry (tspec (answer sys t ClockGettime)) ms, (s, t @ [(ClockGettime, answer sys t ClockGettime)]))"
  by (simp add: new_timer_def bindE_def call_def lift_def)

text \<open>A timer of \<open>ms\<close> milliseconds leaves the loop enough fuel when \<open>ms * 10^6 \<le> d * patience\<close>.\<close>

lemma timer_fuel:
  assumes "clock_advances sys d" and "timer_expiry (tspec (answer sys t ClockGettime)) ms = Inr e"
    and "uint ms * 10 ^ 6 \<le> d * int (patience sys)" and "1 \<le> clock_reads u"
  shows "nanos e - nanos (tspec (answer sys (t @ u) ClockGettime)) \<le> d * (int (patience sys) - 1)"
proof -
  have "0 < d" using assms(1) by (simp add: clock_advances_def)
  then have "d * 1 \<le> d * int (clock_reads u)" using assms(4) by (intro mult_left_mono) auto
  with clock_advancesD [OF assms(1), of t u] timer_expiry_nanos [OF assms(2)] assms(3)
  show ?thesis by (simp add: algebra_simps)
qed

lemma impl_write_returns:
  assumes "kernel_ok sys" and "clock_advances sys d" and "0 < patience sys"
    and "uint (total_timeout_ms (write_timeout_constant (ser_timeout s)) (write_timeout_multiplier (ser_timeout s))
           (length data)) * 10 ^ 6 \<le> d * int (patience sys)"
  shows "fst (impl_write sys data (s, t)) \<noteq> Inl NoReturn"
proof (cases "ser_is_open s")
  case False
  then show ?thesis by (simp add: impl_write_def bindE_def fld_def throw_def)
next
  case True
  let ?ms = "total_timeout_ms (write_timeout_constant (ser_timeout s)) (write_timeout_multiplier (ser_timeout s))
           (length data)"
  let ?u = "[(ClockGettime, answer sys t ClockGettime)]"
  show ?thesis
  proof (cases "timer_expiry (tspec (answer sys t ClockGettime)) ?ms")
    case (Inl e)
    with True timer_expiry_Inl [OF Inl] show ?thesis
      by (simp add: impl_write_def bindE_def fld_def new_timer_run)
  next
    case (Inr e)
    have "fst (impl_write_loop sys (patience sys) data e 0 (s, t @ ?u)) \<noteq> Inl NoReturn"
      by (rule write_loop_returns [OF assms(1,2) _ assms(3)])
        (simp_all add: timer_fuel [OF assms(2) Inr assms(4), of ?u])
    with True Inr show ?thesis
      by (simp add: impl_write_def bindE_def fld_def new_timer_run)
  qed
qed

lemma impl_read_start:
  assumes "ser_is_open s" and "timer_expiry (tspec (answer sys t ClockGettime))
      (total_timeout_ms (read_timeout_constant (ser_timeout s)) (read_timeout_multiplier (ser_timeout s)) sz) = Inr e"
    and "c = Read (ser_fd s) sz" and "u = [(ClockGettime, answer sys t ClockGettime)]"
    and "r = answer sys (t @ u) c"
  shows "impl_read sys sz (s, t) =
    impl_read_loop sys (patience sys) sz e (if read_count r > 0 then rdata r else []) (s, t @ u @ [(c, r)])"
  using assms by (simp add: impl_read_def bindE_def fld_def new_timer_run call_def)

lemma impl_read_returns:
  assumes "kernel_ok sys" and "clock_advances sys d" and "0 < patience sys"
    and "uint (total_timeout_ms (read_timeout_constant (ser_timeout s)) (read_timeout_multiplier (ser_timeout s)) sz)
           * 10 ^ 6 \<le> d * int (patience sys)"
  shows "fst (impl_read sys sz (s, t)) \<noteq> Inl NoReturn"
proof (cases "ser_is_open s")
  case False
  then show ?thesis by (simp add: impl_read_def bindE_def fld_def throw_def)
next
  case True
  let ?ms = "total_timeout_ms (read_timeout_constant (ser_timeout s)) (read_timeout_multiplier (ser_timeout s)) sz"
  let ?u = "[(ClockGettime, answer sys t ClockGettime)]" and ?c = "Read (ser_fd s) sz"
  let ?r = "answer sys (t @ ?u) ?c"
  let ?got = "if read_count ?r > 0 then rdata ?r else []"
  show ?thesis
  proof (cases "timer_expiry (tspec (answer sys t ClockGettime)) ?ms")
    case (Inl e)
    with True timer_expiry_Inl [OF Inl] show ?thesis
      by (simp add: impl_read_def bindE_def fld_def new_timer_run)
  next
    case (Inr e)
    have "length ?got \<le> sz" using kernel_ok_read [OF assms(1)] by simp
    then have "fst (impl_read_loop sys (patience sys) sz e ?got (s, t @ ?u @ [(?c, ?r)])) \<noteq> Inl NoReturn"
      by (intro read_loop_returns [OF assms(1,2) _ assms(3)] timer_fuel [OF assms(2) Inr assms(4)]) simp_all
    then show ?thesis using impl_read_start [OF True Inr] by simp
  qed
qed

lemma impl_read_receives:
  assumes "kernel_ok sys" and "impl_read sys sz (s, t) = (r, (s', t'))"
  shows "s' = s \<and> (\<exists>bs. length bs \<le> sz \<and> received t' = received t @ bs \<and> (\<forall>x. r = Inr x \<longrightarrow> x = bs))"
proof (cases "ser_is_open s")
  case False
  with assms(2) show ?thesis by (auto simp: impl_read_def bindE_def fld_def throw_def)
next
  case True
  let ?u = "[(ClockGettime, answer sys t ClockGettime)]" and ?c = "Read (ser_fd s) sz"
  let ?r = "answer sys (t @ ?u) ?c"
  let ?got = "if read_count ?r > 0 then rdata ?r else []"
  show ?thesis
  proof (cases "timer_expiry (tspec (answer sys t ClockGettime))
      (total_timeout_ms (read_timeout_constant (ser_timeout s)) (read_timeout_multiplier (ser_timeout s)) sz)")
    case (Inl e)
    with True assms(2) show ?thesis by (auto simp: impl_read_def bindE_def fld_def new_timer_run)
  next
    case (Inr e)
    have len: "length ?got \<le> sz" using kernel_ok_read [OF assms(1)] by simp
    have run: "impl_read_loop sys (patience sys) sz e ?got (s, t @ ?u @ [(?c, ?r)]) = (r, (s', t'))"
      using impl_read_start [OF True Inr] assms(2) by simp
    from read_loop_receives [OF assms(1) len run] obtain bs where "s' = s" "length ?got + length bs \<le> sz"
        "received t' = received (t @ ?u @ [(?c, ?r)]) @ bs" "\<forall>x. r = Inr x \<longrightarrow> x = ?got @ bs"
      by blast
    moreover have "received (t @ ?u @ [(?c, ?r)]) = received t @ ?got" by auto
    ultimately show ?thesis by (intro conjI exI [of _ "?got @ bs"]) auto
  qed
qed

lemma impl_write_sends:
  assumes "kernel_ok sys" and "impl_write sys data (s, t) = (r, (s', t'))"
  shows "s' = s \<and> (\<exists>k \<le> length data. sent t' = sent t @ take k data \<and> (\<forall>x. r = Inr x \<longrightarrow> x = k))"
proof (cases "ser_is_open s")
  case False
  with assms(2) show ?thesis by (auto simp: impl_write_def bindE_def fld_def throw_def)
next
  case True
  let ?u = "[(ClockGettime, answer sys t ClockGettime)]"
  show ?thesis
  proof (cases "timer_expiry (tspec (answer sys t ClockGettime))
      (total_timeout_ms (write_timeout_constant (ser_timeout s)) (write_timeout_multiplier (ser_timeout s)) (length data))")
    case (Inl e)
    with True assms(2) show ?thesis by (auto simp: impl_write_def bindE_def fld_def new_timer_run)
  next
    case (Inr e)
    with True assms(2) have "impl_write_loop sys (patience sys) data e 0 (s, t @ ?u) = (r, (s', t'))"
      by (simp add: impl_write_def bindE_def fld_def new_timer_run)
    from write_loop_sends [OF assms(1) _ this] show ?thesis by auto
  qed
qed

section \<open>Through the scoped locks\<close>

text \<open>Locking transfers no bytes: what a locked operation does to the port is what its body does.\<close>

lemma mutex_call_run:
  "mutex_call sys c (s, t) =
     (if ret_val (answer sys t c) \<noteq> 0 then Inl (IOException_errno (ret_val (answer sys t c))) else Inr (),
      (s, t @ [(c, answer sys t c)]))"
  by (simp add: mutex_call_def ser_run)

lemma scoped_cases:
  assumes "seqE (mutex_call sys (MutexLock m)) (finallyE body (mutex_call sys (MutexUnlock m))) (s, t) = (r, (s', t'))"
  obtains (nolock) e where "r = Inl e" and "e \<noteq> NoReturn" and "s' = s" and "sent t' = sent t" and "received t' = received t"
  | (body) u q t1 where "body (s, t @ u) = (q, (s', t1))" and "sent u = []" and "received u = []"
      and "sent t' = sent t1" and "received t' = received t1"
      and "\<forall>x. r = Inr x \<longrightarrow> q = Inr x" and "r = Inl NoReturn \<longrightarrow> q = Inl NoReturn"
proof -
  let ?c = "MutexLock m"
  let ?u = "[(?c, answer sys t ?c)]"
  obtain q s1 t1 where b: "body (s, t @ ?u) = (q, (s1, t1))" by (metis prod_cases3)
  show thesis
  proof (cases "ret_val (answer sys t ?c) = 0")
    case False
    with assms nolock show thesis by (auto simp: seqE_def bindE_def mutex_call_run)
  next
    case True
    with assms b have "finallyE body (mutex_call sys (MutexUnlock m)) (s, t @ ?u) = (r, (s', t'))"
      by (simp add: seqE_def bindE_def mutex_call_run)
    with b have "s' = s1 \<and> sent t' = sent t1 \<and> received t' = received t1
        \<and> (\<forall>x. r = Inr x \<longrightarrow> q = Inr x) \<and> (r = Inl NoReturn \<longrightarrow> q = Inl NoReturn)"
      by (cases q) (auto simp: finallyE_def mutex_call_run split: if_splits)
    with b body [of ?u q t1] show thesis by auto
  qed
qed

section \<open>The open flag and the descriptor\<close>

definition port_ok :: "ser_state \<Rightarrow> bool" where
  "port_ok x \<longleftrightarrow> (ser_is_open (fst x) \<longrightarrow> ser_fd (fst x) \<noteq> - 1)"

text \<open>
  Every operation on the port except opening and closing leaves flag, descriptor and name alone and
  opens and closes no descriptor.
\<close>

definition same_fd :: "ser_state \<Rightarrow> ser_state \<Rightarrow> bool" where
  "same_fd x y \<longleftrightarrow> ser_is_open (fst y) = ser_is_open (fst x) \<and> ser_fd (fst y) = ser_fd (fst x)
     \<and> ser_port (fst y) = ser_port (fst x) \<and> (\<forall>fd. fd_count fd (snd y) = fd_count fd (snd x))"

lemma mutex_same_fd: "fd_neutral c \<Longrightarrow> obeys same_fd (call sys c)"
  by (auto simp: obeys_def call_def same_fd_def)

interpretation fdo: line_order same_fd
proof (unfold_locales)
  fix f :: "serial_impl \<Rightarrow> serial_impl"
  assume "\<And>s. ser_is_open (f s) = ser_is_open s \<and> ser_fd (f s) = ser_fd s \<and> ser_port (f s) = ser_port s"
  then show "obeys same_fd (upd f)"
    by (simp add: obeys_def upd_def same_fd_def split_def)
qed (auto simp: same_fd_def intro: mutex_same_fd)

lemmas reconfigurePort_same_fd = fdo.reconfigurePort_R

end
