(* ===== verification/SerialConfig.thy ===== *)
theory SerialConfig
  imports SerialFacts
begin

text \<open>
  What configuring, opening and closing a port comes to: the flags the port is given for every
  combination of parameters, the time of a byte, and the descriptors that are open afterwards.
\<close>

section \<open>Bits of the flags\<close>

lemma flag_powers:
  "CLOCAL = 2 ^ 11"
  "CREAD = 2 ^ 7"
  "ICANON = 2 ^ 1"
  "ECHO = 2 ^ 3"
  "ECHOE = 2 ^ 4"
  "ECHOK = 2 ^ 5"
  "ECHONL = 2 ^ 6"
  "ISIG = 2 ^ 0"
  "IEXTEN = 2 ^ 15"
  "OPOST = 2 ^ 0"
  "INLCR = 2 ^ 6"
  "IGNCR = 2 ^ 7"
  "ICRNL = 2 ^ 8"
  "IGNBRK = 2 ^ 0"
  "IUCLC = 2 ^ 9"
  "PARMRK = 2 ^ 3"
  "CSIZE = 2 ^ 4 OR 2 ^ 5"
  "CS6 = 2 ^ 4"
  "CS7 = 2 ^ 5"
  "CS8 = 2 ^ 4 OR 2 ^ 5"
  "CSTOPB = 2 ^ 6"
  "PARENB = 2 ^ 8"
  "PARODD = 2 ^ 9"
  "CMSPAR = 2 ^ 30"
  "INPCK = 2 ^ 4"
  "ISTRIP = 2 ^ 5"
  "IXON = 2 ^ 10"
  "IXOFF = 2 ^ 12"
  "IXANY = 2 ^ 11"
  "CRTSCTS = 2 ^ 31"
  by (simp_all add: termios_flags)

lemma flag_bits:
  "bit CLOCAL n \<longleftrightarrow> n = 11"
  "bit CREAD n \<longleftrightarrow> n = 7"
  "bit ICANON n \<longleftrightarrow> n = 1"
  "bit ECHO n \<longleftrightarrow> n = 3"
  "bit ECHOE n \<longleftrightarrow> n = 4"
  "bit ECHOK n \<longleftrightarrow> n = 5"
  "bit ECHONL n \<longleftrightarrow> n = 6"
  "bit ISIG n \<longleftrightarrow> n = 0"
  "bit IEXTEN n \<longleftrightarrow> n = 15"
  "bit OPOST n \<longleftrightarrow> n = 0"
  "bit INLCR n \<longleftrightarrow> n = 6"
  "bit IGNCR n \<longleftrightarrow> n = 7"
  "bit ICRNL n \<longleftrightarrow> n = 8"
  "bit IGNBRK n \<longleftrightarrow> n = 0"
  "bit IUCLC n \<longleftrightarrow> n = 9"
  "bit PARMRK n \<longleftrightarrow> n = 3"
  "bit CSIZE n \<longleftrightarrow> n = 4 \<or> n = 5"
  "bit CS6 n \<longleftrightarrow> n = 4"
  "bit CS7 n \<longleftrightarrow> n = 5"
  "bit CS8 n \<longleftrightarrow> n = 4 \<or> n = 5"
  "bit CSTOPB n \<longleftrightarrow> n = 6"
  "bit PARENB n \<longleftrightarrow> n = 8"
  "bit PARODD n \<longleftrightarrow> n = 9"
  "bit CMSPAR n \<longleftrightarrow> n = 30"
  "bit INPCK n \<longleftrightarrow> n = 4"
  "bit ISTRIP n \<longleftrightarrow> n = 5"
  "bit IXON n \<longleftrightarrow> n = 10"
  "bit IXOFF n \<longleftrightarrow> n = 12"
  "bit IXANY n \<longleftrightarrow> n = 11"
  "bit CRTSCTS n \<longleftrightarrow> n = 31"
  unfolding flag_powers bit_or_iff bit_exp_iff by (auto simp: possible_bit_word)


lemmas flag_eq = bit_word_eqI bit_simps flag_bits

section \<open>The configuration of the line\<close>

text \<open>The pure part of \<open>reconfigurePort\<close>: from the settings read to the settings written.\<close>

definition line_settings :: "serial_impl \<Rightarrow> termios \<Rightarrow> exn + termios" where
  "line_settings s opt =
     bindR (setup_bytesize (ser_bytesize s) opt) (\<lambda>o2.
     bindR (setup_stopbits (ser_stopbits s) o2) (\<lambda>o3.
     bindR (setup_parity (ser_parity s) o3) (\<lambda>o4.
     Inr (flow_flags (setup_flow s) o4))))"

fun size_bits :: "bytesize_t \<Rightarrow> u32" where
  "size_bits fivebits = CS5"
| "size_bits sixbits = CS6"
| "size_bits sevenbits = CS7"
| "size_bits eightbits = CS8"
| "size_bits (bytesize_cast n) = 0"

fun parity_bits :: "parity_t \<Rightarrow> u32" where
  "parity_bits parity_none = 0"
| "parity_bits parity_odd = PARENB OR PARODD"
| "parity_bits parity_even = PARENB"
| "parity_bits parity_mark = PARENB OR PARODD"
| "parity_bits parity_space = PARENB"
| "parity_bits (parity_cast n) = 0"

lemma setup_InrD:
  "setup_bytesize bs opt = Inr o2 \<Longrightarrow> o2 = opt\<lparr>c_cflag := (c_cflag opt AND NOT CSIZE) OR size_bits bs\<rparr>"
  "setup_stopbits sb opt = Inr o2 \<Longrightarrow> o2 = opt\<lparr>c_cflag :=
     (if sb = stopbits_one then c_cflag opt AND NOT CSTOPB else c_cflag opt OR CSTOPB)\<rparr>"
  by (auto simp: setup_bytesize_def setup_stopbits_def Let_def split: bytesize_t.splits stopbits_t.splits)

lemma setup_parity_InrD:
  assumes "setup_parity p opt = Inr o2"
  shows "c_cflag o2 AND (PARENB OR PARODD) = parity_bits p"
    and "c_cflag o2 AND NOT (PARENB OR PARODD OR CMSPAR) = c_cflag opt AND NOT (PARENB OR PARODD OR CMSPAR)"
    and "c_iflag o2 = c_iflag opt AND NOT (INPCK OR ISTRIP)"
    and "c_lflag o2 = c_lflag opt" and "c_oflag o2 = c_oflag opt"
  using assms by (auto simp: setup_parity_def Let_def bit_simps flag_bits intro!: bit_word_eqI split: parity_t.splits)

text \<open>What a configured line looks like: the parameters of the object, raw mode, polling reads.\<close>

definition line_ok :: "serial_impl \<Rightarrow> termios \<Rightarrow> bool" where
  "line_ok s tio \<longleftrightarrow>
     c_cflag tio AND CSIZE = size_bits (ser_bytesize s) \<and>
     c_cflag tio AND CSTOPB = (if ser_stopbits s = stopbits_one then 0 else CSTOPB) \<and>
     c_cflag tio AND (PARENB OR PARODD) = parity_bits (ser_parity s) \<and>
     c_iflag tio AND (IXON OR IXOFF) = (if ser_xonxoff s then IXON OR IXOFF else 0) \<and>
     c_cflag tio AND CRTSCTS = (if ser_rtscts s then CRTSCTS else 0) \<and>
     c_cflag tio AND (CLOCAL OR CREAD) = CLOCAL OR CREAD \<and>
     c_lflag tio AND (ICANON OR ECHO OR ISIG) = 0 \<and> c_oflag tio AND OPOST = 0 \<and>
     c_vmin tio = 0 \<and> c_vtime tio = 0"

definition is_raw :: "termios \<Rightarrow> bool" where
  "is_raw opt \<longleftrightarrow> c_cflag opt AND (CLOCAL OR CREAD) = CLOCAL OR CREAD \<and>
     c_lflag opt AND (ICANON OR ECHO OR ISIG) = 0 \<and> c_oflag opt AND OPOST = 0"

lemma raw_mode_is_raw: "is_raw (raw_mode opt\<lparr>c_ispeed := a, c_ospeed := b\<rparr>)" "is_raw (raw_mode opt)"
  by (auto simp: is_raw_def raw_mode_def bit_simps flag_bits intro!: bit_word_eqI)

lemma and_bit: "a AND m = v \<Longrightarrow> bit m n \<Longrightarrow> bit (a :: u32) n \<longleftrightarrow> bit v n"
  by (auto simp: bit_and_iff)

lemma setup_flow_pars [simp]:
  "ser_bytesize (setup_flow s) = ser_bytesize s" "ser_stopbits (setup_flow s) = ser_stopbits s"
  "ser_parity (setup_flow s) = ser_parity s" "ser_baudrate (setup_flow s) = ser_baudrate s"
  by (simp_all add: setup_flow_def split: flowcontrol_t.split)

lemma CS5_bit [simp]: "\<not> bit CS5 n"
  by (simp add: CS5_def)

lemma line_settings_ok:
  assumes "line_settings s opt = Inr tio" and raw: "is_raw opt"
  shows "line_ok (setup_flow s) tio"
proof -
  from assms(1) obtain o2 o3 o4 where o2: "setup_bytesize (ser_bytesize s) opt = Inr o2"
    and o3: "setup_stopbits (ser_stopbits s) o2 = Inr o3" and o4: "setup_parity (ser_parity s) o3 = Inr o4"
    and tio: "tio = flow_flags (setup_flow s) o4"
    by (auto simp: line_settings_def bindR_Inr_iff)
  note p = setup_parity_InrD [OF o4] and b = setup_InrD(1) [OF o2] and q = setup_InrD(2) [OF o3]
  have keep: "bit (c_cflag o4) n = bit (c_cflag o3) n" if "n \<noteq> 8" "n \<noteq> 9" "n \<noteq> 30" "n < 32" for n
    using arg_cong [OF p(2), of "\<lambda>w. bit w n"] that by (simp add: bit_simps flag_bits)
  have o3bits: "bit (c_cflag o3) n = (if n = 6 then ser_stopbits s \<noteq> stopbits_one
      else if n = 4 \<or> n = 5 then bit (size_bits (ser_bytesize s)) n else bit (c_cflag opt) n)" if "n < 32" for n
    using that b q o2
    by (cases "ser_bytesize s"; cases "ser_stopbits s = stopbits_one")
       (auto simp: bit_simps flag_bits setup_bytesize_def)
  have raw': "bit (c_cflag opt) 11" "bit (c_cflag opt) 7"
    using raw and_bit [of "c_cflag opt" "CLOCAL OR CREAD"] by (auto simp: is_raw_def bit_simps flag_bits)
  have o4bits: "bit (c_cflag o4) n = (if n = 6 then ser_stopbits s \<noteq> stopbits_one
      else if n = 4 \<or> n = 5 then bit (size_bits (ser_bytesize s)) n else bit (c_cflag opt) n)"
    if "n \<noteq> 8" "n \<noteq> 9" "n \<noteq> 30" "n < 32" for n
    using keep [OF that] o3bits [OF that(4)] by simp
  have tc: "bit (c_cflag tio) n = bit (c_cflag o4) n" if "n < 31" for n
    using that by (simp add: tio flow_flags_def bit_simps flag_bits)
  have size45: "bit (size_bits x) n \<Longrightarrow> n = 4 \<or> n = 5" for x n
    by (cases x) (auto simp: flag_bits)
  have "c_cflag tio AND CSIZE = size_bits (ser_bytesize s)"
  proof (rule bit_word_eqI)
    fix n :: nat
    assume "n < LENGTH(32)"
    show "bit (c_cflag tio AND CSIZE) n = bit (size_bits (ser_bytesize s)) n"
    proof (cases "n = 4 \<or> n = 5")
      case True
      then show ?thesis by (auto simp: bit_simps flag_bits tc o4bits)
    next
      case False
      then show ?thesis using size45 by (auto simp: bit_simps flag_bits)
    qed
  qed
  moreover have "c_cflag tio AND CSTOPB = (if ser_stopbits s = stopbits_one then 0 else CSTOPB)"
    by (rule bit_word_eqI) (auto simp: bit_simps flag_bits tc o4bits)
  moreover have "c_cflag tio AND (PARENB OR PARODD) = parity_bits (ser_parity s)"
    unfolding p(1) [symmetric] by (rule bit_word_eqI) (auto simp: bit_simps flag_bits tc)
  moreover have "c_cflag tio AND (CLOCAL OR CREAD) = CLOCAL OR CREAD"
    by (rule bit_word_eqI) (auto simp: bit_simps flag_bits tc o4bits raw')
  moreover have "c_cflag tio AND CRTSCTS = (if ser_rtscts (setup_flow s) then CRTSCTS else 0)"
    by (auto simp: tio flow_flags_def bit_simps flag_bits intro!: bit_word_eqI)
  moreover have "c_iflag tio AND (IXON OR IXOFF) = (if ser_xonxoff (setup_flow s) then IXON OR IXOFF else 0)"
    by (auto simp: tio flow_flags_def bit_simps flag_bits intro!: bit_word_eqI)
  moreover have "c_lflag tio AND (ICANON OR ECHO OR ISIG) = 0" "c_oflag tio AND OPOST = 0"
    "c_vmin tio = 0" "c_vtime tio = 0"
    using raw p(4,5) b q by (simp_all add: is_raw_def tio flow_flags_def split: if_splits)
  ultimately show ?thesis by (simp add: line_ok_def)
qed


section \<open>A successful configuration\<close>

text \<open>What the configuration does to the settings the port had, and which system call writes them.\<close>

lemma setup_baud_InrD:
  assumes "setup_baud sys fd baud opt (s, t) = (Inr o1, (s', t'))"
  shows "s' = s" and "c_cflag o1 = c_cflag opt" and "c_iflag o1 = c_iflag opt" and "c_lflag o1 = c_lflag opt"
    and "c_oflag o1 = c_oflag opt" and "baud \<in> set linux_bauds \<Longrightarrow> c_ispeed o1 = baud \<and> c_ospeed o1 = baud"
  using assms
  by (auto simp: setup_baud_def Let_def call_or_throw_def call_def bindE_def seqE_def ret_def throw_def split: if_splits)

lemma reconfigurePort_InrD:
  assumes "reconfigurePort sys (s, t) = (Inr (), (s', t'))"
  obtains o1 o2 o3 o4 u r bt where "ser_fd s \<noteq> - 1"
    and "setup_baud sys (ser_fd s) (ser_baudrate s) (raw_mode (tios (answer sys t (Tcgetattr (ser_fd s)))))
           (s, t @ [(Tcgetattr (ser_fd s), answer sys t (Tcgetattr (ser_fd s)))]) = (Inr o1, (s, u))"
    and "setup_bytesize (ser_bytesize s) o1 = Inr o2" and "setup_stopbits (ser_stopbits s) o2 = Inr o3"
    and "setup_parity (ser_parity s) o3 = Inr o4"
    and "t' = u @ [(Tcsetattr (ser_fd s) (flow_flags (setup_flow s) o4), r)]"
    and "byte_time (ser_baudrate s) (ser_bytesize s) (ser_parity s) (ser_stopbits s) = Inr bt"
    and "s' = (setup_flow s)\<lparr>ser_byte_time_ns := bt\<rparr>"
proof -
  let ?g = "Tcgetattr (ser_fd s)"
  let ?u0 = "t @ [(?g, answer sys t ?g)]"
  obtain q s1 u where b: "setup_baud sys (ser_fd s) (ser_baudrate s) (raw_mode (tios (answer sys t ?g))) (s, ?u0)
      = (q, (s1, u))"
    by (metis prod_cases3)
  have s1: "s1 = s"
    using b by (auto simp: setup_baud_def Let_def call_or_throw_def call_def bindE_def seqE_def ret_def throw_def split: if_splits)
  show thesis
    using assms b s1 that
    by (auto simp: reconfigurePort_def call_or_throw_def call_def bindE_def seqE_def fld_def gets_def ret_def
        throw_def upd_def modify_def lift_def split: if_splits sum.splits)
qed

lemma reconfigurePort_line:
  assumes "reconfigurePort sys (s, t) = (Inr (), (s', t'))"
  shows "\<exists>tio r. last t' = (Tcsetattr (ser_fd s) tio, r) \<and> line_ok s' tio
    \<and> (ser_baudrate s \<in> set linux_bauds \<longrightarrow> c_ispeed tio = ser_baudrate s \<and> c_ospeed tio = ser_baudrate s)
    \<and> (\<forall>bt. s'\<lparr>ser_byte_time_ns := bt\<rparr> = (setup_flow s)\<lparr>ser_byte_time_ns := bt\<rparr>)"
  using assms
proof (cases rule: reconfigurePort_InrD)
  case (1 o1 o2 o3 o4 u r bt)
  note b = setup_baud_InrD [OF 1(2)]
  let ?tio = "flow_flags (setup_flow s) o4"
  have "line_settings s o1 = Inr ?tio" using 1 by (simp add: line_settings_def)
  moreover have "is_raw o1" using raw_mode_is_raw(2) b by (simp add: is_raw_def)
  ultimately have ok: "line_ok (setup_flow s) ?tio" by (rule line_settings_ok)
  have sp: "c_ispeed o4 = c_ispeed o1 \<and> c_ospeed o4 = c_ospeed o1"
    using 1(3-5)
    by (auto simp: setup_bytesize_def setup_stopbits_def setup_parity_def Let_def
        split: bytesize_t.splits stopbits_t.splits parity_t.splits)
  show ?thesis
    using 1(6,8) ok sp b(6)
    by (intro exI [of _ ?tio] exI [of _ r]) (simp add: line_ok_def flow_flags_def)
qed

lemma setup_parity_keeps_sticky:
  assumes "setup_parity p opt = Inr o2" and "p \<in> {parity_none, parity_odd, parity_even}"
  shows "c_cflag o2 AND CMSPAR = c_cflag opt AND CMSPAR"
  using assms by (auto simp: setup_parity_def Let_def bit_simps flag_bits intro!: bit_word_eqI)

lemma reconfigurePort_sticky:
  assumes run: "reconfigurePort sys (s, t) = (Inr (), (s', t'))"
    and p: "ser_parity s \<in> {parity_none, parity_odd, parity_even}"
    and old: "c_cflag (tios (answer sys t (Tcgetattr (ser_fd s)))) AND CMSPAR = CMSPAR"
  shows "\<exists>tio r. last t' = (Tcsetattr (ser_fd s) tio, r) \<and> c_cflag tio AND CMSPAR = CMSPAR"
  using run
proof (cases rule: reconfigurePort_InrD)
  case (1 o1 o2 o3 o4 u r bt)
  let ?b = "\<lambda>w. bit (c_cflag w :: u32) 30"
  have "?b o1" using setup_baud_InrD(2) [OF 1(2)] and_bit [OF old, of 30]
    by (simp add: raw_mode_def bit_simps flag_bits)
  then have "?b o2" using setup_InrD(1) [OF 1(3)] by (simp add: bit_simps flag_bits)
  then have "?b o3" using setup_InrD(2) [OF 1(4)] by (simp add: bit_simps flag_bits)
  then have "?b o4"
    using arg_cong [OF setup_parity_keeps_sticky [OF 1(5) p], of "\<lambda>w. bit w 30"] by (simp add: bit_simps flag_bits)
  then have "c_cflag (flow_flags (setup_flow s) o4) AND CMSPAR = CMSPAR"
    by (auto simp: flow_flags_def bit_simps flag_bits intro!: bit_word_eqI)
  with 1(6) show ?thesis by auto
qed

section \<open>Opening and closing\<close>

text \<open>
  Opening a closed port: the flag says whether it succeeded, and the only descriptor it can have
  opened is the one it remembers.
\<close>

lemma impl_open_loop_fd:
  assumes "impl_open_loop sys n (s, t) = (r, (s', t'))" and "\<not> ser_is_open s" and "ser_fd s = - 1"
  shows "(ser_is_open s' \<longleftrightarrow> r = Inr ()) \<and> (ser_is_open s' \<longrightarrow> ser_fd s' \<noteq> - 1)
    \<and> (\<forall>fd. fd_count fd t' = fd_count fd t + (if fd = ser_fd s' \<and> fd \<noteq> - 1 then 1 else 0))"
  using assms
proof (induction n arbitrary: s t)
  case 0
  then show ?case by (auto simp: throw_def)
next
  case (Suc n)
  let ?r = "answer sys t (Open (ser_port s))"
  let ?s = "s\<lparr>ser_fd := ret_val ?r\<rparr>" and ?t = "t @ [(Open (ser_port s), ?r)]"
  show ?case
  proof (cases "ser_port s = []")
    case True
    with Suc.prems show ?thesis by (auto simp: bindE_def fld_def throw_def)
  next
    case port: False
    show ?thesis
    proof (cases "ret_val ?r = - 1")
      case fail: True
      show ?thesis
      proof (cases "err_no ?r = EINTR")
        case True
        with fail port Suc.prems have "impl_open_loop sys n (?s, ?t) = (r, (s', t'))"
          by (simp add: bindE_def seqE_def fld_def gets_def call_def upd_def modify_def)
        from Suc.IH [OF this] Suc.prems fail show ?thesis by (auto split: if_splits)
      next
        case False
        with fail port Suc.prems show ?thesis
          by (auto simp: bindE_def seqE_def fld_def gets_def call_def upd_def modify_def throw_def split: if_splits)
      qed
    next
      case False
      obtain q s1 t1 where rc: "reconfigurePort sys (?s, ?t) = (q, (s1, t1))" by (metis prod_cases3)
      have same: "same_fd (?s, ?t) (s1, t1)" using reconfigurePort_same_fd rc by (rule obeysD)
      have cnt: "fd_count fd t1 = fd_count fd t + (if fd = ret_val ?r \<and> fd \<noteq> - 1 then 1 else 0)" for fd
        using same by (simp add: same_fd_def)
      have flds: "\<not> ser_is_open s1" "ser_fd s1 = ret_val ?r"
        using same Suc.prems(2) by (simp_all add: same_fd_def)
      have run: "impl_open_loop sys (Suc n) (s, t) =
          (case q of Inl e \<Rightarrow> (Inl e, (s1, t1)) | Inr _ \<Rightarrow> (Inr (), (s1\<lparr>ser_is_open := True\<rparr>, t1)))"
        using Suc.prems(2) False port rc
        by (simp add: bindE_def seqE_def fld_def gets_def call_def upd_def modify_def split: sum.split)
      show ?thesis
      proof (cases q)
        case (Inl e)
        with run Suc.prems(1) have "r = Inl e" "s' = s1" "t' = t1" by simp_all
        with flds cnt show ?thesis by simp
      next
        case (Inr x)
        with run Suc.prems(1) have "r = Inr ()" "s' = s1\<lparr>ser_is_open := True\<rparr>" "t' = t1" by simp_all
        with flds cnt False show ?thesis by simp
      qed
    qed
  qed
qed

lemmas impl_open_fd = impl_open_loop_fd [of sys "patience sys" for sys, folded impl_open_def]

lemma impl_close_run:
  assumes "ser_is_open s" and "ser_fd s \<noteq> - 1" and "ret_val (answer sys t (Close (ser_fd s))) = 0"
  shows "impl_close sys (s, t) =
    (Inr (), (s\<lparr>ser_fd := - 1, ser_is_open := False\<rparr>, t @ [(Close (ser_fd s), answer sys t (Close (ser_fd s)))]))"
  using assms by (simp add: impl_close_def bindE_def seqE_def fld_def call_def upd_def modify_def gets_def)

lemma impl_close_closed: "\<not> ser_is_open s \<Longrightarrow> impl_close sys (s, t) = (Inr (), (s, t))"
  by (simp add: impl_close_def bindE_def fld_def gets_def)

end
