(* ===== verification/SerialClaims.thy ===== *)
theory SerialClaims
  imports SerialConfig
begin

text \<open>
  The properties of the serial port: what a write delivers and a read returns, lines, bounded
  time, timers, the descriptor, and the configuration of the line.
\<close>

section \<open>The system with other fuel\<close>

abbreviation with_patience :: "os \<Rightarrow> nat \<Rightarrow> os" where
  "with_patience sys n \<equiv> sys\<lparr>patience := n\<rparr>"

lemma with_patience_ok [simp]:
  "kernel_ok (with_patience sys n) = kernel_ok sys" "clock_advances (with_patience sys n) d = clock_advances sys d"
  by (simp_all add: kernel_ok_def clock_advances_def)

text \<open>A fuel that is enough for a wait of \<open>ms\<close> milliseconds: a clock ticks at least once a nanosecond.\<close>

definition enough :: "u32 \<Rightarrow> nat" where
  "enough ms = nat (uint ms * 10 ^ 6) + 1"

lemma enough_fuel:
  assumes "clock_advances sys d" and "enough ms \<le> n"
  shows "0 < n" and "uint ms * 10 ^ 6 \<le> d * int n"
proof -
  from assms(2) show "0 < n" by (simp add: enough_def)
  have "1 \<le> d" using assms(1) by (simp add: clock_advances_def)
  then have "int n \<le> d * int n" by (simp add: mult_le_cancel_right1)
  moreover have "uint ms * 10 ^ 6 \<le> int n" using assms(2) by (simp add: enough_def)
  ultimately show "uint ms * 10 ^ 6 \<le> d * int n" by linarith
qed

section \<open>Lines\<close>

lemma readline_loop_line:
  assumes "kernel_ok sys" and "readline_loop sys [c] (Suc k) buf (s, t) = (r, (s', t'))"
  shows "s' = s \<and> (\<exists>bs. length bs \<le> Suc k \<and> received t' = received t @ bs
    \<and> (\<forall>x. r = Inr x \<longrightarrow> x = buf @ bs \<and> c \<notin> set (butlast bs)))"
  using assms(2)
proof (induction k arbitrary: buf t)
  case (0 buf t)
  obtain q s1 t1 where rd: "impl_read sys 1 (s, t) = (q, (s1, t1))" by (metis prod_cases3)
  from impl_read_receives [OF assms(1) rd] obtain bs where bs: "s1 = s" "length bs \<le> 1"
      "received t1 = received t @ bs" "\<forall>x. q = Inr x \<longrightarrow> x = bs" by blast
  have "butlast bs = []" using bs(2) by (cases bs) auto
  with 0 rd bs show ?case
    by (cases q) (auto simp: serial_read1_def bindE_def lift_def ends_with_def intro!: exI [of _ bs] split: if_splits)
next
  case (Suc k buf t)
  obtain q s1 t1 where rd: "impl_read sys 1 (s, t) = (q, (s1, t1))" by (metis prod_cases3)
  from impl_read_receives [OF assms(1) rd] obtain bs where bs: "s1 = s" "length bs \<le> 1"
      "received t1 = received t @ bs" "\<forall>x. q = Inr x \<longrightarrow> x = bs" by blast
  show ?case
  proof (cases "\<exists>b. q = Inr [b] \<and> b \<noteq> c")
    case False
    have "butlast bs = []" using bs(2) by (cases bs) auto
    with False Suc.prems rd bs show ?thesis
      by (cases q; cases bs) (auto simp: serial_read1_def bindE_def lift_def ends_with_def intro!: exI [of _ bs] split: if_splits)
  next
    case True
    then obtain b where b: "q = Inr [b]" "b \<noteq> c" by blast
    with bs have bsb: "bs = [b]" by auto
    have "readline_loop sys [c] (Suc k) (buf @ [b]) (s, t1) = (r, (s', t'))"
      using Suc.prems rd b bs(1) by (simp add: serial_read1_def bindE_def lift_def ends_with_def)
    from Suc.IH [OF this] obtain cs where "s' = s" "length cs \<le> Suc k" "received t' = received t1 @ cs"
      "\<forall>x. r = Inr x \<longrightarrow> x = (buf @ [b]) @ cs \<and> c \<notin> set (butlast cs)" by blast
    with b bs bsb show ?thesis by (intro conjI exI [of _ "b # cs"]) auto
  qed
qed

text \<open>The lines of a text: each but the last ends with the end-of-line byte, which occurs nowhere else.\<close>

definition lines_ok :: "u8 \<Rightarrow> u8 list list \<Rightarrow> bool" where
  "lines_ok c ls \<longleftrightarrow> (\<forall>l \<in> set ls. l \<noteq> [] \<and> c \<notin> set (butlast l)) \<and> (\<forall>l \<in> set (butlast ls). last l = c)"

definition full_lines :: "u8 \<Rightarrow> u8 list list \<Rightarrow> bool" where
  "full_lines c ls \<longleftrightarrow> (\<forall>l \<in> set ls. l \<noteq> [] \<and> c \<notin> set (butlast l) \<and> last l = c)"

lemma full_lines_ok: "full_lines c ls \<Longrightarrow> lines_ok c ls"
  by (auto simp: full_lines_def lines_ok_def dest: in_set_butlastD)

lemma full_lines_snoc:
  "full_lines c ls \<Longrightarrow> c \<notin> set xs \<Longrightarrow> full_lines c (ls @ [xs @ [c]])"
  "full_lines c ls \<Longrightarrow> c \<notin> set xs \<Longrightarrow> xs \<noteq> [] \<Longrightarrow> lines_ok c (ls @ [xs])"
  by (auto simp: full_lines_def lines_ok_def dest: in_set_butlastD)

lemma readlines_loop_lines:
  assumes "kernel_ok sys" and "readlines_loop sys [c] k buf start found (s, t) = (r, (s', t'))"
    and "start \<le> length buf" and "concat found = take start buf" and "full_lines c found"
    and "c \<notin> set (drop start buf)" and "0 < k"
  shows "s' = s \<and> (\<exists>bs. length bs \<le> k \<and> received t' = received t @ bs
    \<and> (\<forall>ls. r = Inr ls \<longrightarrow> concat ls = buf @ bs \<and> lines_ok c ls))"
  using assms(2-)
proof (induction k arbitrary: buf start found t)
  case 0
  then show ?case by simp
next
  case (Suc k buf start found t)
  obtain q s1 t1 where rd: "impl_read sys 1 (s, t) = (q, (s1, t1))" by (metis prod_cases3)
  from impl_read_receives [OF assms(1) rd] obtain bs where bs: "s1 = s" "length bs \<le> 1"
      "received t1 = received t @ bs" "\<forall>x. q = Inr x \<longrightarrow> x = bs" by blast
  show ?case
  proof (cases "\<exists>b. q = Inr [b]")
    case False
    have fin: "concat (if start \<noteq> length buf then found @ [drop start buf] else found) = buf
        \<and> lines_ok c (if start \<noteq> length buf then found @ [drop start buf] else found)"
      using Suc.prems by (auto intro: full_lines_snoc(2) full_lines_ok)
    let ?x = "if start \<noteq> length buf then found @ [drop start buf] else found"
    from False bs consider e where "q = Inl e" | "q = Inr []" "bs = []"
      by (cases q; cases bs) auto
    then show ?thesis
    proof cases
      case 1
      then have "readlines_loop sys [c] (Suc k) buf start found (s, t) = (Inl e, (s, t1))"
        using rd bs(1) by (simp add: serial_read1_def bindE_def)
      with Suc.prems(1) bs show ?thesis by auto
    next
      case 2
      then have "readlines_loop sys [c] (Suc k) buf start found (s, t) = (Inr ?x, (s, t1))"
        using rd bs(1) by (simp add: serial_read1_def bindE_def)
      with Suc.prems(1) have "r = Inr ?x" "s' = s" "t' = t1" by simp_all
      with fin bs(3) 2(2) show ?thesis by (simp del: if_split)
    qed
  next
    case True
    then obtain b where b: "q = Inr [b]" by blast
    with bs have bsb: "bs = [b]" by auto
    let ?buf = "buf @ [b]"
    let ?found = "if b = c then found @ [drop start ?buf] else found"
    let ?start = "if b = c then length ?buf else start"
    have inv: "?start \<le> length ?buf" "concat ?found = take ?start ?buf" "full_lines c ?found"
      "c \<notin> set (drop ?start ?buf)"
      using Suc.prems(2-5) full_lines_snoc(1) [OF Suc.prems(4,5)] by auto
    have run: "readlines_loop sys [c] (Suc k) buf start found (s, t) =
        (if k = 0 then ret (if ?start \<noteq> length ?buf then ?found @ [drop ?start ?buf] else ?found)
         else readlines_loop sys [c] k ?buf ?start ?found) (s, t1)"
      using rd b bs(1) by (simp add: serial_read1_def bindE_def lift_def ends_with_def Let_def)
    show ?thesis
    proof (cases "k = 0")
      case True
      have "concat (if ?start \<noteq> length ?buf then ?found @ [drop ?start ?buf] else ?found) = ?buf
        \<and> lines_ok c (if ?start \<noteq> length ?buf then ?found @ [drop ?start ?buf] else ?found)"
        using inv by (auto intro: full_lines_snoc(2) full_lines_ok split: if_splits)
      moreover from run True Suc.prems(1)
      have "r = Inr (if ?start \<noteq> length ?buf then ?found @ [drop ?start ?buf] else ?found)" "s' = s" "t' = t1"
        by (simp_all del: if_split add: if_True)
      ultimately show ?thesis using bs(3) bsb by (intro conjI exI [of _ "[b]"]) (simp_all del: if_split)
    next
      case False
      then have "readlines_loop sys [c] k ?buf ?start ?found (s, t1) = (r, (s', t'))"
        using run Suc.prems(1) by simp
      from Suc.IH [OF this inv] False obtain cs where "s' = s" "length cs \<le> k" "received t' = received t1 @ cs"
        "\<forall>ls. r = Inr ls \<longrightarrow> concat ls = ?buf @ cs \<and> lines_ok c ls" by blast
      with bs bsb show ?thesis by (intro conjI exI [of _ "b # cs"]) auto
    qed
  qed
qed


section \<open>The descriptor\<close>

lemma same_fd_port_ok: "obeys same_fd m \<Longrightarrow> keeps port_ok m"
  by (rule keepsI) (auto simp: port_ok_def same_fd_def dest: obeysD)

lemma impl_open_loop_port_ok: "keeps port_ok (impl_open_loop sys n)"
proof (induction n)
  case 0
  then show ?case by (simp only: impl_open_loop.simps keeps_intro)
next
  case (Suc n)
  show ?case
  proof (rule keepsI)
    fix x r y
    assume ok: "port_ok x" and run: "impl_open_loop sys (Suc n) x = (r, y)"
    obtain s t where x: "x = (s, t)" by (cases x)
    let ?r = "answer sys t (Open (ser_port s))"
    let ?y = "(s\<lparr>ser_fd := ret_val ?r\<rparr>, t @ [(Open (ser_port s), ?r)])"
    show "port_ok y"
    proof (cases "ser_port s = [] \<or> ser_is_open s")
      case True
      with run ok x show ?thesis by (auto simp: bindE_def fld_def gets_def throw_def split: if_splits)
    next
      case False
      then have y0: "port_ok ?y" by (simp add: port_ok_def)
      have run': "impl_open_loop sys (Suc n) x =
          (if ret_val ?r = - 1 then
             (if err_no ?r = EINTR then impl_open_loop sys n
              else if err_no ?r = ENFILE \<or> err_no ?r = EMFILE then throw (IOException ''Too many file handles open.'')
              else throw (IOException_errno (err_no ?r)))
           else seqE (reconfigurePort sys) (upd (\<lambda>s. s\<lparr>ser_is_open := True\<rparr>))) ?y"
        using False x by (simp add: bindE_def seqE_def fld_def gets_def call_def upd_def modify_def)
      show ?thesis
      proof (cases "ret_val ?r = - 1")
        case True
        with run run' have "impl_open_loop sys n ?y = (r, y) \<or> y = ?y"
          by (auto simp: throw_def split: if_splits)
        with y0 keepsD [OF Suc.IH y0] show ?thesis by blast
      next
        case ok': False
        obtain q z where rc: "reconfigurePort sys ?y = (q, z)" by (cases "reconfigurePort sys ?y")
        have "same_fd ?y z" using reconfigurePort_same_fd rc by (rule obeysD)
        with False have z: "port_ok z" "ser_fd (fst z) = ret_val ?r" by (simp_all add: same_fd_def port_ok_def)
        have "y = z \<or> y = ((fst z)\<lparr>ser_is_open := True\<rparr>, snd z)"
          using run run' rc ok' by (cases q) (auto simp: seqE_def bindE_def upd_def modify_def split_def)
        with z ok' show ?thesis by (auto simp: port_ok_def)
      qed
    qed
  qed
qed

lemma impl_close_port_ok: "keeps port_ok (impl_close sys)"
  by (rule keepsI)
     (auto simp: port_ok_def impl_close_def bindE_def seqE_def fld_def gets_def call_def upd_def modify_def
        throw_def split: if_splits)

lemma impl_open_port_ok: "keeps port_ok (impl_open sys)"
  unfolding impl_open_def by (rule impl_open_loop_port_ok)

lemma scoped_port_ok:
  assumes "keeps port_ok m"
  shows "keeps port_ok (ScopedReadLock sys m)" "keeps port_ok (ScopedWriteLock sys m)"
proof -
  have "obeys same_fd (mutex_call sys c)" if "fd_neutral c" for c
    unfolding mutex_call_def by (intro fdo.order_intros fdo.if_obeys mutex_same_fd that)
  then have "keeps port_ok (mutex_call sys (MutexLock m))" "keeps port_ok (mutex_call sys (MutexUnlock m))" for m
    by (auto intro: same_fd_port_ok)
  with assms show "keeps port_ok (ScopedReadLock sys m)" "keeps port_ok (ScopedWriteLock sys m)"
    unfolding ScopedReadLock_def ScopedWriteLock_def readLock_def readUnlock_def writeLock_def writeUnlock_def
    by (auto intro!: keeps_intro)
qed

lemma serial_setPort_port_ok: "keeps port_ok (serial_setPort sys p)"
  unfolding serial_setPort_def serial_close_def serial_open_def
proof (intro scoped_port_ok keeps_intro impl_open_port_ok impl_close_port_ok)
  show "keeps port_ok impl_isOpen" unfolding impl_isOpen_def by (rule same_fd_port_ok [OF fdo.fld_R])
  show "keeps port_ok (impl_setPort p)"
    by (rule keepsI) (auto simp: impl_setPort_def upd_def modify_def port_ok_def)
qed

lemma serial_run_port_ok: "keeps port_ok (serial_run sys op)"
proof -
  note un = fdo.impl_R [THEN same_fd_port_ok] same_fd_port_ok [OF fdo.fld_R]
  show ?thesis
    by (cases op)
      (auto simp: serial_defs split_def void_def
        intro!: impl_open_port_ok impl_close_port_ok serial_setPort_port_ok scoped_port_ok un keeps_intro)
qed


section \<open>A port for examples\<close>

definition demo_port :: serial_impl where
  "demo_port = (new_impl ''/dev/ttyS0'' 9600 eightbits parity_none stopbits_one flowcontrol_none 0)
     \<lparr>ser_fd := 3, ser_is_open := True, ser_timeout := simpleTimeout 1000\<rparr>"

definition closed_port :: serial_impl where
  "closed_port = demo_port\<lparr>ser_fd := - 1, ser_is_open := False\<rparr>"

lemma demo_port_sel [simp]:
  "ser_fd demo_port = 3" "ser_is_open demo_port" "ser_timeout demo_port = simpleTimeout 1000"
  "ser_port demo_port = ''/dev/ttyS0''" "ser_bytesize demo_port = eightbits" "ser_parity demo_port = parity_none"
  "ser_stopbits demo_port = stopbits_one" "ser_baudrate demo_port = 9600" "ser_flowcontrol demo_port = flowcontrol_none"
  by (simp_all add: demo_port_def new_impl_def)

lemma closed_port_sel [simp]:
  "ser_fd closed_port = - 1" "\<not> ser_is_open closed_port" "ser_port closed_port = ''/dev/ttyS0''"
  by (simp_all add: closed_port_def)

lemma demo_os_sel [simp]: "answer demo_os = demo_answer" "patience demo_os = Suc (Suc (Suc 0))"
  by (simp_all add: demo_os_def)

lemma quiet_reply_sel [simp]:
  "ret_val quiet_reply = 0" "err_no quiet_reply = 0" "fd_is_set quiet_reply" "rdata quiet_reply = []"
  by (simp_all add: quiet_reply_def)

lemmas demo_run = ser_run impl_write_def impl_read_def simpleTimeout_def total_timeout_ms_def
  new_timer_def remaining_def timer_expiry_def remaining_ms_def trunc_div_def Let_def
  call_or_throw_def read_count_def

lemma replicate_two: "replicate 2 x = [x, x]"
  by (simp add: numeral_2_eq_2)

text \<open>When the mutexes work, a locked operation returns what its body returns.\<close>

lemma scoped_result:
  assumes "mutex_ok sys"
  shows "fst (ScopedReadLock sys m (s, t)) = fst (m (s, t @ [(MutexLock ReadMutex, answer sys t (MutexLock ReadMutex))]))"
    and "fst (ScopedWriteLock sys m (s, t)) = fst (m (s, t @ [(MutexLock WriteMutex, answer sys t (MutexLock WriteMutex))]))"
  using assms
  by (auto simp: ScopedReadLock_def ScopedWriteLock_def readLock_def readUnlock_def writeLock_def writeUnlock_def
      seqE_def bindE_def finallyE_def mutex_call_run mutex_ok_def split: prod.split sum.split)

lemma fst_bindE_ret: "fst (bindE m (\<lambda>x. ret (f x)) s) = map_sum id f (fst (m s))"
  by (auto simp: bindE_def ret_def split: prod.split sum.split)

lemmas demo_configure = reconfigurePort_def setup_baud_def linux_bauds_def setup_bytesize_def setup_stopbits_def
  setup_parity_def byte_time_def

section \<open>Properties\<close>

text \<open>
  C12: a write delivers a prefix of the data to the device, and nothing else; when it returns a
  number, that is the length of the prefix. So no byte is lost, duplicated or reordered by the
  retry loop, whatever partial writes the system makes, and even when the write throws.
\<close>

theorem serial_write_sends_prefix:
  assumes "kernel_ok sys" and "serial_write sys data (s, t) = (r, (s', t'))"
  shows "s' = s \<and> (\<exists>k \<le> length data. sent t' = sent t @ take k data \<and> (\<forall>x. r = Inr x \<longrightarrow> x = k))"
  using assms(2) unfolding serial_write_def serial_write1_def ScopedWriteLock_def writeLock_def writeUnlock_def
proof (cases rule: scoped_cases)
  case (nolock e)
  then show ?thesis by (intro conjI exI [of _ 0]) auto
next
  case (body u q t1)
  from impl_write_sends [OF assms(1) body(1)] body show ?thesis by auto
qed

theorem serial_write_sends_prefix_witness:
  "fst (serial_write demo_os [1, 2] (demo_port, [])) = Inr 2
     \<and> sent (snd (snd (serial_write demo_os [1, 2] (demo_port, [])))) = [1, 2]"
proof -
  obtain r s' t' where run: "serial_write demo_os [1, 2] (demo_port, []) = (r, (s', t'))" by (metis prod_cases3)
  have "fst (serial_write demo_os [1, 2] (demo_port, [])) = Inr 2"
    by (simp add: serial_write_def serial_write1_def scoped_result [OF demo_mutex_ok] demo_run)
  with run have "r = Inr 2" by simp
  with run serial_write_sends_prefix [OF demo_kernel_ok run] show ?thesis by auto
qed

text \<open>
  C13: a read returns exactly the bytes the device delivered during it, in order, and never more than
  were asked for.
\<close>

theorem serial_read_returns_received:
  assumes "kernel_ok sys" and "serial_read sys sz (s, t) = (r, (s', t'))"
  shows "s' = s \<and> (\<exists>bs. length bs \<le> sz \<and> received t' = received t @ bs \<and> (\<forall>x. r = Inr x \<longrightarrow> x = bs))"
  using assms(2) unfolding serial_read_def ScopedReadLock_def readLock_def readUnlock_def
proof (cases rule: scoped_cases)
  case (nolock e)
  then show ?thesis by (intro conjI exI [of _ "[]"]) auto
next
  case (body u q t1)
  from impl_read_receives [OF assms(1) body(1)] body show ?thesis by auto
qed

theorem serial_read_returns_received_witness:
  "fst (serial_read demo_os 2 (demo_port, [])) = Inr [0x54, 0x54]
     \<and> received (snd (snd (serial_read demo_os 2 (demo_port, [])))) = [0x54, 0x54]"
proof -
  obtain r s' t' where run: "serial_read demo_os 2 (demo_port, []) = (r, (s', t'))" by (metis prod_cases3)
  have "fst (serial_read demo_os 2 (demo_port, [])) = Inr [0x54, 0x54]"
    by (simp add: serial_read_def scoped_result [OF demo_mutex_ok] demo_run replicate_two)
  with run have "r = Inr [0x54, 0x54]" by simp
  with run serial_read_returns_received [OF demo_kernel_ok run] show ?thesis by auto
qed

text \<open>
  C15: when the clock advances, writes and reads return: there is a number of iterations, depending
  only on the timeouts and the size, after which neither loop is still running.
\<close>

theorem serial_write_and_read_return:
  assumes "kernel_ok sys" and "clock_advances sys d"
  shows "\<exists>N. \<forall>n \<ge> N. \<forall>t.
    fst (serial_write (with_patience sys n) data (s, t)) \<noteq> Inl NoReturn \<and>
    fst (serial_read (with_patience sys n) sz (s, t)) \<noteq> Inl NoReturn"
proof -
  let ?w = "total_timeout_ms (write_timeout_constant (ser_timeout s)) (write_timeout_multiplier (ser_timeout s)) (length data)"
  let ?r = "total_timeout_ms (read_timeout_constant (ser_timeout s)) (read_timeout_multiplier (ser_timeout s)) sz"
  have "fst (serial_write (with_patience sys n) data (s, t)) \<noteq> Inl NoReturn
      \<and> fst (serial_read (with_patience sys n) sz (s, t)) \<noteq> Inl NoReturn" if n: "max (enough ?w) (enough ?r) \<le> n" for n t
  proof
    let ?sys = "with_patience sys n"
    have fuel: "0 < n" "uint ?w * 10 ^ 6 \<le> d * int n" "uint ?r * 10 ^ 6 \<le> d * int n"
      using n enough_fuel [OF assms(2)] by auto
    obtain q s' t' where run: "serial_write ?sys data (s, t) = (q, (s', t'))" by (metis prod_cases3)
    from run have "q \<noteq> Inl NoReturn"
      unfolding serial_write_def serial_write1_def ScopedWriteLock_def writeLock_def writeUnlock_def
    proof (cases rule: scoped_cases)
      case (body u p t1)
      with impl_write_returns [of ?sys d s data "t @ u"] assms fuel show ?thesis by auto
    qed auto
    with run show "fst (serial_write ?sys data (s, t)) \<noteq> Inl NoReturn" by simp
    obtain q s' t' where run: "serial_read ?sys sz (s, t) = (q, (s', t'))" by (metis prod_cases3)
    from run have "q \<noteq> Inl NoReturn"
      unfolding serial_read_def ScopedReadLock_def readLock_def readUnlock_def
    proof (cases rule: scoped_cases)
      case (body u p t1)
      with impl_read_returns [of ?sys d s sz "t @ u"] assms fuel show ?thesis by auto
    qed auto
    with run show "fst (serial_read ?sys sz (s, t)) \<noteq> Inl NoReturn" by simp
  qed
  then show ?thesis by blast
qed

theorem serial_write_and_read_return_witness:
  "\<exists>N. \<forall>n \<ge> N. \<forall>t. fst (serial_write (with_patience demo_os n) [1] (demo_port, t)) \<noteq> Inl NoReturn
     \<and> fst (serial_read (with_patience demo_os n) 2 (demo_port, t)) \<noteq> Inl NoReturn"
  by (rule serial_write_and_read_return [OF demo_kernel_ok demo_clock_advances])

text \<open>
  C24: reading a line with a one-byte end of line returns the bytes the device delivered, at most
  \<open>size\<close> of them, with the end of line at most at its end.
\<close>

theorem serial_readline_line:
  assumes "kernel_ok sys" and "0 < sz" and "serial_readline sys sz [c] (s, t) = (Inr line, (s', t'))"
  shows "length line \<le> sz \<and> received t' = received t @ line \<and> c \<notin> set (butlast line)"
proof -
  from assms(2) obtain k where sz: "sz = Suc k" by (cases sz) auto
  from assms(3) obtain y where "serial_readline_append sys [] sz [c] (s, t) = (Inr (line, y), (s', t'))"
    by (auto simp: serial_readline_def elim!: bindE_cases)
  then show ?thesis
    unfolding serial_readline_append_def ScopedReadLock_def readLock_def readUnlock_def
  proof (cases rule: scoped_cases)
    case (body u q t1)
    then have "bindE (readline_loop sys [c] (Suc k) []) (\<lambda>bs. ret ([] @ bs, length bs)) (s, t @ u) = (Inr (line, y), (s', t1))"
      by (simp add: sz)
    then have loop: "readline_loop sys [c] (Suc k) [] (s, t @ u) = (Inr line, (s', t1))"
      by (auto elim!: bindE_cases simp: ret_def)
    show ?thesis using readline_loop_line [OF assms(1) loop] body sz by auto
  qed simp
qed

theorem serial_readline_line_witness:
  "fst (serial_readline demo_os (Suc (Suc 0)) [0x54] (demo_port, [])) = Inr [0x54]
     \<and> received (snd (snd (serial_readline demo_os (Suc (Suc 0)) [0x54] (demo_port, [])))) = [0x54]"
proof -
  obtain r s' t' where run: "serial_readline demo_os (Suc (Suc 0)) [0x54] (demo_port, []) = (r, (s', t'))" by (metis prod_cases3)
  have "fst (serial_readline demo_os (Suc (Suc 0)) [0x54] (demo_port, [])) = Inr [0x54]"
    by (simp add: serial_readline_def serial_readline_append_def split_def fst_bindE_ret
        scoped_result [OF demo_mutex_ok])
       (simp add: serial_read1_def ends_with_def demo_run)
  with run have "r = Inr [0x54]" by simp
  with run serial_readline_line [OF demo_kernel_ok _ run [unfolded \<open>r = Inr [0x54]\<close>]] show ?thesis by simp
qed

text \<open>
  reading lines with a one-byte end of line splits exactly the bytes the device delivered: the
  lines concatenated are those bytes, no line is empty, every line but the last ends with the
  end of line, and it occurs nowhere else.
\<close>

theorem serial_readlines_lines:
  assumes "kernel_ok sys" and "0 < sz" and "serial_readlines sys sz [c] (s, t) = (Inr ls, (s', t'))"
  shows "length (concat ls) \<le> sz \<and> received t' = received t @ concat ls \<and> lines_ok c ls"
  using assms(3) unfolding serial_readlines_def ScopedReadLock_def readLock_def readUnlock_def
proof (cases rule: scoped_cases)
  case (body u q t1)
  have "full_lines c []" by (simp add: full_lines_def)
  with readlines_loop_lines [OF assms(1) body(1)] body assms(2) show ?thesis by auto
qed simp

theorem serial_readlines_lines_witness:
  "fst (serial_readlines demo_os (Suc 0) [0x54] (demo_port, [])) = Inr [[0x54]]
     \<and> received (snd (snd (serial_readlines demo_os (Suc 0) [0x54] (demo_port, [])))) = [0x54]"
proof -
  obtain r s' t' where run: "serial_readlines demo_os (Suc 0) [0x54] (demo_port, []) = (r, (s', t'))" by (metis prod_cases3)
  have "fst (serial_readlines demo_os (Suc 0) [0x54] (demo_port, [])) = Inr [[0x54]]"
    by (simp add: serial_readlines_def scoped_result [OF demo_mutex_ok])
       (simp add: serial_read1_def ends_with_def demo_run)
  with run have r: "r = Inr [[0x54]]" by simp
  with run serial_readlines_lines [OF demo_kernel_ok _ run [unfolded r(1)]] show ?thesis by auto
qed


text \<open>
  \<open>readline\<close> with the two-byte end of line \<^verbatim>\<open>\r\n\<close> (or any longer one) looks at the bytes before
  its buffer as soon as the first byte has arrived, which is undefined behaviour.
\<close>

theorem serial_readline_long_eol:
  assumes "mutex_ok sys" and "2 \<le> length eol" and "0 < sz"
    and "fst (impl_read sys 1 (s, t @ [(MutexLock ReadMutex, answer sys t (MutexLock ReadMutex))])) = Inr [b]"
  shows "fst (serial_readline sys sz eol (s, t)) = Inl (Undefined ''read out of bounds'')"
proof -
  from assms(3) obtain k where sz: "sz = Suc k" by (cases sz) auto
  from assms(2,4) show ?thesis
    by (auto simp: serial_readline_def serial_readline_append_def split_def fst_bindE_ret scoped_result [OF assms(1)]
        sz serial_read1_def ends_with_def bindE_def [of "impl_read sys (Suc 0)"] split: prod.split sum.split)
qed

theorem serial_readline_long_eol_witness:
  "fst (serial_readline demo_os 80 [0x0D, 0x0A] (demo_port, [])) = Inl (Undefined ''read out of bounds'')"
proof -
  have "fst (impl_read demo_os (Suc 0) (demo_port, [] @ [(MutexLock ReadMutex, answer demo_os [] (MutexLock ReadMutex))])) = Inr [0x54]"
    by (simp add: demo_run)
  then show ?thesis
    by (intro serial_readline_long_eol [OF demo_mutex_ok, where b = "0x54"]) simp_all
qed


lemma demo_reconfigure:
  "fst (reconfigurePort demo_os (demo_port, [])) = Inr ()"
  by (simp add: demo_configure call_or_throw_def ser_run Let_def)


text \<open>
  a port that has mark or space parity cannot be switched back: the sticky-parity bit
  \<open>CMSPAR\<close> the port already has is written back for no, odd and even parity too.
\<close>

theorem reconfigurePort_keeps_sticky_parity:
  assumes "reconfigurePort sys (s, t) = (Inr (), (s', t'))"
    and "ser_parity s \<in> {parity_none, parity_odd, parity_even}"
    and "c_cflag (tios (answer sys t (Tcgetattr (ser_fd s)))) AND CMSPAR = CMSPAR"
  shows "\<exists>tio r. last t' = (Tcsetattr (ser_fd s) tio, r) \<and> c_cflag tio AND CMSPAR = CMSPAR"
  using assms by (rule reconfigurePort_sticky)

definition sticky_answer :: "trace \<Rightarrow> syscall \<Rightarrow> reply" where
  "sticky_answer t c = (if c = Tcgetattr 3 then quiet_reply\<lparr>tios := (tios quiet_reply)\<lparr>c_cflag := CMSPAR\<rparr>\<rparr> else demo_answer t c)"

theorem reconfigurePort_keeps_sticky_parity_witness:
  "\<exists>tio r s' t'. reconfigurePort (demo_os\<lparr>answer := sticky_answer\<rparr>) (demo_port, []) = (Inr (), (s', t'))
     \<and> last t' = (Tcsetattr 3 tio, r) \<and> c_cflag tio AND CMSPAR = CMSPAR"
proof -
  let ?sys = "demo_os\<lparr>answer := sticky_answer\<rparr>"
  have "fst (reconfigurePort ?sys (demo_port, [])) = Inr ()"
    by (simp add: demo_configure call_or_throw_def ser_run Let_def sticky_answer_def)
  then obtain s' t' where run: "reconfigurePort ?sys (demo_port, []) = (Inr (), (s', t'))"
    by (metis prod_cases3 fst_conv)
  from reconfigurePort_keeps_sticky_parity [OF run] run show ?thesis by (auto simp: sticky_answer_def)
qed

text \<open>
  C40: a timer of at most two seconds expires exactly its milliseconds after the clock reading it was
  started at; for three seconds and more, the constructor converts a \<open>double\<close> that does not
  fit into an \<open>int\<close>, which is undefined behaviour.
\<close>

theorem timer_expiry_range:
  assumes "0 \<le> snd now" and "snd now < 10 ^ 9"
  shows "(uint ms \<le> 2000 \<longrightarrow> (\<exists>e. timer_expiry now ms = Inr e \<and> 0 \<le> snd e \<and> snd e < 10 ^ 9
            \<and> nanos e = nanos now + uint ms * 10 ^ 6))
    \<and> (3000 \<le> uint ms \<longrightarrow> timer_expiry now ms = Inl (Undefined ''double to int out of range''))"
proof (intro conjI impI)
  assume "uint ms \<le> 2000"
  from timer_expiry_short [OF assms this] timer_expiry_nanos show "\<exists>e. timer_expiry now ms = Inr e
      \<and> 0 \<le> snd e \<and> snd e < 10 ^ 9 \<and> nanos e = nanos now + uint ms * 10 ^ 6"
    by blast
next
  assume ms: "3000 \<le> uint ms"
  let ?n = "snd now + uint ms * 10 ^ 6"
  from ms have "3000 * 10 ^ 6 \<le> uint ms * 10 ^ 6" by (rule mult_right_mono) simp
  with assms(1) have "3 * 10 ^ 9 \<le> ?n" by simp
  then have "3 \<le> ?n div 10 ^ 9" by (simp add: zdiv_mono1 [of "3 * 10 ^ 9" _ "10 ^ 9", simplified])
  then have "2 ^ 31 \<le> 10 ^ 9 * (?n div 10 ^ 9)" by simp
  with \<open>3 * 10 ^ 9 \<le> ?n\<close> show "timer_expiry now ms = Inl (Undefined ''double to int out of range'')"
    by (auto simp: timer_expiry_def Let_def)
qed

theorem timer_expiry_range_witness:
  "timer_expiry (7, 5) 1500 = Inr (8, 500000005)
     \<and> timer_expiry (7, 5) 3000 = Inl (Undefined ''double to int out of range'')"
  using timer_expiry_range [of "(7, 5)" 3000] by (simp add: timer_expiry_def)

text \<open>
  C26: however a client uses a port, whatever fails on the way, an open port has a descriptor:
  the flag \<open>is_open_\<close> never goes with \<open>fd_ = -1\<close>.
\<close>

fun serial_session :: "os \<Rightarrow> serial_op list \<Rightarrow> ser_state \<Rightarrow> ser_state" where
  "serial_session sys [] x = x"
| "serial_session sys (op # ops) x = serial_session sys ops (snd (serial_run sys op x))"

theorem serial_session_port_ok:
  assumes "port_ok x"
  shows "port_ok (serial_session sys ops x)"
  using assms
proof (induction ops arbitrary: x)
  case (Cons op ops)
  have "port_ok (snd (serial_run sys op x))"
    using keepsD [OF serial_run_port_ok Cons.prems] by (metis surjective_pairing)
  with Cons.IH show ?case by simp
qed simp

theorem serial_session_port_ok_witness:
  "port_ok (demo_port, []) \<and> port_ok (serial_session demo_os [OpWrite [1], OpClose, OpSetPort ''/dev/ttyS1'', OpOpen] (demo_port, []))"
  by (intro conjI serial_session_port_ok) (simp_all add: port_ok_def)

text \<open>
  opening a closed port succeeds exactly when the port is open afterwards; it opens no
  descriptor but the one it remembers, and closing the opened port closes it again, so that
  the process has the descriptors it had before.
\<close>

theorem open_then_close:
  assumes "impl_open sys (s, t) = (r, (s', t'))" and "\<not> ser_is_open s" and "ser_fd s = - 1"
  shows "(ser_is_open s' \<longleftrightarrow> r = Inr ())
    \<and> (\<forall>fd. fd_count fd t' = fd_count fd t + (if fd = ser_fd s' \<and> fd \<noteq> - 1 then 1 else 0))
    \<and> (r = Inr () \<longrightarrow> ret_val (answer sys t' (Close (ser_fd s'))) = 0 \<longrightarrow>
         (\<exists>s'' t''. impl_close sys (s', t') = (Inr (), (s'', t'')) \<and> \<not> ser_is_open s'' \<and> ser_fd s'' = - 1
            \<and> (\<forall>fd. fd_count fd t'' = fd_count fd t)))"
  using impl_open_fd [OF assms] by (auto simp: impl_close_run)

theorem open_then_close_witness:
  "\<exists>s' t' s'' t''. impl_open demo_os (closed_port, []) = (Inr (), (s', t')) \<and> impl_close demo_os (s', t') = (Inr (), (s'', t''))
     \<and> fd_count 3 t' = 1 \<and> fd_count 3 t'' = 0"
proof -
  obtain r s' t' where run: "impl_open demo_os (closed_port, []) = (r, (s', t'))" by (metis prod_cases3)
  have "fst (impl_open demo_os (closed_port, [])) = Inr () \<and> ser_fd (fst (snd (impl_open demo_os (closed_port, [])))) = 3"
    by (simp add: impl_open_def demo_configure call_or_throw_def ser_run Let_def closed_port_def setup_flow_def)
  with run have "r = Inr ()" "ser_fd s' = 3" by simp_all
  with open_then_close [OF run] run show ?thesis by auto
qed

text \<open>
  C38: when the port opens but cannot be configured, the descriptor is leaked: it stays open, the
  object does not count as open, and closing it does nothing.
\<close>

theorem failed_open_leaks:
  assumes "impl_open sys (s, t) = (Inl e, (s', t'))" and "\<not> ser_is_open s" and "ser_fd s = - 1" and "ser_fd s' \<noteq> - 1"
  shows "fd_count (ser_fd s') t' = fd_count (ser_fd s') t + 1 \<and> impl_close sys (s', t') = (Inr (), (s', t'))"
  using impl_open_fd [OF assms(1-3)] assms(4) by (auto simp: impl_close_closed)

definition mute_answer :: "trace \<Rightarrow> syscall \<Rightarrow> reply" where
  "mute_answer t c = (if c = Tcgetattr 3 then quiet_reply\<lparr>ret_val := - 1\<rparr> else demo_answer t c)"

theorem failed_open_leaks_witness:
  "\<exists>s' t'. impl_open (demo_os\<lparr>answer := mute_answer\<rparr>) (closed_port, []) = (Inl (IOException ''::tcgetattr''), (s', t'))
     \<and> fd_count 3 t' = 1 \<and> impl_close (demo_os\<lparr>answer := mute_answer\<rparr>) (s', t') = (Inr (), (s', t'))"
proof -
  let ?sys = "demo_os\<lparr>answer := mute_answer\<rparr>"
  obtain r s' t' where run: "impl_open ?sys (closed_port, []) = (r, (s', t'))" by (metis prod_cases3)
  have "fst (impl_open ?sys (closed_port, [])) = Inl (IOException ''::tcgetattr'')
      \<and> ser_fd (fst (snd (impl_open ?sys (closed_port, [])))) = 3"
    by (simp add: impl_open_def demo_configure call_or_throw_def ser_run Let_def mute_answer_def)
  with run have r: "r = Inl (IOException ''::tcgetattr'')" "ser_fd s' = 3" by simp_all
  with failed_open_leaks [OF run [unfolded r(1)]] run show ?thesis by auto
qed

end
