(* ===== verification/ListPorts.thy ===== *)
theory ListPorts
  imports CText
begin

text \<open>
  The serial ports of the machine, \<^verbatim>\<open>src/src/serial/src/impl/list_ports/list_ports_linux.cc\<close>. The
  file system is a parameter: the result of \<open>glob\<close> for a pattern, the result of \<open>realpath\<close>, and
  the contents of a file that can be opened; \<open>stat\<close> succeeds for the paths in \<open>fs_stat\<close>.
\<close>

record sysfs =
  fs_glob :: "string \<Rightarrow> string list"
  fs_stat :: "string \<Rightarrow> bool"
  fs_real :: "string \<Rightarrow> string option"
  fs_read :: "string \<Rightarrow> string option"

record PortInfo =
  pi_port :: string
  pi_description :: string
  pi_hardware_id :: string

section \<open>Paths\<close>

definition glob_all :: "sysfs \<Rightarrow> string list \<Rightarrow> string list" where
  "glob_all F patterns = concat (map (fs_glob F) patterns)"

text \<open>The text behind the last slash, and the text before it.\<close>

definition after_slash :: "string \<Rightarrow> string" where
  "after_slash p = rev (takeWhile (\<lambda>c. c \<noteq> CHR ''/'') (rev p))"

definition basename :: "string \<Rightarrow> string" where
  "basename p = after_slash p"

definition dirname :: "string \<Rightarrow> string" where
  "dirname p =
     (if CHR ''/'' \<notin> set p then p
      else let pos = length p - length (after_slash p) - 1 in
        if pos = 0 then ''/'' else take pos p)"

definition realpath :: "sysfs \<Rightarrow> string \<Rightarrow> string" where
  "realpath F p = (case fs_real F p of None \<Rightarrow> [] | Some q \<Rightarrow> q)"

text \<open>\<open>getline\<close> on a file that may not exist\<close>

definition read_line :: "sysfs \<Rightarrow> string \<Rightarrow> string" where
  "read_line F file = (case fs_read F file of None \<Rightarrow> [] | Some t \<Rightarrow> takeWhile (\<lambda>c. c \<noteq> CHR 0x0A) t)"

section \<open>Formatting into a growing buffer\<close>

text \<open>
  \<open>vsnprintf\<close> returns the length of the whole text, here \<open>txt\<close>, and fills the buffer when there
  is room; the loop makes room and tries again, at most six times.
\<close>

function format_loop :: "string \<Rightarrow> nat \<Rightarrow> nat \<Rightarrow> string" where
  "format_loop txt size0 loop_count =
     (if length txt < size0 then txt
      else if loop_count + 1 > 5 then []
      else format_loop txt (length txt + 1) (loop_count + 1))"
  by auto
termination by (relation "measure (\<lambda>(t, s, n). 6 - n)") auto

declare format_loop.simps [simp del]

definition format_text :: "string \<Rightarrow> string" where
  "format_text txt = format_loop txt 256 0"

lemma format_text_id [simp]: "format_text txt = txt"
  unfolding format_text_def
  by (subst format_loop.simps, simp, subst format_loop.simps, simp)

section \<open>The description of a device\<close>

definition usb_sysfs_friendly_name :: "sysfs \<Rightarrow> string \<Rightarrow> string" where
  "usb_sysfs_friendly_name F p =
     (let manufacturer = read_line F (p @ ''/manufacturer'');
          product = read_line F (p @ ''/product'');
          ser = read_line F (p @ ''/serial'')
      in if manufacturer = [] \<and> product = [] \<and> ser = [] then []
         else format_text (manufacturer @ '' '' @ product @ '' '' @ ser))"

definition usb_sysfs_hw_string :: "sysfs \<Rightarrow> string \<Rightarrow> string" where
  "usb_sysfs_hw_string F p =
     (let ser = read_line F (p @ ''/serial'');
          ser' = (if length ser > 0 then format_text (''SNR='' @ ser) else ser);
          vid = read_line F (p @ ''/idVendor'');
          pid = read_line F (p @ ''/idProduct'')
      in format_text (''USB VID:PID='' @ vid @ '':'' @ pid @ '' '' @ ser'))"

definition usb_info :: "sysfs \<Rightarrow> string \<Rightarrow> string \<times> string" where
  "usb_info F p = (if fs_stat F p then (usb_sysfs_friendly_name F p, usb_sysfs_hw_string F p) else ([], []))"

definition get_sysfs_info :: "sysfs \<Rightarrow> string \<Rightarrow> string \<times> string" where
  "get_sysfs_info F device_path =
     (let device_name = basename device_path;
          sys_device_path = format_text (''/sys/class/tty/'' @ device_name @ ''/device'');
          (friendly_name, hw_id) =
            (if take 6 device_name = ''ttyUSB'' then usb_info F (dirname (dirname (realpath F sys_device_path)))
             else if take 6 device_name = ''ttyACM'' then usb_info F (dirname (realpath F sys_device_path))
             else ([], (let sys_id_path = sys_device_path @ ''/id'' in
                        if fs_stat F sys_id_path then read_line F sys_id_path else [])))
      in (if friendly_name = [] then device_name else friendly_name,
          if hw_id = [] then ''n/a'' else hw_id))"

section \<open>The list\<close>

definition search_globs :: "string list" where
  "search_globs = [''/dev/ttyACM*'', ''/dev/ttyS*'', ''/dev/ttyUSB*'', ''/dev/tty.*'', ''/dev/cu.*'']"

fun list_devices :: "sysfs \<Rightarrow> string list \<Rightarrow> PortInfo list" where
  "list_devices F [] = []"
| "list_devices F (d # ds) =
     (case get_sysfs_info F d of (friendly_name, hw_id) \<Rightarrow>
        \<lparr>pi_port = d, pi_description = friendly_name, pi_hardware_id = hw_id\<rparr> # list_devices F ds)"

definition list_ports :: "sysfs \<Rightarrow> PortInfo list" where
  "list_ports F = list_devices F (glob_all F search_globs)"

lemma list_devices_ports: "map pi_port (list_devices F ds) = ds"
  by (induction ds) (auto split: prod.split)

lemma basename_no_slash: "CHR ''/'' \<notin> set (basename p)"
  by (auto simp: basename_def after_slash_def dest: set_takeWhileD)

text \<open>A path is its directory, a slash, and its last component.\<close>

lemma dirname_basename:
  assumes "CHR ''/'' \<in> set p"
  shows "p = dirname p @ ''/'' @ basename p \<or> dirname p = ''/'' \<and> p = ''/'' @ basename p"
proof -
  obtain ys zs where p: "rev p = ys @ CHR ''/'' # zs" "CHR ''/'' \<notin> set ys"
    using assms split_list_first [of "CHR ''/''" "rev p"] by auto
  have a: "after_slash p = rev ys" using p by (auto simp: after_slash_def takeWhile_append)
  have pp: "p = rev zs @ CHR ''/'' # rev ys" using p(1) by (metis rev_rev_ident rev.simps(2) rev_append append.assoc append_Cons append_Nil)
  from pp have "length p = length zs + 1 + length ys" and "take (length zs) p = rev zs" by simp_all
  then have "dirname p = (if zs = [] then ''/'' else rev zs)" using assms by (simp add: dirname_def a)
  then show ?thesis using pp a by (cases zs) (auto simp: basename_def)
qed

end
