(* ===== verification/Context.thy ===== *)
theory Context
  imports LoggerFacts SerialClaims ListPorts
begin

text \<open>
  The state of the daemon, \<open>struct LMBCTX\<close> of \<^verbatim>\<open>src/src/lmbd.hpp\<close>, and its \<open>load\<close> and \<open>save\<close>. A
  configuration file is the map from dotted paths to texts that the property tree of Boost
  reads and writes as JSON; the conversions of Boost, the file-system predicates, the
  files that list the serial ports and \<open>boost::replace_all\<close> are parameters, the record \<open>libs\<close>; so is the
  byte \<open>stray\<close> that lies after a packet on the stack.
\<close>

section \<open>Libraries\<close>

type_synonym ptree = "string \<Rightarrow> string option"

record libs =
  text_bool :: "string \<Rightarrow> bool option"
  text_size :: "string \<Rightarrow> nat option"
  bool_text :: "bool \<Rightarrow> string"
  path_exists :: "string \<Rightarrow> bool"
  is_directory :: "string \<Rightarrow> bool"
  can_write :: "string \<Rightarrow> bool"
  port_files :: "trace \<Rightarrow> sysfs"
  replace_all :: "string \<Rightarrow> string \<Rightarrow> string \<Rightarrow> string"
  stray :: u8

text \<open>The conversions of the property tree read back what they write.\<close>

definition conversions_ok :: "libs \<Rightarrow> bool" where
  "conversions_ok L \<longleftrightarrow> (\<forall>b. text_bool L (bool_text L b) = Some b) \<and> (\<forall>n < 2 ^ 64. text_size L (show_nat n) = Some n)"

section \<open>The context\<close>

text \<open>
  The two maps from positions to messages are only used through \<open>operator[]\<close>, which inserts an empty
  message where there is none; so they are total functions. The command interpreter and the
  threads' handles are not part of the record: \<open>ctx_clients\<close> holds the sockets the threads were
  started for. An object that does not exist, \<open>sp == NULL\<close>, is \<open>None\<close>.
\<close>

record lmbctx =
  ctx_configList :: "config list"
  ctx_sp :: "serial_impl option"
  ctx_port :: string
  ctx_debug_level :: int
  ctx_username :: string
  ctx_password :: string
  ctx_enablepass :: string
  ctx_monitorpath :: string
  ctx_messages :: nat
  ctx_msgdisplay :: "bool list"
  ctx_displayedmsgs :: "int \<Rightarrow> string"
  ctx_startupmsg :: "int \<Rightarrow> string"
  ctx_clients :: "int list"
  ctx_max_cli :: nat
  ctx_consolelog :: bool
  ctx_logpath :: string
  ctx_maxlogfilesize :: nat

text \<open>
  The world a thread of the daemon acts on: the context, the calls made to the system, the log, the
  configuration files, whether the driver's pointer to the context has been set, and whether the mutex
  \<open>io_mutex\<close> of the context is locked.
\<close>

record world =
  ctx :: lmbctx
  wtrace :: trace
  logs :: log_state
  conf :: "string \<Rightarrow> ptree option"
  driver_bound :: bool
  io_mutex :: bool

type_synonym 'a lmb = "(world, 'a) prog"

definition ctxf :: "(lmbctx \<Rightarrow> 'a) \<Rightarrow> 'a lmb" where
  "ctxf f = gets (\<lambda>w. f (ctx w))"

definition upd_ctx :: "(lmbctx \<Rightarrow> lmbctx) \<Rightarrow> unit lmb" where
  "upd_ctx f = modify (\<lambda>w. w\<lparr>ctx := f (ctx w)\<rparr>)"

definition on_logs :: "'a logp \<Rightarrow> 'a lmb" where
  "on_logs m = (\<lambda>w. case m (logs w) of (r, l) \<Rightarrow> (r, w\<lparr>logs := l\<rparr>))"

text \<open>\<open>LMB_LOG_INFO() << text\<close> and its siblings on the one channel of the program.\<close>

definition say :: "Level \<Rightarrow> string \<Rightarrow> unit lmb" where
  "say lvl txt = on_logs (log_stmt ''LMBd'' lvl txt)"

section \<open>The mutex of the context\<close>

text \<open>
  A thread that locks the mutex it already holds waits for ever. Other threads never hold it
  between two events: a command locks it for its whole run.
\<close>

definition io_lock :: "unit lmb" where
  "io_lock = bindE (gets io_mutex) (\<lambda>b. if b then throw NoReturn else modify (\<lambda>w. w\<lparr>io_mutex := True\<rparr>))"

definition io_unlock :: "unit lmb" where
  "io_unlock = modify (\<lambda>w. w\<lparr>io_mutex := False\<rparr>)"

definition locked :: "'a lmb \<Rightarrow> 'a lmb" where
  "locked m = seqE io_lock (finallyE m io_unlock)"

section \<open>Loading the configuration\<close>

definition get_str :: "ptree \<Rightarrow> string \<Rightarrow> string \<Rightarrow> string" where
  "get_str t k d = (case t k of None \<Rightarrow> d | Some v \<Rightarrow> v)"

definition get_bool :: "libs \<Rightarrow> ptree \<Rightarrow> string \<Rightarrow> bool \<Rightarrow> bool" where
  "get_bool L t k d = (case t k of None \<Rightarrow> d | Some v \<Rightarrow> (case text_bool L v of None \<Rightarrow> d | Some b \<Rightarrow> b))"

definition get_size :: "libs \<Rightarrow> ptree \<Rightarrow> string \<Rightarrow> nat \<Rightarrow> nat" where
  "get_size L t k d = (case t k of None \<Rightarrow> d | Some v \<Rightarrow> (case text_size L v of None \<Rightarrow> d | Some n \<Rightarrow> n))"

definition read_json :: "string \<Rightarrow> ptree lmb" where
  "read_json filename = bindE (gets (\<lambda>w. conf w filename)) (\<lambda>t.
     case t of None \<Rightarrow> throw (RuntimeError ''cannot open file'') | Some tree \<Rightarrow> ret tree)"

definition set_option :: "string \<Rightarrow> string \<Rightarrow> unit lmb" where
  "set_option key v =
     bindE (ctxf ctx_configList) (\<lambda>cs. bindE (lift (setOption cs key v)) (\<lambda>cs'. upd_ctx (\<lambda>c. c\<lparr>ctx_configList := cs'\<rparr>)))"

fun load_startup :: "ptree \<Rightarrow> nat \<Rightarrow> nat \<Rightarrow> unit lmb" where
  "load_startup tree 0 i = ret ()"
| "load_startup tree (Suc n) i =
     seqE (upd_ctx (\<lambda>c. c\<lparr>ctx_startupmsg := (ctx_startupmsg c)(int i := get_str tree (''startupmessage.'' @ show_nat i) [])\<rparr>))
       (load_startup tree n (Suc i))"

text \<open>\<open>boost::filesystem::exists(p) && boost::filesystem::is_directory(p)\<close>\<close>

definition dir_ok :: "libs \<Rightarrow> string \<Rightarrow> bool" where
  "dir_ok L p \<longleftrightarrow> path_exists L p \<and> is_directory L p"

definition load_paths :: "libs \<Rightarrow> ptree \<Rightarrow> unit lmb" where
  "load_paths L tree =
     seqE (let monpath = get_str tree ''monitorpath'' ''/var/spool/LMBd''
           in if dir_ok L monpath
              then upd_ctx (\<lambda>c. c\<lparr>ctx_monitorpath := get_str tree ''monitorpath'' ''/var/spool/LMBd''\<rparr>)
              else throw (RuntimeError ''monitorpath does not exist, or isn't a directory''))
    (seqE (whenE (get_bool L tree ''ConsoleLogging'' False)
             (upd_ctx (\<lambda>c. c\<lparr>ctx_configList := addOutput (ctx_configList c) ''OutputConsole'', ctx_consolelog := True\<rparr>)))
     (let dir = get_str tree ''LogPath'' ''/var/log/LMBd/''
      in whenE (length dir > 0)
           (if dir_ok L dir
            then upd_ctx (\<lambda>c. c\<lparr>ctx_logpath := dir @ ''/LMBd.Log''\<rparr>)
            else throw (RuntimeError ''LogPath does not exist, or isn't a directory''))))"

definition load_log :: "libs \<Rightarrow> ptree \<Rightarrow> unit lmb" where
  "load_log L tree =
     seqE (upd_ctx (\<lambda>c. c\<lparr>ctx_configList := addOutput (ctx_configList c) ''OutputFile''\<rparr>))
    (bindE (ctxf ctx_logpath) (\<lambda>logpath.
     seqE (set_option ''filename'' logpath)
    (seqE (set_option ''filename_old'' (logpath @ ''.old''))
    (seqE (set_option ''max_startup_size'' ''0'')
    (seqE (upd_ctx (\<lambda>c. c\<lparr>ctx_maxlogfilesize := get_size L tree ''MaxLogFileSize'' (1024 * 1024)\<rparr>))
    (bindE (ctxf ctx_maxlogfilesize) (\<lambda>mx.
     seqE (set_option ''max_size'' (show_nat mx))
          (on_logs (set_channel_level ''LMBd'' (toLevel (get_str tree ''ConsoleLogLevel'' ''Warning''))))))))))) "

definition load :: "libs \<Rightarrow> string \<Rightarrow> unit lmb" where
  "load L filename =
     bindE (read_json filename) (\<lambda>tree.
     seqE (upd_ctx (\<lambda>c. c\<lparr>ctx_port := get_str tree ''serial.port'' ''/dev/ttyUSB0'',
             ctx_username := get_str tree ''username'' ''admin'',
             ctx_password := get_str tree ''password'' ''password'',
             ctx_enablepass := get_str tree ''enablepass'' ''password''\<rparr>))
    (seqE (load_paths L tree)
    (seqE (load_log L tree)
    (bindE (ctxf ctx_messages) (\<lambda>n. load_startup tree n 1)))))"

section \<open>Saving the configuration\<close>

fun save_startup :: "lmbctx \<Rightarrow> nat \<Rightarrow> nat \<Rightarrow> ptree \<Rightarrow> ptree" where
  "save_startup c 0 i t = t"
| "save_startup c (Suc n) i t =
     save_startup c n (Suc i) (t(''startupmessage.'' @ show_nat i \<mapsto> ctx_startupmsg c (int i)))"

definition saved_tree :: "libs \<Rightarrow> lmbctx \<Rightarrow> Level \<Rightarrow> ptree" where
  "saved_tree L c lvl = save_startup c (ctx_messages c) 1
     [''serial.port'' \<mapsto> ctx_port c, ''username'' \<mapsto> ctx_username c, ''password'' \<mapsto> ctx_password c,
      ''enablepass'' \<mapsto> ctx_enablepass c, ''monitorpath'' \<mapsto> ctx_monitorpath c,
      ''ConsoleLogging'' \<mapsto> bool_text L (ctx_consolelog c), ''ConsoleLogLevel'' \<mapsto> toString lvl,
      ''LogPath'' \<mapsto> ctx_logpath c, ''MaxLogFileSize'' \<mapsto> show_nat (ctx_maxlogfilesize c)]"

definition save :: "libs \<Rightarrow> string \<Rightarrow> unit lmb" where
  "save L filename =
     bindE (gets (\<lambda>w. saved_tree L (ctx w) (channel_level ''LMBd'' (logs w)))) (\<lambda>tree.
     if can_write L filename then modify (\<lambda>w. w\<lparr>conf := (conf w)(filename \<mapsto> tree)\<rparr>)
     else throw (RuntimeError ''cannot open file''))"

end
