(* ===== verification/ContextFacts.thy ===== *)
theory ContextFacts
  imports Context
begin

text \<open>
  Loading and saving the configuration: when loading succeeds and what it sets, which part of the
  context survives saving and loading, and why the saved configuration of a running daemon does
  not load again.
\<close>

lemmas world_run = bindE_def seqE_def gets_def modify_def ret_def throw_def lift_def ctxf_def upd_ctx_def whenE_def

section \<open>Running the parts\<close>

lemma load_startup_run:
  "load_startup tree n i w = (Inr (), w\<lparr>ctx := (ctx w)\<lparr>ctx_startupmsg := (\<lambda>k.
     if int i \<le> k \<and> k < int i + int n then get_str tree (''startupmessage.'' @ show_nat (nat k)) []
     else ctx_startupmsg (ctx w) k)\<rparr>\<rparr>)"
proof (induction n arbitrary: i w)
  case 0
  have "(\<lambda>k. if int i \<le> k \<and> k < int i then f k else g k) = g" for f g :: "int \<Rightarrow> string"
    by (rule ext) auto
  then show ?case by simp
next
  case (Suc n)
  show ?case
    unfolding load_startup.simps upd_ctx_def seqE_modify Suc.IH
    by (auto simp: fun_eq_iff intro!: arg_cong [where f = "\<lambda>m. ctx_update (\<lambda>_. ctx_startupmsg_update (\<lambda>_. m) (ctx w)) w"])
qed

definition file_config :: "string \<Rightarrow> nat \<Rightarrow> config" where
  "file_config path mx = \<lparr>cfg_name = ''OutputFile'', cfg_values = [''filename'' \<mapsto> path,
     ''filename_old'' \<mapsto> path @ ''.old'', ''max_startup_size'' \<mapsto> ''0'', ''max_size'' \<mapsto> show_nat mx]\<rparr>"

definition tree_ok :: "libs \<Rightarrow> ptree \<Rightarrow> bool" where
  "tree_ok L tree \<longleftrightarrow>
     (let mon = get_str tree ''monitorpath'' ''/var/spool/LMBd''; dir = get_str tree ''LogPath'' ''/var/log/LMBd/''
      in dir_ok L mon \<and> (dir \<noteq> [] \<longrightarrow> dir_ok L dir))"

text \<open>The context after a successful load.\<close>

definition loaded_paths :: "libs \<Rightarrow> ptree \<Rightarrow> lmbctx \<Rightarrow> lmbctx" where
  "loaded_paths L tree c =
     (let dir = get_str tree ''LogPath'' ''/var/log/LMBd/'';
          c1 = c\<lparr>ctx_monitorpath := get_str tree ''monitorpath'' ''/var/spool/LMBd''\<rparr>;
          c2 = (if get_bool L tree ''ConsoleLogging'' False
                then c1\<lparr>ctx_configList := addOutput (ctx_configList c1) ''OutputConsole'', ctx_consolelog := True\<rparr> else c1)
      in if dir = [] then c2 else c2\<lparr>ctx_logpath := dir @ ''/LMBd.Log''\<rparr>)"

definition loaded_log :: "libs \<Rightarrow> ptree \<Rightarrow> lmbctx \<Rightarrow> lmbctx" where
  "loaded_log L tree c =
     (let mx = get_size L tree ''MaxLogFileSize'' (1024 * 1024)
      in c\<lparr>ctx_configList := ctx_configList c @ [file_config (ctx_logpath c) mx], ctx_maxlogfilesize := mx\<rparr>)"

definition loaded_startup :: "ptree \<Rightarrow> lmbctx \<Rightarrow> lmbctx" where
  "loaded_startup tree c = c\<lparr>ctx_startupmsg := (\<lambda>k. if 1 \<le> k \<and> k \<le> int (ctx_messages c)
     then get_str tree (''startupmessage.'' @ show_nat (nat k)) [] else ctx_startupmsg c k)\<rparr>"

definition loaded :: "libs \<Rightarrow> ptree \<Rightarrow> lmbctx \<Rightarrow> lmbctx" where
  "loaded L tree c =
     (let c1 = c\<lparr>ctx_port := get_str tree ''serial.port'' ''/dev/ttyUSB0'',
           ctx_username := get_str tree ''username'' ''admin'',
           ctx_password := get_str tree ''password'' ''password'',
           ctx_enablepass := get_str tree ''enablepass'' ''password''\<rparr>
      in loaded_startup tree (loaded_log L tree (loaded_paths L tree c1)))"

text \<open>The exception of a load that fails.\<close>

definition load_error :: "libs \<Rightarrow> ptree \<Rightarrow> exn" where
  "load_error L tree = RuntimeError
     (if dir_ok L (get_str tree ''monitorpath'' ''/var/spool/LMBd'')
      then ''LogPath does not exist, or isn't a directory'' else ''monitorpath does not exist, or isn't a directory'')"

lemma load_paths_fails:
  assumes "\<not> tree_ok L tree"
  shows "\<exists>w'. load_paths L tree w = (Inl (load_error L tree), w')"
proof (cases "dir_ok L (get_str tree ''monitorpath'' ''/var/spool/LMBd'')")
  case False
  then show ?thesis by (simp add: load_paths_def load_error_def world_run Let_def)
next
  case True
  with assms have dir: "get_str tree ''LogPath'' ''/var/log/LMBd/'' \<noteq> []"
    "\<not> dir_ok L (get_str tree ''LogPath'' ''/var/log/LMBd/'')"
    by (simp_all add: tree_ok_def Let_def)
  show ?thesis
  proof (cases "get_bool L tree ''ConsoleLogging'' False")
    case c: True
    show ?thesis unfolding load_paths_def load_error_def Let_def by (simp add: True dir c upd_ctx_def)
  next
    case c: False
    show ?thesis unfolding load_paths_def load_error_def Let_def by (simp add: True dir c upd_ctx_def seqE_def [of "modify _"])
  qed
qed

lemma load_unfold:
  assumes "conf w f = Some tree"
  shows "load L f w = seqE (load_paths L tree)
      (seqE (load_log L tree) (bindE (ctxf ctx_messages) (\<lambda>n. load_startup tree n 1)))
      (w\<lparr>ctx := (ctx w)\<lparr>ctx_port := get_str tree ''serial.port'' ''/dev/ttyUSB0'',
             ctx_username := get_str tree ''username'' ''admin'',
             ctx_password := get_str tree ''password'' ''password'',
             ctx_enablepass := get_str tree ''enablepass'' ''password''\<rparr>\<rparr>)"
proof -
  have "read_json f w = (Inr tree, w)" using assms by (simp add: read_json_def)
  then show ?thesis unfolding load_def upd_ctx_def by (simp add: bindE_Inr)
qed

lemma load_fails:
  assumes "conf w f = Some tree" and "\<not> tree_ok L tree"
  shows "\<exists>w'. load L f w = (Inl (load_error L tree), w')"
proof -
  let ?w = "w\<lparr>ctx := (ctx w)\<lparr>ctx_port := get_str tree ''serial.port'' ''/dev/ttyUSB0'',
             ctx_username := get_str tree ''username'' ''admin'',
             ctx_password := get_str tree ''password'' ''password'',
             ctx_enablepass := get_str tree ''enablepass'' ''password''\<rparr>\<rparr>"
  from load_paths_fails [OF assms(2), of ?w] obtain w'
    where "load_paths L tree ?w = (Inl (load_error L tree), w')" by blast
  then show ?thesis unfolding load_unfold [OF assms(1)] by (simp add: seqE_Inl)
qed

lemma load_paths_run:
  assumes "tree_ok L tree"
  shows "load_paths L tree w = (Inr (), w\<lparr>ctx := loaded_paths L tree (ctx w)\<rparr>)"
proof -
  from assms have ok: "dir_ok L (get_str tree ''monitorpath'' ''/var/spool/LMBd'')"
    "get_str tree ''LogPath'' ''/var/log/LMBd/'' = [] \<or> dir_ok L (get_str tree ''LogPath'' ''/var/log/LMBd/'')"
    by (auto simp: tree_ok_def Let_def)
  let ?con = "get_bool L tree ''ConsoleLogging'' False" and ?dir = "get_str tree ''LogPath'' ''/var/log/LMBd/''"
  consider "?con" "?dir = []" | "?con" "?dir \<noteq> []" "dir_ok L ?dir" | "\<not> ?con" "?dir = []" | "\<not> ?con" "?dir \<noteq> []" "dir_ok L ?dir"
    using ok(2) by blast
  then show ?thesis
    unfolding load_paths_def loaded_paths_def Let_def upd_ctx_def
    by cases (simp_all add: ok(1) seqE_def [of "modify _"])
qed

lemma load_log_run:
  "load_log L tree w = (Inr (), w\<lparr>ctx := loaded_log L tree (ctx w),
     logs := (logs w)\<lparr>channels := (channels (logs w))(''LMBd'' \<mapsto>
       toLevel (get_str tree ''ConsoleLogLevel'' ''Warning''))\<rparr>\<rparr>)"
  by (simp add: load_log_def world_run set_option_def setOption_def addOutput_def file_config_def on_logs_def
      set_channel_level_def Let_def loaded_log_def)

lemma load_run:
  assumes "conf w f = Some tree" and "tree_ok L tree"
  shows "load L f w = (Inr (), w\<lparr>ctx := loaded L tree (ctx w),
     logs := (logs w)\<lparr>channels := (channels (logs w))(''LMBd'' \<mapsto>
       toLevel (get_str tree ''ConsoleLogLevel'' ''Warning''))\<rparr>\<rparr>)"
proof -
  have loop: "(\<lambda>k. if int 1 \<le> k \<and> k < int 1 + int n then f k else g k) = (\<lambda>k. if 1 \<le> k \<and> k \<le> int n then f k else g k)"
    for n and f g :: "int \<Rightarrow> string" by (auto simp: fun_eq_iff)
  have start: "load_startup tree n (Suc 0) w1 = (Inr (), w1\<lparr>ctx := loaded_startup tree (ctx w1)\<rparr>)"
    if "n = ctx_messages (ctx w1)" for n w1
    unfolding that One_nat_def [symmetric] load_startup_run loaded_startup_def loop ..
  show ?thesis
    unfolding load_unfold [OF assms(1)] seqE_Inr [OF load_paths_run [OF assms(2)]] seqE_Inr [OF load_log_run]
      ctxf_def bindE_gets loaded_def Let_def
    by (simp add: start)
qed

section \<open>The saved tree\<close>

lemma save_startup_other:
  assumes "\<And>k. p \<noteq> ''startupmessage.'' @ show_nat k"
  shows "save_startup c n i t p = t p"
  using assms by (induction n arbitrary: i t) simp_all

lemma save_startup_message:
  "save_startup c n i t (''startupmessage.'' @ show_nat k) =
     (if i \<le> k \<and> k < i + n then Some (ctx_startupmsg c (int k)) else t (''startupmessage.'' @ show_nat k))"
  by (induction n arbitrary: i t) auto

lemma saved_tree_fields:
  "saved_tree L c lvl ''serial.port'' = Some (ctx_port c)"
  "saved_tree L c lvl ''username'' = Some (ctx_username c)"
  "saved_tree L c lvl ''password'' = Some (ctx_password c)"
  "saved_tree L c lvl ''enablepass'' = Some (ctx_enablepass c)"
  "saved_tree L c lvl ''monitorpath'' = Some (ctx_monitorpath c)"
  "saved_tree L c lvl ''ConsoleLogging'' = Some (bool_text L (ctx_consolelog c))"
  "saved_tree L c lvl ''ConsoleLogLevel'' = Some (toString lvl)"
  "saved_tree L c lvl ''LogPath'' = Some (ctx_logpath c)"
  "saved_tree L c lvl ''MaxLogFileSize'' = Some (show_nat (ctx_maxlogfilesize c))"
  by (simp_all add: saved_tree_def save_startup_other)

lemma saved_tree_message:
  "1 \<le> k \<Longrightarrow> k \<le> ctx_messages c \<Longrightarrow>
   saved_tree L c lvl (''startupmessage.'' @ show_nat k) = Some (ctx_startupmsg c (int k))"
  unfolding saved_tree_def by (subst save_startup_message) simp

lemma save_run:
  "save L f w = (if can_write L f then (Inr (), w\<lparr>conf := (conf w)(f \<mapsto> saved_tree L (ctx w) (channel_level ''LMBd'' (logs w)))\<rparr>)
     else (Inl (RuntimeError ''cannot open file''), w))"
  by (simp add: save_def world_run)

section \<open>Examples\<close>

definition demo_sysfs :: sysfs where
  "demo_sysfs = \<lparr>fs_glob = (\<lambda>p. if p = ''/dev/ttyS*'' then [''/dev/ttyS0''] else []), fs_stat = (\<lambda>p. False),
     fs_real = (\<lambda>p. None), fs_read = (\<lambda>p. None)\<rparr>"

definition demo_libs :: libs where
  "demo_libs = \<lparr>text_bool = (\<lambda>s. if s = ''true'' then Some True else if s = ''false'' then Some False else None),
     text_size = (\<lambda>s. Some (read_digits 0 s)),
     bool_text = (\<lambda>b. if b then ''true'' else ''false''),
     path_exists = (\<lambda>p. True),
     is_directory = (\<lambda>p. p \<in> {''/var/spool/LMBd'', ''/var/log/LMBd/''}),
     can_write = (\<lambda>p. True), port_files = (\<lambda>t. demo_sysfs),
     replace_all = (\<lambda>s a b. s), stray = 0\<rparr>"

lemma demo_conversions: "conversions_ok demo_libs"
  by (simp add: conversions_ok_def demo_libs_def)

text \<open>The context as \<open>main\<close> sets it up, with \<open>b\<close> for the uninitialised \<open>consolelog\<close>.\<close>

definition initial_ctx :: "bool \<Rightarrow> lmbctx" where
  "initial_ctx b = \<lparr>ctx_configList = [], ctx_sp = None, ctx_port = ''/dev/ttyUSB0'', ctx_debug_level = 0,
     ctx_username = ''Admin'', ctx_password = ''password'', ctx_enablepass = ''enable'',
     ctx_monitorpath = ''/var/spool/LMBd/'', ctx_messages = 6, ctx_msgdisplay = replicate 6 False,
     ctx_displayedmsgs = (\<lambda>_. []), ctx_startupmsg = (\<lambda>_. []), ctx_clients = [], ctx_max_cli = 5,
     ctx_consolelog = b, ctx_logpath = ''/var/log/LMBd'', ctx_maxlogfilesize = 1024 * 1024\<rparr>"

definition demo_world :: world where
  "demo_world = \<lparr>ctx = initial_ctx False, wtrace = [], logs = demo_log, conf = [''/etc/LMBd.conf'' \<mapsto> Map.empty],
     driver_bound = False, io_mutex = False\<rparr>"

section \<open>Properties\<close>


lemma demo_tree_ok: "tree_ok demo_libs Map.empty"
  by (simp add: tree_ok_def get_str_def demo_libs_def dir_ok_def)



definition quiet_world :: world where
  "quiet_world = demo_world\<lparr>ctx := (initial_ctx False)\<lparr>ctx_logpath := [], ctx_monitorpath := ''/var/spool/LMBd'',
     ctx_startupmsg := (\<lambda>_. [])(2 := ''hello'')\<rparr>\<rparr>"


text \<open>
  C37: the daemon cannot load the configuration it saves. \<open>load\<close> appends the name of the log file to
  the log directory and \<open>save\<close> writes the result as \<open>LogPath\<close>, which the next \<open>load\<close> takes for
  the directory and rejects.
\<close>

theorem saved_config_does_not_load:
  assumes "load L f w = (Inr (), w1)" and "conf w f = Some tree"
    and dir: "dir = get_str tree ''LogPath'' ''/var/log/LMBd/''" "dir \<noteq> []" "\<not> is_directory L (dir @ ''/LMBd.Log'')"
    and "save L f w1 = (Inr (), w2)"
  shows "\<exists>w3. load L f w2 = (Inl (RuntimeError ''LogPath does not exist, or isn't a directory''), w3)"
proof -
  have ok: "tree_ok L tree" using load_fails [OF assms(2)] assms(1) by fastforce
  have c1: "ctx w1 = loaded L tree (ctx w)" using load_run [OF assms(2) ok] assms(1) by simp
  let ?t = "saved_tree L (ctx w1) (channel_level ''LMBd'' (logs w1))"
  have t: "conf w2 f = Some ?t" using assms(6) by (auto simp: save_run split: if_splits)
  have "ctx_logpath (ctx w1) = dir @ ''/LMBd.Log''" and "ctx_monitorpath (ctx w1) = get_str tree ''monitorpath'' ''/var/spool/LMBd''"
    using c1 dir(1,2) by (simp_all add: loaded_def loaded_startup_def loaded_log_def loaded_paths_def Let_def)
  then have s: "get_str ?t ''LogPath'' d = dir @ ''/LMBd.Log''"
    "get_str ?t ''monitorpath'' d = get_str tree ''monitorpath'' ''/var/spool/LMBd''" for d
    by (simp_all add: get_str_def saved_tree_fields)
  have mon: "dir_ok L (get_str tree ''monitorpath'' ''/var/spool/LMBd'')" using ok by (simp add: tree_ok_def Let_def)
  have "\<not> tree_ok L ?t" using dir(3) by (simp add: tree_ok_def Let_def s dir_ok_def)
  from load_fails [OF t this] show ?thesis by (simp add: load_error_def s mon)
qed

theorem saved_config_does_not_load_witness:
  "\<exists>w1 w2 w3. load demo_libs ''/etc/LMBd.conf'' demo_world = (Inr (), w1) \<and> save demo_libs ''/etc/LMBd.conf'' w1 = (Inr (), w2)
     \<and> load demo_libs ''/etc/LMBd.conf'' w2 = (Inl (RuntimeError ''LogPath does not exist, or isn't a directory''), w3)"
proof -
  have c: "conf demo_world ''/etc/LMBd.conf'' = Some Map.empty" by (simp add: demo_world_def)
  obtain w1 where w1: "load demo_libs ''/etc/LMBd.conf'' demo_world = (Inr (), w1)"
    using load_run [OF c demo_tree_ok] by blast
  obtain w2 where w2: "save demo_libs ''/etc/LMBd.conf'' w1 = (Inr (), w2)"
    by (simp add: save_run demo_libs_def)
  have "\<not> is_directory demo_libs (''/var/log/LMBd/'' @ ''/LMBd.Log'')" by (simp add: demo_libs_def)
  with saved_config_does_not_load [OF w1 c _ _ _ w2, of "''/var/log/LMBd/''"] w1 w2 show ?thesis
    by (auto simp: get_str_def)
qed

end
