(* ===== verification/Packet.thy ===== *)
theory Packet
  imports Prelude
begin

text \<open>
  The packet layer of the driver (\<^verbatim>\<open>src/src/Driver-DX.cpp\<close>, lines 30 to 90 and 177 to 199):
  the checksum, the insertion of one part of a message into a packet, the message slot, the hex
  dump for the log, and the four packets a message is sent in. The byte layout is the one of
  \<^verbatim>\<open>src/doc/LED Message Board Protocol.txt\<close>.
\<close>

section \<open>Checksum\<close>

text \<open>
  The loop of \<open>doChkSum\<close>: it returns the sum and the value the counter \<open>i\<close> ends with, which
  is where the sum is stored. The sum is a \<open>uint8_t\<close> and wraps.
\<close>

function chk_loop :: "u8 list \<Rightarrow> nat \<Rightarrow> nat \<Rightarrow> u8 \<Rightarrow> exn + (u8 \<times> nat)" where
  "chk_loop data len i csum =
     (if i < len then bindR (arr_get data i) (\<lambda>b. chk_loop data len (Suc i) (csum + b))
      else Inr (csum, i))"
  by pat_completeness auto
termination
  by (relation "measure (\<lambda>(data, len, i, csum). len - i)") auto

declare chk_loop.simps [simp del]

definition doChkSum :: "u8 list \<Rightarrow> u8 \<Rightarrow> exn + u8 list" where
  "doChkSum data len =
     bindR (chk_loop data (unat len) 1 0) (\<lambda>(csum, i).
     bindR (arr_get data i) (\<lambda>_. arr_set data i csum))"

definition byte_sum :: "u8 list \<Rightarrow> u8" where
  "byte_sum bs = sum_list bs"

lemma chk_loop_eq:
  assumes "len \<le> length data" and "i \<le> len"
  shows "chk_loop data len i c = Inr (c + byte_sum (drop i (take len data)), len)"
  using assms
proof (induction data len i c rule: chk_loop.induct)
  case (1 data len i c)
  show ?case
  proof (cases "i < len")
    case True
    with "1.prems" have "drop i (take len data) = data ! i # drop (Suc i) (take len data)"
      by (metis Cons_nth_drop_Suc length_take min.absorb2 nth_take)
    with True "1" show ?thesis
      by (subst chk_loop.simps) (simp add: byte_sum_def add.assoc)
  next
    case False
    with "1.prems" show ?thesis by (subst chk_loop.simps) (simp add: byte_sum_def)
  qed
qed

lemma doChkSum_eq:
  assumes "1 \<le> unat len" and "unat len < length data"
  shows "doChkSum data len = Inr (data[unat len := byte_sum (drop 1 (take (unat len) data))])"
  using assms by (simp add: doChkSum_def chk_loop_eq)

section \<open>Inserting a part of the message\<close>

definition char_byte :: "char \<Rightarrow> u8" where
  "char_byte c = of_char c"

text \<open>
  \<open>for (int i = 0; i < size; i++) data[startpos++] = message.at(i + messagestart);\<close>
  \<open>startpos\<close> is a \<open>uint8_t\<close>; \<open>at\<close> throws \<open>std::out_of_range\<close>.
\<close>

function copy_loop :: "string \<Rightarrow> nat \<Rightarrow> nat \<Rightarrow> nat \<Rightarrow> nat \<Rightarrow> u8 list \<Rightarrow> exn + u8 list" where
  "copy_loop message messagestart sz i startpos data =
     (if i < sz then
        (if i + messagestart < length message then
           bindR (arr_set data startpos (char_byte (message ! (i + messagestart))))
             (copy_loop message messagestart sz (Suc i) ((startpos + 1) mod 256))
         else Inl OutOfRange)
      else Inr data)"
  by pat_completeness auto
termination
  by (relation "measure (\<lambda>(message, messagestart, sz, i, startpos, data). sz - i)") auto

declare copy_loop.simps [simp del]

text \<open>
  \<open>message.length() - messagestart\<close> is a subtraction of \<open>size_t\<close> and wraps when the message
  is shorter than where this part starts.
\<close>

definition size_sub :: "nat \<Rightarrow> nat \<Rightarrow> nat" where
  "size_sub a b = (2 ^ 64 + a - b) mod 2 ^ 64"

definition insertMessage :: "nat \<Rightarrow> u8 list \<Rightarrow> string \<Rightarrow> exn + u8 list" where
  "insertMessage part data message =
     bindR (if part = 1 then bindR (arr_set data 7 (of_nat (length message))) (\<lambda>d. Inr (8, 60, 0, d))
            else if part = 2 then Inr (4, 65, 60, data)
            else if part = 3 then Inr (4, 65, 124, data)
            else if part = 4 then Inr (4, 65, 188, data)
            else Inr (4, 60, 0, data))
       (\<lambda>(startpos, size0, messagestart, d).
          let rest = size_sub (length message) messagestart;
              sz = (if rest < size0 then rest else size0)
          in if sz > length message then Inr d
             else if messagestart > length message then Inr d
             else copy_loop message messagestart sz 0 startpos d)"

lemma copy_loop_eq:
  assumes "i \<le> n" and "ms + n \<le> length m" and "sp + (n - i) \<le> length d" and "length d \<le> 256"
  shows "copy_loop m ms n i sp d =
    Inr (take sp d @ map char_byte (take (n - i) (drop (ms + i) m)) @ drop (sp + (n - i)) d)"
  using assms
proof (induction m ms n i sp d rule: copy_loop.induct)
  case (1 m ms n i sp d)
  show ?case
  proof (cases "i < n")
    case True
    let ?c = "char_byte (m ! (i + ms))"
    have sp: "sp < length d" and c: "i + ms < length m"
      using True "1.prems" by linarith+
    have stop: "copy_loop m ms n (Suc i) ((sp + 1) mod 256) (d[sp := ?c]) =
        Inr (take (sp + 1) (d[sp := ?c]) @ map char_byte (take (n - Suc i) (drop (ms + Suc i) m))
             @ drop (sp + 1 + (n - Suc i)) (d[sp := ?c]))"
    proof (cases "sp + 1 = 256")
      case True
      with "1.prems" \<open>i < n\<close> have "n = Suc i" by linarith
      with True "1.prems" sp show ?thesis
        by (subst copy_loop.simps) (simp add: take_all drop_all)
    next
      case False
      with sp "1.prems" have "sp + 1 < 256" by linarith
      with "1.IH" [OF True c, of "d[sp := ?c]"] True "1.prems" show ?thesis by simp
    qed
    have "drop (ms + i) m = m ! (i + ms) # drop (ms + Suc i) m"
      using c by (metis Cons_nth_drop_Suc add.commute add_Suc_right)
    moreover have "n - i = Suc (n - Suc i)" using True by simp
    moreover have "take (sp + 1) (d[sp := ?c]) = take sp d @ [?c]"
      using sp by (simp add: take_Suc_conv_app_nth)
    ultimately show ?thesis
      using True c sp stop by (subst copy_loop.simps) (simp add: drop_update_cancel)
  next
    case False
    with "1.prems" show ?thesis by (subst copy_loop.simps) simp
  qed
qed

lemma size_sub_le: "b \<le> a \<Longrightarrow> a < 2 ^ 64 \<Longrightarrow> size_sub a b = a - b"
proof -
  assume "b \<le> a" and "a < 2 ^ 64"
  then have "2 ^ 64 + a - b = (a - b) + 2 ^ 64" and "a - b < 2 ^ 64" by simp_all
  then show ?thesis unfolding size_sub_def by (metis mod_add_self2 mod_less)
qed

lemma size_sub_wraps: "a < b \<Longrightarrow> b < 2 ^ 63 \<Longrightarrow> 2 ^ 63 \<le> size_sub a b"
  by (simp add: size_sub_def)

text \<open>
  The effect of one insertion on a packet: the part of the message that starts at \<open>ms\<close>, at most
  \<open>cap\<close> characters of it, overwrites the packet from \<open>sp\<close> on. The wrap-around of
  \<open>size_sub\<close> is caught by the two early returns.
\<close>

definition overwrite :: "nat \<Rightarrow> u8 list \<Rightarrow> u8 list \<Rightarrow> u8 list" where
  "overwrite sp bs d = take sp d @ bs @ drop (sp + length bs) d"

lemma length_overwrite [simp]: "sp + length bs \<le> length d \<Longrightarrow> length (overwrite sp bs d) = length d"
  by (simp add: overwrite_def)

lemma insert_part_eq:
  assumes "length m < 2 ^ 63" and "ms < 2 ^ 63" and "sp + cap \<le> length d" and "length d \<le> 256"
    and "cap < 2 ^ 63"
  shows "(let rest = size_sub (length m) ms; sz = (if rest < cap then rest else cap)
          in if sz > length m then Inr d else if ms > length m then Inr d
             else copy_loop m ms sz 0 sp d)
       = Inr (overwrite sp (map char_byte (take cap (drop ms m))) d)"
proof (cases "length m < ms")
  case True
  then have "2 ^ 63 \<le> size_sub (length m) ms" using assms(2) by (rule size_sub_wraps)
  with True assms(5) show ?thesis by (simp add: Let_def overwrite_def)
next
  case False
  then have rest: "size_sub (length m) ms = length m - ms"
    using assms(1) by (intro size_sub_le) auto
  let ?n = "if length m - ms < cap then length m - ms else cap"
  have "copy_loop m ms ?n 0 sp d =
      Inr (take sp d @ map char_byte (take ?n (drop ms m)) @ drop (sp + ?n) d)"
    using False assms by (subst copy_loop_eq) auto
  moreover have "take ?n (drop ms m) = take cap (drop ms m)" by simp
  moreover have "length (take cap (drop ms m)) = ?n" by simp
  ultimately show ?thesis
    using False rest by (simp add: Let_def overwrite_def)
qed

lemma insertMessage_1:
  assumes "length m < 2 ^ 63" and "length d = 69"
  shows "insertMessage 1 d m =
    Inr (overwrite 8 (map char_byte (take 60 m)) (d[7 := of_nat (length m)]))"
  using insert_part_eq [of m 0 8 60 "d[7 := of_nat (length m)]"] assms
  by (simp add: insertMessage_def)

lemma insertMessage_rest:
  assumes "length m < 2 ^ 63" and "length d = 69" and "part \<in> {2, 3, 4}"
  shows "insertMessage part d m =
    Inr (overwrite 4 (map char_byte (take 65 (drop (60 + 64 * (part - 2)) m))) d)"
  using assms(3) insert_part_eq [of m 60 4 65 d] insert_part_eq [of m 124 4 65 d]
    insert_part_eq [of m 188 4 65 d] assms(1,2)
  by (auto simp: insertMessage_def)

section \<open>The four packets of a message\<close>

definition setMessageNumber :: "u8 list \<Rightarrow> u8 \<Rightarrow> bool \<Rightarrow> exn + u8 list" where
  "setMessageNumber data pos firstmsg = arr_set data 2 (5 + pos)"

definition header1 :: "u8 list" where
  "header1 = [0x02, 0x31, 0x06, 0x00, 0x35, 0x00, 0x42, 0x00] @ replicate 60 0 @ [0x72]"

definition header2 :: "u8 list" where
  "header2 = [0x02, 0x31, 0x06, 0x40] @ replicate 64 0 @ [0x71]"

definition header3 :: "u8 list" where
  "header3 = [0x02, 0x31, 0x06, 0x80] @ replicate 64 0 @ [0xB7]"

definition header4 :: "u8 list" where
  "header4 = [0x02, 0x31, 0x06, 0xC0] @ replicate 64 0 @ [0xF7]"

text \<open>
  What \<open>Driver_DX::setMessage\<close> does to each of its four arrays: insert, number, checksum. The
  \<open>int\<close> position is converted to the \<open>uint8_t\<close> parameter of \<open>setMessageNumber\<close>.
\<close>

definition packet :: "nat \<Rightarrow> u8 list \<Rightarrow> int \<Rightarrow> string \<Rightarrow> exn + u8 list" where
  "packet part header pos message =
     bindR (insertMessage part header message) (\<lambda>d1.
     bindR (setMessageNumber d1 (word_of_int pos) (part = 1)) (\<lambda>d2.
     doChkSum d2 68))"

definition packets :: "int \<Rightarrow> string \<Rightarrow> exn + u8 list list" where
  "packets pos message =
     bindR (packet 1 header1 pos message) (\<lambda>p1.
     bindR (packet 2 header2 pos message) (\<lambda>p2.
     bindR (packet 3 header3 pos message) (\<lambda>p3.
     bindR (packet 4 header4 pos message) (\<lambda>p4.
     Inr [p1, p2, p3, p4]))))"

text \<open>
  The layout the protocol document gives a packet: a prefix, a zero-padded payload, and the sum
  of everything but the first byte.
\<close>

definition pad :: "nat \<Rightarrow> u8 list \<Rightarrow> u8 list" where
  "pad n bs = bs @ replicate (n - length bs) 0"

definition sealed :: "u8 list \<Rightarrow> u8 list" where
  "sealed body = body @ [byte_sum (drop 1 body)]"

definition doc_packet :: "nat \<Rightarrow> u8 \<Rightarrow> string \<Rightarrow> u8 list" where
  "doc_packet part slot m =
     sealed (if part = 1
             then [0x02, 0x31, 5 + slot, 0x00, 0x35, 0x00, 0x42, of_nat (length m)]
                  @ pad 60 (map char_byte (take 60 m))
             else [0x02, 0x31, 5 + slot, 0x40 * of_nat (part - 1)]
                  @ pad 64 (map char_byte (take 64 (drop (60 + 64 * (part - 2)) m))))"

lemma length_pad [simp]: "length bs \<le> n \<Longrightarrow> length (pad n bs) = n"
  by (simp add: pad_def)

lemma length_sealed [simp]: "length (sealed b) = Suc (length b)"
  by (simp add: sealed_def)

lemma seal_68:
  assumes "length d = 69" and "take 68 d = b"
  shows "doChkSum d 68 = Inr (sealed b)"
proof -
  have len: "length b = 68" using assms by auto
  have "take (Suc 68) d = take 68 d @ [d ! 68]"
    using assms(1) by (intro take_Suc_conv_app_nth) simp
  with assms have d: "d = b @ [d ! 68]" by simp
  have "doChkSum d 68 = Inr (d[68 := byte_sum (drop 1 b)])"
    using assms by (simp add: doChkSum_eq)
  also have "d[68 := byte_sum (drop 1 b)] = sealed b"
    by (subst d) (simp add: sealed_def len list_update_append)
  finally show ?thesis .
qed

lemma overwrite_after: "length p = sp \<Longrightarrow> overwrite sp bs (p @ r) = p @ bs @ drop (length bs) r"
  by (auto simp: overwrite_def)

text \<open>
  The two shapes of a header: everything after the slot number that is not payload is constant,
  and the 69th byte is overwritten by the checksum. For parts 2 to 4 the code copies up to 65
  characters into the 64 payload bytes; the excess character lands on the checksum byte.
\<close>

lemma packet_first:
  assumes "length m < 2 ^ 63"
  shows "packet 1 header1 pos m = Inr (doc_packet 1 (word_of_int pos) m)"
proof -
  let ?bs = "map char_byte (take 60 m)"
  let ?d = "overwrite 8 ?bs (header1[7 := of_nat (length m)])"
  have len: "length ?bs \<le> 60" by simp
  have h: "header1[7 := of_nat (length m)] =
      [0x02, 0x31, 0x06, 0x00, 0x35, 0x00, 0x42, of_nat (length m)] @ replicate 60 0 @ [0x72]"
    by (simp add: header1_def)
  have d: "?d = [0x02, 0x31, 0x06, 0x00, 0x35, 0x00, 0x42, of_nat (length m)] @ pad 60 ?bs @ [0x72]"
    unfolding h using len by (subst overwrite_after) (simp_all add: pad_def)
  let ?b = "[0x02, 0x31, 5 + word_of_int pos, 0x00, 0x35, 0x00, 0x42, of_nat (length m)] @ pad 60 ?bs"
  have "?d[2 := 5 + word_of_int pos] = ?b @ [0x72]"
    by (simp add: d)
  then have "doChkSum (?d[2 := 5 + word_of_int pos]) 68 = Inr (sealed ?b)"
    using len by (intro seal_68) simp_all
  moreover have "insertMessage 1 header1 m = Inr ?d"
    using assms by (intro insertMessage_1) (simp_all add: header1_def)
  ultimately show ?thesis
    using len by (simp add: packet_def setMessageNumber_def doc_packet_def d)
qed

lemma packet_rest:
  assumes "length m < 2 ^ 63" and "part \<in> {2, 3, 4}"
    and h: "header = [0x02, 0x31, 0x06, 0x40 * of_nat (part - 1)] @ replicate 64 0 @ [x]"
  shows "packet part header pos m = Inr (doc_packet part (word_of_int pos) m)"
proof -
  let ?ms = "60 + 64 * (part - 2)"
  let ?cs = "map char_byte (take 65 (drop ?ms m))" and ?bs = "map char_byte (take 64 (drop ?ms m))"
  let ?d = "overwrite 4 ?cs header"
  let ?b = "[0x02, 0x31, 5 + word_of_int pos, 0x40 * of_nat (part - 1)] @ pad 64 ?bs"
  have cs: "length ?cs \<le> 65" and bs: "length ?bs \<le> 64" by simp_all
  have len: "length header = 69" by (simp add: h)
  have "take 64 (?cs @ drop (length ?cs) (replicate 64 0 @ [x])) = pad 64 ?bs"
    by (simp add: pad_def take_map min_def)
  moreover have "?d = [0x02, 0x31, 0x06, 0x40 * of_nat (part - 1)] @ ?cs @ drop (length ?cs) (replicate 64 0 @ [x])"
    unfolding h by (subst overwrite_after) simp_all
  ultimately have "take 68 (?d[2 := 5 + word_of_int pos]) = ?b"
    by (simp only: append_Cons list_update_code numeral_2_eq_2 append_Nil) simp
  then have "doChkSum (?d[2 := 5 + word_of_int pos]) 68 = Inr (sealed ?b)"
    using cs len by (intro seal_68) simp_all
  moreover have "insertMessage part header m = Inr ?d"
    using assms(1,2) len by (intro insertMessage_rest) simp_all
  ultimately show ?thesis
    using assms(2) cs len by (auto simp: packet_def setMessageNumber_def doc_packet_def)
qed

lemma headers_shape:
  "header2 = [0x02, 0x31, 0x06, 0x40 * of_nat (2 - 1)] @ replicate 64 0 @ [0x71]"
  "header3 = [0x02, 0x31, 0x06, 0x40 * of_nat (3 - 1)] @ replicate 64 0 @ [0xB7]"
  "header4 = [0x02, 0x31, 0x06, 0x40 * of_nat (4 - 1)] @ replicate 64 0 @ [0xF7]"
  by (simp_all add: header2_def header3_def header4_def)

lemma packets_doc:
  assumes "length m < 2 ^ 63"
  shows "packets pos m = Inr (map (\<lambda>part. doc_packet part (word_of_int pos) m) [1, 2, 3, 4])"
  using assms packet_first [OF assms] packet_rest [OF assms _ headers_shape(1)]
    packet_rest [OF assms _ headers_shape(2)] packet_rest [OF assms _ headers_shape(3)]
  by (simp add: packets_def)

lemma length_doc_packet [simp]: "length (doc_packet part slot m) = 69"
  by (simp add: doc_packet_def)

lemma doc_packet_checksum:
  "last (doc_packet part slot m) = byte_sum (drop 1 (butlast (doc_packet part slot m)))"
  by (simp add: doc_packet_def sealed_def)

section \<open>Reading a message back\<close>

text \<open>
  The receiving side, from the protocol document: byte 7 of the first packet is the length, the
  payloads of the four packets are the text.
\<close>

definition byte_char :: "u8 \<Rightarrow> char" where
  "byte_char b = char_of (unat b)"

definition payload :: "nat \<Rightarrow> u8 list \<Rightarrow> u8 list" where
  "payload part p = (if part = 1 then take 60 (drop 8 p) else take 64 (drop 4 p))"

definition decode_message :: "u8 list list \<Rightarrow> string" where
  "decode_message ps =
     map byte_char (take (unat (ps ! 0 ! 7))
       (payload 1 (ps ! 0) @ payload 2 (ps ! 1) @ payload 3 (ps ! 2) @ payload 4 (ps ! 3)))"

lemma byte_char_char_byte [simp]: "byte_char (char_byte c) = c"
proof -
  have "unat (of_char c :: u8) = unat (of_nat (of_char c) :: u8)"
    by (simp only: of_nat_of_char)
  also have "\<dots> = of_char c" by (simp only: unat_of_nat) simp
  finally have "unat (of_char c :: u8) = of_char c" .
  then show ?thesis by (simp add: byte_char_def char_byte_def)
qed

lemma doc_payload:
  "payload (Suc 0) (doc_packet (Suc 0) slot m) = pad 60 (map char_byte (take 60 m))"
  "part \<noteq> Suc 0 \<Longrightarrow> payload part (doc_packet part slot m)
     = pad 64 (map char_byte (take 64 (drop (60 + 64 * (part - 2)) m)))"
  by (simp_all add: payload_def doc_packet_def sealed_def)

lemma take_pad_append:
  "n \<le> length xs \<Longrightarrow> take n (pad k xs @ ys) = take n xs"
  by (simp add: pad_def)

lemma pad_step:
  assumes "n = length xs" and "k < n \<Longrightarrow> take (n - k) ys = drop k xs"
  shows "take n (pad k (take k xs) @ ys) = xs"
proof (cases "k < n")
  case True
  with assms have "take n (pad k (take k xs) @ ys) = take k xs @ drop k xs"
    by (simp add: pad_def)
  then show ?thesis by simp
next
  case False
  with assms(1) show ?thesis by (simp add: pad_def)
qed

lemma pads_concat:
  assumes "length bs \<le> 252"
  shows "take (length bs) (pad 60 (take 60 bs) @ pad 64 (take 64 (drop 60 bs))
           @ pad 64 (take 64 (drop 124 bs)) @ pad 64 (take 64 (drop 188 bs))) = bs"
proof -
  have 4: "take (length bs - 188) (pad 64 (take 64 (drop 188 bs)) @ []) = drop 188 bs"
    using assms by - (rule pad_step, simp_all)
  have 3: "take (length bs - 124) (pad 64 (take 64 (drop 124 bs)) @ pad 64 (take 64 (drop 188 bs)))
      = drop 124 bs"
    using 4 by - (rule pad_step, simp_all)
  have 2: "take (length bs - 60) (pad 64 (take 64 (drop 60 bs)) @ pad 64 (take 64 (drop 124 bs))
      @ pad 64 (take 64 (drop 188 bs))) = drop 60 bs"
    using 3 by - (rule pad_step, simp_all)
  show ?thesis using 2 by - (rule pad_step, simp_all)
qed

definition doc_dump :: "u8 list" where
  "doc_dump =
  [0x00, 0x02, 0x31, 0x06, 0x00, 0x35, 0x00, 0x42, 0xD2, 0x30, 0x31, 0x32, 0x33, 0x34, 0x35, 0x36,
   0x37, 0x38, 0x39, 0x30, 0x31, 0x32, 0x33, 0x34, 0x35, 0x36, 0x37, 0x38, 0x39, 0x30, 0x31, 0x32,
   0x33, 0x34, 0x35, 0x36, 0x37, 0x38, 0x39, 0x30, 0x31, 0x32, 0x33, 0x34, 0x35, 0x36, 0x37, 0x38,
   0x39, 0x30, 0x31, 0x32, 0x33, 0x34, 0x35, 0x36, 0x37, 0x38, 0x39, 0x30, 0x31, 0x32, 0x33, 0x34,
   0x35, 0x36, 0x37, 0x38, 0x39, 0xCE, 0x02, 0x31, 0x06, 0x40, 0x30, 0x31, 0x32, 0x33, 0x34, 0x35,
   0x36, 0x37, 0x38, 0x39, 0x30, 0x31, 0x32, 0x33, 0x34, 0x35, 0x36, 0x37, 0x38, 0x39, 0x30, 0x31,
   0x32, 0x33, 0x34, 0x35, 0x36, 0x37, 0x38, 0x39, 0x30, 0x31, 0x32, 0x33, 0x34, 0x35, 0x36, 0x37,
   0x38, 0x39, 0x30, 0x31, 0x32, 0x33, 0x34, 0x35, 0x36, 0x37, 0x38, 0x39, 0x30, 0x31, 0x32, 0x33,
   0x34, 0x35, 0x36, 0x37, 0x38, 0x39, 0x30, 0x31, 0x32, 0x33, 0x8B, 0x02, 0x31, 0x06, 0x80, 0x34,
   0x35, 0x36, 0x37, 0x38, 0x39, 0x30, 0x31, 0x32, 0x33, 0x34, 0x35, 0x36, 0x37, 0x38, 0x39, 0x30,
   0x31, 0x32, 0x33, 0x34, 0x35, 0x36, 0x37, 0x38, 0x39, 0x30, 0x31, 0x32, 0x33, 0x34, 0x35, 0x36,
   0x37, 0x38, 0x39, 0x30, 0x31, 0x32, 0x33, 0x34, 0x35, 0x36, 0x37, 0x38, 0x39, 0x30, 0x31, 0x32,
   0x33, 0x34, 0x35, 0x36, 0x37, 0x38, 0x39, 0x30, 0x31, 0x32, 0x33, 0x34, 0x35, 0x36, 0x37, 0xDB,
   0x02, 0x31, 0x06, 0xC0, 0x38, 0x39, 0x30, 0x31, 0x32, 0x33, 0x34, 0x35, 0x36, 0x37, 0x38, 0x39,
   0x30, 0x31, 0x32, 0x33, 0x34, 0x35, 0x36, 0x37, 0x38, 0x39, 0x00, 0x00, 0x00, 0x00, 0x00, 0x00,
   0x00, 0x00, 0x00, 0x00, 0x00, 0x00, 0x00, 0x00, 0x00, 0x00, 0x00, 0x00, 0x00, 0x00, 0x00, 0x00,
   0x00, 0x00, 0x00, 0x00, 0x00, 0x00, 0x00, 0x00, 0x00, 0x00, 0x00, 0x00, 0x00, 0x00, 0x00, 0x00,
   0x00, 0x00, 0x00, 0x00, 0x82, 0x02, 0x33, 0x01]"

text \<open>\<open>finalpck\<close>: the start byte and the four packets, as lines 206 to 215 assemble them.\<close>

definition finalpck :: "u8 list list \<Rightarrow> u8 list" where
  "finalpck hs = 0x00 # concat (map (take 69) hs)"

lemma decode_packets:
  assumes "length m \<le> 252"
  shows "decode_message (map (\<lambda>part. doc_packet part slot m) [1, 2, 3, 4]) = m"
proof -
  let ?bs = "map char_byte m"
  have len: "unat (of_nat (length m) :: u8) = length m"
    using assms by (simp add: unat_of_nat)
  have "doc_packet 1 slot m ! 7 = of_nat (length m)"
    by (simp add: doc_packet_def sealed_def)
  moreover have "take (length m) (pad 60 (take 60 ?bs) @ pad 64 (take 64 (drop 60 ?bs))
           @ pad 64 (take 64 (drop 124 ?bs)) @ pad 64 (take 64 (drop 188 ?bs))) = ?bs"
    using pads_concat [of ?bs] assms by simp
  ultimately show ?thesis
    by (simp add: decode_message_def doc_payload len take_map drop_map comp_def del: take_append)
qed

section \<open>The hex dump for the log\<close>

definition hex_digit :: "nat \<Rightarrow> char" where
  "hex_digit n = (if n < 10 then char_of (48 + n) else char_of (55 + n))"

text \<open>\<open>std::setw(2) << std::uppercase << std::hex << std::setfill('0') << (int)data[i] << " "\<close>\<close>

definition show_hex2 :: "u8 \<Rightarrow> string" where
  "show_hex2 b = [hex_digit (unat b div 16), hex_digit (unat b mod 16), CHR '' '']"

function print_loop :: "u8 list \<Rightarrow> nat \<Rightarrow> nat \<Rightarrow> string \<Rightarrow> string list \<Rightarrow> exn + (string \<times> string list)" where
  "print_loop data len i ss out =
     (if i < len then
        bindR (arr_get data i) (\<lambda>b.
          let ss' = ss @ show_hex2 b
          in if (i + 1) mod 16 = 0 then print_loop data len (Suc i) [] (out @ [ss'])
             else print_loop data len (Suc i) ss' out)
      else Inr (ss, out))"
  by pat_completeness auto
termination
  by (relation "measure (\<lambda>(data, len, i, ss, out). len - i)") auto

declare print_loop.simps [simp del]

text \<open>
  \<open>ss.gcount()\<close> counts the characters of the last unformatted input operation; the stream is
  only written to, so it is 0.
\<close>

definition printMessage :: "u8 list \<Rightarrow> nat \<Rightarrow> exn + string list" where
  "printMessage data len =
     bindR (print_loop data len 0 [] [''Raw Message: '']) (\<lambda>(ss, out).
       let gcount = (0 :: nat) in Inr (if gcount > 0 then out @ [ss] else out))"

fun hex_rows :: "nat \<Rightarrow> u8 list \<Rightarrow> string list" where
  "hex_rows 0 bs = []"
| "hex_rows (Suc n) bs = concat (map show_hex2 (take 16 bs)) # hex_rows n (drop 16 bs)"

lemma print_loop_row:
  assumes "i mod 16 + k = 16" and "0 < k" and "i + k \<le> len" and "len \<le> length data"
  shows "print_loop data len i ss out =
    print_loop data len (i + k) [] (out @ [ss @ concat (map show_hex2 (take k (drop i data)))])"
  using assms
proof (induction k arbitrary: i ss)
  case 0
  then show ?case by simp
next
  case (Suc k)
  have i: "i < len" "i < length data" using Suc.prems by simp_all
  have d: "drop i data = data ! i # drop (Suc i) data"
    using i(2) by (simp add: Cons_nth_drop_Suc)
  show ?case
  proof (cases "k = 0")
    case True
    with Suc.prems(1) have "(i + 1) mod 16 = 0" by (simp add: mod_Suc)
    with i d True show ?thesis by (subst print_loop.simps) (simp add: Let_def)
  next
    case False
    with Suc.prems(1) have "(i + 1) mod 16 \<noteq> 0" and "Suc i mod 16 + k = 16"
      by (simp_all add: mod_Suc)
    note IH = Suc.IH [OF this(2), of "ss @ show_hex2 (data ! i)"]
    have "print_loop data len i ss out = print_loop data len (Suc i) (ss @ show_hex2 (data ! i)) out"
      using i \<open>(i + 1) mod 16 \<noteq> 0\<close> by (subst print_loop.simps) (simp add: Let_def)
    also have "\<dots> = print_loop data len (Suc i + k) []
        (out @ [(ss @ show_hex2 (data ! i)) @ concat (map show_hex2 (take k (drop (Suc i) data)))])"
      using False Suc.prems by (intro IH) simp_all
    finally show ?thesis by (simp add: d)
  qed
qed

lemma print_loop_tail:
  assumes "\<And>j. i \<le> j \<Longrightarrow> j < len \<Longrightarrow> (j + 1) mod 16 \<noteq> 0" and "i \<le> len" and "len \<le> length data"
  shows "\<exists>ss'. print_loop data len i ss out = Inr (ss', out)"
  using assms
proof (induction "len - i" arbitrary: i ss)
  case 0
  then show ?case by (subst print_loop.simps) simp
next
  case (Suc n)
  then have i: "i < len" "i < length data" "(i + 1) mod 16 \<noteq> 0" by simp_all
  have "\<exists>ss'. print_loop data len (Suc i) (ss @ show_hex2 (data ! i)) out = Inr (ss', out)"
    using Suc by (intro Suc.hyps(1)) simp_all
  with i show ?case by (subst print_loop.simps) (simp add: Let_def)
qed

lemma print_loop_rows:
  assumes "len \<le> length data" and "i mod 16 = 0" and "i \<le> len" and "(len - i) div 16 = n"
  shows "\<exists>ss'. print_loop data len i [] out = Inr (ss', out @ hex_rows n (drop i data))"
  using assms(2-)
proof (induction n arbitrary: i out)
  case 0
  then have "len - i < 16" by simp
  have "(j + 1) mod 16 \<noteq> 0" if "i \<le> j" "j < len" for j
  proof -
    from that(1) obtain r where r: "j = i + r" by (auto simp: le_iff_add)
    with that(2) \<open>len - i < 16\<close> have "r < 15" by simp
    moreover have "(i + (r + 1)) mod 16 = (r + 1) mod 16"
      using 0(1) by (metis add_0 mod_add_left_eq)
    ultimately show ?thesis by (simp add: r)
  qed
  from print_loop_tail [OF this 0(2) assms(1)] show ?case by simp
next
  case (Suc n)
  then have le: "i + 16 \<le> len" by linarith
  let ?row = "concat (map show_hex2 (take 16 (drop i data)))"
  have "print_loop data len i [] out = print_loop data len (i + 16) [] (out @ [[] @ ?row])"
    using Suc.prems le assms(1) by (intro print_loop_row) simp_all
  moreover have "\<exists>ss'. print_loop data len (i + 16) [] (out @ [?row])
      = Inr (ss', (out @ [?row]) @ hex_rows n (drop (i + 16) data))"
    using Suc.prems le by (intro Suc.IH) simp_all
  ultimately show ?case by (simp add: add.commute)
qed

lemma print_loop_overrun:
  assumes "length data < len" and "i \<le> length data"
  shows "print_loop data len i ss out = Inl (Undefined ''read out of bounds'')"
  using assms
proof (induction "length data - i" arbitrary: i ss out)
  case 0
  then show ?case by (subst print_loop.simps) simp
next
  case (Suc n)
  then have "i < len" "i < length data" by simp_all
  moreover have "print_loop data len (Suc i) s o' = Inl (Undefined ''read out of bounds'')" for s o'
    using Suc by (intro Suc.hyps(1)) simp_all
  ultimately show ?case by (subst print_loop.simps) (simp add: Let_def)
qed

section \<open>Properties\<close>



text \<open>
  C20: a message of at most 252 characters survives the trip: the receiver that reads the length
  byte and the payloads of the four packets gets back exactly the message, whatever the slot.
\<close>

theorem packets_roundtrip:
  assumes "length m \<le> 252"
  shows "\<exists>ps. packets pos m = Inr ps \<and> decode_message ps = m"
  using assms packets_doc [of m pos] decode_packets [OF assms] by auto

theorem packets_roundtrip_witness:
  "length ''HELLO'' \<le> 252 \<and> (\<exists>ps. packets 3 ''HELLO'' = Inr ps \<and> decode_message ps = ''HELLO'')"
  using packets_roundtrip [of "''HELLO''" 3] by simp

text \<open>
  For the 210-character message of the protocol document, slot 1, the start byte, the four
  packets of the driver and the run command are the byte dump printed at the end of the document.
\<close>

theorem packets_match_document:
  "bindR (packets 1 (concat (replicate 21 ''0123456789''))) (\<lambda>ps. Inr (finalpck ps @ [0x02, 0x33, 0x01]))
     = Inr doc_dump"
proof -
  have "finalpck (map (\<lambda>part. doc_packet part 1 (concat (replicate 21 ''0123456789''))) [1, 2, 3, 4])
      @ [0x02, 0x33, 0x01] = doc_dump"
    by code_simp
  moreover have "length (concat (replicate 21 ''0123456789'')) < 2 ^ 63"
    by (simp add: length_concat sum_list_replicate)
  ultimately show ?thesis by (simp add: packets_doc)
qed

text \<open>
  The hex dump of a buffer logs one line per full row of 16 bytes and drops the last, partial
  row: the guard \<open>ss.gcount() > 0\<close> counts characters read, never characters written.
\<close>

theorem printMessage_drops_tail:
  assumes "len \<le> length data"
  shows "printMessage data len = Inr (''Raw Message: '' # hex_rows (len div 16) data)"
  using print_loop_rows [of len data 0 "len div 16" "[''Raw Message: '']"] assms
  by (auto simp: printMessage_def Let_def)

theorem printMessage_drops_tail_witness:
  "printMessage [1, 2, 3] 3 = Inr [''Raw Message: '']"
  using printMessage_drops_tail [of 3 "[1, 2, 3]"] by simp

text \<open>
  The dump of 70 bytes that \<open>setMessage\<close> asks for after building the first packet reads one
  byte past the end of the 69-byte array.
\<close>

theorem printMessage_overruns_packet:
  assumes "length m < 2 ^ 63" and "packet 1 header1 pos m = Inr p"
  shows "printMessage p 70 = Inl (Undefined ''read out of bounds'')"
  using assms packet_first [OF assms(1)] print_loop_overrun [of p 70 0 "[]" "[''Raw Message: '']"]
  by (auto simp: printMessage_def)

theorem printMessage_overruns_packet_witness:
  "printMessage (doc_packet 1 2 ''HI'') 70 = Inl (Undefined ''read out of bounds'')"
  using printMessage_overruns_packet [of "''HI''" 2 "doc_packet 1 2 ''HI''"] packet_first [of "''HI''" 2]
  by simp

end
