(* ===== verification/Driver.thy ===== *)
theory Driver
  imports ContextFacts Packet
begin

text \<open>
  The driver of the display, \<^verbatim>\<open>src/src/Driver-DX.cpp\<close> from line 94 on, against the interface of
  \<^verbatim>\<open>src/src/Driver.hpp\<close>: opening the port and greeting the display, sending a message, clearing a
  slot, closing the port. Messages of the log level \<open>eDebug\<close> are left out; what their
  arguments read is kept.
\<close>

section \<open>The port and the system seen from the driver\<close>

text \<open>A call through the pointer \<open>lmbctx->sp\<close>.\<close>

definition on_sp :: "'a ser \<Rightarrow> 'a lmb" where
  "on_sp m = (\<lambda>w. case ctx_sp (ctx w) of
      None \<Rightarrow> (Inl (Undefined ''null pointer''), w)
    | Some s \<Rightarrow> (case m (s, wtrace w) of
        (r, (s', t')) \<Rightarrow> (r, w\<lparr>ctx := (ctx w)\<lparr>ctx_sp := Some s'\<rparr>, wtrace := t'\<rparr>)))"

text \<open>
  \<open>new serial::Serial(port, baud, timeout)\<close> with the default parameters of the constructor. When it
  throws, the object is freed and the pointer keeps its value.
\<close>

definition new_serial :: "os \<Rightarrow> string \<Rightarrow> nat \<Rightarrow> Timeout \<Rightarrow> unit lmb" where
  "new_serial sys port baud timeout = (\<lambda>w.
     case serial_ctor sys timeout (new_impl port baud eightbits parity_none stopbits_one flowcontrol_none 0, wtrace w) of
       (Inl e, (s, t)) \<Rightarrow> (Inl e, w\<lparr>wtrace := t\<rparr>)
     | (Inr _, (s, t)) \<Rightarrow> (Inr (), w\<lparr>ctx := (ctx w)\<lparr>ctx_sp := Some s\<rparr>, wtrace := t\<rparr>))"

definition sleep_us :: "os \<Rightarrow> nat \<Rightarrow> unit lmb" where
  "sleep_us sys n = modify (\<lambda>w. w\<lparr>wtrace := wtrace w @ [(Usleep n, answer sys (wtrace w) (Usleep n))]\<rparr>)"

text \<open>The result of \<open>write\<close> is only logged.\<close>

definition send :: "os \<Rightarrow> u8 list \<Rightarrow> unit lmb" where
  "send sys bs = bindE (on_sp (serial_write sys bs)) (\<lambda>_. ret ())"

section \<open>Init\<close>

definition greet :: "os \<Rightarrow> bool lmb" where
  "greet sys =
     seqE (on_sp (serial_flush sys))
    (seqE (send sys [0x41])
    (seqE (send sys [0x42])
    (seqE (send sys [0x43])
    (seqE (send sys [0x44])
    (seqE (send sys [0x45])
    (seqE (on_sp (serial_flush sys))
    (seqE (sleep_us sys (150 * 1000))
    (ret True))))))))"

definition init_port :: "os \<Rightarrow> bool lmb" where
  "init_port sys =
     bindE (on_sp serial_isOpen) (\<lambda>op.
     seqE (whenE (\<not> op) (on_sp (serial_open sys)))
    (seqE (on_sp (serial_setFlowcontrol sys flowcontrol_software))
    (seqE (on_sp (serial_setRTS sys True))
    (seqE (on_sp (serial_setDTR sys True))
    (seqE (send sys [0x54])
    (seqE (on_sp (serial_flush sys))
    (bindE (on_sp (serial_read_string sys 1)) (\<lambda>query.
     if length query > 0 then greet sys
     else seqE (say eError ''No Reply to Inquiry'') (ret False)))))))))"

definition Driver_Init :: "os \<Rightarrow> bool lmb" where
  "Driver_Init sys =
     seqE (modify (\<lambda>w. w\<lparr>driver_bound := True\<rparr>))
    (bindE (ctxf (\<lambda>c. c)) (\<lambda>c.
     if ctx_sp c = None \<and> length (ctx_port c) \<noteq> 0 then
       seqE (new_serial sys (ctx_port c) 38400 (simpleTimeout 10)) (init_port sys)
     else if ctx_sp c = None then ret False
     else init_port sys))"

section \<open>setMessage\<close>

text \<open>The member \<open>lmbctx\<close> of the driver is only set by \<open>Init\<close>.\<close>

definition deref_ctx :: "unit lmb" where
  "deref_ctx = bindE (gets driver_bound) (\<lambda>b. if b then ret () else throw (Undefined ''uninitialised pointer''))"

text \<open>
  \<open>msgdisplay[pos-1] = v\<close>: an index outside the bit set violates the precondition of \<open>operator[]\<close>.
\<close>

definition set_display_bit :: "int \<Rightarrow> bool \<Rightarrow> unit lmb" where
  "set_display_bit i v =
     bindE (ctxf ctx_msgdisplay) (\<lambda>bs.
     if 0 \<le> i \<and> i < int (length bs) then upd_ctx (\<lambda>c. c\<lparr>ctx_msgdisplay := bs[nat i := v]\<rparr>)
     else throw (Undefined ''bitset index out of range''))"

text \<open>\<open>displayedmsgs[pos] = message; msgdisplay[pos-1] = v;\<close>\<close>

definition set_slot :: "int \<Rightarrow> string \<Rightarrow> bool \<Rightarrow> unit lmb" where
  "set_slot pos message v =
     seqE (upd_ctx (\<lambda>c. c\<lparr>ctx_displayedmsgs := (ctx_displayedmsgs c)(pos := message)\<rparr>)) (set_display_bit (pos - 1) v)"

text \<open>\<open>(uint8_t) msgdisplay.to_ulong()\<close>, which throws when a bit beyond the 64th is set.\<close>

definition display_mask :: "bool list \<Rightarrow> exn + u8" where
  "display_mask bs =
     (if True \<in> set (drop 64 bs) then Inl (RuntimeError ''overflow_error'')
      else Inr (of_nat (\<Sum>i = 0..<length bs. if bs ! i then 2 ^ i else 0)))"

text \<open>The attribute codes, in the order of the source.\<close>

definition byte2 :: "nat \<Rightarrow> string" where
  "byte2 n = [char_of (0xC0 :: nat), char_of n]"

definition attribute_codes :: "(string \<times> string) list" where
  "attribute_codes =
     [(''~H'', byte2 0x02), (''~<'', byte2 0x04), (''~>'', byte2 0x06), (''~P'', byte2 0x08), (''~x'', byte2 0x0A),
      (''~S'', byte2 0x0C), (''~O'', byte2 0x0E), (''~o'', byte2 0x10), (''~M'', byte2 0x12), (''~Q'', byte2 0x14),
      (''~n'', byte2 0x16)]"

definition encode_attributes :: "libs \<Rightarrow> string \<Rightarrow> string" where
  "encode_attributes L message = fold (\<lambda>(code, bytes) m. replace_all L m code bytes) attribute_codes message"

definition dump :: "u8 list \<Rightarrow> nat \<Rightarrow> unit lmb" where
  "dump data len = bindE (lift (printMessage data len)) (\<lambda>_. ret ())"

text \<open>
  Building the four packets, with the dumps between them. The first dump reads one byte past the
  array, the byte \<open>stray\<close> of whatever lies behind it on the stack.
\<close>

definition build_packets :: "libs \<Rightarrow> int \<Rightarrow> string \<Rightarrow> u8 list list lmb" where
  "build_packets L pos message =
     bindE (lift (packet 1 header1 pos message)) (\<lambda>p1.
     seqE (dump (p1 @ [stray L]) 70)
    (bindE (lift (packet 2 header2 pos message)) (\<lambda>p2.
     seqE (dump p2 69)
    (bindE (lift (packet 3 header3 pos message)) (\<lambda>p3.
     seqE (dump p3 69)
    (bindE (lift (packet 4 header4 pos message)) (\<lambda>p4.
     seqE (dump p4 69)
    (seqE (dump (finalpck [p1, p2, p3, p4]) 277)
    (ret [p1, p2, p3, p4])))))))))"

fun send_packets :: "os \<Rightarrow> u8 list list \<Rightarrow> unit lmb" where
  "send_packets sys [] = ret ()"
| "send_packets sys (p # ps) = seqE (send sys p) (seqE (sleep_us sys (100 * 1000)) (send_packets sys ps))"

definition run_command :: "os \<Rightarrow> int \<Rightarrow> bool lmb" where
  "run_command sys pos =
     bindE (ctxf ctx_msgdisplay) (\<lambda>bs.
     bindE (lift (display_mask bs)) (\<lambda>mask.
     seqE (send sys [0x02, 0x33, mask])
    (bindE (ctxf ctx_displayedmsgs) (\<lambda>msgs.
     seqE (say eInfo (''Set Message '' @ show_int pos @ '' to '' @ msgs pos))
    (ret True)))))"

definition Driver_setMessage :: "os \<Rightarrow> libs \<Rightarrow> int \<Rightarrow> string \<Rightarrow> bool lmb" where
  "Driver_setMessage sys L pos message =
     seqE deref_ctx
    (bindE (ctxf ctx_messages) (\<lambda>n.
     if n < nat (pos mod 2 ^ 32) then
       seqE (say eWarning (''Invalid Message Position '' @ show_int pos)) (ret False)
     else
       seqE (whenE (length message > 250)
               (say eWarning (''Message is '' @ show_nat (length message) @ '' chars long. Trimming to 250 Chars'')))
      (let message = take 250 message
       in seqE (if length message > 0 then
                  seqE (set_slot pos message True)
                       (bindE (build_packets L pos (encode_attributes L message)) (send_packets sys))
                else set_slot pos [] False)
               (run_command sys pos))))"

section \<open>Fini and StartUp\<close>

definition Driver_Fini :: "os \<Rightarrow> bool lmb" where
  "Driver_Fini sys =
     seqE (sleep_us sys (150 * 1000)) (seqE deref_ctx (seqE (on_sp (serial_close sys)) (ret True)))"

text \<open>\<open>StartUp\<close> only computes the local time; the code that would send it is commented out.\<close>

definition Driver_StartUp :: "bool lmb" where
  "Driver_StartUp = ret True"

section \<open>The interface\<close>

text \<open>
  The abstract class \<open>iDriver\<close>. A fact the clients of a driver need is a step order that all
  four operations respect; the locale carries it to what the clients do with a driver: start it once,
  and show or clear a message in a session of its own.
\<close>

definition show_message :: "bool lmb \<Rightarrow> (int \<Rightarrow> string \<Rightarrow> bool lmb) \<Rightarrow> bool lmb \<Rightarrow> int \<Rightarrow> string \<Rightarrow> unit lmb" where
  "show_message drv_init drv_set drv_fini pos message =
     seqE drv_init (seqE (drv_set pos message) (seqE drv_fini (ret ())))"

definition start_driver :: "bool lmb \<Rightarrow> bool lmb \<Rightarrow> bool lmb \<Rightarrow> unit lmb" where
  "start_driver drv_init drv_startup drv_fini =
     seqE drv_init (seqE drv_startup (seqE drv_fini (ret ())))"

text \<open>The session with the driver that shows a text in a slot, or clears the slot.\<close>

definition drive :: "os \<Rightarrow> libs \<Rightarrow> int \<Rightarrow> string \<Rightarrow> unit lmb" where
  "drive sys L pos txt = show_message (Driver_Init sys) (Driver_setMessage sys L) (Driver_Fini sys) pos txt"

locale iDriver = step_order R for R :: "world \<Rightarrow> world \<Rightarrow> bool" +
  fixes drv_init :: "bool lmb" and drv_fini :: "bool lmb" and drv_set :: "int \<Rightarrow> string \<Rightarrow> bool lmb"
    and drv_startup :: "bool lmb"
  assumes init_R: "obeys R drv_init" and fini_R: "obeys R drv_fini" and set_R: "obeys R (drv_set pos message)"
    and startup_R: "obeys R drv_startup"
begin

lemma show_message_R: "obeys R (show_message drv_init drv_set drv_fini pos message)"
  unfolding show_message_def by (intro order_intros init_R set_R fini_R)

lemma start_driver_R: "obeys R (start_driver drv_init drv_startup drv_fini)"
  unfolding start_driver_def by (intro order_intros init_R startup_R fini_R)

end

end
