(* ===== verification/Attributes.thy ===== *)
theory Attributes
  imports Driver
begin

text \<open>
  The attribute codes of a message, \<^verbatim>\<open>Driver-DX.cpp\<close> lines 162 to 173: eleven replacements, one after
  the other, by \<open>boost::replace_all\<close>. From the documented behaviour of that function the eleven passes
  are proved to be one left-to-right translation of the two-character codes.
\<close>

section \<open>Replacing all occurrences\<close>

definition occurs_at :: "string \<Rightarrow> string \<Rightarrow> string \<Rightarrow> string \<Rightarrow> bool" where
  "occurs_at s xs a ys \<longleftrightarrow> s = xs @ a @ ys"

text \<open>
  What the documentation of Boost says of \<open>replace_all(s, a, b)\<close> for a search string of two characters:
  a string without \<open>a\<close> is left alone; otherwise the first occurrence is replaced and the search goes on
  behind it.
\<close>

definition replaces_all :: "(string \<Rightarrow> string \<Rightarrow> string \<Rightarrow> string) \<Rightarrow> bool" where
  "replaces_all f \<longleftrightarrow> (\<forall>s a b. length a = 2 \<longrightarrow>
     ((\<forall>xs ys. \<not> occurs_at s xs a ys) \<longrightarrow> f s a b = s) \<and>
     (\<forall>xs ys. occurs_at s xs a ys \<longrightarrow> (\<forall>xs' ys'. occurs_at s xs' a ys' \<longrightarrow> length xs \<le> length xs') \<longrightarrow>
        f s a b = xs @ b @ f ys a b))"

lemma replaces_allD:
  assumes "replaces_all f" and "length a = 2"
  shows "(\<And>xs ys. \<not> occurs_at s xs a ys) \<Longrightarrow> f s a b = s"
    and "occurs_at s xs a ys \<Longrightarrow> (\<And>xs' ys'. occurs_at s xs' a ys' \<Longrightarrow> length xs \<le> length xs') \<Longrightarrow>
      f s a b = xs @ b @ f ys a b"
  using assms unfolding replaces_all_def by blast+

text \<open>The same as a recursive function.\<close>

fun rep2 :: "char \<Rightarrow> char \<Rightarrow> string \<Rightarrow> string \<Rightarrow> string" where
  "rep2 x y b (c # d # s) = (if c = x \<and> d = y then b @ rep2 x y b s else c # rep2 x y b (d # s))"
| "rep2 x y b s = s"

lemma rep2_skip: "\<not> (c = x \<and> d = y) \<Longrightarrow> rep2 x y b (c # d # s) = c # rep2 x y b (d # s)"
  by auto

lemma rep2_none: "(\<And>xs ys. s \<noteq> xs @ x # y # ys) \<Longrightarrow> rep2 x y b s = s"
proof (induction x y b s rule: rep2.induct)
  case (1 x y b c d s)
  have "\<not> (c = x \<and> d = y)" using "1.prems" [of "[]" s] by auto
  moreover have "d # s \<noteq> xs @ x # y # ys" for xs ys
    using "1.prems" [of "c # xs" ys] by simp
  ultimately show ?case using "1.IH"(2) by auto
qed simp_all

lemma rep2_first:
  "(\<And>xs' ys'. xs @ x # y # ys = xs' @ x # y # ys' \<Longrightarrow> length xs \<le> length xs') \<Longrightarrow>
   rep2 x y b (xs @ x # y # ys) = xs @ b @ rep2 x y b ys"
proof (induction xs)
  case Nil
  then show ?case by simp
next
  case (Cons c xs)
  obtain d s where tl: "xs @ x # y # ys = d # s" by (cases xs) auto
  have skip: "\<not> (c = x \<and> d = y)"
    using Cons.prems [of "[]" s] tl by auto
  have "rep2 x y b ((c # xs) @ x # y # ys) = c # rep2 x y b (xs @ x # y # ys)"
    unfolding append_Cons tl by (rule rep2_skip [OF skip])
  moreover have "length xs \<le> length xs'" if "xs @ x # y # ys = xs' @ x # y # ys'" for xs' ys'
    using Cons.prems [of "c # xs'" ys'] that by simp
  ultimately show ?case using Cons.IH by simp
qed

lemma rep2_replaces_all: "replaces_all (\<lambda>s a b. rep2 (a ! 0) (a ! 1) b s)"
  unfolding replaces_all_def
proof (intro allI impI conjI)
  fix s a b :: string
  assume "length a = 2"
  then obtain x y where a: "a = [x, y]" by (auto simp: numeral_2_eq_2 length_Suc_conv)
  show "rep2 (a ! 0) (a ! 1) b s = s" if "\<forall>xs ys. \<not> occurs_at s xs a ys"
    using that rep2_none [of s x y] by (auto simp: a occurs_at_def)
  show "rep2 (a ! 0) (a ! 1) b s = xs @ b @ rep2 (a ! 0) (a ! 1) b ys"
    if "occurs_at s xs a ys" "\<forall>xs' ys'. occurs_at s xs' a ys' \<longrightarrow> length xs \<le> length xs'" for xs ys
    using that rep2_first [of xs x y ys b] by (auto simp: a occurs_at_def)
qed

lemma replaces_all_rep2:
  assumes f: "replaces_all f"
  shows "f s [x, y] b = rep2 x y b s"
proof (induction s rule: length_induct)
  case (1 s)
  show ?case
  proof (cases "\<exists>xs ys. occurs_at s xs [x, y] ys")
    case False
    then have "f s [x, y] b = s" by (intro replaces_allD(1) [OF f]) simp_all
    moreover have "rep2 x y b s = s" by (rule rep2_none) (use False in \<open>simp add: occurs_at_def\<close>)
    ultimately show ?thesis by simp
  next
    case True
    define n where "n = (LEAST n. \<exists>xs ys. occurs_at s xs [x, y] ys \<and> length xs = n)"
    from True have "\<exists>xs ys. occurs_at s xs [x, y] ys \<and> length xs = n"
      unfolding n_def
      by (intro LeastI_ex [where P = "\<lambda>n. \<exists>xs ys. occurs_at s xs [x, y] ys \<and> length xs = n"]) blast
    then obtain xs ys where s: "occurs_at s xs [x, y] ys" and n: "length xs = n" by blast
    have least: "length xs \<le> length xs'" if "occurs_at s xs' [x, y] ys'" for xs' ys'
      unfolding n n_def by (rule Least_le) (use that in blast)
    then have "f s [x, y] b = xs @ b @ f ys [x, y] b" by (intro replaces_allD(2) [OF f _ s]) simp_all
    also have "f ys [x, y] b = rep2 x y b ys"
      using 1 s by (simp add: occurs_at_def)
    also have "xs @ b @ rep2 x y b ys = rep2 x y b s"
      using rep2_first [of xs x y ys b] least unfolding s [unfolded occurs_at_def] by (simp add: occurs_at_def)
    finally show ?thesis .
  qed
qed

section \<open>One pass\<close>

text \<open>The codes of a table, introduced by a tilde, translated in one pass from left to right.\<close>

abbreviation tilde :: char where "tilde \<equiv> CHR ''~''"

fun translate :: "(char \<Rightarrow> string option) \<Rightarrow> string \<Rightarrow> string" where
  "translate T (c # d # s) =
     (if c = tilde then (case T d of Some b \<Rightarrow> b @ translate T s | None \<Rightarrow> c # translate T (d # s))
      else c # translate T (d # s))"
| "translate T s = s"

lemma translate_empty: "translate Map.empty s = s"
  by (induction "Map.empty :: char \<Rightarrow> string option" s rule: translate.induct) auto

lemma rep2_other: "c \<noteq> x \<Longrightarrow> rep2 x y b (c # s) = c # rep2 x y b s"
  by (cases s) auto

lemma rep2_append: "x \<notin> set p \<Longrightarrow> rep2 x y b (p @ s) = p @ rep2 x y b s"
  by (induction p) (auto simp: rep2_other)

lemma rep2_hd: "s \<noteq> [] \<Longrightarrow> hd s \<noteq> y \<Longrightarrow> rep2 x y b (x # s) = x # rep2 x y b s"
  by (cases s) auto

text \<open>A table entry: not the tilde itself, and replaced by something that contains neither.\<close>

definition good_entry :: "char \<Rightarrow> (char \<Rightarrow> string option) \<Rightarrow> bool" where
  "good_entry y T \<longleftrightarrow> y \<noteq> tilde \<and> T y = None \<and> (\<forall>d p. T d = Some p \<longrightarrow> tilde \<notin> set p \<and> p \<noteq> [] \<and> hd p \<noteq> y)"

lemma translate_nonempty: "(\<And>d p. T d = Some p \<Longrightarrow> p \<noteq> []) \<Longrightarrow> s \<noteq> [] \<Longrightarrow> translate T s \<noteq> []"
  by (induction T s rule: translate.induct) (auto split: option.split)

lemma translate_hd:
  assumes "good_entry y T" and "d \<noteq> y"
  shows "hd (translate T (d # s)) \<noteq> y"
proof (cases s)
  case (Cons e s')
  with assms show ?thesis by (auto simp: good_entry_def hd_append split: option.split)
qed (use assms in simp)

lemma rep2_translate:
  assumes good: "good_entry y T"
  shows "rep2 tilde y b (translate T s) = translate (T(y \<mapsto> b)) s"
proof -
  define T' where "T' = T(y \<mapsto> b)"
  have T': "T' y = Some b" "d \<noteq> y \<Longrightarrow> T' d = T d" for d by (simp_all add: T'_def)
  have "rep2 tilde y b (translate T s) = translate T' s"
  proof (induction s rule: length_induct)
    case (1 s)
    then have IH: "rep2 tilde y b (translate T u) = translate T' u" if "length u < length s" for u
      using that by blast
    show ?case
    proof (cases "\<exists>c d r. s = c # d # r")
      case False
      then consider "s = []" | c where "s = [c]" by (metis list.exhaust)
      then show ?thesis by cases simp_all
    next
      case True
      then obtain c d r where s: "s = c # d # r" by blast
      consider "c \<noteq> tilde" | p where "c = tilde" "T d = Some p" | "c = tilde" "T d = None" "d = y"
        | "c = tilde" "T d = None" "d \<noteq> y" by (metis not_None_eq)
      then show ?thesis
      proof cases
        case 1
        then show ?thesis using IH [of "d # r"] by (simp add: s rep2_other)
      next
        case 2
        with good have "d \<noteq> y" "tilde \<notin> set p" by (auto simp: good_entry_def)
        with 2 IH [of r] show ?thesis by (simp add: s rep2_append T')
      next
        case 3
        with good have y: "y \<noteq> tilde" by (simp add: good_entry_def)
        have "translate T (y # r) = y # translate T r" using y by (cases r) simp_all
        with 3 IH [of r] show ?thesis by (simp add: s T')
      next
        case 4
        have ne: "translate T (d # r) \<noteq> []" using good by (intro translate_nonempty) (auto simp: good_entry_def)
        have "rep2 tilde y b (tilde # translate T (d # r)) = tilde # rep2 tilde y b (translate T (d # r))"
          using ne translate_hd [OF good 4(3)] by (rule rep2_hd)
        with 4 IH [of "d # r"] show ?thesis by (simp add: s T')
      qed
    qed
  qed
  then show ?thesis by (simp only: T'_def)
qed

section \<open>The eleven codes\<close>

definition attribute_numbers :: "(char \<times> nat) list" where
  "attribute_numbers =
     [(CHR ''H'', 0x02), (CHR ''<'', 0x04), (CHR ''>'', 0x06), (CHR ''P'', 0x08), (CHR ''x'', 0x0A), (CHR ''S'', 0x0C),
      (CHR ''O'', 0x0E), (CHR ''o'', 0x10), (CHR ''M'', 0x12), (CHR ''Q'', 0x14), (CHR ''n'', 0x16)]"

definition attribute_table :: "(char \<times> string) list" where
  "attribute_table = map (\<lambda>(c, n). (c, byte2 n)) attribute_numbers"

lemma attribute_codes_table: "attribute_codes = map (\<lambda>(c, b). ([tilde, c], b)) attribute_table"
  by (simp add: attribute_codes_def attribute_table_def attribute_numbers_def)

lemma byte2_facts: "n < 0x20 \<Longrightarrow> tilde \<notin> set (byte2 n) \<and> byte2 n \<noteq> [] \<and> hd (byte2 n) = char_of (0xC0 :: nat) \<and> length (byte2 n) = 2"
proof -
  assume n: "n < 0x20"
  have "tilde \<noteq> char_of m" if "m < 256" "m \<noteq> 126" for m :: nat
  proof
    assume "tilde = char_of m"
    then have "of_char tilde = (of_char (char_of m) :: nat)" by simp
    with that show False by simp
  qed
  with n show ?thesis by (auto simp: byte2_def)
qed

lemma attribute_entries:
  assumes "(c, b) \<in> set attribute_table"
  shows "\<exists>n < 0x20. b = byte2 n \<and> c \<noteq> tilde \<and> c \<noteq> char_of (0xC0 :: nat)"
proof -
  have "list_all (\<lambda>(c, n). n < 0x20 \<and> c \<noteq> tilde \<and> (of_char c :: nat) < 128) attribute_numbers"
    by code_simp
  moreover from assms obtain n where "(c, n) \<in> set attribute_numbers" "b = byte2 n"
    by (auto simp: attribute_table_def)
  ultimately have "n < 0x20 \<and> b = byte2 n \<and> c \<noteq> tilde \<and> (of_char c :: nat) < 128"
    by (auto simp: list_all_iff)
  then show ?thesis by (intro exI [of _ n]) auto
qed

lemma attribute_distinct: "distinct (map fst attribute_table)"
  by (simp add: attribute_table_def attribute_numbers_def)

lemma fold_translate:
  assumes "distinct (map fst tbl)" and "set tbl \<subseteq> set attribute_table" and "dom T \<inter> fst ` set tbl = {}"
    and "\<And>d p. T d = Some p \<Longrightarrow> (d, p) \<in> set attribute_table"
  shows "fold (\<lambda>(y, b) m. rep2 tilde y b m) tbl (translate T s) = translate (T ++ map_of tbl) s"
  using assms
proof (induction tbl arbitrary: T)
  case Nil
  then show ?case by simp
next
  case (Cons e tbl)
  obtain y b where e: "e = (y, b)" by (cases e)
  have yb: "(y, b) \<in> set attribute_table" using Cons.prems(2) by (simp add: e)
  have "good_entry y T"
    unfolding good_entry_def
  proof (intro conjI allI impI)
    show "y \<noteq> tilde" using attribute_entries [OF yb] by blast
    show "T y = None" using Cons.prems(3) by (auto simp: e)
    fix d p
    assume "T d = Some p"
    then obtain n where "n < 0x20" "p = byte2 n" using attribute_entries Cons.prems(4) by blast
    then show "tilde \<notin> set p" "p \<noteq> []" "hd p \<noteq> y"
      using byte2_facts attribute_entries [OF yb] by auto
  qed
  then have "rep2 tilde y b (translate T s) = translate (T(y \<mapsto> b)) s" by (rule rep2_translate)
  moreover have "fold (\<lambda>(y, b) m. rep2 tilde y b m) tbl (translate (T(y \<mapsto> b)) s) = translate (T(y \<mapsto> b) ++ map_of tbl) s"
  proof (rule Cons.IH)
    show "distinct (map fst tbl)" "set tbl \<subseteq> set attribute_table" using Cons.prems(1,2) by simp_all
    have "y \<notin> fst ` set tbl" using Cons.prems(1) by (simp add: e)
    then show "dom (T(y \<mapsto> b)) \<inter> fst ` set tbl = {}" using Cons.prems(3) by auto
    show "\<And>d p. (T(y \<mapsto> b)) d = Some p \<Longrightarrow> (d, p) \<in> set attribute_table"
      using Cons.prems(4) yb by (auto split: if_splits)
  qed
  moreover have "T(y \<mapsto> b) ++ map_of tbl = T ++ map_of (e # tbl)"
  proof -
    have "y \<notin> dom (map_of tbl)" using Cons.prems(1) by (simp add: e dom_map_of_conv_image_fst)
    then show ?thesis by (simp add: e map_add_upd_left del: fun_upd_apply)
  qed
  ultimately show ?case unfolding e by (simp only: fold_simps prod.case)
qed

lemma encode_attributes_translate:
  assumes "replaces_all (replace_all L)"
  shows "encode_attributes L m = translate (map_of attribute_table) m"
proof -
  have "encode_attributes L m = fold (\<lambda>(y, b) m. rep2 tilde y b m) attribute_table m"
    unfolding encode_attributes_def attribute_codes_table
    by (simp add: fold_map comp_def split_def replaces_all_rep2 [OF assms])
  also have "\<dots> = fold (\<lambda>(y, b) m. rep2 tilde y b m) attribute_table (translate Map.empty m)"
    by (simp add: translate_empty)
  also have "\<dots> = translate (map_of attribute_table) m"
    using attribute_distinct by (subst fold_translate) auto
  finally show ?thesis .
qed

lemma length_translate:
  assumes "\<And>d p. T d = Some p \<Longrightarrow> length p = 2"
  shows "length (translate T s) = length s"
  using assms by (induction T s rule: translate.induct) (auto split: option.split)

lemma length_encode_attributes:
  assumes "replaces_all (replace_all L)"
  shows "length (encode_attributes L m) = length m"
proof -
  have two: "length p = 2" if "map_of attribute_table d = Some p" for d p
    using that attribute_entries byte2_facts by (metis map_of_SomeD)
  show ?thesis unfolding encode_attributes_translate [OF assms] by (rule length_translate) (rule two)
qed

section \<open>Properties\<close>

text \<open>
  C2: the eleven replacements of \<open>setMessage\<close>, applied one after the other, are one translation of
  the codes from left to right: none interferes with another, whatever the message, and the
  encoded message is as long as the message.
\<close>

theorem attributes_one_pass:
  assumes "replaces_all (replace_all L)"
  shows "encode_attributes L m = translate (map_of attribute_table) m \<and> length (encode_attributes L m) = length m"
  using encode_attributes_translate [OF assms, of m] length_encode_attributes [OF assms, of m] by simp

theorem attributes_one_pass_witness:
  "encode_attributes (demo_libs\<lparr>replace_all := (\<lambda>s a b. rep2 (a ! 0) (a ! 1) b s)\<rparr>) ''~~Ho~n'' = ''~'' @ byte2 2 @ ''o'' @ byte2 0x16"
  using attributes_one_pass [of "demo_libs\<lparr>replace_all := (\<lambda>s a b. rep2 (a ! 0) (a ! 1) b s)\<rparr>" "''~~Ho~n''"] rep2_replaces_all
  by (simp add: attribute_table_def attribute_numbers_def)

end
