(* ===== verification/DriverFacts.thy ===== *)
theory DriverFacts
  imports Driver
begin

text \<open>
  What the driver does to the context, whatever happens, and what it sends when the system works:
  the driver as an instance of the interface \<open>iDriver\<close>, the bytes of a session with the display, and the
  translation of the attribute codes.
\<close>

section \<open>The part of the context a driver leaves alone\<close>

definition settings :: "lmbctx \<Rightarrow> lmbctx" where
  "settings c = c\<lparr>ctx_sp := None, ctx_displayedmsgs := (\<lambda>_. []), ctx_msgdisplay := []\<rparr>"

definition driver_frame :: "world \<Rightarrow> world \<Rightarrow> bool" where
  "driver_frame w w' \<longleftrightarrow> conf w' = conf w \<and> settings (ctx w') = settings (ctx w)"

lemma settings_simps [simp]:
  "settings (c\<lparr>ctx_sp := x\<rparr>) = settings c" "settings (c\<lparr>ctx_displayedmsgs := d\<rparr>) = settings c"
  "settings (c\<lparr>ctx_msgdisplay := m\<rparr>) = settings c"
  by (simp_all add: settings_def)

text \<open>What is displayed: bit \<open>i - 1\<close> is set exactly when slot \<open>i\<close> has a message, of at most 250 characters.\<close>

definition display_ok :: "lmbctx \<Rightarrow> bool" where
  "display_ok c \<longleftrightarrow> length (ctx_msgdisplay c) = ctx_messages c \<and>
     (\<forall>i. 1 \<le> i \<longrightarrow> i \<le> int (ctx_messages c) \<longrightarrow>
        (ctx_msgdisplay c ! nat (i - 1) \<longleftrightarrow> ctx_displayedmsgs c i \<noteq> []) \<and> length (ctx_displayedmsgs c i) \<le> 250)"

definition display_kept :: "world \<Rightarrow> world \<Rightarrow> bool" where
  "display_kept w w' \<longleftrightarrow> (display_ok (ctx w) \<longrightarrow> display_ok (ctx w'))"

lemma display_ok_sp [simp]: "display_ok (c\<lparr>ctx_sp := x\<rparr>) = display_ok c"
  by (simp add: display_ok_def)

text \<open>
  Both are orders that a step respects when it changes nothing of the context but the port; the
  locale collects what follows for the driver's building blocks.
\<close>

locale port_order = step_order R for R :: "world \<Rightarrow> world \<Rightarrow> bool" +
  assumes port_step: "conf w' = conf w \<Longrightarrow> io_mutex w' = io_mutex w \<Longrightarrow> ctx w' = (ctx w)\<lparr>ctx_sp := ctx_sp (ctx w')\<rparr> \<Longrightarrow> R w w'"
begin

lemma on_sp_R: "obeys R (on_sp m)"
  by (rule obeysI) (auto simp: on_sp_def intro!: port_step split: option.splits prod.splits)

lemma new_serial_R: "obeys R (new_serial sys p b tmo)"
  by (rule obeysI) (auto simp: new_serial_def intro!: port_step split: prod.splits sum.splits)

lemma sleep_R: "obeys R (sleep_us sys n)"
  by (rule obeysI) (auto simp: sleep_us_def intro!: port_step)

lemma say_R: "obeys R (say lvl txt)"
  by (rule obeysI) (auto simp: say_def on_logs_def intro!: port_step split: prod.splits)

lemma bind_flag_R: "obeys R (modify (\<lambda>w. w\<lparr>driver_bound := True\<rparr>))"
  by (rule obeysI) (auto intro!: port_step)

lemma ctxf_R: "obeys R (ctxf f)"
  unfolding ctxf_def by (rule gets_obeys)

lemma lift_R: "obeys R (lift r)"
  by (rule obeysI) (auto intro: refl_R)

lemmas port_intros = order_intros if_obeys on_sp_R new_serial_R sleep_R say_R bind_flag_R ctxf_R lift_R

lemma send_R: "obeys R (send sys bs)"
  unfolding send_def by (intro port_intros)

lemma Init_R: "obeys R (Driver_Init sys)"
  unfolding Driver_Init_def init_port_def greet_def
  by (intro port_intros send_R)

lemma Fini_R: "obeys R (Driver_Fini sys)"
  unfolding Driver_Fini_def deref_ctx_def by (intro port_intros)

lemma StartUp_R: "obeys R Driver_StartUp"
  unfolding Driver_StartUp_def by (rule ret_obeys)

lemma run_command_R: "obeys R (run_command sys pos)"
  unfolding run_command_def by (intro port_intros send_R)

lemma send_packets_R: "obeys R (send_packets sys ps)"
proof (induction ps)
  case (Cons p ps)
  show ?case by (simp only: send_packets.simps) (intro port_intros send_R Cons.IH)
qed (simp only: send_packets.simps ret_obeys)

lemma build_packets_R: "obeys R (build_packets L pos m)"
  unfolding build_packets_def dump_def by (intro port_intros)

lemma setMessage_R:
  assumes "\<And>message. length message \<le> 250 \<Longrightarrow> obeys R (set_slot pos message (message \<noteq> []))"
  shows "obeys R (Driver_setMessage sys L pos message)"
  unfolding Driver_setMessage_def deref_ctx_def Let_def
  by (intro port_intros run_command_R send_packets_R build_packets_R)
     (use assms [of "take 250 message"] assms [of "[]"] in simp_all)

end

interpretation frame: port_order driver_frame
proof (unfold_locales; unfold driver_frame_def)
  fix w w' :: world
  assume "conf w' = conf w" and "ctx w' = (ctx w)\<lparr>ctx_sp := ctx_sp (ctx w')\<rparr>"
  then show "conf w' = conf w \<and> settings (ctx w') = settings (ctx w)" by (metis settings_simps(1))
qed auto

interpretation disp: port_order display_kept
proof (unfold_locales; unfold display_kept_def)
  fix w w' :: world
  assume "ctx w' = (ctx w)\<lparr>ctx_sp := ctx_sp (ctx w')\<rparr>"
  then show "display_ok (ctx w) \<longrightarrow> display_ok (ctx w')" by (metis display_ok_sp)
qed auto

lemma set_slot_frame: "obeys driver_frame (set_slot pos message v)"
  by (rule obeysI) (auto simp: set_slot_def set_display_bit_def driver_frame_def world_run split: if_splits)

lemma set_slot_display:
  assumes "length message \<le> 250"
  shows "obeys display_kept (set_slot pos message (message \<noteq> []))"
proof (rule obeysI)
  fix w r w'
  assume "set_slot pos message (message \<noteq> []) w = (r, w')"
  then have run: "seqE (upd_ctx (\<lambda>c. c\<lparr>ctx_displayedmsgs := (ctx_displayedmsgs c)(pos := message)\<rparr>))
      (set_display_bit (pos - 1) (message \<noteq> [])) w = (r, w')" by (simp only: set_slot_def)
  let ?c = "ctx w"
  show "display_kept w w'"
    unfolding display_kept_def
  proof
    assume ok: "display_ok ?c"
    show "display_ok (ctx w')"
    proof (cases "1 \<le> pos \<and> pos \<le> int (ctx_messages ?c)")
      case True
      with ok have in_range: "0 \<le> pos - 1 \<and> pos - 1 < int (length (ctx_msgdisplay ?c))" by (simp add: display_ok_def)
      with run have c': "ctx w' = ?c\<lparr>ctx_displayedmsgs := (ctx_displayedmsgs ?c)(pos := message),
          ctx_msgdisplay := (ctx_msgdisplay ?c)[nat (pos - 1) := message \<noteq> []]\<rparr>"
        by (auto simp: set_display_bit_def world_run)
      have "nat (i - 1) = nat (pos - 1) \<longleftrightarrow> i = pos" if "1 \<le> i" for i using that True by auto
      with ok c' in_range assms show ?thesis
        by (auto simp: display_ok_def nth_list_update)
    next
      case False
      then have "\<not> (0 \<le> pos - 1 \<and> pos - 1 < int (length (ctx_msgdisplay ?c)))"
        using ok by (auto simp: display_ok_def)
      with run have "ctx w' = ?c\<lparr>ctx_displayedmsgs := (ctx_displayedmsgs ?c)(pos := message)\<rparr>"
        by (auto simp: set_display_bit_def world_run)
      with ok False show ?thesis by (auto simp: display_ok_def)
    qed
  qed
qed

interpretation dx_frame: iDriver driver_frame "Driver_Init sys" "Driver_Fini sys" "Driver_setMessage sys L" Driver_StartUp
  by unfold_locales (intro frame.Init_R frame.Fini_R frame.StartUp_R frame.setMessage_R set_slot_frame)+

interpretation dx_disp: iDriver display_kept "Driver_Init sys" "Driver_Fini sys" "Driver_setMessage sys L" Driver_StartUp
  by unfold_locales (intro disp.Init_R disp.Fini_R disp.StartUp_R disp.setMessage_R set_slot_display; assumption)+

text \<open>The driver leaves the mutex of the context to its callers.\<close>

definition mutex_kept :: "world \<Rightarrow> world \<Rightarrow> bool" where
  "mutex_kept w w' \<longleftrightarrow> io_mutex w' = io_mutex w"

interpretation mutex: port_order mutex_kept
  by unfold_locales (auto simp: mutex_kept_def)

lemma set_slot_mutex: "obeys mutex_kept (set_slot pos message v)"
  by (rule obeysI) (auto simp: set_slot_def set_display_bit_def mutex_kept_def world_run split: if_splits)

interpretation dx_mutex: iDriver mutex_kept "Driver_Init sys" "Driver_Fini sys" "Driver_setMessage sys L" Driver_StartUp
  by unfold_locales (intro mutex.Init_R mutex.Fini_R mutex.StartUp_R mutex.setMessage_R set_slot_mutex)+

lemma drive_mutex: "obeys mutex_kept (drive sys L p t)"
  unfolding drive_def by (rule dx_mutex.show_message_R)

end
