(* ===== verification/DriverWire.thy ===== *)
theory DriverWire
  imports DriverFacts
begin

text \<open>
  The bytes of a session with the display. When every call of the system succeeds and is fast
  against the timeout of the port, each operation of the port and of the driver runs to its end and
  sends exactly what it should; the triples \<open>does\<close> (on a port) and \<open>wdoes\<close> (on the world) say so and
  compose along the code.
\<close>

section \<open>A system in which everything works\<close>

text \<open>
  Every call succeeds, transfers everything it is asked to, and takes at most two milliseconds.
\<close>

definition works :: "os \<Rightarrow> bool" where
  "works sys \<longleftrightarrow> 0 < patience sys \<and> mutex_ok sys \<and>
     (\<forall>t c. ret_val (answer sys t c) \<noteq> - 1) \<and>
     (\<forall>t fd. ret_val (answer sys t (Close fd)) = 0) \<and>
     (\<forall>t fd ts. 0 < ret_val (answer sys t (SelectWrite fd ts)) \<and> fd_is_set (answer sys t (SelectWrite fd ts))) \<and>
     (\<forall>t fd bs. ret_val (answer sys t (Write fd bs)) = int (length bs)) \<and>
     (\<forall>t fd n. 0 \<le> ret_val (answer sys t (Read fd n)) \<and> length (rdata (answer sys t (Read fd n))) = n) \<and>
     (\<forall>t. 0 \<le> snd (tspec (answer sys t ClockGettime)) \<and> snd (tspec (answer sys t ClockGettime)) < 10 ^ 9) \<and>
     (\<forall>t e. nanos (tspec (answer sys (t @ [e]) ClockGettime)) \<le> nanos (tspec (answer sys t ClockGettime)) + 2 * 10 ^ 6)"

lemma worksD:
  assumes "works sys"
  shows "mutex_ok sys" "0 < patience sys" "ret_val (answer sys t c) \<noteq> - 1" "ret_val (answer sys t (Close fd)) = 0"
    "0 < ret_val (answer sys t (SelectWrite fd ts))" "fd_is_set (answer sys t (SelectWrite fd ts))"
    "ret_val (answer sys t (Write fd bs)) = int (length bs)" "0 \<le> ret_val (answer sys t (Read fd n))"
    "length (rdata (answer sys t (Read fd n))) = n"
  using assms unfolding works_def by blast+

lemma demo_works: "works demo_os"
  unfolding works_def
proof (intro conjI allI)
  show "mutex_ok demo_os" by (rule demo_mutex_ok)
  fix t e c
  show "nanos (tspec (answer demo_os (t @ [e]) ClockGettime)) \<le> nanos (tspec (answer demo_os t ClockGettime)) + 2 * 10 ^ 6"
    using demo_nanos [of t] demo_nanos [of "t @ [e]"] by (cases e) simp
  show "ret_val (answer demo_os t c) \<noteq> - 1" by (cases c) simp_all
  show "0 \<le> snd (tspec (answer demo_os t ClockGettime))" "snd (tspec (answer demo_os t ClockGettime)) < 10 ^ 9"
    using demo_clock_advances unfolding clock_advances_def by blast+
qed simp_all

section \<open>The port\<close>

definition line_pars :: "Timeout \<Rightarrow> serial_impl \<Rightarrow> bool" where
  "line_pars tmo s \<longleftrightarrow> ser_timeout s = tmo \<and> ser_baudrate s = 38400 \<and> ser_bytesize s = eightbits \<and>
     ser_parity s = parity_none \<and> ser_stopbits s = stopbits_one \<and> ser_port s \<noteq> []"

abbreviation line_params :: "serial_impl \<Rightarrow> bool" where
  "line_params \<equiv> line_pars (simpleTimeout 10)"

definition port_ready :: "serial_impl \<Rightarrow> bool" where
  "port_ready s \<longleftrightarrow> ser_is_open s \<and> ser_fd s \<noteq> - 1 \<and> line_params s"

definition port_idle :: "serial_impl \<Rightarrow> bool" where
  "port_idle s \<longleftrightarrow> \<not> ser_is_open s \<and> ser_fd s = - 1 \<and> line_params s"

text \<open>
  Started in \<open>P\<close>, the operation returns a value in \<open>V\<close>, ends in \<open>Q\<close> and sends \<open>bs\<close>.
\<close>

definition does :: "(serial_impl \<Rightarrow> bool) \<Rightarrow> (serial_impl \<Rightarrow> bool) \<Rightarrow> 'a ser \<Rightarrow> u8 list \<Rightarrow> ('a \<Rightarrow> bool) \<Rightarrow> bool" where
  "does P Q m bs V \<longleftrightarrow> (\<forall>s t. P s \<longrightarrow>
     (\<exists>x s' t'. m (s, t) = (Inr x, (s', t')) \<and> V x \<and> Q s' \<and> sent t' = sent t @ bs))"

lemma doesI:
  "(\<And>s t. P s \<Longrightarrow> \<exists>x s' t'. m (s, t) = (Inr x, (s', t')) \<and> V x \<and> Q s' \<and> sent t' = sent t @ bs) \<Longrightarrow> does P Q m bs V"
  by (simp add: does_def)

lemma does_bindE:
  assumes "does P Q m bs V" and "\<And>x. V x \<Longrightarrow> does Q R (k x) cs U"
  shows "does P R (bindE m k) (bs @ cs) U"
proof (rule doesI)
  fix s t
  assume "P s"
  then obtain x s1 t1 where 1: "m (s, t) = (Inr x, (s1, t1))" "V x" "Q s1" "sent t1 = sent t @ bs"
    using assms(1) by (fastforce simp: does_def)
  then obtain y s2 t2 where "k x (s1, t1) = (Inr y, (s2, t2))" "U y" "R s2" "sent t2 = sent t1 @ cs"
    using assms(2) by (fastforce simp: does_def)
  with 1 show "\<exists>x s' t'. bindE m k (s, t) = (Inr x, (s', t')) \<and> U x \<and> R s' \<and> sent t' = sent t @ bs @ cs"
    by (simp add: bindE_Inr)
qed

lemma does_ret: "V x \<Longrightarrow> does P P (ret x) [] V"
  by (simp add: does_def)

lemma does_void: "does P Q m bs V \<Longrightarrow> does P Q (bindE m (\<lambda>_. ret x)) bs (\<lambda>y. y = x)"
  using does_bindE [of P Q m bs V Q "\<lambda>_. ret x" "[]"] does_ret [of "\<lambda>y. y = x" x Q] by simp

lemma does_scoped:
  assumes "works sys" and "does P Q m bs V"
  shows "does P Q (ScopedReadLock sys m) bs V" and "does P Q (ScopedWriteLock sys m) bs V"
proof -
  have "does P Q (seqE (mutex_call sys (MutexLock k)) (finallyE m (mutex_call sys (MutexUnlock k)))) bs V" for k
  proof (rule doesI)
    fix s t
    assume "P s"
    with assms(2) obtain x s' t' where
      "m (s, t @ [(MutexLock k, answer sys t (MutexLock k))]) = (Inr x, (s', t'))" "V x" "Q s'" "sent t' = sent t @ bs"
      by (fastforce simp: does_def)
    with worksD(1) [OF assms(1)]
    show "\<exists>x s' t'. seqE (mutex_call sys (MutexLock k)) (finallyE m (mutex_call sys (MutexUnlock k))) (s, t) = (Inr x, (s', t'))
        \<and> V x \<and> Q s' \<and> sent t' = sent t @ bs"
      by (auto simp: seqE_def bindE_def finallyE_def mutex_call_run mutex_ok_def)
  qed
  then show "does P Q (ScopedReadLock sys m) bs V" "does P Q (ScopedWriteLock sys m) bs V"
    by (simp_all add: ScopedReadLock_def ScopedWriteLock_def readLock_def readUnlock_def writeLock_def writeUnlock_def)
qed

section \<open>The operations of the port\<close>

lemma remaining_ms_ge: "10 ^ 6 \<le> nanos e - nanos now \<Longrightarrow> 0 < remaining_ms e now"
proof -
  assume "10 ^ 6 \<le> nanos e - nanos now"
  moreover have "(fst e - fst now) * 10 ^ 9 + (snd e - snd now) = nanos e - nanos now"
    by (simp add: nanos_def algebra_simps)
  ultimately show ?thesis by (simp add: remaining_ms_def trunc_div_def pos_imp_zdiv_pos_iff)
qed

lemma total_10: "total_timeout_ms 10 0 n = 10"
  by (simp add: total_timeout_ms_def)

lemma simpleTimeout_10 [simp]:
  "write_timeout_constant (simpleTimeout 10) = 10" "write_timeout_multiplier (simpleTimeout 10) = 0"
  "read_timeout_constant (simpleTimeout 10) = 10" "read_timeout_multiplier (simpleTimeout 10) = 0"
  by (simp_all add: simpleTimeout_def)

lemma timer_10:
  assumes "works sys"
  obtains e where "timer_expiry (tspec (answer sys t ClockGettime)) 10 = Inr e"
    and "nanos e = nanos (tspec (answer sys t ClockGettime)) + 10 ^ 7"
proof -
  let ?now = "tspec (answer sys t ClockGettime)"
  have "0 \<le> snd ?now" "snd ?now < 10 ^ 9" using assms by (simp_all add: works_def)
  then obtain e where e: "timer_expiry ?now 10 = Inr e" using timer_expiry_short [of ?now 10] by auto
  with timer_expiry_nanos [OF e] that show thesis by simp
qed

lemma write_does:
  assumes ok: "works sys" and "data \<noteq> []"
  shows "does port_ready port_ready (serial_write sys data) data (\<lambda>n. n = length data)"
  unfolding serial_write_def serial_write1_def
proof (rule does_scoped(2) [OF ok], rule doesI)
  fix s t
  assume s: "port_ready s"
  obtain e where e: "timer_expiry (tspec (answer sys t ClockGettime)) 10 = Inr e"
      "nanos e = nanos (tspec (answer sys t ClockGettime)) + 10 ^ 7"
    using timer_10 [OF ok] by blast
  let ?t1 = "t @ [(ClockGettime, answer sys t ClockGettime)]"
  have "nanos (tspec (answer sys ?t1 ClockGettime)) \<le> nanos (tspec (answer sys t ClockGettime)) + 2 * 10 ^ 6"
    using ok by (simp add: works_def)
  with e(2) have pos: "\<not> remaining_ms e (tspec (answer sys ?t1 ClockGettime)) \<le> 0"
    using remaining_ms_ge [of e "tspec (answer sys ?t1 ClockGettime)"] by simp
  obtain n where n: "patience sys = Suc n" using worksD(2) [OF ok] by (cases "patience sys") auto
  have sel: "\<not> ret_val (answer sys u (SelectWrite fd ts)) < 0" "ret_val (answer sys u (SelectWrite fd ts)) \<noteq> 0"
    "fd_is_set (answer sys u (SelectWrite fd ts))" for u fd ts
    using worksD(5,6) [OF ok, of u fd ts] by auto
  have wr: "ret_val (answer sys u (Write fd data)) = int (length data)" "\<not> int (length data) < 1" for u fd
    using worksD(7) [OF ok] assms(2) by (auto simp: Suc_le_eq)
  have "\<exists>t2. impl_write sys data (s, t) = (Inr (length data), (s, t @ t2)) \<and> sent t2 = data"
    using s e(1) pos sel wr assms(2)
    by (simp add: impl_write_def new_timer_run ser_run port_ready_def line_pars_def total_10 n remaining_def Let_def)
  with s show "\<exists>x s' t'. impl_write sys data (s, t) = (Inr x, (s', t')) \<and> x = length data \<and> port_ready s' \<and> sent t' = sent t @ data"
    by auto
qed

lemma read_does:
  assumes ok: "works sys"
  shows "does port_ready port_ready (serial_read_string sys 1) [] (\<lambda>bs. length bs = 1)"
proof -
  have "does port_ready port_ready (impl_read sys 1) [] (\<lambda>bs. length bs = 1)"
  proof (rule doesI)
    fix s t
    assume s: "port_ready s"
    obtain e where e: "timer_expiry (tspec (answer sys t ClockGettime)) 10 = Inr e" using timer_10 [OF ok] by blast
    obtain n where n: "patience sys = Suc n" using worksD(2) [OF ok] by (cases "patience sys") auto
    let ?r = "answer sys (t @ [(ClockGettime, answer sys t ClockGettime)]) (Read (ser_fd s) 1)"
    have "read_count ?r = 1" "length (rdata ?r) = 1" using worksD(8,9) [OF ok] by (simp_all add: read_count_def not_less)
    then have "\<exists>u. impl_read sys 1 (s, t) = (Inr (rdata ?r), (s, t @ u)) \<and> sent u = []"
      using s impl_read_start [OF _ _ refl refl refl, of s sys t 1 e] e
      by (simp add: port_ready_def line_pars_def total_10 n)
    with s \<open>length (rdata ?r) = 1\<close>
    show "\<exists>x s' t'. impl_read sys 1 (s, t) = (Inr x, (s', t')) \<and> length x = 1 \<and> port_ready s' \<and> sent t' = sent t @ []"
      by auto
  qed
  then have "does port_ready port_ready (bindE (impl_read sys 1) (\<lambda>bs. ret ([] @ bs, length bs))) ([] @ [])
      (\<lambda>(bs, n). length bs = 1)"
    by (rule does_bindE) (simp add: does_ret)
  then have "does port_ready port_ready (serial_read_append sys [] 1) [] (\<lambda>(bs, n). length bs = 1)"
    unfolding serial_read_append_def using does_scoped(1) [OF ok] by simp
  then have "does port_ready port_ready (serial_read_string sys 1) ([] @ []) (\<lambda>bs. length bs = 1)"
    unfolding serial_read_string_def by (rule does_bindE) (auto simp: does_ret)
  then show ?thesis by simp
qed


lemma on_open_does:
  assumes "\<And>fd s t. \<exists>t'. body fd (s, t) = (Inr x, (s, t')) \<and> sent t' = sent t"
  shows "does port_ready port_ready (on_open_port who body) [] (\<lambda>_. True)"
proof (rule doesI)
  fix s t
  assume s: "port_ready s"
  from assms obtain t' where "body (ser_fd s) (s, t) = (Inr x, (s, t'))" "sent t' = sent t" by blast
  with s show "\<exists>x s' t'. on_open_port who body (s, t) = (Inr x, (s', t')) \<and> True \<and> port_ready s' \<and> sent t' = sent t @ []"
    by (auto simp: on_open_port_def bindE_def fld_def gets_def port_ready_def)
qed

lemma flush_does: "works sys \<Longrightarrow> does port_ready port_ready (serial_flush sys) [] (\<lambda>_. True)"
  unfolding serial_flush_def impl_flush_def
  by (intro does_scoped on_open_does [where x = "()"]) (auto simp: ser_run)

lemma lines_does:
  assumes "works sys"
  shows "does port_ready port_ready (serial_setRTS sys True) [] (\<lambda>_. True)"
    and "does port_ready port_ready (serial_setDTR sys True) [] (\<lambda>_. True)"
  unfolding serial_setRTS_def serial_setDTR_def impl_setRTS_def impl_setDTR_def
  by (rule on_open_does [where x = "()"]; use worksD(3) [OF assms] in \<open>auto simp: ser_run call_or_throw_def\<close>)+

text \<open>Configuring the port succeeds; only the flow-control flags and the byte time change.\<close>

lemma reconfigure_run:
  assumes ok: "works sys" and s: "line_pars tmo s" "ser_fd s \<noteq> - 1"
  shows "\<exists>bt t'. reconfigurePort sys (s, t) = (Inr (), ((setup_flow s)\<lparr>ser_byte_time_ns := bt\<rparr>, t')) \<and> sent t' = sent t"
proof -
  obtain bt where bt: "byte_time 38400 eightbits parity_none stopbits_one = Inr bt"
    by (simp add: byte_time_def Let_def)
  let ?o = "tios (answer sys t (Tcgetattr (ser_fd s)))"
  obtain o1 where o1: "setup_baud sys (ser_fd s) 38400 (raw_mode ?o) = ret o1"
    by (simp add: setup_baud_def linux_bauds_def)
  obtain o2 where o2: "setup_bytesize eightbits o1 = Inr o2" by (simp add: setup_bytesize_def Let_def)
  obtain o3 where o3: "setup_stopbits stopbits_one o2 = Inr o3" by (simp add: setup_stopbits_def)
  obtain o4 where o4: "setup_parity parity_none o3 = Inr o4" by (simp add: setup_parity_def Let_def)
  have "\<exists>t'. reconfigurePort sys (s, t) = (Inr (), ((setup_flow s)\<lparr>ser_byte_time_ns := bt\<rparr>, t')) \<and> sent t' = sent t"
    using s worksD(3) [OF ok] o1 o2 o3 o4 bt
    by (simp add: reconfigurePort_def call_or_throw_def ser_run line_pars_def)
  then show ?thesis by blast
qed


lemma line_params_flow [simp]: "line_pars tmo ((setup_flow s)\<lparr>ser_byte_time_ns := bt\<rparr>) = line_pars tmo s"
  by (simp add: line_pars_def setup_flow_def split: flowcontrol_t.split)

lemma line_params_simps [simp]:
  "line_pars tmo (s\<lparr>ser_is_open := b\<rparr>) = line_pars tmo s" "line_pars tmo (s\<lparr>ser_fd := fd\<rparr>) = line_pars tmo s"
  "line_pars tmo (s\<lparr>ser_flowcontrol := fc\<rparr>) = line_pars tmo s"
  by (simp_all add: line_pars_def)

lemma setFlowcontrol_does:
  assumes "works sys"
  shows "does port_ready port_ready (serial_setFlowcontrol sys fc) [] (\<lambda>_. True)"
proof (rule doesI)
  fix s t
  assume s: "port_ready s"
  let ?s = "s\<lparr>ser_flowcontrol := fc\<rparr>"
  from s obtain bt t' where rc: "reconfigurePort sys (?s, t) = (Inr (), ((setup_flow ?s)\<lparr>ser_byte_time_ns := bt\<rparr>, t'))"
      "sent t' = sent t"
    using reconfigure_run [OF assms, where s = ?s and t = t and tmo = "simpleTimeout 10"] by (auto simp: port_ready_def)
  from s have op: "ser_is_open s" by (simp add: port_ready_def)
  have "serial_setFlowcontrol sys fc (s, t) = reconfigurePort sys (?s, t)"
    by (simp add: serial_setFlowcontrol_def impl_setFlowcontrol_def reconfigure_if_open_def upd_def fld_def op)
  moreover have "port_ready ((setup_flow ?s)\<lparr>ser_byte_time_ns := bt\<rparr>)" using s by (simp add: port_ready_def)
  ultimately show "\<exists>x s' t'. serial_setFlowcontrol sys fc (s, t) = (Inr x, (s', t')) \<and> True \<and> port_ready s' \<and> sent t' = sent t @ []"
    using rc by simp
qed

lemma bindE_call: "bindE (call sys c) k (s, t) = k (answer sys t c) (s, t @ [(c, answer sys t c)])"
  by (simp add: bindE_def call_def)

lemma open_run:
  assumes ok: "works sys" and "\<not> ser_is_open s" and "ser_port s \<noteq> []"
    and "line_pars tmo s"
  shows "\<exists>s' t'. impl_open sys (s, t) = (Inr (), (s', t')) \<and> ser_is_open s' \<and> ser_fd s' \<noteq> - 1 \<and> line_pars tmo s' \<and> sent t' = sent t"
proof -
  obtain n where n: "patience sys = Suc n" using worksD(2) [OF ok] by (cases "patience sys") auto
  let ?r = "answer sys t (Open (ser_port s))"
  let ?s = "s\<lparr>ser_fd := ret_val ?r\<rparr>" and ?t = "t @ [(Open (ser_port s), ?r)]"
  have r: "ret_val ?r \<noteq> - 1" by (rule worksD(3) [OF ok])
  then obtain bt t' where rc: "reconfigurePort sys (?s, ?t) = (Inr (), ((setup_flow ?s)\<lparr>ser_byte_time_ns := bt\<rparr>, t'))"
      "sent t' = sent ?t"
    using reconfigure_run [OF ok, where s = ?s and t = ?t and tmo = tmo] assms(4) by auto
  have "impl_open sys (s, t) = seqE (reconfigurePort sys) (upd (\<lambda>s. s\<lparr>ser_is_open := True\<rparr>)) (?s, ?t)"
    using assms(2,3) r
    by (simp add: impl_open_def n fld_def upd_def bindE_call)
  also have "\<dots> = (Inr (), ((setup_flow ?s)\<lparr>ser_byte_time_ns := bt, ser_is_open := True\<rparr>, t'))"
    using rc(1) by (simp add: seqE_Inr upd_def)
  finally have run: "impl_open sys (s, t) = (Inr (), ((setup_flow ?s)\<lparr>ser_byte_time_ns := bt, ser_is_open := True\<rparr>, t'))" .
  have "line_pars tmo (((setup_flow ?s)\<lparr>ser_byte_time_ns := bt\<rparr>)\<lparr>ser_is_open := True\<rparr>)"
    using assms(4) by (simp only: line_params_simps line_params_flow)
  with r run rc(2) show ?thesis by simp
qed

lemma open_does: "works sys \<Longrightarrow> does port_idle port_ready (serial_open sys) [] (\<lambda>_. True)"
  unfolding serial_open_def
  by (rule doesI) (use open_run [where tmo = "simpleTimeout 10"] in \<open>fastforce simp: port_idle_def port_ready_def line_pars_def\<close>)

lemma close_does: "works sys \<Longrightarrow> does port_ready port_idle (serial_close sys) [] (\<lambda>_. True)"
  unfolding serial_close_def
  by (rule doesI) (auto simp: port_ready_def port_idle_def impl_close_run worksD(4))

end
