(* ===== verification/CliCore.thy ===== *)
theory CliCore
  imports CText
begin

text \<open>
  The command-line library the daemon's terminal sessions run on, \<^verbatim>\<open>src/src/libcli/libcli.c\<close>: its
  data, the session state, output with its filters, users, privileges, modes, and the tree of
  commands. The library is linked into the daemon; every function its clients register is named
  by a text, and the record \<open>client\<close> gives the meaning of the names.
\<close>

section \<open>Constants and data\<close>

abbreviation (input) CLI_OK :: int where "CLI_OK \<equiv> 0"
abbreviation (input) CLI_ERROR :: int where "CLI_ERROR \<equiv> - 1"
abbreviation (input) CLI_QUIT :: int where "CLI_QUIT \<equiv> - 2"
abbreviation (input) CLI_ERROR_ARG :: int where "CLI_ERROR_ARG \<equiv> - 3"
abbreviation (input) PRIVILEGE_UNPRIVILEGED :: int where "PRIVILEGE_UNPRIVILEGED \<equiv> 0"
abbreviation (input) PRIVILEGE_PRIVILEGED :: int where "PRIVILEGE_PRIVILEGED \<equiv> 15"
abbreviation (input) MODE_ANY :: int where "MODE_ANY \<equiv> - 1"
abbreviation (input) MODE_EXEC :: int where "MODE_EXEC \<equiv> 0"
abbreviation (input) MODE_CONFIG :: int where "MODE_CONFIG \<equiv> 1"

definition MAX_HISTORY :: nat where "MAX_HISTORY = 256"
definition CLI_MAX_LINE_LENGTH :: nat where "CLI_MAX_LINE_LENGTH = 4096"
definition CLI_MAX_LINE_WORDS :: nat where "CLI_MAX_LINE_WORDS = 128"

datatype cli_state =
  STATE_LOGIN | STATE_PASSWORD | STATE_NORMAL | STATE_ENABLE_PASSWORD | STATE_ENABLE | STATE_REQUEST

datatype hook_id =
  HOOK_HELP | HOOK_QUIT | HOOK_LOGOUT | HOOK_EXIT | HOOK_HISTORY | HOOK_ENABLE | HOOK_DISABLE

text \<open>A pointer to a function: one of the library's own, or one of the client's.\<close>

datatype handler =
    cli_int_help | cli_int_quit | cli_int_exit | cli_int_history | cli_int_enable | cli_int_disable
  | cli_int_configure_terminal | cli_int_idle_timeout | client_fun string

text \<open>A command with its siblings is a list, \<open>next\<close>; the pointer \<open>parent\<close> is the path in the tree.\<close>

datatype cli_command = Command
  (cmd_name: string) (cmd_callback: "handler option") (unique_len: nat) (cmd_help: "string option")
  (cmd_privilege: int) (cmd_mode: int) (cmd_completion: "string option") (children: "cli_command list")

text \<open>The three filters with their states; a compiled expression is its text with the compiler's flags.\<close>

datatype filter_state =
    Match_string (flt_invert: bool) (flt_text: string)
  | Match_regex (flt_invert: bool) (flt_extended: bool) (flt_icase: bool) (flt_text: string)
  | Range (flt_matched: bool) (flt_from: string) (flt_to: "string option")
  | Count (flt_count: nat)

definition filter_cmds :: "(string \<times> string) list" where
  "filter_cmds =
     [(''begin'', ''Begin with lines that match''),
      (''between'', ''Between lines that match''),
      (''count'', ''Count of lines''),
      (''exclude'', ''Exclude lines that match''),
      (''include'', ''Include lines that match''),
      (''grep'', ''Include lines that match regex (options: -v, -i, -e)''),
      (''egrep'', ''Include lines that match extended regex'')]"

record cli_def =
  cl_commands :: "cli_command list"
  cl_auth_callback :: "string option"
  cl_regular_callback :: "string option"
  cl_enable_callback :: "string option"
  cl_banner :: "string option"
  cl_users :: "(string \<times> string) list"
  cl_enable_password :: "string option"
  cl_history :: "string option list"
  cl_showprompt :: bool
  cl_promptchar :: string
  cl_hostname :: "string option"
  cl_modestring :: "string option"
  cl_privilege :: int
  cl_mode :: int
  cl_state :: cli_state
  cl_filters :: "filter_state list"
  cl_client :: bool
  cl_timeout :: nat
  cl_idle_timeout :: nat
  cl_idle_callback :: "handler option"
  cl_last_action :: int
  cl_telnet_protocol :: bool
  cl_hooks :: "hook_id \<Rightarrow> string option"
  cl_completion_free :: "string option"
  cl_request_prompt :: "string option"
  cl_request_prior_state :: cli_state
  cl_request_callback :: string
  cl_request_completion :: "string option"
  cl_request_abort :: "string option"
  cl_config_mode_callback :: "string option"

text \<open>
  The local variables of \<open>cli_loop\<close>. The pointer \<open>oldcmd\<close> is null or equal to \<open>cmd\<close>, a truth value.
\<close>

record line_edit =
  cmd :: string
  len :: int
  cursor :: int
  oldcmd :: bool
  oldl :: int
  is_telnet_option :: nat
  skip_bytes :: nat
  esc :: nat
  in_history :: int
  lastchar :: char
  username :: "string option"
  password :: "string option"

text \<open>
  The state of a session: the library's record, the variables of its loop, the bytes sent to the
  client, the clock, and the world the client's functions act on.
\<close>

record 'w sess =
  cli :: cli_def
  edit :: line_edit
  screen :: string
  clock :: int
  cworld :: 'w

type_synonym ('w, 'a) cliprog = "('w sess, 'a) prog"

text \<open>
  The regular expressions of the C library: whether a text compiles, and whether it matches, for the
  flags \<open>REG_EXTENDED\<close> and \<open>REG_ICASE\<close>; and the functions the client has registered.
\<close>

record regex =
  regcomp :: "bool \<Rightarrow> bool \<Rightarrow> string \<Rightarrow> bool"
  regexec :: "bool \<Rightarrow> bool \<Rightarrow> string \<Rightarrow> string \<Rightarrow> bool"

record 'w client =
  rx :: regex
  on_command :: "string \<Rightarrow> string \<Rightarrow> string list \<Rightarrow> int \<Rightarrow> ('w, int) cliprog"
  on_auth :: "string \<Rightarrow> string \<Rightarrow> string \<Rightarrow> ('w, int) cliprog"
  on_enable :: "string \<Rightarrow> string \<Rightarrow> ('w, int) cliprog"
  on_call :: "string \<Rightarrow> ('w, int) cliprog"
  on_request :: "string \<Rightarrow> string \<Rightarrow> ('w, int) cliprog"
  on_complete :: "string \<Rightarrow> string \<Rightarrow> string list \<Rightarrow> ('w, string list) cliprog"
  crypt :: "string \<Rightarrow> string \<Rightarrow> string"

definition clif :: "(cli_def \<Rightarrow> 'a) \<Rightarrow> ('w, 'a) cliprog" where
  "clif f = gets (\<lambda>s. f (cli s))"

definition upd_cli :: "(cli_def \<Rightarrow> cli_def) \<Rightarrow> ('w, unit) cliprog" where
  "upd_cli f = modify (\<lambda>s. s\<lparr>cli := f (cli s)\<rparr>)"

definition edf :: "(line_edit \<Rightarrow> 'a) \<Rightarrow> ('w, 'a) cliprog" where
  "edf f = gets (\<lambda>s. f (edit s))"

definition upd_ed :: "(line_edit \<Rightarrow> line_edit) \<Rightarrow> ('w, unit) cliprog" where
  "upd_ed f = modify (\<lambda>s. s\<lparr>edit := f (edit s)\<rparr>)"

definition put :: "string \<Rightarrow> ('w, unit) cliprog" where
  "put txt = modify (\<lambda>s. s\<lparr>screen := screen s @ txt\<rparr>)"

definition crlf :: string where
  "crlf = [CHR 0x0D, CHR 0x0A]"

section \<open>Comparing without case\<close>

definition lower :: "char \<Rightarrow> char" where
  "lower c = (if 65 \<le> (of_char c :: nat) \<and> (of_char c :: nat) \<le> 90 then char_of ((of_char c :: nat) + 32) else c)"

definition strcasecmp_eq :: "string \<Rightarrow> string \<Rightarrow> bool" where
  "strcasecmp_eq a b \<longleftrightarrow> map lower a = map lower b"

text \<open>\<open>0 == strncasecmp(a, b, n)\<close>\<close>

definition strncasecmp_eq :: "string \<Rightarrow> string \<Rightarrow> nat \<Rightarrow> bool" where
  "strncasecmp_eq a b n \<longleftrightarrow> map lower (take n a) = map lower (take n b)"

section \<open>Filters and output\<close>

text \<open>A filter called with a line: whether the line passes, and the filter's new state.\<close>

fun cli_match_filter :: "regex \<Rightarrow> filter_state \<Rightarrow> string \<Rightarrow> bool" where
  "cli_match_filter X (Match_string neg txt) line = (contains line txt \<noteq> neg)"
| "cli_match_filter X (Match_regex neg ext ic txt) line = (regexec X ext ic txt line \<noteq> neg)"
| "cli_match_filter X _ line = False"

fun cli_range_filter :: "filter_state \<Rightarrow> string \<Rightarrow> bool \<times> filter_state" where
  "cli_range_filter (Range matched frm to) line =
     (let matched' = (if matched then True else contains line frm)
      in if matched' then (True, Range (case to of None \<Rightarrow> True | Some t \<Rightarrow> \<not> contains line t) frm to)
         else (False, Range False frm to))"
| "cli_range_filter f line = (False, f)"

fun cli_count_filter :: "filter_state \<Rightarrow> string \<Rightarrow> bool \<times> filter_state" where
  "cli_count_filter (Count n) line = (False, Count (if dropWhile is_space line = [] then n else Suc n))"
| "cli_count_filter f line = (False, f)"

definition run_filter :: "regex \<Rightarrow> filter_state \<Rightarrow> string \<Rightarrow> bool \<times> filter_state" where
  "run_filter X f line = (case f of
      Range _ _ _ \<Rightarrow> cli_range_filter f line
    | Count _ \<Rightarrow> cli_count_filter f line
    | _ \<Rightarrow> (cli_match_filter X f line, f))"

fun run_filters :: "regex \<Rightarrow> filter_state list \<Rightarrow> string \<Rightarrow> bool \<times> filter_state list" where
  "run_filters X [] line = (True, [])"
| "run_filters X (f # fs) line = (case run_filter X f line of
      (True, f') \<Rightarrow> (case run_filters X fs line of (b, fs') \<Rightarrow> (b, f' # fs'))
    | (False, f') \<Rightarrow> (False, f' # fs))"

text \<open>\<open>fprintf(cli->client, ...)\<close> on the unbuffered stream.\<close>

definition fprintf_client :: "string \<Rightarrow> ('w, unit) cliprog" where
  "fprintf_client txt = bindE (clif cl_client) (\<lambda>c. whenE c (put txt))"

fun split_lines :: "string \<Rightarrow> string list" where
  "split_lines [] = [[]]"
| "split_lines (c # cs) = (if c = CHR 0x0A then [] # split_lines cs
     else (case split_lines cs of [] \<Rightarrow> [[c]] | l # ls \<Rightarrow> (c # l) # ls))"

definition print_line :: "regex \<Rightarrow> bool \<Rightarrow> string \<Rightarrow> ('w, unit) cliprog" where
  "print_line X filtered line =
     bindE (clif cl_filters) (\<lambda>fs.
     case (if filtered then run_filters X fs line else (True, fs)) of
       (pass, fs') \<Rightarrow> seqE (upd_cli (\<lambda>c. c\<lparr>cl_filters := fs'\<rparr>)) (whenE pass (fprintf_client (line @ crlf))))"

fun print_lines :: "regex \<Rightarrow> bool \<Rightarrow> string list \<Rightarrow> ('w, unit) cliprog" where
  "print_lines X filtered [] = ret ()"
| "print_lines X filtered (l # ls) = seqE (print_line X filtered l) (print_lines X filtered ls)"

text \<open>
  \<open>_print\<close> for the modes without \<open>PRINT_BUFFERED\<close>, on the formatted text. The buffer it formats into
  grows with the text.
\<close>

definition cli_print :: "regex \<Rightarrow> string \<Rightarrow> ('w, unit) cliprog" where
  "cli_print X txt = print_lines X True (split_lines txt)"

definition cli_error :: "regex \<Rightarrow> string \<Rightarrow> ('w, unit) cliprog" where
  "cli_error X txt = print_lines X False (split_lines txt)"

text \<open>\<open>PRINT_BUFFERED\<close>: the text behind the last newline is not printed.\<close>

definition cli_bufprint :: "regex \<Rightarrow> string \<Rightarrow> ('w, unit) cliprog" where
  "cli_bufprint X txt = print_lines X True (butlast (split_lines txt))"

section \<open>Users, passwords, callbacks\<close>

definition cli_set_auth_callback :: "string \<Rightarrow> ('w, unit) cliprog" where
  "cli_set_auth_callback f = upd_cli (\<lambda>c. c\<lparr>cl_auth_callback := Some f\<rparr>)"

definition cli_set_enable_callback :: "string \<Rightarrow> ('w, unit) cliprog" where
  "cli_set_enable_callback f = upd_cli (\<lambda>c. c\<lparr>cl_enable_callback := Some f\<rparr>)"

definition cli_allow_user :: "string \<Rightarrow> string \<Rightarrow> ('w, unit) cliprog" where
  "cli_allow_user name pass = upd_cli (\<lambda>c. c\<lparr>cl_users := cl_users c @ [(name, pass)]\<rparr>)"

definition cli_allow_enable :: "string \<Rightarrow> ('w, unit) cliprog" where
  "cli_allow_enable pass = upd_cli (\<lambda>c. c\<lparr>cl_enable_password := Some pass\<rparr>)"

fun deny_user :: "string \<Rightarrow> (string \<times> string) list \<Rightarrow> (string \<times> string) list" where
  "deny_user name [] = []"
| "deny_user name (u # us) = (if name = fst u then us else u # deny_user name us)"

definition cli_deny_user :: "string \<Rightarrow> ('w, unit) cliprog" where
  "cli_deny_user name = upd_cli (\<lambda>c. c\<lparr>cl_users := deny_user name (cl_users c)\<rparr>)"

definition opt_text :: "string \<Rightarrow> string option" where
  "opt_text s = (if s = [] then None else Some s)"

definition cli_set_banner :: "string \<Rightarrow> ('w, unit) cliprog" where
  "cli_set_banner s = upd_cli (\<lambda>c. c\<lparr>cl_banner := opt_text s\<rparr>)"

definition cli_set_hostname :: "string \<Rightarrow> ('w, unit) cliprog" where
  "cli_set_hostname s = upd_cli (\<lambda>c. c\<lparr>cl_hostname := opt_text s\<rparr>)"

definition cli_set_promptchar :: "string \<Rightarrow> ('w, unit) cliprog" where
  "cli_set_promptchar s = upd_cli (\<lambda>c. c\<lparr>cl_promptchar := s\<rparr>)"

definition cli_set_idle_timeout :: "nat \<Rightarrow> ('w, unit) cliprog" where
  "cli_set_idle_timeout seconds = bindE (gets clock) (\<lambda>t. upd_cli (\<lambda>c. c\<lparr>cl_idle_timeout := seconds, cl_last_action := t\<rparr>))"

definition cli_set_idle_timeout_callback :: "nat \<Rightarrow> handler \<Rightarrow> ('w, unit) cliprog" where
  "cli_set_idle_timeout_callback seconds f =
     seqE (cli_set_idle_timeout seconds) (upd_cli (\<lambda>c. c\<lparr>cl_idle_callback := Some f\<rparr>))"

definition cli_telnet_protocol :: "bool \<Rightarrow> ('w, unit) cliprog" where
  "cli_telnet_protocol b = upd_cli (\<lambda>c. c\<lparr>cl_telnet_protocol := b\<rparr>)"

definition cli_reprompt :: "('w, unit) cliprog" where
  "cli_reprompt = upd_cli (\<lambda>c. c\<lparr>cl_showprompt := True\<rparr>)"

definition cli_regular :: "string \<Rightarrow> ('w, unit) cliprog" where
  "cli_regular f = upd_cli (\<lambda>c. c\<lparr>cl_regular_callback := Some f\<rparr>)"

definition cli_regular_interval :: "int \<Rightarrow> ('w, unit) cliprog" where
  "cli_regular_interval seconds = upd_cli (\<lambda>c. c\<lparr>cl_timeout := nat (if seconds < 1 then 1 else seconds)\<rparr>)"

definition cli_register_hook :: "string \<Rightarrow> string \<Rightarrow> ('w, int) cliprog" where
  "cli_register_hook command f =
     (case (map_of [(''help'', HOOK_HELP), (''quit'', HOOK_QUIT), (''logout'', HOOK_LOGOUT), (''exit'', HOOK_EXIT),
              (''history'', HOOK_HISTORY), (''enable'', HOOK_ENABLE), (''disable'', HOOK_DISABLE)] command) of
        None \<Rightarrow> ret (- 1)
      | Some h \<Rightarrow> seqE (upd_cli (\<lambda>c. c\<lparr>cl_hooks := (cl_hooks c)(h := Some f)\<rparr>)) (ret 0))"

definition cli_register_completion_free :: "string \<Rightarrow> ('w, unit) cliprog" where
  "cli_register_completion_free f = upd_cli (\<lambda>c. c\<lparr>cl_completion_free := Some f\<rparr>)"

definition cli_register_configmode_cb :: "string \<Rightarrow> ('w, unit) cliprog" where
  "cli_register_configmode_cb f = upd_cli (\<lambda>c. c\<lparr>cl_config_mode_callback := Some f\<rparr>)"

definition cli_request :: "string option \<Rightarrow> string option \<Rightarrow> string option \<Rightarrow> string \<Rightarrow> ('w, int) cliprog" where
  "cli_request callback completion_cb abort_cb prompt =
     bindE (clif cl_state) (\<lambda>st.
     if st = STATE_REQUEST then ret CLI_ERROR
     else (case callback of
         None \<Rightarrow> ret CLI_ERROR
       | Some f \<Rightarrow> seqE (upd_cli (\<lambda>c. c\<lparr>cl_request_callback := f, cl_request_completion := completion_cb,
             cl_request_abort := abort_cb, cl_request_prior_state := st, cl_state := STATE_REQUEST,
             cl_request_prompt := Some (take 1023 prompt)\<rparr>)) (ret CLI_OK)))"

section \<open>Shortest unique prefixes\<close>

fun prefix_len :: "string \<Rightarrow> string \<Rightarrow> nat" where
  "prefix_len (a # as) (b # bs) = (if a = b then Suc (prefix_len as bs) else 0)"
| "prefix_len _ _ = 0"

text \<open>A command the session cannot see in its mode, or has no privilege for.\<close>

definition hidden :: "cli_def \<Rightarrow> cli_command \<Rightarrow> bool" where
  "hidden s c \<longleftrightarrow> (cmd_mode c \<noteq> MODE_ANY \<and> cmd_mode c \<noteq> cl_mode s) \<or> cl_privilege s < cmd_privilege c"

fun shortest_loop :: "cli_def \<Rightarrow> cli_command \<Rightarrow> nat \<Rightarrow> nat \<Rightarrow> cli_command list \<Rightarrow> nat \<Rightarrow> nat" where
  "shortest_loop s c i j [] u = u"
| "shortest_loop s c i j (p # ps) u =
     (if i = j \<or> hidden s p then shortest_loop s c i (Suc j) ps u
      else let n = Suc (prefix_len (cmd_name c) (cmd_name p))
           in shortest_loop s c i (Suc j) ps (if n > u then n else u))"

definition shortest :: "cli_def \<Rightarrow> cli_command list \<Rightarrow> nat \<Rightarrow> cli_command \<Rightarrow> nat" where
  "shortest s cs i c = (if hidden s c then length (cmd_name c) else shortest_loop s c i 0 cs 1)"

lemma size_children: "Command n cb u h p m f ch \<in> set cs \<Longrightarrow> size_list size ch < size_list size cs"
  by (induction cs) auto

function cli_build_shortest :: "cli_def \<Rightarrow> cli_command list \<Rightarrow> cli_command list" where
  "cli_build_shortest s cs =
     map (\<lambda>(i, c). case c of Command n cb u h p m f ch \<Rightarrow>
        Command n cb (shortest s cs i c) h p m f (if hidden s c then ch else cli_build_shortest s ch))
       (zip [0..<length cs] cs)"
  by pat_completeness auto

termination
  by (relation "measure (\<lambda>(s, cs). size_list size cs)") (auto dest!: set_zip_rightD intro: size_children)

declare cli_build_shortest.simps [simp del]

text \<open>The number of commands of a tree, which the prefixes leave alone.\<close>

lemma size_children_lt [termination_simp]: "size_list size (children c) < size c"
  by (cases c) simp

fun tree_count :: "cli_command list \<Rightarrow> nat" where
  "tree_count [] = 0"
| "tree_count (c # cs) = Suc (tree_count (children c) + tree_count cs)"

lemma tree_count_sum: "tree_count cs = sum_list (map (\<lambda>c. Suc (tree_count (children c))) cs)"
  by (induction cs) simp_all

lemma tree_count_build [simp]: "tree_count (cli_build_shortest s cs) = tree_count cs"
proof (induction s cs rule: cli_build_shortest.induct)
  case (1 s cs)
  let ?f = "\<lambda>(i, c). case c of Command n cb u h p m f ch \<Rightarrow>
        Command n cb (shortest s cs i c) h p m f (if hidden s c then ch else cli_build_shortest s ch)"
  have step: "Suc (tree_count (children (?f x))) = (\<lambda>(i, c). Suc (tree_count (children c))) x" if "x \<in> set (zip [0..<length cs] cs)" for x
  proof -
    obtain i n cb u h p m f ch where x: "x = (i, Command n cb u h p m f ch)" by (metis cli_command.exhaust prod.exhaust)
    from 1 [OF that [unfolded x] refl refl] show ?thesis by (simp add: x)
  qed
  have "tree_count (cli_build_shortest s cs) = sum_list (map (\<lambda>c. Suc (tree_count (children c))) (map ?f (zip [0..<length cs] cs)))"
    by (simp only: cli_build_shortest.simps [of s cs] tree_count_sum [of "map _ _"])
  also have "\<dots> = sum_list (map (\<lambda>(i, c). Suc (tree_count (children c))) (zip [0..<length cs] cs))"
    unfolding map_map comp_def by (rule arg_cong [of _ _ sum_list], rule map_cong [OF refl step])
  also have "\<dots> = sum_list (map (\<lambda>c. Suc (tree_count (children c))) (map snd (zip [0..<length cs] cs)))"
    by (simp only: map_map comp_def case_prod_unfold)
  finally show ?case by (simp add: tree_count_sum [of cs] del: map_map)
qed

definition cli_set_modestring :: "string option \<Rightarrow> ('w, unit) cliprog" where
  "cli_set_modestring m = upd_cli (\<lambda>c. c\<lparr>cl_modestring := m\<rparr>)"

definition rebuild :: "('w, unit) cliprog" where
  "rebuild = upd_cli (\<lambda>c. c\<lparr>cl_commands := cli_build_shortest c (cl_commands c)\<rparr>)"

definition cli_set_privilege :: "int \<Rightarrow> ('w, int) cliprog" where
  "cli_set_privilege priv =
     bindE (clif cl_privilege) (\<lambda>old.
     seqE (upd_cli (\<lambda>c. c\<lparr>cl_privilege := priv\<rparr>))
    (seqE (whenE (priv \<noteq> old)
            (seqE (cli_set_promptchar (if priv = PRIVILEGE_PRIVILEGED then ''# '' else ''> '')) rebuild))
     (ret old)))"

text \<open>\<open>snprintf\<close> cuts the mode string to 63 characters.\<close>

definition cli_set_configmode :: "int \<Rightarrow> string option \<Rightarrow> ('w, int) cliprog" where
  "cli_set_configmode mode desc =
     bindE (clif cl_mode) (\<lambda>old.
     seqE (upd_cli (\<lambda>c. c\<lparr>cl_mode := mode\<rparr>))
    (seqE (whenE (mode \<noteq> old)
            (seqE (if mode = 0 then cli_set_modestring None
                   else (case desc of
                       Some (d # ds) \<Rightarrow> cli_set_modestring (Some (take 63 (''(config-'' @ d # ds @ '')'')))
                     | _ \<Rightarrow> cli_set_modestring (Some ''(config)'')))
              rebuild))
     (ret old)))"

section \<open>The tree of commands\<close>

text \<open>
  A pointer to a command is its path: the position among its siblings at every level. A new
  command goes behind its siblings.
\<close>

fun add_command :: "nat list \<Rightarrow> cli_command \<Rightarrow> cli_command list \<Rightarrow> cli_command list" where
  "add_command [] c cs = cs @ [c]"
| "add_command (i # is) c cs =
     (if i < length cs then (case cs ! i of Command n cb u h p m f ch \<Rightarrow>
        cs[i := Command n cb u h p m f (add_command is c ch)]) else cs)"

fun siblings :: "nat list \<Rightarrow> cli_command list \<Rightarrow> cli_command list" where
  "siblings [] cs = cs"
| "siblings (i # is) cs = (if i < length cs then siblings is (children (cs ! i)) else [])"

definition cli_register_command ::
  "nat list \<Rightarrow> string \<Rightarrow> handler option \<Rightarrow> int \<Rightarrow> int \<Rightarrow> string option \<Rightarrow> ('w, nat list) cliprog" where
  "cli_register_command parent command callback privilege mode help =
     bindE (clif cl_commands) (\<lambda>cs.
     seqE (upd_cli (\<lambda>c. c\<lparr>cl_commands := add_command parent (Command command callback 0 help privilege mode None []) cs\<rparr>))
       (ret (parent @ [length (siblings parent cs)])))"

fun unregister :: "string \<Rightarrow> cli_command list \<Rightarrow> cli_command list" where
  "unregister name [] = []"
| "unregister name (c # cs) = (if cmd_name c = name then cs else c # unregister name cs)"

definition cli_unregister_command :: "string \<Rightarrow> ('w, int) cliprog" where
  "cli_unregister_command name =
     seqE (upd_cli (\<lambda>c. c\<lparr>cl_commands := unregister name (cl_commands c)\<rparr>)) (ret CLI_OK)"

text \<open>\<open>cli_command_name\<close>: the names on the path from the root, separated by blanks; \<open>par\<close> holds the
  ancestors, the nearest first.\<close>

fun name_loop :: "cli_command list \<Rightarrow> string \<Rightarrow> string" where
  "name_loop [] name = name"
| "name_loop (c # cs) name = name_loop cs (cmd_name c @ (if name = [] then [] else '' '') @ name)"

definition cli_command_name :: "cli_command list \<Rightarrow> cli_command \<Rightarrow> string" where
  "cli_command_name par c = name_loop (c # par) []"

definition help_text :: "cli_command \<Rightarrow> string" where
  "help_text c = (case cmd_help c of None \<Rightarrow> [] | Some h \<Rightarrow> h)"

end
