(* ===== verification/CliFind.thy ===== *)
theory CliFind
  imports CliCore
begin

text \<open>
  Splitting a line into words, looking a command up in the tree, installing filters, running
  commands, the library's own commands, the history, and completion
  (\<^verbatim>\<open>src/src/libcli/libcli.c\<close>, from \<open>cli_show_help\<close> to \<open>cli_get_request_completions\<close>, and the filters'
  constructors).
\<close>

section \<open>Splitting a line\<close>

text \<open>
  The loop of \<open>cli_parse_line\<close>: how many words may still come, the open quote, the word begun
  (from \<open>word_start\<close> to \<open>p\<close>), the rest of the line.
\<close>

function parse_loop :: "nat \<Rightarrow> char option \<Rightarrow> string option \<Rightarrow> string \<Rightarrow> string list" where
  "parse_loop 0 inquote word p = []"
| "parse_loop (Suc n) inquote word [] = (case word of None \<Rightarrow> [] | Some w \<Rightarrow> [w])"
| "parse_loop (Suc n) inquote word (c # p) =
     (if inquote = Some c \<or> word \<noteq> None \<and> inquote = None \<and> (is_space c \<or> c = CHR ''|'')
      then (let p' = (if inquote \<noteq> None then p else c # p)
            in case word of None \<Rightarrow> parse_loop (Suc n) None None p' | Some w \<Rightarrow> w # parse_loop n None None p')
      else if c = CHR 0x22 \<or> c = CHR 0x27 then parse_loop (Suc n) (Some c) (Some []) p
      else (case word of
          Some w \<Rightarrow> parse_loop (Suc n) inquote (Some (w @ [c])) p
        | None \<Rightarrow> (if c = CHR ''|'' then ''|'' # parse_loop n inquote None p
                  else if \<not> is_space c then parse_loop (Suc n) inquote (Some [c]) p
                  else parse_loop (Suc n) inquote None p)))"
  by pat_completeness auto

termination
  by (relation "measure (\<lambda>(n, q, w, p). 2 * length p + (if w = None then 0 else 1))") auto

definition cli_parse_line :: "string \<Rightarrow> nat \<Rightarrow> string list" where
  "cli_parse_line line max_words =
     (let p = dropWhile is_space line
      in parse_loop (max_words - 1) None (if p = [] then None else Some []) p)"

fun join_words :: "string list \<Rightarrow> string" where
  "join_words [] = []"
| "join_words [w] = w"
| "join_words (w # ws) = w @ '' '' @ join_words ws"

section \<open>Making filters\<close>

definition starts :: "string \<Rightarrow> string \<Rightarrow> bool" where
  "starts a s \<longleftrightarrow> take (length a) s = a"

text \<open>The options of \<open>grep\<close>: the flags, and the words behind the options.\<close>

fun grep_options :: "string list \<Rightarrow> bool \<Rightarrow> bool \<Rightarrow> bool \<times> bool \<times> string list" where
  "grep_options (a # b # rest) neg icase =
     (if starts ''-'' a \<and> tl a \<noteq> [] \<and> set (tl a) \<subseteq> set ''vie'' then
        (let neg' = (neg \<or> CHR ''v'' \<in> set (tl a)); icase' = (icase \<or> CHR ''i'' \<in> set (tl a))
         in if CHR ''e'' \<in> set (tl a) then (neg', icase', b # rest) else grep_options (b # rest) neg' icase')
      else (neg, icase, a # b # rest))"
| "grep_options ws neg icase = (neg, icase, ws)"

definition cli_match_filter_init :: "'w client \<Rightarrow> string list \<Rightarrow> ('w, filter_state option) cliprog" where
  "cli_match_filter_init K argv =
     (if length argv < 2 then
        seqE (fprintf_client (''Match filter requires an argument'' @ crlf)) (ret None)
      else let a = hd argv in
        if starts ''i'' a \<or> starts ''ex'' a then ret (Some (Match_string (starts ''e'' a) (join_words (tl argv))))
        else (case grep_options (tl argv) False False of
          (neg, icase, ws) \<Rightarrow>
            let p = join_words ws in
            if regcomp (rx K) (starts ''e'' a) icase p then ret (Some (Match_regex neg (starts ''e'' a) icase p))
            else seqE (fprintf_client (''Invalid pattern '' @ [CHR 0x22] @ p @ [CHR 0x22] @ crlf)) (ret None)))"

definition cli_range_filter_init :: "string list \<Rightarrow> ('w, filter_state option) cliprog" where
  "cli_range_filter_init argv =
     (if starts ''bet'' (hd argv) then
        (if length argv < 3 then seqE (fprintf_client (''Between filter requires 2 arguments'' @ crlf)) (ret None)
         else ret (Some (Range False (argv ! 1) (Some (join_words (drop 2 argv))))))
      else if length argv < 2 then seqE (fprintf_client (''Begin filter requires an argument'' @ crlf)) (ret None)
      else ret (Some (Range False (join_words (tl argv)) None)))"

definition cli_count_filter_init :: "string list \<Rightarrow> ('w, filter_state option) cliprog" where
  "cli_count_filter_init argv =
     (if length argv > 1 then seqE (fprintf_client (''Count filter does not take arguments'' @ crlf)) (ret None)
      else ret (Some (Count 0)))"

text \<open>\<open>!strncmp(name, argv[0], strlen(argv[0]))\<close>\<close>

definition abbreviates :: "string \<Rightarrow> string \<Rightarrow> bool" where
  "abbreviates w name \<longleftrightarrow> strncmp_eq name w (length w)"

definition make_filter :: "'w client \<Rightarrow> string list \<Rightarrow> ('w, filter_state option) cliprog" where
  "make_filter K argv =
     (let w = hd argv in
      if abbreviates w ''include'' \<or> abbreviates w ''exclude'' \<or> abbreviates w ''grep'' \<or> abbreviates w ''egrep''
      then cli_match_filter_init K argv
      else if abbreviates w ''begin'' \<or> abbreviates w ''between'' then cli_range_filter_init argv
      else if abbreviates w ''count'' then cli_count_filter_init argv
      else seqE (cli_error (rx K) (''Invalid filter '' @ [CHR 0x22] @ w @ [CHR 0x22])) (ret None))"

fun print_cmds :: "'w client \<Rightarrow> (string \<times> string) list \<Rightarrow> ('w, unit) cliprog" where
  "print_cmds K [] = ret ()"
| "print_cmds K ((n, h) # cs) = seqE (cli_error (rx K) (''  '' @ pad_right 20 n @ '' '' @ h)) (print_cmds K cs)"

definition filter_help :: "'w client \<Rightarrow> string list \<Rightarrow> ('w, unit) cliprog" where
  "filter_help K argv =
     (if length argv = 1 then print_cmds K filter_cmds
      else seqE (whenE (\<not> starts ''c'' (hd argv)) (cli_error (rx K) ''  WORD''))
                (whenE (length argv > 2 \<or> starts ''c'' (hd argv)) (cli_error (rx K) ''  <cr>'')))"

text \<open>
  The loop over the filters of a line, given by the positions of the bars; 0 ends the list. The
  result \<open>Inl\<close> is an early return, \<open>Inr\<close> the value of \<open>rc\<close> behind the loop. The \<open>k\<close>th filter
  replaces what the \<open>k\<close>th pointer of the chain points to.
\<close>

fun filter_loop :: "'w client \<Rightarrow> string list \<Rightarrow> nat \<Rightarrow> nat list \<Rightarrow> ('w, int + int) cliprog" where
  "filter_loop K words k [] = ret (Inr CLI_OK)"
| "filter_loop K words k (f # fs) =
     (if f = 0 then ret (Inr CLI_OK)
      else
       let n = (case fs of [] \<Rightarrow> length words | g # _ \<Rightarrow> (if g = 0 then length words else g));
           argv = take (n - (f + 1)) (drop (f + 1) words)
       in if argv = [] then seqE (cli_error (rx K) ''Missing filter'') (ret (Inl CLI_ERROR))
          else if last argv = [] then throw (Undefined ''read before the text'')
          else if last (last argv) = CHR ''?'' then seqE (filter_help K argv) (ret (Inl CLI_OK))
          else if starts ''b'' (hd argv) \<and> length (hd argv) < 3 then
            seqE (cli_error (rx K) (''Ambiguous filter '' @ [CHR 0x22] @ hd argv @ [CHR 0x22] @ '' (begin, between)''))
              (ret (Inl CLI_ERROR))
          else bindE (make_filter K argv) (\<lambda>r.
            case r of
              None \<Rightarrow> seqE (upd_cli (\<lambda>c. c\<lparr>cl_filters := take k (cl_filters c)\<rparr>)) (ret (Inr CLI_ERROR))
            | Some flt \<Rightarrow> seqE (upd_cli (\<lambda>c. c\<lparr>cl_filters := take k (cl_filters c) @ [flt]\<rparr>))
                (filter_loop K words (Suc k) fs)))"

text \<open>The last call of each filter, with no line: only \<open>count\<close> prints.\<close>

fun end_filters :: "filter_state list \<Rightarrow> ('w, unit) cliprog" where
  "end_filters [] = ret ()"
| "end_filters (f # fs) = seqE (case f of Count n \<Rightarrow> fprintf_client (show_nat n @ crlf) | _ \<Rightarrow> ret ()) (end_filters fs)"

definition clean_filters :: "('w, unit) cliprog" where
  "clean_filters = bindE (clif cl_filters) (\<lambda>fs. seqE (end_filters fs) (upd_cli (\<lambda>c. c\<lparr>cl_filters := []\<rparr>)))"

section \<open>The library's own commands\<close>

definition set_hook :: "'w client \<Rightarrow> hook_id \<Rightarrow> string \<Rightarrow> string list \<Rightarrow> int \<Rightarrow> ('w, int) cliprog \<Rightarrow> ('w, int) cliprog" where
  "set_hook K h command argv argc rest =
     bindE (clif (\<lambda>c. cl_hooks c h)) (\<lambda>f. case f of
        None \<Rightarrow> rest
      | Some f \<Rightarrow> bindE (on_command K f command argv argc) (\<lambda>r.
          if r = 1 then ret CLI_OK else if r \<noteq> 0 then ret CLI_ERROR else rest))"

definition do_enable :: "('w, int) cliprog" where
  "do_enable =
     bindE (clif (\<lambda>c. c)) (\<lambda>c.
     if cl_privilege c = PRIVILEGE_PRIVILEGED then ret CLI_OK
     else if cl_enable_password c = None \<and> cl_enable_callback c = None then
       seqE (cli_set_privilege PRIVILEGE_PRIVILEGED) (seqE (cli_set_configmode MODE_EXEC None) (ret CLI_OK))
     else seqE (upd_cli (\<lambda>c. c\<lparr>cl_state := STATE_ENABLE_PASSWORD\<rparr>)) (ret CLI_OK))"

definition drop_privilege :: "int \<Rightarrow> ('w, int) cliprog" where
  "drop_privilege r =
     seqE (cli_set_privilege PRIVILEGE_UNPRIVILEGED) (seqE (cli_set_configmode MODE_EXEC None) (ret r))"

fun cli_show_help :: "'w client \<Rightarrow> cli_command list \<Rightarrow> cli_command list \<Rightarrow> ('w, unit) cliprog" where
  "cli_show_help K par [] = ret ()"
| "cli_show_help K par (p # ps) =
     seqE (bindE (clif (\<lambda>c. c)) (\<lambda>c.
            whenE (cmd_callback p \<noteq> None \<and> cmd_privilege p \<le> cl_privilege c \<and> (cmd_mode p = cl_mode c \<or> cmd_mode p = MODE_ANY))
              (cli_error (rx K) (''  '' @ pad_right 20 (cli_command_name par p) @ '' '' @ help_text p))))
    (seqE (cli_show_help K (p # par) (children p))
          (cli_show_help K par ps))"

definition do_help :: "'w client \<Rightarrow> ('w, int) cliprog" where
  "do_help K =
     seqE (cli_error (rx K) (CHR 0x0A # ''Commands available:''))
    (bindE (clif cl_commands) (\<lambda>cs. seqE (cli_show_help K [] cs) (ret CLI_OK)))"

definition pad_left :: "nat \<Rightarrow> string \<Rightarrow> string" where
  "pad_left k s = replicate (k - length s) (CHR '' '') @ s"

fun show_history :: "'w client \<Rightarrow> nat \<Rightarrow> string option list \<Rightarrow> ('w, unit) cliprog" where
  "show_history K i [] = ret ()"
| "show_history K i (h # hs) =
     seqE (case h of None \<Rightarrow> ret () | Some t \<Rightarrow> cli_error (rx K) (pad_left 3 (show_nat i) @ ''. '' @ t))
          (show_history K (Suc i) hs)"

definition do_history :: "'w client \<Rightarrow> ('w, int) cliprog" where
  "do_history K =
     seqE (cli_error (rx K) (CHR 0x0A # ''Command history:''))
    (bindE (clif cl_history) (\<lambda>hs. seqE (show_history K 0 hs) (ret CLI_OK)))"

definition do_quit :: "'w client \<Rightarrow> string \<Rightarrow> string list \<Rightarrow> int \<Rightarrow> ('w, int) cliprog" where
  "do_quit K command argv argc = set_hook K HOOK_LOGOUT command argv argc (drop_privilege CLI_QUIT)"

definition do_exit :: "'w client \<Rightarrow> string \<Rightarrow> string list \<Rightarrow> int \<Rightarrow> ('w, int) cliprog" where
  "do_exit K command argv argc =
     bindE (clif cl_mode) (\<lambda>m.
     if m = MODE_EXEC then do_quit K command argv argc
     else seqE (cli_set_configmode (if m > MODE_CONFIG then MODE_CONFIG else MODE_EXEC) None) (ret CLI_OK))"

definition do_configure_terminal :: "'w client \<Rightarrow> ('w, int) cliprog" where
  "do_configure_terminal K =
     bindE (clif cl_config_mode_callback) (\<lambda>f. case f of
        Some f \<Rightarrow> on_call K f
      | None \<Rightarrow> seqE (cli_set_configmode MODE_CONFIG None) (ret CLI_OK))"

fun invoke :: "'w client \<Rightarrow> handler \<Rightarrow> string \<Rightarrow> string list \<Rightarrow> int \<Rightarrow> ('w, int) cliprog" where
  "invoke K cli_int_enable command argv argc = set_hook K HOOK_ENABLE command argv argc do_enable"
| "invoke K cli_int_disable command argv argc = set_hook K HOOK_DISABLE command argv argc (drop_privilege CLI_OK)"
| "invoke K cli_int_help command argv argc = set_hook K HOOK_HELP command argv argc (do_help K)"
| "invoke K cli_int_history command argv argc = set_hook K HOOK_HISTORY command argv argc (do_history K)"
| "invoke K cli_int_quit command argv argc = do_quit K command argv argc"
| "invoke K cli_int_exit command argv argc = set_hook K HOOK_EXIT command argv argc (do_exit K command argv argc)"
| "invoke K cli_int_configure_terminal command argv argc = do_configure_terminal K"
| "invoke K cli_int_idle_timeout command argv argc = seqE (cli_print (rx K) ''Idle timeout'') (ret CLI_QUIT)"
| "invoke K (client_fun f) command argv argc = on_command K f command argv argc"

section \<open>Finding a command\<close>

text \<open>Running a command that was found: its filters, its callback, the end of the filters.\<close>

definition run_checks ::
  "'w client \<Rightarrow> cli_command list \<Rightarrow> cli_command \<Rightarrow> handler \<Rightarrow> string list \<Rightarrow> nat \<Rightarrow> nat \<Rightarrow> nat list \<Rightarrow> ('w, int) cliprog" where
  "run_checks K par c h words sw c_words filters =
     bindE (filter_loop K words 0 filters) (\<lambda>r. case r of
        Inl rc \<Rightarrow> ret rc
      | Inr rc \<Rightarrow>
          bindE (if rc = CLI_OK
                 then invoke K h (cli_command_name par c) (drop (sw + 1) words) (int c_words - int sw - 1)
                 else ret rc) (\<lambda>rc.
          seqE clean_filters (ret rc)))"

text \<open>
  What happens at the label \<open>AGAIN\<close> when the command's mode fits; \<open>sub\<close> is the search among the
  children.
\<close>

definition found ::
  "'w client \<Rightarrow> cli_command list \<Rightarrow> cli_command \<Rightarrow> string list \<Rightarrow> nat \<Rightarrow> nat \<Rightarrow> nat list \<Rightarrow> ('w, int) cliprog \<Rightarrow> ('w, int) cliprog" where
  "found K par c words sw c_words filters sub =
     (if children c = [] then
        (case cmd_callback c of
           None \<Rightarrow> seqE (cli_error (rx K) (''No callback for '' @ [CHR 0x22] @ cli_command_name par c @ [CHR 0x22])) (ret CLI_ERROR)
         | Some h \<Rightarrow> run_checks K par c h words sw c_words filters)
      else if sw + 1 = c_words then
        (case cmd_callback c of
           None \<Rightarrow> seqE (cli_error (rx K) ''Incomplete command'') (ret CLI_ERROR)
         | Some h \<Rightarrow> run_checks K par c h words sw c_words filters)
      else bindE sub (\<lambda>rc.
        if rc = CLI_ERROR_ARG then
          (case cmd_callback c of
             None \<Rightarrow> seqE (cli_error (rx K) (''Invalid '' @ (if par = [] then ''command'' else ''argument'') @ '' '' @ [CHR 0x22] @ words ! sw @ [CHR 0x22])) (ret rc)
           | Some h \<Rightarrow> run_checks K par c h words sw c_words filters)
        else ret rc))"

definition may_see :: "cli_def \<Rightarrow> cli_command \<Rightarrow> bool" where
  "may_see s c \<longleftrightarrow> cmd_privilege c \<le> cl_privilege s \<and> (cmd_mode c = cl_mode s \<or> cmd_mode c = MODE_ANY)"

text \<open>The list of commands for a word that ends in a question mark.\<close>

definition matching_help :: "cli_def \<Rightarrow> string \<Rightarrow> cli_command list \<Rightarrow> (string \<times> string) list" where
  "matching_help s w cs =
     map (\<lambda>c. (cmd_name c, help_text c))
       [c \<leftarrow> cs. strncasecmp_eq (cmd_name c) w (length w - 1) \<and> (cmd_callback c \<noteq> None \<or> children c \<noteq> []) \<and> may_see s c]"

text \<open>The word reaches the command's shortest unique prefix and is a prefix of its name.\<close>

definition word_matches :: "cli_command \<Rightarrow> string \<Rightarrow> bool" where
  "word_matches c w \<longleftrightarrow> strncasecmp_eq (cmd_name c) w (unique_len c) \<and> strncasecmp_eq (cmd_name c) w (length w)"

text \<open>No command at this level: the one remembered from another mode, or an error.\<close>

definition no_match :: "'w client \<Rightarrow> string list \<Rightarrow> cli_command list \<Rightarrow> nat \<Rightarrow>
    ('w, int) cliprog option \<Rightarrow> ('w, int) cliprog option \<Rightarrow> ('w, int) cliprog" where
  "no_match K words par sw again_config again_any =
     (case again_config of
        Some m \<Rightarrow> seqE (cli_set_configmode MODE_CONFIG None) m
      | None \<Rightarrow> (case again_any of
          Some m \<Rightarrow> m
        | None \<Rightarrow> seqE (whenE (sw = 0)
              (cli_error (rx K) (''Invalid '' @ (if par = [] then ''command'' else ''argument'') @ '' '' @ [CHR 0x22] @ words ! sw @ [CHR 0x22])))
            (ret CLI_ERROR_ARG)))"

text \<open>
  \<open>cli_find_command\<close> and its loop over the siblings. The two remembered commands
  \<open>again_config\<close> and \<open>again_any\<close> are kept as what happens when they are taken. Taking \<open>again_config\<close> has changed the mode before, and with it the
  shortest prefixes of the children: \<open>moved\<close> looks at them as they are then.
\<close>

function (sequential) cli_find_command :: "'w client \<Rightarrow> string list \<Rightarrow> nat list \<Rightarrow> cli_command list \<Rightarrow> nat \<Rightarrow> cli_command list \<Rightarrow> ('w, int) cliprog"
and find_loop :: "'w client \<Rightarrow> string list \<Rightarrow> nat list \<Rightarrow> cli_command list \<Rightarrow> nat \<Rightarrow> cli_command list \<Rightarrow>
      ('w, int) cliprog option \<Rightarrow> ('w, int) cliprog option \<Rightarrow> ('w, int) cliprog" where
  "cli_find_command K words filters par sw cs =
     (if length words \<le> sw then ret CLI_ERROR
      else if words ! sw = [] then throw (Undefined ''read before the text'')
      else if cs = [] then throw (Undefined ''null pointer'')
      else if last (words ! sw) = CHR ''?'' then
        seqE (case par of
            p # ps \<Rightarrow> whenE (cmd_callback p \<noteq> None) (cli_error (rx K) (pad_right 20 (cli_command_name ps p) @ '' '' @ help_text p))
          | [] \<Rightarrow> ret ())
       (bindE (clif (\<lambda>c. c)) (\<lambda>s. seqE (print_cmds K (matching_help s (words ! sw) cs)) (ret CLI_OK)))
      else find_loop K words filters par sw cs None None)"
| "find_loop K words filters par sw [] again_config again_any =
     no_match K words par sw again_config again_any"
| "find_loop K words filters par sw (c # cs) again_config again_any =
     bindE (clif (\<lambda>c. c)) (\<lambda>s.
     if cl_privilege s < cmd_privilege c \<or> \<not> word_matches c (words ! sw) then
       find_loop K words filters par sw cs again_config again_any
     else
       let c_words = (case filters of f # _ \<Rightarrow> (if f = 0 then length words else f) | [] \<Rightarrow> length words);
           hit = found K par c words sw c_words filters (cli_find_command K words filters (c # par) (sw + 1) (children c));
           moved = bindE (clif (\<lambda>s. s)) (\<lambda>s'. found K par c words sw c_words filters
             (cli_find_command K words filters (c # par) (sw + 1) (cli_build_shortest s' (children c))))
       in if cmd_mode c = cl_mode s \<or> cmd_mode c = MODE_ANY \<and> again_any \<noteq> None then hit
          else if cl_mode s > MODE_CONFIG \<and> cmd_mode c = MODE_CONFIG then find_loop K words filters par sw cs (Some moved) again_any
          else if cmd_mode c = MODE_ANY then find_loop K words filters par sw cs again_config (Some hit)
          else find_loop K words filters par sw cs again_config again_any)"
  by pat_completeness auto

termination
  by (relation "measure (\<lambda>x. case x of Inl (_, _, _, _, _, cs) \<Rightarrow> 2 * tree_count cs + 1
        | Inr (_, _, _, _, _, cs, _, _) \<Rightarrow> 2 * tree_count cs)") auto

declare cli_find_command.simps [simp del] find_loop.simps [simp del]

text \<open>The bars of a line.\<close>

definition filter_positions :: "string list \<Rightarrow> nat list" where
  "filter_positions words = [i \<leftarrow> [0..<length words]. starts ''|'' (words ! i)]"

definition cli_run_command :: "'w client \<Rightarrow> string \<Rightarrow> ('w, int) cliprog" where
  "cli_run_command K line =
     (let command = dropWhile is_space line in
      if command = [] then ret CLI_OK
      else
        let words = cli_parse_line command CLI_MAX_LINE_WORDS in
        bindE (if words = [] then ret CLI_ERROR
               else bindE (clif cl_commands) (\<lambda>cs. cli_find_command K words (filter_positions words) [] 0 cs)) (\<lambda>r.
        ret (if r = CLI_QUIT then CLI_QUIT else CLI_OK)))"

section \<open>History\<close>

text \<open>The first free slot takes the line, unless the slot before it has the same line.\<close>

fun history_free :: "string option \<Rightarrow> string option list \<Rightarrow> string \<Rightarrow> string option list option" where
  "history_free prev [] line = None"
| "history_free prev (None # hs) line =
     Some (if prev = None \<or> \<not> strcasecmp_eq (the prev) line then Some line # hs else None # hs)"
| "history_free prev (Some h # hs) line =
     (case history_free (Some h) hs line of None \<Rightarrow> None | Some hs' \<Rightarrow> Some (Some h # hs'))"

definition add_history :: "string \<Rightarrow> string option list \<Rightarrow> string option list" where
  "add_history line hs = (case history_free None hs line of Some hs' \<Rightarrow> hs' | None \<Rightarrow> tl hs @ [Some line])"

definition cli_add_history :: "string \<Rightarrow> ('w, unit) cliprog" where
  "cli_add_history line = upd_cli (\<lambda>c. c\<lparr>cl_history := add_history line (cl_history c)\<rparr>)"

definition cli_free_history :: "('w, unit) cliprog" where
  "cli_free_history = upd_cli (\<lambda>c. c\<lparr>cl_history := replicate MAX_HISTORY None\<rparr>)"

section \<open>Completion\<close>

text \<open>The names of the filters a word completes to.\<close>

definition filter_completions :: "string \<Rightarrow> string list" where
  "filter_completions w =
     take CLI_MAX_LINE_WORDS [n \<leftarrow> map fst filter_cmds. w = [] \<or> length w < length n \<and> strncmp_eq n w (length w)]"

text \<open>
  The loop over the commands: at a word that is not the last, the command the word reaches is
  entered and its children take the place of its siblings.
\<close>

fun completion_loop ::
  "cli_def \<Rightarrow> string list \<Rightarrow> nat \<Rightarrow> cli_command list \<Rightarrow> nat \<Rightarrow> nat \<Rightarrow> (cli_command \<times> nat) option \<Rightarrow> string list \<times> (cli_command \<times> nat) option" where
  "completion_loop s words nw [] i k completed = ([], completed)"
| "completion_loop s words nw (c # cs) i k completed =
     (if nw \<le> i \<or> CLI_MAX_LINE_WORDS \<le> k then ([], completed)
      else if cl_privilege s < cmd_privilege c then completion_loop s words nw cs i k completed
      else if cmd_mode c \<noteq> cl_mode s \<and> cmd_mode c \<noteq> MODE_ANY then completion_loop s words nw cs i k completed
      else if i < length words \<and> \<not> strncasecmp_eq (cmd_name c) (words ! i) (length (words ! i)) then
        completion_loop s words nw cs i k completed
      else if i + 1 < nw then
        (if length (words ! i) < unique_len c then completion_loop s words nw cs i k completed
         else completion_loop s words nw (children c) (i + 1) k (Some (c, i + 1)))
      else (case completion_loop s words nw cs i (Suc k) completed of (ns, d) \<Rightarrow> (cmd_name c # ns, d)))"

definition cli_get_completions :: "'w client \<Rightarrow> string \<Rightarrow> ('w, string list \<times> string list) cliprog" where
  "cli_get_completions K line =
     (let command = dropWhile is_space line;
          words = cli_parse_line command CLI_MAX_LINE_WORDS;
          nw = length words + (if command = [] \<or> last command = CHR '' '' then 1 else 0);
          bars = filter_positions words
      in if nw = 0 then ret ([], [])
         else if bars \<noteq> [] \<and> last bars \<noteq> 0 then
           ret (if last bars < nw - 1 then [] else filter_completions (words ! (nw - 1)), [])
         else bindE (clif (\<lambda>c. c)) (\<lambda>s.
           case completion_loop s words nw (cl_commands s) 0 0 None of
             ([], Some (c, i)) \<Rightarrow> (case cmd_completion c of
                 None \<Rightarrow> ret ([], [])
               | Some f \<Rightarrow> (if cl_completion_free s = None
                   then seqE (cli_error (rx K) ''Internal server error processing tab completion'') (ret ([], []))
                   else bindE (on_complete K f (cmd_name c) (drop i words)) (\<lambda>us. ret ([], us))))
           | (ns, _) \<Rightarrow> ret (ns, [])))"

definition cli_get_request_completions :: "'w client \<Rightarrow> string \<Rightarrow> ('w, string list) cliprog" where
  "cli_get_request_completions K line =
     bindE (clif (\<lambda>c. c)) (\<lambda>s. case cl_request_completion s of
        None \<Rightarrow> ret []
      | Some f \<Rightarrow> (if cl_completion_free s = None
          then seqE (cli_error (rx K) ''Internal server error processing tab completion'') (ret [])
          else on_complete K f (dropWhile is_space line) []))"

end
