(* ===== verification/CliLoop.thy ===== *)
theory CliLoop
  imports CliFind
begin

text \<open>
  A terminal session, \<open>cli_loop\<close> of \<^verbatim>\<open>src/src/libcli/libcli.c\<close>: the prompt, the telnet protocol, the
  line editor, login, passwords. One iteration of the inner loop waits for one event of the socket;
  the model is the function from an event to the next state. The bytes given to \<open>_write\<close> are
  appended to \<open>screen\<close>; memory allocation and \<open>fdopen\<close> succeed.
\<close>

section \<open>The line buffer\<close>

definition bell :: string where "bell = [CHR 0x07]"
definition backspace :: string where "backspace = [CHR 0x08]"

definition backs :: "nat \<Rightarrow> string" where
  "backs n = replicate n (CHR 0x08)"

definition blanks :: "nat \<Rightarrow> string" where
  "blanks n = replicate n (CHR '' '')"

definition nuls :: "nat \<Rightarrow> string" where
  "nuls n = replicate n (CHR 0x00)"

definition overlay :: "nat \<Rightarrow> string \<Rightarrow> string \<Rightarrow> string" where
  "overlay i xs b = take i b @ xs @ drop (i + length xs) b"

text \<open>Writing a text into the buffer at a position, and reading the text that begins there.\<close>

definition poke :: "int \<Rightarrow> string \<Rightarrow> ('w, unit) cliprog" where
  "poke i xs = bindE (edf cmd) (\<lambda>b.
     if 0 \<le> i \<and> nat i + length xs \<le> length b then upd_ed (\<lambda>e. e\<lparr>cmd := overlay (nat i) xs b\<rparr>)
     else throw (Undefined ''write outside the line buffer''))"

definition peek :: "int \<Rightarrow> ('w, char) cliprog" where
  "peek i = bindE (edf cmd) (\<lambda>b.
     if 0 \<le> i \<and> nat i < length b then ret (b ! nat i) else throw (Undefined ''read outside the line buffer''))"

definition text_at :: "int \<Rightarrow> ('w, string) cliprog" where
  "text_at i = bindE (edf cmd) (\<lambda>b.
     if 0 \<le> i \<and> CHR 0x00 \<in> set (drop (nat i) b) then ret (takeWhile (\<lambda>c. c \<noteq> CHR 0x00) (drop (nat i) b))
     else throw (Undefined ''text without end''))"

text \<open>\<open>_write(sockfd, cmd + i, n)\<close>\<close>

definition put_range :: "int \<Rightarrow> int \<Rightarrow> ('w, unit) cliprog" where
  "put_range i n = bindE (edf cmd) (\<lambda>b.
     if 0 \<le> i \<and> 0 \<le> n \<and> nat i + nat n \<le> length b then put (take (nat n) (drop (nat i) b))
     else throw (Undefined ''read outside the line buffer''))"

definition cli_clear_line :: "('w, unit) cliprog" where
  "cli_clear_line =
     bindE (edf (\<lambda>e. e)) (\<lambda>e.
     let l = nat (len e) in
     seqE (whenE (cursor e < len e) (put (blanks (nat (len e - cursor e)))))
    (seqE (poke 0 (backs l @ blanks l @ backs l))
    (seqE (put_range 0 (3 * len e))
          (poke 0 (nuls (3 * l))))))"

definition set_pos :: "int \<Rightarrow> int \<Rightarrow> ('w, unit) cliprog" where
  "set_pos l p = upd_ed (\<lambda>e. e\<lparr>len := l, cursor := p\<rparr>)"

definition secret :: "cli_def \<Rightarrow> bool" where
  "secret c \<longleftrightarrow> cl_state c = STATE_PASSWORD \<or> cl_state c = STATE_ENABLE_PASSWORD"

text \<open>Output that is left out while a password is typed.\<close>

definition echo :: "('w, unit) cliprog \<Rightarrow> ('w, unit) cliprog" where
  "echo m = bindE (clif secret) (\<lambda>b. whenE (\<not> b) m)"

section \<open>The prompt\<close>

definition show_prompt :: "('w, unit) cliprog" where
  "show_prompt = bindE (clif (\<lambda>c. c)) (\<lambda>c.
     if cl_state c = STATE_REQUEST then
       (case cl_request_prompt c of None \<Rightarrow> throw (Undefined ''null pointer'') | Some p \<Rightarrow> put p)
     else seqE (case cl_hostname c of None \<Rightarrow> ret () | Some h \<Rightarrow> put h)
         (seqE (case cl_modestring c of None \<Rightarrow> ret () | Some m \<Rightarrow> put m)
               (put (cl_promptchar c))))"

definition prompt :: "('w, unit) cliprog" where
  "prompt = bindE (clif (\<lambda>c. c)) (\<lambda>c. bindE (edf (\<lambda>e. e)) (\<lambda>e.
     whenE (cl_showprompt c)
       (seqE (echo (put crlf))
       (seqE (case cl_state c of
            STATE_LOGIN \<Rightarrow> put ''Username: ''
          | STATE_PASSWORD \<Rightarrow> put ''Password: ''
          | STATE_ENABLE_PASSWORD \<Rightarrow> put ''Password: ''
          | _ \<Rightarrow> seqE show_prompt (seqE (put_range 0 (len e)) (whenE (cursor e < len e) (put (backs (nat (len e - cursor e)))))))
        (upd_cli (\<lambda>c. c\<lparr>cl_showprompt := False\<rparr>))))))"

section \<open>Timeouts and the telnet protocol\<close>

datatype flow = Continue | Break

definition hang_up :: "('w, flow) cliprog" where
  "hang_up = seqE (upd_ed (\<lambda>e. e\<lparr>len := - 1\<rparr>)) (ret Break)"

definition touch :: "('w, unit) cliprog" where
  "touch = bindE (clif cl_idle_timeout) (\<lambda>n. whenE (n \<noteq> 0)
     (bindE (gets clock) (\<lambda>t. upd_cli (\<lambda>c. c\<lparr>cl_last_action := t\<rparr>))))"

definition idle_call :: "'w client \<Rightarrow> ('w, flow) cliprog" where
  "idle_call K = bindE (clif cl_idle_callback) (\<lambda>h. case h of
       None \<Rightarrow> hang_up
     | Some h \<Rightarrow> bindE (case h of client_fun f \<Rightarrow> on_call K f | _ \<Rightarrow> invoke K h [] [] 0) (\<lambda>r.
         if r = CLI_OK then bindE (gets clock) (\<lambda>t. seqE (upd_cli (\<lambda>c. c\<lparr>cl_last_action := t\<rparr>)) (ret Continue))
         else hang_up))"

definition on_idle :: "'w client \<Rightarrow> ('w, flow) cliprog" where
  "on_idle K =
     bindE (clif cl_regular_callback) (\<lambda>f.
     bindE (case f of None \<Rightarrow> ret CLI_OK | Some f \<Rightarrow> on_call K f) (\<lambda>r.
     if r \<noteq> CLI_OK then hang_up
     else bindE (clif (\<lambda>c. c)) (\<lambda>c. bindE (gets clock) (\<lambda>t.
       if cl_idle_timeout c \<noteq> 0 \<and> int (cl_idle_timeout c) \<le> t - cl_last_action c then idle_call K
       else ret Continue))))"

text \<open>The bytes of the telnet protocol are dropped; \<open>True\<close>: the byte is for the editor.\<close>

definition telnet_byte :: "char \<Rightarrow> ('w, bool) cliprog" where
  "telnet_byte c =
     bindE (edf (\<lambda>e. e)) (\<lambda>e.
     let n = (of_char c :: nat) in
     if skip_bytes e \<noteq> 0 then seqE (upd_ed (\<lambda>e. e\<lparr>skip_bytes := skip_bytes e - 1\<rparr>)) (ret False)
     else if n = 255 \<and> is_telnet_option e = 0 then seqE (upd_ed (\<lambda>e. e\<lparr>is_telnet_option := 1\<rparr>)) (ret False)
     else if is_telnet_option e \<noteq> 0 then
       (if 251 \<le> n \<and> n \<le> 254 then seqE (upd_ed (\<lambda>e. e\<lparr>is_telnet_option := n\<rparr>)) (ret False)
        else seqE (upd_ed (\<lambda>e. e\<lparr>is_telnet_option := 0\<rparr>)) (ret (n = 255)))
     else ret True)"

definition arrow_key :: "char \<Rightarrow> char" where
  "arrow_key c = (if c = CHR ''A'' then CHR 0x10 else if c = CHR ''B'' then CHR 0x0E
     else if c = CHR ''C'' then CHR 0x06 else if c = CHR ''D'' then CHR 0x02 else CHR 0x00)"

definition escape_byte :: "char \<Rightarrow> ('w, char option) cliprog" where
  "escape_byte c =
     bindE (edf esc) (\<lambda>n.
     if n = 0 then ret (Some c)
     else if n = 91 then seqE (upd_ed (\<lambda>e. e\<lparr>esc := 0\<rparr>)) (ret (Some (arrow_key c)))
     else seqE (upd_ed (\<lambda>e. e\<lparr>esc := (if c = CHR ''['' then 91 else 0)\<rparr>)) (ret None))"

section \<open>Keys\<close>

definition go_on :: "('w, unit) cliprog \<Rightarrow> ('w, flow) cliprog" where
  "go_on m = seqE m (ret Continue)"

definition reprompt :: "('w, unit) cliprog" where
  "reprompt = upd_cli (\<lambda>c. c\<lparr>cl_showprompt := True\<rparr>)"

definition key_abort :: "'w client \<Rightarrow> ('w, unit) cliprog" where
  "key_abort K = bindE (clif (\<lambda>c. c)) (\<lambda>c.
     if cl_state c = STATE_REQUEST then
       seqE (upd_cli (\<lambda>c. c\<lparr>cl_state := cl_request_prior_state c, cl_request_prior_state := STATE_LOGIN, cl_request_prompt := None\<rparr>))
      (seqE (case cl_request_abort c of None \<Rightarrow> ret () | Some f \<Rightarrow> seqE (on_call K f) (ret ()))
      (seqE cli_clear_line (seqE (set_pos 0 0) reprompt)))
     else put bell)"

text \<open>The inner loops \<open>cmd[i] = cmd[i+1]\<close> and \<open>cmd[i+1] = cmd[i]\<close>.\<close>

fun shift_left :: "nat \<Rightarrow> nat \<Rightarrow> string \<Rightarrow> exn + string" where
  "shift_left 0 i b = Inr b"
| "shift_left (Suc n) i b = bindR (arr_get b (Suc i)) (\<lambda>c. bindR (arr_set b i c) (\<lambda>b'. shift_left n (Suc i) b'))"

fun shift_right :: "nat \<Rightarrow> nat \<Rightarrow> string \<Rightarrow> exn + string" where
  "shift_right 0 i b = Inr b"
| "shift_right (Suc n) i b =
     bindR (arr_get b (i + n)) (\<lambda>c. bindR (arr_set b (i + n + 1) c) (\<lambda>b'. shift_right n i b'))"

definition on_buffer :: "(string \<Rightarrow> exn + string) \<Rightarrow> ('w, unit) cliprog" where
  "on_buffer f = bindE (edf cmd) (\<lambda>b. bindE (lift (f b)) (\<lambda>b'. upd_ed (\<lambda>e. e\<lparr>cmd := b'\<rparr>)))"

definition erase1 :: "('w, unit) cliprog" where
  "erase1 = bindE (edf (\<lambda>e. e)) (\<lambda>e.
     seqE (upd_ed (\<lambda>e. e\<lparr>cursor := cursor e - 1\<rparr>))
    (seqE (if len e = cursor e then
             seqE (poke (cursor e - 1) [CHR 0x00]) (echo (put (backspace @ '' '' @ backspace)))
           else echo
             (seqE (on_buffer (shift_left (nat (len e - (cursor e - 1) + 1)) (nat (cursor e - 1))))
             (seqE (put backspace)
             (bindE (text_at (cursor e - 1)) (\<lambda>t. put (t @ '' '' @ backs (length t + 1)))))))
          (upd_ed (\<lambda>e. e\<lparr>len := len e - 1\<rparr>))))"

fun erase :: "nat \<Rightarrow> ('w, unit) cliprog" where
  "erase 0 = ret ()"
| "erase (Suc n) = seqE erase1 (erase n)"

text \<open>How far the word before the cursor reaches back.\<close>

definition word_back :: "string \<Rightarrow> nat" where
  "word_back before =
     (let r = rev before; sp = takeWhile (\<lambda>c. c = CHR '' '') r
      in length sp + length (takeWhile (\<lambda>c. c \<noteq> CHR '' '') (drop (length sp) r)))"

definition key_erase :: "char \<Rightarrow> ('w, unit) cliprog" where
  "key_erase c = bindE (edf (\<lambda>e. e)) (\<lambda>e.
     if c = CHR 0x17 then
       (if len e = 0 \<or> cursor e = 0 then ret () else erase (word_back (take (nat (cursor e)) (cmd e))))
     else if len e = 0 \<or> cursor e = 0 then put bell
     else erase 1)"

definition key_redraw :: "('w, unit) cliprog" where
  "key_redraw = echo (bindE (edf (\<lambda>e. e)) (\<lambda>e.
     seqE (put crlf) (seqE show_prompt (seqE (put_range 0 (len e)) (put (backs (nat (len e - cursor e))))))))"

definition key_clear :: "('w, unit) cliprog" where
  "key_clear = seqE (bindE (clif secret) (\<lambda>b.
       if b then bindE (edf len) (\<lambda>l. poke 0 (nuls (nat l))) else cli_clear_line)) (set_pos 0 0)"

definition key_kill :: "('w, unit) cliprog" where
  "key_kill = bindE (edf (\<lambda>e. e)) (\<lambda>e.
     whenE (cursor e \<noteq> len e)
       (seqE (echo (put (blanks (nat (len e - cursor e)) @ backs (nat (len e - cursor e)))))
       (seqE (poke (cursor e) (nuls (nat (len e - cursor e))))
             (set_pos (cursor e) (cursor e)))))"

definition key_eot :: "('w, flow) cliprog" where
  "key_eot = bindE (clif secret) (\<lambda>b. if b then ret Break
     else bindE (edf len) (\<lambda>l. if l \<noteq> 0 then ret Continue else hang_up))"

definition key_disable :: "('w, unit) cliprog" where
  "key_disable = bindE (clif (\<lambda>c. c)) (\<lambda>c.
     if cl_state c = STATE_REQUEST then put bell
     else whenE (cl_mode c \<noteq> MODE_EXEC)
       (seqE cli_clear_line (seqE (cli_set_configmode MODE_EXEC None) reprompt)))"

text \<open>Completion: the word before the cursor is taken back up to a blank or a bar.\<close>

definition word_start :: "string \<Rightarrow> nat" where
  "word_start line = length line - length (takeWhile (\<lambda>c. c \<noteq> CHR '' '' \<and> c \<noteq> CHR ''|'') (rev line))"

definition retract :: "('w, unit) cliprog" where
  "retract = bindE (edf (\<lambda>e. e)) (\<lambda>e.
     let k = word_start (take (nat (len e)) (cmd e)) in
     seqE (put (backs (nat (len e) - k))) (set_pos (int k) (cursor e - (len e - int k))))"

fun common_prefix :: "string \<Rightarrow> string list \<Rightarrow> string" where
  "common_prefix [] ns = []"
| "common_prefix (c # cs) ns =
     (if \<forall>n \<in> set ns. starts [c] n then c # common_prefix cs (map tl ns) else [])"

fun fill :: "string \<Rightarrow> ('w, unit) cliprog" where
  "fill [] = ret ()"
| "fill (c # cs) = seqE (put [c]) (bindE (edf len) (\<lambda>l. seqE (poke l [c]) (seqE (set_pos (l + 1) (l + 1)) (fill cs))))"

fun completion_list :: "nat \<Rightarrow> string list \<Rightarrow> string" where
  "completion_list i [] = (if i mod 4 \<noteq> 3 then crlf else [])"
| "completion_list i (n # ns) = n @ (if i mod 4 = 3 then crlf else '' '') @ completion_list (Suc i) ns"

definition complete_with :: "string list \<Rightarrow> ('w, unit) cliprog" where
  "complete_with ns = bindE (edf lastchar) (\<lambda>lc.
     case ns of
       [] \<Rightarrow> put bell
     | [n] \<Rightarrow> seqE retract (bindE (edf len) (\<lambda>l.
           seqE (poke l (n @ [CHR 0x00]))
          (seqE (poke (l + int (length n)) '' '')
          (seqE (set_pos (l + int (length n) + 1) (l + int (length n) + 1))
                (put (n @ '' ''))))))
     | n # ms \<Rightarrow>
         (if lc = CHR 0x09 then seqE (put (crlf @ completion_list 0 ns)) reprompt
          else seqE (upd_ed (\<lambda>e. e\<lparr>lastchar := CHR 0x09\<rparr>)) (seqE retract (seqE (fill (common_prefix n ms)) (put bell)))))"

definition key_tab :: "'w client \<Rightarrow> ('w, unit) cliprog" where
  "key_tab K = bindE (clif (\<lambda>c. c)) (\<lambda>c. bindE (edf (\<lambda>e. e)) (\<lambda>e.
     if secret c \<or> cl_state c = STATE_LOGIN \<or> cursor e \<noteq> len e then ret ()
     else bindE (text_at 0) (\<lambda>t.
       bindE (if cl_state c = STATE_REQUEST then bindE (cli_get_request_completions K t) (\<lambda>us. ret ([], us))
              else cli_get_completions K t) (\<lambda>(ns, us).
       seqE (complete_with (ns @ us))
         (case cl_completion_free c of
            Some f \<Rightarrow> whenE (us \<noteq> []) (seqE (on_call K f) (ret ()))
          | None \<Rightarrow> ret ())))))"

text \<open>The history keys. A position outside the array is not a valid access.\<close>

definition first_line :: "string option list \<Rightarrow> int option" where
  "first_line hs = (case [i \<leftarrow> [0..<length hs]. hs ! i \<noteq> None] of [] \<Rightarrow> None | i # _ \<Rightarrow> Some (int i))"

definition last_line :: "string option list \<Rightarrow> int option" where
  "last_line hs = (case rev [i \<leftarrow> [0..<length hs]. hs ! i \<noteq> None] of [] \<Rightarrow> None | i # _ \<Rightarrow> Some (int i))"

definition history_up :: "string option list \<Rightarrow> int \<Rightarrow> exn + int \<times> string option" where
  "history_up hs i =
     (let j = i - 1 in
      if j < 0 then (case last_line hs of None \<Rightarrow> Inr (- 1, None) | Some k \<Rightarrow> Inr (k, hs ! nat k))
      else bindR (arr_get hs (nat j)) (\<lambda>h. Inr (j, h)))"

definition history_down :: "string option list \<Rightarrow> int \<Rightarrow> exn + int \<times> string option" where
  "history_down hs i =
     (let j = i + 1 in
      if int (length hs) \<le> j \<or> hs ! nat j = None then
        (case first_line hs of None \<Rightarrow> Inr (j, None) | Some k \<Rightarrow> Inr (k, hs ! nat k))
      else Inr (j, hs ! nat j))"

definition key_history :: "char \<Rightarrow> ('w, unit) cliprog" where
  "key_history k = bindE (clif (\<lambda>c. c)) (\<lambda>c. bindE (edf in_history) (\<lambda>i.
     if secret c \<or> cl_state c = STATE_LOGIN \<or> cl_state c = STATE_REQUEST then ret ()
     else bindE (lift (if k = CHR 0x10 then history_up (cl_history c) i else history_down (cl_history c) i)) (\<lambda>(j, h).
       seqE (upd_ed (\<lambda>e. e\<lparr>in_history := j\<rparr>))
       (case h of None \<Rightarrow> ret ()
        | Some t \<Rightarrow> seqE cli_clear_line
            (let t' = take (CLI_MAX_LINE_LENGTH - 1) t in
             seqE (poke 0 (nuls CLI_MAX_LINE_LENGTH))
            (seqE (poke 0 t')
            (seqE (set_pos (int (length t')) (int (length t')))
                  (put_range 0 (int (length t'))))))))))"

definition key_motion :: "char \<Rightarrow> ('w, unit) cliprog" where
  "key_motion k = bindE (edf (\<lambda>e. e)) (\<lambda>e.
     if k = CHR 0x02 then
       whenE (cursor e \<noteq> 0) (seqE (echo (put backspace)) (upd_ed (\<lambda>e. e\<lparr>cursor := cursor e - 1\<rparr>)))
     else
       whenE (cursor e < len e) (seqE (echo (put_range (cursor e) 1)) (upd_ed (\<lambda>e. e\<lparr>cursor := cursor e + 1\<rparr>))))"

definition key_home :: "('w, unit) cliprog" where
  "key_home = bindE (edf cursor) (\<lambda>p. seqE (echo (put (backs (nat p)))) (upd_ed (\<lambda>e. e\<lparr>cursor := 0\<rparr>)))"

definition key_end :: "('w, unit) cliprog" where
  "key_end = bindE (edf (\<lambda>e. e)) (\<lambda>e.
     whenE (cursor e < len e)
       (seqE (echo (put_range (cursor e) (len e - cursor e))) (upd_ed (\<lambda>e. e\<lparr>cursor := len e\<rparr>))))"

text \<open>A character: at the end of the line, or inserted; \<open>False\<close> when the line is full.\<close>

definition insert_char :: "char \<Rightarrow> ('w, bool) cliprog" where
  "insert_char c = bindE (edf (\<lambda>e. e)) (\<lambda>e.
     if cursor e = len e then
       seqE (poke (cursor e) [c])
         (if len e < int CLI_MAX_LINE_LENGTH - 1 then seqE (set_pos (len e + 1) (cursor e + 1)) (ret True)
          else seqE (put bell) (ret False))
     else
       let l = (if int CLI_MAX_LINE_LENGTH - 2 \<le> len e then len e - 1 else len e) in
       seqE (on_buffer (shift_right (nat (l - cursor e + 1)) (nat (cursor e))))
      (seqE (poke (cursor e) [c])
      (seqE (put_range (cursor e) (l - cursor e + 1))
      (seqE (put (backs (nat (l - cursor e + 1))))
      (seqE (set_pos (l + 1) (cursor e + 1)) (ret True))))))"

definition key_char :: "char \<Rightarrow> ('w, flow) cliprog" where
  "key_char c = bindE (insert_char c) (\<lambda>ok.
     if \<not> ok then ret Continue
     else bindE (clif secret) (\<lambda>b. bindE (edf (\<lambda>e. e)) (\<lambda>e.
       if \<not> b \<and> c = CHR ''?'' \<and> cursor e = len e then
         seqE (put crlf) (seqE (upd_ed (\<lambda>e. e\<lparr>oldcmd := True, oldl := len e - 1, cursor := len e - 1\<rparr>)) (ret Break))
       else seqE (whenE (\<not> b) (put [c]))
           (seqE (upd_ed (\<lambda>e. e\<lparr>oldcmd := False, oldl := 0, lastchar := c\<rparr>)) (ret Continue)))))"

definition key :: "'w client \<Rightarrow> char \<Rightarrow> ('w, flow) cliprog" where
  "key K c =
     (if c = CHR 0x00 then ret Continue
      else if c = CHR 0x0A then ret Continue
      else if c = CHR 0x0D then seqE (echo (put crlf)) (ret Break)
      else if c = CHR 0x1B then go_on (upd_ed (\<lambda>e. e\<lparr>esc := 1\<rparr>))
      else if c = CHR 0x03 then go_on (key_abort K)
      else if c = CHR 0x17 \<or> c = CHR 0x08 \<or> c = CHR 0x7F then go_on (key_erase c)
      else if c = CHR 0x0C then go_on key_redraw
      else if c = CHR 0x15 then go_on key_clear
      else if c = CHR 0x0B then go_on key_kill
      else if c = CHR 0x04 then key_eot
      else if c = CHR 0x1A then go_on key_disable
      else if c = CHR 0x09 then go_on (key_tab K)
      else if c = CHR 0x10 \<or> c = CHR 0x0E then go_on (key_history c)
      else if c = CHR 0x02 \<or> c = CHR 0x06 then go_on (key_motion c)
      else if c = CHR 0x01 then go_on key_home
      else if c = CHR 0x05 then go_on key_end
      else key_char c)"

section \<open>A complete line\<close>

text \<open>A password is stored as it is, or as the result of \<open>crypt\<close>.\<close>

definition pass_matches :: "'w client \<Rightarrow> string \<Rightarrow> string \<Rightarrow> bool" where
  "pass_matches K pass guess =
     (let des = strncasecmp_eq pass ''{crypt}'' 7; p = (if des then drop 7 pass else pass)
      in p = (if des \<or> strncmp_eq p ''$1$'' 3 then crypt K guess p else guess))"

fun user_allowed :: "'w client \<Rightarrow> (string \<times> string) list \<Rightarrow> string \<Rightarrow> string \<Rightarrow> bool" where
  "user_allowed K [] name guess = False"
| "user_allowed K (u # us) name guess =
     (if fst u = name \<and> pass_matches K (snd u) guess then True else user_allowed K us name guess)"

definition set_state :: "cli_state \<Rightarrow> ('w, unit) cliprog" where
  "set_state st = upd_cli (\<lambda>c. c\<lparr>cl_state := st\<rparr>)"

definition access_denied :: "'w client \<Rightarrow> ('w, unit) cliprog" where
  "access_denied K = cli_error (rx K) ([CHR 0x0A, CHR 0x0A] @ ''Access denied'')"

definition line_login :: "('w, unit) cliprog" where
  "line_login = bindE (text_at 0) (\<lambda>t.
     seqE (upd_ed (\<lambda>e. e\<lparr>username := Some t\<rparr>)) (seqE (set_state STATE_PASSWORD) reprompt))"

definition line_password :: "'w client \<Rightarrow> ('w, unit) cliprog" where
  "line_password K = bindE (text_at 0) (\<lambda>pw. bindE (edf username) (\<lambda>name. bindE (clif (\<lambda>c. c)) (\<lambda>c.
     case name of None \<Rightarrow> throw (Undefined ''null pointer'') | Some u \<Rightarrow>
       seqE (upd_ed (\<lambda>e. e\<lparr>password := Some pw\<rparr>))
      (bindE (case cl_auth_callback c of Some f \<Rightarrow> bindE (on_auth K f u pw) (\<lambda>r. ret (r = CLI_OK)) | None \<Rightarrow> ret False) (\<lambda>ok.
       seqE (if ok \<or> user_allowed K (cl_users c) u pw then
               seqE (cli_error (rx K) '' '') (set_state STATE_NORMAL)
             else
               seqE (access_denied K)
              (seqE (upd_ed (\<lambda>e. e\<lparr>username := None, password := None\<rparr>)) (set_state STATE_LOGIN)))
            reprompt)))))"

definition line_enable :: "'w client \<Rightarrow> ('w, unit) cliprog" where
  "line_enable K = bindE (text_at 0) (\<lambda>pw. bindE (clif (\<lambda>c. c)) (\<lambda>c.
     let ok = (case cl_enable_password c of None \<Rightarrow> False | Some p \<Rightarrow> pass_matches K p pw) in
     bindE (if ok then ret True
            else (case cl_enable_callback c of None \<Rightarrow> ret False | Some f \<Rightarrow> bindE (on_enable K f pw) (\<lambda>r. ret (r \<noteq> 0)))) (\<lambda>ok.
     if ok then seqE (set_state STATE_ENABLE) (seqE (cli_set_privilege PRIVILEGE_PRIVILEGED) (ret ()))
     else seqE (access_denied K) (set_state STATE_NORMAL))))"

definition line_request :: "'w client \<Rightarrow> ('w, int) cliprog" where
  "line_request K = bindE (clif (\<lambda>c. c)) (\<lambda>c.
     seqE (upd_cli (\<lambda>c. c\<lparr>cl_state := cl_request_prior_state c, cl_request_prior_state := STATE_LOGIN, cl_request_prompt := None\<rparr>))
    (bindE (text_at 0) (\<lambda>t. on_request K (cl_request_callback c) t)))"

definition line_command :: "'w client \<Rightarrow> ('w, int) cliprog" where
  "line_command K = bindE (edf len) (\<lambda>l. bindE (peek (l - 1)) (\<lambda>c.
     bindE (text_at 0) (\<lambda>t.
     seqE (whenE (c \<noteq> CHR ''?'' \<and> \<not> strcasecmp_eq t ''history'') (cli_add_history t))
          (cli_run_command K t))))"

text \<open>The end of the outer loop's body; \<open>True\<close>: the loop is left.\<close>

definition line_done :: "'w client \<Rightarrow> int \<Rightarrow> ('w, bool) cliprog" where
  "line_done K after = bindE (edf len) (\<lambda>l. bindE (clif cl_state) (\<lambda>st.
     let again = seqE (modify (\<lambda>s. s\<lparr>clock := after\<rparr>)) (seqE touch (ret False)) in
     if l < 0 then ret True
     else case st of
       STATE_LOGIN \<Rightarrow> if l = 0 then ret False else seqE line_login again
     | STATE_PASSWORD \<Rightarrow> seqE (line_password K) again
     | STATE_ENABLE_PASSWORD \<Rightarrow> seqE (line_enable K) again
     | STATE_REQUEST \<Rightarrow> bindE (line_request K) (\<lambda>r. if r = CLI_QUIT then ret True else again)
     | _ \<Rightarrow> if l = 0 then ret False
           else bindE (line_command K) (\<lambda>r. if r = CLI_QUIT then ret True else again)))"

section \<open>The loop\<close>

text \<open>The head of the outer loop: a new line, or the old one again after a question mark.\<close>

definition new_line :: "('w, unit) cliprog" where
  "new_line =
     seqE (upd_ed (\<lambda>e. e\<lparr>in_history := 0, lastchar := CHR 0x00\<rparr>))
    (seqE reprompt
    (bindE (edf (\<lambda>e. e)) (\<lambda>e.
     if oldcmd e then
       seqE (set_pos (oldl e) (oldl e))
      (seqE (poke (oldl e) [CHR 0x00])
            (upd_ed (\<lambda>e. e\<lparr>oldcmd := False, oldl := 0\<rparr>)))
     else seqE (poke 0 (nuls CLI_MAX_LINE_LENGTH)) (set_pos 0 0))))"

datatype input = Byte char | Timeout | Interrupted | Failed | Eof

definition handle_input :: "'w client \<Rightarrow> input \<Rightarrow> ('w, flow) cliprog" where
  "handle_input K i = (case i of
       Timeout \<Rightarrow> on_idle K
     | Interrupted \<Rightarrow> ret Continue
     | Failed \<Rightarrow> hang_up
     | Eof \<Rightarrow> seqE touch hang_up
     | Byte c \<Rightarrow> seqE touch (bindE (telnet_byte c) (\<lambda>mine.
         if \<not> mine then ret Continue
         else bindE (escape_byte c) (\<lambda>k. case k of None \<Rightarrow> ret Continue | Some k \<Rightarrow> key K k))))"

text \<open>
  One event, given with the time of the event and the time after a command it starts:
  the iteration of the inner loop, after a line the rest of the outer loop's body and its
  head, and the prompt before the next event.
\<close>

type_synonym event = "input \<times> int \<times> int"

definition cli_step :: "'w client \<Rightarrow> event \<Rightarrow> ('w, bool) cliprog" where
  "cli_step K ev = (case ev of (i, now_t, after) \<Rightarrow>
     seqE (modify (\<lambda>s. s\<lparr>clock := now_t\<rparr>))
    (bindE (handle_input K i) (\<lambda>f. case f of
        Continue \<Rightarrow> seqE prompt (ret False)
      | Break \<Rightarrow> bindE (line_done K after) (\<lambda>end. if end then ret True else seqE new_line (seqE prompt (ret False))))))"

fun cli_events :: "'w client \<Rightarrow> event list \<Rightarrow> ('w, bool) cliprog" where
  "cli_events K [] = ret False"
| "cli_events K (e # es) = bindE (cli_step K e) (\<lambda>end. if end then ret True else cli_events K es)"

definition negotiate :: string where
  "negotiate = [CHR 0xFF, CHR 0xFB, CHR 0x03, CHR 0xFF, CHR 0xFB, CHR 0x01,
                CHR 0xFF, CHR 0xFD, CHR 0x03, CHR 0xFF, CHR 0xFD, CHR 0x01]"

definition cli_start :: "'w client \<Rightarrow> ('w, unit) cliprog" where
  "cli_start K =
     seqE (upd_ed (\<lambda>_. \<lparr>cmd = nuls CLI_MAX_LINE_LENGTH, len = 0, cursor = 0, oldcmd = False, oldl = 0, is_telnet_option = 0,
       skip_bytes = 0, esc = 0, in_history = 0, lastchar = CHR 0x00, username = None, password = None\<rparr>))
    (seqE rebuild
    (seqE (set_state STATE_LOGIN)
    (seqE cli_free_history
    (bindE (clif (\<lambda>c. c)) (\<lambda>c.
     seqE (whenE (cl_telnet_protocol c) (put negotiate))
    (seqE (upd_cli (\<lambda>c. c\<lparr>cl_client := True\<rparr>))
    (seqE (case cl_banner c of None \<Rightarrow> ret () | Some b \<Rightarrow> cli_error (rx K) b)
    (seqE touch
    (seqE (cli_set_privilege PRIVILEGE_UNPRIVILEGED)
    (seqE (cli_set_configmode MODE_EXEC None)
    (seqE (whenE (cl_users c = [] \<and> cl_auth_callback c = None) (set_state STATE_NORMAL))
    (seqE new_line prompt))))))))))))"

definition cli_finish :: "('w, unit) cliprog" where
  "cli_finish =
     seqE cli_free_history
    (seqE (upd_ed (\<lambda>e. e\<lparr>username := None, password := None\<rparr>))
          (upd_cli (\<lambda>c. c\<lparr>cl_client := False\<rparr>)))"

text \<open>A session, as far as the events go; \<open>True\<close>: it has ended.\<close>

definition cli_loop :: "'w client \<Rightarrow> event list \<Rightarrow> ('w, bool) cliprog" where
  "cli_loop K es =
     seqE (cli_start K)
    (bindE (cli_events K es) (\<lambda>end. if end then seqE cli_finish (ret True) else ret False))"

section \<open>Starting the library\<close>

definition blank_cli :: cli_def where
  "blank_cli =
     \<lparr>cl_commands = [], cl_auth_callback = None, cl_regular_callback = None, cl_enable_callback = None,
      cl_banner = None, cl_users = [], cl_enable_password = None, cl_history = replicate MAX_HISTORY None,
      cl_showprompt = False, cl_promptchar = [], cl_hostname = None, cl_modestring = None, cl_privilege = 0,
      cl_mode = 0, cl_state = STATE_LOGIN, cl_filters = [], cl_client = False, cl_timeout = 0,
      cl_idle_timeout = 0, cl_idle_callback = None, cl_last_action = 0, cl_telnet_protocol = False,
      cl_hooks = (\<lambda>_. None), cl_completion_free = None, cl_request_prompt = None,
      cl_request_prior_state = STATE_LOGIN, cl_request_callback = [], cl_request_completion = None,
      cl_request_abort = None, cl_config_mode_callback = None\<rparr>"

definition reg :: "nat list \<Rightarrow> string \<Rightarrow> handler option \<Rightarrow> int \<Rightarrow> int \<Rightarrow> string \<Rightarrow> ('w, unit) cliprog" where
  "reg parent name h privilege mode help =
     seqE (cli_register_command parent name h privilege mode (Some help)) (ret ())"

definition cli_init :: "('w, unit) cliprog" where
  "cli_init =
     seqE (upd_cli (\<lambda>_. blank_cli\<lparr>cl_telnet_protocol := True\<rparr>))
    (seqE (reg [] ''help'' (Some cli_int_help) PRIVILEGE_UNPRIVILEGED MODE_ANY ''Show available commands'')
    (seqE (reg [] ''quit'' (Some cli_int_quit) PRIVILEGE_UNPRIVILEGED MODE_ANY ''Disconnect'')
    (seqE (reg [] ''logout'' (Some cli_int_quit) PRIVILEGE_UNPRIVILEGED MODE_ANY ''Disconnect'')
    (seqE (reg [] ''exit'' (Some cli_int_exit) PRIVILEGE_UNPRIVILEGED MODE_ANY ''Exit from current mode'')
    (seqE (reg [] ''history'' (Some cli_int_history) PRIVILEGE_UNPRIVILEGED MODE_ANY ''Show a list of previously run commands'')
    (seqE (reg [] ''enable'' (Some cli_int_enable) PRIVILEGE_UNPRIVILEGED MODE_EXEC ''Turn on privileged commands'')
    (seqE (reg [] ''disable'' (Some cli_int_disable) PRIVILEGE_PRIVILEGED MODE_EXEC ''Turn off privileged commands'')
    (bindE (cli_register_command [] ''configure'' None PRIVILEGE_PRIVILEGED MODE_EXEC (Some ''Enter configuration mode'')) (\<lambda>c.
     seqE (reg c ''terminal'' (Some cli_int_configure_terminal) PRIVILEGE_PRIVILEGED MODE_EXEC ''Configure from the terminal'')
    (seqE (upd_cli (\<lambda>c. c\<lparr>cl_privilege := - 1, cl_mode := - 1\<rparr>))
    (seqE (cli_set_privilege PRIVILEGE_UNPRIVILEGED)
    (seqE (cli_set_configmode MODE_EXEC None)
    (seqE (upd_cli (\<lambda>c. c\<lparr>cl_timeout := 1\<rparr>))
          (cli_set_idle_timeout_callback 0 cli_int_idle_timeout))))))))))))))"

section \<open>Commands from a file\<close>

text \<open>The lines are the results of \<open>fgets\<close>.\<close>

definition trimmed_line :: "string \<Rightarrow> string" where
  "trimmed_line buf =
     (let t = dropWhile is_space (takeWhile (\<lambda>c. c \<noteq> CHR ''#'' \<and> c \<noteq> CHR 0x0D \<and> c \<noteq> CHR 0x0A) buf)
      in rev (dropWhile is_space (rev t)))"

fun file_loop :: "'w client \<Rightarrow> string list \<Rightarrow> ('w, unit) cliprog" where
  "file_loop K [] = ret ()"
| "file_loop K (buf # bufs) =
     (let t = trimmed_line buf in
      if t = [] then file_loop K bufs
      else if strcasecmp_eq t ''quit'' then ret ()
      else bindE (cli_run_command K t) (\<lambda>r. if r = CLI_QUIT then ret () else file_loop K bufs))"

definition cli_file :: "'w client \<Rightarrow> string list \<Rightarrow> int \<Rightarrow> int \<Rightarrow> ('w, int) cliprog" where
  "cli_file K bufs privilege mode =
     bindE (cli_set_privilege privilege) (\<lambda>oldpriv.
     bindE (cli_set_configmode mode None) (\<lambda>oldmode.
     seqE (file_loop K bufs)
    (seqE (cli_set_privilege oldpriv)
    (seqE (cli_set_configmode oldmode None)
    (ret CLI_OK)))))"

end
