(* ===== verification/Commands.thy ===== *)
theory Commands
  imports CliLoop Driver
begin

text \<open>
  The commands of the daemon's terminal, \<^verbatim>\<open>src/src/lmbcli.cpp\<close>: every callback that is registered with
  the command-line library, the tree of commands, and the session of one connection. The world the
  callbacks act on is the daemon's.
\<close>

type_synonym 'a cmdprog = "(world, 'a) cliprog"

definition on_world :: "'a lmb \<Rightarrow> 'a cmdprog" where
  "on_world m = (\<lambda>s. case m (cworld s) of (r, w) \<Rightarrow> (r, s\<lparr>cworld := w\<rparr>))"

section \<open>Access to the context\<close>

text \<open>\<open>boost::unique_lock<boost::mutex> scoped_lock(lmbctx->io_mutex);\<close> up to the end of the block.\<close>

definition scoped_lock :: "'a cmdprog \<Rightarrow> 'a cmdprog" where
  "scoped_lock m = seqE (on_world io_lock) (finallyE m (on_world io_unlock))"

definition with_ctx :: "(lmbctx \<Rightarrow> 'a cmdprog) \<Rightarrow> 'a cmdprog" where
  "with_ctx f = bindE (on_world (ctxf (\<lambda>c. c))) f"

section \<open>Arguments\<close>

text \<open>Behind the words of the line the array of arguments holds null pointers.\<close>

definition arg :: "string list \<Rightarrow> nat \<Rightarrow> string cmdprog" where
  "arg argv i = (if i < length argv then ret (argv ! i) else throw (Undefined ''null pointer''))"

definition quoted :: "string \<Rightarrow> string" where
  "quoted s = [CHR 0x22] @ s @ [CHR 0x22]"

definition answer_ok :: "regex \<Rightarrow> string \<Rightarrow> int cmdprog" where
  "answer_ok X txt = seqE (cli_print X txt) (ret CLI_OK)"

fun print_all :: "regex \<Rightarrow> string list \<Rightarrow> unit cmdprog" where
  "print_all X [] = ret ()"
| "print_all X (l # ls) = seqE (cli_print X l) (print_all X ls)"

section \<open>Showing\<close>

definition cmd_save :: "libs \<Rightarrow> regex \<Rightarrow> int cmdprog" where
  "cmd_save L X = scoped_lock
     (seqE (on_world (save L ''/etc/LMBd.conf''))
     (seqE (cli_print X ''Saved Config'')
     (seqE (on_world (say eInfo ''Saved Config From Terminal''))
     (ret CLI_OK))))"

definition port_list :: "libs \<Rightarrow> PortInfo list cmdprog" where
  "port_list L = gets (\<lambda>s. list_ports (port_files L (wtrace (cworld s))))"

definition cmd_show_ports :: "libs \<Rightarrow> regex \<Rightarrow> string \<Rightarrow> string list \<Rightarrow> int \<Rightarrow> int cmdprog" where
  "cmd_show_ports L X command argv argc =
     seqE (cli_print X (''called cmd_show_ports with '' @ quoted command))
    (seqE (cli_print X (show_int argc @ '' arguments:''))
    (seqE (print_all X (map (\<lambda>a. ''        '' @ a) (take (nat argc) argv)))
    (bindE (port_list L) (\<lambda>pi.
     seqE (print_all X (map (\<lambda>p. ''Port: '' @ pi_port p @ '' Description: '' @ pi_description p) pi)) (ret CLI_OK)))))"

definition cmd_show_port :: "regex \<Rightarrow> int cmdprog" where
  "cmd_show_port X = scoped_lock (with_ctx (\<lambda>c. answer_ok X (''Port: '' @ ctx_port c)))"

text \<open>The bit set is indexed up to the number of messages; beyond its size the access is undefined.\<close>

fun show_slots :: "regex \<Rightarrow> lmbctx \<Rightarrow> nat \<Rightarrow> nat \<Rightarrow> unit cmdprog" where
  "show_slots X c 0 i = ret ()"
| "show_slots X c (Suc n) i =
     (if length (ctx_msgdisplay c) \<le> i - 1 then throw (Undefined ''bitset index out of range'')
      else seqE (whenE (ctx_msgdisplay c ! (i - 1))
             (cli_print X (''Message '' @ show_nat i @ '': '' @ ctx_displayedmsgs c (int i))))
           (show_slots X c n (Suc i)))"

definition cmd_show_messages :: "regex \<Rightarrow> int cmdprog" where
  "cmd_show_messages X = scoped_lock (with_ctx (\<lambda>c. seqE (show_slots X c (ctx_messages c) 1) (ret CLI_OK)))"

definition cmd_show_startupmsgs :: "regex \<Rightarrow> int cmdprog" where
  "cmd_show_startupmsgs X = scoped_lock (with_ctx (\<lambda>c.
     seqE (print_all X (map (\<lambda>i. ''Startup Message '' @ show_nat i @ '': '' @ ctx_startupmsg c (int i))
             [i \<leftarrow> [1..<Suc (ctx_messages c)]. length (ctx_startupmsg c (int i)) > 0]))
       (ret CLI_OK)))"

definition cmd_show_logfiledir :: "regex \<Rightarrow> int cmdprog" where
  "cmd_show_logfiledir X = scoped_lock (with_ctx (\<lambda>c. answer_ok X (''logfiledir set to '' @ ctx_logpath c)))"

definition cmd_show_monitorpath :: "regex \<Rightarrow> int cmdprog" where
  "cmd_show_monitorpath X = scoped_lock (with_ctx (\<lambda>c. answer_ok X (''monitorpath set to '' @ ctx_monitorpath c)))"

section \<open>Setting\<close>

definition cmd_set :: "int cmdprog" where
  "cmd_set = ret CLI_OK"

fun find_port :: "string \<Rightarrow> PortInfo list \<Rightarrow> string option" where
  "find_port name [] = None"
| "find_port name (p # ps) = (if pi_port p = name then Some (pi_port p) else find_port name ps)"

text \<open>
  The test behind the question mark is a test of an address and never true. Where no port
  matches, the message is formatted with the second argument.
\<close>

definition cmd_set_port :: "libs \<Rightarrow> regex \<Rightarrow> string list \<Rightarrow> int cmdprog" where
  "cmd_set_port L X argv =
     bindE (arg argv 0) (\<lambda>name.
     if name = ''?'' then answer_ok X ''Specify a value''
     else bindE (port_list L) (\<lambda>pi.
       case find_port name pi of
         Some prt \<Rightarrow>
           seqE (cli_print X (''Setting Serial Port to '' @ prt))
                (scoped_lock
                  (seqE (on_world (upd_ctx (\<lambda>c. c\<lparr>ctx_port := prt\<rparr>)))
                  (seqE (on_world (say eInfo (''Set a New Serial Port from Terminal: '' @ prt)))
                  (ret CLI_OK))))
       | None \<Rightarrow> bindE (arg argv 1) (\<lambda>a. answer_ok X (''No Serial Port Matching '' @ a @ '' was found''))))"

definition cmd_set_startupmsg :: "regex \<Rightarrow> string list \<Rightarrow> int \<Rightarrow> int cmdprog" where
  "cmd_set_startupmsg X argv argc =
     (if argc < 2 then answer_ok X ''usage: set startupmsg <pos> <message>''
      else scoped_lock (bindE (arg argv 0) (\<lambda>a0. bindE (arg argv 1) (\<lambda>a1. with_ctx (\<lambda>c.
        if ctx_messages c < nat (atoi a0 mod 2 ^ 32) then answer_ok X ''Position out of Range''
        else seqE (on_world (upd_ctx (\<lambda>c. c\<lparr>ctx_startupmsg := (ctx_startupmsg c)(atoi a0 := a1)\<rparr>)))
               (answer_ok X (''Startup Message '' @ show_int (atoi a0) @ '' set to '' @ a1)))))))"

definition set_directory :: "libs \<Rightarrow> regex \<Rightarrow> string list \<Rightarrow> (string \<Rightarrow> lmbctx \<Rightarrow> lmbctx) \<Rightarrow> string \<Rightarrow> int cmdprog" where
  "set_directory L X argv setter name = scoped_lock (bindE (arg argv 0) (\<lambda>dir.
     if \<not> path_exists L dir then answer_ok X (''Directory '' @ dir @ '' doesn't exist'')
     else if \<not> is_directory L dir then answer_ok X (''Path '' @ dir @ '' isn't a directory'')
     else seqE (on_world (upd_ctx (setter dir))) (answer_ok X (name @ '' set to '' @ dir))))"

definition cmd_set_logfiledir :: "libs \<Rightarrow> regex \<Rightarrow> string list \<Rightarrow> int \<Rightarrow> int cmdprog" where
  "cmd_set_logfiledir L X argv argc =
     (if argc < 1 then answer_ok X ''usage: set logfiledir <dir>''
      else set_directory L X argv (\<lambda>dir c. c\<lparr>ctx_logpath := dir\<rparr>) ''LogFileDir'')"

definition cmd_set_monitorpath :: "libs \<Rightarrow> regex \<Rightarrow> string list \<Rightarrow> int \<Rightarrow> int cmdprog" where
  "cmd_set_monitorpath L X argv argc =
     (if argc < 1 then answer_ok X ''usage: set monitorpath <dir>''
      else set_directory L X argv (\<lambda>dir c. c\<lparr>ctx_monitorpath := dir\<rparr>) ''monitorpath'')"

section \<open>Messages\<close>

definition cmd_message :: "os \<Rightarrow> libs \<Rightarrow> regex \<Rightarrow> string list \<Rightarrow> int \<Rightarrow> int cmdprog" where
  "cmd_message sys L X argv argc =
     (if argc < 2 then answer_ok X ''usage: message <pos> <message>''
      else scoped_lock (bindE (arg argv 0) (\<lambda>a0. bindE (arg argv 1) (\<lambda>a1.
        seqE (on_world (drive sys L (atoi a0) a1)) (ret CLI_OK)))))"

definition cmd_clear :: "os \<Rightarrow> libs \<Rightarrow> regex \<Rightarrow> string list \<Rightarrow> int \<Rightarrow> int cmdprog" where
  "cmd_clear sys L X argv argc =
     (if argc < 1 then answer_ok X ''usage: clear <pos>''
      else scoped_lock (bindE (arg argv 0) (\<lambda>a0.
        seqE (on_world (drive sys L (atoi a0) [])) (ret CLI_OK))))"

definition cmd_context :: "int cmdprog" where
  "cmd_context = ret CLI_OK"

definition check_auth :: "string \<Rightarrow> string \<Rightarrow> int" where
  "check_auth user pass = CLI_OK"

definition idle_timeout :: "regex \<Rightarrow> int cmdprog" where
  "idle_timeout X = seqE (cli_print X ''Custom idle timeout'') (ret CLI_QUIT)"

section \<open>The client of the library\<close>

definition lmb_command :: "os \<Rightarrow> libs \<Rightarrow> regex \<Rightarrow> string \<Rightarrow> string \<Rightarrow> string list \<Rightarrow> int \<Rightarrow> int cmdprog" where
  "lmb_command sys L X f command argv argc =
     (if f = ''cmd_set'' then cmd_set
      else if f = ''cmd_set_port'' then cmd_set_port L X argv
      else if f = ''cmd_set_startupmsg'' then cmd_set_startupmsg X argv argc
      else if f = ''cmd_set_logfiledir'' then cmd_set_logfiledir L X argv argc
      else if f = ''cmd_set_monitorpath'' then cmd_set_monitorpath L X argv argc
      else if f = ''cmd_save'' then cmd_save L X
      else if f = ''cmd_show_ports'' then cmd_show_ports L X command argv argc
      else if f = ''cmd_show_port'' then cmd_show_port X
      else if f = ''cmd_show_messages'' then cmd_show_messages X
      else if f = ''cmd_show_startupmsgs'' then cmd_show_startupmsgs X
      else if f = ''cmd_show_logfiledir'' then cmd_show_logfiledir X
      else if f = ''cmd_show_monitorpath'' then cmd_show_monitorpath X
      else if f = ''cmd_message'' then cmd_message sys L X argv argc
      else if f = ''cmd_clear'' then cmd_clear sys L X argv argc
      else throw (Undefined ''unknown function''))"

text \<open>The program registers no other callback than the one for idle sessions.\<close>

definition lmb_client :: "os \<Rightarrow> libs \<Rightarrow> regex \<Rightarrow> (string \<Rightarrow> string \<Rightarrow> string) \<Rightarrow> world client" where
  "lmb_client sys L X cr =
     \<lparr>rx = X, on_command = lmb_command sys L X,
      on_auth = (\<lambda>f u p. throw (Undefined ''unknown function'')),
      on_enable = (\<lambda>f p. throw (Undefined ''unknown function'')),
      on_call = (\<lambda>f. if f = ''idle_timeout'' then idle_timeout X else throw (Undefined ''unknown function'')),
      on_request = (\<lambda>f t. throw (Undefined ''unknown function'')),
      on_complete = (\<lambda>f c ws. throw (Undefined ''unknown function'')), crypt = cr\<rparr>"

section \<open>The session of a connection\<close>

definition set_group :: "unit cmdprog" where
  "set_group =
     bindE (cli_register_command [] ''set'' (Some (client_fun ''cmd_set'')) PRIVILEGE_PRIVILEGED MODE_EXEC None) (\<lambda>c.
     seqE (reg c ''port'' (Some (client_fun ''cmd_set_port'')) PRIVILEGE_PRIVILEGED MODE_EXEC ''Set Serial Port'')
    (seqE (reg c ''startupmsg'' (Some (client_fun ''cmd_set_startupmsg'')) PRIVILEGE_PRIVILEGED MODE_EXEC ''Set Serial Port'')
    (seqE (reg c ''logfilepath'' (Some (client_fun ''cmd_set_logfiledir'')) PRIVILEGE_PRIVILEGED MODE_EXEC ''Set Log File Directory'')
          (reg c ''monitorpath'' (Some (client_fun ''cmd_set_monitorpath'')) PRIVILEGE_PRIVILEGED MODE_EXEC ''Set Monitor File Directory''))))"

definition show_group :: "unit cmdprog" where
  "show_group =
     bindE (cli_register_command [] ''show'' None PRIVILEGE_UNPRIVILEGED MODE_EXEC None) (\<lambda>c.
     seqE (reg c ''ports'' (Some (client_fun ''cmd_show_ports'')) PRIVILEGE_UNPRIVILEGED MODE_EXEC ''Show available Serial Ports'')
    (seqE (reg c ''port'' (Some (client_fun ''cmd_show_port'')) PRIVILEGE_UNPRIVILEGED MODE_EXEC ''Show Configured Serial Port'')
    (seqE (reg c ''messages'' (Some (client_fun ''cmd_show_messages'')) PRIVILEGE_UNPRIVILEGED MODE_EXEC ''Show Current Messages'')
    (seqE (reg c ''startupmsg'' (Some (client_fun ''cmd_show_startupmsgs'')) PRIVILEGE_UNPRIVILEGED MODE_EXEC ''Show Current Messages'')
    (seqE (reg c ''logfiledir'' (Some (client_fun ''cmd_show_logfiledir'')) PRIVILEGE_UNPRIVILEGED MODE_EXEC ''Show LogFile Directory'')
          (reg c ''monitorpath'' (Some (client_fun ''cmd_show_monitorpath'')) PRIVILEGE_UNPRIVILEGED MODE_EXEC ''Show Monitor file Directory''))))))"

text \<open>\<open>Startcliloop\<close> up to the call of \<open>cli_loop\<close>.\<close>

definition prepare_cli :: "unit cmdprog" where
  "prepare_cli =
     seqE cli_init
    (seqE (cli_set_banner ''Led Message Board'')
    (seqE (cli_set_hostname ''LMB'')
    (seqE (cli_telnet_protocol True)
    (seqE (scoped_lock (with_ctx (\<lambda>c.
             seqE (cli_allow_user (ctx_username c) (ctx_password c)) (cli_allow_enable (ctx_enablepass c)))))
    (seqE (cli_set_idle_timeout_callback 60 (client_fun ''idle_timeout''))
    (seqE set_group
    (seqE (reg [] ''save'' (Some (client_fun ''cmd_save'')) PRIVILEGE_PRIVILEGED MODE_EXEC ''Save Config'')
    (seqE show_group
    (seqE (reg [] ''message'' (Some (client_fun ''cmd_message'')) PRIVILEGE_UNPRIVILEGED MODE_EXEC ''Set a Message to be displayed'')
    (seqE (reg [] ''clear'' (Some (client_fun ''cmd_clear'')) PRIVILEGE_UNPRIVILEGED MODE_EXEC ''Clear a Message'')
          (on_world (say eInfo ''accepted new CLI Connection''))))))))))))"

definition finish_cli :: "unit cmdprog" where
  "finish_cli = on_world (say eInfo ''closed CLI Connection'')"

text \<open>An exception that leaves the function a thread runs ends the program.\<close>

definition thread_main :: "'a cmdprog \<Rightarrow> 'a cmdprog" where
  "thread_main m = (\<lambda>s. case m s of
       (Inl e, t) \<Rightarrow> (Inl (if unwinds e then Terminate else e), t)
     | (Inr x, t) \<Rightarrow> (Inr x, t))"

definition Startcliloop :: "os \<Rightarrow> libs \<Rightarrow> regex \<Rightarrow> (string \<Rightarrow> string \<Rightarrow> string) \<Rightarrow> event list \<Rightarrow> bool cmdprog" where
  "Startcliloop sys L X cr es = thread_main
     (seqE prepare_cli
     (bindE (cli_loop (lmb_client sys L X cr) es) (\<lambda>end.
      seqE (whenE end finish_cli) (ret end))))"

end
