(* ===== verification/Inotify.thy ===== *)
theory Inotify
  imports Driver
begin

text \<open>
  The wrapper of the kernel's notification interface, \<^verbatim>\<open>src/src/iNotifyEngine.hpp\<close> and
  \<^verbatim>\<open>src/src/iNotifyEvent.hpp\<close>, and the file monitor built on it,
  \<^verbatim>\<open>src/src/FileMonitor.cpp\<close>. What the kernel answers is a parameter: the descriptor for a new watch,
  and the results of the reads with the times they come at.
\<close>

section \<open>Events\<close>

definition IN_ACCESS :: u32 where "IN_ACCESS = 0x1"
definition IN_MODIFY :: u32 where "IN_MODIFY = 0x2"
definition IN_ATTRIB :: u32 where "IN_ATTRIB = 0x4"
definition IN_CLOSE_WRITE :: u32 where "IN_CLOSE_WRITE = 0x8"
definition IN_CLOSE_NOWRITE :: u32 where "IN_CLOSE_NOWRITE = 0x10"
definition IN_CLOSE :: u32 where "IN_CLOSE = 0x18"
definition IN_OPEN :: u32 where "IN_OPEN = 0x20"
definition IN_MOVED_FROM :: u32 where "IN_MOVED_FROM = 0x40"
definition IN_MOVED_TO :: u32 where "IN_MOVED_TO = 0x80"
definition IN_CREATE :: u32 where "IN_CREATE = 0x100"
definition IN_DELETE :: u32 where "IN_DELETE = 0x200"
definition IN_DELETE_SELF :: u32 where "IN_DELETE_SELF = 0x400"
definition IN_MOVE_SELF :: u32 where "IN_MOVE_SELF = 0x800"
definition IN_ALL_EVENTS :: u32 where "IN_ALL_EVENTS = 0xFFF"
definition IN_UNMOUNT :: u32 where "IN_UNMOUNT = 0x2000"
definition IN_Q_OVERFLOW :: u32 where "IN_Q_OVERFLOW = 0x4000"
definition IN_IGNORED :: u32 where "IN_IGNORED = 0x8000"
definition IN_ISDIR :: u32 where "IN_ISDIR = 0x40000000"
definition IN_ONESHOT :: u32 where "IN_ONESHOT = 0x80000000"

record FileSystemEvent =
  isRecursive :: bool
  ev_wd :: int
  ev_mask :: u32
  ev_path :: string

definition new_event :: "int \<Rightarrow> u32 \<Rightarrow> string \<Rightarrow> FileSystemEvent" where
  "new_event wd msk path = \<lparr>isRecursive = False, ev_wd = wd, ev_mask = msk, ev_path = path\<rparr>"

definition mask_names :: "(u32 \<times> string) list" where
  "mask_names =
     [(IN_ACCESS, ''IN_ACCESS ''), (IN_ATTRIB, ''IN_ATTRIB ''), (IN_CLOSE_WRITE, ''IN_CLOSE_WRITE ''),
      (IN_CLOSE_NOWRITE, ''IN_CLOSE_NOWRITE ''), (IN_CREATE, ''IN_CREATE ''), (IN_DELETE, ''IN_DELETE ''),
      (IN_DELETE_SELF, ''IN_DELETE_SELF ''), (IN_MODIFY, ''IN_MODIFY ''), (IN_MOVE_SELF, ''IN_MOVE_SELF ''),
      (IN_MOVED_FROM, ''IN_MOVED_FROM ''), (IN_MOVED_TO, ''IN_MOVED_TO ''), (IN_OPEN, ''IN_OPEN ''),
      (IN_ISDIR, ''IN_ISDIR ''), (IN_UNMOUNT, ''IN_UNMOUNT ''), (IN_Q_OVERFLOW, ''IN_Q_OVERFLOW ''),
      (IN_CLOSE, ''IN_CLOSE ''), (IN_IGNORED, ''IN_IGNORED ''), (IN_ONESHOT, ''IN_ONESHOT '')]"

definition maskToString :: "u32 \<Rightarrow> string" where
  "maskToString msk = concat (map (\<lambda>(bit, name). if bit AND msk \<noteq> 0 then name else []) mask_names)"

definition getMaskString :: "FileSystemEvent \<Rightarrow> string" where
  "getMaskString e = maskToString (ev_mask e)"

section \<open>The object and the kernel\<close>

text \<open>The map from descriptors to paths is read with \<open>operator[]\<close>: an unknown one has the empty path.\<close>

record inotify =
  mError :: int
  mEventTimeout :: int
  mLastEventTime :: int
  mEventMask :: u32
  mIgnoredDirectories :: "string list"
  mOnceIgnoredDirectories :: "string list"
  mEventQueue :: "FileSystemEvent list"
  mDirectorieMap :: "int \<Rightarrow> string"
  mInotifyFd :: int

text \<open>
  The kernel: the errors are on the left. The descriptor of a new watch may depend on the paths
  that are watched already.
\<close>

record kernel =
  k_inotify_init :: "int + int"
  k_add_watch :: "string list \<Rightarrow> string \<Rightarrow> u32 \<Rightarrow> int + int"
  k_rm_watch :: "int \<Rightarrow> int option"
  k_strerror :: "int \<Rightarrow> string"
  k_tree :: "string \<Rightarrow> string list"
  k_is_symlink :: "string \<Rightarrow> bool"

text \<open>
  The state of the monitoring thread: the object, the paths the kernel watches, the files below
  the monitored directory, whether the thread has been started, and the daemon's world.
\<close>

record monitor =
  ino :: inotify
  watched :: "string list"
  spool :: "string \<Rightarrow> string option"
  started :: bool
  mworld :: world

type_synonym 'a mon = "(monitor, 'a) prog"

definition in_world :: "'a lmb \<Rightarrow> 'a mon" where
  "in_world m = (\<lambda>s. case m (mworld s) of (r, w) \<Rightarrow> (r, s\<lparr>mworld := w\<rparr>))"

definition upd_ino :: "(inotify \<Rightarrow> inotify) \<Rightarrow> unit mon" where
  "upd_ino f = modify (\<lambda>s. s\<lparr>ino := f (ino s)\<rparr>)"

definition fails :: "kernel \<Rightarrow> string \<Rightarrow> int \<Rightarrow> string \<Rightarrow> 'a mon" where
  "fails K txt err tail =
     seqE (upd_ino (\<lambda>m. m\<lparr>mError := err\<rparr>)) (throw (RuntimeError (txt @ k_strerror K err @ ''.'' @ tail)))"

section \<open>Making and removing watches\<close>

definition new_inotify :: "string list \<Rightarrow> nat \<Rightarrow> u32 \<Rightarrow> inotify" where
  "new_inotify ignored timeout msk =
     \<lparr>mError = 0, mEventTimeout = int timeout, mLastEventTime = 0, mEventMask = msk, mIgnoredDirectories = ignored,
      mOnceIgnoredDirectories = [], mEventQueue = [], mDirectorieMap = (\<lambda>_. []), mInotifyFd = 0\<rparr>"

definition inotify_ctor :: "kernel \<Rightarrow> string list \<Rightarrow> nat \<Rightarrow> u32 \<Rightarrow> unit mon" where
  "inotify_ctor K ignored timeout msk =
     seqE (upd_ino (\<lambda>_. new_inotify ignored timeout msk))
       (case k_inotify_init K of
          Inl err \<Rightarrow> seqE (upd_ino (\<lambda>m. m\<lparr>mInotifyFd := - 1\<rparr>)) (fails K ''Can't initialize inotify ! '' err [])
        | Inr fd \<Rightarrow> upd_ino (\<lambda>m. m\<lparr>mInotifyFd := fd\<rparr>))"

fun ignore_once :: "string \<Rightarrow> string list \<Rightarrow> string list option" where
  "ignore_once file [] = None"
| "ignore_once file (d # ds) =
     (if contains file d then Some ds else (case ignore_once file ds of None \<Rightarrow> None | Some ds' \<Rightarrow> Some (d # ds')))"

definition isIgnored :: "string \<Rightarrow> inotify \<Rightarrow> bool \<times> inotify" where
  "isIgnored file m =
     (if mIgnoredDirectories m = [] \<and> mOnceIgnoredDirectories m = [] then (False, m)
      else (case ignore_once file (mOnceIgnoredDirectories m) of
          Some ds \<Rightarrow> (True, m\<lparr>mOnceIgnoredDirectories := ds\<rparr>)
        | None \<Rightarrow> (list_ex (contains file) (mIgnoredDirectories m), m)))"

definition onTimeout :: "int \<Rightarrow> inotify \<Rightarrow> bool" where
  "onTimeout eventTime m \<longleftrightarrow> mLastEventTime m + mEventTimeout m > eventTime"

definition ignoreFileOnce :: "string \<Rightarrow> unit mon" where
  "ignoreFileOnce file = upd_ino (\<lambda>m. m\<lparr>mOnceIgnoredDirectories := mOnceIgnoredDirectories m @ [file]\<rparr>)"

definition exists_file :: "libs \<Rightarrow> string \<Rightarrow> bool mon" where
  "exists_file L p = gets (\<lambda>s. path_exists L p \<or> spool s p \<noteq> None)"

definition watchFile :: "kernel \<Rightarrow> libs \<Rightarrow> string \<Rightarrow> unit mon" where
  "watchFile K L p =
     bindE (exists_file L p) (\<lambda>there.
     whenE there
      (seqE (upd_ino (\<lambda>m. m\<lparr>mError := 0\<rparr>))
      (bindE (gets (\<lambda>s. isIgnored p (ino s))) (\<lambda>(ignored, m).
       seqE (upd_ino (\<lambda>_. m))
      (bindE (gets (\<lambda>s. if ignored then Inr 0 else k_add_watch K (watched s) p (mEventMask m))) (\<lambda>r.
       case r of
         Inl err \<Rightarrow> fails K ''Failed to watch! '' err
           (if err = 28 then '' Please increase number of watches in '' @ [CHR 0x22] @ ''/proc/sys/fs/inotify/max_user_watches'' @ [CHR 0x22] @ ''.''
            else '' Path: '' @ p)
       | Inr wd \<Rightarrow>
           seqE (whenE (\<not> ignored) (modify (\<lambda>s. s\<lparr>watched := watched s @ [p]\<rparr>)))
                (upd_ino (\<lambda>m. m\<lparr>mDirectorieMap := (mDirectorieMap m)(wd := p)\<rparr>))))))))"

fun watch_tree :: "kernel \<Rightarrow> libs \<Rightarrow> string list \<Rightarrow> unit mon" where
  "watch_tree K L [] = ret ()"
| "watch_tree K L (p # ps) =
     seqE (whenE (is_directory L p) (watchFile K L p))
    (seqE (whenE (k_is_symlink K p) (watchFile K L p))
          (watch_tree K L ps))"

definition watchDirectoryRecursively :: "kernel \<Rightarrow> libs \<Rightarrow> string \<Rightarrow> unit mon" where
  "watchDirectoryRecursively K L p =
     bindE (exists_file L p) (\<lambda>there.
     if there then seqE (whenE (is_directory L p) (watch_tree K L (k_tree K p))) (watchFile K L p)
     else throw (InvalidArgument (''Can't watch Path! Path does not exist. Path: '' @ p)))"

definition removeWatch :: "kernel \<Rightarrow> int \<Rightarrow> unit mon" where
  "removeWatch K wd = (case k_rm_watch K wd of
      Some err \<Rightarrow> fails K ''Failed to remove watch! '' err []
    | None \<Rightarrow> upd_ino (\<lambda>m. m\<lparr>mDirectorieMap := (mDirectorieMap m)(wd := [])\<rparr>))"

section \<open>The events of one read\<close>

text \<open>
  \<open>struct inotify_event\<close>: four little-endian words (descriptor, mask, cookie, length of the name)
  and the name. The buffer is filled with zeros behind the bytes read.
\<close>

definition le32 :: "u8 list \<Rightarrow> u32" where
  "le32 bs = (\<Sum>i = 0..<4. push_bit (8 * i) (ucast (bs ! i)))"

definition wdToPath :: "inotify \<Rightarrow> int \<Rightarrow> string" where
  "wdToPath m wd = mDirectorieMap m wd"

function decode_events :: "libs \<Rightarrow> inotify \<Rightarrow> u8 list \<Rightarrow> FileSystemEvent list" where
  "decode_events L m bs =
     (if bs = [] then []
      else
        let b = bs @ replicate 16 0;
            wd = sint (le32 b);
            path = wdToPath m wd;
            msk = le32 (drop 4 b) OR (if is_directory L path then IN_ISDIR else 0);
            n = unat (le32 (drop 12 b));
            rest = decode_events L m (drop (16 + n) bs)
        in if path = [] then rest else new_event wd msk path # rest)"
  by auto
termination by (relation "measure (\<lambda>(L, m, bs). length bs)") auto

declare decode_events.simps [simp del]

text \<open>
  The filter. After \<open>erase\<close> the iterator already points to the next element and is advanced once
  more: the element behind an erased one stays in the vector, unseen. Behind the last element the
  iterator leaves the vector.
\<close>

fun filter_events :: "int \<Rightarrow> inotify \<Rightarrow> FileSystemEvent list \<Rightarrow> exn + FileSystemEvent list \<times> inotify" where
  "filter_events t m [] = Inr ([], m)"
| "filter_events t m (e # es) =
     (let (ignored, m') = (if onTimeout t m then (True, m) else isIgnored (ev_path e) m)
      in if ignored then
           (case es of
              [] \<Rightarrow> Inl (Undefined ''iterator behind the end'')
            | e2 # es2 \<Rightarrow> bindR (filter_events t m' es2) (\<lambda>(kept, m2). Inr (e2 # kept, m2)))
         else bindR (filter_events t (m'\<lparr>mLastEventTime := t, mEventQueue := mEventQueue m' @ [e]\<rparr>) es)
                (\<lambda>(kept, m2). Inr (e # kept, m2)))"

text \<open>
  The results of \<open>read\<close>, an error or the bytes, each with the time after it. Waiting for ever is
  \<open>NoReturn\<close>; so is an error that never ends, which the loop retries like an interrupted call.
\<close>

type_synonym ino_input = "(int + u8 list) \<times> int"

fun get_loop :: "libs \<Rightarrow> FileSystemEvent list \<Rightarrow> inotify \<Rightarrow> ino_input list \<Rightarrow> (exn + FileSystemEvent \<times> ino_input list) \<times> inotify" where
  "get_loop L events m [] = (case mEventQueue m of
      e # q \<Rightarrow> (Inr (e, []), m\<lparr>mEventQueue := q\<rparr>) | [] \<Rightarrow> (Inl NoReturn, m))"
| "get_loop L events m ((r, t) # ins) = (case mEventQueue m of
      e # q \<Rightarrow> (Inr (e, (r, t) # ins), m\<lparr>mEventQueue := q\<rparr>)
    | [] \<Rightarrow> (case r of
        Inl err \<Rightarrow> get_loop L events (m\<lparr>mError := err\<rparr>) ins
      | Inr bs \<Rightarrow> (if bs = [] then get_loop L events m ins else case filter_events t m (events @ decode_events L m bs) of
          Inl e \<Rightarrow> (Inl e, m)
        | Inr (kept, m') \<Rightarrow> get_loop L kept m' ins)))"

definition getNextEvent :: "libs \<Rightarrow> ino_input list \<Rightarrow> (FileSystemEvent \<times> ino_input list) mon" where
  "getNextEvent L ins = (\<lambda>s. case get_loop L [] (ino s) ins of (r, m) \<Rightarrow> (r, s\<lparr>ino := m\<rparr>))"

definition getLastErrno :: "int mon" where
  "getLastErrno = gets (\<lambda>s. mError (ino s))"

section \<open>The file monitor\<close>

definition message_file :: "string \<Rightarrow> nat \<Rightarrow> string" where
  "message_file dir i = dir @ (if dir \<noteq> [] \<and> last dir \<noteq> CHR ''/'' then ''/'' else []) @ ''message-'' @ show_nat i"

definition path_text :: "string \<Rightarrow> string" where
  "path_text p = [CHR 0x22] @ p @ [CHR 0x22]"

text \<open>\<open>remove_all\<close> for every entry of the directory: the files below it are gone.\<close>

definition clear_spool :: "unit mon" where
  "clear_spool = modify (\<lambda>s. s\<lparr>spool := (\<lambda>_. None)\<rparr>)"

definition touch_file :: "string \<Rightarrow> unit mon" where
  "touch_file p = modify (\<lambda>s. s\<lparr>spool := (spool s)(p := (case spool s p of None \<Rightarrow> Some [] | Some t \<Rightarrow> Some t))\<rparr>)"

fun create_files :: "kernel \<Rightarrow> libs \<Rightarrow> string \<Rightarrow> nat \<Rightarrow> nat \<Rightarrow> unit mon" where
  "create_files K L dir 0 i = ret ()"
| "create_files K L dir (Suc n) i =
     seqE (in_world (say eInfo (''Creating Message File: '' @ path_text (message_file dir i))))
    (seqE (touch_file (message_file dir i))
    (seqE (watchFile K L (message_file dir i))
          (create_files K L dir n (Suc i))))"

definition init_monitor :: "kernel \<Rightarrow> libs \<Rightarrow> bool mon" where
  "init_monitor K L =
     bindE (gets (\<lambda>s. ctx (mworld s))) (\<lambda>c.
     let dir = ctx_monitorpath c in
     if \<not> path_exists L dir then seqE (in_world (say eError ''Monitor Path does not exist'')) (ret False)
     else if \<not> is_directory L dir then seqE (in_world (say eError ''Monitor Path is not a directory'')) (ret False)
     else
       seqE clear_spool
      (seqE (create_files K L dir (ctx_messages c) 1)
      (seqE (modify (\<lambda>s. s\<lparr>started := True\<rparr>))
      (ret True))))"

definition FileMonitor_init :: "kernel \<Rightarrow> libs \<Rightarrow> bool mon" where
  "FileMonitor_init K L = seqE (in_world io_lock) (finallyE (init_monitor K L) (in_world io_unlock))"

text \<open>One round of the monitoring thread: a file was closed after writing, its text goes to a slot.\<close>

definition file_text :: "string \<Rightarrow> string mon" where
  "file_text p = gets (\<lambda>s. case spool s p of None \<Rightarrow> [] | Some t \<Rightarrow> filter (\<lambda>c. c \<noteq> CHR 0x0A) t)"

definition monitor_round :: "os \<Rightarrow> libs \<Rightarrow> ino_input list \<Rightarrow> ino_input list mon" where
  "monitor_round sys L ins =
     bindE (getNextEvent L ins) (\<lambda>(e, ins').
     bindE (file_text (ev_path e)) (\<lambda>message.
     seqE (in_world (say eInfo (''Message in Slot '' @ show_int (ev_wd e) @ '' was '' @ message)))
    (seqE (in_world (locked (drive sys L (ev_wd e) message)))
    (ret ins'))))"

text \<open>The thread, as far as the inputs go.\<close>

fun MonitorFiles :: "os \<Rightarrow> libs \<Rightarrow> nat \<Rightarrow> ino_input list \<Rightarrow> unit mon" where
  "MonitorFiles sys L 0 ins = ret ()"
| "MonitorFiles sys L (Suc n) ins = bindE (monitor_round sys L ins) (\<lambda>ins'. MonitorFiles sys L n ins')"

end
