(* ===== verification/Daemon.thy ===== *)
theory Daemon
  imports Commands Inotify
begin

text \<open>
  The program, \<^verbatim>\<open>main\<close> of \<^verbatim>\<open>src/src/lmbd.cpp\<close>: start-up, and the threads that run from then on, the one
  that accepts connections, one for each connection, and the file monitor's.
\<close>

section \<open>Start-up\<close>

text \<open>The options, as the library for program options delivers them, and the results of the socket calls.\<close>

record options =
  opt_help :: bool
  opt_config :: "string option"
  opt_debug :: bool

record network =
  net_socket :: int
  net_bind :: int
  net_listen :: int

text \<open>The outcome: the program returns with a code, or it listens for connections.\<close>

datatype outcome = Exit int | Listening

definition quits :: "int \<Rightarrow> outcome mon" where
  "quits n = ret (Exit n)"

definition set_default_level :: "Level \<Rightarrow> unit logp" where
  "set_default_level lvl = modify (\<lambda>l. l\<lparr>default_level := lvl\<rparr>)"

definition config_path :: "options \<Rightarrow> string" where
  "config_path opts = (case opt_config opts of None \<Rightarrow> ''/etc/LMBd.conf'' | Some p \<Rightarrow> p)"

fun startup_messages :: "os \<Rightarrow> libs \<Rightarrow> nat \<Rightarrow> nat \<Rightarrow> unit lmb" where
  "startup_messages sys L 0 i = ret ()"
| "startup_messages sys L (Suc n) i =
     bindE (ctxf (\<lambda>c. ctx_startupmsg c (int i))) (\<lambda>m.
     seqE (whenE (length m > 0) (drive sys L (int i) m)) (startup_messages sys L n (Suc i)))"

definition first_session :: "os \<Rightarrow> unit lmb" where
  "first_session sys = start_driver (Driver_Init sys) Driver_StartUp (Driver_Fini sys)"

text \<open>
  Loading the configuration is the only part whose exceptions are caught. The member
  \<open>consolelog\<close> of the new context is not initialised, \<open>garbage\<close>; so is the size of a log file that
  cannot be examined, \<open>junk\<close>.
\<close>

definition try_load :: "libs \<Rightarrow> string \<Rightarrow> bool lmb" where
  "try_load L f = (\<lambda>w. case load L f w of
       (Inl e, w') \<Rightarrow> (if unwinds e then (Inr False, w') else (Inl e, w'))
     | (Inr _, w') \<Rightarrow> (Inr True, w'))"

definition listen_loop :: "network \<Rightarrow> outcome mon" where
  "listen_loop net =
     (if net_socket net < 0 then seqE (in_world (say eError ''Socket Error'')) (quits 1)
      else if net_bind net < 0 then seqE (in_world (say eError ''bind Error'')) (quits 1)
      else if net_listen net < 0 then seqE (in_world (say eError ''listen Error'')) (quits 1)
      else seqE (in_world (say eInfo ''Listening on port 8000'')) (ret Listening))"

definition serve :: "os \<Rightarrow> libs \<Rightarrow> kernel \<Rightarrow> network \<Rightarrow> int \<Rightarrow> outcome mon" where
  "serve sys L K net junk =
     seqE (in_world (bindE (ctxf ctx_configList) (\<lambda>cs. on_logs (configure junk cs))))
    (seqE (in_world (first_session sys))
    (seqE (in_world (bindE (ctxf ctx_messages) (\<lambda>n. startup_messages sys L n 1)))
    (seqE (FileMonitor_init K L)
    (listen_loop net))))"

definition main_start :: "os \<Rightarrow> libs \<Rightarrow> kernel \<Rightarrow> options \<Rightarrow> network \<Rightarrow> bool \<Rightarrow> int \<Rightarrow> outcome mon" where
  "main_start sys L K opts net garbage junk =
     seqE (inotify_ctor K [] 0 IN_CLOSE_WRITE)
    (if opt_help opts then quits 1
     else if \<not> path_exists L (config_path opts) then quits (- 1)
     else
       seqE (in_world (on_logs (set_default_level (if opt_debug opts then eDebug else eInfo))))
      (seqE (in_world (on_logs (manager_get ''LMBd'')))
      (seqE (in_world (upd_ctx (\<lambda>_. initial_ctx garbage)))
      (bindE (in_world (try_load L (config_path opts))) (\<lambda>ok.
       if ok then serve sys L K net junk else quits (- 1))))))"

section \<open>The threads\<close>

text \<open>
  A connection: its session without the world, and whether it still runs. The world is
  shared. A thread does one event of its session at a time; the events of different threads
  come in any order. An event runs at most one command, and the command holds the mutex of the
  context for all its accesses to the world.
\<close>

record connection =
  cn_cli :: cli_def
  cn_edit :: line_edit
  cn_screen :: string
  cn_clock :: int
  cn_open :: bool

record system =
  shared :: monitor
  connections :: "connection list"
  crashed :: bool

definition join_session :: "connection \<Rightarrow> world \<Rightarrow> world sess" where
  "join_session cn w = \<lparr>cli = cn_cli cn, edit = cn_edit cn, screen = cn_screen cn, clock = cn_clock cn, cworld = w\<rparr>"

definition split_session :: "world sess \<Rightarrow> bool \<Rightarrow> connection" where
  "split_session s opn = \<lparr>cn_cli = cli s, cn_edit = edit s, cn_screen = screen s, cn_clock = clock s, cn_open = opn\<rparr>"

definition blank_edit :: line_edit where
  "blank_edit = \<lparr>cmd = [], len = 0, cursor = 0, oldcmd = False, oldl = 0, is_telnet_option = 0, skip_bytes = 0,
     esc = 0, in_history = 0, lastchar = CHR 0x00, username = None, password = None\<rparr>"

definition fresh_connection :: "int \<Rightarrow> connection" where
  "fresh_connection t = \<lparr>cn_cli = blank_cli, cn_edit = blank_edit, cn_screen = [], cn_clock = t, cn_open = True\<rparr>"

text \<open>The client's functions, with the libraries they depend on.\<close>

record deps =
  su_os :: os
  su_libs :: libs
  su_regex :: regex
  su_crypt :: "string \<Rightarrow> string \<Rightarrow> string"

definition su_client :: "deps \<Rightarrow> world client" where
  "su_client S = lmb_client (su_os S) (su_libs S) (su_regex S) (su_crypt S)"

definition open_session :: "deps \<Rightarrow> unit cmdprog" where
  "open_session S = seqE prepare_cli (cli_start (su_client S))"

definition session_event :: "deps \<Rightarrow> event \<Rightarrow> bool cmdprog" where
  "session_event S e = bindE (cli_step (su_client S) e) (\<lambda>end. seqE (whenE end (seqE cli_finish finish_cli)) (ret end))"

text \<open>
  What can happen: \<open>accept\<close> returns, an event of a connection, an event of the file monitor after
  someone has written a file.
\<close>

text \<open>
  A thread whose program is \<open>NoReturn\<close> hangs, with the mutex if it holds it; the monitor's thread waits
  for the next event. Any other exception that leaves a thread ends the program.
\<close>

datatype action =
    Accept int int
  | Session nat event
  | Wrote string string "ino_input list"

definition world_of :: "system \<Rightarrow> world" where
  "world_of s = mworld (shared s)"

definition put_world :: "world \<Rightarrow> system \<Rightarrow> system" where
  "put_world w s = s\<lparr>shared := (shared s)\<lparr>mworld := w\<rparr>\<rparr>"

text \<open>
  \<open>accept\<close> returned \<open>x\<close>, not 0. An error, -1, is a connection like any other. The connection is
  counted before its thread starts.
\<close>

definition accept_action :: "deps \<Rightarrow> int \<Rightarrow> int \<Rightarrow> system \<Rightarrow> system" where
  "accept_action S x t s =
     (let w = world_of s in
      if length (ctx_clients (ctx w)) < ctx_max_cli (ctx w) then
        (let w1 = w\<lparr>ctx := (ctx w)\<lparr>ctx_clients := ctx_clients (ctx w) @ [x]\<rparr>\<rparr> in
         case open_session S (join_session (fresh_connection t) w1) of
           (Inl e, s') \<Rightarrow> (put_world (cworld s') s)\<lparr>crashed := True\<rparr>
         | (Inr _, s') \<Rightarrow> (put_world (cworld s') s)\<lparr>connections := connections s @ [split_session s' True]\<rparr>)
      else
        (case say eWarning ''Dropping Client Connection as we are at our Max'' w of
           (Inl e, w') \<Rightarrow> (put_world w' s)\<lparr>crashed := True\<rparr>
         | (Inr _, w') \<Rightarrow> put_world w' s))"

definition session_action :: "deps \<Rightarrow> nat \<Rightarrow> event \<Rightarrow> system \<Rightarrow> system" where
  "session_action S i e s =
     (case session_event S e (join_session (connections s ! i) (world_of s)) of
        (Inl NoReturn, s') \<Rightarrow> (put_world (cworld s') s)\<lparr>connections := (connections s)[i := split_session s' False]\<rparr>
      | (Inl ex, s') \<Rightarrow> (put_world (cworld s') s)\<lparr>crashed := True\<rparr>
      | (Inr end, s') \<Rightarrow> (put_world (cworld s') s)\<lparr>connections := (connections s)[i := split_session s' (\<not> end)]\<rparr>)"

definition wrote_action :: "deps \<Rightarrow> string \<Rightarrow> string \<Rightarrow> ino_input list \<Rightarrow> system \<Rightarrow> system" where
  "wrote_action S p txt ins s =
     (case monitor_round (su_os S) (su_libs S) ins ((shared s)\<lparr>spool := (spool (shared s))(p \<mapsto> txt)\<rparr>) of
        (Inl NoReturn, m) \<Rightarrow> s\<lparr>shared := m\<rparr>
      | (Inl e, m) \<Rightarrow> s\<lparr>shared := m, crashed := True\<rparr>
      | (Inr _, m) \<Rightarrow> s\<lparr>shared := m\<rparr>)"

inductive sys_step :: "deps \<Rightarrow> action \<Rightarrow> system \<Rightarrow> system \<Rightarrow> bool" for S where
  accept: "\<not> crashed s \<Longrightarrow> x \<noteq> 0 \<Longrightarrow> sys_step S (Accept x t) s (accept_action S x t s)"
| session: "\<not> crashed s \<Longrightarrow> i < length (connections s) \<Longrightarrow> cn_open (connections s ! i) \<Longrightarrow>
     sys_step S (Session i e) s (session_action S i e s)"
| wrote: "\<not> crashed s \<Longrightarrow> started (shared s) \<Longrightarrow> sys_step S (Wrote p txt ins) s (wrote_action S p txt ins s)"

inductive_cases sys_stepE: "sys_step S a s s'"

inductive sys_run :: "deps \<Rightarrow> action list \<Rightarrow> system \<Rightarrow> system \<Rightarrow> bool" for S where
  stop: "sys_run S [] s s"
| go: "sys_step S a s s1 \<Longrightarrow> sys_run S as s1 s2 \<Longrightarrow> sys_run S (a # as) s s2"

end
