(* ===== verification/CliFrame.thy ===== *)
theory CliFrame
  imports CliLoop
begin

text \<open>
  What the library never touches by itself: users, passwords, callbacks, the shape of the tree of
  commands, and the client's world. The line editor, the prompt, the filters and all output
  are quiet steps; the state of a session and its privilege change only at the few places the
  theory \<open>CliSafety\<close> is about.
\<close>

named_theorems quiet_intro "programs that are quiet steps"

section \<open>The shape of the tree\<close>

primrec skeleton :: "cli_command \<Rightarrow> cli_command" where
  "skeleton (Command n cb u h p m f ch) = Command n cb 0 h p m f (map skeleton ch)"

lemma skeleton_build [simp]: "map skeleton (cli_build_shortest s cs) = map skeleton cs"
proof (induction s cs rule: cli_build_shortest.induct)
  case (1 s cs)
  show ?case
  proof (rule nth_equalityI)
    fix i
    assume "i < length (map skeleton (cli_build_shortest s cs))"
    then have i: "i < length cs" by (simp add: cli_build_shortest.simps [of s cs])
    obtain n cb u h p m f ch where c: "cs ! i = Command n cb u h p m f ch" by (cases "cs ! i")
    have mem: "(i, cs ! i) \<in> set (zip [0..<length cs] cs)" using i by (auto simp: in_set_zip intro!: exI [of _ i])
    have IH: "\<not> hidden s (cs ! i) \<Longrightarrow> map skeleton (cli_build_shortest s ch) = map skeleton ch"
      by (rule "1.IH" [OF mem refl c])
    show "map skeleton (cli_build_shortest s cs) ! i = map skeleton cs ! i"
      using i c IH by (simp add: cli_build_shortest.simps [of s cs])
  qed (simp add: cli_build_shortest.simps [of s cs])
qed

section \<open>Quiet steps\<close>

definition static :: "cli_def \<Rightarrow> cli_command list \<times> (string \<times> string) list \<times> string option \<times> string option \<times>
    string option \<times> string option \<times> handler option \<times> (hook_id \<Rightarrow> string option) \<times> string option" where
  "static c = (map skeleton (cl_commands c), cl_users c, cl_enable_password c, cl_auth_callback c, cl_enable_callback c,
     cl_regular_callback c, cl_idle_callback c, cl_hooks c, cl_config_mode_callback c)"

definition quiet_step :: "'w sess \<Rightarrow> 'w sess \<Rightarrow> bool" where
  "quiet_step s t \<longleftrightarrow> cworld t = cworld s \<and> static (cli t) = static (cli s) \<and>
     cl_state (cli t) = cl_state (cli s) \<and> cl_privilege (cli t) = cl_privilege (cli s)"

interpretation quiet: step_order quiet_step
  by unfold_locales (auto simp: quiet_step_def)

lemmas [quiet_intro] = quiet.order_intros quiet.if_obeys

lemma quiet_clif [quiet_intro]: "obeys quiet_step (clif f)"
  unfolding clif_def by (rule quiet.gets_obeys)

lemma quiet_edf [quiet_intro]: "obeys quiet_step (edf f)"
  unfolding edf_def by (rule quiet.gets_obeys)

lemma quiet_upd_ed [quiet_intro]: "obeys quiet_step (upd_ed f)"
  by (simp add: obeys_def upd_ed_def quiet_step_def)

lemma quiet_put [quiet_intro]: "obeys quiet_step (put t)"
  by (simp add: obeys_def put_def quiet_step_def)

lemma quiet_lift [quiet_intro]: "obeys quiet_step (lift r)"
  by (simp add: obeys_def quiet_step_def)

lemma quiet_clock [quiet_intro]: "obeys quiet_step (modify (\<lambda>s. s\<lparr>clock := t\<rparr>))"
  by (simp add: obeys_def quiet_step_def)

lemma quiet_upd_cli:
  assumes "\<And>c. static (f c) = static c" and "\<And>c. cl_state (f c) = cl_state c" and "\<And>c. cl_privilege (f c) = cl_privilege c"
  shows "obeys quiet_step (upd_cli f)"
  using assms by (simp add: obeys_def upd_cli_def quiet_step_def)

lemma quiet_option [quiet_intro]:
  "(\<And>x. z = Some x \<Longrightarrow> obeys quiet_step (f x)) \<Longrightarrow> (z = None \<Longrightarrow> obeys quiet_step m) \<Longrightarrow>
   obeys quiet_step (case z of None \<Rightarrow> m | Some x \<Rightarrow> f x)"
  by (cases z) auto

lemma quiet_prod [quiet_intro]:
  "(\<And>x y. z = (x, y) \<Longrightarrow> obeys quiet_step (f x y)) \<Longrightarrow> obeys quiet_step (case z of (x, y) \<Rightarrow> f x y)"
  by (cases z) auto

lemma quiet_list [quiet_intro]:
  "(z = [] \<Longrightarrow> obeys quiet_step m) \<Longrightarrow> (\<And>x xs. z = x # xs \<Longrightarrow> obeys quiet_step (f x xs)) \<Longrightarrow>
   obeys quiet_step (case z of [] \<Rightarrow> m | x # xs \<Rightarrow> f x xs)"
  by (cases z) auto

subsection \<open>Output\<close>

lemma quiet_updates [quiet_intro]:
  "obeys quiet_step (upd_cli (\<lambda>c. c\<lparr>cl_filters := g c\<rparr>))"
  "obeys quiet_step (upd_cli (\<lambda>c. c\<lparr>cl_showprompt := b\<rparr>))"
  "obeys quiet_step (upd_cli (\<lambda>c. c\<lparr>cl_last_action := t\<rparr>))"
  "obeys quiet_step (upd_cli (\<lambda>c. c\<lparr>cl_history := h c\<rparr>))"
  "obeys quiet_step (upd_cli (\<lambda>c. c\<lparr>cl_mode := m\<rparr>))"
  "obeys quiet_step (upd_cli (\<lambda>c. c\<lparr>cl_modestring := ms\<rparr>))"
  "obeys quiet_step (upd_cli (\<lambda>c. c\<lparr>cl_promptchar := p\<rparr>))"
  "obeys quiet_step (upd_cli (\<lambda>c. c\<lparr>cl_client := cl\<rparr>))"
  "obeys quiet_step (upd_cli (\<lambda>c. c\<lparr>cl_commands := cli_build_shortest c (cl_commands c)\<rparr>))"
  by (rule quiet_upd_cli; simp add: static_def)+

lemma quiet_print_line [quiet_intro]: "obeys quiet_step (print_line X b l)"
  unfolding print_line_def fprintf_client_def by (intro quiet_intro)

lemma quiet_print_lines [quiet_intro]: "obeys quiet_step (print_lines X b ls)"
  by (induction ls) (simp_all only: print_lines.simps quiet_intro)

lemma quiet_prints [quiet_intro]:
  "obeys quiet_step (cli_print X t)" "obeys quiet_step (cli_error X t)" "obeys quiet_step (cli_bufprint X t)"
  by (simp_all only: cli_print_def cli_error_def cli_bufprint_def quiet_print_lines)

lemma quiet_fprintf [quiet_intro]: "obeys quiet_step (fprintf_client t)"
  unfolding fprintf_client_def by (intro quiet_intro)

lemma quiet_print_cmds [quiet_intro]: "obeys quiet_step (print_cmds K cs)"
  by (induction cs rule: print_cmds.induct) (simp_all only: print_cmds.simps quiet_intro)

lemma quiet_configmode [quiet_intro]: "obeys quiet_step (cli_set_configmode m d)"
  unfolding cli_set_configmode_def rebuild_def cli_set_modestring_def by (intro quiet_intro)

subsection \<open>Filters\<close>

lemma quiet_make_filter [quiet_intro]: "obeys quiet_step (make_filter K argv)"
  unfolding make_filter_def cli_match_filter_init_def cli_range_filter_init_def cli_count_filter_init_def Let_def
  by (intro quiet_intro)

lemma quiet_filter_help [quiet_intro]: "obeys quiet_step (filter_help K argv)"
  unfolding filter_help_def by (intro quiet_intro)

lemma quiet_filter_loop [quiet_intro]: "obeys quiet_step (filter_loop K words k fs)"
proof (induction K words k fs rule: filter_loop.induct)
  case (2 K words k f fs)
  then show ?case by (simp only: filter_loop.simps Let_def) (intro quiet_intro; simp)
qed (simp only: filter_loop.simps quiet_intro)

lemma quiet_end_filters [quiet_intro]: "obeys quiet_step (end_filters fs)"
proof (induction fs)
  case (Cons f fs)
  then show ?case by (cases f) (simp_all only: end_filters.simps filter_state.case quiet_intro)
qed (simp only: end_filters.simps quiet_intro)

lemma quiet_clean_filters [quiet_intro]: "obeys quiet_step clean_filters"
  unfolding clean_filters_def by (intro quiet_intro)

lemma quiet_show_help [quiet_intro]: "obeys quiet_step (cli_show_help K par cs)"
  by (induction K par cs rule: cli_show_help.induct) (simp_all only: cli_show_help.simps quiet_intro)

lemma quiet_show_history [quiet_intro]: "obeys quiet_step (show_history K i hs)"
  by (induction K i hs rule: show_history.induct) (simp_all only: show_history.simps quiet_intro)

subsection \<open>The line editor\<close>

lemma quiet_buffer [quiet_intro]:
  "obeys quiet_step (poke i xs)" "obeys quiet_step (peek i)" "obeys quiet_step (text_at i)"
  "obeys quiet_step (put_range i n)" "obeys quiet_step (set_pos l p)" "obeys quiet_step reprompt"
  "obeys quiet_step (on_buffer g)"
  unfolding poke_def peek_def text_at_def put_range_def set_pos_def reprompt_def on_buffer_def by (intro quiet_intro)+

lemma quiet_echo [quiet_intro]: "obeys quiet_step m \<Longrightarrow> obeys quiet_step (echo m)"
  unfolding echo_def by (intro quiet_intro)

lemma quiet_clear_line [quiet_intro]: "obeys quiet_step cli_clear_line"
  unfolding cli_clear_line_def Let_def by (intro quiet_intro)

lemma quiet_show_prompt [quiet_intro]: "obeys quiet_step show_prompt"
  unfolding show_prompt_def by (intro quiet_intro)

lemma quiet_cli_state [quiet_intro]:
  "obeys quiet_step m1 \<Longrightarrow> obeys quiet_step m2 \<Longrightarrow> obeys quiet_step m3 \<Longrightarrow> obeys quiet_step m4 \<Longrightarrow>
   obeys quiet_step m5 \<Longrightarrow> obeys quiet_step m6 \<Longrightarrow>
   obeys quiet_step (case z of STATE_LOGIN \<Rightarrow> m1 | STATE_PASSWORD \<Rightarrow> m2 | STATE_NORMAL \<Rightarrow> m3
     | STATE_ENABLE_PASSWORD \<Rightarrow> m4 | STATE_ENABLE \<Rightarrow> m5 | STATE_REQUEST \<Rightarrow> m6)"
  by (cases z) auto

lemma quiet_prompt [quiet_intro]: "obeys quiet_step prompt"
  unfolding prompt_def by (intro quiet_intro)

lemma quiet_touch [quiet_intro]: "obeys quiet_step touch"
  unfolding touch_def by (intro quiet_intro)

lemma quiet_hang_up [quiet_intro]: "obeys quiet_step hang_up"
  unfolding hang_up_def by (intro quiet_intro)

lemma quiet_bytes [quiet_intro]: "obeys quiet_step (telnet_byte c)" "obeys quiet_step (escape_byte c)"
  unfolding telnet_byte_def escape_byte_def Let_def by (intro quiet_intro)+

lemma quiet_erase1 [quiet_intro]: "obeys quiet_step erase1"
  unfolding erase1_def by (intro quiet_intro)

lemma quiet_erase [quiet_intro]: "obeys quiet_step (erase n)"
  by (induction n) (simp_all only: erase.simps quiet_intro)

lemma quiet_fill [quiet_intro]: "obeys quiet_step (fill cs)"
  by (induction cs) (simp_all only: fill.simps quiet_intro)

lemma quiet_retract [quiet_intro]: "obeys quiet_step retract"
  unfolding retract_def Let_def by (intro quiet_intro)

lemma quiet_complete_with [quiet_intro]: "obeys quiet_step (complete_with ns)"
  unfolding complete_with_def by (intro quiet_intro)

lemma quiet_keys [quiet_intro]:
  "obeys quiet_step (key_erase c)" "obeys quiet_step key_redraw" "obeys quiet_step key_clear" "obeys quiet_step key_kill"
  "obeys quiet_step key_eot" "obeys quiet_step key_disable" "obeys quiet_step (key_history c)" "obeys quiet_step (key_motion c)"
  "obeys quiet_step key_home" "obeys quiet_step key_end" "obeys quiet_step (insert_char c)"
  unfolding key_erase_def key_redraw_def key_clear_def key_kill_def key_eot_def key_disable_def key_history_def key_motion_def
    key_home_def key_end_def insert_char_def Let_def by (intro quiet_intro)+

lemma quiet_key_char [quiet_intro]: "obeys quiet_step (key_char c)"
  unfolding key_char_def by (intro quiet_intro)

lemma quiet_new_line [quiet_intro]: "obeys quiet_step new_line"
  unfolding new_line_def by (intro quiet_intro)

lemma quiet_history [quiet_intro]: "obeys quiet_step (cli_add_history t)" "obeys quiet_step cli_free_history"
  unfolding cli_add_history_def cli_free_history_def by (intro quiet_intro)+

section \<open>Output, help and filters\<close>

text \<open>They leave the line alone too.\<close>

named_theorems silent_intro "programs that are silent steps"

definition silent :: "'w sess \<Rightarrow> 'w sess \<Rightarrow> bool" where
  "silent s t \<longleftrightarrow> edit t = edit s \<and> cworld t = cworld s"

interpretation silent: step_order silent
  by unfold_locales (auto simp: silent_def)

lemmas [silent_intro] = silent.order_intros silent.if_obeys

lemma silent_basic [silent_intro]:
  "obeys silent (clif f)" "obeys silent (edf g)" "obeys silent (upd_cli h)" "obeys silent (put t)" "obeys silent (lift r)"
  "obeys silent (modify (\<lambda>s. s\<lparr>clock := n\<rparr>))"
  by (simp_all add: obeys_def silent_def clif_def edf_def upd_cli_def put_def)

lemma silent_option [silent_intro]:
  "(\<And>x. z = Some x \<Longrightarrow> obeys silent (f x)) \<Longrightarrow> (z = None \<Longrightarrow> obeys silent m) \<Longrightarrow>
   obeys silent (case z of None \<Rightarrow> m | Some x \<Rightarrow> f x)"
  by (cases z) auto

lemma silent_prod [silent_intro]:
  "(\<And>x y. z = (x, y) \<Longrightarrow> obeys silent (f x y)) \<Longrightarrow> obeys silent (case z of (x, y) \<Rightarrow> f x y)"
  by (cases z) auto

lemma silent_list [silent_intro]:
  "(z = [] \<Longrightarrow> obeys silent m) \<Longrightarrow> (\<And>x xs. z = x # xs \<Longrightarrow> obeys silent (f x xs)) \<Longrightarrow>
   obeys silent (case z of [] \<Rightarrow> m | x # xs \<Rightarrow> f x xs)"
  by (cases z) auto

lemma silent_print_line [silent_intro]: "obeys silent (print_line X b l)"
  unfolding print_line_def fprintf_client_def by (intro silent_intro)

lemma silent_print_lines [silent_intro]: "obeys silent (print_lines X b ls)"
  by (induction ls) (simp_all only: print_lines.simps silent_intro)

lemma silent_prints [silent_intro]:
  "obeys silent (cli_print X t)" "obeys silent (cli_error X t)" "obeys silent (cli_bufprint X t)"
  by (simp_all only: cli_print_def cli_error_def cli_bufprint_def silent_print_lines)

lemma silent_fprintf [silent_intro]: "obeys silent (fprintf_client t)"
  unfolding fprintf_client_def by (intro silent_intro)

lemma silent_print_cmds [silent_intro]: "obeys silent (print_cmds K cs)"
  by (induction cs rule: print_cmds.induct) (simp_all only: print_cmds.simps silent_intro)

lemma silent_modes [silent_intro]: "obeys silent (cli_set_configmode m d)" "obeys silent (cli_set_privilege p)"
  unfolding cli_set_configmode_def cli_set_privilege_def cli_set_promptchar_def rebuild_def cli_set_modestring_def
  by (intro silent_intro)+

lemma silent_make_filter [silent_intro]: "obeys silent (make_filter K argv)"
  unfolding make_filter_def cli_match_filter_init_def cli_range_filter_init_def cli_count_filter_init_def Let_def
  by (intro silent_intro)

lemma silent_filter_help [silent_intro]: "obeys silent (filter_help K argv)"
  unfolding filter_help_def by (intro silent_intro)

lemma silent_filter_loop [silent_intro]: "obeys silent (filter_loop K words k fs)"
proof (induction K words k fs rule: filter_loop.induct)
  case (2 K words k f fs)
  then show ?case by (simp only: filter_loop.simps Let_def) (intro silent_intro; simp)
qed (simp only: filter_loop.simps silent_intro)

lemma silent_end_filters [silent_intro]: "obeys silent (end_filters fs)"
proof (induction fs)
  case (Cons f fs)
  then show ?case by (cases f) (simp_all only: end_filters.simps filter_state.case silent_intro)
qed (simp only: end_filters.simps silent_intro)

lemma silent_clean_filters [silent_intro]: "obeys silent clean_filters"
  unfolding clean_filters_def by (intro silent_intro)

lemma silent_show_help [silent_intro]: "obeys silent (cli_show_help K par cs)"
  by (induction K par cs rule: cli_show_help.induct) (simp_all only: cli_show_help.simps silent_intro)

lemma silent_show_history [silent_intro]: "obeys silent (show_history K i hs)"
  by (induction K i hs rule: show_history.induct) (simp_all only: show_history.simps silent_intro)

lemma silent_drop [silent_intro]: "obeys silent (drop_privilege r)"
  unfolding drop_privilege_def by (intro silent_intro)

lemma silent_enable [silent_intro]: "obeys silent do_enable" "obeys silent (do_help K)" "obeys silent (do_history K)"
  unfolding do_enable_def do_help_def do_history_def by (intro silent_intro)+

end
