(* ===== verification/CliSafety.thy ===== *)
theory CliSafety
  imports CliFrame
begin

text \<open>
  Who may do what in a terminal session. The contract of the library with its client is the
  locale \<open>guarded_client\<close>: the client's callbacks leave the session's own data alone, and the
  commands that are open to everybody change the world only along an order \<open>W\<close>. What follows:
  nothing happens to the world before a password is accepted, and a session without privilege
  changes the world only along \<open>W\<close>, until the enable password is given.
\<close>

section \<open>Sessions of the plain kind\<close>

text \<open>The callbacks the daemon does not register, and what its idle callback may be.\<close>

definition plain_cli :: "cli_def \<Rightarrow> bool" where
  "plain_cli c \<longleftrightarrow> cl_auth_callback c = None \<and> cl_enable_callback c = None \<and> cl_regular_callback c = None \<and>
     (\<forall>h. cl_hooks c h = None) \<and> cl_config_mode_callback c = None \<and>
     (\<forall>h. cl_idle_callback c = Some h \<longrightarrow> h = cli_int_idle_timeout \<or> (\<exists>f. h = client_fun f))"

lemma static_plain: "static c = static c' \<Longrightarrow> plain_cli c = plain_cli c'"
  by (auto simp: static_def plain_cli_def)

primrec tree_all :: "(int \<Rightarrow> handler option \<Rightarrow> bool) \<Rightarrow> cli_command \<Rightarrow> bool" where
  "tree_all P (Command n cb u h p m f ch) = (P p cb \<and> list_all (\<lambda>b. b) (map (tree_all P) ch))"

lemma tree_all_skeleton [simp]: "tree_all P (skeleton c) = tree_all P c"
  by (induction c) (auto simp: list_all_iff)

lemma tree_all_list: "list_all (tree_all P) (map skeleton cs) = list_all (tree_all P) cs"
  by (simp add: list_all_iff)

lemma tree_all_children: "tree_all P c \<Longrightarrow> list_all (tree_all P) (children c)"
  by (cases c) (auto simp: list_all_iff)

lemma tree_all_top: "tree_all P c \<Longrightarrow> P (cmd_privilege c) (cmd_callback c)"
  by (cases c) auto

text \<open>The text of the line as \<open>strdup\<close> reads it.\<close>

definition line_text :: "line_edit \<Rightarrow> string" where
  "line_text e = takeWhile (\<lambda>c. c \<noteq> CHR 0x00) (cmd e)"

definition logged_out :: "'w sess \<Rightarrow> bool" where
  "logged_out s \<longleftrightarrow> cl_state (cli s) = STATE_LOGIN \<or> cl_state (cli s) = STATE_PASSWORD"

definition accepts_password :: "'w client \<Rightarrow> 'w sess \<Rightarrow> bool" where
  "accepts_password K s \<longleftrightarrow> cl_state (cli s) = STATE_PASSWORD \<and>
     (\<exists>u. username (edit s) = Some u \<and> user_allowed K (cl_users (cli s)) u (line_text (edit s)))"

definition accepts_enable :: "'w client \<Rightarrow> 'w sess \<Rightarrow> bool" where
  "accepts_enable K s \<longleftrightarrow> cl_state (cli s) = STATE_ENABLE_PASSWORD \<and>
     (\<exists>p. cl_enable_password (cli s) = Some p \<and> pass_matches K p (line_text (edit s)))"

section \<open>Events that end a password line leave the line as it is\<close>

lemma text_at_run: "text_at 0 s = (r, t) \<Longrightarrow> t = s \<and> (\<forall>x. r = Inr x \<longrightarrow> x = line_text (edit s))"
  by (auto simp: text_at_def edf_def line_text_def split: if_splits)

lemma go_on_break [simp]: "go_on m s \<noteq> (Inr Break, t)"
  unfolding go_on_def by (rule notI, erule seqE_cases) auto

lemma key_break_cases:
  assumes "key K c s = (Inr Break, t)"
  obtains "c = CHR 0x0D" | "c = CHR 0x04" | "key_char c s = (Inr Break, t)"
  using assms unfolding key_def by (simp split: if_split_asm)

lemma key_char_result:
  assumes "key_char c s = (Inr f, t)" and "secret (cli s)"
  shows "f = Continue"
proof -
  from assms(1) obtain ok s1 where ins: "insert_char c s = (Inr ok, s1)"
    and rest: "(if \<not> ok then ret Continue
     else bindE (clif secret) (\<lambda>b. bindE (edf (\<lambda>e. e)) (\<lambda>e.
       if \<not> b \<and> c = CHR ''?'' \<and> cursor e = len e then
         seqE (put crlf) (seqE (upd_ed (\<lambda>e. e\<lparr>oldcmd := True, oldl := len e - 1, cursor := len e - 1\<rparr>)) (ret Break))
       else seqE (whenE (\<not> b) (put [c]))
           (seqE (upd_ed (\<lambda>e. e\<lparr>oldcmd := False, oldl := 0, lastchar := c\<rparr>)) (ret Continue))))) s1 = (Inr f, t)"
    unfolding key_char_def by (elim bindE_cases) auto
  have "quiet_step s s1" using quiet_keys(11) ins by (rule obeysD)
  then have "secret (cli s1)" using assms(2) by (simp add: quiet_step_def secret_def)
  with rest show ?thesis
    by (auto simp: clif_def edf_def upd_ed_def put_def split: if_splits elim!: seqE_cases)
qed

definition same_line :: "'w sess \<Rightarrow> 'w sess \<Rightarrow> bool" where
  "same_line s t \<longleftrightarrow> cmd (edit t) = cmd (edit s) \<and> username (edit t) = username (edit s) \<and> secret (cli t) = secret (cli s)"

interpretation same: step_order same_line
  by unfold_locales (auto simp: same_line_def)

lemma same_basic:
  "obeys same_line (clif f)" "obeys same_line (edf g)" "obeys same_line (put t)"
  "obeys same_line (upd_ed (\<lambda>e. e\<lparr>len := l\<rparr>))" "obeys same_line (upd_ed (\<lambda>e. e\<lparr>skip_bytes := h e\<rparr>))"
  "obeys same_line (upd_ed (\<lambda>e. e\<lparr>is_telnet_option := n\<rparr>))" "obeys same_line (upd_ed (\<lambda>e. e\<lparr>esc := n\<rparr>))"
  "obeys same_line (upd_cli (\<lambda>c. c\<lparr>cl_last_action := a\<rparr>))"
  by (simp_all add: obeys_def clif_def edf_def put_def upd_ed_def upd_cli_def same_line_def secret_def)

lemmas same_intro = same.order_intros same.if_obeys same_basic

lemma same_parts:
  "obeys same_line hang_up" "obeys same_line touch" "obeys same_line (telnet_byte c)" "obeys same_line (escape_byte c)"
  "obeys same_line key_eot" "obeys same_line (echo (put t))"
  unfolding hang_up_def touch_def telnet_byte_def escape_byte_def key_eot_def echo_def Let_def
  by (intro same_intro)+

lemma key_break:
  assumes "key K c s = (Inr Break, t)" and "secret (cli s)"
  shows "same_line s t"
  using assms(1)
proof (cases rule: key_break_cases)
  case 1
  then have "seqE (echo (put crlf)) (ret Break) s = (Inr Break, t)" using assms(1) by (simp add: key_def)
  then show ?thesis by (rule obeysD [rotated]) (intro same_intro same_parts)
next
  case 2
  then have "key_eot s = (Inr Break, t)" using assms(1) by (simp add: key_def)
  then show ?thesis by (rule obeysD [OF same_parts(5)])
next
  case 3
  then show ?thesis using assms(2) by (auto dest: key_char_result)
qed

lemma hang_up_len: "hang_up s = (r, t) \<Longrightarrow> len (edit t) = - 1"
  by (auto simp: hang_up_def upd_ed_def)

lemma idle_call_break: "idle_call K s = (Inr Break, t) \<Longrightarrow> len (edit t) = - 1"
  unfolding idle_call_def
  by (elim bindE_cases) (auto simp: clif_def split: option.splits if_splits elim!: bindE_cases seqE_cases dest: hang_up_len)

lemma on_idle_break: "on_idle K s = (Inr Break, t) \<Longrightarrow> len (edit t) = - 1"
  unfolding on_idle_def
  by (elim bindE_cases) (auto simp: clif_def split: if_splits elim!: bindE_cases dest: hang_up_len idle_call_break)

lemma handle_break:
  assumes "handle_input K i s = (Inr Break, t)" and "secret (cli s)" and "len (edit t) \<noteq> - 1"
  shows "same_line s t"
proof (cases i)
  case (Byte c)
  from assms(1) obtain a s1 b s2 where s1: "touch s = (Inr a, s1)" and s2: "telnet_byte c s1 = (Inr b, s2)"
    and rest: "(if \<not> b then ret Continue
       else bindE (escape_byte c) (\<lambda>k. case k of None \<Rightarrow> ret Continue | Some k \<Rightarrow> key K k)) s2 = (Inr Break, t)"
    unfolding handle_input_def Byte input.case by (elim seqE_cases bindE_cases) auto
  from rest obtain k s3 where s3: "escape_byte c s2 = (Inr (Some k), s3)" and k: "key K k s3 = (Inr Break, t)"
    by (auto split: if_splits option.splits elim!: bindE_cases)
  have 1: "same_line s s3"
    using obeysD [OF same_parts(2) s1] obeysD [OF same_parts(3) s2] obeysD [OF same_parts(4) s3]
    by (blast intro: same.trans_R)
  then have "secret (cli s3)" using assms(2) by (simp add: same_line_def)
  with k have "same_line s3 t" by (rule key_break)
  with 1 show ?thesis by (rule same.trans_R)
next
  case Timeout
  then show ?thesis using assms by (auto simp: handle_input_def dest: on_idle_break)
next
  case Interrupted
  then show ?thesis using assms by (auto simp: handle_input_def)
next
  case Failed
  then show ?thesis using assms by (auto simp: handle_input_def dest: hang_up_len)
next
  case Eof
  then show ?thesis using assms by (auto simp: handle_input_def dest: hang_up_len elim!: seqE_cases)
qed

section \<open>Clients whose callbacks for editing are quiet\<close>

text \<open>A step that is quiet in a session of the plain kind that does not wait for the answer to a request.\<close>

definition calm_step :: "'w sess \<Rightarrow> 'w sess \<Rightarrow> bool" where
  "calm_step s t \<longleftrightarrow> (plain_cli (cli s) \<and> cl_state (cli s) \<noteq> STATE_REQUEST \<longrightarrow> quiet_step s t)"

lemma quiet_static: "quiet_step s t \<Longrightarrow> static (cli t) = static (cli s)"
  by (simp add: quiet_step_def)

interpretation calm: step_order calm_step
proof
  show "calm_step s s" for s :: "'w sess" by (simp add: calm_step_def quiet.refl_R)
next
  fix s t u :: "'w sess"
  assume "calm_step s t" and "calm_step t u"
  then show "calm_step s u"
    unfolding calm_step_def using static_plain [of "cli t" "cli s"] by (metis quiet.trans_R quiet_step_def)
qed

lemma calm_quiet: "obeys quiet_step m \<Longrightarrow> obeys calm_step m"
  by (simp add: obeys_def calm_step_def)

lemma calm_option:
  "obeys calm_step m \<Longrightarrow> (\<And>x. obeys calm_step (f x)) \<Longrightarrow> obeys calm_step (case z of None \<Rightarrow> m | Some x \<Rightarrow> f x)"
  by (cases z) auto

locale quiet_client =
  fixes K :: "'w client"
  assumes on_call_quiet: "obeys quiet_step (on_call K f)"
    and on_complete_quiet: "obeys quiet_step (on_complete K f c ws)"
begin

lemma get_completions_quiet: "obeys quiet_step (cli_get_completions K line)"
  unfolding cli_get_completions_def Let_def
  by (intro quiet_intro) (auto split: prod.split list.split option.split intro!: quiet_intro on_complete_quiet)

lemma request_completions_quiet: "obeys quiet_step (cli_get_request_completions K line)"
  unfolding cli_get_request_completions_def by (intro quiet_intro on_complete_quiet)

lemma key_tab_quiet: "obeys quiet_step (key_tab K)"
  unfolding key_tab_def by (intro quiet_intro get_completions_quiet request_completions_quiet on_call_quiet)

lemma key_abort_calm: "obeys calm_step (key_abort K)"
proof (rule obeysI)
  fix s r t
  assume run: "key_abort K s = (r, t)"
  show "calm_step s t"
    unfolding calm_step_def
  proof
    assume "plain_cli (cli s) \<and> cl_state (cli s) \<noteq> STATE_REQUEST"
    with run have "put bell s = (r, t)" by (simp add: key_abort_def clif_def)
    then show "quiet_step s t" by (rule obeysD [OF quiet_put])
  qed
qed

lemma go_on_calm: "obeys calm_step m \<Longrightarrow> obeys calm_step (go_on m)"
  unfolding go_on_def by (intro calm.order_intros)

lemma key_calm: "obeys calm_step (key K c)"
  unfolding key_def
  by (intro calm.if_obeys calm.ret_obeys go_on_calm key_abort_calm)
     (intro calm_quiet quiet_intro key_tab_quiet)+

lemma idle_call_calm: "obeys calm_step (idle_call K)"
proof (rule obeysI)
  fix s r t
  assume run: "idle_call K s = (r, t)"
  have inv: "obeys quiet_step (invoke K cli_int_idle_timeout [] [] 0)" by (simp only: invoke.simps quiet_intro)
  show "calm_step s t"
    unfolding calm_step_def
  proof
    assume plain: "plain_cli (cli s) \<and> cl_state (cli s) \<noteq> STATE_REQUEST"
    let ?after = "\<lambda>r. if r = CLI_OK then bindE (gets clock) (\<lambda>t. seqE (upd_cli (\<lambda>c. c\<lparr>cl_last_action := t\<rparr>)) (ret Continue)) else hang_up"
    consider "cl_idle_callback (cli s) = None" | "cl_idle_callback (cli s) = Some cli_int_idle_timeout"
      | f where "cl_idle_callback (cli s) = Some (client_fun f)"
      using plain by (cases "cl_idle_callback (cli s)") (auto simp: plain_cli_def)
    then show "quiet_step s t"
    proof cases
      case 1
      with run have "hang_up s = (r, t)" by (simp add: idle_call_def clif_def)
      then show ?thesis by (rule obeysD [OF quiet_hang_up])
    next
      case 2
      with run have "bindE (invoke K cli_int_idle_timeout [] [] 0) ?after s = (r, t)" by (simp add: idle_call_def clif_def)
      then show ?thesis by (rule obeysD [rotated]) (intro quiet_intro inv)
    next
      case 3
      with run have "bindE (on_call K f) ?after s = (r, t)" by (simp add: idle_call_def clif_def)
      then show ?thesis by (rule obeysD [rotated]) (intro quiet_intro on_call_quiet)
    qed
  qed
qed

lemma on_idle_calm: "obeys calm_step (on_idle K)"
  unfolding on_idle_def
  by (intro calm.order_intros calm.if_obeys idle_call_calm calm_option)
     (intro calm_quiet quiet_intro on_call_quiet)+

lemma handle_input_calm: "obeys calm_step (handle_input K i)"
  by (cases i; simp only: handle_input_def input.case)
     (intro calm.order_intros calm.if_obeys calm_option on_idle_calm key_calm calm_quiet quiet_intro)+

end

section \<open>Before the login\<close>

text \<open>Steps that keep world, settings and privilege; and those that also stay before the login.\<close>

definition held_step :: "'w sess \<Rightarrow> 'w sess \<Rightarrow> bool" where
  "held_step s t \<longleftrightarrow> cworld t = cworld s \<and> static (cli t) = static (cli s) \<and> cl_privilege (cli t) = cl_privilege (cli s)"

definition out_step :: "'w sess \<Rightarrow> 'w sess \<Rightarrow> bool" where
  "out_step s t \<longleftrightarrow> held_step s t \<and> (logged_out s \<longrightarrow> logged_out t)"

interpretation held: step_order held_step
  by unfold_locales (auto simp: held_step_def)

interpretation out: step_order out_step
  by unfold_locales (auto simp: out_step_def held_step_def)

lemma quiet_held: "quiet_step s t \<Longrightarrow> held_step s t"
  by (simp add: quiet_step_def held_step_def)

lemma quiet_out: "quiet_step s t \<Longrightarrow> out_step s t"
  by (simp add: quiet_step_def held_step_def out_step_def logged_out_def)

lemma held_quiet: "obeys quiet_step m \<Longrightarrow> obeys held_step m"
  by (simp add: obeys_def quiet_held)

lemma out_quiet: "obeys quiet_step m \<Longrightarrow> obeys out_step m"
  by (simp add: obeys_def quiet_out)

lemma held_set_state: "obeys held_step (set_state st)"
  by (simp add: obeys_def set_state_def upd_cli_def held_step_def static_def)

lemma out_set_state: "st = STATE_LOGIN \<or> st = STATE_PASSWORD \<Longrightarrow> obeys out_step (set_state st)"
  by (auto simp: obeys_def set_state_def upd_cli_def out_step_def held_step_def static_def logged_out_def)

lemma access_denied_quiet: "obeys quiet_step (access_denied K)"
  unfolding access_denied_def by (intro quiet_intro)

lemma line_login_out: "obeys out_step line_login"
  unfolding line_login_def
  by (intro out.order_intros out_set_state out_quiet quiet_intro) simp

lemma line_password_out:
  assumes run: "line_password K s = (r, t)" and auth: "cl_auth_callback (cli s) = None"
  shows "held_step s t \<and> (out_step s t \<or>
    (\<exists>u. username (edit s) = Some u \<and> user_allowed K (cl_users (cli s)) u (line_text (edit s))))"
proof -
  obtain x s1 where x: "text_at 0 s = (x, s1)" by (cases "text_at 0 s")
  from x have s1: "s1 = s" "\<And>y. x = Inr y \<Longrightarrow> y = line_text (edit s)" by (auto dest: text_at_run)
  show ?thesis
  proof (cases "x = Inr (line_text (edit s)) \<and> username (edit s) \<noteq> None")
    case False
    then have "t = s" using run x s1
      by (cases x) (auto simp: line_password_def bindE_Inl bindE_Inr edf_def clif_def)
    then show ?thesis by (simp add: held.refl_R out.refl_R)
  next
    case True
    then obtain u where u: "username (edit s) = Some u" by auto
    let ?ok = "user_allowed K (cl_users (cli s)) u (line_text (edit s))"
    let ?m = "seqE (upd_ed (\<lambda>e. e\<lparr>password := Some (line_text (edit s))\<rparr>))
       (seqE (if ?ok then seqE (cli_error (rx K) '' '') (set_state STATE_NORMAL)
              else seqE (access_denied K) (seqE (upd_ed (\<lambda>e. e\<lparr>username := None, password := None\<rparr>)) (set_state STATE_LOGIN)))
             reprompt)"
    have x': "text_at 0 s = (Inr (line_text (edit s)), s)" using x s1(1) True by simp
    have m: "?m s = (r, t)" using run u auth
      unfolding line_password_def bindE_Inr [where m = "text_at 0", OF x'] by (simp add: edf_def clif_def)
    have "obeys held_step ?m"
      by (intro held.order_intros held.if_obeys held_set_state held_quiet quiet_intro access_denied_quiet)
    then have 1: "held_step s t" using m by (rule obeysD)
    have "out_step s t" if "\<not> ?ok"
    proof -
      have "obeys out_step ?m" using that
        by (intro out.order_intros out.if_obeys out_set_state out_quiet quiet_intro access_denied_quiet) simp_all
      then show ?thesis using m by (rule obeysD)
    qed
    with 1 u show ?thesis by blast
  qed
qed

lemma again_quiet: "obeys quiet_step (seqE (modify (\<lambda>s. s\<lparr>clock := after\<rparr>)) (seqE touch (ret False)))"
  by (intro quiet_intro)

lemma line_done_out:
  assumes run: "line_done K after s = (r, t)" and out: "logged_out s" and auth: "cl_auth_callback (cli s) = None"
  shows "held_step s t \<and> (logged_out t \<or> 0 \<le> len (edit s) \<and> cl_state (cli s) = STATE_PASSWORD \<and>
    (\<exists>u. username (edit s) = Some u \<and> user_allowed K (cl_users (cli s)) u (line_text (edit s))))"
proof (cases "len (edit s) < 0 \<or> cl_state (cli s) = STATE_LOGIN")
  case True
  let ?m = "seqE line_login (seqE (modify (\<lambda>s. s\<lparr>clock := after\<rparr>)) (seqE touch (ret False)))"
  have "obeys out_step ?m" by (intro out.order_intros line_login_out out_quiet again_quiet quiet_intro)
  moreover have "?m s = (r, t) \<or> t = s"
    using run True by (auto simp: line_done_def edf_def clif_def Let_def split: if_splits)
  ultimately have "out_step s t" by (auto dest: obeysD intro: out.refl_R)
  then show ?thesis using out by (simp add: out_step_def)
next
  case False
  with out have st: "cl_state (cli s) = STATE_PASSWORD" and l: "0 \<le> len (edit s)" by (auto simp: logged_out_def)
  with run False have "seqE (line_password K) (seqE (modify (\<lambda>s. s\<lparr>clock := after\<rparr>)) (seqE touch (ret False))) s = (r, t)"
    by (simp add: line_done_def edf_def clif_def Let_def)
  then obtain r1 s1 where pw: "line_password K s = (r1, s1)" and q: "s1 = t \<or> quiet_step s1 t"
    by (elim seqE_cases [where m = "line_password K"]) (blast dest: obeysD [OF again_quiet])+
  have "out_step s1 t" using q by (auto intro: quiet_out out.refl_R)
  with line_password_out [OF pw auth] show ?thesis
    using out st l by (auto simp: out_step_def intro: held.trans_R)
qed

context quiet_client
begin

lemma step_logged_out:
  assumes run: "cli_step K e s = (r, t)" and out: "logged_out s" and plain: "plain_cli (cli s)"
  shows "held_step s t \<and> (logged_out t \<or> accepts_password K s)"
proof -
  obtain i now_t after where e: "e = (i, now_t, after)" by (cases e)
  let ?s = "s\<lparr>clock := now_t\<rparr>"
  obtain rf s1 where h: "handle_input K i ?s = (rf, s1)" by (cases "handle_input K i ?s")
  have "calm_step ?s s1" using handle_input_calm h by (rule obeysD)
  then have q: "quiet_step s s1" using plain out
    by (auto simp: calm_step_def quiet_step_def logged_out_def)
  have tail: "obeys out_step (seqE new_line (seqE prompt (ret False)))" "obeys out_step (seqE prompt (ret False))"
    by (intro out_quiet quiet_intro)+
  show ?thesis
  proof (cases "rf = Inr Break")
    case False
    then have "out_step s1 t"
      using run h tail(2) by (cases rf rule: sum.exhaust)
        (auto simp: cli_step_def e bindE_Inl bindE_Inr intro: out.refl_R dest: obeysD split: flow.splits)
    then have "out_step s t" using q quiet_out out.trans_R by blast
    then show ?thesis using out by (simp add: out_step_def)
  next
    case True
    obtain rd s2 where d: "line_done K after s1 = (rd, s2)" by (cases "line_done K after s1")
    have out1: "logged_out s1" and auth: "cl_auth_callback (cli s1) = None" and users: "cl_users (cli s1) = cl_users (cli s)"
      and st: "cl_state (cli s1) = cl_state (cli s)"
      using q out plain by (auto simp: quiet_step_def logged_out_def plain_cli_def static_def)
    have "out_step s2 t"
      using run h d True tail(1) by (cases rd)
        (auto simp: cli_step_def e bindE_Inl bindE_Inr split: if_splits intro: out.refl_R dest: obeysD)
    then have t: "held_step s t \<and> (logged_out s2 \<longrightarrow> logged_out t)"
      using line_done_out [OF d out1 auth] q quiet_held by (metis out_step_def held.trans_R)
    consider "logged_out s2" | u where "0 \<le> len (edit s1)" "cl_state (cli s1) = STATE_PASSWORD" "username (edit s1) = Some u"
        "user_allowed K (cl_users (cli s1)) u (line_text (edit s1))"
      using line_done_out [OF d out1 auth] by blast
    then show ?thesis
    proof cases
      case 1
      then show ?thesis using t by blast
    next
      case 2
      have "same_line ?s s1"
        using handle_break [OF h [unfolded True]] 2 st by (auto simp: secret_def)
      then have "username (edit s) = Some u" and "line_text (edit s1) = line_text (edit s)"
        using 2(3) by (simp_all add: same_line_def line_text_def)
      then have "accepts_password K s" using 2 st users by (simp add: accepts_password_def)
      then show ?thesis using t by blast
    qed
  qed
qed

lemma events_logged_out:
  assumes "cli_events K es s = (r, t)" and "logged_out s" and "plain_cli (cli s)"
    and "cworld t \<noteq> cworld s \<or> \<not> logged_out t"
  shows "\<exists>es1 e es2 s1. es = es1 @ e # es2 \<and> cli_events K es1 s = (Inr False, s1) \<and> held_step s s1 \<and> accepts_password K s1"
  using assms
proof (induction es arbitrary: s)
  case Nil
  then show ?case by simp
next
  case (Cons e es)
  obtain r1 s1 where step: "cli_step K e s = (r1, s1)" by (cases "cli_step K e s")
  have held: "held_step s s1" and acc: "logged_out s1 \<or> accepts_password K s"
    using step_logged_out [OF step Cons.prems(2,3)] by auto
  show ?case
  proof (cases "accepts_password K s")
    case True
    then have "e # es = [] @ e # es \<and> cli_events K [] s = (Inr False, s) \<and> held_step s s \<and> accepts_password K s"
      by (simp add: held.refl_R)
    then show ?thesis by blast
  next
    case False
    with acc have out1: "logged_out s1" by blast
    have plain1: "plain_cli (cli s1)" using held Cons.prems(3) static_plain by (metis held_step_def)
    have w: "cworld s1 = cworld s" using held by (simp add: held_step_def)
    have go: "r1 = Inr False \<and> cli_events K es s1 = (r, t)"
    proof (rule ccontr)
      assume "\<not> ?thesis"
      then have "t = s1" using Cons.prems(1) step by (auto simp: bindE_def split: sum.splits if_splits)
      then show False using Cons.prems(4) w out1 by simp
    qed
    from Cons.IH [OF _ out1 plain1] go Cons.prems(4) w
    obtain es1 e' es2 s2 where "es = es1 @ e' # es2" "cli_events K es1 s1 = (Inr False, s2)" "held_step s1 s2" "accepts_password K s2"
      by auto
    moreover have b: "bindE (cli_step K e) k s = k False s1" for k
      using step go by (auto intro: bindE_Inr)
    moreover have "cli_events K (e # es1) s = cli_events K es1 s1" by (simp add: b)
    ultimately have "e # es = (e # es1) @ e' # es2 \<and> cli_events K (e # es1) s = (Inr False, s2) \<and> held_step s s2 \<and> accepts_password K s2"
      using held by (auto intro: held.trans_R)
    then show ?thesis by blast
  qed
qed

end

section \<open>Without privilege\<close>

text \<open>Every command open to everybody is one of the client's open functions, or the library's.\<close>

definition open_tree :: "(string \<Rightarrow> bool) \<Rightarrow> cli_command list \<Rightarrow> bool" where
  "open_tree open_fun = list_all (tree_all (\<lambda>p h. p \<le> 0 \<longrightarrow> (\<forall>f. h = Some (client_fun f) \<longrightarrow> open_fun f)))"

definition low :: "(string \<Rightarrow> bool) \<Rightarrow> 'w sess \<Rightarrow> bool" where
  "low open_fun s \<longleftrightarrow> cl_privilege (cli s) \<le> 0 \<and> cl_state (cli s) \<noteq> STATE_REQUEST \<and> plain_cli (cli s) \<and>
     cl_enable_password (cli s) \<noteq> None \<and> open_tree open_fun (cl_commands (cli s))"

lemma static_open_tree:
  assumes "static c = static c'"
  shows "open_tree P (cl_commands c) = open_tree P (cl_commands c')"
proof -
  have eq: "map skeleton (cl_commands c) = map skeleton (cl_commands c')"
    using arg_cong [OF assms, of fst] by (simp only: static_def fst_conv)
  have "list_all (tree_all Q) (cl_commands c) = list_all (tree_all Q) (cl_commands c')" for Q
    using tree_all_list [of Q "cl_commands c"] tree_all_list [of Q "cl_commands c'"] by (simp only: eq)
  then show ?thesis by (simp only: open_tree_def)
qed

lemma static_fields:
  assumes "static c = static c'"
  shows "cl_users c = cl_users c'" and "cl_enable_password c = cl_enable_password c'" and "cl_auth_callback c = cl_auth_callback c'"
  using assms by (simp_all add: static_def)

lemma low_static:
  assumes st: "static (cli t) = static (cli s)"
    and "cl_privilege (cli t) \<le> 0" and "cl_state (cli t) \<noteq> STATE_REQUEST" and "low P s"
  shows "low P t"
  using assms(2-4) unfolding low_def static_plain [OF st] static_open_tree [OF st] static_fields(2) [OF st] by blast

locale guarded_client = quiet_client K for K :: "'w client" +
  fixes W :: "'w \<Rightarrow> 'w \<Rightarrow> bool" and open_fun :: "string \<Rightarrow> bool"
  assumes W_refl: "W w w" and W_trans: "W w1 w2 \<Longrightarrow> W w2 w3 \<Longrightarrow> W w1 w3"
    and command_held: "on_command K f c argv argc s = (r, t) \<Longrightarrow>
      static (cli t) = static (cli s) \<and> cl_state (cli t) = cl_state (cli s) \<and> cl_privilege (cli t) = cl_privilege (cli s)"
    and command_open: "open_fun f \<Longrightarrow> on_command K f c argv argc s = (r, t) \<Longrightarrow> W (cworld s) (cworld t)"
begin

definition guard :: "'w sess \<Rightarrow> 'w sess \<Rightarrow> bool" where
  "guard s t \<longleftrightarrow> (low open_fun s \<longrightarrow> low open_fun t \<and> W (cworld s) (cworld t) \<and> static (cli t) = static (cli s))"

sublocale guard: step_order guard
  by unfold_locales (auto simp: guard_def intro: W_refl W_trans)

lemmas guard_intro = guard.order_intros guard.if_obeys

lemma quiet_guard: "obeys quiet_step m \<Longrightarrow> obeys guard m"
proof (rule obeysI)
  fix s r t
  assume "obeys quiet_step m" and "m s = (r, t)"
  then have q: "quiet_step s t" by (rule obeysD)
  then show "guard s t"
    using low_static [of t s open_fun] by (auto simp: guard_def quiet_step_def low_def W_refl)
qed

lemma guard_option:
  "obeys guard m \<Longrightarrow> (\<And>x. z = Some x \<Longrightarrow> obeys guard (f x)) \<Longrightarrow> obeys guard (case z of None \<Rightarrow> m | Some x \<Rightarrow> f x)"
  by (cases z) auto

lemma guard_sum:
  "(\<And>x. obeys guard (f x)) \<Longrightarrow> (\<And>y. obeys guard (g y)) \<Longrightarrow> obeys guard (case z of Inl x \<Rightarrow> f x | Inr y \<Rightarrow> g y)"
  by (cases z) auto

lemma guard_set_state: "st \<noteq> STATE_REQUEST \<Longrightarrow> obeys guard (upd_cli (\<lambda>c. c\<lparr>cl_state := st\<rparr>))"
  by (auto simp: obeys_def upd_cli_def guard_def low_def W_refl static_def plain_cli_def)

lemma guard_drop: "obeys guard (drop_privilege n)"
proof -
  have p: "obeys guard (upd_cli (\<lambda>c. c\<lparr>cl_privilege := 0\<rparr>))"
    by (auto simp: obeys_def upd_cli_def guard_def low_def W_refl static_def plain_cli_def)
  then show ?thesis
    unfolding drop_privilege_def cli_set_privilege_def cli_set_promptchar_def rebuild_def
    by (intro guard_intro p) (intro quiet_guard quiet_intro)+
qed

text \<open>Facts for states without privilege lift to all states.\<close>

lemma guardI:
  assumes "\<And>s r t. low open_fun s \<Longrightarrow> m s = (r, t) \<Longrightarrow> guard s t"
  shows "obeys guard m"
  using assms by (metis guard_def obeysI)

lemma guard_hook:
  assumes "obeys guard m"
  shows "obeys guard (set_hook K h command argv argc m)"
proof (rule guardI)
  fix s :: "'w sess" and r t
  assume "low open_fun s" and run: "set_hook K h command argv argc m s = (r, t)"
  then have "cl_hooks (cli s) h = None" by (simp add: low_def plain_cli_def)
  with run have "m s = (r, t)" by (simp add: set_hook_def clif_def)
  with assms show "guard s t" by (rule obeysD)
qed

lemma guard_enable: "obeys guard do_enable"
proof (rule guardI)
  fix s :: "'w sess" and r t
  assume low: "low open_fun s" and run: "do_enable s = (r, t)"
  then have "seqE (upd_cli (\<lambda>c. c\<lparr>cl_state := STATE_ENABLE_PASSWORD\<rparr>)) (ret CLI_OK) s = (r, t)"
    by (auto simp: do_enable_def clif_def low_def)
  then show "guard s t" by (rule obeysD [rotated]) (intro guard_intro guard_set_state; simp)
qed

lemma guard_configure: "obeys guard (do_configure_terminal K)"
proof (rule guardI)
  fix s :: "'w sess" and r t
  assume low: "low open_fun s" and run: "do_configure_terminal K s = (r, t)"
  then have "seqE (cli_set_configmode MODE_CONFIG None) (ret CLI_OK) s = (r, t)"
    by (auto simp: do_configure_terminal_def clif_def low_def plain_cli_def)
  then show "guard s t" by (rule obeysD [rotated]) (intro guard_intro quiet_guard quiet_intro)
qed

lemma guard_command: "open_fun f \<Longrightarrow> obeys guard (on_command K f command argv argc)"
proof (rule guardI)
  fix s :: "'w sess" and r t
  assume f: "open_fun f" and low: "low open_fun s" and run: "on_command K f command argv argc s = (r, t)"
  then show "guard s t"
    using command_held [OF run] command_open [OF f run] low_static [of t s open_fun] by (auto simp: guard_def low_def)
qed

lemma guard_quit: "obeys guard (do_quit K command argv argc)"
  unfolding do_quit_def by (intro guard_hook guard_drop)

lemma guard_invoke:
  assumes "\<And>f. h = client_fun f \<Longrightarrow> open_fun f"
  shows "obeys guard (invoke K h command argv argc)"
proof (cases h)
  case (client_fun f)
  then show ?thesis using assms by (simp add: guard_command)
next
  case cli_int_exit
  show ?thesis unfolding cli_int_exit invoke.simps do_exit_def
    by (intro guard_hook guard_intro guard_quit) (intro quiet_guard quiet_intro)+
next
  case cli_int_help
  show ?thesis unfolding cli_int_help invoke.simps do_help_def by (intro guard_hook quiet_guard quiet_intro)
next
  case cli_int_history
  show ?thesis unfolding cli_int_history invoke.simps do_history_def by (intro guard_hook quiet_guard quiet_intro)
next
  case cli_int_idle_timeout
  show ?thesis unfolding cli_int_idle_timeout invoke.simps by (intro quiet_guard quiet_intro)
qed (simp_all only: invoke.simps guard_hook guard_enable guard_drop guard_quit guard_configure)

lemma guard_run_checks:
  assumes "\<And>f. h = client_fun f \<Longrightarrow> open_fun f"
  shows "obeys guard (run_checks K par c h words sw n fs)"
  unfolding run_checks_def
  by (intro guard_intro guard_sum guard_invoke assms) (assumption | intro quiet_guard quiet_intro)+

lemma guard_found:
  assumes "\<And>h f. cmd_callback c = Some h \<Longrightarrow> h = client_fun f \<Longrightarrow> open_fun f" and "obeys guard sub"
  shows "obeys guard (found K par c words sw n fs sub)"
  unfolding found_def
  by (intro guard_intro guard_option guard_run_checks assms(2)) (erule (1) assms(1) | rule quiet_guard, intro quiet_intro)+

lemma open_tree_Cons:
  assumes "open_tree open_fun (c # cs)"
  shows "open_tree open_fun cs" and "open_tree open_fun (children c)"
    and "cmd_privilege c \<le> 0 \<Longrightarrow> cmd_callback c = Some h \<Longrightarrow> h = client_fun f \<Longrightarrow> open_fun f"
  using assms by (auto simp: open_tree_def dest: tree_all_children tree_all_top)

lemma open_tree_build [simp]: "open_tree open_fun (cli_build_shortest s cs) = open_tree open_fun cs"
  unfolding open_tree_def by (simp only: tree_all_list [symmetric, of _ "cli_build_shortest s cs"] skeleton_build) (simp only: tree_all_list)

text \<open>The search runs only commands the session has the privilege for.\<close>

lemma guard_find_any:
  "K' = K \<Longrightarrow> open_tree open_fun cs \<Longrightarrow> obeys guard (cli_find_command K' words fs par sw cs)"
  "K' = K \<Longrightarrow> open_tree open_fun cs \<Longrightarrow> (\<And>m. ac = Some m \<Longrightarrow> obeys guard m) \<Longrightarrow> (\<And>m. aa = Some m \<Longrightarrow> obeys guard m) \<Longrightarrow>
   obeys guard (find_loop K' words fs par sw cs ac aa)"
proof (induction K' words fs par sw cs and K' words fs par sw cs ac aa rule: cli_find_command_find_loop.induct)
  case (1 K' words fs par sw cs)
  show ?case
    unfolding cli_find_command.simps
    by (intro guard_intro) (use 1 in \<open>auto intro!: quiet_guard quiet_intro split: list.split\<close>)
next
  case (2 K' words fs par sw ac aa)
  then show ?case
    unfolding find_loop.simps no_match_def
    by (intro guard_option guard_intro) (auto intro!: quiet_guard quiet_intro)
next
  case (3 K' words fs par sw c cs ac aa)
  show ?case
  proof (rule guardI)
    fix s :: "'w sess" and r t
    assume low: "low open_fun s" and run: "find_loop K' words fs par sw (c # cs) ac aa s = (r, t)"
    have K: "K' = K" by (rule "3.prems"(1))
    have tree: "open_tree open_fun cs" "open_tree open_fun (children c)" using "3.prems"(2) by (rule open_tree_Cons)+
    let ?skip = "cl_privilege (cli s) < cmd_privilege c \<or> \<not> word_matches c (words ! sw)"
    let ?n = "case fs of f # _ \<Rightarrow> (if f = 0 then length words else f) | [] \<Rightarrow> length words"
    let ?hit = "found K' par c words sw ?n fs (cli_find_command K' words fs (c # par) (sw + 1) (children c))"
    let ?moved = "bindE (clif (\<lambda>s. s)) (\<lambda>s'. found K' par c words sw ?n fs
      (cli_find_command K' words fs (c # par) (sw + 1) (cli_build_shortest s' (children c))))"
    let ?loop = "find_loop K' words fs par sw cs"
    have run: "(if ?skip then ?loop ac aa
        else if cmd_mode c = cl_mode (cli s) \<or> cmd_mode c = MODE_ANY \<and> aa \<noteq> None then ?hit
        else if cl_mode (cli s) > MODE_CONFIG \<and> cmd_mode c = MODE_CONFIG then ?loop (Some ?moved) aa
        else if cmd_mode c = MODE_ANY then ?loop ac (Some ?hit)
        else ?loop ac aa) s = (r, t)"
      using run by (simp add: find_loop.simps clif_def Let_def cong: if_cong)
    show "guard s t"
    proof (cases ?skip)
      case True
      have "obeys guard (?loop ac aa)" by (rule "3.IH"(1) [OF True K tree(1) "3.prems"(3,4)])
      then show ?thesis using run True by (auto dest: obeysD)
    next
      case False
      then have "cmd_privilege c \<le> 0" using low by (simp add: low_def)
      then have op: "cmd_callback c = Some h \<Longrightarrow> h = client_fun f \<Longrightarrow> open_fun f" for h f
        by (rule open_tree_Cons(3) [OF "3.prems"(2)])
      have hit: "obeys guard ?hit"
        unfolding K by (rule guard_found, erule (1) op, rule "3.IH"(2) [unfolded K, OF False refl refl tree(2)])
      have moved: "obeys guard ?moved"
        unfolding K by (intro guard_intro, rule quiet_guard, rule quiet_clif, rule guard_found, erule (1) op,
          rule "3.IH"(3) [unfolded K, OF False refl refl refl]) (simp add: tree(2))
      have "obeys guard (?loop (Some ?moved) aa)"
        if "\<not> (cmd_mode c = cl_mode (cli s) \<or> cmd_mode c = MODE_ANY \<and> aa \<noteq> None)" "cl_mode (cli s) > MODE_CONFIG \<and> cmd_mode c = MODE_CONFIG"
        using "3.IH"(4) [OF False refl refl refl that K tree(1)] moved "3.prems"(4) by blast
      moreover have "obeys guard (?loop ac (Some ?hit))"
        if "\<not> (cmd_mode c = cl_mode (cli s) \<or> cmd_mode c = MODE_ANY \<and> aa \<noteq> None)" "\<not> (cl_mode (cli s) > MODE_CONFIG \<and> cmd_mode c = MODE_CONFIG)" "cmd_mode c = MODE_ANY"
        using "3.IH"(5) [OF False refl refl refl that K tree(1)] hit "3.prems"(3) by blast
      moreover have "obeys guard (?loop ac aa)"
        if "\<not> (cmd_mode c = cl_mode (cli s) \<or> cmd_mode c = MODE_ANY \<and> aa \<noteq> None)" "\<not> (cl_mode (cli s) > MODE_CONFIG \<and> cmd_mode c = MODE_CONFIG)" "cmd_mode c \<noteq> MODE_ANY"
        by (rule "3.IH"(6) [OF False refl refl refl that K tree(1) "3.prems"(3,4)])
      ultimately show ?thesis using run False hit by (auto dest: obeysD split: if_split_asm)
    qed
  qed
qed

lemma guard_find: "open_tree open_fun cs \<Longrightarrow> obeys guard (cli_find_command K words fs par sw cs)"
  by (rule guard_find_any(1) [OF refl])

lemma guard_run_command: "obeys guard (cli_run_command K line)"
proof (rule guardI)
  fix s :: "'w sess" and r t
  assume low: "low open_fun s" and run: "cli_run_command K line s = (r, t)"
  let ?words = "cli_parse_line (dropWhile is_space line) CLI_MAX_LINE_WORDS"
  let ?find = "cli_find_command K ?words (filter_positions ?words) [] 0 (cl_commands (cli s))"
  let ?fin = "\<lambda>r. ret (if r = CLI_QUIT then CLI_QUIT else CLI_OK)"
  have "obeys guard ?find" using low by (intro guard_find) (simp add: low_def)
  then have "obeys guard (bindE ?find ?fin)" by (intro guard_intro)
  moreover have "bindE ?find ?fin s = (r, t) \<or> t = s"
    using run by (auto simp: cli_run_command_def Let_def clif_def bindE_def split: if_splits)
  ultimately show "guard s t" by (auto dest: obeysD intro: guard.refl_R)
qed

lemma guard_line_command: "obeys guard (line_command K)"
  unfolding line_command_def
  by (intro guard_intro guard_run_command) (intro quiet_guard quiet_intro)+

text \<open>The enable password is the only way out.\<close>

definition kept :: "'w sess \<Rightarrow> 'w sess \<Rightarrow> bool" where
  "kept s t \<longleftrightarrow> W (cworld s) (cworld t) \<and> static (cli t) = static (cli s)"

sublocale keep: step_order kept
  by unfold_locales (auto simp: kept_def intro: W_refl W_trans)

lemma quiet_kept: "obeys quiet_step m \<Longrightarrow> obeys kept m"
  by (auto simp: obeys_def quiet_step_def kept_def W_refl)

lemma guard_kept: "guard s t \<Longrightarrow> low open_fun s \<Longrightarrow> kept s t \<and> low open_fun t"
  by (simp add: guard_def kept_def)

lemma guard_state: "st \<noteq> STATE_REQUEST \<Longrightarrow> obeys guard (set_state st)"
  unfolding set_state_def by (rule guard_set_state)

lemma kept_enabled: "obeys kept (seqE (set_state STATE_ENABLE) (seqE (cli_set_privilege PRIVILEGE_PRIVILEGED) (ret ())))"
proof -
  have p: "obeys kept (upd_cli (\<lambda>c. c\<lparr>cl_privilege := 15\<rparr>))" "obeys kept (upd_cli (\<lambda>c. c\<lparr>cl_state := STATE_ENABLE\<rparr>))"
    by (simp_all add: obeys_def upd_cli_def kept_def W_refl static_def)
  show ?thesis
    unfolding cli_set_privilege_def set_state_def cli_set_promptchar_def rebuild_def
    by (intro keep.order_intros p) (intro quiet_kept quiet_intro)+
qed

lemma line_enable_low:
  assumes run: "line_enable K s = (r, t)" and low: "low open_fun s"
  shows "kept s t \<and> (low open_fun t \<or> (\<exists>p. cl_enable_password (cli s) = Some p \<and> pass_matches K p (line_text (edit s))))"
proof -
  obtain x s1 where x: "text_at 0 s = (x, s1)" by (cases "text_at 0 s")
  from x have s1: "s1 = s" by (auto dest: text_at_run)
  obtain p where p: "cl_enable_password (cli s) = Some p" using low by (auto simp: low_def)
  have cb: "cl_enable_callback (cli s) = None" using low by (simp add: low_def plain_cli_def)
  show ?thesis
  proof (cases x)
    case (Inl e)
    then have "t = s" using run x s1 by (auto simp: line_enable_def bindE_Inl [where m = "text_at 0"])
    then show ?thesis using low by (simp add: keep.refl_R)
  next
    case (Inr pw)
    then have pw: "pw = line_text (edit s)" using text_at_run [OF x] by auto
    have x': "text_at 0 s = (Inr pw, s)" using x s1 Inr by simp
    show ?thesis
    proof (cases "pass_matches K p pw")
      case True
      then have "seqE (set_state STATE_ENABLE) (seqE (cli_set_privilege PRIVILEGE_PRIVILEGED) (ret ())) s = (r, t)"
        using run p unfolding line_enable_def bindE_Inr [where m = "text_at 0", OF x'] by (simp add: clif_def)
      then have "kept s t" by (rule obeysD [OF kept_enabled])
      then show ?thesis using True p pw by blast
    next
      case False
      then have "seqE (access_denied K) (set_state STATE_NORMAL) s = (r, t)"
        using run p cb unfolding line_enable_def bindE_Inr [where m = "text_at 0", OF x'] by (simp add: clif_def)
      then have "guard s t"
        by (rule obeysD [rotated]) (intro guard_intro guard_state quiet_guard access_denied_quiet; simp)
      then show ?thesis using low by (auto dest: guard_kept)
    qed
  qed
qed

lemma guard_line_login: "obeys guard line_login"
  unfolding line_login_def by (intro guard_intro guard_state) (simp | intro quiet_guard quiet_intro)+

lemma guard_line_password: "obeys guard (line_password K)"
proof (rule guardI)
  fix s :: "'w sess" and r t
  assume low: "low open_fun s" and run: "line_password K s = (r, t)"
  then have auth: "cl_auth_callback (cli s) = None" by (simp add: low_def plain_cli_def)
  obtain x s1 where x: "text_at 0 s = (x, s1)" by (cases "text_at 0 s")
  from x have s1: "s1 = s" by (auto dest: text_at_run)
  show "guard s t"
  proof (cases "\<exists>pw u. x = Inr pw \<and> username (edit s) = Some u")
    case False
    then have "t = s" using run x s1
      by (cases x) (auto simp: line_password_def bindE_Inl [where m = "text_at 0"] bindE_Inr [where m = "text_at 0"] edf_def clif_def)
    then show ?thesis by (simp add: guard.refl_R)
  next
    case True
    then obtain pw u where x': "text_at 0 s = (Inr pw, s)" and u: "username (edit s) = Some u" using x s1 by auto
    let ?ok = "user_allowed K (cl_users (cli s)) u pw"
    let ?m = "seqE (upd_ed (\<lambda>e. e\<lparr>password := Some pw\<rparr>))
       (seqE (if ?ok then seqE (cli_error (rx K) '' '') (set_state STATE_NORMAL)
              else seqE (access_denied K) (seqE (upd_ed (\<lambda>e. e\<lparr>username := None, password := None\<rparr>)) (set_state STATE_LOGIN)))
             reprompt)"
    have "?m s = (r, t)" using run u auth
      unfolding line_password_def bindE_Inr [where m = "text_at 0", OF x'] by (simp add: edf_def clif_def)
    moreover have "obeys guard ?m"
      by (intro guard_intro guard_state) (simp | intro quiet_guard quiet_intro access_denied_quiet)+
    ultimately show ?thesis by (auto dest: obeysD)
  qed
qed

lemma line_done_low:
  assumes run: "line_done K after s = (r, t)" and low: "low open_fun s"
  shows "kept s t \<and> (low open_fun t \<or> 0 \<le> len (edit s) \<and> cl_state (cli s) = STATE_ENABLE_PASSWORD \<and>
    (\<exists>p. cl_enable_password (cli s) = Some p \<and> pass_matches K p (line_text (edit s))))"
proof (cases "0 \<le> len (edit s) \<and> cl_state (cli s) = STATE_ENABLE_PASSWORD")
  case True
  let ?again = "seqE (modify (\<lambda>s. s\<lparr>clock := after\<rparr>)) (seqE touch (ret False))"
  have "seqE (line_enable K) ?again s = (r, t)"
    using run True by (simp add: line_done_def edf_def clif_def Let_def)
  then obtain r1 s1 where pw: "line_enable K s = (r1, s1)" and q: "s1 = t \<or> quiet_step s1 t"
    by (elim seqE_cases [where m = "line_enable K"]) (blast dest: obeysD [OF again_quiet])+
  have "kept s1 t \<and> (low open_fun s1 \<longrightarrow> low open_fun t)"
    using q low_static [of t s1 open_fun] by (auto simp: kept_def quiet_step_def W_refl low_def)
  with line_enable_low [OF pw low] True show ?thesis by (blast intro: keep.trans_R)
next
  case False
  let ?again = "seqE (modify (\<lambda>s. s\<lparr>clock := after\<rparr>)) (seqE touch (ret False))"
  have again: "obeys guard ?again" by (intro quiet_guard again_quiet)
  have "obeys guard (seqE line_login ?again)" "obeys guard (seqE (line_password K) ?again)"
    "obeys guard (bindE (line_command K) (\<lambda>r. if r = CLI_QUIT then ret True else ?again))"
    by (intro guard_intro again guard_line_login guard_line_password guard_line_command)+
  moreover have "seqE line_login ?again s = (r, t) \<or> seqE (line_password K) ?again s = (r, t) \<or>
      bindE (line_command K) (\<lambda>r. if r = CLI_QUIT then ret True else ?again) s = (r, t) \<or> t = s"
    using run False low by (auto simp: line_done_def edf_def clif_def Let_def low_def split: if_split_asm cli_state.split_asm)
  ultimately have "guard s t" by (auto dest: obeysD intro: guard.refl_R)
  then show ?thesis using low by (auto dest: guard_kept)
qed

lemma step_low:
  assumes run: "cli_step K e s = (r, t)" and low: "low open_fun s"
  shows "kept s t \<and> (low open_fun t \<or> accepts_enable K s)"
proof -
  obtain i now_t after where e: "e = (i, now_t, after)" by (cases e)
  let ?s = "s\<lparr>clock := now_t\<rparr>"
  obtain rf s1 where h: "handle_input K i ?s = (rf, s1)" by (cases "handle_input K i ?s")
  have "calm_step ?s s1" using handle_input_calm h by (rule obeysD)
  then have q: "quiet_step s s1" using low
    by (auto simp: calm_step_def quiet_step_def low_def)
  then have k1: "kept s s1" and low1: "low open_fun s1"
    using low low_static [of s1 s open_fun] by (auto simp: kept_def quiet_step_def W_refl low_def)
  have tail: "obeys guard (seqE new_line (seqE prompt (ret False)))" "obeys guard (seqE prompt (ret False))"
    by (intro quiet_guard quiet_intro)+
  have tail3: "obeys kept (seqE new_line (seqE prompt (ret False)))" by (intro quiet_kept quiet_intro)
  show ?thesis
  proof (cases "rf = Inr Break")
    case False
    then have "guard s1 t"
      using run h tail(2) by (cases rf rule: sum.exhaust)
        (auto simp: cli_step_def e bindE_Inl bindE_Inr intro: guard.refl_R dest: obeysD split: flow.splits)
    then show ?thesis using k1 low1 by (auto dest: guard_kept intro: keep.trans_R)
  next
    case True
    obtain rd s2 where d: "line_done K after s1 = (rd, s2)" by (cases "line_done K after s1")
    have "guard s2 t"
      using run h d True tail(1) by (cases rd)
        (auto simp: cli_step_def e bindE_Inl bindE_Inr split: if_splits intro: guard.refl_R dest: obeysD)
    moreover have "kept s2 t"
      using run h d True tail3 by (cases rd)
        (auto simp: cli_step_def e bindE_Inl bindE_Inr split: if_splits intro: keep.refl_R dest: obeysD)
    ultimately have t: "kept s t \<and> (low open_fun s2 \<longrightarrow> low open_fun t)"
      using line_done_low [OF d low1] k1 by (auto simp: guard_def intro: keep.trans_R)
    consider "low open_fun s2" | p where "0 \<le> len (edit s1)" "cl_state (cli s1) = STATE_ENABLE_PASSWORD"
        "cl_enable_password (cli s1) = Some p" "pass_matches K p (line_text (edit s1))"
      using line_done_low [OF d low1] by blast
    then show ?thesis
    proof cases
      case 1
      then show ?thesis using t by blast
    next
      case 2
      then have st: "cl_state (cli s) = STATE_ENABLE_PASSWORD" using q by (simp add: quiet_step_def)
      then have "same_line ?s s1" using handle_break [OF h [unfolded True]] 2 by (auto simp: secret_def)
      then have "line_text (edit s1) = line_text (edit s)" by (simp add: same_line_def line_text_def)
      moreover have "cl_enable_password (cli s) = Some p"
        using 2(3) static_fields(2) [OF quiet_static [OF q]] by simp
      ultimately have "accepts_enable K s" using 2 st by (simp add: accepts_enable_def)
      then show ?thesis using t by blast
    qed
  qed
qed

lemma events_low:
  assumes "cli_events K es s = (r, t)" and "low open_fun s" and "\<not> (W (cworld s) (cworld t) \<and> low open_fun t)"
  shows "\<exists>es1 e es2 s1. es = es1 @ e # es2 \<and> cli_events K es1 s = (Inr False, s1) \<and> kept s s1 \<and> accepts_enable K s1"
  using assms
proof (induction es arbitrary: s)
  case Nil
  then show ?case by (simp add: W_refl)
next
  case (Cons e es)
  obtain r1 s1 where step: "cli_step K e s = (r1, s1)" by (cases "cli_step K e s")
  have k: "kept s s1" and acc: "low open_fun s1 \<or> accepts_enable K s"
    using step_low [OF step Cons.prems(2)] by auto
  show ?case
  proof (cases "accepts_enable K s")
    case True
    then have "e # es = [] @ e # es \<and> cli_events K [] s = (Inr False, s) \<and> kept s s \<and> accepts_enable K s"
      by (simp add: keep.refl_R)
    then show ?thesis by blast
  next
    case False
    with acc have low1: "low open_fun s1" by blast
    have go: "r1 = Inr False \<and> cli_events K es s1 = (r, t)"
    proof (rule ccontr)
      assume "\<not> ?thesis"
      then have "t = s1" using Cons.prems(1) step by (auto simp: bindE_def split: sum.splits if_splits)
      then show False using Cons.prems(3) k low1 by (simp add: kept_def)
    qed
    have "\<not> (W (cworld s1) (cworld t) \<and> low open_fun t)"
      using Cons.prems(3) k W_trans by (auto simp: kept_def)
    with Cons.IH [OF _ low1] go
    obtain es1 e' es2 s2 where "es = es1 @ e' # es2" "cli_events K es1 s1 = (Inr False, s2)" "kept s1 s2" "accepts_enable K s2"
      by auto
    moreover have b: "bindE (cli_step K e) k s = k False s1" for k
      using step go by (auto intro: bindE_Inr)
    moreover have "cli_events K (e # es1) s = cli_events K es1 s1" by (simp add: b)
    ultimately have "e # es = (e # es1) @ e' # es2 \<and> cli_events K (e # es1) s = (Inr False, s2) \<and> kept s s2 \<and> accepts_enable K s2"
      using k by (auto intro: keep.trans_R)
    then show ?thesis by blast
  qed
qed

end

end
