(* ===== verification/CliEdit.thy ===== *)
theory CliEdit
  imports CliFrame
begin

text \<open>
  The line editor. Its abstract state is a line with a cursor, the text before it and the text
  behind it; the buffer with its length and cursor implements it. A key does to the buffer what
  it does to the abstract line, and it never writes outside the buffer as long as the line is short
  enough for the key.
\<close>

section \<open>Running the primitives\<close>

named_theorems cli_run "equations that run the library's primitives"

lemmas [cli_run] = seqE_assoc [symmetric]

lemma bindE_edf [cli_run]: "bindE (edf f) k s = k (f (edit s)) s"
  by (simp add: edf_def)

lemma bindE_clif [cli_run]: "bindE (clif f) k s = k (f (cli s)) s"
  by (simp add: clif_def)

lemma upd_ed_run [cli_run]:
  "upd_ed f s = (Inr (), s\<lparr>edit := f (edit s)\<rparr>)" "seqE (upd_ed f) n s = n (s\<lparr>edit := f (edit s)\<rparr>)"
  by (simp_all add: upd_ed_def)

lemma upd_cli_run [cli_run]:
  "upd_cli f s = (Inr (), s\<lparr>cli := f (cli s)\<rparr>)" "seqE (upd_cli f) n s = n (s\<lparr>cli := f (cli s)\<rparr>)"
  by (simp_all add: upd_cli_def)

lemma put_run [cli_run]:
  "put t s = (Inr (), s\<lparr>screen := screen s @ t\<rparr>)" "seqE (put t) n s = n (s\<lparr>screen := screen s @ t\<rparr>)"
  by (simp_all add: put_def)

lemma set_pos_run [cli_run]:
  "set_pos l p s = (Inr (), s\<lparr>edit := (edit s)\<lparr>len := l, cursor := p\<rparr>\<rparr>)"
  "seqE (set_pos l p) n s = n (s\<lparr>edit := (edit s)\<lparr>len := l, cursor := p\<rparr>\<rparr>)"
  by (simp_all add: set_pos_def cli_run)

lemma poke_run:
  assumes "0 \<le> i" and "nat i + length xs \<le> length (cmd (edit s))"
  shows "poke i xs s = (Inr (), s\<lparr>edit := (edit s)\<lparr>cmd := overlay (nat i) xs (cmd (edit s))\<rparr>\<rparr>)"
    and "seqE (poke i xs) n s = n (s\<lparr>edit := (edit s)\<lparr>cmd := overlay (nat i) xs (cmd (edit s))\<rparr>\<rparr>)"
proof -
  show "poke i xs s = (Inr (), s\<lparr>edit := (edit s)\<lparr>cmd := overlay (nat i) xs (cmd (edit s))\<rparr>\<rparr>)"
    using assms by (simp add: poke_def cli_run)
  then show "seqE (poke i xs) n s = n (s\<lparr>edit := (edit s)\<lparr>cmd := overlay (nat i) xs (cmd (edit s))\<rparr>\<rparr>)"
    by (rule seqE_Inr)
qed

lemma put_range_run:
  assumes "0 \<le> i" and "0 \<le> n" and "nat i + nat n \<le> length (cmd (edit s))"
  shows "put_range i n s = (Inr (), s\<lparr>screen := screen s @ take (nat n) (drop (nat i) (cmd (edit s)))\<rparr>)"
    and "seqE (put_range i n) m s = m (s\<lparr>screen := screen s @ take (nat n) (drop (nat i) (cmd (edit s)))\<rparr>)"
proof -
  show "put_range i n s = (Inr (), s\<lparr>screen := screen s @ take (nat n) (drop (nat i) (cmd (edit s)))\<rparr>)"
    using assms by (simp add: put_range_def cli_run)
  then show "seqE (put_range i n) m s = m (s\<lparr>screen := screen s @ take (nat n) (drop (nat i) (cmd (edit s)))\<rparr>)"
    by (rule seqE_Inr)
qed

lemma on_buffer_run:
  assumes "f (cmd (edit s)) = Inr b"
  shows "on_buffer f s = (Inr (), s\<lparr>edit := (edit s)\<lparr>cmd := b\<rparr>\<rparr>)"
    and "seqE (on_buffer f) n s = n (s\<lparr>edit := (edit s)\<lparr>cmd := b\<rparr>\<rparr>)"
proof -
  show "on_buffer f s = (Inr (), s\<lparr>edit := (edit s)\<lparr>cmd := b\<rparr>\<rparr>)"
    using assms by (simp add: on_buffer_def cli_run)
  then show "seqE (on_buffer f) n s = n (s\<lparr>edit := (edit s)\<lparr>cmd := b\<rparr>\<rparr>)"
    by (rule seqE_Inr)
qed

section \<open>The abstract line\<close>

text \<open>The text before the cursor and the text behind it.\<close>

type_synonym line = "string \<times> string"

definition holds :: "line_edit \<Rightarrow> line \<Rightarrow> bool" where
  "holds e ln \<longleftrightarrow> (case ln of (b, a) \<Rightarrow>
     cmd e = b @ a @ nuls (CLI_MAX_LINE_LENGTH - length (b @ a)) \<and> len e = int (length (b @ a)) \<and> cursor e = int (length b) \<and>
     length (b @ a) < CLI_MAX_LINE_LENGTH \<and> CHR 0x00 \<notin> set (b @ a))"

text \<open>What a key means.\<close>

definition drop_word :: "string \<Rightarrow> string" where
  "drop_word b = (let b' = rev (dropWhile (\<lambda>c. c = CHR '' '') (rev b)) in rev (dropWhile (\<lambda>c. c \<noteq> CHR '' '') (rev b')))"

definition line_key :: "char \<Rightarrow> line \<Rightarrow> line" where
  "line_key c ln = (case ln of (b, a) \<Rightarrow>
     if c = CHR 0x08 \<or> c = CHR 0x7F then (butlast b, a)
     else if c = CHR 0x17 then (drop_word b, a)
     else if c = CHR 0x15 then ([], [])
     else if c = CHR 0x0B then (b, [])
     else if c = CHR 0x02 then (butlast b, (if b = [] then [] else [last b]) @ a)
     else if c = CHR 0x06 then (b @ take 1 a, drop 1 a)
     else if c = CHR 0x01 then ([], b @ a)
     else if c = CHR 0x05 then (b @ a, [])
     else if c = CHR 0x0C then (b, a)
     else (b @ [c], a))"

definition editing_key :: "char \<Rightarrow> bool" where
  "editing_key c \<longleftrightarrow> c \<notin> {CHR 0x00, CHR 0x0A, CHR 0x0D, CHR 0x1B, CHR 0x03, CHR 0x04, CHR 0x1A, CHR 0x09, CHR 0x10, CHR 0x0E, CHR 0xFF}"

text \<open>The room a key needs.\<close>

definition room :: "char \<Rightarrow> line \<Rightarrow> bool" where
  "room c ln \<longleftrightarrow> (case ln of (b, a) \<Rightarrow>
     if c = CHR 0x15 then 3 * length (b @ a) \<le> CLI_MAX_LINE_LENGTH
     else length (b @ a) + 2 < CLI_MAX_LINE_LENGTH)"

lemma drop_nuls [simp]: "drop n (nuls k) = nuls (k - n)" and take_nuls [simp]: "take n (nuls k) = nuls (min n k)"
  and length_nuls [simp]: "length (nuls k) = k"
  by (simp_all add: nuls_def)

lemma nuls_append: "nuls m @ nuls n = nuls (m + n)"
  by (simp add: nuls_def replicate_add)

lemma nuls_eq: "m = n \<Longrightarrow> nuls m = nuls n"
  by simp

lemma nat_add_int [simp]: "nat (1 + int n) = Suc n" "nat (2 + int n) = Suc (Suc n)" "nat (1 + (int m + int n)) = Suc (m + n)"
  by simp_all

lemma nuls_Suc: "nuls (Suc n) = CHR 0x00 # nuls n"
  by (simp add: nuls_def)

lemma holds_length: "holds e ln \<Longrightarrow> length (cmd e) = CLI_MAX_LINE_LENGTH"
  by (auto simp: holds_def)

lemma takeWhile_nuls: "CHR 0x00 \<notin> set xs \<Longrightarrow> takeWhile (\<lambda>c. c \<noteq> CHR 0x00) (xs @ nuls n) = xs"
  by (induction xs) (auto simp: nuls_def)

lemma echo_run:
  "\<not> secret (cli s) \<Longrightarrow> echo m s = m s" "\<not> secret (cli s) \<Longrightarrow> seqE (echo m) n s = seqE m n s"
  by (simp_all add: echo_def seqE_def bindE_def clif_def)

section \<open>Moving text in the buffer\<close>

lemma shift_right_eq:
  "i + n < length b \<Longrightarrow> shift_right n i b = Inr (take (Suc i) b @ take n (drop i b) @ drop (i + n + 1) b)"
proof (induction n arbitrary: b)
  case 0
  then show ?case by simp
next
  case (Suc n)
  let ?c = "b ! (i + n)"
  let ?b = "b[i + n + 1 := ?c]"
  have "shift_right (Suc n) i b = shift_right n i ?b" using Suc.prems by simp
  also have "\<dots> = Inr (take (Suc i) ?b @ take n (drop i ?b) @ drop (i + n + 1) ?b)" by (rule Suc.IH) (use Suc.prems in simp)
  also have "take (Suc i) ?b = take (Suc i) b" by (simp add: take_update_cancel)
  also have "take n (drop i ?b) = take n (drop i b)" by (simp add: drop_update_swap take_update_cancel)
  also have "drop (i + n + 1) ?b = ?c # drop (i + n + 2) b"
    using Suc.prems by (simp add: drop_update_swap Cons_nth_drop_Suc [symmetric])
  also have "take n (drop i b) @ ?c # drop (i + n + 2) b = take (Suc n) (drop i b) @ drop (i + n + 2) b"
    using Suc.prems by (simp add: take_Suc_conv_app_nth)
  finally show ?case by simp
qed

lemma shift_left_eq:
  "i + n < length b \<Longrightarrow> shift_left n i b = Inr (take i b @ take n (drop (Suc i) b) @ drop (i + n) b)"
proof (induction n arbitrary: i b)
  case 0
  then show ?case by simp
next
  case (Suc n)
  let ?b = "b[i := b ! Suc i]"
  have "shift_left (Suc n) i b = shift_left n (Suc i) ?b" using Suc.prems by simp
  also have "\<dots> = Inr (take (Suc i) ?b @ take n (drop (Suc (Suc i)) ?b) @ drop (Suc i + n) ?b)"
    by (rule Suc.IH) (use Suc.prems in simp)
  also have "take (Suc i) ?b = take i b @ [b ! Suc i]" using Suc.prems by (simp add: take_Suc_conv_app_nth)
  also have "drop (Suc i + n) ?b = drop (Suc i + n) b" by simp
  also have "drop (Suc (Suc i)) ?b = drop (Suc (Suc i)) b" by simp
  finally show ?case using Suc.prems by (simp add: Cons_nth_drop_Suc [symmetric])
qed

declare shift_right.simps [simp del] shift_left.simps [simp del]

section \<open>Every editing key\<close>

text \<open>The step changes nothing of the session but the line and the bytes on the screen.\<close>

definition edits :: "'w sess \<Rightarrow> line \<Rightarrow> 'w sess \<Rightarrow> bool" where
  "edits s ln t \<longleftrightarrow> holds (edit t) ln \<and> cli t = cli s \<and> cworld t = cworld s \<and> clock t = clock s \<and>
     is_telnet_option (edit t) = is_telnet_option (edit s) \<and> skip_bytes (edit t) = skip_bytes (edit s) \<and>
     esc (edit t) = esc (edit s) \<and> username (edit t) = username (edit s) \<and> (oldcmd (edit t) \<longrightarrow> oldcmd (edit s))"

definition goes :: "('w, unit) cliprog \<Rightarrow> 'w sess \<Rightarrow> line \<Rightarrow> bool" where
  "goes m s ln \<longleftrightarrow> (\<exists>t. m s = (Inr (), t) \<and> edits s ln t)"

lemma holdsD:
  assumes "holds e (b, a)"
  shows "cmd e = b @ a @ nuls (CLI_MAX_LINE_LENGTH - length (b @ a))" and "len e = int (length (b @ a))"
    and "cursor e = int (length b)" and "length (b @ a) < CLI_MAX_LINE_LENGTH"
  using assms by (auto simp: holds_def)

lemma goesI: "m s = (Inr (), t) \<Longrightarrow> edits s ln t \<Longrightarrow> goes m s ln"
  by (auto simp: goes_def)

lemma goes_Left:
  assumes h: "holds (edit s) (b, a)" and open_: "\<not> secret (cli s)"
  shows "goes (key_motion (CHR 0x02)) s (line_key (CHR 0x02) (b, a))"
proof (cases b rule: rev_cases)
  case Nil
  then show ?thesis using h
    by (auto simp: goes_def key_motion_def cli_run line_key_def edits_def holds_def)
next
  case (snoc b' x)
  then show ?thesis using h open_
    by (auto simp: goes_def key_motion_def cli_run echo_run line_key_def edits_def holds_def)
qed

lemma goes_Right:
  assumes h: "holds (edit s) (b, a)" and open_: "\<not> secret (cli s)"
  shows "goes (key_motion (CHR 0x06)) s (line_key (CHR 0x06) (b, a))"
proof (cases a)
  case Nil
  then show ?thesis using h
    by (auto simp: goes_def key_motion_def cli_run line_key_def edits_def holds_def)
next
  case (Cons x a')
  then show ?thesis using h open_ holdsD [OF h]
    by (auto simp: goes_def key_motion_def cli_run echo_run put_range_run line_key_def edits_def holds_def)
qed

lemma goes_Home:
  assumes h: "holds (edit s) (b, a)" and open_: "\<not> secret (cli s)"
  shows "goes key_home s (line_key (CHR 0x01) (b, a))"
  using h open_ by (auto simp: goes_def key_home_def cli_run echo_run line_key_def edits_def holds_def)

lemma goes_End:
  assumes h: "holds (edit s) (b, a)" and open_: "\<not> secret (cli s)"
  shows "goes key_end s (line_key (CHR 0x05) (b, a))"
proof (cases a)
  case Nil
  then show ?thesis using h
    by (auto simp: goes_def key_end_def cli_run line_key_def edits_def holds_def)
next
  case (Cons x a')
  then show ?thesis using h open_ holdsD [OF h]
    by (auto simp: goes_def key_end_def cli_run echo_run put_range_run line_key_def edits_def holds_def)
qed

lemma goes_Kill:
  assumes h: "holds (edit s) (b, a)" and open_: "\<not> secret (cli s)"
  shows "goes key_kill s (line_key (CHR 0x0B) (b, a))"
proof (cases a)
  case Nil
  then show ?thesis using h
    by (auto simp: goes_def key_kill_def cli_run line_key_def edits_def holds_def)
next
  case (Cons x a')
  then show ?thesis using h open_ holdsD [OF h]
    by (auto simp: goes_def key_kill_def cli_run echo_run poke_run line_key_def edits_def holds_def overlay_def nuls_append intro!: nuls_eq)
qed

lemma goes_Redraw:
  assumes h: "holds (edit s) (b, a)" and open_: "\<not> secret (cli s)" and st: "cl_state (cli s) \<noteq> STATE_REQUEST"
  shows "goes key_redraw s (line_key (CHR 0x0C) (b, a))"
proof -
  have p: "\<exists>x. show_prompt u = (Inr (), u\<lparr>screen := screen u @ x\<rparr>)" if "cli u = cli s" for u :: "'a sess"
    using st that by (auto simp: show_prompt_def cli_run split: option.split)
  obtain x where x: "show_prompt (s\<lparr>screen := screen s @ crlf\<rparr>) = (Inr (), s\<lparr>screen := (screen s @ crlf) @ x\<rparr>)"
    using p [of "s\<lparr>screen := screen s @ crlf\<rparr>"] by auto
  show ?thesis using h open_ holdsD [OF h]
    by (auto simp: goes_def key_redraw_def cli_run echo_run seqE_Inr [where m = show_prompt, OF x] put_range_run line_key_def edits_def holds_def)
qed

lemma overlay_0: "length xs = length ys \<Longrightarrow> overlay 0 xs (overlay 0 ys b) = xs @ drop (length ys) b"
  by (simp add: overlay_def)

lemma clear_line_run:
  assumes n: "len (edit s) = int n" and N: "length (cmd (edit s)) = CLI_MAX_LINE_LENGTH" and room: "3 * n \<le> CLI_MAX_LINE_LENGTH"
  shows "\<exists>x. cli_clear_line s = (Inr (), s\<lparr>screen := screen s @ x, edit := (edit s)\<lparr>cmd := nuls (3 * n) @ drop (3 * n) (cmd (edit s))\<rparr>\<rparr>)"
proof -
  let ?xs = "backs n @ blanks n @ backs n"
  have l: "length ?xs = 3 * n" by (simp add: backs_def blanks_def)
  have i: "nat (3 * int n) = 3 * n" by simp
  obtain y s1 where s1: "whenE (cursor (edit s) < len (edit s)) (put (blanks (nat (len (edit s) - cursor (edit s))))) s = (Inr (), s1)"
      "s1 = s\<lparr>screen := screen s @ y\<rparr>"
  proof (cases "cursor (edit s) < len (edit s)")
    case True
    then show ?thesis by (intro that [of _ "blanks (nat (len (edit s) - cursor (edit s)))"]) (simp_all add: cli_run)
  next
    case False
    then show ?thesis by (intro that [of _ "[]"]) simp_all
  qed
  show ?thesis
    unfolding cli_clear_line_def bindE_edf Let_def n [symmetric] seqE_Inr [where m = "whenE _ _", OF s1(1)]
    using N room l i by (simp add: n s1(2) poke_run put_range_run overlay_0 overlay_def) (rule exI, rule refl)
qed

lemma seqE_bindE_clif [cli_run]: "seqE (bindE (clif f) k) n s = seqE (k (f (cli s))) n s"
  by (simp add: seqE_def bindE_def clif_def)

lemma seqE_bindE_Inr: "m s = (Inr x, t) \<Longrightarrow> seqE (bindE m k) n s = seqE (k x) n t"
  by (simp add: seqE_def bindE_def)

lemma goes_Clear:
  assumes h: "holds (edit s) (b, a)" and open_: "\<not> secret (cli s)" and room: "3 * length (b @ a) \<le> CLI_MAX_LINE_LENGTH"
  shows "goes key_clear s (line_key (CHR 0x15) (b, a))"
proof -
  obtain x where x: "cli_clear_line s = (Inr (), s\<lparr>screen := screen s @ x,
      edit := (edit s)\<lparr>cmd := nuls (3 * length (b @ a)) @ drop (3 * length (b @ a)) (cmd (edit s))\<rparr>\<rparr>)"
    using clear_line_run [OF holdsD(2) [OF h] holds_length [OF h] room] by blast
  show ?thesis using holdsD [OF h] open_ room
    by (auto simp: goes_def key_clear_def cli_run seqE_Inr [where m = cli_clear_line, OF x] line_key_def edits_def holds_def nuls_append
        intro!: nuls_eq)
qed

lemma goes_insert:
  assumes h: "holds (edit s) (b, a)" and room: "length (b @ a) + 2 < CLI_MAX_LINE_LENGTH" and c: "c \<noteq> CHR 0x00"
  shows "\<exists>t. insert_char c s = (Inr True, t) \<and> edits s (b @ [c], a) t"
proof (cases a)
  case Nil
  then show ?thesis using h room c holdsD [OF h]
    by (auto simp: insert_char_def cli_run poke_run edits_def holds_def overlay_def nuls_Suc [symmetric] intro!: nuls_eq)
next
  case (Cons x a')
  let ?k = "CLI_MAX_LINE_LENGTH - length (b @ a)"
  have cm: "cmd (edit s) = b @ a @ nuls ?k" "len (edit s) = int (length (b @ a))" "cursor (edit s) = int (length b)"
    using holdsD [OF h] by auto
  have k: "?k = Suc (?k - 1)" using room by simp
  have "shift_right (Suc (length a)) (length b) (cmd (edit s)) = Inr (take (Suc (length b)) (cmd (edit s)) @
      take (Suc (length a)) (drop (length b) (cmd (edit s))) @ drop (length b + Suc (length a) + 1) (cmd (edit s)))"
    by (rule shift_right_eq) (use room cm in simp)
  then have sh: "shift_right (Suc (length a)) (length b) (cmd (edit s)) = Inr (b @ x # a @ nuls (?k - 1))"
    using room unfolding cm(1) Cons by (simp add: nuls_append nuls_Suc [symmetric] numeral_2_eq_2 numeral_3_eq_3) (intro nuls_eq; simp)?
  have l: "\<not> int CLI_MAX_LINE_LENGTH - 2 \<le> len (edit s)" "cursor (edit s) \<noteq> len (edit s)"
    "nat (len (edit s) - cursor (edit s) + 1) = Suc (length a)" using room cm Cons by simp_all
  let ?s = "s\<lparr>edit := (edit s)\<lparr>cmd := b @ x # a @ nuls (?k - 1)\<rparr>\<rparr>"
  have run: "insert_char c s = seqE (poke (cursor (edit s)) [c]) (seqE (put_range (cursor (edit s)) (int (length a) + 1))
      (seqE (put (backs (Suc (length a)))) (seqE (set_pos (len (edit s) + 1) (cursor (edit s) + 1)) (ret True)))) ?s"
    using l cm unfolding insert_char_def bindE_edf Let_def by (simp add: on_buffer_run(2) [where f = "shift_right (Suc (length a)) (length b)", OF sh] add.commute)
  have "length (b @ x # a @ nuls (?k - 1)) = CLI_MAX_LINE_LENGTH" using room Cons by simp
  then show ?thesis
    using cm room h c Cons
    by (simp add: run poke_run put_range_run cli_run edits_def holds_def overlay_def)
qed

lemma goes_Erase:
  assumes h: "holds (edit s) (b, a)" and open_: "\<not> secret (cli s)" and room: "length (b @ a) + 2 < CLI_MAX_LINE_LENGTH"
    and b: "b \<noteq> []"
  shows "goes erase1 s (butlast b, a)"
proof -
  obtain b' y where b': "b = b' @ [y]" using b by (cases b rule: rev_cases) auto
  let ?k = "CLI_MAX_LINE_LENGTH - length (b @ a)"
  have cm: "cmd (edit s) = b @ a @ nuls ?k" "len (edit s) = int (length (b @ a))" "cursor (edit s) = int (length b)"
    using holdsD [OF h] by auto
  show ?thesis
  proof (cases a)
    case Nil
    then show ?thesis using cm open_ h b' room
      by (simp add: goes_def erase1_def cli_run poke_run echo_run edits_def holds_def overlay_def nuls_Suc [symmetric]) (intro nuls_eq; simp)
  next
    case (Cons x a')
    have "shift_left (Suc (Suc (length a))) (length b') (cmd (edit s)) = Inr (take (length b') (cmd (edit s)) @
        take (Suc (Suc (length a))) (drop (Suc (length b')) (cmd (edit s))) @ drop (length b' + Suc (Suc (length a))) (cmd (edit s)))"
      by (rule shift_left_eq) (use room cm b' in simp)
    then have sh: "shift_left (Suc (Suc (length a))) (length b') (cmd (edit s)) = Inr (b' @ a @ nuls (?k + 1))"
      using room unfolding cm(1) b' by (simp add: nuls_append numeral_2_eq_2) (intro nuls_eq; simp)?
    let ?cm = "b' @ a @ nuls (?k + 1)"
    let ?s = "s\<lparr>edit := (edit s)\<lparr>cursor := int (length b'), cmd := ?cm\<rparr>\<rparr>"
    have ta: "text_at (int (length b')) u = (Inr a, u)" if "cmd (edit u) = ?cm" for u :: "'a sess"
      using that h by (simp add: text_at_def cli_run holds_def takeWhile_nuls) (simp add: nuls_def)
    have sh': "shift_left (nat (len (edit s) - (cursor (edit s) - 1) + 1)) (nat (cursor (edit s) - 1)) (cmd (edit s)) = Inr ?cm"
      using sh cm b' by simp
    have ne: "len (edit s) \<noteq> cursor (edit s)" using cm Cons by simp
    have run: "erase1 s = (Inr (), ?s\<lparr>screen := screen s @ backspace @ a @ '' '' @ backs (length a + 1),
        edit := (edit ?s)\<lparr>len := len (edit s) - 1\<rparr>\<rparr>)"
      using cm b' open_ sh' ne
      by (simp add: erase1_def cli_run echo_run on_buffer_run(2) [where f = "shift_left _ _"] seqE_bindE_Inr [where m = "text_at _", OF ta])
    show ?thesis
      by (rule goesI [where m = erase1, OF run]) (use h b' cm room in \<open>simp add: edits_def holds_def, intro nuls_eq; simp\<close>)
  qed
qed

text \<open>Several characters are erased one after the other.\<close>

lemma goes_cong: "cli t = cli s \<Longrightarrow> edits s ln t \<Longrightarrow> edits t ln' u \<Longrightarrow> edits s ln' u"
  by (simp add: edits_def)

lemma goes_erase:
  assumes "holds (edit s) (b, a)" and "\<not> secret (cli s)" and "length (b @ a) + 2 < CLI_MAX_LINE_LENGTH" and "n \<le> length b"
  shows "goes (erase n) s (take (length b - n) b, a)"
  using assms
proof (induction n arbitrary: s b)
  case 0
  then show ?case by (auto simp: goes_def edits_def)
next
  case (Suc n)
  then have "b \<noteq> []" by auto
  then obtain t where t: "erase1 s = (Inr (), t)" "edits s (butlast b, a) t"
    using goes_Erase [OF Suc.prems(1-3)] by (auto simp: goes_def)
  then have h: "holds (edit t) (butlast b, a)" and c: "cli t = cli s" by (simp_all add: edits_def)
  have "goes (erase n) t (take (length (butlast b) - n) (butlast b), a)"
    by (rule Suc.IH [OF h]) (use Suc.prems c in auto)
  moreover have "take (length (butlast b) - n) (butlast b) = take (length b - Suc n) b"
    using Suc.prems(4) by (simp add: take_butlast)
  ultimately obtain u where u: "erase n t = (Inr (), u)" "edits t (take (length b - Suc n) b, a) u" by (auto simp: goes_def)
  have "erase (Suc n) s = (Inr (), u)" using t u by (simp add: seqE_Inr [where m = erase1, OF t(1)])
  then show ?case by (rule goesI) (rule goes_cong [OF c t(2) u(2)])
qed

lemma word_back_drop: "take (length b - word_back b) b = drop_word b" and word_back_le: "word_back b \<le> length b"
proof -
  define r where "r = rev b"
  define sp where "sp = takeWhile (\<lambda>c. c = CHR '' '') r"
  define r' where "r' = dropWhile (\<lambda>c. c = CHR '' '') r"
  define w where "w = takeWhile (\<lambda>c. c \<noteq> CHR '' '') r'"
  have r': "drop (length sp) r = r'" unfolding sp_def r'_def by (rule dropWhile_eq_drop [symmetric])
  have k: "word_back b = length sp + length w"
    using r' by (simp add: word_back_def Let_def w_def sp_def r_def)
  have split: "r = sp @ w @ dropWhile (\<lambda>c. c \<noteq> CHR '' '') r'" by (simp add: sp_def r'_def w_def)
  have b: "b = rev (dropWhile (\<lambda>c. c \<noteq> CHR '' '') r') @ rev w @ rev sp"
    using arg_cong [OF split, of rev] by (simp add: r_def)
  have d: "drop_word b = rev (dropWhile (\<lambda>c. c \<noteq> CHR '' '') r')"
    by (simp add: drop_word_def Let_def r'_def r_def)
  show "word_back b \<le> length b" unfolding k by (subst b) simp
  show "take (length b - word_back b) b = drop_word b"
    unfolding k d by (subst (1 2) b) simp
qed

lemma goes_key_erase:
  assumes h: "holds (edit s) (b, a)" and open_: "\<not> secret (cli s)" and room: "length (b @ a) + 2 < CLI_MAX_LINE_LENGTH"
    and c: "c = CHR 0x17 \<or> c = CHR 0x08 \<or> c = CHR 0x7F"
  shows "goes (key_erase c) s (line_key c (b, a))"
proof (cases "b = []")
  case True
  then have z: "cursor (edit s) = 0" using holdsD [OF h] by simp
  have "edits s (b, a) s" "edits s (b, a) (s\<lparr>screen := screen s @ bell\<rparr>)" using h by (simp_all add: edits_def)
  then show ?thesis using z c True
    by (auto simp: goes_def key_erase_def cli_run line_key_def drop_word_def)
next
  case False
  then have nz: "len (edit s) \<noteq> 0" "cursor (edit s) \<noteq> 0" using holdsD [OF h] by (cases b; simp)+
  have tk: "take (nat (cursor (edit s))) (cmd (edit s)) = b" using holdsD [OF h] by simp
  show ?thesis
  proof (cases "c = CHR 0x17")
    case True
    have "goes (erase (word_back b)) s (take (length b - word_back b) b, a)"
      by (rule goes_erase [OF h open_ room word_back_le])
    then show ?thesis using True nz by (simp add: goes_def key_erase_def cli_run tk word_back_drop line_key_def)
  next
    case other: False
    have one: "1 \<le> length b" using False by (cases b) auto
    have "goes (erase 1) s (take (length b - 1) b, a)" by (rule goes_erase [OF h open_ room one])
    then have "goes (erase 1) s (butlast b, a)" by (simp add: butlast_conv_take)
    then show ?thesis using other c nz by (auto simp: goes_def key_erase_def cli_run line_key_def)
  qed
qed

text \<open>A character.\<close>

definition plain_key :: "char \<Rightarrow> bool" where
  "plain_key c \<longleftrightarrow> editing_key c \<and>
     c \<notin> {CHR 0x17, CHR 0x08, CHR 0x7F, CHR 0x0C, CHR 0x15, CHR 0x0B, CHR 0x02, CHR 0x06, CHR 0x01, CHR 0x05}"

lemma line_key_plain: "plain_key c \<Longrightarrow> line_key c (b, a) = (b @ [c], a)"
  by (auto simp: plain_key_def line_key_def)

lemma key_plain: "plain_key c \<Longrightarrow> key K c = key_char c"
  by (auto simp: plain_key_def editing_key_def key_def)

lemma quiet_insert: "insert_char c s = (r, t) \<Longrightarrow> edits s ln t \<Longrightarrow> cli t = cli s"
  by (simp add: edits_def)

lemma key_char_edits:
  assumes h: "holds (edit s) (b, a)" and room: "length (b @ a) + 2 < CLI_MAX_LINE_LENGTH" and c: "plain_key c"
    and q: "c \<noteq> CHR ''?'' \<or> a \<noteq> [] \<or> secret (cli s)"
  shows "\<exists>t. key_char c s = (Inr Continue, t) \<and> edits s (b @ [c], a) t"
proof -
  have nz: "c \<noteq> CHR 0x00" using c by (simp add: plain_key_def editing_key_def)
  obtain t where t: "insert_char c s = (Inr True, t)" "edits s (b @ [c], a) t" using goes_insert [OF h room nz] by blast
  have cl: "cli t = cli s" and ht: "holds (edit t) (b @ [c], a)" using t(2) by (simp_all add: edits_def)
  have stop: "\<not> (\<not> secret (cli t) \<and> c = CHR ''?'' \<and> cursor (edit t) = len (edit t))" using q cl holdsD [OF ht] by auto
  have "key_char c s = seqE (whenE (\<not> secret (cli t)) (put [c]))
      (seqE (upd_ed (\<lambda>e. e\<lparr>oldcmd := False, oldl := 0, lastchar := c\<rparr>)) (ret Continue)) t"
    using stop unfolding key_char_def bindE_Inr [where m = "insert_char c", OF t(1)] by (simp add: cli_run)
  then have "key_char c s = (Inr Continue, t\<lparr>screen := screen t @ (if secret (cli t) then [] else [c]),
      edit := (edit t)\<lparr>oldcmd := False, oldl := 0, lastchar := c\<rparr>\<rparr>)"
    by (simp add: cli_run)
  moreover have "edits s (b @ [c], a) (t\<lparr>screen := screen t @ (if secret (cli t) then [] else [c]),
      edit := (edit t)\<lparr>oldcmd := False, oldl := 0, lastchar := c\<rparr>\<rparr>)"
    using t(2) by (simp add: edits_def holds_def)
  ultimately show ?thesis by blast
qed

text \<open>All keys together.\<close>

lemma key_edits:
  assumes h: "holds (edit s) (b, a)" and c: "editing_key c" and room: "room c (b, a)"
    and open_: "\<not> secret (cli s)" "cl_state (cli s) \<noteq> STATE_REQUEST" and q: "c \<noteq> CHR ''?'' \<or> a \<noteq> []"
  shows "\<exists>t. key K c s = (Inr Continue, t) \<and> edits s (line_key c (b, a)) t"
proof (cases "plain_key c")
  case True
  then have "length (b @ a) + 2 < CLI_MAX_LINE_LENGTH" using room by (simp add: room_def plain_key_def)
  moreover have "c \<noteq> CHR ''?'' \<or> a \<noteq> [] \<or> secret (cli s)" using q by blast
  ultimately show ?thesis using key_char_edits [OF h _ True] by (simp add: key_plain [OF True] line_key_plain [OF True])
next
  case False
  have r: "c \<noteq> CHR 0x15 \<Longrightarrow> length (b @ a) + 2 < CLI_MAX_LINE_LENGTH" "c = CHR 0x15 \<Longrightarrow> 3 * length (b @ a) \<le> CLI_MAX_LINE_LENGTH"
    using room by (simp_all add: room_def)
  have *: "\<exists>t. go_on m s = (Inr Continue, t) \<and> edits s ln t" if "goes m s ln" for m ln
    using that by (auto simp: goes_def go_on_def seqE_Inr)
  consider "c = CHR 0x17 \<or> c = CHR 0x08 \<or> c = CHR 0x7F" | "c = CHR 0x0C" | "c = CHR 0x15" | "c = CHR 0x0B" | "c = CHR 0x02"
    | "c = CHR 0x06" | "c = CHR 0x01" | "c = CHR 0x05"
    using False c by (auto simp: plain_key_def)
  then show ?thesis
  proof cases
    case 1
    then have "goes (key_erase c) s (line_key c (b, a))" by (intro goes_key_erase h open_ r) auto
    from * [OF this] show ?thesis using 1 by (auto simp: key_def)
  next
    case 2
    with * [OF goes_Redraw [OF h open_]] show ?thesis by (simp add: key_def)
  next
    case 3
    with * [OF goes_Clear [OF h open_(1) r(2)]] show ?thesis by (simp add: key_def)
  next
    case 4
    with * [OF goes_Kill [OF h open_(1)]] show ?thesis by (simp add: key_def)
  next
    case 5
    with * [OF goes_Left [OF h open_(1)]] show ?thesis by (simp add: key_def)
  next
    case 6
    with * [OF goes_Right [OF h open_(1)]] show ?thesis by (simp add: key_def)
  next
    case 7
    with * [OF goes_Home [OF h open_(1)]] show ?thesis by (simp add: key_def)
  next
    case 8
    with * [OF goes_End [OF h open_(1)]] show ?thesis by (simp add: key_def)
  qed
qed

section \<open>Sequences of keys\<close>

text \<open>A session that waits for a key of a line.\<close>

definition at_line :: "'w sess \<Rightarrow> line \<Rightarrow> bool" where
  "at_line s ln \<longleftrightarrow> holds (edit s) ln \<and> is_telnet_option (edit s) = 0 \<and> skip_bytes (edit s) = 0 \<and> esc (edit s) = 0 \<and>
     \<not> oldcmd (edit s) \<and> \<not> cl_showprompt (cli s) \<and> cl_state (cli s) \<noteq> STATE_REQUEST"

text \<open>What typing leaves alone.\<close>

definition typed :: "'w sess \<Rightarrow> 'w sess \<Rightarrow> bool" where
  "typed s t \<longleftrightarrow> quiet_step s t \<and> username (edit t) = username (edit s) \<and> cl_mode (cli t) = cl_mode (cli s)"

interpretation typed: step_order typed
  by unfold_locales (auto simp: typed_def intro: quiet.refl_R quiet.trans_R)

lemma byte_run:
  assumes l: "at_line s ln" and c: "c \<noteq> CHR 0xFF"
  obtains s1 where "cli_step K (Byte c, t1, t2) s = bindE (key K c) (\<lambda>f. case f of
        Continue \<Rightarrow> seqE prompt (ret False)
      | Break \<Rightarrow> bindE (line_done K t2) (\<lambda>end. if end then ret True else seqE new_line (seqE prompt (ret False)))) s1"
    and "edit s1 = edit s" and "typed s s1" and "secret (cli s1) = secret (cli s)"
    and "cl_showprompt (cli s1) = cl_showprompt (cli s)"
proof -
  have n: "(of_char c :: nat) \<noteq> 255" using c of_char_eq_iff [of c "CHR 0xFF", where 'a = nat] by simp
  let ?u = "s\<lparr>clock := t1\<rparr>"
  define s1 where "s1 = (if cl_idle_timeout (cli s) = 0 then ?u else ?u\<lparr>cli := (cli s)\<lparr>cl_last_action := t1\<rparr>\<rparr>)"
  have touch: "touch ?u = (Inr (), s1)" by (simp add: touch_def cli_run s1_def)
  have e: "edit s1 = edit s" and t: "typed s s1" "secret (cli s1) = secret (cli s)" "cl_showprompt (cli s1) = cl_showprompt (cli s)"
    by (simp_all add: s1_def typed_def quiet_step_def static_def secret_def)
  have tn: "telnet_byte c s1 = (Inr True, s1)" using l n by (simp add: telnet_byte_def cli_run e at_line_def)
  have eb: "escape_byte c s1 = (Inr (Some c), s1)" using l by (simp add: escape_byte_def cli_run e at_line_def)
  have "handle_input K (Byte c) ?u = key K c s1" for K :: "'a client"
    by (simp add: handle_input_def seqE_Inr [where m = touch, OF touch] bindE_Inr [where m = "telnet_byte c", OF tn]
        bindE_Inr [where m = "escape_byte c", OF eb])
  then have "cli_step K (Byte c, t1, t2) s = bindE (key K c) (\<lambda>f. case f of
        Continue \<Rightarrow> seqE prompt (ret False)
      | Break \<Rightarrow> bindE (line_done K t2) (\<lambda>end. if end then ret True else seqE new_line (seqE prompt (ret False)))) s1"
    for K :: "'a client"
    by (simp add: cli_step_def bindE_def)
  then show thesis by (rule that) (fact e t)+
qed

lemma prompt_idle: "\<not> cl_showprompt (cli s) \<Longrightarrow> prompt s = (Inr (), s)"
  by (simp add: prompt_def cli_run)

lemma edits_typed: "edits s ln t \<Longrightarrow> typed s t"
  by (simp add: edits_def typed_def quiet_step_def)

lemma step_edits:
  assumes l: "at_line s (b, a)" and c: "editing_key c" and room: "room c (b, a)"
    and open_: "\<not> secret (cli s)" and q: "c \<noteq> CHR ''?'' \<or> a \<noteq> []"
  obtains t where "cli_step K (Byte c, t1, t2) s = (Inr False, t)" and "at_line t (line_key c (b, a))" and "typed s t"
proof -
  have nff: "c \<noteq> CHR 0xFF" using c by (simp add: editing_key_def)
  obtain s1 where run: "cli_step K (Byte c, t1, t2) s = bindE (key K c) (\<lambda>f. case f of
        Continue \<Rightarrow> seqE prompt (ret False)
      | Break \<Rightarrow> bindE (line_done K t2) (\<lambda>end. if end then ret True else seqE new_line (seqE prompt (ret False)))) s1"
    and e: "edit s1 = edit s" and t: "typed s s1" and sec: "secret (cli s1) = secret (cli s)"
    and sp: "cl_showprompt (cli s1) = cl_showprompt (cli s)"
    by (rule byte_run [OF l nff, of K t1 t2])
  have h: "holds (edit s1) (b, a)" and st: "\<not> secret (cli s1)" "cl_state (cli s1) \<noteq> STATE_REQUEST"
    using l e open_ sec t by (simp_all add: at_line_def typed_def quiet_step_def)
  obtain u where u: "key K c s1 = (Inr Continue, u)" "edits s1 (line_key c (b, a)) u"
    using key_edits [OF h c room st q, of K] by blast
  have at: "at_line u (line_key c (b, a))" using u(2) l e sp st by (simp add: edits_def at_line_def)
  then have "prompt u = (Inr (), u)" by (simp add: prompt_idle at_line_def)
  then have "cli_step K (Byte c, t1, t2) s = (Inr False, u)"
    by (simp add: run bindE_Inr [where m = "key K c", OF u(1)] seqE_Inr [where m = prompt])
  then show thesis by (rule that [OF _ at typed.trans_R [OF t edits_typed [OF u(2)]]])
qed

lemma line_key_length: "length (fst (line_key c ln)) + length (snd (line_key c ln)) \<le> Suc (length (fst ln) + length (snd ln))"
proof -
  obtain b a where ln: "ln = (b, a)" by (cases ln)
  obtain d where "drop_word b = d" and "length d \<le> length b" by (metis word_back_drop length_take min.cobounded1)
  moreover have "length b - Suc 0 \<le> Suc (length b)" by simp
  ultimately show ?thesis
    unfolding ln line_key_def by (cases a) (simp_all split: if_split)
qed

text \<open>The editor implements the abstract line, as long as there is room for every key.\<close>

lemma events_edit:
  assumes "at_line s ln" and "\<not> secret (cli s)" and "\<And>c. c \<in> set cs \<Longrightarrow> editing_key c \<and> c \<noteq> CHR ''?''"
    and "3 * (length (fst ln) + length (snd ln) + length cs) \<le> CLI_MAX_LINE_LENGTH"
  shows "\<exists>t. cli_events K (map (\<lambda>c. (Byte c, t1, t2)) cs) s = (Inr False, t) \<and> at_line t (fold line_key cs ln) \<and> typed s t"
  using assms
proof (induction cs arbitrary: s ln)
  case Nil
  then show ?case by (simp add: typed.refl_R)
next
  case (Cons c cs)
  obtain b a where ln: "ln = (b, a)" by (cases ln)
  have room: "room c (b, a)" using Cons.prems(4) by (simp add: room_def ln)
  have c: "editing_key c" "c \<noteq> CHR ''?'' \<or> a \<noteq> []" using Cons.prems(3) [of c] by simp_all
  obtain t where t: "cli_step K (Byte c, t1, t2) s = (Inr False, t)" "at_line t (line_key c (b, a))" "typed s t"
    by (rule step_edits [OF Cons.prems(1) [unfolded ln] c(1) room Cons.prems(2) c(2)])
  have "\<not> secret (cli t)" using Cons.prems(2) t(3) by (simp add: typed_def quiet_step_def secret_def)
  moreover have "3 * (length (fst (line_key c ln)) + length (snd (line_key c ln)) + length cs) \<le> CLI_MAX_LINE_LENGTH"
    using Cons.prems(4) line_key_length [of c ln] by simp
  ultimately obtain u where "cli_events K (map (\<lambda>c. (Byte c, t1, t2)) cs) t = (Inr False, u)"
      "at_line u (fold line_key cs (line_key c ln))" "typed t u"
    using Cons.IH [of t "line_key c ln"] t(2) Cons.prems(3) ln by auto
  then show ?case using typed.trans_R [OF t(3), of u]
    by (simp add: bindE_Inr [where m = "cli_step K (Byte c, t1, t2)", OF t(1)] del: fold.simps) (auto simp: fold.simps)
qed

section \<open>Enter\<close>

lemma holds_text:
  assumes "holds e (b, a)"
  shows "takeWhile (\<lambda>c. c \<noteq> CHR 0x00) (cmd e) = b @ a" and "CHR 0x00 \<in> set (cmd e)"
proof -
  have c: "cmd e = (b @ a) @ nuls (CLI_MAX_LINE_LENGTH - length (b @ a))" and l: "length (b @ a) < CLI_MAX_LINE_LENGTH"
    using holdsD [OF assms] by simp_all
  have n: "CHR 0x00 \<notin> set (b @ a)" using assms by (simp add: holds_def)
  show "takeWhile (\<lambda>c. c \<noteq> CHR 0x00) (cmd e) = b @ a" unfolding c by (rule takeWhile_nuls [OF n])
  show "CHR 0x00 \<in> set (cmd e)" using l unfolding c by (simp add: nuls_def)
qed

lemma text_at_line: "holds (edit s) (b, a) \<Longrightarrow> text_at 0 s = (Inr (b @ a), s)"
  by (simp add: text_at_def cli_run holds_text)

text \<open>The command a line stands for, and what follows it.\<close>

definition run_line :: "'w client \<Rightarrow> string \<Rightarrow> ('w, int) cliprog" where
  "run_line K t = seqE (whenE (last t \<noteq> CHR ''?'' \<and> \<not> strcasecmp_eq t ''history'') (cli_add_history t)) (cli_run_command K t)"

definition after_line :: "int \<Rightarrow> int \<Rightarrow> ('w, bool) cliprog" where
  "after_line t2 r = (if r = CLI_QUIT then ret True
     else seqE (modify (\<lambda>s. s\<lparr>clock := t2\<rparr>)) (seqE touch (seqE new_line (seqE prompt (ret False)))))"

lemma line_command_run:
  assumes h: "holds (edit s) (b, a)" and ne: "b @ a \<noteq> []"
  shows "line_command K s = run_line K (b @ a) s"
proof -
  let ?t = "b @ a"
  have l: "len (edit s) = int (length ?t)" and c: "cmd (edit s) = ?t @ nuls (CLI_MAX_LINE_LENGTH - length ?t)"
    and lt: "length ?t < CLI_MAX_LINE_LENGTH"
    using holdsD [OF h] by simp_all
  have n: "nat (len (edit s) - 1) = length ?t - 1" and i: "length ?t - 1 < length ?t" "0 \<le> len (edit s) - 1"
    using ne l by (cases b; cases a; simp)+
  have "cmd (edit s) ! (length ?t - 1) = ?t ! (length ?t - 1)" unfolding c by (rule nth_append_left [OF i(1)])
  also have "\<dots> = last ?t" using ne by (rule last_conv_nth [symmetric])
  finally have "cmd (edit s) ! (length ?t - 1) = last ?t" .
  moreover have "nat (len (edit s) - 1) < length (cmd (edit s))" using i n lt holds_length [OF h] by simp
  ultimately have p: "peek (len (edit s) - 1) s = (Inr (last ?t), s)" using i n by (simp add: peek_def cli_run)
  show ?thesis
    by (simp add: line_command_def cli_run bindE_Inr [where m = "peek _", OF p] bindE_Inr [where m = "text_at 0", OF text_at_line [OF h]] run_line_def)
qed

lemma enter_runs:
  assumes l: "at_line s (b, a)" and ne: "b @ a \<noteq> []" and st: "cl_state (cli s) = STATE_NORMAL \<or> cl_state (cli s) = STATE_ENABLE"
  obtains s1 where "cli_step K (Byte (CHR 0x0D), t1, t2) s = bindE (run_line K (b @ a)) (after_line t2) s1" and "typed s s1"
    and "edit s1 = edit s"
proof -
  have nff: "CHR 0x0D \<noteq> CHR 0xFF" by simp
  obtain s1 where run: "cli_step K (Byte (CHR 0x0D), t1, t2) s = bindE (key K (CHR 0x0D)) (\<lambda>f. case f of
        Continue \<Rightarrow> seqE prompt (ret False)
      | Break \<Rightarrow> bindE (line_done K t2) (\<lambda>end. if end then ret True else seqE new_line (seqE prompt (ret False)))) s1"
    and e: "edit s1 = edit s" and t: "typed s s1" and sec: "secret (cli s1) = secret (cli s)"
    by (rule byte_run [OF l nff, of K t1 t2])
  let ?s2 = "s1\<lparr>screen := screen s1 @ crlf\<rparr>"
  have st1: "cl_state (cli s1) = STATE_NORMAL \<or> cl_state (cli s1) = STATE_ENABLE" using st t by (simp add: typed_def quiet_step_def)
  then have ns: "\<not> secret (cli s1)" by (auto simp: secret_def)
  have k: "key K (CHR 0x0D) s1 = (Inr Break, ?s2)" by (simp add: key_def echo_run(2) [OF ns] cli_run)
  have h: "holds (edit ?s2) (b, a)" using l e by (simp add: at_line_def)
  have len: "\<not> len (edit ?s2) < 0" "len (edit ?s2) \<noteq> 0" using holdsD [OF h] ne by (cases b; cases a; simp)+
  have "line_done K t2 ?s2 = bindE (line_command K) (\<lambda>r. if r = CLI_QUIT then ret True
      else seqE (modify (\<lambda>s. s\<lparr>clock := t2\<rparr>)) (seqE touch (ret False))) ?s2"
    using st1 len by (auto simp: line_done_def cli_run)
  also have "\<dots> = bindE (run_line K (b @ a)) (\<lambda>r. if r = CLI_QUIT then ret True
      else seqE (modify (\<lambda>s. s\<lparr>clock := t2\<rparr>)) (seqE touch (ret False))) ?s2"
    by (simp add: bindE_def line_command_run [OF h ne])
  finally have d: "line_done K t2 ?s2 = bindE (run_line K (b @ a)) (\<lambda>r. if r = CLI_QUIT then ret True
      else seqE (modify (\<lambda>s. s\<lparr>clock := t2\<rparr>)) (seqE touch (ret False))) ?s2" .
  have "cli_step K (Byte (CHR 0x0D), t1, t2) s =
      bindE (line_done K t2) (\<lambda>end. if end then ret True else seqE new_line (seqE prompt (ret False))) ?s2"
    by (simp add: run bindE_Inr [where m = "key K (CHR 0x0D)", OF k])
  also have "\<dots> = bindE (run_line K (b @ a)) (after_line t2) ?s2"
    unfolding bindE_def [where m = "line_done K t2"] d
    by (auto simp: bindE_def after_line_def seqE_def fun_eq_iff ret_def split: prod.split sum.split)
  finally show thesis
    by (rule that) (use t e in \<open>simp_all add: typed_def quiet_step_def\<close>)
qed

text \<open>The line after a line is empty again, and the prompt is shown.\<close>

lemma poke_all_run:
  assumes "length (cmd (edit s)) = CLI_MAX_LINE_LENGTH"
  shows "poke 0 (nuls CLI_MAX_LINE_LENGTH) s = (Inr (), s\<lparr>edit := (edit s)\<lparr>cmd := nuls CLI_MAX_LINE_LENGTH\<rparr>\<rparr>)"
  using assms by (simp add: poke_run overlay_def)

text \<open>Typing at the end of a line, shown or not.\<close>

lemma step_types:
  assumes l: "at_line s (b, [])" and c: "plain_key c" and room: "length b + 2 < CLI_MAX_LINE_LENGTH"
    and q: "c \<noteq> CHR ''?'' \<or> secret (cli s)"
  obtains t where "cli_step K (Byte c, t1, t2) s = (Inr False, t)" and "at_line t (b @ [c], [])" and "typed s t"
proof -
  have nff: "c \<noteq> CHR 0xFF" using c by (simp add: plain_key_def editing_key_def)
  obtain s1 where run: "cli_step K (Byte c, t1, t2) s = bindE (key K c) (\<lambda>f. case f of
        Continue \<Rightarrow> seqE prompt (ret False)
      | Break \<Rightarrow> bindE (line_done K t2) (\<lambda>end. if end then ret True else seqE new_line (seqE prompt (ret False)))) s1"
    and e: "edit s1 = edit s" and t: "typed s s1" and sec: "secret (cli s1) = secret (cli s)"
    and sp: "cl_showprompt (cli s1) = cl_showprompt (cli s)"
    by (rule byte_run [OF l nff, of K t1 t2])
  have h: "holds (edit s1) (b, [])" and st: "cl_state (cli s1) \<noteq> STATE_REQUEST"
    using l e t by (simp_all add: at_line_def typed_def quiet_step_def)
  have "length (b @ []) + 2 < CLI_MAX_LINE_LENGTH" "c \<noteq> CHR ''?'' \<or> [] \<noteq> ([] :: string) \<or> secret (cli s1)"
    using room q sec by simp_all
  then obtain u where u: "key_char c s1 = (Inr Continue, u)" "edits s1 (b @ [c], []) u"
    using key_char_edits [OF h _ c] by blast
  have at: "at_line u (b @ [c], [])" using u(2) l e sp st by (simp add: edits_def at_line_def)
  then have "prompt u = (Inr (), u)" by (simp add: prompt_idle at_line_def)
  then have "cli_step K (Byte c, t1, t2) s = (Inr False, u)"
    by (simp add: run key_plain [OF c] bindE_Inr [where m = "key_char c", OF u(1)] seqE_Inr [where m = prompt])
  then show thesis by (rule that [OF _ at typed.trans_R [OF t edits_typed [OF u(2)]]])
qed

text \<open>
  C8: The line editor implements a line with a cursor. Editing keys, given to a session that shows
  a line, change the buffer as \<open>line_key\<close> changes the text before and behind the cursor, and touch
  neither the settings nor the world; Enter then runs the command with exactly that
  text. The lines are those for which \<open>3\<close> times the text and the keys fit the buffer, the room clearing a line needs.
\<close>

theorem editor_refines_line:
  assumes "at_line s ln" and "cl_state (cli s) = STATE_NORMAL \<or> cl_state (cli s) = STATE_ENABLE"
    and "list_all (\<lambda>c. editing_key c \<and> c \<noteq> CHR ''?'') cs"
    and "3 * (length (fst ln) + length (snd ln) + length cs) \<le> CLI_MAX_LINE_LENGTH"
    and "fold line_key cs ln = (b, a)" and "b @ a \<noteq> []"
  shows "\<exists>t u. cli_events K (map (\<lambda>c. (Byte c, t1, t2)) cs) s = (Inr False, t) \<and> holds (edit t) (b, a) \<and> typed s t \<and> typed t u \<and>
    cli_step K (Byte (CHR 0x0D), t3, t4) t = bindE (run_line K (b @ a)) (after_line t4) u"
proof -
  have sec: "\<not> secret (cli s)" using assms(2) by (auto simp: secret_def)
  have ok: "\<And>c. c \<in> set cs \<Longrightarrow> editing_key c \<and> c \<noteq> CHR ''?''" using assms(3) by (simp add: list_all_iff)
  obtain t where t: "cli_events K (map (\<lambda>c. (Byte c, t1, t2)) cs) s = (Inr False, t)" "at_line t (b, a)" "typed s t"
    using events_edit [OF assms(1) sec ok assms(4), of K t1 t2] assms(5) by auto
  have st: "cl_state (cli t) = STATE_NORMAL \<or> cl_state (cli t) = STATE_ENABLE" using assms(2) t(3) by (simp add: typed_def quiet_step_def)
  obtain u where "cli_step K (Byte (CHR 0x0D), t3, t4) t = bindE (run_line K (b @ a)) (after_line t4) u" "typed t u"
    by (rule enter_runs [OF t(2) assms(6) st])
  with t show ?thesis by (auto simp: at_line_def)
qed

definition demo_line :: "unit sess" where
  "demo_line = \<lparr>cli = blank_cli\<lparr>cl_state := STATE_NORMAL\<rparr>,
     edit = \<lparr>cmd = nuls CLI_MAX_LINE_LENGTH, len = 0, cursor = 0, oldcmd = False, oldl = 0, is_telnet_option = 0,
       skip_bytes = 0, esc = 0, in_history = 0, lastchar = CHR 0x00, username = None, password = None\<rparr>,
     screen = [], clock = 0, cworld = ()\<rparr>"

theorem editor_refines_line_witness:
  "\<forall>K. \<exists>t u. cli_events K (map (\<lambda>c. (Byte c, 1, 1)) (''qtx'' @ [CHR 0x7F, CHR 0x02] @ ''ui'')) demo_line = (Inr False, t) \<and>
    holds (edit t) (''qui'', ''t'') \<and> typed demo_line t \<and> typed t u \<and>
    cli_step K (Byte (CHR 0x0D), 2, 3) t = bindE (run_line K ''quit'') (after_line 3) u"
proof -
  have l: "at_line demo_line ([], [])" by (simp add: at_line_def demo_line_def holds_def blank_cli_def CLI_MAX_LINE_LENGTH_def)
  have st: "cl_state (cli demo_line) = STATE_NORMAL \<or> cl_state (cli demo_line) = STATE_ENABLE"
    by (simp add: demo_line_def)
  have ks: "list_all (\<lambda>c. editing_key c \<and> c \<noteq> CHR ''?'') (''qtx'' @ [CHR 0x7F, CHR 0x02] @ ''ui'')"
    by (simp add: editing_key_def)
  have f: "fold line_key (''qtx'' @ [CHR 0x7F, CHR 0x02] @ ''ui'') ([], []) = (''qui'', ''t'')"
    by (simp add: line_key_def)
  show ?thesis
  proof
    show "\<exists>t u. cli_events K (map (\<lambda>c. (Byte c, 1, 1)) (''qtx'' @ [CHR 0x7F, CHR 0x02] @ ''ui'')) demo_line = (Inr False, t) \<and>
      holds (edit t) (''qui'', ''t'') \<and> typed demo_line t \<and> typed t u \<and>
      cli_step K (Byte (CHR 0x0D), 2, 3) t = bindE (run_line K ''quit'') (after_line 3) u" for K
      using editor_refines_line [OF l st ks _ f, of K 1 1 2 3] by (simp add: CLI_MAX_LINE_LENGTH_def)
  qed
qed

end
