(* ===== verification/CommandFacts.thy ===== *)
theory CommandFacts
  imports Daemon DriverFacts CliSafety CliEdit
begin

text \<open>
  The daemon as a client of the command-line library. Its commands print and change the world, and
  nothing else of the session; the commands open to everybody change of the daemon's state only the
  port object, the messages on the display and the log. So the library's guarantees hold for the daemon's sessions: nothing
  happens before the password, and the settings stay as they are until the enable password.
\<close>

section \<open>What a command leaves alone\<close>

definition session_kept :: "'w sess \<Rightarrow> 'w sess \<Rightarrow> bool" where
  "session_kept s t \<longleftrightarrow> edit t = edit s \<and> static (cli t) = static (cli s) \<and> cl_state (cli t) = cl_state (cli s) \<and>
     cl_privilege (cli t) = cl_privilege (cli s)"

interpretation skept: step_order session_kept
  by unfold_locales (auto simp: session_kept_def)

text \<open>Two orders on the world: all steps, and the steps that keep the settings and the configuration files.\<close>

definition world_along :: "(world \<Rightarrow> world \<Rightarrow> bool) \<Rightarrow> world sess \<Rightarrow> world sess \<Rightarrow> bool" where
  "world_along R s t \<longleftrightarrow> session_kept s t \<and> R (cworld s) (cworld t)"

locale world_order = step_order R for R :: "world \<Rightarrow> world \<Rightarrow> bool"
begin

sublocale along: step_order "world_along R"
  by unfold_locales (auto simp: world_along_def intro: skept.refl_R skept.trans_R refl_R trans_R)

lemma quiet_along: "obeys quiet_step m \<Longrightarrow> obeys silent m \<Longrightarrow> obeys (world_along R) m"
  by (simp add: obeys_def quiet_step_def silent_def world_along_def session_kept_def refl_R)

lemma on_world_along: "obeys R m \<Longrightarrow> obeys (world_along R) (on_world m)"
  by (rule obeysI) (auto simp: on_world_def world_along_def session_kept_def dest: obeysD split: prod.splits)

lemma ctxf_along: "obeys R (ctxf f)"
  unfolding ctxf_def by (rule gets_obeys)

lemmas along_intro = along.order_intros along.if_obeys on_world_along

lemma print_along: "obeys (world_along R) (cli_print X t)"
  by (rule quiet_along) (rule quiet_prints silent_prints)+

lemma with_ctx_along: "(\<And>c. obeys (world_along R) (f c)) \<Longrightarrow> obeys (world_along R) (with_ctx f)"
  unfolding with_ctx_def by (intro along_intro ctxf_along)

lemma arg_along: "obeys (world_along R) (arg argv i)"
  unfolding arg_def by (intro along_intro)

lemma answer_along: "obeys (world_along R) (answer_ok X t)"
  unfolding answer_ok_def by (intro along_intro print_along)

lemma print_all_along: "obeys (world_along R) (print_all X ts)"
  by (induction ts) (simp_all only: print_all.simps along_intro print_along)

lemma show_slots_along: "obeys (world_along R) (show_slots X c n i)"
  by (induction n arbitrary: i) (simp_all only: show_slots.simps along_intro print_along)

lemma port_list_along: "obeys (world_along R) (port_list L)"
  unfolding port_list_def by (intro along_intro)

lemmas body_along = along_intro print_along with_ctx_along arg_along answer_along print_all_along show_slots_along
  port_list_along

end

text \<open>The commands lock the mutex, which an order may see.\<close>

locale command_order = world_order R for R :: "world \<Rightarrow> world \<Rightarrow> bool" +
  assumes lock_R: "obeys R io_lock" and unlock_R: "obeys R io_unlock"
begin

lemma scoped_along: "obeys (world_along R) m \<Longrightarrow> obeys (world_along R) (scoped_lock m)"
  unfolding scoped_lock_def by (intro along_intro lock_R unlock_R)

lemmas command_along = body_along scoped_along

lemma shows_along:
  "obeys (world_along R) (cmd_show_ports L X command argv argc)" "obeys (world_along R) (cmd_show_port X)"
  "obeys (world_along R) (cmd_show_messages X)" "obeys (world_along R) (cmd_show_startupmsgs X)"
  "obeys (world_along R) (cmd_show_logfiledir X)" "obeys (world_along R) (cmd_show_monitorpath X)"
  unfolding cmd_show_ports_def cmd_show_port_def cmd_show_messages_def cmd_show_startupmsgs_def cmd_show_logfiledir_def
    cmd_show_monitorpath_def
  by (intro command_along)+

lemma display_along:
  assumes "\<And>p t. obeys R (drive sys L p t)"
  shows "obeys (world_along R) (cmd_message sys L X argv argc)" and "obeys (world_along R) (cmd_clear sys L X argv argc)"
  unfolding cmd_message_def cmd_clear_def by (intro command_along assms)+

lemma settings_along:
  assumes save: "\<And>f. obeys R (save L f)" and say: "\<And>lvl t. obeys R (say lvl t)"
    and port: "\<And>p. obeys R (upd_ctx (\<lambda>c. c\<lparr>ctx_port := p\<rparr>))"
    and msg: "\<And>i t. obeys R (upd_ctx (\<lambda>c. c\<lparr>ctx_startupmsg := (ctx_startupmsg c)(i := t)\<rparr>))"
    and log: "\<And>d. obeys R (upd_ctx (\<lambda>c. c\<lparr>ctx_logpath := d\<rparr>))"
    and monitor: "\<And>d. obeys R (upd_ctx (\<lambda>c. c\<lparr>ctx_monitorpath := d\<rparr>))"
  shows "obeys (world_along R) (cmd_save L X)" and "obeys (world_along R) (cmd_set_port L X argv)"
    and "obeys (world_along R) (cmd_set_startupmsg X argv argc)" and "obeys (world_along R) (cmd_set_logfiledir L X argv argc)"
    and "obeys (world_along R) (cmd_set_monitorpath L X argv argc)" and "obeys (world_along R) cmd_set"
proof -
  have opt: "obeys (world_along R) (case z of None \<Rightarrow> m | Some x \<Rightarrow> f x)"
    if "obeys (world_along R) m" "\<And>x. obeys (world_along R) (f x)" for z :: "string option" and m f
    using that by (cases z) auto
  show "obeys (world_along R) (cmd_save L X)" "obeys (world_along R) (cmd_set_port L X argv)"
    "obeys (world_along R) (cmd_set_startupmsg X argv argc)" "obeys (world_along R) (cmd_set_logfiledir L X argv argc)"
    "obeys (world_along R) (cmd_set_monitorpath L X argv argc)" "obeys (world_along R) cmd_set"
    unfolding cmd_save_def cmd_set_port_def cmd_set_startupmsg_def cmd_set_logfiledir_def cmd_set_monitorpath_def
      set_directory_def cmd_set_def
    by (intro command_along opt save say port msg log monitor)+
qed

end

lemma anything: "obeys (\<lambda>w w'. True) m"
  by (simp add: obeys_def)

interpretation any_order: command_order "\<lambda>w w'. True"
  by unfold_locales (auto simp: anything)

interpretation frame_order: command_order driver_frame
  by unfold_locales (auto simp: obeys_def io_lock_def io_unlock_def driver_frame_def world_run)

section \<open>The daemon's commands\<close>

text \<open>The functions behind the commands that need no privilege.\<close>

definition lmb_open :: "string \<Rightarrow> bool" where
  "lmb_open f \<longleftrightarrow> f \<in> {''cmd_show_ports'', ''cmd_show_port'', ''cmd_show_messages'', ''cmd_show_startupmsgs'',
     ''cmd_show_logfiledir'', ''cmd_show_monitorpath'', ''cmd_message'', ''cmd_clear''}"

lemma drive_frame: "obeys driver_frame (drive sys L p t)"
  unfolding drive_def by (rule dx_frame.show_message_R)

lemma command_kept: "obeys (world_along (\<lambda>w w'. True)) (lmb_command sys L X f command argv argc)"
  unfolding lmb_command_def
  by (intro any_order.along_intro any_order.shows_along any_order.display_along any_order.settings_along anything)

lemma command_frame:
  assumes "lmb_open f"
  shows "obeys (world_along driver_frame) (lmb_command sys L X f command argv argc)"
  using assms frame_order.shows_along frame_order.display_along [OF drive_frame]
  by (auto simp: lmb_open_def lmb_command_def)

lemma idle_quiet: "obeys quiet_step (on_call (lmb_client sys L X cr) f)"
  unfolding lmb_client_def client.simps idle_timeout_def by (intro quiet_intro)

interpretation lmb: guarded_client "lmb_client sys L X cr" driver_frame lmb_open for sys L X cr
proof
  show "obeys quiet_step (on_call (lmb_client sys L X cr) f)" for f by (rule idle_quiet)
  show "obeys quiet_step (on_complete (lmb_client sys L X cr) f c ws)" for f c ws
    unfolding lmb_client_def client.simps by (intro quiet_intro)
  show "driver_frame w w" for w by (rule frame.refl_R)
  show "driver_frame w1 w3" if "driver_frame w1 w2" "driver_frame w2 w3" for w1 w2 w3 using that by (rule frame.trans_R)
next
  fix f c argv argc s r t
  assume run: "on_command (lmb_client sys L X cr) f c argv argc s = (r, t)"
  then have run': "lmb_command sys L X f c argv argc s = (r, t)" by (simp add: lmb_client_def)
  show "static (cli t) = static (cli s) \<and> cl_state (cli t) = cl_state (cli s) \<and> cl_privilege (cli t) = cl_privilege (cli s)"
    using obeysD [OF command_kept run'] by (simp only: world_along_def session_kept_def)
  show "driver_frame (cworld s) (cworld t)" if "lmb_open f"
    using obeysD [OF command_frame [OF that] run'] by (simp only: world_along_def)
qed

section \<open>Opening a session\<close>

abbreviation leaf :: "string \<Rightarrow> handler \<Rightarrow> int \<Rightarrow> int \<Rightarrow> string \<Rightarrow> cli_command" where
  "leaf n h p m t \<equiv> Command n (Some h) 0 (Some t) p m None []"

definition lib_tree :: "cli_command list" where
  "lib_tree =
     [leaf ''help'' cli_int_help 0 (- 1) ''Show available commands'',
      leaf ''quit'' cli_int_quit 0 (- 1) ''Disconnect'',
      leaf ''logout'' cli_int_quit 0 (- 1) ''Disconnect'',
      leaf ''exit'' cli_int_exit 0 (- 1) ''Exit from current mode'',
      leaf ''history'' cli_int_history 0 (- 1) ''Show a list of previously run commands'',
      leaf ''enable'' cli_int_enable 0 0 ''Turn on privileged commands'',
      leaf ''disable'' cli_int_disable 15 0 ''Turn off privileged commands'',
      Command ''configure'' None 0 (Some ''Enter configuration mode'') 15 0 None
        [leaf ''terminal'' cli_int_configure_terminal 15 0 ''Configure from the terminal'']]"

definition lmb_tree :: "cli_command list" where
  "lmb_tree = lib_tree @
     [Command ''set'' (Some (client_fun ''cmd_set'')) 0 None 15 0 None
        [leaf ''port'' (client_fun ''cmd_set_port'') 15 0 ''Set Serial Port'',
         leaf ''startupmsg'' (client_fun ''cmd_set_startupmsg'') 15 0 ''Set Serial Port'',
         leaf ''logfilepath'' (client_fun ''cmd_set_logfiledir'') 15 0 ''Set Log File Directory'',
         leaf ''monitorpath'' (client_fun ''cmd_set_monitorpath'') 15 0 ''Set Monitor File Directory''],
      leaf ''save'' (client_fun ''cmd_save'') 15 0 ''Save Config'',
      Command ''show'' None 0 None 0 0 None
        [leaf ''ports'' (client_fun ''cmd_show_ports'') 0 0 ''Show available Serial Ports'',
         leaf ''port'' (client_fun ''cmd_show_port'') 0 0 ''Show Configured Serial Port'',
         leaf ''messages'' (client_fun ''cmd_show_messages'') 0 0 ''Show Current Messages'',
         leaf ''startupmsg'' (client_fun ''cmd_show_startupmsgs'') 0 0 ''Show Current Messages'',
         leaf ''logfiledir'' (client_fun ''cmd_show_logfiledir'') 0 0 ''Show LogFile Directory'',
         leaf ''monitorpath'' (client_fun ''cmd_show_monitorpath'') 0 0 ''Show Monitor file Directory''],
      leaf ''message'' (client_fun ''cmd_message'') 0 0 ''Set a Message to be displayed'',
      leaf ''clear'' (client_fun ''cmd_clear'') 0 0 ''Clear a Message'']"

lemma skeleton_add [simp]: "map skeleton (add_command p c cs) = add_command p (skeleton c) (map skeleton cs)"
proof (induction p c cs rule: add_command.induct)
  case (2 i "is" c cs)
  then show ?case by (cases "i < length cs"; cases "cs ! i") (simp_all add: map_update)
qed simp

lemma length_build [simp]: "length (cli_build_shortest s cs) = length cs"
  by (simp add: cli_build_shortest.simps [of s cs])

lemma length_add [simp]: "length (add_command p c cs) = (if p = [] then Suc (length cs) else length cs)"
  by (cases p; cases "hd p < length cs"; cases "cs ! hd p") auto

lemma register_run [cli_run]:
  "bindE (cli_register_command parent n h p m help) k s =
     k (parent @ [length (siblings parent (cl_commands (cli s)))])
       (s\<lparr>cli := (cli s)\<lparr>cl_commands := add_command parent (Command n h 0 help p m None []) (cl_commands (cli s))\<rparr>\<rparr>)"
  by (simp add: cli_register_command_def cli_run bindE_def seqE_def clif_def upd_cli_def)

lemma reg_run [cli_run]:
  "reg parent n h p m help s =
     (Inr (), s\<lparr>cli := (cli s)\<lparr>cl_commands := add_command parent (Command n h 0 (Some help) p m None []) (cl_commands (cli s))\<rparr>\<rparr>)"
  "seqE (reg parent n h p m help) k s =
     k (s\<lparr>cli := (cli s)\<lparr>cl_commands := add_command parent (Command n h 0 (Some help) p m None []) (cl_commands (cli s))\<rparr>\<rparr>)"
  by (simp_all add: reg_def register_run seqE_def bindE_def cli_register_command_def clif_def upd_cli_def)

lemma idle_callback_run [cli_run]:
  "cli_set_idle_timeout_callback n f s =
     (Inr (), s\<lparr>cli := (cli s)\<lparr>cl_idle_timeout := n, cl_last_action := clock s, cl_idle_callback := Some f\<rparr>\<rparr>)"
  "seqE (cli_set_idle_timeout_callback n f) k s =
     k (s\<lparr>cli := (cli s)\<lparr>cl_idle_timeout := n, cl_last_action := clock s, cl_idle_callback := Some f\<rparr>\<rparr>)"
  by (simp_all add: cli_set_idle_timeout_callback_def cli_set_idle_timeout_def seqE_def bindE_def upd_cli_def)

lemma seqE_bindE: "seqE (bindE m k) n = bindE m (\<lambda>x. seqE (k x) n)"
  by (auto simp: seqE_def bindE_def fun_eq_iff split: prod.split sum.split)

lemma cli_init_run:
  "\<exists>t. cli_init s = (Inr (), t) \<and> t = s\<lparr>cli := cli t\<rparr> \<and>
     static (cli t) = (lib_tree, [], None, None, None, None, Some cli_int_idle_timeout, \<lambda>_. None, None) \<and>
     cl_privilege (cli t) = 0 \<and> cl_mode (cli t) = 0"
  by (simp add: cli_init_def cli_run cli_set_privilege_def cli_set_configmode_def rebuild_def cli_set_promptchar_def
      cli_set_modestring_def static_def blank_cli_def lib_tree_def)

lemma scoped_run:
  assumes "\<not> io_mutex (cworld s)" and "m (s\<lparr>cworld := (cworld s)\<lparr>io_mutex := True\<rparr>\<rparr>) = (Inr x, t)"
  shows "scoped_lock m s = (Inr x, t\<lparr>cworld := (cworld t)\<lparr>io_mutex := False\<rparr>\<rparr>)"
  using assms by (simp add: scoped_lock_def seqE_def bindE_def on_world_def io_lock_def io_unlock_def finallyE_def gets_def)

lemma allow_run:
  assumes "\<not> io_mutex (cworld s)"
  shows "scoped_lock (with_ctx (\<lambda>c. seqE (cli_allow_user (ctx_username c) (ctx_password c)) (cli_allow_enable (ctx_enablepass c)))) s =
    (Inr (), s\<lparr>cli := (cli s)\<lparr>cl_users := cl_users (cli s) @ [(ctx_username (ctx (cworld s)), ctx_password (ctx (cworld s)))],
       cl_enable_password := Some (ctx_enablepass (ctx (cworld s)))\<rparr>\<rparr>)"
proof -
  let ?w = "(cworld s)\<lparr>io_mutex := True\<rparr>"
  have "with_ctx (\<lambda>c. seqE (cli_allow_user (ctx_username c) (ctx_password c)) (cli_allow_enable (ctx_enablepass c))) (s\<lparr>cworld := ?w\<rparr>) =
    (Inr (), s\<lparr>cworld := ?w, cli := (cli s)\<lparr>cl_users := cl_users (cli s) @ [(ctx_username (ctx (cworld s)), ctx_password (ctx (cworld s)))],
       cl_enable_password := Some (ctx_enablepass (ctx (cworld s)))\<rparr>\<rparr>)"
    by (simp add: with_ctx_def on_world_def ctxf_def bindE_def cli_allow_user_def cli_allow_enable_def seqE_def upd_cli_def)
  from scoped_run [where s = s and m = "with_ctx _", OF assms this] assms show ?thesis by simp
qed

text \<open>A session of the daemon: nobody is logged in, and the settings are those of the context.\<close>

definition lmb_static :: "lmbctx \<Rightarrow> cli_command list \<times> (string \<times> string) list \<times> string option \<times> string option \<times>
    string option \<times> string option \<times> handler option \<times> (hook_id \<Rightarrow> string option) \<times> string option" where
  "lmb_static c = (lmb_tree, [(ctx_username c, ctx_password c)], Some (ctx_enablepass c), None, None, None,
     Some (client_fun ''idle_timeout''), \<lambda>_. None, None)"

text \<open>The groups of commands only add to the tree.\<close>

definition grows :: "unit cmdprog \<Rightarrow> (cli_command list \<Rightarrow> cli_command list) \<Rightarrow> bool" where
  "grows m F \<longleftrightarrow> (\<forall>s. \<exists>X. m s = (Inr (), s\<lparr>cli := (cli s)\<lparr>cl_commands := X\<rparr>\<rparr>) \<and>
     map skeleton X = F (map skeleton (cl_commands (cli s))))"

lemma growsD:
  assumes "grows m F"
  obtains X where "m s = (Inr (), s\<lparr>cli := (cli s)\<lparr>cl_commands := X\<rparr>\<rparr>)" and "map skeleton X = F (map skeleton (cl_commands (cli s)))"
  using assms unfolding grows_def by blast

lemma grows_seq:
  assumes m: "grows m F" and n: "grows n G"
  shows "grows (seqE m n) (\<lambda>cs. G (F cs))"
  unfolding grows_def
proof
  fix s :: "world sess"
  obtain X where X: "m s = (Inr (), s\<lparr>cli := (cli s)\<lparr>cl_commands := X\<rparr>\<rparr>)" "map skeleton X = F (map skeleton (cl_commands (cli s)))"
    using m by (rule growsD)
  let ?t = "s\<lparr>cli := (cli s)\<lparr>cl_commands := X\<rparr>\<rparr>"
  obtain Y where Y: "n ?t = (Inr (), ?t\<lparr>cli := (cli ?t)\<lparr>cl_commands := Y\<rparr>\<rparr>)" "map skeleton Y = G (map skeleton (cl_commands (cli ?t)))"
    using n by (rule growsD)
  show "\<exists>X. seqE m n s = (Inr (), s\<lparr>cli := (cli s)\<lparr>cl_commands := X\<rparr>\<rparr>) \<and>
      map skeleton X = G (F (map skeleton (cl_commands (cli s))))"
    by (rule exI [of _ Y]) (use X Y in \<open>simp add: seqE_Inr [where m = m, OF X(1)]\<close>)
qed

lemma grows_reg: "grows (reg p n h priv m help) (add_command p (Command n h 0 (Some help) priv m None []))"
  by (auto simp: grows_def reg_run intro!: exI [of _ "add_command p (Command n h 0 (Some help) priv m None []) (cl_commands (cli _))"])

lemma grows_group:
  assumes "\<And>p. grows (k p) (G p)"
  shows "grows (bindE (cli_register_command [] n h priv m help) k)
    (\<lambda>cs. G [length cs] (cs @ [Command n h 0 help priv m None []]))"
  unfolding grows_def
proof
  fix s :: "world sess"
  let ?t = "s\<lparr>cli := (cli s)\<lparr>cl_commands := cl_commands (cli s) @ [Command n h 0 help priv m None []]\<rparr>\<rparr>"
  obtain Y where Y: "k [length (cl_commands (cli s))] ?t = (Inr (), ?t\<lparr>cli := (cli ?t)\<lparr>cl_commands := Y\<rparr>\<rparr>)"
      "map skeleton Y = G [length (cl_commands (cli s))] (map skeleton (cl_commands (cli ?t)))"
    using assms by (rule growsD)
  show "\<exists>X. bindE (cli_register_command [] n h priv m help) k s = (Inr (), s\<lparr>cli := (cli s)\<lparr>cl_commands := X\<rparr>\<rparr>) \<and>
      map skeleton X = G [length (map skeleton (cl_commands (cli s)))] (map skeleton (cl_commands (cli s)) @ [Command n h 0 help priv m None []])"
    by (rule exI [of _ Y]) (use Y in \<open>simp add: register_run\<close>)
qed

lemma grows_commands:
  "\<exists>F. grows (seqE set_group
    (seqE (reg [] ''save'' (Some (client_fun ''cmd_save'')) 15 0 ''Save Config'')
    (seqE show_group
    (seqE (reg [] ''message'' (Some (client_fun ''cmd_message'')) 0 0 ''Set a Message to be displayed'')
          (reg [] ''clear'' (Some (client_fun ''cmd_clear'')) 0 0 ''Clear a Message''))))) F \<and> F lib_tree = lmb_tree"
  unfolding set_group_def show_group_def
  by (rule exI, rule conjI, (rule grows_seq grows_group grows_reg)+) (simp add: lib_tree_def lmb_tree_def)

lemma set_commands_static:
  "static c = (cs, us, en, au, ec, rc, ic, hk, cm) \<Longrightarrow> map skeleton X = cs' \<Longrightarrow>
   static (c\<lparr>cl_commands := X\<rparr>) = (cs', us, en, au, ec, rc, ic, hk, cm)"
  by (simp add: static_def)

lemma prepare_run:
  assumes mx: "\<not> io_mutex (cworld s)" and log: "say eInfo ''accepted new CLI Connection'' (cworld s) = (Inr (), w)"
  shows "\<exists>t. prepare_cli s = (Inr (), t) \<and> static (cli t) = lmb_static (ctx (cworld s)) \<and> cworld t = w \<and>
    cl_privilege (cli t) = 0 \<and> cl_mode (cli t) = 0"
proof -
  obtain t where init: "cli_init s = (Inr (), t)" and t: "t = s\<lparr>cli := cli t\<rparr>"
    and st: "static (cli t) = (lib_tree, [], None, None, None, None, Some cli_int_idle_timeout, \<lambda>_. None, None)"
    and pm: "cl_privilege (cli t) = 0" "cl_mode (cli t) = 0"
    using cli_init_run by blast
  have w: "cworld t = cworld s" by (subst t) simp
  let ?c = "ctx (cworld s)"
  let ?t1 = "t\<lparr>cli := (cli t)\<lparr>cl_banner := Some ''Led Message Board'', cl_hostname := Some ''LMB'', cl_telnet_protocol := True\<rparr>\<rparr>"
  have mx1: "\<not> io_mutex (cworld ?t1)" using mx w by simp
  define t2 where "t2 = ?t1\<lparr>cli := (cli ?t1)\<lparr>cl_users := [(ctx_username ?c, ctx_password ?c)], cl_enable_password := Some (ctx_enablepass ?c),
      cl_idle_timeout := 60, cl_last_action := clock t, cl_idle_callback := Some (client_fun ''idle_timeout'')\<rparr>\<rparr>"
  have st2: "static (cli t2) = (lib_tree, [(ctx_username ?c, ctx_password ?c)], Some (ctx_enablepass ?c), None, None, None,
      Some (client_fun ''idle_timeout''), \<lambda>_. None, None)"
    using st by (simp add: static_def t2_def)
  have pm2: "cl_privilege (cli t2) = 0" "cl_mode (cli t2) = 0" "cworld t2 = cworld s" using pm w by (simp_all add: t2_def)
  obtain F where F: "grows (seqE set_group
    (seqE (reg [] ''save'' (Some (client_fun ''cmd_save'')) 15 0 ''Save Config'')
    (seqE show_group
    (seqE (reg [] ''message'' (Some (client_fun ''cmd_message'')) 0 0 ''Set a Message to be displayed'')
          (reg [] ''clear'' (Some (client_fun ''cmd_clear'')) 0 0 ''Clear a Message''))))) F" (is "grows ?g F") and lmb: "F lib_tree = lmb_tree"
    using grows_commands by blast
  have run: "prepare_cli s = seqE ?g (on_world (say eInfo ''accepted new CLI Connection'')) t2"
  proof -
    have "prepare_cli s = seqE (scoped_lock (with_ctx (\<lambda>c. seqE (cli_allow_user (ctx_username c) (ctx_password c)) (cli_allow_enable (ctx_enablepass c)))))
        (seqE (cli_set_idle_timeout_callback 60 (client_fun ''idle_timeout'')) (seqE ?g (on_world (say eInfo ''accepted new CLI Connection'')))) ?t1"
      unfolding prepare_cli_def seqE_Inr [where m = cli_init, OF init]
      by (simp add: cli_set_banner_def cli_set_hostname_def cli_telnet_protocol_def opt_text_def cli_run)
    also have "\<dots> = seqE ?g (on_world (say eInfo ''accepted new CLI Connection'')) t2"
      unfolding seqE_Inr [where m = "scoped_lock _", OF allow_run [OF mx1]] idle_callback_run
      using st w by (simp add: t2_def static_def)
    finally show ?thesis .
  qed
  obtain X where X: "?g t2 = (Inr (), t2\<lparr>cli := (cli t2)\<lparr>cl_commands := X\<rparr>\<rparr>)" "map skeleton X = F (map skeleton (cl_commands (cli t2)))"
    using F by (rule growsD)
  have X': "map skeleton X = lmb_tree" using X(2) st2 lmb by (simp add: static_def)
  have "prepare_cli s = (Inr (), t2\<lparr>cli := (cli t2)\<lparr>cl_commands := X\<rparr>, cworld := w\<rparr>)"
    unfolding run seqE_Inr [where m = ?g, OF X(1)] using log pm2 by (simp add: on_world_def)
  moreover have "static ((cli t2)\<lparr>cl_commands := X\<rparr>) = lmb_static ?c"
    unfolding lmb_static_def by (rule set_commands_static [OF st2 X'])
  ultimately show ?thesis using pm2 by auto
qed

lemma error_run: "\<exists>x. cli_error X t s = (Inr (), s\<lparr>screen := screen s @ x\<rparr>)"
proof -
  have line: "\<exists>x. print_line X False l s = (Inr (), s\<lparr>screen := screen s @ x\<rparr>)" for l and s :: "'a sess"
    by (cases "cl_client (cli s)") (auto simp: print_line_def fprintf_client_def cli_run intro: exI [of _ "[]"])
  have "\<exists>x. print_lines X False ls s = (Inr (), s\<lparr>screen := screen s @ x\<rparr>)" for ls
  proof (induction ls arbitrary: s)
    case Nil
    show ?case by (auto intro: exI [of _ "[]"])
  next
    case (Cons l ls)
    obtain x where x: "print_line X False l s = (Inr (), s\<lparr>screen := screen s @ x\<rparr>)" using line by blast
    obtain y where "print_lines X False ls (s\<lparr>screen := screen s @ x\<rparr>) = (Inr (), s\<lparr>screen := screen s @ x @ y\<rparr>)"
      using Cons.IH [of "s\<lparr>screen := screen s @ x\<rparr>"] by auto
    then show ?case by (auto simp: seqE_Inr [where m = "print_line X False l", OF x])
  qed
  then show ?thesis by (simp add: cli_error_def)
qed

lemma new_line_run:
  assumes "length (cmd (edit s)) = CLI_MAX_LINE_LENGTH" and "\<not> oldcmd (edit s)"
  shows "new_line s = (Inr (), s\<lparr>cli := (cli s)\<lparr>cl_showprompt := True\<rparr>,
    edit := (edit s)\<lparr>in_history := 0, lastchar := CHR 0x00, cmd := nuls CLI_MAX_LINE_LENGTH, len := 0, cursor := 0\<rparr>\<rparr>)"
  using assms by (simp add: new_line_def reprompt_def cli_run poke_run overlay_def)

lemma login_prompt_run:
  assumes "cl_showprompt (cli s)" and "cl_state (cli s) = STATE_LOGIN"
  shows "prompt s = (Inr (), s\<lparr>cli := (cli s)\<lparr>cl_showprompt := False\<rparr>, screen := screen s @ crlf @ ''Username: ''\<rparr>)"
  using assms by (simp add: prompt_def echo_def secret_def cli_run)

lemma touch_run [cli_run]:
  "seqE touch k s = k (s\<lparr>cli := (if cl_idle_timeout (cli s) = 0 then cli s else (cli s)\<lparr>cl_last_action := clock s\<rparr>)\<rparr>)"
  by (simp add: touch_def seqE_def bindE_def clif_def upd_cli_def whenE_def)

lemma same_privilege_run: "cl_privilege (cli s) = p \<Longrightarrow> seqE (cli_set_privilege p) k s = k s"
  by (auto simp: cli_set_privilege_def seqE_def bindE_def clif_def upd_cli_def)

lemma same_mode_run: "cl_mode (cli s) = m \<Longrightarrow> seqE (cli_set_configmode m d) k s = k s"
  by (auto simp: cli_set_configmode_def seqE_def bindE_def clif_def upd_cli_def)

lemma start_run:
  assumes users: "cl_users (cli s) \<noteq> []" and pm: "cl_privilege (cli s) = 0" "cl_mode (cli s) = 0"
  shows "\<exists>t. cli_start K s = (Inr (), t) \<and> static (cli t) = static (cli s) \<and> cl_privilege (cli t) = 0 \<and> cl_mode (cli t) = 0 \<and>
    cl_state (cli t) = STATE_LOGIN \<and> cworld t = cworld s \<and> at_line t ([], [])"
proof -
  let ?e = "\<lparr>cmd = nuls CLI_MAX_LINE_LENGTH, len = 0, cursor = 0, oldcmd = False, oldl = 0, is_telnet_option = 0,
       skip_bytes = 0, esc = 0, in_history = 0, lastchar = CHR 0x00, username = None, password = None\<rparr>"
  let ?tail = "\<lambda>b. seqE touch
    (seqE (cli_set_privilege PRIVILEGE_UNPRIVILEGED)
    (seqE (cli_set_configmode MODE_EXEC None)
    (seqE (whenE b (set_state STATE_NORMAL))
    (seqE new_line prompt))))"
  define c where "c = (cli s)\<lparr>cl_commands := cli_build_shortest (cli s) (cl_commands (cli s)), cl_state := STATE_LOGIN,
    cl_history := replicate MAX_HISTORY None, cl_client := True\<rparr>"
  have pre: "\<exists>x. cli_start K s = seqE (case cl_banner c of None \<Rightarrow> ret () | Some b \<Rightarrow> cli_error (rx K) b) (?tail False)
      (s\<lparr>edit := ?e, screen := screen s @ x, cli := c\<rparr>)"
    using users unfolding c_def
    by (intro exI [of _ "if cl_telnet_protocol (cli s) then negotiate else []"], cases "cl_telnet_protocol (cli s)")
       (auto simp: cli_start_def cli_run rebuild_def set_state_def cli_free_history_def)
  have ban: "\<exists>x. (case cl_banner c of None \<Rightarrow> ret () | Some b \<Rightarrow> cli_error (rx K) b) u = (Inr (), u\<lparr>screen := screen u @ x\<rparr>)" for u :: "'a sess"
    using error_run by (cases "cl_banner c") (auto intro: exI [of _ "[]"])
  obtain x where run: "cli_start K s = ?tail False (s\<lparr>edit := ?e, cli := c, screen := x\<rparr>)"
  proof -
    from pre obtain x where x: "cli_start K s = seqE (case cl_banner c of None \<Rightarrow> ret () | Some b \<Rightarrow> cli_error (rx K) b) (?tail False)
      (s\<lparr>edit := ?e, screen := screen s @ x, cli := c\<rparr>)" by blast
    from ban obtain y where y: "(case cl_banner c of None \<Rightarrow> ret () | Some b \<Rightarrow> cli_error (rx K) b) (s\<lparr>edit := ?e, screen := screen s @ x, cli := c\<rparr>) =
      (Inr (), (s\<lparr>edit := ?e, screen := screen s @ x, cli := c\<rparr>)\<lparr>screen := screen (s\<lparr>edit := ?e, screen := screen s @ x, cli := c\<rparr>) @ y\<rparr>)"
      by blast
    show thesis by (rule that) (simp add: x seqE_Inr [where m = "case_option _ _ _", OF y])
  qed
  define c1 where "c1 = (if cl_idle_timeout c = 0 then c else c\<lparr>cl_last_action := clock s\<rparr>)"
  let ?s1 = "s\<lparr>edit := ?e, screen := x, cli := c1\<rparr>"
  have pm1: "cl_privilege c1 = 0" "cl_mode c1 = 0" "cl_state c1 = STATE_LOGIN" "static c1 = static (cli s)"
    using pm by (simp_all add: c1_def c_def static_def)
  have pm0: "cl_privilege c = 0" "cl_mode c = 0" using pm by (simp_all add: c_def)
  have "?tail False (s\<lparr>edit := ?e, cli := c, screen := x\<rparr>) = seqE new_line prompt ?s1"
    using pm0 by (simp add: touch_run same_privilege_run same_mode_run c1_def)
  also have "new_line ?s1 = (Inr (), ?s1\<lparr>cli := c1\<lparr>cl_showprompt := True\<rparr>,
      edit := ?e\<lparr>in_history := 0, lastchar := CHR 0x00, cmd := nuls CLI_MAX_LINE_LENGTH, len := 0, cursor := 0\<rparr>\<rparr>)"
    by (simp add: new_line_run)
  then have "seqE new_line prompt ?s1 = prompt (?s1\<lparr>cli := c1\<lparr>cl_showprompt := True\<rparr>,
      edit := ?e\<lparr>in_history := 0, lastchar := CHR 0x00, cmd := nuls CLI_MAX_LINE_LENGTH, len := 0, cursor := 0\<rparr>\<rparr>)"
    by (rule seqE_Inr)
  finally have r: "cli_start K s = prompt (?s1\<lparr>cli := c1\<lparr>cl_showprompt := True\<rparr>,
      edit := ?e\<lparr>in_history := 0, lastchar := CHR 0x00, cmd := nuls CLI_MAX_LINE_LENGTH, len := 0, cursor := 0\<rparr>\<rparr>)"
    by (simp only: run)
  have "static (c1\<lparr>cl_showprompt := False\<rparr>) = static (cli s)"
    using pm1(4) by (simp add: static_def)
  then show ?thesis using pm1 by (simp add: r login_prompt_run at_line_def holds_def CLI_MAX_LINE_LENGTH_def)
qed

end
