(* ===== verification/Sessions.thy ===== *)
theory Sessions
  imports CommandFacts
begin

text \<open>
  The sessions of the daemon, from the connection on: opening one, logging in, and the guarantees of
  \<open>CommandFacts\<close> for every sequence of events that follows.
\<close>

section \<open>A fresh session\<close>

lemma open_session_run:
  assumes "\<not> io_mutex (cworld s0)" and "say eInfo ''accepted new CLI Connection'' (cworld s0) = (Inr (), w)"
  shows "\<exists>s. open_session S s0 = (Inr (), s) \<and> static (cli s) = lmb_static (ctx (cworld s0)) \<and> cworld s = w \<and>
    cl_privilege (cli s) = 0 \<and> cl_mode (cli s) = 0 \<and> cl_state (cli s) = STATE_LOGIN \<and> at_line s ([], [])"
proof -
  obtain t where t: "prepare_cli s0 = (Inr (), t)" and st: "static (cli t) = lmb_static (ctx (cworld s0))" and w: "cworld t = w"
    and pm: "cl_privilege (cli t) = 0" "cl_mode (cli t) = 0"
    using prepare_run [OF assms] by blast
  have "cl_users (cli t) \<noteq> []" using st by (simp add: static_def lmb_static_def)
  from start_run [OF this pm, of "su_client S"] st w show ?thesis
    by (auto simp: open_session_def seqE_Inr [where m = prepare_cli, OF t])
qed

lemma lmb_plain:
  assumes "static c = lmb_static x"
  shows "plain_cli c" and "cl_users c = [(ctx_username x, ctx_password x)]" and "cl_enable_password c = Some (ctx_enablepass x)"
    and "cl_auth_callback c = None" and "open_tree lmb_open (cl_commands c)"
proof -
  show "plain_cli c" "cl_users c = [(ctx_username x, ctx_password x)]" "cl_enable_password c = Some (ctx_enablepass x)"
    "cl_auth_callback c = None"
    using assms by (auto simp: static_def lmb_static_def plain_cli_def)
  have tree: "map skeleton (cl_commands c) = lmb_tree" using assms by (simp add: static_def lmb_static_def)
  have "list_all (tree_all P) lmb_tree \<Longrightarrow> list_all (tree_all P) (cl_commands c)" for P
    unfolding tree [symmetric] by (simp only: tree_all_list)
  then show "open_tree lmb_open (cl_commands c)"
    unfolding open_tree_def by (simp add: lmb_tree_def lib_tree_def lmb_open_def)
qed

lemma su_client_rx: "rx (su_client S) = su_regex S" "on_command (su_client S) = lmb_command (su_os S) (su_libs S) (su_regex S)"
  by (simp_all add: su_client_def lmb_client_def)

section \<open>Entering a line\<close>

lemma prompt_run:
  assumes "cl_state (cli s) \<noteq> STATE_REQUEST" and "len (edit s) = 0" and "cursor (edit s) = 0"
  shows "\<exists>x. prompt s = (Inr (), s\<lparr>screen := screen s @ x, cli := (cli s)\<lparr>cl_showprompt := False\<rparr>\<rparr>)"
proof (cases "cl_showprompt (cli s)")
  case False
  then have "prompt s = (Inr (), s)" by (rule prompt_idle)
  moreover have "s = s\<lparr>screen := screen s @ [], cli := (cli s)\<lparr>cl_showprompt := False\<rparr>\<rparr>" using False by simp
  ultimately show ?thesis by metis
next
  case True
  have sp: "\<exists>x. show_prompt u = (Inr (), u\<lparr>screen := screen u @ x\<rparr>)" if "cl_state (cli u) \<noteq> STATE_REQUEST" for u :: "'a sess"
    using that by (auto simp: show_prompt_def cli_run split: option.split)
  show ?thesis
  proof (cases "cl_state (cli s) = STATE_NORMAL \<or> cl_state (cli s) = STATE_ENABLE")
    case False
    then show ?thesis using assms True by (cases "cl_state (cli s)") (auto simp: prompt_def echo_def secret_def cli_run)
  next
    case ne: True
    obtain x where x: "show_prompt (s\<lparr>screen := screen s @ crlf\<rparr>) = (Inr (), s\<lparr>screen := (screen s @ crlf) @ x\<rparr>)"
      using sp [of "s\<lparr>screen := screen s @ crlf\<rparr>"] assms by auto
    have ps: "put_range 0 0 u = (Inr (), u)" for u :: "'a sess" by (simp add: put_range_def cli_run)
    show ?thesis using assms True ne
      by (auto simp: prompt_def echo_run secret_def cli_run seqE_Inr [where m = show_prompt, OF x] seqE_Inr [where m = "put_range _ _", OF ps])
  qed
qed

lemma next_line:
  assumes "length (cmd (edit s)) = CLI_MAX_LINE_LENGTH" and "\<not> oldcmd (edit s)" and "is_telnet_option (edit s) = 0"
    and "skip_bytes (edit s) = 0" and "esc (edit s) = 0" and "cl_state (cli s) \<noteq> STATE_REQUEST"
  obtains t where "seqE new_line (seqE prompt (ret False)) s = (Inr False, t)" and "at_line t ([], [])" and "typed s t"
proof -
  let ?s = "s\<lparr>cli := (cli s)\<lparr>cl_showprompt := True\<rparr>,
    edit := (edit s)\<lparr>in_history := 0, lastchar := CHR 0x00, cmd := nuls CLI_MAX_LINE_LENGTH, len := 0, cursor := 0\<rparr>\<rparr>"
  have n: "new_line s = (Inr (), ?s)" using assms(1,2) by (rule new_line_run)
  obtain x where x: "prompt ?s = (Inr (), ?s\<lparr>screen := screen ?s @ x, cli := (cli ?s)\<lparr>cl_showprompt := False\<rparr>\<rparr>)"
    using prompt_run [of ?s] assms(6) by auto
  show thesis
  proof (rule that)
    show "seqE new_line (seqE prompt (ret False)) s = (Inr False, ?s\<lparr>screen := screen ?s @ x, cli := (cli ?s)\<lparr>cl_showprompt := False\<rparr>\<rparr>)"
      by (simp only: seqE_Inr [where m = new_line, OF n] seqE_Inr [where m = prompt, OF x] ret_run)
    show "at_line (?s\<lparr>screen := screen ?s @ x, cli := (cli ?s)\<lparr>cl_showprompt := False\<rparr>\<rparr>) ([], [])"
      using assms by (simp add: at_line_def holds_def CLI_MAX_LINE_LENGTH_def)
    show "typed s (?s\<lparr>screen := screen ?s @ x, cli := (cli ?s)\<lparr>cl_showprompt := False\<rparr>\<rparr>)"
      by (simp add: typed_def quiet_step_def static_def)
  qed
qed

text \<open>The steps that end a line of the login.\<close>

definition login_kept :: "'w sess \<Rightarrow> 'w sess \<Rightarrow> bool" where
  "login_kept s t \<longleftrightarrow> held_step s t \<and> cl_mode (cli t) = cl_mode (cli s) \<and> length (cmd (edit t)) = length (cmd (edit s)) \<and>
     is_telnet_option (edit t) = is_telnet_option (edit s) \<and> skip_bytes (edit t) = skip_bytes (edit s) \<and> esc (edit t) = esc (edit s) \<and>
     oldcmd (edit t) = oldcmd (edit s)"

lemma again_run:
  "seqE (modify (\<lambda>s. s\<lparr>clock := t2\<rparr>)) (seqE touch (ret b)) s =
     (Inr b, s\<lparr>clock := t2, cli := (if cl_idle_timeout (cli s) = 0 then cli s else (cli s)\<lparr>cl_last_action := t2\<rparr>)\<rparr>)"
  by (simp add: touch_run)

lemma login_step:
  assumes l: "at_line s (b, a)" and sec: "cl_state (cli s) = STATE_LOGIN \<or> cl_state (cli s) = STATE_PASSWORD"
    and fin: "\<And>u. holds (edit u) (b, a) \<Longrightarrow> cl_state (cli u) = cl_state (cli s) \<Longrightarrow> held_step s u \<Longrightarrow> username (edit u) = username (edit s) \<Longrightarrow>
      \<exists>v. line_done K t2 u = (Inr False, v) \<and> login_kept u v \<and> cl_state (cli v) = st \<and> username (edit v) = name"
    and st: "st \<noteq> STATE_REQUEST"
  shows "\<exists>t. cli_step K (Byte (CHR 0x0D), t1, t2) s = (Inr False, t) \<and> at_line t ([], []) \<and> held_step s t \<and>
    cl_mode (cli t) = cl_mode (cli s) \<and> cl_state (cli t) = st \<and> username (edit t) = name"
proof -
  have nff: "CHR 0x0D \<noteq> CHR 0xFF" by simp
  obtain s1 where run: "cli_step K (Byte (CHR 0x0D), t1, t2) s = bindE (key K (CHR 0x0D)) (\<lambda>f. case f of
        Continue \<Rightarrow> seqE prompt (ret False)
      | Break \<Rightarrow> bindE (line_done K t2) (\<lambda>end. if end then ret True else seqE new_line (seqE prompt (ret False)))) s1"
    and e: "edit s1 = edit s" and t: "typed s s1"
    by (rule byte_run [OF l nff, of K t1 t2])
  let ?s2 = "s1\<lparr>screen := screen s1 @ (if secret (cli s1) then [] else crlf)\<rparr>"
  have k: "key K (CHR 0x0D) s1 = (Inr Break, ?s2)" by (cases "secret (cli s1)") (simp_all add: key_def echo_def cli_run)
  have h: "holds (edit ?s2) (b, a)" using l e by (simp add: at_line_def)
  have s2: "held_step s ?s2" "cl_state (cli ?s2) = cl_state (cli s)" "username (edit ?s2) = username (edit s)"
    using t e by (simp_all add: typed_def quiet_step_def held_step_def)
  obtain v where v: "line_done K t2 ?s2 = (Inr False, v)" "login_kept ?s2 v" "cl_state (cli v) = st" "username (edit v) = name"
    using fin [OF h s2(2,1,3)] by blast
  have ed: "length (cmd (edit v)) = CLI_MAX_LINE_LENGTH" "\<not> oldcmd (edit v)" "is_telnet_option (edit v) = 0"
    "skip_bytes (edit v) = 0" "esc (edit v) = 0" "cl_state (cli v) \<noteq> STATE_REQUEST"
    using l e v(2,3) st holds_length [OF h] by (simp_all add: login_kept_def at_line_def)
  obtain w where w: "seqE new_line (seqE prompt (ret False)) v = (Inr False, w)" "at_line w ([], [])" "typed v w"
    by (rule next_line [OF ed])
  have "cli_step K (Byte (CHR 0x0D), t1, t2) s = (Inr False, w)"
    by (simp add: run bindE_Inr [where m = "key K (CHR 0x0D)", OF k] bindE_Inr [where m = "line_done K t2", OF v(1)] w(1))
  moreover have "held_step s w"
  proof -
    have "held_step ?s2 v" using v(2) by (simp add: login_kept_def)
    moreover have "held_step v w" using w(3) by (simp add: typed_def quiet_held)
    ultimately show ?thesis using s2(1) by (blast intro: held.trans_R)
  qed
  moreover have "cl_state (cli w) = st" "username (edit w) = name" using w(3) v by (simp_all add: typed_def quiet_step_def)
  moreover have "cl_mode (cli w) = cl_mode (cli s)" using w(3) v(2) t by (simp add: typed_def login_kept_def)
  ultimately show ?thesis using w(2) by blast
qed

lemma username_step:
  assumes l: "at_line s (b, a)" and st: "cl_state (cli s) = STATE_LOGIN" and ne: "b @ a \<noteq> []"
  shows "\<exists>t. cli_step K (Byte (CHR 0x0D), t1, t2) s = (Inr False, t) \<and> at_line t ([], []) \<and> held_step s t \<and>
    cl_mode (cli t) = cl_mode (cli s) \<and> cl_state (cli t) = STATE_PASSWORD \<and> username (edit t) = Some (b @ a)"
proof (rule login_step [OF l])
  fix u :: "'a sess"
  assume h: "holds (edit u) (b, a)" and stu: "cl_state (cli u) = cl_state (cli s)"
  have len: "\<not> len (edit u) < 0" "len (edit u) \<noteq> 0" using holdsD [OF h] ne by (cases b; cases a; simp)+
  let ?v = "u\<lparr>edit := (edit u)\<lparr>username := Some (b @ a)\<rparr>, cli := (cli u)\<lparr>cl_state := STATE_PASSWORD, cl_showprompt := True\<rparr>\<rparr>"
  have ll: "line_login u = (Inr (), ?v)"
    by (simp add: line_login_def bindE_Inr [where m = "text_at 0", OF text_at_line [OF h]] cli_run set_state_def reprompt_def)
  have "line_done K t2 u = seqE line_login (seqE (modify (\<lambda>s. s\<lparr>clock := t2\<rparr>)) (seqE touch (ret False))) u"
    using len stu st by (simp add: line_done_def cli_run)
  also have "\<dots> = seqE (modify (\<lambda>s. s\<lparr>clock := t2\<rparr>)) (seqE touch (ret False)) ?v" by (rule seqE_Inr [where m = line_login, OF ll])
  finally have "line_done K t2 u = seqE (modify (\<lambda>s. s\<lparr>clock := t2\<rparr>)) (seqE touch (ret False)) ?v" .
  then show "\<exists>v. line_done K t2 u = (Inr False, v) \<and> login_kept u v \<and> cl_state (cli v) = STATE_PASSWORD \<and> username (edit v) = Some (b @ a)"
    by (auto simp: again_run touch_run login_kept_def held_step_def static_def)
qed (use st in simp_all)

lemma password_step:
  assumes l: "at_line s (b, a)" and st: "cl_state (cli s) = STATE_PASSWORD" and name: "username (edit s) = Some n"
    and auth: "cl_auth_callback (cli s) = None" and ok: "user_allowed K (cl_users (cli s)) n (b @ a)"
  shows "\<exists>t. cli_step K (Byte (CHR 0x0D), t1, t2) s = (Inr False, t) \<and> at_line t ([], []) \<and> held_step s t \<and>
    cl_mode (cli t) = cl_mode (cli s) \<and> cl_state (cli t) = STATE_NORMAL \<and> username (edit t) = Some n"
proof (rule login_step [OF l])
  fix u :: "'a sess"
  assume h: "holds (edit u) (b, a)" and stu: "cl_state (cli u) = cl_state (cli s)" and held: "held_step s u"
    and un: "username (edit u) = username (edit s)"
  have sf: "static (cli u) = static (cli s)" using held by (simp add: held_step_def)
  have len: "\<not> len (edit u) < 0" using holdsD [OF h] by simp
  have au: "cl_auth_callback (cli u) = None" and us: "user_allowed K (cl_users (cli u)) n (b @ a)"
    using auth ok static_fields [OF sf] by simp_all
  let ?v = "u\<lparr>edit := (edit u)\<lparr>password := Some (b @ a)\<rparr>\<rparr>"
  obtain x where x: "cli_error (rx K) '' '' ?v = (Inr (), ?v\<lparr>screen := screen ?v @ x\<rparr>)" using error_run by blast
  let ?w = "?v\<lparr>screen := screen ?v @ x, cli := (cli u)\<lparr>cl_state := STATE_NORMAL, cl_showprompt := True\<rparr>\<rparr>"
  have lp: "line_password K u = (Inr (), ?w)"
    using au us un name
    by (simp add: line_password_def bindE_Inr [where m = "text_at 0", OF text_at_line [OF h]] cli_run set_state_def reprompt_def
        seqE_Inr [where m = "cli_error (rx K) '' ''", OF x])
  have "line_done K t2 u = seqE (line_password K) (seqE (modify (\<lambda>s. s\<lparr>clock := t2\<rparr>)) (seqE touch (ret False))) u"
    using len stu st by (simp add: line_done_def cli_run)
  also have "\<dots> = seqE (modify (\<lambda>s. s\<lparr>clock := t2\<rparr>)) (seqE touch (ret False)) ?w" by (rule seqE_Inr [where m = "line_password K", OF lp])
  finally have "line_done K t2 u = seqE (modify (\<lambda>s. s\<lparr>clock := t2\<rparr>)) (seqE touch (ret False)) ?w" .
  then show "\<exists>v. line_done K t2 u = (Inr False, v) \<and> login_kept u v \<and> cl_state (cli v) = STATE_NORMAL \<and> username (edit v) = Some n"
    using un name by (auto simp: again_run touch_run login_kept_def held_step_def static_def)
qed (use st in simp_all)

section \<open>Logging in\<close>

lemma events_append:
  "cli_events K es s = (Inr False, t) \<Longrightarrow> cli_events K (es @ fs) s = cli_events K fs t"
proof (induction es arbitrary: s)
  case (Cons e es)
  then obtain u where u: "cli_step K e s = (Inr False, u)" "cli_events K es u = (Inr False, t)"
    by (cases "cli_step K e s") (auto simp: bindE_def split: sum.splits if_splits)
  then show ?case using Cons.IH [OF u(2)] by (simp add: bindE_Inr [where m = "cli_step K e", OF u(1)])
qed simp

lemma events_single:
  assumes "cli_step K e s = (Inr False, t)"
  shows "cli_events K [e] s = (Inr False, t)"
  by (simp add: bindE_Inr [where m = "cli_step K e", OF assms])

abbreviation keys :: "int \<Rightarrow> string \<Rightarrow> event list" where
  "keys t cs \<equiv> map (\<lambda>c. (Byte c, t, t)) cs"

lemma events_type:
  assumes "at_line s (b, [])" and "list_all (\<lambda>c. plain_key c \<and> (c \<noteq> CHR ''?'' \<or> secret (cli s))) cs"
    and "length b + length cs + 2 < CLI_MAX_LINE_LENGTH"
  shows "\<exists>t. cli_events K (keys n cs) s = (Inr False, t) \<and> at_line t (b @ cs, []) \<and> typed s t"
  using assms
proof (induction cs arbitrary: s b)
  case Nil
  then show ?case by (simp add: typed.refl_R)
next
  case (Cons c cs)
  then have c: "plain_key c" "c \<noteq> CHR ''?'' \<or> secret (cli s)" "length b + 2 < CLI_MAX_LINE_LENGTH" by simp_all
  obtain t where t: "cli_step K (Byte c, n, n) s = (Inr False, t)" "at_line t (b @ [c], [])" "typed s t"
    by (rule step_types [OF Cons.prems(1) c(1,3,2)])
  have "secret (cli t) = secret (cli s)" using t(3) by (simp add: typed_def quiet_step_def secret_def)
  then obtain u where u: "cli_events K (keys n cs) t = (Inr False, u)" "at_line u ((b @ [c]) @ cs, [])" "typed t u"
    using Cons.IH [OF t(2)] Cons.prems(2,3) by auto
  show ?case
    by (rule exI [of _ u]) (use u typed.trans_R [OF t(3) u(3)] in \<open>simp add: bindE_Inr [where m = "cli_step K (Byte c, n, n)", OF t(1)]\<close>)
qed

lemma typed_held: "typed s t \<Longrightarrow> held_step s t \<and> cl_state (cli t) = cl_state (cli s) \<and> username (edit t) = username (edit s)"
  by (simp add: typed_def quiet_held) (simp add: quiet_step_def)

definition line_ok :: "string \<Rightarrow> bool" where
  "line_ok t \<longleftrightarrow> list_all plain_key t \<and> length t + 2 < CLI_MAX_LINE_LENGTH"

lemma login_run:
  assumes l: "at_line s ([], [])" and st: "cl_state (cli s) = STATE_LOGIN" and auth: "cl_auth_callback (cli s) = None"
    and u: "line_ok u" "u \<noteq> []" "CHR ''?'' \<notin> set u" and p: "line_ok p" and ok: "user_allowed K (cl_users (cli s)) u p"
  shows "\<exists>t. cli_events K (keys n (u @ [CHR 0x0D] @ p @ [CHR 0x0D])) s = (Inr False, t) \<and> at_line t ([], []) \<and>
    held_step s t \<and> cl_mode (cli t) = cl_mode (cli s) \<and> cl_state (cli t) = STATE_NORMAL"
proof -
  have tu: "list_all (\<lambda>c. plain_key c \<and> (c \<noteq> CHR ''?'' \<or> secret (cli s))) u" "length ([] :: string) + length u + 2 < CLI_MAX_LINE_LENGTH"
    using u by (auto simp: line_ok_def list_all_iff)
  obtain s1 where s1: "cli_events K (keys n u) s = (Inr False, s1)" "at_line s1 (u, [])" "typed s s1"
    using events_type [OF l tu, of K n] by auto
  note h1 = typed_held [OF s1(3)]
  have st1: "cl_state (cli s1) = STATE_LOGIN" using h1 st by simp
  have ne: "u @ [] \<noteq> []" using u by simp
  obtain s2 where s2: "cli_step K (Byte (CHR 0x0D), n, n) s1 = (Inr False, s2)" "at_line s2 ([], [])" "held_step s1 s2" "cl_mode (cli s2) = cl_mode (cli s1)"
      "cl_state (cli s2) = STATE_PASSWORD" "username (edit s2) = Some u"
    using username_step [OF s1(2) st1 ne, of K n n] by auto
  have tp: "list_all (\<lambda>c. plain_key c \<and> (c \<noteq> CHR ''?'' \<or> secret (cli s2))) p" "length ([] :: string) + length p + 2 < CLI_MAX_LINE_LENGTH"
    using p s2(5) by (auto simp: line_ok_def list_all_iff secret_def)
  obtain s3 where s3: "cli_events K (keys n p) s2 = (Inr False, s3)" "at_line s3 (p, [])" "typed s2 s3"
    using events_type [OF s2(2) tp, of K n] by auto
  note h3 = typed_held [OF s3(3)]
  have held: "held_step s s3" using h1 s2(3) h3 by (blast intro: held.trans_R)
  then have sf: "static (cli s3) = static (cli s)" by (simp add: held_step_def)
  have st3: "cl_state (cli s3) = STATE_PASSWORD" "username (edit s3) = Some u" using h3 s2 by simp_all
  have au: "cl_auth_callback (cli s3) = None" "user_allowed K (cl_users (cli s3)) u (p @ [])"
    using auth ok static_fields [OF sf] by simp_all
  obtain s4 where s4: "cli_step K (Byte (CHR 0x0D), n, n) s3 = (Inr False, s4)" "at_line s4 ([], [])" "held_step s3 s4" "cl_mode (cli s4) = cl_mode (cli s3)"
      "cl_state (cli s4) = STATE_NORMAL"
    using password_step [OF s3(2) st3 au, of n n] by auto
  have "cli_events K (keys n (u @ [CHR 0x0D] @ p @ [CHR 0x0D])) s = (Inr False, s4)"
    by (simp only: map_append events_append [OF s1(1)] list.map events_append [OF events_single [OF s2(1)]] events_append [OF s3(1)] events_single [OF s4(1)])
  moreover have "cl_mode (cli s4) = cl_mode (cli s)" using s1(3) s2(4) s3(3) s4(4) by (simp add: typed_def)
  ultimately show ?thesis using s4 held by (blast intro: held.trans_R)
qed

section \<open>Properties\<close>

definition demo_deps :: deps where
  "demo_deps = \<lparr>su_os = demo_os, su_libs = demo_libs,
     su_regex = \<lparr>regcomp = (\<lambda>_ _ _. True), regexec = (\<lambda>_ _ p l. contains l p)\<rparr>, su_crypt = (\<lambda>p _. p)\<rparr>"

definition demo_ctx :: lmbctx where
  "demo_ctx = (initial_ctx False)\<lparr>ctx_username := ''admin'', ctx_password := ''secret'', ctx_enablepass := ''magic''\<rparr>"

definition demo_session :: "world sess" where
  "demo_session = join_session (fresh_connection 0) (demo_world\<lparr>ctx := demo_ctx\<rparr>)"

lemma demo_log_ok:
  "\<exists>w. say eInfo ''accepted new CLI Connection'' (cworld demo_session) = (Inr (), w)" "\<not> io_mutex (cworld demo_session)"
  "ctx (cworld demo_session) = demo_ctx"
  by (simp_all add: demo_session_def join_session_def demo_world_def say_def on_logs_def log_stmt_def demo_log_def manager_output_def
      print_console_def bindE_def seqE_def gets_def)

text \<open>
  C6: A connection opens without touching more of the world than the log, and from then on nothing that is sent changes the world or leads past
  the login before a line has been entered whose text is accepted as the password of the
  one user the configuration names.
\<close>

theorem login_required:
  assumes "\<not> io_mutex (cworld s0)" and "say eInfo ''accepted new CLI Connection'' (cworld s0) = (Inr (), w)"
  shows "\<exists>s. open_session S s0 = (Inr (), s) \<and> cworld s = w \<and> logged_out s \<and>
    (\<forall>es. let t = snd (cli_events (su_client S) es s) in
      (cworld t = w \<and> logged_out t) \<or>
      (\<exists>es1 e es2 s1. es = es1 @ e # es2 \<and> cli_events (su_client S) es1 s = (Inr False, s1) \<and> cworld s1 = w \<and>
         cl_state (cli s1) = STATE_PASSWORD \<and> username (edit s1) = Some (ctx_username (ctx (cworld s0))) \<and>
         pass_matches (su_client S) (ctx_password (ctx (cworld s0))) (line_text (edit s1))))"
proof -
  obtain s where s: "open_session S s0 = (Inr (), s)" "static (cli s) = lmb_static (ctx (cworld s0))" "cworld s = w"
      "cl_state (cli s) = STATE_LOGIN"
    using open_session_run [OF assms] by blast
  note plain = lmb_plain [OF s(2)]
  have out: "logged_out s" using s(4) by (simp add: logged_out_def)
  have "(cworld t = w \<and> logged_out t) \<or>
      (\<exists>es1 e es2 s1. es = es1 @ e # es2 \<and> cli_events (su_client S) es1 s = (Inr False, s1) \<and> cworld s1 = w \<and>
         cl_state (cli s1) = STATE_PASSWORD \<and> username (edit s1) = Some (ctx_username (ctx (cworld s0))) \<and>
         pass_matches (su_client S) (ctx_password (ctx (cworld s0))) (line_text (edit s1)))"
    if run: "cli_events (su_client S) es s = (r, t)" for es r t
  proof (rule ccontr)
    assume no: "\<not> ?thesis"
    then have "cworld t \<noteq> cworld s \<or> \<not> logged_out t" using s(3) by blast
    from lmb.events_logged_out [OF run [unfolded su_client_def] out plain(1) this]
    obtain es1 e es2 s1 where ev: "es = es1 @ e # es2" "cli_events (su_client S) es1 s = (Inr False, s1)" "held_step s s1"
        "accepts_password (su_client S) s1"
      unfolding su_client_def by blast
    have sf: "static (cli s1) = static (cli s)" using ev(3) by (simp add: held_step_def)
    have "cl_users (cli s1) = [(ctx_username (ctx (cworld s0)), ctx_password (ctx (cworld s0)))]"
      using static_fields(1) [OF sf] plain(2) by simp
    then have "cl_state (cli s1) = STATE_PASSWORD" "username (edit s1) = Some (ctx_username (ctx (cworld s0)))"
      "pass_matches (su_client S) (ctx_password (ctx (cworld s0))) (line_text (edit s1))"
      using ev(4) by (auto simp: accepts_password_def split: if_splits)
    moreover have "cworld s1 = w" using ev(3) s(3) by (simp add: held_step_def)
    ultimately show False using ev(1,2) no by blast
  qed
  then have "\<forall>es. let t = snd (cli_events (su_client S) es s) in
      (cworld t = w \<and> logged_out t) \<or>
      (\<exists>es1 e es2 s1. es = es1 @ e # es2 \<and> cli_events (su_client S) es1 s = (Inr False, s1) \<and> cworld s1 = w \<and>
         cl_state (cli s1) = STATE_PASSWORD \<and> username (edit s1) = Some (ctx_username (ctx (cworld s0))) \<and>
         pass_matches (su_client S) (ctx_password (ctx (cworld s0))) (line_text (edit s1)))"
    unfolding Let_def by (metis surjective_pairing)
  with s out show ?thesis by blast
qed

theorem login_required_witness:
  "\<exists>s w. open_session demo_deps demo_session = (Inr (), s) \<and> cworld s = w \<and> logged_out s \<and>
    (\<forall>es. let t = snd (cli_events (su_client demo_deps) es s) in
      (cworld t = w \<and> logged_out t) \<or>
      (\<exists>es1 e es2 s1. es = es1 @ e # es2 \<and> cli_events (su_client demo_deps) es1 s = (Inr False, s1) \<and> cworld s1 = w \<and>
         cl_state (cli s1) = STATE_PASSWORD \<and> username (edit s1) = Some ''admin'' \<and> line_text (edit s1) = ''secret''))"
proof -
  obtain w where w: "say eInfo ''accepted new CLI Connection'' (cworld demo_session) = (Inr (), w)" using demo_log_ok(1) by blast
  have pw: "pass_matches K ''secret'' x \<longleftrightarrow> x = ''secret''" for K :: "world client" and x
    by (auto simp: pass_matches_def strncasecmp_eq_def strncmp_eq_def lower_def)
  show ?thesis
    using login_required [OF demo_log_ok(2) w, of demo_deps] unfolding demo_log_ok(3) by (simp add: demo_ctx_def pw) blast
qed

text \<open>
  C7: A session without privilege, whatever it sends and in whatever order, leaves the configuration file and
  everything in the daemon's state as it was but the port object, the messages on the display and
  the log, until a line is entered that is accepted as the enable password.
\<close>

theorem settings_need_enable_password:
  assumes "\<not> io_mutex (cworld s0)" and "say eInfo ''accepted new CLI Connection'' (cworld s0) = (Inr (), w)"
  shows "\<exists>s. open_session S s0 = (Inr (), s) \<and> cworld s = w \<and>
    (\<forall>es. let t = snd (cli_events (su_client S) es s) in
      (conf (cworld t) = conf w \<and> settings (ctx (cworld t)) = settings (ctx w) \<and> cl_privilege (cli t) \<le> 0) \<or>
      (\<exists>es1 e es2 s1. es = es1 @ e # es2 \<and> cli_events (su_client S) es1 s = (Inr False, s1) \<and>
         conf (cworld s1) = conf w \<and> settings (ctx (cworld s1)) = settings (ctx w) \<and> cl_state (cli s1) = STATE_ENABLE_PASSWORD \<and>
         pass_matches (su_client S) (ctx_enablepass (ctx (cworld s0))) (line_text (edit s1))))"
proof -
  obtain s where s: "open_session S s0 = (Inr (), s)" "static (cli s) = lmb_static (ctx (cworld s0))" "cworld s = w"
      "cl_state (cli s) = STATE_LOGIN" "cl_privilege (cli s) = 0"
    using open_session_run [OF assms] by blast
  note plain = lmb_plain [OF s(2)]
  have low: "low lmb_open s" using s(4,5) plain by (simp add: low_def)
  let ?hit = "\<lambda>es. \<exists>es1 e es2 s1. es = es1 @ e # es2 \<and> cli_events (su_client S) es1 s = (Inr False, s1) \<and>
         conf (cworld s1) = conf w \<and> settings (ctx (cworld s1)) = settings (ctx w) \<and> cl_state (cli s1) = STATE_ENABLE_PASSWORD \<and>
         pass_matches (su_client S) (ctx_enablepass (ctx (cworld s0))) (line_text (edit s1))"
  have "(conf (cworld t) = conf w \<and> settings (ctx (cworld t)) = settings (ctx w) \<and> cl_privilege (cli t) \<le> 0) \<or> ?hit es"
    if run: "cli_events (su_client S) es s = (r, t)" for es r t
  proof (cases "driver_frame (cworld s) (cworld t) \<and> low lmb_open t")
    case True
    then show ?thesis using s(3) by (simp add: driver_frame_def low_def)
  next
    case False
    from lmb.events_low [OF run [unfolded su_client_def] low False]
    obtain es1 e es2 s1 where ev: "es = es1 @ e # es2" "cli_events (su_client S) es1 s = (Inr False, s1)"
        "lmb.kept s s1" "accepts_enable (su_client S) s1"
      unfolding su_client_def by blast
    have k: "driver_frame (cworld s) (cworld s1)" and sf: "static (cli s1) = static (cli s)" using ev(3) by (simp_all add: lmb.kept_def)
    have "cl_enable_password (cli s1) = Some (ctx_enablepass (ctx (cworld s0)))" using static_fields(2) [OF sf] plain(3) by simp
    then have "cl_state (cli s1) = STATE_ENABLE_PASSWORD \<and>
        pass_matches (su_client S) (ctx_enablepass (ctx (cworld s0))) (line_text (edit s1))"
      using ev(4) by (auto simp: accepts_enable_def)
    moreover have "conf (cworld s1) = conf w \<and> settings (ctx (cworld s1)) = settings (ctx w)"
      using k s(3) by (simp add: driver_frame_def)
    ultimately have "?hit es" using ev(1,2) by blast
    then show ?thesis ..
  qed
  then have "\<forall>es. let t = snd (cli_events (su_client S) es s) in
      (conf (cworld t) = conf w \<and> settings (ctx (cworld t)) = settings (ctx w) \<and> cl_privilege (cli t) \<le> 0) \<or> ?hit es"
    unfolding Let_def by (metis surjective_pairing)
  with s(1,3) show ?thesis by blast
qed

theorem settings_need_enable_password_witness:
  "\<exists>s w. open_session demo_deps demo_session = (Inr (), s) \<and> cworld s = w \<and>
    (\<forall>es. let t = snd (cli_events (su_client demo_deps) es s) in
      (conf (cworld t) = conf w \<and> settings (ctx (cworld t)) = settings (ctx w) \<and> cl_privilege (cli t) \<le> 0) \<or>
      (\<exists>es1 e es2 s1. es = es1 @ e # es2 \<and> cli_events (su_client demo_deps) es1 s = (Inr False, s1) \<and>
         cl_state (cli s1) = STATE_ENABLE_PASSWORD \<and> line_text (edit s1) = ''magic''))"
proof -
  obtain w where w: "say eInfo ''accepted new CLI Connection'' (cworld demo_session) = (Inr (), w)" using demo_log_ok(1) by blast
  have pw: "pass_matches K ''magic'' x \<longleftrightarrow> x = ''magic''" for K :: "world client" and x
    by (auto simp: pass_matches_def strncasecmp_eq_def strncmp_eq_def lower_def)
  show ?thesis
    using settings_need_enable_password [OF demo_log_ok(2) w, of demo_deps] unfolding demo_log_ok(3)
    by (simp add: demo_ctx_def pw Let_def) blast
qed

text \<open>
  Whoever types the configured user name, Enter, the configured password, Enter is logged in, without
  privilege, at an empty line, and the world has not changed meanwhile. Name and password are lines of plain characters,
  and the password is not stored in the form of \<open>crypt\<close>.
\<close>

theorem login_succeeds:
  assumes "\<not> io_mutex (cworld s0)" and "say eInfo ''accepted new CLI Connection'' (cworld s0) = (Inr (), w)"
    and "c = ctx (cworld s0)" and "line_ok (ctx_username c)" and "ctx_username c \<noteq> []" and "CHR ''?'' \<notin> set (ctx_username c)"
    and "line_ok (ctx_password c)" and "pass_matches (su_client S) (ctx_password c) (ctx_password c)"
  shows "\<exists>s t. open_session S s0 = (Inr (), s) \<and>
    cli_events (su_client S) (keys n (ctx_username c @ [CHR 0x0D] @ ctx_password c @ [CHR 0x0D])) s = (Inr False, t) \<and>
    cworld t = w \<and> cl_state (cli t) = STATE_NORMAL \<and> cl_privilege (cli t) = 0 \<and> at_line t ([], [])"
proof -
  obtain s where s: "open_session S s0 = (Inr (), s)" "static (cli s) = lmb_static c" "cworld s = w"
      "cl_state (cli s) = STATE_LOGIN" "cl_privilege (cli s) = 0" "at_line s ([], [])"
    using open_session_run [OF assms(1,2)] assms(3) by blast
  have ok: "user_allowed (su_client S) (cl_users (cli s)) (ctx_username c) (ctx_password c)"
    using lmb_plain(2) [OF s(2)] assms(8) by simp
  from login_run [OF s(6,4) lmb_plain(4) [OF s(2)] assms(4-7) ok, of n] s
  show ?thesis by (auto simp: held_step_def)
qed

theorem login_succeeds_witness:
  "\<exists>s t. open_session demo_deps demo_session = (Inr (), s) \<and>
    cli_events (su_client demo_deps) (keys 5 (''admin'' @ [CHR 0x0D] @ ''secret'' @ [CHR 0x0D])) s = (Inr False, t) \<and>
    cl_state (cli t) = STATE_NORMAL \<and> cl_privilege (cli t) = 0 \<and> at_line t ([], [])"
proof -
  obtain w where w: "say eInfo ''accepted new CLI Connection'' (cworld demo_session) = (Inr (), w)" using demo_log_ok(1) by blast
  have ok: "line_ok (ctx_username demo_ctx)" "ctx_username demo_ctx \<noteq> []" "CHR ''?'' \<notin> set (ctx_username demo_ctx)"
    "line_ok (ctx_password demo_ctx)"
    by (simp_all add: demo_ctx_def line_ok_def plain_key_def editing_key_def CLI_MAX_LINE_LENGTH_def)
  have pw: "pass_matches (su_client demo_deps) (ctx_password demo_ctx) (ctx_password demo_ctx)"
    by (simp add: demo_ctx_def pass_matches_def strncasecmp_eq_def strncmp_eq_def lower_def)
  show ?thesis
    using login_succeeds [OF demo_log_ok(2) w demo_log_ok(3) [symmetric] ok pw, of 5] by (simp add: demo_ctx_def) blast
qed

end
