(* ===== verification/DisplaySession.thy ===== *)
theory DisplaySession
  imports DriverWire Attributes
begin

text \<open>
  One message to the display, from \<open>Init\<close> to \<open>Fini\<close>: the bytes that go over the wire, and what the daemon
  remembers of it, in a system in which every call works. The triples \<open>does\<close> of the
  port are lifted to the world.
\<close>

section \<open>Logging works\<close>

definition log_ok :: "log_state \<Rightarrow> bool" where
  "log_ok l \<longleftrightarrow> (\<forall>f. can_append l f)"

lemma output_loop_ok:
  "log_ok l \<Longrightarrow> \<exists>l'. output_loop n i channel lvl txt l = (Inr (), l') \<and> log_ok l'"
proof (induction n arbitrary: i l)
  case 0
  then show ?case by simp
next
  case (Suc n)
  show ?case
  proof (cases "outputs l ! i")
    case OutputConsole
    let ?l = "l\<lparr>stdout := stdout l @ console_line (log_time l) channel lvl txt\<rparr>"
    have "log_ok ?l" using Suc.prems by (simp add: log_ok_def)
    from Suc.IH [OF this, of "Suc i"] OutputConsole show ?thesis
      by (simp add: print_console_def)
  next
    case (OutputFile o1)
    let ?r = "of_output (can_append l) (file_line (log_time l) channel lvl txt) o1 (disk l)"
    obtain r fs where r: "?r = (r, fs)" by (cases ?r)
    obtain o2 where o2: "r = Inr o2"
      using r Suc.prems by (cases r) (auto simp: of_output_def Let_def of_rotate_def of_do_open_def log_ok_def split: if_splits prod.splits sum.splits)
    let ?l = "l\<lparr>disk := fs, outputs := (outputs l)[i := OutputFile o2]\<rparr>"
    have "log_ok ?l" using Suc.prems by (simp add: log_ok_def)
    from Suc.IH [OF this, of "Suc i"] OutputFile r o2 show ?thesis
      by (simp add: seqE_def bindE_def)
  qed
qed

lemma say_ok:
  assumes "log_ok (logs w)"
  shows "\<exists>l. say lvl txt w = (Inr (), w\<lparr>logs := l\<rparr>) \<and> log_ok l"
proof -
  have "\<exists>l. manager_output ''LMBd'' lvl txt (logs w) = (Inr (), l) \<and> log_ok l"
  proof (cases "outputs (logs w) = []")
    case True
    then show ?thesis using assms by (simp add: manager_output_def print_console_def log_ok_def)
  next
    case False
    with output_loop_ok [OF assms, of "length (outputs (logs w))" 0] show ?thesis by (simp add: manager_output_def)
  qed
  then obtain l where l: "manager_output ''LMBd'' lvl txt (logs w) = (Inr (), l)" "log_ok l" by blast
  have "\<exists>l. log_stmt ''LMBd'' lvl txt (logs w) = (Inr (), l) \<and> log_ok l"
    using l assms by (auto simp: log_stmt_def)
  then show ?thesis by (auto simp: say_def on_logs_def)
qed

section \<open>Triples on the world\<close>

text \<open>The context up to the port object, which satisfies \<open>P\<close>.\<close>

definition at :: "(serial_impl \<Rightarrow> bool) \<Rightarrow> lmbctx \<Rightarrow> world \<Rightarrow> bool" where
  "at P c w \<longleftrightarrow> (\<exists>s. ctx w = c\<lparr>ctx_sp := Some s\<rparr> \<and> P s) \<and> log_ok (logs w) \<and> driver_bound w"

definition wdoes :: "(world \<Rightarrow> bool) \<Rightarrow> (world \<Rightarrow> bool) \<Rightarrow> 'a lmb \<Rightarrow> u8 list \<Rightarrow> ('a \<Rightarrow> bool) \<Rightarrow> bool" where
  "wdoes A B m bs V \<longleftrightarrow> (\<forall>w. A w \<longrightarrow>
     (\<exists>x w'. m w = (Inr x, w') \<and> V x \<and> B w' \<and> sent (wtrace w') = sent (wtrace w) @ bs))"

lemma wdoesI:
  "(\<And>w. A w \<Longrightarrow> \<exists>x w'. m w = (Inr x, w') \<and> V x \<and> B w' \<and> sent (wtrace w') = sent (wtrace w) @ bs) \<Longrightarrow> wdoes A B m bs V"
  by (simp add: wdoes_def)

lemma wdoes_bindE:
  assumes "wdoes A B m bs V" and "\<And>x. V x \<Longrightarrow> wdoes B C (k x) cs U"
  shows "wdoes A C (bindE m k) (bs @ cs) U"
proof (rule wdoesI)
  fix w
  assume "A w"
  then obtain x w1 where 1: "m w = (Inr x, w1)" "V x" "B w1" "sent (wtrace w1) = sent (wtrace w) @ bs"
    using assms(1) by (fastforce simp: wdoes_def)
  then obtain y w2 where "k x w1 = (Inr y, w2)" "U y" "C w2" "sent (wtrace w2) = sent (wtrace w1) @ cs"
    using assms(2) by (fastforce simp: wdoes_def)
  with 1 show "\<exists>y w'. bindE m k w = (Inr y, w') \<and> U y \<and> C w' \<and> sent (wtrace w') = sent (wtrace w) @ bs @ cs"
    by (simp add: bindE_Inr)
qed

lemma wdoes_seqE: "wdoes A B m bs V \<Longrightarrow> wdoes B C n cs U \<Longrightarrow> wdoes A C (seqE m n) (bs @ cs) U"
  unfolding seqE_def by (rule wdoes_bindE)

text \<open>Steps that send nothing.\<close>

lemma wdoes_silent_bind:
  assumes "wdoes A B m [] V" and "\<And>x. V x \<Longrightarrow> wdoes B C (k x) cs U"
  shows "wdoes A C (bindE m k) cs U"
  using wdoes_bindE [OF assms] by simp

lemma wdoes_silent: "wdoes A B m [] V \<Longrightarrow> wdoes B C n cs U \<Longrightarrow> wdoes A C (seqE m n) cs U"
  using wdoes_seqE [of A B m "[]"] by simp

lemma wdoes_ret: "V x \<Longrightarrow> wdoes A A (ret x) [] V"
  by (simp add: wdoes_def)

lemma wdoes_last: "wdoes A B m bs V \<Longrightarrow> U x \<Longrightarrow> wdoes A B (seqE m (ret x)) bs U"
  using wdoes_seqE [of A B m bs V B "ret x" "[]" U] wdoes_ret [of U x B] by simp

lemma wdoes_on_sp:
  assumes "does P Q m bs V"
  shows "wdoes (at P c) (at Q c) (on_sp m) bs V"
proof (rule wdoesI)
  fix w
  assume "at P c w"
  then obtain s where s: "ctx w = c\<lparr>ctx_sp := Some s\<rparr>" "P s" "log_ok (logs w)" "driver_bound w" by (auto simp: at_def)
  with assms obtain x s' t' where "m (s, wtrace w) = (Inr x, (s', t'))" "V x" "Q s'" "sent t' = sent (wtrace w) @ bs"
    by (fastforce simp: does_def)
  with s show "\<exists>x w'. on_sp m w = (Inr x, w') \<and> V x \<and> at Q c w' \<and> sent (wtrace w') = sent (wtrace w) @ bs"
    by (auto simp: on_sp_def at_def)
qed

lemma wdoes_say: "wdoes (at P c) (at P c) (say lvl txt) [] (\<lambda>_. True)"
proof (rule wdoesI)
  fix w
  assume a: "at P c w"
  then obtain l where "say lvl txt w = (Inr (), w\<lparr>logs := l\<rparr>)" "log_ok l"
    using say_ok [of w lvl] by (auto simp: at_def)
  with a show "\<exists>x w'. say lvl txt w = (Inr x, w') \<and> True \<and> at P c w' \<and> sent (wtrace w') = sent (wtrace w) @ []"
    by (auto simp: at_def)
qed

lemma wdoes_sleep: "wdoes (at P c) (at P c) (sleep_us sys n) [] (\<lambda>_. True)"
  by (rule wdoesI) (auto simp: sleep_us_def at_def)

lemma wdoes_ctxf:
  assumes "\<And>x. f (c\<lparr>ctx_sp := x\<rparr>) = f c" and "wdoes (at P c) B (k (f c)) bs V"
  shows "wdoes (at P c) B (bindE (ctxf f) k) bs V"
proof (rule wdoesI)
  fix w
  assume a: "at P c w"
  then have "f (ctx w) = f c" using assms(1) by (auto simp: at_def)
  then have "bindE (ctxf f) k w = k (f c) w" by (simp add: ctxf_def)
  with a assms(2) show "\<exists>x w'. bindE (ctxf f) k w = (Inr x, w') \<and> V x \<and> B w' \<and> sent (wtrace w') = sent (wtrace w) @ bs"
    by (simp add: wdoes_def)
qed

lemma wdoes_deref: "wdoes (at P c) B m bs V \<Longrightarrow> wdoes (at P c) B (seqE deref_ctx m) bs V"
  unfolding wdoes_def at_def by (simp add: deref_ctx_def seqE_def bindE_def gets_def)

section \<open>The driver\<close>

lemma send_wdoes: "works sys \<Longrightarrow> bs \<noteq> [] \<Longrightarrow> wdoes (at port_ready c) (at port_ready c) (send sys bs) bs (\<lambda>_. True)"
  unfolding send_def
  using wdoes_bindE [OF wdoes_on_sp [OF write_does], of sys bs c "at port_ready c" "\<lambda>_. ret ()" "[]" "\<lambda>_. True"]
  by (simp add: wdoes_ret)

lemma greet_wdoes:
  assumes "works sys"
  shows "wdoes (at port_ready c) (at port_ready c) (greet sys) [0x41, 0x42, 0x43, 0x44, 0x45] (\<lambda>_. True)"
proof -
  note s = send_wdoes [OF assms] and f = wdoes_on_sp [OF flush_does [OF assms]]
  have "wdoes (at port_ready c) (at port_ready c) (greet sys) ([] @ [0x41] @ [0x42] @ [0x43] @ [0x44] @ [0x45] @ [] @ []) (\<lambda>_. True)"
    unfolding greet_def by (intro wdoes_seqE [OF f] wdoes_seqE [OF s] wdoes_last [OF wdoes_sleep]) simp_all
  then show ?thesis by simp
qed

lemma isOpen_does: "does P P serial_isOpen [] (\<lambda>_. True)"
  by (simp add: does_def serial_isOpen_def impl_isOpen_def fld_def)

lemma init_port_wdoes:
  assumes ok: "works sys" and P: "P = port_ready \<or> P = port_idle"
  shows "wdoes (at P c) (at port_ready c) (init_port sys) [0x54, 0x41, 0x42, 0x43, 0x44, 0x45] (\<lambda>_. True)"
proof -
  let ?rest = "seqE (on_sp (serial_setFlowcontrol sys flowcontrol_software))
    (seqE (on_sp (serial_setRTS sys True))
    (seqE (on_sp (serial_setDTR sys True))
    (seqE (send sys [0x54])
    (seqE (on_sp (serial_flush sys))
    (bindE (on_sp (serial_read_string sys 1)) (\<lambda>query.
     if length query > 0 then greet sys
     else seqE (say eError ''No Reply to Inquiry'') (ret False)))))))"
  have rest: "wdoes (at port_ready c) (at port_ready c) ?rest ([0x54] @ [0x41, 0x42, 0x43, 0x44, 0x45]) (\<lambda>_. True)"
  proof (rule wdoes_silent [OF wdoes_on_sp [OF setFlowcontrol_does [OF ok]]], rule wdoes_silent [OF wdoes_on_sp [OF lines_does(1) [OF ok]]],
      rule wdoes_silent [OF wdoes_on_sp [OF lines_does(2) [OF ok]]], rule wdoes_seqE [OF send_wdoes [OF ok]], simp,
      rule wdoes_silent [OF wdoes_on_sp [OF flush_does [OF ok]]], rule wdoes_silent_bind [OF wdoes_on_sp [OF read_does [OF ok]]])
    fix query :: "u8 list"
    assume "length query = 1"
    then show "wdoes (at port_ready c) (at port_ready c)
        (if length query > 0 then greet sys else seqE (say eError ''No Reply to Inquiry'') (ret False)) [0x41, 0x42, 0x43, 0x44, 0x45] (\<lambda>_. True)"
      using greet_wdoes [OF ok] by simp
  qed
  have opened: "wdoes (at P c) (at port_ready c) (bindE (on_sp serial_isOpen) (\<lambda>op. whenE (\<not> op) (on_sp (serial_open sys)))) [] (\<lambda>_. True)"
    using P
  proof
    assume P: "P = port_ready"
    show ?thesis unfolding P
    proof (rule wdoes_silent_bind [OF wdoes_on_sp])
      show "does port_ready port_ready serial_isOpen [] (\<lambda>op. op)"
        by (rule doesI) (auto simp: serial_isOpen_def impl_isOpen_def fld_def port_ready_def)
    qed (simp add: wdoes_ret)
  next
    assume P: "P = port_idle"
    show ?thesis unfolding P
    proof (rule wdoes_silent_bind [OF wdoes_on_sp])
      show "does port_idle port_idle serial_isOpen [] (\<lambda>op. \<not> op)"
        by (rule doesI) (auto simp: serial_isOpen_def impl_isOpen_def fld_def port_idle_def)
    qed (simp add: wdoes_on_sp [OF open_does [OF ok]])
  qed
  have "init_port sys = seqE (bindE (on_sp serial_isOpen) (\<lambda>op. whenE (\<not> op) (on_sp (serial_open sys)))) ?rest"
    by (auto simp: init_port_def seqE_def bindE_def fun_eq_iff split: prod.split sum.split)
  then show ?thesis using wdoes_silent [OF opened rest] by simp
qed

text \<open>Where a session can start: no port object yet, or one that is closed.\<close>

definition may_start :: "lmbctx \<Rightarrow> bool" where
  "may_start c \<longleftrightarrow> (case ctx_sp c of None \<Rightarrow> ctx_port c \<noteq> [] | Some s \<Rightarrow> port_idle s)"

definition ready :: "lmbctx \<Rightarrow> world \<Rightarrow> bool" where
  "ready c w \<longleftrightarrow> ctx w = c \<and> log_ok (logs w)"

lemma new_serial_ready:
  assumes ok: "works sys" and p: "ctx_port c \<noteq> []"
  shows "wdoes (\<lambda>w. ctx w = c \<and> log_ok (logs w) \<and> driver_bound w) (at port_ready c)
    (new_serial sys (ctx_port c) 38400 (simpleTimeout 10)) [] (\<lambda>_. True)"
proof (rule wdoesI)
  fix w :: world
  assume w: "ctx w = c \<and> log_ok (logs w) \<and> driver_bound w"
  let ?s = "new_impl (ctx_port c) 38400 eightbits parity_none stopbits_one flowcontrol_none 0"
  have s: "\<not> ser_is_open ?s" "ser_port ?s \<noteq> []" "line_pars default_Timeout ?s"
    using p by (simp_all add: new_impl_def line_pars_def)
  obtain s' t' where op: "impl_open sys (?s, wtrace w) = (Inr (), (s', t'))" "ser_is_open s'" "ser_fd s' \<noteq> - 1"
      "line_pars default_Timeout s'" "sent t' = sent (wtrace w)"
    using open_run [OF ok s, of "wtrace w"] by blast
  have "serial_ctor sys (simpleTimeout 10) (?s, wtrace w) = (Inr (), (s'\<lparr>ser_timeout := simpleTimeout 10\<rparr>, t'))"
    using op(1) s(2) by (simp add: serial_ctor_def impl_ctor_def impl_setTimeout_def fld_def upd_def seqE_def bindE_def gets_def modify_def)
  moreover have "port_ready (s'\<lparr>ser_timeout := simpleTimeout 10\<rparr>)" using op by (simp add: port_ready_def line_pars_def)
  ultimately show "\<exists>x w'. new_serial sys (ctx_port c) 38400 (simpleTimeout 10) w = (Inr x, w') \<and> True \<and> at port_ready c w' \<and>
      sent (wtrace w') = sent (wtrace w) @ []"
    using w op(5) by (auto simp: new_serial_def at_def)
qed

lemma at_same: "at P (c\<lparr>ctx_sp := x\<rparr>) = at P c"
  by (simp add: at_def fun_eq_iff)

lemma Init_wdoes:
  assumes ok: "works sys" and start: "may_start c"
  shows "wdoes (ready c) (at port_ready c) (Driver_Init sys) [0x54, 0x41, 0x42, 0x43, 0x44, 0x45] (\<lambda>_. True)"
proof -
  let ?A = "\<lambda>w. ctx w = c \<and> log_ok (logs w) \<and> driver_bound w"
  let ?rest = "bindE (ctxf (\<lambda>c. c)) (\<lambda>c.
     if ctx_sp c = None \<and> length (ctx_port c) \<noteq> 0 then
       seqE (new_serial sys (ctx_port c) 38400 (simpleTimeout 10)) (init_port sys)
     else if ctx_sp c = None then ret False
     else init_port sys)"
  have bind: "wdoes (ready c) ?A (modify (\<lambda>w. w\<lparr>driver_bound := True\<rparr>)) [] (\<lambda>_. True)"
    by (rule wdoesI) (simp add: ready_def)
  have rest: "wdoes ?A (at port_ready c) ?rest [0x54, 0x41, 0x42, 0x43, 0x44, 0x45] (\<lambda>_. True)"
  proof (cases "ctx_sp c")
    case None
    then have p: "ctx_port c \<noteq> []" using start by (simp add: may_start_def)
    have r: "?rest w = seqE (new_serial sys (ctx_port c) 38400 (simpleTimeout 10)) (init_port sys) w" if "?A w" for w
      using that None p by (simp add: ctxf_def)
    have "wdoes ?A (at port_ready c) (seqE (new_serial sys (ctx_port c) 38400 (simpleTimeout 10)) (init_port sys))
        [0x54, 0x41, 0x42, 0x43, 0x44, 0x45] (\<lambda>_. True)"
      by (rule wdoes_silent [OF new_serial_ready [OF ok p]]) (rule init_port_wdoes [OF ok], simp)
    then show ?thesis unfolding wdoes_def using r by simp
  next
    case (Some s)
    then have idle: "port_idle s" using start by (simp add: may_start_def)
    have r: "?rest w = init_port sys w" if "?A w" for w using that Some by (simp add: ctxf_def)
    have "?A w \<Longrightarrow> at port_idle c w" for w
      unfolding at_def using Some idle by (intro conjI exI [of _ s]) auto
    with init_port_wdoes [OF ok, of port_idle c] r show ?thesis unfolding wdoes_def by simp
  qed
  show ?thesis unfolding Driver_Init_def by (rule wdoes_silent [OF bind rest])
qed

lemma Fini_wdoes:
  assumes "works sys"
  shows "wdoes (at port_ready c) (at port_idle c) (Driver_Fini sys) [] (\<lambda>_. True)"
  unfolding Driver_Fini_def
  by (rule wdoes_silent [OF wdoes_sleep], rule wdoes_deref, rule wdoes_last [OF wdoes_on_sp [OF close_does [OF assms]]]) simp

section \<open>One message\<close>

lemma dump_ok: "len \<le> length data \<Longrightarrow> dump data len = ret ()"
proof -
  assume "len \<le> length data"
  from print_loop_rows [OF this, of 0 "len div 16" "[''Raw Message: '']"]
  obtain r where "printMessage data len = Inr r" by (force simp: printMessage_def)
  then show ?thesis by (simp add: dump_def fun_eq_iff)
qed

definition wire_packets :: "int \<Rightarrow> string \<Rightarrow> u8 list list" where
  "wire_packets pos m = map (\<lambda>part. doc_packet part (word_of_int pos) m) [1, 2, 3, 4]"

lemma packet_steps:
  assumes "length m < 2 ^ 63"
  shows "packet 1 header1 pos m = Inr (doc_packet 1 (word_of_int pos) m)" "packet 2 header2 pos m = Inr (doc_packet 2 (word_of_int pos) m)"
    "packet 3 header3 pos m = Inr (doc_packet 3 (word_of_int pos) m)" "packet 4 header4 pos m = Inr (doc_packet 4 (word_of_int pos) m)"
proof -
  have "packets pos m = Inr (map (\<lambda>part. doc_packet part (word_of_int pos) m) [1, 2, 3, 4])" by (rule packets_doc [OF assms])
  then show "packet 1 header1 pos m = Inr (doc_packet 1 (word_of_int pos) m)" "packet 2 header2 pos m = Inr (doc_packet 2 (word_of_int pos) m)"
    "packet 3 header3 pos m = Inr (doc_packet 3 (word_of_int pos) m)" "packet 4 header4 pos m = Inr (doc_packet 4 (word_of_int pos) m)"
    by (auto simp: packets_def bindR_Inr_iff)
qed

lemma build_packets_ok:
  assumes "length m < 2 ^ 63"
  shows "build_packets L pos m = ret (wire_packets pos m)"
proof -
  have len: "length (doc_packet part slot m) = 69" if "part \<in> {1, 2, 3, 4}" for part slot
    by (rule length_doc_packet)
  show ?thesis
    by (simp add: build_packets_def packet_steps [OF assms] dump_ok len finalpck_def wire_packets_def fun_eq_iff del: One_nat_def)
qed

lemma send_packets_wdoes:
  assumes ok: "works sys" and "[] \<notin> set ps"
  shows "wdoes (at port_ready c) (at port_ready c) (send_packets sys ps) (concat ps) (\<lambda>_. True)"
  using assms(2)
proof (induction ps)
  case Nil
  show ?case by (simp only: send_packets.simps concat.simps) (rule wdoes_ret, rule TrueI)
next
  case (Cons p ps)
  then have p: "p \<noteq> []" "[] \<notin> set ps" by auto
  show ?case
    using wdoes_seqE [OF send_wdoes [OF ok p(1)] wdoes_silent [OF wdoes_sleep Cons.IH [OF p(2)]]] by simp
qed

text \<open>The context after a message was accepted.\<close>

definition displays :: "int \<Rightarrow> string \<Rightarrow> lmbctx \<Rightarrow> lmbctx" where
  "displays pos m c = c\<lparr>ctx_displayedmsgs := (ctx_displayedmsgs c)(pos := m),
     ctx_msgdisplay := (ctx_msgdisplay c)[nat (pos - 1) := m \<noteq> []]\<rparr>"

lemma set_slot_wdoes:
  assumes "1 \<le> pos" and "pos \<le> int (length (ctx_msgdisplay c))"
  shows "wdoes (at P c) (at P (displays pos m c)) (set_slot pos m (m \<noteq> [])) [] (\<lambda>_. True)"
proof (rule wdoesI)
  fix w
  assume "at P c w"
  then obtain s where s: "ctx w = c\<lparr>ctx_sp := Some s\<rparr>" "P s" "log_ok (logs w)" "driver_bound w" by (auto simp: at_def)
  then have "set_slot pos m (m \<noteq> []) w = (Inr (), w\<lparr>ctx := (displays pos m c)\<lparr>ctx_sp := Some s\<rparr>\<rparr>)"
    using assms by (simp add: set_slot_def set_display_bit_def world_run displays_def)
  with s show "\<exists>x w'. set_slot pos m (m \<noteq> []) w = (Inr x, w') \<and> True \<and> at P (displays pos m c) w' \<and> sent (wtrace w') = sent (wtrace w) @ []"
    by (auto simp: at_def)
qed

definition mask_byte :: "bool list \<Rightarrow> u8" where
  "mask_byte bs = of_nat (\<Sum>i = 0..<length bs. if bs ! i then 2 ^ i else 0)"

lemma run_command_wdoes:
  assumes ok: "works sys" and "length (ctx_msgdisplay c) \<le> 64"
  shows "wdoes (at port_ready c) (at port_ready c) (run_command sys pos) [0x02, 0x33, mask_byte (ctx_msgdisplay c)] (\<lambda>b. b)"
proof -
  have mask: "display_mask (ctx_msgdisplay c) = Inr (mask_byte (ctx_msgdisplay c))"
    using assms(2) by (simp add: display_mask_def mask_byte_def)
  show ?thesis
    unfolding run_command_def
  proof (rule wdoes_ctxf)
    show "wdoes (at port_ready c) (at port_ready c)
      (bindE (lift (display_mask (ctx_msgdisplay c))) (\<lambda>mask. seqE (send sys [0x02, 0x33, mask])
        (bindE (ctxf ctx_displayedmsgs) (\<lambda>msgs. seqE (say eInfo (''Set Message '' @ show_int pos @ '' to '' @ msgs pos)) (ret True)))))
      [0x02, 0x33, mask_byte (ctx_msgdisplay c)] (\<lambda>b. b)"
      unfolding mask bindE_lift_Inr
    proof -
      have "wdoes (at port_ready c) (at port_ready c) (bindE (ctxf ctx_displayedmsgs) (\<lambda>msgs. seqE (say eInfo (''Set Message '' @ show_int pos @ '' to '' @ msgs pos)) (ret True))) [] (\<lambda>b. b)"
        by (rule wdoes_ctxf, simp, rule wdoes_last [OF wdoes_say]) simp
      from wdoes_seqE [OF send_wdoes [OF ok] this, of "[0x02, 0x33, mask_byte (ctx_msgdisplay c)]"]
      show "wdoes (at port_ready c) (at port_ready c) (seqE (send sys [0x02, 0x33, mask_byte (ctx_msgdisplay c)])
        (bindE (ctxf ctx_displayedmsgs) (\<lambda>msgs. seqE (say eInfo (''Set Message '' @ show_int pos @ '' to '' @ msgs pos)) (ret True))))
        [0x02, 0x33, mask_byte (ctx_msgdisplay c)] (\<lambda>b. b)" by simp
    qed
  qed simp
qed

definition wire_message :: "int \<Rightarrow> string \<Rightarrow> u8 list" where
  "wire_message pos m = (if m = [] then [] else concat (wire_packets pos (translate (map_of attribute_table) m)))"

lemma setMessage_wdoes:
  assumes ok: "works sys" and ra: "replaces_all (replace_all L)" and pos: "1 \<le> pos" "pos \<le> int (ctx_messages c)"
    and n: "length (ctx_msgdisplay c) = ctx_messages c" "ctx_messages c \<le> 64"
  shows "wdoes (at port_ready c) (at port_ready (displays pos (take 250 m) c)) (Driver_setMessage sys L pos m)
    (wire_message pos (take 250 m) @ [0x02, 0x33, mask_byte (ctx_msgdisplay (displays pos (take 250 m) c))]) (\<lambda>b. b)"
proof -
  let ?m = "take 250 m"
  let ?c = "displays pos ?m c"
  have l: "length (ctx_msgdisplay ?c) \<le> 64" using n by (simp add: displays_def)
  have slot: "wdoes (at port_ready c) (at port_ready ?c) (set_slot pos ?m (?m \<noteq> [])) [] (\<lambda>_. True)"
    using pos n by (intro set_slot_wdoes) simp_all
  have in_range: "\<not> ctx_messages c < nat (pos mod 2 ^ 32)"
  proof -
    have "pos < 2 ^ 32" using pos n by simp
    then have "pos mod 2 ^ 32 = pos" using pos by (intro mod_pos_pos_trivial) simp_all
    then show ?thesis using pos by simp
  qed
  have body: "wdoes (at port_ready c) (at port_ready ?c)
      (if length ?m > 0 then seqE (set_slot pos ?m True) (bindE (build_packets L pos (encode_attributes L ?m)) (send_packets sys))
       else set_slot pos [] False) (wire_message pos ?m) (\<lambda>_. True)"
  proof (cases "?m = []")
    case True
    then show ?thesis using slot by (simp add: wire_message_def)
  next
    case False
    have e: "encode_attributes L ?m = translate (map_of attribute_table) ?m" and el: "length (encode_attributes L ?m) = length ?m"
      using encode_attributes_translate [OF ra] length_encode_attributes [OF ra] by blast+
    have short: "length (encode_attributes L ?m) < 2 ^ 63" unfolding el by simp
    have b: "bindE (build_packets L pos (encode_attributes L ?m)) (send_packets sys) = send_packets sys (wire_packets pos (encode_attributes L ?m))"
      by (simp only: build_packets_ok [OF short] bindE_ret)
    have ne: "[] \<notin> set (wire_packets pos (encode_attributes L ?m))"
      using length_doc_packet by (auto simp: wire_packets_def dest!: arg_cong [where f = length])
    have "set_slot pos ?m True = set_slot pos ?m (?m \<noteq> [])" using False by simp
    with wdoes_silent [OF slot send_packets_wdoes [OF ok ne]] False
    show ?thesis by (simp add: b [unfolded e] e wire_message_def)
  qed
  have warn: "wdoes (at port_ready c) (at port_ready c) (whenE (length m > 250) (say eWarning t)) [] (\<lambda>_. True)" for t
    using wdoes_say [of port_ready c eWarning t] wdoes_ret [of "\<lambda>_. True" "()" "at port_ready c"] by (cases "length m > 250") simp_all
  show ?thesis
    unfolding Driver_setMessage_def
    by (rule wdoes_deref, rule wdoes_ctxf, simp, simp only: in_range if_False Let_def,
        rule wdoes_silent [OF warn wdoes_seqE [OF body run_command_wdoes [OF ok l]]])
qed

lemma drive_wdoes:
  assumes ok: "works sys" and ra: "replaces_all (replace_all L)" and pos: "1 \<le> pos" "pos \<le> int (ctx_messages c)"
    and n: "length (ctx_msgdisplay c) = ctx_messages c" "ctx_messages c \<le> 64" and start: "may_start c"
  shows "wdoes (ready c) (at port_idle (displays pos (take 250 m) c)) (drive sys L pos m)
    ([0x54, 0x41, 0x42, 0x43, 0x44, 0x45] @ wire_message pos (take 250 m) @
     [0x02, 0x33, mask_byte (ctx_msgdisplay (displays pos (take 250 m) c))]) (\<lambda>_. True)"
  unfolding drive_def show_message_def
  using wdoes_seqE [OF Init_wdoes [OF ok start] wdoes_seqE [OF setMessage_wdoes [OF ok ra pos n] wdoes_last [OF Fini_wdoes [OF ok], where U = "\<lambda>_. True" and x = "()"]]]
  by simp

section \<open>Properties\<close>


definition rep_libs :: libs where
  "rep_libs = demo_libs\<lparr>replace_all := (\<lambda>s a b. rep2 (a ! 0) (a ! 1) b s)\<rparr>"


end
