(* ===== verification/StartUp.thy ===== *)
theory StartUp
  imports DisplaySession Daemon
begin

text \<open>
  The start-up of the daemon, from the command line to the listening socket, in a system in
  which every call works: the configuration is loaded, the display is greeted, the start-up messages are
  shown, and a file is made and watched for every slot.
\<close>

section \<open>The start-up messages\<close>

text \<open>The slots up to \<open>k\<close> show their start-up messages, the others what they showed before.\<close>

definition startup_shown :: "lmbctx \<Rightarrow> nat \<Rightarrow> lmbctx" where
  "startup_shown c k = fold (\<lambda>i c. if ctx_startupmsg c (int i) = [] then c
     else displays (int i) (take 250 (ctx_startupmsg c (int i))) c) [1..<Suc k] c"

text \<open>The bytes of one session with the display.\<close>

definition session_bytes :: "lmbctx \<Rightarrow> int \<Rightarrow> string \<Rightarrow> u8 list" where
  "session_bytes c pos m = [0x54, 0x41, 0x42, 0x43, 0x44, 0x45] @ wire_message pos m @
     [0x02, 0x33, mask_byte (ctx_msgdisplay c)]"

fun startup_bytes :: "lmbctx \<Rightarrow> nat \<Rightarrow> u8 list" where
  "startup_bytes c 0 = []"
| "startup_bytes c (Suc k) = startup_bytes c k @
     (if ctx_startupmsg c (int (Suc k)) = [] then []
      else session_bytes (startup_shown c (Suc k)) (int (Suc k)) (take 250 (ctx_startupmsg c (int (Suc k)))))"

lemma startup_shown_Suc:
  "startup_shown c (Suc k) =
     (if ctx_startupmsg (startup_shown c k) (int (Suc k)) = [] then startup_shown c k
      else displays (int (Suc k)) (take 250 (ctx_startupmsg (startup_shown c k) (int (Suc k)))) (startup_shown c k))"
  by (simp add: startup_shown_def)

lemma displays_fields [simp]:
  "ctx_startupmsg (displays i m c) = ctx_startupmsg c" "ctx_messages (displays i m c) = ctx_messages c"
  "length (ctx_msgdisplay (displays i m c)) = length (ctx_msgdisplay c)" "settings (displays i m c) = settings c"
  "ctx_monitorpath (displays i m c) = ctx_monitorpath c"
  by (simp_all add: displays_def settings_def)

lemma startup_shown_fields [simp]:
  "ctx_startupmsg (startup_shown c k) = ctx_startupmsg c" "ctx_messages (startup_shown c k) = ctx_messages c"
  "length (ctx_msgdisplay (startup_shown c k)) = length (ctx_msgdisplay c)" "settings (startup_shown c k) = settings c"
  "ctx_monitorpath (startup_shown c k) = ctx_monitorpath c"
  by (induction k) (simp_all add: startup_shown_Suc, simp_all add: startup_shown_def)

lemma startup_shown_messages:
  "k \<le> length (ctx_msgdisplay c) \<Longrightarrow> 1 \<le> i \<Longrightarrow>
   ctx_displayedmsgs (startup_shown c k) i = (if i \<le> int k \<and> ctx_startupmsg c i \<noteq> [] then take 250 (ctx_startupmsg c i) else ctx_displayedmsgs c i)"
proof (induction k)
  case 0
  then show ?case by (simp add: startup_shown_def)
next
  case (Suc k)
  then have IH: "ctx_displayedmsgs (startup_shown c k) i = (if i \<le> int k \<and> ctx_startupmsg c i \<noteq> [] then take 250 (ctx_startupmsg c i) else ctx_displayedmsgs c i)"
    by simp
  show ?case
    unfolding startup_shown_Suc startup_shown_fields
    using IH by (cases "i = int (Suc k)") (auto simp: displays_def)
qed

lemma startup_shown_bits:
  "k \<le> length (ctx_msgdisplay c) \<Longrightarrow> j < length (ctx_msgdisplay c) \<Longrightarrow>
   ctx_msgdisplay (startup_shown c k) ! j = (if j < k \<and> ctx_startupmsg c (int (Suc j)) \<noteq> [] then True else ctx_msgdisplay c ! j)"
proof (induction k)
  case 0
  then show ?case by (simp add: startup_shown_def)
next
  case (Suc k)
  then have IH: "ctx_msgdisplay (startup_shown c k) ! j = (if j < k \<and> ctx_startupmsg c (int (Suc j)) \<noteq> [] then True else ctx_msgdisplay c ! j)"
    by simp
  show ?case
    unfolding startup_shown_Suc startup_shown_fields
    using IH Suc.prems by (cases "j = k") (auto simp: displays_def nth_list_update)
qed

text \<open>A port that was closed is where a session starts.\<close>

lemma drive_again:
  assumes "works sys" and "replaces_all (replace_all L)" and "1 \<le> pos" and "pos \<le> int (ctx_messages c)"
    and "length (ctx_msgdisplay c) = ctx_messages c" and "ctx_messages c \<le> 64"
  shows "wdoes (at port_idle c) (at port_idle (displays pos (take 250 m) c)) (drive sys L pos m)
    (session_bytes (displays pos (take 250 m) c) pos (take 250 m)) (\<lambda>_. True)"
proof (rule wdoesI)
  fix w
  assume "at port_idle c w"
  then obtain s where s: "ctx w = c\<lparr>ctx_sp := Some s\<rparr>" "port_idle s" "log_ok (logs w)" by (auto simp: at_def)
  let ?c = "c\<lparr>ctx_sp := Some s\<rparr>"
  have r: "ready ?c w" using s by (simp add: ready_def)
  have d: "displays pos (take 250 m) ?c = (displays pos (take 250 m) c)\<lparr>ctx_sp := Some s\<rparr>" by (simp add: displays_def)
  have "wdoes (ready ?c) (at port_idle (displays pos (take 250 m) ?c)) (drive sys L pos m)
      (session_bytes (displays pos (take 250 m) ?c) pos (take 250 m)) (\<lambda>_. True)"
    unfolding session_bytes_def
    using s(2) assms by (intro drive_wdoes) (simp_all add: may_start_def)
  with r show "\<exists>x w'. drive sys L pos m w = (Inr x, w') \<and> True \<and> at port_idle (displays pos (take 250 m) c) w' \<and>
      sent (wtrace w') = sent (wtrace w) @ session_bytes (displays pos (take 250 m) c) pos (take 250 m)"
    by (simp add: wdoes_def d at_same session_bytes_def)
qed

lemma startup_messages_wdoes:
  assumes ok: "works sys" "replaces_all (replace_all L)" and n: "length (ctx_msgdisplay c) = ctx_messages c" "ctx_messages c \<le> 64"
    and k: "i + n = ctx_messages c"
  shows "\<exists>bs. startup_bytes c (ctx_messages c) = startup_bytes c i @ bs \<and>
    wdoes (at port_idle (startup_shown c i)) (at port_idle (startup_shown c (ctx_messages c))) (startup_messages sys L n (Suc i)) bs (\<lambda>_. True)"
  using k
proof (induction n arbitrary: i)
  case 0
  then have "i = ctx_messages c" by simp
  then show ?case by (intro exI [of _ "[]"]) (simp only: startup_messages.simps append_Nil2 wdoes_ret simp_thms)
next
  case (Suc n)
  let ?c = "startup_shown c i" and ?c' = "startup_shown c (Suc i)" and ?m = "ctx_startupmsg c (int (Suc i))"
  let ?bs = "if ?m = [] then [] else session_bytes ?c' (int (Suc i)) (take 250 ?m)"
  obtain cs where cs: "startup_bytes c (ctx_messages c) = startup_bytes c (Suc i) @ cs"
    and rest: "wdoes (at port_idle ?c') (at port_idle (startup_shown c (ctx_messages c))) (startup_messages sys L n (Suc (Suc i))) cs (\<lambda>_. True)"
    using Suc.IH [of "Suc i"] Suc.prems by auto
  have show1: "wdoes (at port_idle ?c) (at port_idle ?c') (whenE (length ?m > 0) (drive sys L (int (Suc i)) ?m)) ?bs (\<lambda>_. True)"
  proof (cases "?m = []")
    case True
    then show ?thesis by (simp add: startup_shown_Suc wdoes_ret)
  next
    case False
    have "wdoes (at port_idle ?c) (at port_idle (displays (int (Suc i)) (take 250 ?m) ?c)) (drive sys L (int (Suc i)) ?m)
      (session_bytes (displays (int (Suc i)) (take 250 ?m) ?c) (int (Suc i)) (take 250 ?m)) (\<lambda>_. True)"
      by (rule drive_again [OF ok]) (use n Suc.prems in simp_all)
    with False show ?thesis by (simp add: startup_shown_Suc)
  qed
  have "wdoes (at port_idle ?c) (at port_idle (startup_shown c (ctx_messages c))) (startup_messages sys L (Suc n) (Suc i)) (?bs @ cs) (\<lambda>_. True)"
    unfolding startup_messages.simps
    by (rule wdoes_ctxf, simp, unfold startup_shown_fields, rule wdoes_seqE [OF show1 rest])
  then show ?case using cs by (intro exI [of _ "?bs @ cs"]) simp
qed

lemma first_session_wdoes:
  assumes "works sys" and "may_start c"
  shows "wdoes (ready c) (at port_idle c) (first_session sys) [0x54, 0x41, 0x42, 0x43, 0x44, 0x45] (\<lambda>_. True)"
proof -
  have up: "wdoes (at port_ready c) (at port_ready c) Driver_StartUp [] (\<lambda>_. True)"
    unfolding Driver_StartUp_def by (rule wdoes_ret) simp
  show ?thesis
    unfolding first_session_def start_driver_def
    using wdoes_seqE [OF Init_wdoes [OF assms] wdoes_silent [OF up wdoes_last [OF Fini_wdoes [OF assms(1)]]], of "\<lambda>_. True" "()"]
    by simp
qed

section \<open>Making the outputs of the log\<close>

lemma configure_ok:
  assumes "log_ok l" and "\<forall>c \<in> set cs. contains typeid_console (cfg_name c) \<or> contains typeid_file (cfg_name c)"
  shows "\<exists>l'. configure junk cs l = (Inr (), l') \<and> log_ok l'"
  using assms
proof (induction cs arbitrary: l)
  case (Cons c cs)
  show ?case
  proof (cases "contains typeid_console (cfg_name c)")
    case True
    let ?l = "l\<lparr>outputs := outputs l @ [OutputConsole]\<rparr>"
    have "log_ok ?l" using Cons.prems by (simp add: log_ok_def)
    with Cons.IH [of ?l] Cons.prems True show ?thesis by simp
  next
    case False
    with Cons.prems have f: "contains typeid_file (cfg_name c)" by simp
    obtain r fs where r: "of_new (can_append l) junk c (disk l) = (r, fs)" by fastforce
    obtain o1 where o1: "r = Inr o1"
      using r Cons.prems by (cases r) (auto simp: of_new_def of_rotate_def of_do_open_def log_ok_def Let_def split: if_splits)
    let ?l = "l\<lparr>disk := fs, outputs := outputs l @ [OutputFile o1]\<rparr>"
    have "log_ok ?l" using Cons.prems by (simp add: log_ok_def)
    with Cons.IH [of ?l] Cons.prems False f r o1 show ?thesis
      by (simp add: new_file_output_def bindE_def seqE_def)
  qed
qed simp

lemma loaded_outputs:
  assumes "ctx_configList c = []" and "x \<in> set (ctx_configList (loaded L tree c))"
  shows "cfg_name x = ''OutputConsole'' \<or> cfg_name x = ''OutputFile''"
  using assms
  by (auto simp: loaded_def loaded_startup_def loaded_log_def loaded_paths_def Let_def file_config_def addOutput_def split: if_splits)

lemma output_names: "contains typeid_console ''OutputConsole''" "contains typeid_file ''OutputFile''"
  by code_simp+

section \<open>The files of the slots\<close>

text \<open>
  The kernel numbers the watches of an instance from 1. The daemon takes the number of a watch for the
  number of a slot.
\<close>

definition numbers_watches :: "kernel \<Rightarrow> bool" where
  "numbers_watches K \<longleftrightarrow> (\<exists>fd. k_inotify_init K = Inr fd) \<and> (\<forall>ws p msk. k_add_watch K ws p msk = Inr (int (length ws) + 1))"

definition mon_ok :: "monitor \<Rightarrow> bool" where
  "mon_ok s \<longleftrightarrow> log_ok (logs (mworld s)) \<and> mIgnoredDirectories (ino s) = [] \<and> mOnceIgnoredDirectories (ino s) = []"

lemma watchFile_run:
  assumes "numbers_watches K" and "mon_ok s" and "spool s p = Some t"
  shows "watchFile K L p s = (Inr (), s\<lparr>watched := watched s @ [p], ino := (ino s)\<lparr>mError := 0,
    mDirectorieMap := (mDirectorieMap (ino s))(int (length (watched s)) + 1 := p)\<rparr>\<rparr>)"
proof -
  have wd: "k_add_watch K ws q msk = Inr (int (length ws) + 1)" for ws q msk using assms(1) unfolding numbers_watches_def by blast
  show ?thesis
    using assms(2,3) wd
    by (simp add: watchFile_def exists_file_def isIgnored_def upd_ino_def mon_ok_def whenE_def)
qed

lemma create_files_run:
  assumes K: "numbers_watches K" and "mon_ok s" and "Suc (length (watched s)) = i"
  shows "\<exists>t. create_files K L dir n i s = (Inr (), t) \<and> mon_ok t \<and> (\<exists>l. mworld t = (mworld s)\<lparr>logs := l\<rparr>) \<and>
    watched t = watched s @ map (message_file dir) [i..<i + n] \<and>
    (\<forall>k. i \<le> k \<longrightarrow> k < i + n \<longrightarrow> mDirectorieMap (ino t) (int k) = message_file dir k \<and> spool t (message_file dir k) \<noteq> None) \<and>
    (\<forall>k. k < int i \<longrightarrow> mDirectorieMap (ino t) k = mDirectorieMap (ino s) k) \<and>
    (\<forall>p. spool s p \<noteq> None \<longrightarrow> spool t p = spool s p) \<and> (\<forall>p x. spool t p = Some x \<longrightarrow> spool s p = None \<longrightarrow> x = [])"
  using assms(2,3)
proof (induction n arbitrary: i s)
  case 0
  then show ?case by (auto intro: exI [of _ "logs (mworld s)"])
next
  case (Suc n)
  let ?f = "message_file dir i"
  obtain l where l: "say eInfo (''Creating Message File: '' @ path_text ?f) (mworld s) = (Inr (), (mworld s)\<lparr>logs := l\<rparr>)" "log_ok l"
    using say_ok Suc.prems(1) unfolding mon_ok_def by blast
  let ?s1 = "s\<lparr>mworld := (mworld s)\<lparr>logs := l\<rparr>\<rparr>"
  let ?s2 = "?s1\<lparr>spool := (spool s)(?f := (case spool s ?f of None \<Rightarrow> Some [] | Some t \<Rightarrow> Some t))\<rparr>"
  let ?s3 = "?s2\<lparr>watched := watched s @ [?f], ino := (ino s)\<lparr>mError := 0, mDirectorieMap := (mDirectorieMap (ino s))(int i := ?f)\<rparr>\<rparr>"
  have ok2: "mon_ok ?s2" using Suc.prems l by (simp add: mon_ok_def)
  have w: "watchFile K L ?f ?s2 = (Inr (), ?s3)"
    using watchFile_run [OF K ok2, of ?f] Suc.prems(2) by (cases "spool s ?f") (auto simp: add.commute)
  have run: "create_files K L dir (Suc n) i s = create_files K L dir n (Suc i) ?s3"
    using l(1) w by (simp add: in_world_def touch_file_def seqE_def bindE_def modify_def)
  have "mon_ok ?s3" "Suc (length (watched ?s3)) = Suc i" using ok2 Suc.prems by (simp_all add: mon_ok_def)
  from Suc.IH [OF this] obtain t where t: "create_files K L dir n (Suc i) ?s3 = (Inr (), t)" "mon_ok t" "\<exists>l. mworld t = (mworld ?s3)\<lparr>logs := l\<rparr>"
    "watched t = watched ?s3 @ map (message_file dir) [Suc i..<Suc i + n]"
    "\<forall>k. Suc i \<le> k \<longrightarrow> k < Suc i + n \<longrightarrow> mDirectorieMap (ino t) (int k) = message_file dir k \<and> spool t (message_file dir k) \<noteq> None"
    "\<forall>k. k < int (Suc i) \<longrightarrow> mDirectorieMap (ino t) k = mDirectorieMap (ino ?s3) k"
    "\<forall>p. spool ?s3 p \<noteq> None \<longrightarrow> spool t p = spool ?s3 p" "\<forall>p x. spool t p = Some x \<longrightarrow> spool ?s3 p = None \<longrightarrow> x = []"
    by blast
  have here: "mDirectorieMap (ino t) (int i) = ?f" "spool t ?f \<noteq> None"
    using t(6) t(7) by (auto split: option.split)
  have old: "spool t p = spool s p" if "spool s p \<noteq> None" for p
    using that t(7) by (cases "p = ?f") (auto split: option.splits)
  have new: "x = []" if "spool t p = Some x" "spool s p = None" for p x
    using that t(7,8) by (cases "p = ?f") auto
  have "watched t = watched s @ map (message_file dir) [i..<i + Suc n]" using t(4) by (simp add: upt_conv_Cons del: upt_Suc)
  moreover have "mDirectorieMap (ino t) (int k) = message_file dir k \<and> spool t (message_file dir k) \<noteq> None" if "i \<le> k" "k < i + Suc n" for k
    using that t(5) here by (cases "k = i") auto
  moreover have "mDirectorieMap (ino t) k = mDirectorieMap (ino s) k" if "k < int i" for k using that t(6) by auto
  ultimately show ?case
    using t(1,2,3) old new unfolding run by (intro exI [of _ t] conjI) auto
qed

lemma FileMonitor_init_run:
  assumes K: "numbers_watches K" and ok: "mon_ok s" and "watched s = []" and "\<not> io_mutex (mworld s)"
    and dir: "dir_ok L (ctx_monitorpath (ctx (mworld s)))"
  shows "\<exists>t. FileMonitor_init K L s = (Inr True, t) \<and> started t \<and> mon_ok t \<and> (\<exists>l. mworld t = (mworld s)\<lparr>logs := l\<rparr>) \<and>
    (\<forall>k. 1 \<le> k \<longrightarrow> k \<le> ctx_messages (ctx (mworld s)) \<longrightarrow>
       mDirectorieMap (ino t) (int k) = message_file (ctx_monitorpath (ctx (mworld s))) k \<and>
       spool t (message_file (ctx_monitorpath (ctx (mworld s))) k) = Some [])"
proof -
  let ?d = "ctx_monitorpath (ctx (mworld s))" and ?n = "ctx_messages (ctx (mworld s))"
  let ?s1 = "s\<lparr>mworld := (mworld s)\<lparr>io_mutex := True\<rparr>, spool := (\<lambda>_. None)\<rparr>"
  have "mon_ok ?s1" "Suc (length (watched ?s1)) = 1" using ok assms(3) by (simp_all add: mon_ok_def)
  from create_files_run [OF K this, of L ?d ?n] obtain t where t: "create_files K L ?d ?n 1 ?s1 = (Inr (), t)" "mon_ok t"
    "\<exists>l. mworld t = (mworld ?s1)\<lparr>logs := l\<rparr>"
    "\<forall>k. 1 \<le> k \<longrightarrow> k < 1 + ?n \<longrightarrow> mDirectorieMap (ino t) (int k) = message_file ?d k \<and> spool t (message_file ?d k) \<noteq> None"
    "\<forall>p x. spool t p = Some x \<longrightarrow> spool ?s1 p = None \<longrightarrow> x = []"
    by blast
  let ?t = "t\<lparr>started := True, mworld := (mworld t)\<lparr>io_mutex := False\<rparr>\<rparr>"
  have run: "FileMonitor_init K L s = (Inr True, ?t)"
    using t(1) assms(4) dir
    by (simp add: FileMonitor_init_def init_monitor_def in_world_def io_lock_def io_unlock_def finallyE_def clear_spool_def
        dir_ok_def Let_def seqE_def bindE_def gets_def modify_def)
  have "\<exists>l. mworld ?t = (mworld s)\<lparr>logs := l\<rparr>"
    using t(3) assms(4) by (auto intro!: world.equality)
  moreover have "mon_ok ?t" using t(2) by (simp add: mon_ok_def)
  ultimately show ?thesis
    using t(4,5) unfolding run by (intro exI [of _ ?t]) auto
qed

section \<open>From the command line to the socket\<close>

definition started_at :: "lmbctx \<Rightarrow> monitor \<Rightarrow> bool" where
  "started_at c m \<longleftrightarrow> at port_idle c (mworld m) \<and> \<not> io_mutex (mworld m) \<and> started m \<and> mon_ok m \<and>
     (\<forall>k. 1 \<le> k \<longrightarrow> k \<le> ctx_messages c \<longrightarrow>
       mDirectorieMap (ino m) (int k) = message_file (ctx_monitorpath c) k \<and> spool m (message_file (ctx_monitorpath c) k) = Some [])"

lemma in_world_wdoes:
  assumes "wdoes A B m bs V" and "obeys mutex_kept m" and "A (mworld s)"
  obtains x w where "in_world m s = (Inr x, s\<lparr>mworld := w\<rparr>)" and "B w" and "sent (wtrace w) = sent (wtrace (mworld s)) @ bs"
    and "io_mutex w = io_mutex (mworld s)"
proof -
  obtain x w where w: "m (mworld s) = (Inr x, w)" "B w" "sent (wtrace w) = sent (wtrace (mworld s)) @ bs"
    using assms(1,3) by (auto simp: wdoes_def)
  show thesis
    using w obeysD [OF assms(2) w(1)] by (intro that [of x w]) (simp_all add: in_world_def mutex_kept_def)
qed

lemma startup_mutex: "obeys mutex_kept (startup_messages sys L n i)"
  by (induction n arbitrary: i) (simp_all only: startup_messages.simps mutex.port_intros drive_mutex)

lemma at_monitorpath: "at P c w \<Longrightarrow> ctx_monitorpath (ctx w) = ctx_monitorpath c \<and> ctx_messages (ctx w) = ctx_messages c"
  by (auto simp: at_def)

lemma serve_run:
  assumes ok: "works sys" "replaces_all (replace_all L)" and K: "numbers_watches K" and net: "0 \<le> net_socket net" "0 \<le> net_bind net" "0 \<le> net_listen net"
    and s: "mon_ok s" "watched s = []" "\<not> io_mutex (mworld s)" and c: "ctx (mworld s) = c" and start: "may_start c"
    and n: "length (ctx_msgdisplay c) = ctx_messages c" "ctx_messages c \<le> 64" and dir: "dir_ok L (ctx_monitorpath c)"
    and out: "\<forall>x \<in> set (ctx_configList c). cfg_name x = ''OutputConsole'' \<or> cfg_name x = ''OutputFile''"
  shows "\<exists>m. serve sys L K net junk s = (Inr Listening, m) \<and> started_at (startup_shown c (ctx_messages c)) m \<and>
    sent (wtrace (mworld m)) = sent (wtrace (mworld s)) @ [0x54, 0x41, 0x42, 0x43, 0x44, 0x45] @ startup_bytes c (ctx_messages c)"
proof -
  let ?c = "startup_shown c (ctx_messages c)"
  have log: "log_ok (logs (mworld s))" using s by (simp add: mon_ok_def)
  have "\<forall>x \<in> set (ctx_configList c). contains typeid_console (cfg_name x) \<or> contains typeid_file (cfg_name x)"
    using out output_names by (metis (no_types))
  from configure_ok [OF log this] obtain l where l: "configure junk (ctx_configList c) (logs (mworld s)) = (Inr (), l)" "log_ok l" by blast
  let ?s1 = "s\<lparr>mworld := (mworld s)\<lparr>logs := l\<rparr>\<rparr>"
  have 1: "in_world (bindE (ctxf ctx_configList) (\<lambda>cs. on_logs (configure junk cs))) s = (Inr (), ?s1)"
    using l c by (simp add: in_world_def ctxf_def on_logs_def)
  have "ready c (mworld ?s1)" using c l by (simp add: ready_def)
  then obtain u2 w2 where 2: "in_world (first_session sys) ?s1 = (Inr u2, ?s1\<lparr>mworld := w2\<rparr>)" "at port_idle c w2"
    "sent (wtrace w2) = sent (wtrace (mworld ?s1)) @ [0x54, 0x41, 0x42, 0x43, 0x44, 0x45]" "io_mutex w2 = io_mutex (mworld ?s1)"
    using in_world_wdoes [OF first_session_wdoes [OF ok(1) start], of ?s1] dx_mutex.start_driver_R [of sys] unfolding first_session_def by metis
  let ?s2 = "?s1\<lparr>mworld := w2\<rparr>"
  obtain bs where bs: "startup_bytes c (ctx_messages c) = startup_bytes c 0 @ bs"
    "wdoes (at port_idle (startup_shown c 0)) (at port_idle ?c) (startup_messages sys L (ctx_messages c) (Suc 0)) bs (\<lambda>_. True)"
    using startup_messages_wdoes [OF ok n, of 0 "ctx_messages c"] by auto
  have w0: "at port_idle (startup_shown c 0) (mworld ?s2)" using 2 by (simp add: startup_shown_def)
  obtain u3 w3 where 3: "in_world (startup_messages sys L (ctx_messages c) 1) ?s2 = (Inr u3, ?s2\<lparr>mworld := w3\<rparr>)" "at port_idle ?c w3"
    "sent (wtrace w3) = sent (wtrace w2) @ bs" "io_mutex w3 = io_mutex w2"
    using in_world_wdoes [OF bs(2) startup_mutex w0] by auto
  let ?s3 = "?s2\<lparr>mworld := w3\<rparr>"
  have msgs: "in_world (bindE (ctxf ctx_messages) (\<lambda>n. startup_messages sys L n 1)) ?s2 = (Inr u3, ?s3)"
    using 3(1) at_monitorpath [OF 2(2)] by (simp add: in_world_def ctxf_def)
  have mon3: "mon_ok ?s3" "watched ?s3 = []" "\<not> io_mutex (mworld ?s3)" "dir_ok L (ctx_monitorpath (ctx (mworld ?s3)))"
    using s 2 3 dir at_monitorpath [OF 3(2)] by (simp_all add: mon_ok_def at_def)
  from FileMonitor_init_run [OF K mon3] obtain t where t: "FileMonitor_init K L ?s3 = (Inr True, t)" "started t" "mon_ok t"
    "\<exists>l. mworld t = w3\<lparr>logs := l\<rparr>"
    "\<forall>k. 1 \<le> k \<longrightarrow> k \<le> ctx_messages c \<longrightarrow> mDirectorieMap (ino t) (int k) = message_file (ctx_monitorpath c) k \<and>
       spool t (message_file (ctx_monitorpath c) k) = Some []"
    using at_monitorpath [OF 3(2)] by auto
  have "log_ok (logs (mworld t))" using t(3) by (simp add: mon_ok_def)
  then obtain l4 where l4: "say eInfo ''Listening on port 8000'' (mworld t) = (Inr (), (mworld t)\<lparr>logs := l4\<rparr>)" "log_ok l4"
    using say_ok by blast
  let ?m = "t\<lparr>mworld := (mworld t)\<lparr>logs := l4\<rparr>\<rparr>"
  have "listen_loop net t = (Inr Listening, ?m)"
    using l4(1) net by (simp add: listen_loop_def in_world_def seqE_def bindE_def)
  then have "serve sys L K net junk s = (Inr Listening, ?m)"
    unfolding serve_def seqE_Inr [where m = "in_world _", OF 1] seqE_Inr [where m = "in_world _", OF 2(1)]
      seqE_Inr [where m = "in_world _", OF msgs] seqE_Inr [where m = "FileMonitor_init K L", OF t(1)] .
  moreover have "started_at ?c ?m"
    using 3 t l4 s(3) 2(4) at_monitorpath [OF 3(2)] unfolding started_at_def by (auto simp: at_def mon_ok_def)
  moreover have "sent (wtrace (mworld ?m)) = sent (wtrace (mworld s)) @ [0x54, 0x41, 0x42, 0x43, 0x44, 0x45] @ startup_bytes c (ctx_messages c)"
    using 2(3) 3(3) t(4) bs(1) by auto
  ultimately show ?thesis by blast
qed

text \<open>What the libraries, the system and the kernel have to provide.\<close>

definition environment_ok :: "os \<Rightarrow> libs \<Rightarrow> kernel \<Rightarrow> network \<Rightarrow> bool" where
  "environment_ok sys L K net \<longleftrightarrow> works sys \<and> replaces_all (replace_all L) \<and> numbers_watches K \<and>
     0 \<le> net_socket net \<and> 0 \<le> net_bind net \<and> 0 \<le> net_listen net"

text \<open>The state of a process that has just been started.\<close>

definition process_start :: "monitor \<Rightarrow> bool" where
  "process_start m \<longleftrightarrow> log_ok (logs (mworld m)) \<and> watched m = [] \<and> \<not> io_mutex (mworld m)"

lemma loaded_initial:
  assumes "tree_ok L tree"
  shows "ctx_msgdisplay (loaded L tree (initial_ctx g)) = replicate 6 False" "ctx_messages (loaded L tree (initial_ctx g)) = 6"
    "ctx_port (loaded L tree (initial_ctx g)) = get_str tree ''serial.port'' ''/dev/ttyUSB0''" "ctx_sp (loaded L tree (initial_ctx g)) = None"
    "ctx_monitorpath (loaded L tree (initial_ctx g)) = get_str tree ''monitorpath'' ''/var/spool/LMBd''"
    "ctx_displayedmsgs (loaded L tree (initial_ctx g)) = (\<lambda>_. [])" "ctx_clients (loaded L tree (initial_ctx g)) = []"
    "1 \<le> k \<Longrightarrow> k \<le> 6 \<Longrightarrow> ctx_startupmsg (loaded L tree (initial_ctx g)) (int k) = get_str tree (''startupmessage.'' @ show_nat k) []"
  by (simp_all add: loaded_def loaded_startup_def loaded_log_def loaded_paths_def initial_ctx_def Let_def)

lemma main_start_run:
  assumes env: "environment_ok sys L K net" and m0: "process_start m0" and opts: "\<not> opt_help opts" "path_exists L (config_path opts)"
    and tree: "conf (mworld m0) (config_path opts) = Some tree" "tree_ok L tree" "get_str tree ''serial.port'' ''/dev/ttyUSB0'' \<noteq> []"
    and c: "c = loaded L tree (initial_ctx garbage)"
  shows "\<exists>m. main_start sys L K opts net garbage junk m0 = (Inr Listening, m) \<and> started_at (startup_shown c 6) m \<and>
    sent (wtrace (mworld m)) = sent (wtrace (mworld m0)) @ [0x54, 0x41, 0x42, 0x43, 0x44, 0x45] @ startup_bytes c 6"
proof -
  obtain fd where fd: "k_inotify_init K = Inr fd" using env unfolding environment_ok_def numbers_watches_def by blast
  let ?i = "(new_inotify [] 0 IN_CLOSE_WRITE)\<lparr>mInotifyFd := fd\<rparr>"
  have 1: "inotify_ctor K [] 0 IN_CLOSE_WRITE m0 = (Inr (), m0\<lparr>ino := ?i\<rparr>)" by (simp add: inotify_ctor_def fd upd_ino_def)
  let ?m1 = "m0\<lparr>ino := ?i\<rparr>"
  let ?l1 = "(logs (mworld m0))\<lparr>default_level := (if opt_debug opts then eDebug else eInfo)\<rparr>"
  let ?m2 = "?m1\<lparr>mworld := (mworld m0)\<lparr>logs := ?l1\<rparr>\<rparr>"
  have 2: "in_world (on_logs (set_default_level (if opt_debug opts then eDebug else eInfo))) ?m1 = (Inr (), ?m2)"
    by (simp add: in_world_def on_logs_def set_default_level_def)
  have "log_ok ?l1" using m0 by (simp add: process_start_def log_ok_def)
  then obtain l where 3: "in_world (on_logs (manager_get ''LMBd'')) ?m2 = (Inr (), ?m2\<lparr>mworld := (mworld m0)\<lparr>logs := l\<rparr>\<rparr>)" "log_ok l"
    by (cases "channels ?l1 ''LMBd''") (simp_all add: in_world_def on_logs_def manager_get_def log_ok_def)
  let ?w = "(mworld m0)\<lparr>logs := l, ctx := initial_ctx garbage\<rparr>"
  let ?w1 = "?w\<lparr>ctx := c, logs := l\<lparr>channels := (channels l)(''LMBd'' \<mapsto> toLevel (get_str tree ''ConsoleLogLevel'' ''Warning''))\<rparr>\<rparr>"
  have cf: "conf ?w (config_path opts) = Some tree" using tree by simp
  have ld: "try_load L (config_path opts) ?w = (Inr True, ?w1)"
    using load_run [OF cf tree(2)] by (simp add: try_load_def c)
  let ?s = "m0\<lparr>ino := ?i, mworld := ?w1\<rparr>"
  have 4: "in_world (upd_ctx (\<lambda>_. initial_ctx garbage)) (?m2\<lparr>mworld := (mworld m0)\<lparr>logs := l\<rparr>\<rparr>) = (Inr (), m0\<lparr>ino := ?i, mworld := ?w\<rparr>)"
    by (simp add: in_world_def upd_ctx_def)
  have 5: "in_world (try_load L (config_path opts)) (m0\<lparr>ino := ?i, mworld := ?w\<rparr>) = (Inr True, ?s)"
    using ld by (simp add: in_world_def)
  have pre: "main_start sys L K opts net garbage junk m0 = serve sys L K net junk ?s"
    unfolding main_start_def seqE_Inr [where m = "inotify_ctor _ _ _ _", OF 1] if_not_P [OF opts(1)]
    by (simp only: opts(2) not_True_eq_False if_False seqE_Inr [where m = "in_world _", OF 2] seqE_Inr [where m = "in_world _", OF 3(1)]
        seqE_Inr [where m = "in_world _", OF 4] bindE_Inr [where m = "in_world _", OF 5] if_True)
  have "\<exists>m. serve sys L K net junk ?s = (Inr Listening, m) \<and> started_at (startup_shown c (ctx_messages c)) m \<and>
    sent (wtrace (mworld m)) = sent (wtrace (mworld ?s)) @ [0x54, 0x41, 0x42, 0x43, 0x44, 0x45] @ startup_bytes c (ctx_messages c)"
  proof (rule serve_run)
    show "may_start c" using tree(3) by (simp add: may_start_def c loaded_initial [OF tree(2)])
    show "dir_ok L (ctx_monitorpath c)" using tree(2) by (simp add: c loaded_initial [OF tree(2)] tree_ok_def Let_def)
    show "\<forall>x \<in> set (ctx_configList c). cfg_name x = ''OutputConsole'' \<or> cfg_name x = ''OutputFile''"
      unfolding c by (intro ballI loaded_outputs [where L = L and tree = tree and c = "initial_ctx garbage"]) (simp_all add: initial_ctx_def)
  qed (use env m0 3(2) in \<open>simp_all add: environment_ok_def process_start_def mon_ok_def new_inotify_def log_ok_def c loaded_initial [OF tree(2)]\<close>)
  then show ?thesis unfolding pre by (simp add: c loaded_initial [OF tree(2)])
qed

section \<open>An example\<close>

definition demo_kernel :: kernel where
  "demo_kernel = \<lparr>k_inotify_init = Inr 5, k_add_watch = (\<lambda>ws p msk. Inr (int (length ws) + 1)), k_rm_watch = (\<lambda>wd. None),
     k_strerror = (\<lambda>e. ''error''), k_tree = (\<lambda>p. []), k_is_symlink = (\<lambda>p. False)\<rparr>"

definition demo_network :: network where
  "demo_network = \<lparr>net_socket = 3, net_bind = 0, net_listen = 0\<rparr>"

definition demo_options :: options where
  "demo_options = \<lparr>opt_help = False, opt_config = None, opt_debug = False\<rparr>"

definition demo_tree :: ptree where
  "demo_tree = [''startupmessage.2'' \<mapsto> ''HI'']"

definition demo_process :: monitor where
  "demo_process = \<lparr>ino = new_inotify [] 0 0, watched = [], spool = (\<lambda>_. None), started = False,
     mworld = demo_world\<lparr>conf := [''/etc/LMBd.conf'' \<mapsto> demo_tree]\<rparr>\<rparr>"

lemma demo_environment: "environment_ok demo_os rep_libs demo_kernel demo_network"
  using demo_works rep2_replaces_all
  by (simp add: environment_ok_def rep_libs_def numbers_watches_def demo_kernel_def demo_network_def)

lemma demo_start: "process_start demo_process"
  by (simp add: process_start_def demo_process_def demo_world_def demo_log_def log_ok_def)

lemma demo_config:
  "\<not> opt_help demo_options" "path_exists rep_libs (config_path demo_options)"
  "conf (mworld demo_process) (config_path demo_options) = Some demo_tree" "tree_ok rep_libs demo_tree"
  "get_str demo_tree ''serial.port'' ''/dev/ttyUSB0'' \<noteq> []"
  by (simp_all add: demo_options_def rep_libs_def demo_libs_def config_path_def demo_process_def demo_tree_def tree_ok_def
      get_str_def dir_ok_def)

section \<open>Properties\<close>



end
