(* ===== verification/MonitorFacts.thy ===== *)
theory MonitorFacts
  imports StartUp
begin

text \<open>
  The file monitor: the events the kernel delivers are read back from the bytes of one \<open>read\<close>, and
  a file that has been written shows in the slot with the number of its watch.
\<close>

section \<open>The bytes of the events\<close>

text \<open>An event of the kernel: the watch, the mask, the cookie, and the padded name.\<close>

type_synonym raw_event = "int \<times> u32 \<times> u32 \<times> u8 list"

definition put32 :: "u32 \<Rightarrow> u8 list" where
  "put32 x = map (\<lambda>i. ucast (drop_bit (8 * i) x)) [0, 1, 2, 3]"

fun event_bytes :: "raw_event \<Rightarrow> u8 list" where
  "event_bytes (wd, msk, cookie, name) = put32 (word_of_int wd) @ put32 msk @ put32 cookie @ put32 (of_nat (length name)) @ name"

fun raw_ok :: "raw_event \<Rightarrow> bool" where
  "raw_ok (wd, msk, cookie, name) \<longleftrightarrow> - (2 ^ 31) \<le> wd \<and> wd < 2 ^ 31 \<and> length name < 2 ^ 32"

text \<open>What the program makes of an event: nothing, when the watch is unknown.\<close>

fun seen_event :: "libs \<Rightarrow> inotify \<Rightarrow> raw_event \<Rightarrow> FileSystemEvent list" where
  "seen_event L m (wd, msk, cookie, name) =
     (let path = mDirectorieMap m wd
      in if path = [] then [] else [new_event wd (msk OR (if is_directory L path then IN_ISDIR else 0)) path])"

lemma length_put32 [simp]: "length (put32 x) = 4"
  by (simp add: put32_def)

lemma low_byte: "ucast (ucast (x :: u32) :: u8) = take_bit 8 x"
  by (simp add: unsigned_ucast_eq flip: take_bit_eq_mod)

lemma le32_put32 [simp]: "le32 (put32 x @ bs) = x"
proof -
  have parts: "push_bit n (take_bit 8 (drop_bit n x)) + push_bit (n + 8) (drop_bit (n + 8) x) = push_bit n (drop_bit n x)" for n
  proof -
    have "drop_bit n x = push_bit 8 (drop_bit 8 (drop_bit n x)) + take_bit 8 (drop_bit n x)" by (simp only: bits_ident)
    then have "push_bit n (drop_bit n x) = push_bit n (push_bit 8 (drop_bit 8 (drop_bit n x)) + take_bit 8 (drop_bit n x))" by (rule arg_cong)
    also have "\<dots> = push_bit (n + 8) (drop_bit (n + 8) x) + push_bit n (take_bit 8 (drop_bit n x))"
      by (simp add: push_bit_add add.commute)
    finally show ?thesis by (simp add: add.commute)
  qed
  have "drop_bit 32 x = 0" by (rule bit_word_eqI) (simp add: bit_simps)
  then have "x = push_bit 0 (take_bit 8 (drop_bit 0 x)) + (push_bit 8 (take_bit 8 (drop_bit 8 x)) +
      (push_bit 16 (take_bit 8 (drop_bit 16 x)) + push_bit 24 (take_bit 8 (drop_bit 24 x))))"
    using parts [of 0] parts [of 8] parts [of 16] parts [of 24] by simp
  moreover have "{0..<4} = {0, 1, 2, 3 :: nat}" by auto
  ultimately show ?thesis
    by (simp add: le32_def put32_def low_byte add.assoc)
qed

lemma decode_event:
  assumes "raw_ok e"
  shows "decode_events L m (event_bytes e @ bs) = seen_event L m e @ decode_events L m bs"
proof -
  obtain wd msk cookie name where e: "e = (wd, msk, cookie, name)" by (cases e) auto
  let ?b = "event_bytes e @ bs"
  have le: "le32 (?b @ replicate 16 0) = word_of_int wd" "le32 (drop 4 (?b @ replicate 16 0)) = msk"
    "le32 (drop 12 (?b @ replicate 16 0)) = of_nat (length name)"
    by (simp_all add: e drop_append)
  have n: "unat (of_nat (length name) :: u32) = length name" and wd: "sint (word_of_int wd :: u32) = wd"
    using assms by (simp_all add: e unat_of_nat sint_sbintrunc' signed_take_bit_int_eq_self)
  have rest: "drop (16 + length name) ?b = bs" by (simp add: e)
  have ne: "?b \<noteq> []" using arg_cong [of ?b "[]" length] by (auto simp: e)
  show ?thesis
    by (subst decode_events.simps) (simp only: ne if_False Let_def le n wd rest wdToPath_def, simp add: e Let_def)
qed

lemma decode_all:
  "\<forall>e \<in> set es. raw_ok e \<Longrightarrow> decode_events L m (concat (map event_bytes es)) = concat (map (seen_event L m) es)"
  by (induction es) (simp_all add: decode_event decode_events.simps [of _ _ "[]"])

section \<open>The queue of events\<close>

text \<open>The daemon's instance has no patterns to ignore and no time between events that counts as one.\<close>

definition plain_inotify :: "inotify \<Rightarrow> bool" where
  "plain_inotify m \<longleftrightarrow> mIgnoredDirectories m = [] \<and> mOnceIgnoredDirectories m = [] \<and> mEventTimeout m = 0"

lemma filter_plain:
  "plain_inotify m \<Longrightarrow> mLastEventTime m \<le> t \<Longrightarrow>
   filter_events t m es = Inr (es, m\<lparr>mLastEventTime := (if es = [] then mLastEventTime m else t), mEventQueue := mEventQueue m @ es\<rparr>)"
proof (induction es arbitrary: m)
  case (Cons e es)
  let ?m = "m\<lparr>mLastEventTime := t, mEventQueue := mEventQueue m @ [e]\<rparr>"
  have "plain_inotify ?m" "mLastEventTime ?m \<le> t" using Cons.prems by (simp_all add: plain_inotify_def)
  from Cons.IH [OF this] Cons.prems show ?case
    by (simp add: onTimeout_def isIgnored_def plain_inotify_def)
qed simp

lemma get_read:
  assumes "plain_inotify m" and "mLastEventTime m \<le> t" and "mEventQueue m = []" and "bs \<noteq> []" and "decode_events L m bs = e # es"
  shows "get_loop L [] m ((Inr bs, t) # ins) = (Inr (e, ins), m\<lparr>mLastEventTime := t, mEventQueue := es\<rparr>)"
proof -
  have "get_loop L (e # es) (m\<lparr>mLastEventTime := t, mEventQueue := e # es\<rparr>) ins =
      (Inr (e, ins), m\<lparr>mLastEventTime := t, mEventQueue := es\<rparr>)"
    by (cases ins rule: list.exhaust) (auto simp: get_loop.simps split: prod.split)
  then show ?thesis using assms filter_plain [OF assms(1,2), of "e # es"] by simp
qed

lemma get_queued:
  assumes "mEventQueue m = e # es"
  shows "get_loop L evs m ins = (Inr (e, ins), m\<lparr>mEventQueue := es\<rparr>)"
  using assms by (cases ins) (auto split: prod.split)

section \<open>One round of the monitoring thread\<close>

lemma locked_run:
  assumes "\<not> io_mutex w" and "m (w\<lparr>io_mutex := True\<rparr>) = (Inr x, w')"
  shows "locked m w = (Inr x, w'\<lparr>io_mutex := False\<rparr>)"
  using assms by (simp add: locked_def io_lock_def io_unlock_def seqE_def bindE_def gets_def modify_def finallyE_def)

lemma seen_written: "mDirectorieMap m k = path \<Longrightarrow> path \<noteq> [] \<Longrightarrow>
  \<exists>msk. seen_event L m (k, IN_CLOSE_WRITE, cookie, []) = [new_event k msk path]"
  by (auto simp: Let_def)

lemma drive_locked:
  assumes ok: "works sys" "replaces_all (replace_all L)" and pos: "1 \<le> pos" "pos \<le> int (ctx_messages (ctx w))"
    and n: "length (ctx_msgdisplay (ctx w)) = ctx_messages (ctx w)" "ctx_messages (ctx w) \<le> 64"
    and start: "may_start (ctx w)" and log: "log_ok (logs w)" and free: "\<not> io_mutex w"
  shows "\<exists>w' s. locked (drive sys L pos txt) w = (Inr (), w') \<and> ctx w' = (displays pos (take 250 txt) (ctx w))\<lparr>ctx_sp := Some s\<rparr> \<and> port_idle s \<and>
    sent (wtrace w') = sent (wtrace w) @ session_bytes (ctx w') pos (take 250 txt) \<and> log_ok (logs w') \<and> \<not> io_mutex w'"
proof -
  let ?w = "w\<lparr>io_mutex := True\<rparr>"
  have "ready (ctx w) ?w" using log by (simp add: ready_def)
  then obtain w1 where w1: "drive sys L pos txt ?w = (Inr (), w1)" "at port_idle (displays pos (take 250 txt) (ctx w)) w1"
    "sent (wtrace w1) = sent (wtrace ?w) @ [0x54, 0x41, 0x42, 0x43, 0x44, 0x45] @ wire_message pos (take 250 txt) @
      [0x02, 0x33, mask_byte (ctx_msgdisplay (displays pos (take 250 txt) (ctx w)))]"
    using drive_wdoes [OF ok pos n start, of "txt"] by (auto simp: wdoes_def)
  from w1(2) obtain s where "ctx w1 = (displays pos (take 250 txt) (ctx w))\<lparr>ctx_sp := Some s\<rparr>" "port_idle s" "log_ok (logs w1)"
    by (auto simp: at_def)
  with w1 locked_run [where m = "drive sys L pos txt", OF free w1(1)] show ?thesis
    by (intro exI [of _ "w1\<lparr>io_mutex := False\<rparr>"] exI [of _ s]) (simp add: session_bytes_def)
qed

lemma get_written:
  assumes "plain_inotify (ino m)" and "mLastEventTime (ino m) \<le> t" and "mEventQueue (ino m) = []"
    and "mDirectorieMap (ino m) k = file" and "file \<noteq> []" and "- (2 ^ 31) \<le> k" and "k < 2 ^ 31"
  obtains msk where "getNextEvent L ((Inr (event_bytes (k, IN_CLOSE_WRITE, 0, [])), t) # ins) m =
    (Inr (new_event k msk file, ins), m\<lparr>ino := (ino m)\<lparr>mLastEventTime := t, mEventQueue := []\<rparr>\<rparr>)"
proof -
  let ?bs = "event_bytes (k, IN_CLOSE_WRITE, 0, [])"
  have raw: "\<forall>e \<in> set [(k, IN_CLOSE_WRITE, 0, [])]. raw_ok e" using assms(6,7) by simp
  obtain msk where seen: "seen_event L (ino m) (k, IN_CLOSE_WRITE, 0, []) = [new_event k msk file]"
    using seen_written [OF assms(4,5)] by blast
  have d: "decode_events L (ino m) ?bs = [new_event k msk file]" using decode_all [OF raw, of L "ino m"] seen by simp
  have "?bs \<noteq> []" using length_put32 by (metis append_is_Nil_conv event_bytes.simps length_0_conv zero_neq_numeral)
  from get_read [OF assms(1-3) this d] show thesis by (intro that) (simp add: getNextEvent_def)
qed

section \<open>Properties\<close>

text \<open>
  C19: The events the kernel puts into one read come back from the bytes, in their order, one by one, each
  with the path of its watch, and an event of a watch that is not known is dropped: the program's decoder and queue undo
  the kernel's encoding, for every sequence of events with names of any length.
\<close>

theorem read_events_roundtrip:
  assumes "plain_inotify (ino s)" and "mLastEventTime (ino s) \<le> t" and "mEventQueue (ino s) = []" and "\<forall>e \<in> set es. raw_ok e"
    and "concat (map (seen_event L (ino s)) es) = e1 # evs"
  shows "decode_events L (ino s) (concat (map event_bytes es)) = e1 # evs \<and>
    (\<exists>s'. getNextEvent L ((Inr (concat (map event_bytes es)), t) # ins) s = (Inr (e1, ins), s') \<and>
      (\<forall>e2 evs'. evs = e2 # evs' \<longrightarrow> (\<exists>s''. getNextEvent L ins s' = (Inr (e2, ins), s'') \<and> mEventQueue (ino s'') = evs')))"
proof -
  have d: "decode_events L (ino s) (concat (map event_bytes es)) = e1 # evs" using decode_all [OF assms(4)] assms(5) by simp
  have "concat (map event_bytes es) \<noteq> []" using d by (metis decode_events.simps list.distinct(1))
  from get_read [OF assms(1-3) this d] show ?thesis
    by (auto simp: d getNextEvent_def get_queued intro!: exI [of _ "s\<lparr>ino := _\<rparr>"])
qed

definition watching :: inotify where
  "watching = (new_inotify [] 0 IN_CLOSE_WRITE)\<lparr>mDirectorieMap := (\<lambda>_. [])(1 := ''a'', 2 := ''b'')\<rparr>"

theorem read_events_roundtrip_witness:
  "\<exists>s' s''. getNextEvent demo_libs [(Inr (concat (map event_bytes [(2, 8, 0, []), (7, 8, 0, [65, 0]), (1, 8, 0, [])])), 5)]
      (demo_process\<lparr>ino := watching\<rparr>) = (Inr (new_event 2 8 ''b'', []), s') \<and>
    getNextEvent demo_libs [] s' = (Inr (new_event 1 8 ''a'', []), s'')"
proof -
  have "plain_inotify watching" by (simp add: plain_inotify_def watching_def new_inotify_def)
  moreover have "concat (map (seen_event demo_libs watching) [(2, 8, 0, []), (7, 8, 0, [65, 0]), (1, 8, 0, [])]) = [new_event 2 8 ''b'', new_event 1 8 ''a'']"
    by (simp add: watching_def new_inotify_def demo_libs_def)
  ultimately show ?thesis
    using read_events_roundtrip [of "demo_process\<lparr>ino := watching\<rparr>" 5 "[(2, 8, 0, []), (7, 8, 0, [65, 0]), (1, 8, 0, [])]" demo_libs
      "new_event 2 8 ''b''" "[new_event 1 8 ''a'']" "[]"]
    by (simp add: watching_def new_inotify_def) blast
qed



end
