(* ===== verification/CliWorld.thy ===== *)
theory CliWorld
  imports CliFrame
begin

text \<open>
  The library and the client's world. Whatever order on worlds every function the client registers
  moves along, a whole session moves along it: the library never touches the world itself, it only calls.
\<close>

text \<open>
  Programs that find and run commands touch neither the line nor the world themselves. Whatever order on sessions the
  client's functions move along, which the steps that touch neither respect, they move along it.
\<close>

locale session_client = step_order R for R :: "'w sess \<Rightarrow> 'w sess \<Rightarrow> bool" +
  fixes K :: "'w client"
  assumes silent_R: "silent s t \<Longrightarrow> R s t"
    and command_R: "obeys R (on_command K f c argv argc)"
    and call_R: "obeys R (on_call K f)"
    and complete_R: "obeys R (on_complete K f c ws)"
begin

lemma silent_obeys: "obeys silent m \<Longrightarrow> obeys R m"
  by (auto simp: obeys_def intro: silent_R)

lemma option_R:
  "obeys R m \<Longrightarrow> (\<And>x. obeys R (f x)) \<Longrightarrow> obeys R (case z of None \<Rightarrow> m | Some x \<Rightarrow> f x)"
  by (cases z) auto

lemma sum_R:
  "(\<And>x. obeys R (f x)) \<Longrightarrow> (\<And>y. obeys R (g y)) \<Longrightarrow> obeys R (case z of Inl x \<Rightarrow> f x | Inr y \<Rightarrow> g y)"
  by (cases z) auto

lemma prod_R: "(\<And>x y. obeys R (f x y)) \<Longrightarrow> obeys R (case z of (x, y) \<Rightarrow> f x y)"
  by (cases z) auto

lemma handler_R:
  "(\<And>f. obeys R (g f)) \<Longrightarrow> obeys R m \<Longrightarrow> obeys R (case h of client_fun f \<Rightarrow> g f | _ \<Rightarrow> m)"
  by (cases h) auto

lemma upd_cli_R: "obeys R (upd_cli f)"
  by (intro silent_obeys silent_intro)

lemmas R_intro = order_intros if_obeys upd_cli_R option_R sum_R prod_R

lemma privilege_R: "obeys R (cli_set_privilege p)"
  by (intro silent_obeys silent_intro)

lemma hook_R: "obeys R m \<Longrightarrow> obeys R (set_hook K h c argv argc m)"
  unfolding set_hook_def by (intro R_intro command_R) (assumption | intro silent_obeys silent_intro)+

lemma quit_R: "obeys R (do_quit K c argv argc)"
  unfolding do_quit_def by (intro hook_R silent_obeys silent_intro)

lemma invoke_R: "obeys R (invoke K h c argv argc)"
proof (cases h)
  case cli_int_exit
  show ?thesis unfolding cli_int_exit invoke.simps do_exit_def
    by (intro hook_R R_intro quit_R) (intro silent_obeys silent_intro)+
next
  case cli_int_configure_terminal
  show ?thesis unfolding cli_int_configure_terminal invoke.simps do_configure_terminal_def
    by (intro R_intro call_R) (intro silent_obeys silent_intro)+
next
  case cli_int_idle_timeout
  show ?thesis unfolding cli_int_idle_timeout invoke.simps by (intro silent_obeys silent_intro)
qed (simp_all only: invoke.simps quit_R command_R, (intro hook_R silent_obeys silent_intro)+)

lemma run_checks_R: "obeys R (run_checks K par c h words sw n fs)"
  unfolding run_checks_def by (intro R_intro invoke_R) (intro silent_obeys silent_intro)+

lemma found_R: "obeys R sub \<Longrightarrow> obeys R (found K par c words sw n fs sub)"
  unfolding found_def by (intro R_intro run_checks_R) (assumption | intro silent_obeys silent_intro)+

lemma find_R_any:
  "K' = K \<Longrightarrow> obeys R (cli_find_command K' words fs par sw cs)"
  "K' = K \<Longrightarrow> (\<And>m. ac = Some m \<Longrightarrow> obeys R m) \<Longrightarrow> (\<And>m. aa = Some m \<Longrightarrow> obeys R m) \<Longrightarrow>
   obeys R (find_loop K' words fs par sw cs ac aa)"
proof (induction K' words fs par sw cs and K' words fs par sw cs ac aa rule: cli_find_command_find_loop.induct)
  case (1 K' words fs par sw cs)
  show ?case
    unfolding cli_find_command.simps
    by (intro R_intro) (use 1 in \<open>auto intro!: silent_obeys silent_intro split: list.split\<close>)
next
  case (2 K' words fs par sw ac aa)
  have conf: "obeys R (cli_set_configmode MODE_CONFIG None)" by (intro silent_obeys silent_intro)
  have inv: "obeys R (seqE (whenE (sw = 0)
      (cli_error (rx K') (''Invalid '' @ (if par = [] then ''command'' else ''argument'') @ '' '' @ [CHR 0x22] @ words ! sw @ [CHR 0x22])))
      (ret CLI_ERROR_ARG))" by (intro silent_obeys silent_intro)
  show ?case
    unfolding find_loop.simps no_match_def using 2 conf inv by (cases ac; cases aa) (auto intro: seqE_obeys)
next
  case (3 K' words fs par sw c cs ac aa)
  show ?case
  proof (rule obeysI)
    fix s :: "'w sess" and r t
    assume run: "find_loop K' words fs par sw (c # cs) ac aa s = (r, t)"
    have K: "K' = K" by (rule "3.prems"(1))
    let ?skip = "cl_privilege (cli s) < cmd_privilege c \<or> \<not> word_matches c (words ! sw)"
    let ?n = "case fs of f # _ \<Rightarrow> (if f = 0 then length words else f) | [] \<Rightarrow> length words"
    let ?hit = "found K' par c words sw ?n fs (cli_find_command K' words fs (c # par) (sw + 1) (children c))"
    let ?moved = "bindE (clif (\<lambda>s. s)) (\<lambda>s'. found K' par c words sw ?n fs
      (cli_find_command K' words fs (c # par) (sw + 1) (cli_build_shortest s' (children c))))"
    let ?loop = "find_loop K' words fs par sw cs"
    have run: "(if ?skip then ?loop ac aa
        else if cmd_mode c = cl_mode (cli s) \<or> cmd_mode c = MODE_ANY \<and> aa \<noteq> None then ?hit
        else if cl_mode (cli s) > MODE_CONFIG \<and> cmd_mode c = MODE_CONFIG then ?loop (Some ?moved) aa
        else if cmd_mode c = MODE_ANY then ?loop ac (Some ?hit)
        else ?loop ac aa) s = (r, t)"
      using run by (simp add: find_loop.simps clif_def Let_def cong: if_cong)
    show "R s t"
    proof (cases ?skip)
      case True
      have "obeys R (?loop ac aa)" by (rule "3.IH"(1) [OF True K "3.prems"(2,3)])
      then show ?thesis using run True by (auto dest: obeysD)
    next
      case False
      have hit: "obeys R ?hit"
        unfolding K by (rule found_R) (rule "3.IH"(2) [unfolded K, OF False refl refl])
      have moved: "obeys R ?moved"
        unfolding K by (intro R_intro, (intro silent_obeys silent_intro)[1], rule found_R, rule "3.IH"(3) [unfolded K, OF False refl refl refl])
      have "obeys R (?loop (Some ?moved) aa)"
        if "\<not> (cmd_mode c = cl_mode (cli s) \<or> cmd_mode c = MODE_ANY \<and> aa \<noteq> None)" "cl_mode (cli s) > MODE_CONFIG \<and> cmd_mode c = MODE_CONFIG"
        using "3.IH"(4) [OF False refl refl refl that K] moved "3.prems"(3) by blast
      moreover have "obeys R (?loop ac (Some ?hit))"
        if "\<not> (cmd_mode c = cl_mode (cli s) \<or> cmd_mode c = MODE_ANY \<and> aa \<noteq> None)" "\<not> (cl_mode (cli s) > MODE_CONFIG \<and> cmd_mode c = MODE_CONFIG)" "cmd_mode c = MODE_ANY"
        using "3.IH"(5) [OF False refl refl refl that K] hit "3.prems"(2) by blast
      moreover have "obeys R (?loop ac aa)"
        if "\<not> (cmd_mode c = cl_mode (cli s) \<or> cmd_mode c = MODE_ANY \<and> aa \<noteq> None)" "\<not> (cl_mode (cli s) > MODE_CONFIG \<and> cmd_mode c = MODE_CONFIG)" "cmd_mode c \<noteq> MODE_ANY"
        by (rule "3.IH"(6) [OF False refl refl refl that K "3.prems"(2,3)])
      ultimately show ?thesis using run False hit by (auto dest: obeysD split: if_split_asm)
    qed
  qed
qed

lemma run_command_R: "obeys R (cli_run_command K line)"
  unfolding cli_run_command_def Let_def
  by (intro R_intro find_R_any(1) refl) (intro silent_obeys silent_intro)+

lemma completions_R:
  "obeys R (cli_get_completions K line)" "obeys R (cli_get_request_completions K line)"
proof -
  have call: "obeys R (bindE (on_complete K f n ws) (\<lambda>us. ret ([], us)))" for f n ws
    by (intro R_intro complete_R)
  have err: "obeys R (seqE (cli_error X t) (ret z))" for X t and z :: "'b" by (intro silent_obeys silent_intro)
  show "obeys R (cli_get_completions K line)"
    unfolding cli_get_completions_def Let_def
    by (intro R_intro)
       (auto split: prod.split list.split option.split intro!: call err ret_obeys silent_obeys silent_basic)
  show "obeys R (cli_get_request_completions K line)"
    unfolding cli_get_request_completions_def by (intro R_intro complete_R) (intro silent_obeys silent_intro)+
qed

end

definition world_step :: "('w \<Rightarrow> 'w \<Rightarrow> bool) \<Rightarrow> 'w sess \<Rightarrow> 'w sess \<Rightarrow> bool" where
  "world_step R s t \<longleftrightarrow> R (cworld s) (cworld t)"

locale world_client = step_order R for R :: "'w \<Rightarrow> 'w \<Rightarrow> bool" +
  fixes K :: "'w client"
  assumes on_command_R: "obeys (world_step R) (on_command K f c argv argc)"
    and on_auth_R: "obeys (world_step R) (on_auth K f u p)"
    and on_enable_R: "obeys (world_step R) (on_enable K f p)"
    and on_call_R: "obeys (world_step R) (on_call K f)"
    and on_request_R: "obeys (world_step R) (on_request K f t)"
    and on_complete_R: "obeys (world_step R) (on_complete K f c ws)"
begin

sublocale ws: step_order "world_step R"
  by unfold_locales (auto simp: world_step_def intro: refl_R trans_R)

sublocale sc: session_client "world_step R" K
  by unfold_locales (auto simp: silent_def world_step_def intro: refl_R on_command_R on_call_R on_complete_R)

lemma quiet_ws: "obeys quiet_step m \<Longrightarrow> obeys (world_step R) m"
  by (auto simp: obeys_def quiet_step_def world_step_def refl_R)

lemmas ws_intro = ws.order_intros ws.if_obeys sc.upd_cli_R sc.option_R sc.sum_R sc.prod_R

lemma set_state_ws: "obeys (world_step R) (set_state st)"
  unfolding set_state_def by (rule sc.upd_cli_R)

lemma lines_ws:
  "obeys (world_step R) line_login" "obeys (world_step R) (line_password K)" "obeys (world_step R) (line_enable K)"
  "obeys (world_step R) (line_request K)" "obeys (world_step R) (line_command K)"
  unfolding line_login_def line_password_def line_enable_def line_request_def line_command_def access_denied_def Let_def
  by (intro ws_intro set_state_ws sc.privilege_R on_auth_R on_enable_R on_request_R sc.run_command_R;
      (intro quiet_ws quiet_intro)?)+

lemma line_done_ws: "obeys (world_step R) (line_done K after)"
proof -
  have again: "obeys (world_step R) (seqE (modify (\<lambda>s. s\<lparr>clock := after\<rparr>)) (seqE touch (ret False)))"
    by (intro quiet_ws quiet_intro)
  show ?thesis
    unfolding line_done_def Let_def
  proof (intro ws_intro)
    fix l st
    show "obeys (world_step R) (case st of
       STATE_LOGIN \<Rightarrow> if l = 0 then ret False else seqE line_login (seqE (modify (\<lambda>s. s\<lparr>clock := after\<rparr>)) (seqE touch (ret False)))
     | STATE_PASSWORD \<Rightarrow> seqE (line_password K) (seqE (modify (\<lambda>s. s\<lparr>clock := after\<rparr>)) (seqE touch (ret False)))
     | STATE_ENABLE_PASSWORD \<Rightarrow> seqE (line_enable K) (seqE (modify (\<lambda>s. s\<lparr>clock := after\<rparr>)) (seqE touch (ret False)))
     | STATE_REQUEST \<Rightarrow> bindE (line_request K) (\<lambda>r. if r = CLI_QUIT then ret True else seqE (modify (\<lambda>s. s\<lparr>clock := after\<rparr>)) (seqE touch (ret False)))
     | _ \<Rightarrow> if l = 0 then ret False
           else bindE (line_command K) (\<lambda>r. if r = CLI_QUIT then ret True else seqE (modify (\<lambda>s. s\<lparr>clock := after\<rparr>)) (seqE touch (ret False))))"
      by (cases st) (simp_all only: cli_state.case, (intro ws_intro lines_ws again)+)
  qed (intro quiet_ws quiet_intro)+
qed

lemma key_tab_ws: "obeys (world_step R) (key_tab K)"
  unfolding key_tab_def
  by (intro ws_intro sc.completions_R on_call_R) (intro quiet_ws quiet_intro)+

lemma key_abort_ws: "obeys (world_step R) (key_abort K)"
  unfolding key_abort_def by (intro ws_intro on_call_R) (intro quiet_ws quiet_intro)+

lemma key_ws: "obeys (world_step R) (key K c)"
  unfolding key_def go_on_def
  by (intro ws_intro key_tab_ws key_abort_ws) (intro quiet_ws quiet_intro)+

lemma idle_call_ws: "obeys (world_step R) (idle_call K)"
  unfolding idle_call_def
  by (intro ws_intro sc.handler_R on_call_R sc.invoke_R) (intro quiet_ws quiet_intro)+

lemma on_idle_ws: "obeys (world_step R) (on_idle K)"
  unfolding on_idle_def by (intro ws_intro idle_call_ws on_call_R) (intro quiet_ws quiet_intro)+

lemma handle_input_ws: "obeys (world_step R) (handle_input K i)"
  by (cases i; simp only: handle_input_def input.case)
     (intro ws_intro on_idle_ws key_ws quiet_ws quiet_intro)+

lemma cli_step_ws: "obeys (world_step R) (cli_step K e)"
proof -
  obtain i t1 t2 where e: "e = (i, t1, t2)" by (cases e)
  have cont: "obeys (world_step R) (seqE prompt (ret False))" by (intro quiet_ws quiet_intro)
  have brk: "obeys (world_step R) (bindE (line_done K t2) (\<lambda>end. if end then ret True
      else seqE new_line (seqE prompt (ret False))))"
    by (intro ws_intro line_done_ws) (intro quiet_ws quiet_intro)+
  have "obeys (world_step R) (case f of Continue \<Rightarrow> seqE prompt (ret False)
      | Break \<Rightarrow> bindE (line_done K t2) (\<lambda>end. if end then ret True else seqE new_line (seqE prompt (ret False))))" for f
    using cont brk by (cases f) simp_all
  moreover have "obeys (world_step R) (modify (\<lambda>s. s\<lparr>clock := t1\<rparr>))" by (intro quiet_ws quiet_intro)
  ultimately show ?thesis unfolding cli_step_def e prod.case by (intro ws_intro handle_input_ws)
qed

lemma cli_start_ws: "obeys (world_step R) (cli_start K)"
  unfolding cli_start_def rebuild_def
  by (intro ws_intro set_state_ws sc.privilege_R) (intro quiet_ws quiet_intro)+

lemma cli_finish_ws: "obeys (world_step R) cli_finish"
  unfolding cli_finish_def by (intro ws_intro) (intro quiet_ws quiet_intro)+

end

end
