(* ===== verification/SystemFacts.thy ===== *)
theory SystemFacts
  imports Sessions CliWorld StartUp
begin

text \<open>
  The whole daemon: its threads share one context, and each of their steps, whatever is typed at the
  terminals, written to the monitored files or answered by the system, keeps the display's slots
  consistent and the number of connections within the limit.
\<close>

section \<open>The order every step of a thread respects\<close>

definition daemon_step :: "world \<Rightarrow> world \<Rightarrow> bool" where
  "daemon_step w w' \<longleftrightarrow> display_kept w w' \<and> ctx_clients (ctx w') = ctx_clients (ctx w) \<and>
     ctx_max_cli (ctx w') = ctx_max_cli (ctx w) \<and> ctx_messages (ctx w') = ctx_messages (ctx w)"

lemma settings_fields:
  assumes "settings c' = settings c"
  shows "ctx_clients c' = ctx_clients c" "ctx_max_cli c' = ctx_max_cli c" "ctx_messages c' = ctx_messages c"
  using arg_cong [OF assms, of ctx_clients] arg_cong [OF assms, of ctx_max_cli] arg_cong [OF assms, of ctx_messages]
  by (simp_all add: settings_def)

lemma frame_daemon: "driver_frame w w' \<Longrightarrow> display_kept w w' \<Longrightarrow> daemon_step w w'"
  unfolding driver_frame_def daemon_step_def by (blast intro: settings_fields)

lemma same_ctx_daemon: "ctx w' = ctx w \<Longrightarrow> daemon_step w w'"
  by (simp add: daemon_step_def display_kept_def)

interpretation dstep: port_order daemon_step
proof
  show "daemon_step w w" for w by (simp add: same_ctx_daemon)
  show "daemon_step w1 w3" if "daemon_step w1 w2" "daemon_step w2 w3" for w1 w2 w3
    using that by (simp add: daemon_step_def display_kept_def)
  show "daemon_step w w'" if "conf w' = conf w" "io_mutex w' = io_mutex w" "ctx w' = (ctx w)\<lparr>ctx_sp := ctx_sp (ctx w')\<rparr>" for w w'
    using that by (intro frame_daemon frame.port_step disp.port_step)
qed

lemma set_slot_daemon: "length message \<le> 250 \<Longrightarrow> obeys daemon_step (set_slot pos message (message \<noteq> []))"
  using set_slot_frame [of pos message "message \<noteq> []"] set_slot_display [of message pos]
  by (auto simp: obeys_def intro: frame_daemon)

interpretation dx_daemon: iDriver daemon_step "Driver_Init sys" "Driver_Fini sys" "Driver_setMessage sys L" Driver_StartUp
  by unfold_locales (intro dstep.Init_R dstep.Fini_R dstep.StartUp_R dstep.setMessage_R set_slot_daemon; assumption)+

lemma drive_daemon: "obeys daemon_step (drive sys L pos t)"
  unfolding drive_def by (rule dx_daemon.show_message_R)

lemma upd_ctx_daemon:
  assumes "\<And>c. ctx_msgdisplay (f c) = ctx_msgdisplay c \<and> ctx_displayedmsgs (f c) = ctx_displayedmsgs c \<and>
    ctx_messages (f c) = ctx_messages c \<and> ctx_clients (f c) = ctx_clients c \<and> ctx_max_cli (f c) = ctx_max_cli c"
  shows "obeys daemon_step (upd_ctx f)"
  using assms by (simp add: obeys_def upd_ctx_def daemon_step_def display_kept_def display_ok_def)

lemma on_logs_daemon: "obeys daemon_step (on_logs m)"
  by (rule obeysI) (auto simp: on_logs_def intro: same_ctx_daemon split: prod.splits)

lemma locks_daemon: "obeys daemon_step io_lock" "obeys daemon_step io_unlock"
  by (auto simp: obeys_def io_lock_def io_unlock_def world_run intro: same_ctx_daemon)

lemma save_daemon: "obeys daemon_step (save L f)"
  by (auto simp: obeys_def save_def intro: same_ctx_daemon)

interpretation daemon_order: command_order daemon_step
  by unfold_locales (rule locks_daemon)+

section \<open>A session\<close>

lemma along_daemon: "obeys (world_along daemon_step) m \<Longrightarrow> obeys (world_step daemon_step) m"
  by (auto simp: obeys_def world_along_def world_step_def)

lemma command_daemon: "obeys (world_along daemon_step) (lmb_command sys L X f command argv argc)"
proof -
  have set: "obeys daemon_step (upd_ctx (\<lambda>c. c\<lparr>ctx_port := p\<rparr>))" "obeys daemon_step (upd_ctx (\<lambda>c. c\<lparr>ctx_startupmsg := (ctx_startupmsg c)(i := t)\<rparr>))"
    "obeys daemon_step (upd_ctx (\<lambda>c. c\<lparr>ctx_logpath := d\<rparr>))" "obeys daemon_step (upd_ctx (\<lambda>c. c\<lparr>ctx_monitorpath := d\<rparr>))" for p i t d
    by (rule upd_ctx_daemon, simp)+
  show ?thesis
    unfolding lmb_command_def
    by (intro daemon_order.along_intro daemon_order.shows_along daemon_order.display_along drive_daemon
        daemon_order.settings_along save_daemon dstep.say_R set)
qed

lemma idle_daemon: "obeys (world_step daemon_step) (on_call (lmb_client sys L X cr) f)"
  using idle_quiet [of sys L X cr f]
  by (auto simp: obeys_def quiet_step_def world_step_def intro: dstep.refl_R)

interpretation lmb_world: world_client daemon_step "lmb_client sys L X cr" for sys L X cr
proof
  show "obeys (world_step daemon_step) (on_call (lmb_client sys L X cr) f)" for f by (rule idle_daemon)
  show "obeys (world_step daemon_step) (on_command (lmb_client sys L X cr) f c argv argc)" for f c argv argc
    using along_daemon [OF command_daemon] by (simp add: lmb_client_def)
qed (simp_all add: lmb_client_def obeys_def world_step_def dstep.refl_R)

section \<open>Opening, running and closing a session\<close>

lemma quiet_daemon: "obeys quiet_step m \<Longrightarrow> obeys (world_step daemon_step) m"
  by (rule lmb_world.quiet_ws)

lemma on_world_daemon: "obeys daemon_step m \<Longrightarrow> obeys (world_step daemon_step) (on_world m)"
  by (rule along_daemon) (rule daemon_order.on_world_along)

lemma upd_cli_daemon: "obeys (world_step daemon_step) (upd_cli f)"
  by (simp add: obeys_def upd_cli_def world_step_def dstep.refl_R)

lemmas session_intro = lmb_world.ws.order_intros lmb_world.ws.if_obeys on_world_daemon upd_cli_daemon

lemma scoped_daemon: "obeys (world_step daemon_step) m \<Longrightarrow> obeys (world_step daemon_step) (scoped_lock m)"
  unfolding scoped_lock_def by (intro session_intro locks_daemon)

lemma reg_daemon: "obeys (world_step daemon_step) (cli_register_command p n h pr m t)" "obeys (world_step daemon_step) (reg p n h pr m t')"
  unfolding cli_register_command_def reg_def by (intro session_intro; simp add: quiet_clif quiet_daemon)+

lemma init_daemon: "obeys (world_step daemon_step) cli_init"
proof (rule obeysI)
  fix s :: "world sess" and r t
  assume run: "cli_init s = (r, t)"
  obtain u where "cli_init s = (Inr (), u)" and u: "u = s\<lparr>cli := cli u\<rparr>" using cli_init_run by blast
  then have "t = u" using run by simp
  moreover have "cworld u = cworld s" by (subst u) simp
  ultimately show "world_step daemon_step s t" by (simp add: world_step_def dstep.refl_R)
qed

lemma with_ctx_daemon: "(\<And>c. obeys (world_step daemon_step) (f c)) \<Longrightarrow> obeys (world_step daemon_step) (with_ctx f)"
  unfolding with_ctx_def by (intro session_intro dstep.ctxf_R)

lemma prepare_daemon: "obeys (world_step daemon_step) prepare_cli"
  unfolding prepare_cli_def set_group_def show_group_def cli_set_banner_def cli_set_hostname_def cli_telnet_protocol_def
    cli_allow_user_def cli_allow_enable_def cli_set_idle_timeout_callback_def cli_set_idle_timeout_def
  by (intro session_intro init_daemon reg_daemon scoped_daemon with_ctx_daemon dstep.say_R)

lemma open_session_daemon: "obeys (world_step daemon_step) (open_session S)"
  unfolding open_session_def su_client_def by (intro session_intro prepare_daemon lmb_world.cli_start_ws)

lemma session_event_daemon: "obeys (world_step daemon_step) (session_event S e)"
  unfolding session_event_def su_client_def finish_cli_def
  by (intro session_intro lmb_world.cli_step_ws lmb_world.cli_finish_ws dstep.say_R)

section \<open>The file monitor and the start-up\<close>

definition mon_step :: "monitor \<Rightarrow> monitor \<Rightarrow> bool" where
  "mon_step s t \<longleftrightarrow> daemon_step (mworld s) (mworld t)"

interpretation mons: step_order mon_step
  by unfold_locales (auto simp: mon_step_def intro: dstep.refl_R dstep.trans_R)

lemma in_world_mon: "obeys daemon_step m \<Longrightarrow> obeys mon_step (in_world m)"
  by (rule obeysI) (auto simp: in_world_def mon_step_def dest: obeysD split: prod.splits)

lemma own_mon: "(\<And>s. mworld (snd (m s)) = mworld s) \<Longrightarrow> obeys mon_step m"
  by (simp add: obeys_def mon_step_def dstep.refl_R)

lemmas mon_intro = mons.order_intros mons.if_obeys in_world_mon

lemma upd_mon: "obeys mon_step (upd_ino f)" "obeys mon_step clear_spool" "obeys mon_step (touch_file p)"
  "obeys mon_step (getNextEvent L ins)" "obeys mon_step (modify (\<lambda>s. s\<lparr>started := True\<rparr>))"
  "obeys mon_step (modify (\<lambda>s. s\<lparr>watched := ws s\<rparr>))"
  by (rule own_mon, simp add: upd_ino_def clear_spool_def touch_file_def getNextEvent_def split: prod.split)+

lemma locked_daemon: "obeys daemon_step m \<Longrightarrow> obeys daemon_step (locked m)"
  unfolding locked_def by (intro dstep.port_intros locks_daemon)

lemma monitor_round_mon: "obeys mon_step (monitor_round sys L ins)"
proof -
  have "obeys mon_step (case z of (e, ins') \<Rightarrow> bindE (file_text (ev_path e)) (\<lambda>message.
     seqE (in_world (say eInfo (''Message in Slot '' @ show_int (ev_wd e) @ '' was '' @ message)))
    (seqE (in_world (locked (drive sys L (ev_wd e) message))) (ret ins'))))" for z
    unfolding file_text_def by (cases z, simp only: prod.case) (intro mon_intro locked_daemon drive_daemon dstep.say_R)
  then show ?thesis unfolding monitor_round_def by (intro mon_intro upd_mon)
qed

lemma fails_mon: "obeys mon_step (fails K t e u)"
  unfolding fails_def by (intro mon_intro upd_mon)

lemma watchFile_mon: "obeys mon_step (watchFile K L p)"
proof -
  have tail: "obeys mon_step (case r of Inl err \<Rightarrow> fails K t err (g err) | Inr wd \<Rightarrow> seqE (whenE b (modify (\<lambda>s. s\<lparr>watched := watched s @ [p]\<rparr>))) (upd_ino (h wd)))" for r t g b h
    by (cases r) (auto intro!: mon_intro upd_mon fails_mon)
  have mid: "obeys mon_step (case z of (ignored, m) \<Rightarrow> seqE (upd_ino (\<lambda>_. m))
      (bindE (gets (\<lambda>s. if ignored then Inr 0 else k_add_watch K (watched s) p (mEventMask m))) (\<lambda>r.
       case r of Inl err \<Rightarrow> fails K ''Failed to watch! '' err (g err)
       | Inr wd \<Rightarrow> seqE (whenE (\<not> ignored) (modify (\<lambda>s. s\<lparr>watched := watched s @ [p]\<rparr>))) (upd_ino (h wd)))))" for z g h
    by (cases z, simp only: prod.case) (intro mon_intro upd_mon tail)
  show ?thesis
    unfolding watchFile_def exists_file_def by (intro mon_intro upd_mon mid)
qed

lemma create_files_mon: "obeys mon_step (create_files K L dir n i)"
  by (induction n arbitrary: i) (simp_all only: create_files.simps mon_intro upd_mon watchFile_mon dstep.say_R)

lemma FileMonitor_init_mon: "obeys mon_step (FileMonitor_init K L)"
  unfolding FileMonitor_init_def init_monitor_def Let_def
  by (intro mon_intro upd_mon create_files_mon dstep.say_R locks_daemon)

lemma load_daemon: "obeys daemon_step (load L f)"
proof -
  have set: "obeys daemon_step (set_option k v)" for k v
    unfolding set_option_def by (intro dstep.port_intros upd_ctx_daemon) simp
  have startup: "obeys daemon_step (load_startup tree n i)" for tree n i
    by (induction n arbitrary: i) (simp_all only: load_startup.simps, (intro dstep.port_intros upd_ctx_daemon, simp)+)
  have opt: "obeys daemon_step (case t of None \<Rightarrow> throw e | Some tree \<Rightarrow> ret tree)" for t :: "ptree option" and e
    by (cases t) (simp_all only: option.case dstep.port_intros)
  show ?thesis
    unfolding load_def load_paths_def load_log_def read_json_def Let_def
    by (intro dstep.port_intros set startup opt on_logs_daemon upd_ctx_daemon) simp_all
qed

lemma try_load_daemon: "obeys daemon_step (try_load L f)"
  by (rule obeysI) (auto simp: try_load_def dest: obeysD [OF load_daemon] split: prod.splits sum.splits if_splits)

lemma first_session_daemon: "obeys daemon_step (first_session sys)"
  unfolding first_session_def by (rule dx_daemon.start_driver_R)

lemma startup_messages_daemon: "obeys daemon_step (startup_messages sys L n i)"
  by (induction n arbitrary: i) (simp_all only: startup_messages.simps dstep.port_intros drive_daemon)

lemma serve_mon: "obeys mon_step (serve sys L K net junk)"
  unfolding serve_def listen_loop_def quits_def
  by (intro mon_intro dstep.port_intros on_logs_daemon first_session_daemon startup_messages_daemon FileMonitor_init_mon)

text \<open>The context is made during the start-up; from then on the order holds.\<close>

lemma main_start_world:
  assumes "main_start sys L K opts net garbage junk m0 = (Inr Listening, m)"
  obtains w where "ctx w = initial_ctx garbage" and "daemon_step w (mworld m)"
proof -
  let ?rest = "bindE (in_world (try_load L (config_path opts))) (\<lambda>ok. if ok then serve sys L K net junk else quits (- 1))"
  have rest: "obeys mon_step ?rest"
    unfolding quits_def by (intro mon_intro try_load_daemon serve_mon)
  obtain m1 m2 where made: "in_world (upd_ctx (\<lambda>_. initial_ctx garbage)) m1 = (Inr (), m2)" and run: "?rest m2 = (Inr Listening, m)"
    using assms unfolding main_start_def quits_def
    by (auto elim!: seqE_cases split: if_split_asm)
  have "ctx (mworld m2) = initial_ctx garbage" using made by (auto simp: in_world_def upd_ctx_def)
  with obeysD [OF rest run] show thesis by (intro that) (simp_all add: mon_step_def)
qed

section \<open>The system\<close>

definition sys_ok :: "system \<Rightarrow> bool" where
  "sys_ok s \<longleftrightarrow> display_ok (ctx (world_of s)) \<and> length (connections s) \<le> length (ctx_clients (ctx (world_of s))) \<and>
     length (ctx_clients (ctx (world_of s))) \<le> ctx_max_cli (ctx (world_of s))"

text \<open>What a step of the system keeps: the limits, and every connection it has ever counted.\<close>

definition sys_order :: "system \<Rightarrow> system \<Rightarrow> bool" where
  "sys_order s s' \<longleftrightarrow> prefix (ctx_clients (ctx (world_of s))) (ctx_clients (ctx (world_of s'))) \<and>
     ctx_max_cli (ctx (world_of s')) = ctx_max_cli (ctx (world_of s)) \<and>
     ctx_messages (ctx (world_of s')) = ctx_messages (ctx (world_of s)) \<and> (sys_ok s \<longrightarrow> sys_ok s')"

lemma world_of_put [simp]: "world_of (put_world w s) = w" "connections (put_world w s) = connections s"
  "crashed (put_world w s) = crashed s"
  by (simp_all add: world_of_def put_world_def)

lemma world_of_other [simp]: "world_of (s\<lparr>crashed := b\<rparr>) = world_of s" "world_of (s\<lparr>connections := cs\<rparr>) = world_of s"
  by (simp_all add: world_of_def)

lemma cworld_join [simp]: "cworld (join_session cn w) = w"
  by (simp add: join_session_def)

lemma sys_order_step:
  assumes "daemon_step (world_of s) (world_of s')" and "length (connections s') = length (connections s)"
  shows "sys_order s s'"
  using assms by (simp add: sys_order_def sys_ok_def daemon_step_def display_kept_def)

lemma sys_order_trans: "sys_order s t \<Longrightarrow> sys_order t u \<Longrightarrow> sys_order s u"
  by (auto simp: sys_order_def)

lemma accept_order: "sys_order s (accept_action S x t s)"
proof (cases "length (ctx_clients (ctx (world_of s))) < ctx_max_cli (ctx (world_of s))")
  case True
  let ?w = "world_of s"
  let ?w1 = "?w\<lparr>ctx := (ctx ?w)\<lparr>ctx_clients := ctx_clients (ctx ?w) @ [x]\<rparr>\<rparr>"
  obtain r u where run: "open_session S (join_session (fresh_connection t) ?w1) = (r, u)" by fastforce
  have w: "daemon_step ?w1 (cworld u)"
    using obeysD [OF open_session_daemon run] by (simp add: world_step_def)
  have d: "display_ok (ctx ?w1) = display_ok (ctx ?w)" by (simp add: display_ok_def)
  show ?thesis
    using True run w d
    by (cases r) (simp_all add: accept_action_def Let_def sys_order_def sys_ok_def daemon_step_def display_kept_def)
next
  case False
  obtain r w' where run: "say eWarning ''Dropping Client Connection as we are at our Max'' (world_of s) = (r, w')" by fastforce
  show ?thesis
    by (rule sys_order_step)
       (use False run obeysD [OF dstep.say_R run] in \<open>cases r; simp add: accept_action_def Let_def\<close>)+
qed

lemma session_order: "sys_order s (session_action S i e s)"
proof -
  obtain r u where run: "session_event S e (join_session (connections s ! i) (world_of s)) = (r, u)" by fastforce
  have w: "daemon_step (world_of s) (cworld u)"
    using obeysD [OF session_event_daemon run] by (simp add: world_step_def)
  show ?thesis
    by (rule sys_order_step) (use run w in \<open>auto simp: session_action_def split: sum.split exn.split\<close>)
qed

lemma wrote_order: "sys_order s (wrote_action S p t ins s)"
proof -
  let ?m = "(shared s)\<lparr>spool := (spool (shared s))(p \<mapsto> t)\<rparr>"
  obtain r m where run: "monitor_round (su_os S) (su_libs S) ins ?m = (r, m)" by fastforce
  have w: "daemon_step (world_of s) (mworld m)"
    using obeysD [OF monitor_round_mon run] by (simp add: mon_step_def world_of_def)
  show ?thesis
    by (rule sys_order_step) (use run w in \<open>auto simp: wrote_action_def world_of_def split: sum.split exn.split\<close>)
qed

lemma sys_step_order: "sys_step S a s s' \<Longrightarrow> sys_order s s'"
  by (auto elim!: sys_stepE intro: accept_order session_order wrote_order)

lemma run_order: "sys_run S as s s' \<Longrightarrow> sys_order s s'"
  by (induction rule: sys_run.induct) (auto simp: sys_order_def [of s s for s] intro: sys_order_trans sys_step_order)

text \<open>Once the limit is reached, no step adds a connection, and one that has ended stays as it is.\<close>

definition full :: "system \<Rightarrow> bool" where
  "full s \<longleftrightarrow> ctx_max_cli (ctx (world_of s)) \<le> length (ctx_clients (ctx (world_of s)))"

lemma full_step:
  assumes "sys_step S a s s'" and "full s"
  shows "length (connections s') = length (connections s) \<and>
    (\<forall>i < length (connections s). \<not> cn_open (connections s ! i) \<longrightarrow> connections s' ! i = connections s ! i)"
  using assms(1)
proof (cases rule: sys_step.cases)
  case (accept x t)
  then show ?thesis using assms(2) by (simp add: accept_action_def full_def split: prod.split sum.split)
next
  case (session i e)
  then show ?thesis by (auto simp: session_action_def nth_list_update split: prod.split sum.split exn.split)
next
  case (wrote p "txt" ins)
  then show ?thesis by (auto simp: wrote_action_def split: prod.split sum.split exn.split)
qed

lemma full_kept: "sys_step S a s s' \<Longrightarrow> full s \<Longrightarrow> full s'"
  using sys_step_order prefix_length_le unfolding full_def sys_order_def by (metis le_trans)

lemma full_run:
  assumes "sys_run S as s s'" and "full s"
  shows "length (connections s') = length (connections s) \<and>
    (\<forall>i < length (connections s). \<not> cn_open (connections s ! i) \<longrightarrow> connections s' ! i = connections s ! i)"
  using assms
proof (induction rule: sys_run.induct)
  case (go a s s1 as s2)
  then show ?case using full_step [OF go.hyps(1) go.prems] full_kept [OF go.hyps(1) go.prems] by (simp add: go.IH)
qed simp

section \<open>Callers that connect and hang up\<close>

text \<open>Nobody is connected, and there is room for \<open>n\<close> more.\<close>

definition idle_system :: "system \<Rightarrow> nat \<Rightarrow> bool" where
  "idle_system s n \<longleftrightarrow> \<not> crashed s \<and> \<not> io_mutex (world_of s) \<and> log_ok (logs (world_of s)) \<and>
     (\<forall>cn \<in> set (connections s). \<not> cn_open cn) \<and>
     length (ctx_clients (ctx (world_of s))) + n \<le> ctx_max_cli (ctx (world_of s))"

definition come_and_go :: "int \<Rightarrow> int \<Rightarrow> nat \<Rightarrow> nat \<Rightarrow> action list" where
  "come_and_go x t i n = concat (map (\<lambda>k. [Accept x t, Session k (Eof, t, t)]) [i..<i + n])"

lemma accept_run:
  assumes "length (ctx_clients (ctx (world_of s))) < ctx_max_cli (ctx (world_of s))" and "\<not> io_mutex (world_of s)" and "log_ok (logs (world_of s))"
  shows "\<exists>u l. accept_action S x t s = (put_world ((world_of s)\<lparr>ctx := (ctx (world_of s))\<lparr>ctx_clients := ctx_clients (ctx (world_of s)) @ [x]\<rparr>, logs := l\<rparr>) s)
      \<lparr>connections := connections s @ [split_session u True]\<rparr> \<and> log_ok l"
proof -
  let ?w = "(world_of s)\<lparr>ctx := (ctx (world_of s))\<lparr>ctx_clients := ctx_clients (ctx (world_of s)) @ [x]\<rparr>\<rparr>"
  let ?s0 = "join_session (fresh_connection t) ?w"
  have "log_ok (logs ?w)" using assms(3) by simp
  from say_ok [OF this] obtain l where l: "say eInfo ''accepted new CLI Connection'' (cworld ?s0) = (Inr (), ?w\<lparr>logs := l\<rparr>)" "log_ok l"
    unfolding cworld_join by blast
  have "\<not> io_mutex (cworld ?s0)" using assms(2) by simp
  from open_session_run [OF this l(1)] obtain u where "open_session S ?s0 = (Inr (), u)" "cworld u = ?w\<lparr>logs := l\<rparr>" by blast
  with assms(1) l(2) show ?thesis by (auto simp: accept_action_def Let_def)
qed

lemma eof_run:
  assumes "log_ok (logs (cworld s))"
  shows "\<exists>u l. session_event S (Eof, t1, t2) s = (Inr True, u) \<and> cworld u = (cworld s)\<lparr>logs := l\<rparr> \<and> log_ok l"
proof -
  obtain u where h: "handle_input (su_client S) Eof (s\<lparr>clock := t1\<rparr>) = (Inr Break, u)" and u: "len (edit u) = - 1" "cworld u = cworld s"
    by (simp add: handle_input_def hang_up_def touch_run upd_ed_run)
  have "line_done (su_client S) t2 u = (Inr True, u)" using u(1) by (simp add: line_done_def Let_def cli_run)
  then have step: "cli_step (su_client S) (Eof, t1, t2) s = (Inr True, u)"
    by (simp add: cli_step_def bindE_Inr [where m = "handle_input _ _", OF h] bindE_Inr [where m = "line_done _ _"])
  obtain v where v: "cli_finish u = (Inr (), v)" "cworld v = cworld s"
    using u by (simp add: cli_finish_def cli_free_history_def cli_run)
  obtain l where l: "say eInfo ''closed CLI Connection'' (cworld v) = (Inr (), (cworld v)\<lparr>logs := l\<rparr>)" "log_ok l"
    using say_ok assms v(2) by metis
  have "finish_cli v = (Inr (), v\<lparr>cworld := (cworld s)\<lparr>logs := l\<rparr>\<rparr>)"
    using l(1) v(2) by (simp add: finish_cli_def on_world_def)
  with step v(1) l(2) show ?thesis
    by (auto simp: session_event_def seqE_def bindE_def)
qed

lemma caller_run:
  assumes "x \<noteq> 0" and "idle_system s (Suc n)"
  shows "\<exists>s'. sys_run S [Accept x t, Session (length (connections s)) (Eof, t, t)] s s' \<and> idle_system s' n \<and>
    length (connections s') = Suc (length (connections s)) \<and>
    length (ctx_clients (ctx (world_of s'))) = Suc (length (ctx_clients (ctx (world_of s))))"
proof -
  note idle = assms(2) [unfolded idle_system_def]
  have "length (ctx_clients (ctx (world_of s))) < ctx_max_cli (ctx (world_of s))" using idle by simp
  from accept_run [OF this, of S x t] idle obtain u l where u: "accept_action S x t s = (put_world ((world_of s)\<lparr>ctx := (ctx (world_of s))\<lparr>ctx_clients :=
      ctx_clients (ctx (world_of s)) @ [x]\<rparr>, logs := l\<rparr>) s)\<lparr>connections := connections s @ [split_session u True]\<rparr>" "log_ok l" by blast
  let ?s1 = "accept_action S x t s"
  have 1: "sys_step S (Accept x t) s ?s1" using idle assms(1) by (intro sys_step.accept) simp_all
  let ?c = "join_session (connections ?s1 ! length (connections s)) (world_of ?s1)"
  have "log_ok (logs (cworld ?c))" by (simp add: u)
  from eof_run [OF this] obtain v l' where v: "session_event S (Eof, t, t) ?c = (Inr True, v)" "cworld v = (cworld ?c)\<lparr>logs := l'\<rparr>" "log_ok l'"
    by blast
  let ?s2 = "session_action S (length (connections s)) (Eof, t, t) ?s1"
  have s2: "?s2 = (put_world (cworld v) ?s1)\<lparr>connections := (connections ?s1)[length (connections s) := split_session v False]\<rparr>"
    using v(1) by (simp add: session_action_def)
  have 2: "sys_step S (Session (length (connections s)) (Eof, t, t)) ?s1 ?s2"
    using idle by (intro sys_step.session) (simp_all add: u split_session_def)
  have w2: "ctx (world_of ?s2) = (ctx (world_of s))\<lparr>ctx_clients := ctx_clients (ctx (world_of s)) @ [x]\<rparr>"
    "io_mutex (world_of ?s2) = io_mutex (world_of s)" "log_ok (logs (world_of ?s2))" and c2: "crashed ?s2 = crashed s"
    "connections ?s2 = connections s @ [split_session v False]"
    unfolding s2 using v by (simp_all add: u)
  have "sys_run S [Accept x t, Session (length (connections s)) (Eof, t, t)] s ?s2"
    by (rule sys_run.go [OF 1 sys_run.go [OF 2 sys_run.stop]])
  moreover have "idle_system ?s2 n"
    unfolding idle_system_def w2 c2 using idle w2(3) by (auto simp: split_session_def)
  ultimately show ?thesis
    by (intro exI [of _ ?s2]) (simp only: c2 w2, simp)
qed

lemma sys_run_append: "sys_run S as s t \<Longrightarrow> sys_run S bs t u \<Longrightarrow> sys_run S (as @ bs) s u"
  by (induction rule: sys_run.induct) (auto intro: sys_run.intros)

lemma come_and_go_run:
  assumes "x \<noteq> 0" and "idle_system s n"
  shows "\<exists>s'. sys_run S (come_and_go x t (length (connections s)) n) s s' \<and> idle_system s' 0 \<and>
    length (ctx_clients (ctx (world_of s'))) = length (ctx_clients (ctx (world_of s))) + n"
  using assms(2)
proof (induction n arbitrary: s)
  case 0
  then show ?case by (auto simp: come_and_go_def intro: sys_run.stop)
next
  case (Suc n)
  obtain s1 where s1: "sys_run S [Accept x t, Session (length (connections s)) (Eof, t, t)] s s1" "idle_system s1 n"
    "length (connections s1) = Suc (length (connections s))"
    "length (ctx_clients (ctx (world_of s1))) = Suc (length (ctx_clients (ctx (world_of s))))"
    using caller_run [OF assms(1) Suc.prems] by blast
  obtain s2 where s2: "sys_run S (come_and_go x t (Suc (length (connections s))) n) s1 s2" "idle_system s2 0"
    "length (ctx_clients (ctx (world_of s2))) = length (ctx_clients (ctx (world_of s1))) + n"
    using Suc.IH [OF s1(2)] s1(3) by auto
  have "come_and_go x t (length (connections s)) (Suc n) =
      [Accept x t, Session (length (connections s)) (Eof, t, t)] @ come_and_go x t (Suc (length (connections s))) n"
    by (simp add: come_and_go_def upt_conv_Cons del: upt_Suc)
  with sys_run_append [OF s1(1) s2(1)] s2 s1(4) show ?case by auto
qed

text \<open>The example, after its start.\<close>

lemma demo_idle_system:
  "\<exists>m. main_start demo_os rep_libs demo_kernel demo_options demo_network False 0 demo_process = (Inr Listening, m) \<and>
    (\<forall>n \<le> 5. idle_system \<lparr>shared = m, connections = [], crashed = False\<rparr> n) \<and>
    ctx_max_cli (ctx (mworld m)) = 5 \<and> ctx_clients (ctx (mworld m)) = []"
proof -
  obtain m where m: "main_start demo_os rep_libs demo_kernel demo_options demo_network False 0 demo_process = (Inr Listening, m)"
    "started_at (startup_shown (loaded rep_libs demo_tree (initial_ctx False)) 6) m"
    using main_start_run [OF demo_environment demo_start demo_config refl] by blast
  obtain w where w: "ctx w = initial_ctx False" "daemon_step w (mworld m)" using main_start_world [OF m(1)] .
  have c: "ctx_max_cli (ctx (mworld m)) = 5" "ctx_clients (ctx (mworld m)) = []"
    using w by (simp_all add: daemon_step_def initial_ctx_def)
  moreover have "idle_system \<lparr>shared = m, connections = [], crashed = False\<rparr> n" if "n \<le> 5" for n
    using m(2) that c by (simp add: idle_system_def started_at_def mon_ok_def world_of_def)
  ultimately show ?thesis using m(1) by blast
qed

section \<open>Properties\<close>

text \<open>
  C5: Whatever happens after the start, in any interleaving of connections, of anything typed at the
  terminals, of files written and of answers of the system, even a failing one: for every slot the bit of the display is set
  exactly when the slot has a message, no message is longer than 250 characters, the number of slots stays 6, and there are never more than
  5 connections.
\<close>

theorem daemon_invariant:
  assumes "main_start sys L K opts net garbage junk m0 = (Inr Listening, m)"
    and "sys_run S as \<lparr>shared = m, connections = [], crashed = False\<rparr> s"
  shows "display_ok (ctx (world_of s)) \<and> ctx_messages (ctx (world_of s)) = 6 \<and> ctx_max_cli (ctx (world_of s)) = 5 \<and>
    length (connections s) \<le> length (ctx_clients (ctx (world_of s))) \<and> length (ctx_clients (ctx (world_of s))) \<le> 5"
proof -
  let ?s0 = "\<lparr>shared = m, connections = [], crashed = False\<rparr>"
  obtain w where w: "ctx w = initial_ctx garbage" "daemon_step w (mworld m)" using main_start_world [OF assms(1)] .
  have "display_ok (initial_ctx garbage)" by (simp add: display_ok_def initial_ctx_def)
  then have "sys_ok ?s0" "ctx_messages (ctx (world_of ?s0)) = 6" "ctx_max_cli (ctx (world_of ?s0)) = 5"
    using w by (simp_all add: sys_ok_def daemon_step_def display_kept_def world_of_def initial_ctx_def)
  then show ?thesis using run_order [OF assms(2)] by (auto simp: sys_order_def sys_ok_def)
qed

theorem daemon_invariant_witness:
  "\<exists>m s. main_start demo_os rep_libs demo_kernel demo_options demo_network False 0 demo_process = (Inr Listening, m) \<and>
    sys_run demo_deps [Accept 9 0, Session 0 (Eof, 0, 0)] \<lparr>shared = m, connections = [], crashed = False\<rparr> s \<and>
    display_ok (ctx (world_of s)) \<and> length (connections s) \<le> length (ctx_clients (ctx (world_of s))) \<and> length (ctx_clients (ctx (world_of s))) \<le> 5"
proof -
  obtain m where m: "main_start demo_os rep_libs demo_kernel demo_options demo_network False 0 demo_process = (Inr Listening, m)"
    and s: "idle_system \<lparr>shared = m, connections = [], crashed = False\<rparr> 1"
    using demo_idle_system by force
  obtain s' where "sys_run demo_deps (come_and_go 9 0 0 1) \<lparr>shared = m, connections = [], crashed = False\<rparr> s'"
    using come_and_go_run [OF _ s, of 9] by auto
  then have run: "sys_run demo_deps [Accept 9 0, Session 0 (Eof, 0, 0)] \<lparr>shared = m, connections = [], crashed = False\<rparr> s'"
    by (simp add: come_and_go_def)
  with daemon_invariant [OF m run] m show ?thesis by blast
qed

text \<open>
  C33: The list of connections is never shortened. After as many callers as are allowed have connected and hung up, the
  daemon refuses every further connection for ever: whatever happens later, no connection is added and none of those that
  have ended runs again.
\<close>

theorem callers_exhaust_daemon:
  assumes "x \<noteq> 0" and "idle_system s n" and "ctx_max_cli (ctx (world_of s)) = length (ctx_clients (ctx (world_of s))) + n"
  shows "\<exists>s'. sys_run S (come_and_go x t (length (connections s)) n) s s' \<and> \<not> crashed s' \<and>
    (\<forall>cn \<in> set (connections s'). \<not> cn_open cn) \<and> (\<forall>as s''. sys_run S as s' s'' \<longrightarrow> connections s'' = connections s')"
proof -
  obtain s' where s': "sys_run S (come_and_go x t (length (connections s)) n) s s'" "idle_system s' 0"
    "length (ctx_clients (ctx (world_of s'))) = length (ctx_clients (ctx (world_of s))) + n"
    using come_and_go_run [OF assms(1,2)] by blast
  have full: "full s'" using run_order [OF s'(1)] s'(3) assms(3) by (simp add: full_def sys_order_def)
  have closed: "\<forall>cn \<in> set (connections s'). \<not> cn_open cn" and "\<not> crashed s'" using s'(2) by (simp_all add: idle_system_def)
  moreover have "connections s'' = connections s'" if "sys_run S as s' s''" for as s''
    using full_run [OF that full] closed by (auto intro: nth_equalityI)
  ultimately show ?thesis using s'(1) by blast
qed

theorem callers_exhaust_daemon_witness:
  "\<exists>m s. main_start demo_os rep_libs demo_kernel demo_options demo_network False 0 demo_process = (Inr Listening, m) \<and>
    sys_run demo_deps (come_and_go 9 7 0 5) \<lparr>shared = m, connections = [], crashed = False\<rparr> s \<and>
    (\<forall>as s'. sys_run demo_deps as s s' \<longrightarrow> connections s' = connections s)"
proof -
  obtain m where m: "main_start demo_os rep_libs demo_kernel demo_options demo_network False 0 demo_process = (Inr Listening, m)"
    and s: "idle_system \<lparr>shared = m, connections = [], crashed = False\<rparr> 5"
    "ctx_max_cli (ctx (mworld m)) = 5" "ctx_clients (ctx (mworld m)) = []"
    using demo_idle_system by force
  from callers_exhaust_daemon [OF _ s(1), of 9 demo_deps 7] s(2,3) m show ?thesis
    by (auto simp: world_of_def)
qed

end
