(* ===== verification/TypedMessage.thy ===== *)
theory TypedMessage
  imports Sessions MonitorFacts
begin

text \<open>
  From the keyboard to the display: a line of the terminal is split into words, the words find
  their command in the daemon's tree, and the command drives the display.
\<close>

section \<open>Splitting a line\<close>

text \<open>Characters a word is made of, and characters that may stand between double quotes.\<close>

definition word_char :: "char \<Rightarrow> bool" where
  "word_char c \<longleftrightarrow> \<not> is_space c \<and> c \<notin> {CHR ''|'', CHR 0x22, CHR 0x27}"

definition quoted_char :: "char \<Rightarrow> bool" where
  "quoted_char c \<longleftrightarrow> c \<noteq> CHR 0x22 \<and> c \<noteq> CHR 0x27"

lemma parse_word:
  "list_all word_char xs \<Longrightarrow> parse_loop (Suc n) None (Some w) (xs @ CHR '' '' # ys) = (w @ xs) # parse_loop n None None (CHR '' '' # ys)"
  by (induction xs arbitrary: w) (auto simp: word_char_def is_space_def)

lemma parse_start: "word_char c \<Longrightarrow> parse_loop (Suc n) None None (c # ys) = parse_loop (Suc n) None (Some [c]) ys"
  by (simp add: word_char_def)

lemma parse_blank: "parse_loop (Suc n) None None (CHR '' '' # ys) = parse_loop (Suc n) None None ys"
  by (simp add: is_space_def)

lemma parse_next:
  assumes "list_all word_char xs" and "xs \<noteq> []"
  shows "parse_loop (Suc n) None None (CHR '' '' # xs @ CHR '' '' # ys) = xs # parse_loop n None None (CHR '' '' # ys)"
proof -
  obtain c cs where xs: "xs = c # cs" using assms(2) by (cases xs) auto
  show ?thesis using assms(1) parse_word [of cs n "[c]" ys] unfolding xs by (simp add: parse_blank parse_start del: parse_loop.simps)
qed

lemma parse_quoted: "list_all quoted_char xs \<Longrightarrow> parse_loop (Suc n) (Some (CHR 0x22)) (Some w) (xs @ [CHR 0x22]) = [w @ xs]"
  by (induction xs arbitrary: w) (cases n; auto simp: quoted_char_def)+

lemma parse_last_quoted:
  assumes "list_all quoted_char xs"
  shows "parse_loop (Suc n) None None (CHR '' '' # CHR 0x22 # xs @ [CHR 0x22]) = [xs]"
proof -
  have "parse_loop (Suc n) None None (CHR 0x22 # xs @ [CHR 0x22]) = parse_loop (Suc n) (Some (CHR 0x22)) (Some []) (xs @ [CHR 0x22])"
    by (simp add: is_space_def)
  with parse_quoted [OF assms, of n "[]"] show ?thesis by (simp only: parse_blank append_Nil)
qed

lemma parse_three:
  assumes "list_all word_char w1" and "w1 \<noteq> []" and "list_all word_char w2" and "w2 \<noteq> []" and "list_all quoted_char m" and "4 < n"
  shows "cli_parse_line (w1 @ '' '' @ w2 @ '' '' @ [CHR 0x22] @ m @ [CHR 0x22]) n = [w1, w2, m]"
proof -
  have n: "n - 1 = Suc (Suc (Suc (n - 4)))" using assms(6) by simp
  have "\<not> is_space (hd w1)" using assms(1,2) by (cases w1) (auto simp: word_char_def)
  then have d: "dropWhile is_space (w1 @ ys) = w1 @ ys" for ys using assms(2) by (cases w1) auto
  show ?thesis
    unfolding cli_parse_line_def d Let_def n
    using assms(2) parse_word [OF assms(1), of "Suc (Suc (n - 4))" "[]"] parse_next [OF assms(3,4), of "Suc (n - 4)"] parse_last_quoted [OF assms(5), of "n - 4"]
    by (simp del: parse_loop.simps)
qed

section \<open>Finding the command\<close>

lemma names_of_skeleton: "map cmd_name (map skeleton cs) = map cmd_name cs"
proof -
  have "cmd_name (skeleton c) = cmd_name c" for c by (cases c) simp
  then show ?thesis by simp
qed

lemma find_skips:
  assumes "\<And>c. c \<in> set cs1 \<Longrightarrow> \<not> word_matches c (words ! sw)"
  shows "find_loop K words fs par sw (cs1 @ cs2) None None s = find_loop K words fs par sw cs2 None None s"
  using assms by (induction cs1) (simp_all add: find_loop.simps clif_def)

lemma find_hits:
  assumes "cl_mode (cli s) = 0" and "0 \<le> cl_privilege (cli s)" and "word_matches (Command n (Some h) u t 0 0 cb []) (words ! sw)"
  shows "find_loop K words [] par sw (Command n (Some h) u t 0 0 cb [] # cs2) None None s =
    run_checks K par (Command n (Some h) u t 0 0 cb []) h words sw (length words) [] s"
  using assms by (simp add: find_loop.simps clif_def found_def Let_def)

lemma other_word: "map lower (take (length w) (cmd_name c)) \<noteq> map lower w \<Longrightarrow> \<not> word_matches c w"
  by (simp add: word_matches_def strncasecmp_eq_def)

text \<open>The whole name of a command finds it, whatever its shortest prefix is.\<close>

lemma own_word: "word_matches (Command n h u t p m cb ch) n"
  by (simp add: word_matches_def strncasecmp_eq_def)

lemma end_filters_run: "\<exists>x. end_filters fs s = (Inr (), s\<lparr>screen := screen s @ x\<rparr>)"
proof (induction fs arbitrary: s)
  case Nil
  show ?case by (auto intro: exI [of _ "[]"])
next
  case (Cons f fs)
  have "\<exists>x. (case f of Count n \<Rightarrow> fprintf_client (show_nat n @ crlf) | _ \<Rightarrow> ret ()) s = (Inr (), s\<lparr>screen := screen s @ x\<rparr>)"
    by (cases f; cases "cl_client (cli s)") (auto simp: fprintf_client_def cli_run intro: exI [of _ "[]"])
  then obtain x where x: "(case f of Count n \<Rightarrow> fprintf_client (show_nat n @ crlf) | _ \<Rightarrow> ret ()) s = (Inr (), s\<lparr>screen := screen s @ x\<rparr>)" by blast
  obtain y where "end_filters fs (s\<lparr>screen := screen s @ x\<rparr>) = (Inr (), s\<lparr>screen := screen s @ x @ y\<rparr>)"
    using Cons.IH [of "s\<lparr>screen := screen s @ x\<rparr>"] by auto
  then show ?case
    by (intro exI [of _ "x @ y"]) (simp only: end_filters.simps seqE_Inr [where m = "case_filter_state _ _ _ _ _", OF x])
qed

lemma clean_filters_run: "\<exists>x. clean_filters s = (Inr (), s\<lparr>screen := screen s @ x, cli := (cli s)\<lparr>cl_filters := []\<rparr>\<rparr>)"
proof -
  obtain x where "end_filters (cl_filters (cli s)) s = (Inr (), s\<lparr>screen := screen s @ x\<rparr>)" using end_filters_run by blast
  then show ?thesis
    by (intro exI [of _ x]) (simp add: clean_filters_def bindE_clif seqE_Inr [where m = "end_filters _"] upd_cli_run)
qed

text \<open>A command without filters that succeeds.\<close>

lemma run_checks_run:
  assumes "invoke K h (cli_command_name par c) (drop (Suc sw) words) (int (length words) - int sw - 1) s = (Inr CLI_OK, t)"
  shows "\<exists>x. run_checks K par c h words sw (length words) [] s = (Inr CLI_OK, t\<lparr>screen := screen t @ x, cli := (cli t)\<lparr>cl_filters := []\<rparr>\<rparr>)"
proof -
  obtain x where x: "clean_filters t = (Inr (), t\<lparr>screen := screen t @ x, cli := (cli t)\<lparr>cl_filters := []\<rparr>\<rparr>)" using clean_filters_run by blast
  show ?thesis
    by (intro exI [of _ x])
       (simp add: run_checks_def bindE_Inr [where m = "invoke _ _ _ _ _", OF assms] seqE_Inr [where m = clean_filters, OF x])
qed

section \<open>The command \<open>message\<close>\<close>

lemma message_splits:
  assumes "map skeleton cs = lmb_tree"
  obtains cs1 u cs2 where "cs = cs1 @ Command ''message'' (Some (client_fun ''cmd_message'')) u (Some ''Set a Message to be displayed'') 0 0 None [] # cs2"
    and "\<And>c. c \<in> set cs1 \<Longrightarrow> \<not> word_matches c ''message''"
proof -
  have tree: "lmb_tree = take 11 lmb_tree @ leaf ''message'' (client_fun ''cmd_message'') 0 0 ''Set a Message to be displayed'' # drop 12 lmb_tree"
    by (simp add: lmb_tree_def lib_tree_def numeral_eq_Suc)
  obtain cs1 c cs2 where cs: "cs = cs1 @ c # cs2" and c1: "map skeleton cs1 = take 11 lmb_tree"
    and c: "skeleton c = leaf ''message'' (client_fun ''cmd_message'') 0 0 ''Set a Message to be displayed''"
    using assms by (subst (asm) tree) (auto simp: map_eq_append_conv map_eq_Cons_conv)
  have names: "cmd_name d \<in> {''help'', ''quit'', ''logout'', ''exit'', ''history'', ''enable'', ''disable'', ''configure'', ''set'', ''save'', ''show''}"
    if "d \<in> set cs1" for d
  proof -
    have "cmd_name d \<in> set (map cmd_name (map skeleton cs1))" using that unfolding names_of_skeleton by simp
    then show ?thesis unfolding c1 by (auto simp: lmb_tree_def lib_tree_def numeral_eq_Suc)
  qed
  have "\<not> word_matches d ''message''" if "d \<in> set cs1" for d
    using names [OF that] by (intro other_word) (auto simp: lower_def)
  moreover obtain u where "c = Command ''message'' (Some (client_fun ''cmd_message'')) u (Some ''Set a Message to be displayed'') 0 0 None []"
    using c by (cases c) auto
  ultimately show thesis using cs that by blast
qed

lemma scoped_on_world:
  assumes "locked m (cworld s) = (Inr (), w)"
  shows "scoped_lock (seqE (on_world m) (ret r)) s = (Inr r, s\<lparr>cworld := w\<rparr>)"
proof (cases "io_mutex (cworld s)")
  case True
  then show ?thesis using assms by (simp add: locked_def io_lock_def seqE_def bindE_def gets_def throw_def)
next
  case False
  obtain x w1 where w1: "m ((cworld s)\<lparr>io_mutex := True\<rparr>) = (Inr x, w1)" "w = w1\<lparr>io_mutex := False\<rparr>"
    using assms False by (auto simp: locked_def io_lock_def io_unlock_def finallyE_def seqE_def bindE_def gets_def throw_def modify_def split: prod.splits sum.splits if_splits)
  have "seqE (on_world m) (ret r) (s\<lparr>cworld := (cworld s)\<lparr>io_mutex := True\<rparr>\<rparr>) = (Inr r, s\<lparr>cworld := w1\<rparr>)"
    using w1(1) by (simp add: on_world_def seqE_def bindE_def)
  from scoped_run [where s = s and m = "seqE (on_world m) (ret r)", OF False this] w1(2) show ?thesis by simp
qed

lemma cmd_message_run:
  assumes "locked (drive sys L (int k) m) (cworld s) = (Inr (), w)" and "k < 2 ^ 31"
  shows "cmd_message sys L X [show_nat k, m] 2 s = (Inr CLI_OK, s\<lparr>cworld := w\<rparr>)"
  using scoped_on_world [OF assms(1)] by (simp add: cmd_message_def arg_def atoi_show_nat [OF assms(2)])

definition message_line :: "nat \<Rightarrow> string \<Rightarrow> string" where
  "message_line k m = ''message'' @ '' '' @ show_nat k @ '' '' @ [CHR 0x22] @ m @ [CHR 0x22]"

lemma digits_word: "list_all word_char (show_nat k)"
  unfolding list_all_iff
proof
  fix c
  assume "c \<in> set (show_nat k)"
  then obtain d where d: "d < 10" "c = digit_char d" using show_nat_digits by blast
  then have "(of_char c :: nat) = 48 + d" by simp
  then have "c \<noteq> CHR ''|''" "c \<noteq> CHR 0x22" "c \<noteq> CHR 0x27" using d(1) by (auto dest: arg_cong [of _ _ "of_char :: char \<Rightarrow> nat"])
  with digit_not_space [OF d(1)] d(2) show "word_char c" by (simp add: word_char_def)
qed

lemma message_line_words:
  assumes "list_all quoted_char m"
  shows "cli_parse_line (message_line k m) CLI_MAX_LINE_WORDS = [''message'', show_nat k, m]"
  unfolding message_line_def
  by (rule parse_three) (use digits_word assms in \<open>simp_all add: word_char_def is_space_def CLI_MAX_LINE_WORDS_def\<close>)

lemma message_positions:
  assumes "\<not> starts ''|'' m"
  shows "filter_positions [''message'', show_nat k, m] = []"
proof -
  obtain c cs where d: "show_nat k = c # cs" using show_nat_nonempty by (cases "show_nat k") auto
  then have "word_char c" using digits_word [of k] by simp
  then have "\<not> starts ''|'' (show_nat k)" by (simp add: starts_def d word_char_def)
  then show ?thesis using assms by (simp add: filter_positions_def starts_def upt_rec)
qed

lemma run_line_message:
  assumes tree: "map skeleton (cl_commands (cli s)) = lmb_tree" and mode: "cl_mode (cli s) = 0" "0 \<le> cl_privilege (cli s)"
    and m: "list_all quoted_char m" "\<not> starts ''|'' m"
    and w: "locked (drive (su_os S) (su_libs S) (int k) m) (cworld s) = (Inr (), w)" and k: "k < 2 ^ 31"
  shows "\<exists>x h. run_line (su_client S) (message_line k m) s =
    (Inr CLI_OK, s\<lparr>cworld := w, screen := x, cli := (cli s)\<lparr>cl_history := h, cl_filters := []\<rparr>\<rparr>)"
proof -
  let ?K = "su_client S" and ?ws = "[''message'', show_nat k, m]"
  let ?h = "add_history (message_line k m) (cl_history (cli s))"
  let ?s = "s\<lparr>cli := (cli s)\<lparr>cl_history := ?h\<rparr>\<rparr>"
  have "last (message_line k m) \<noteq> CHR ''?''" "\<not> strcasecmp_eq (message_line k m) ''history''"
    by (simp_all add: message_line_def strcasecmp_eq_def lower_def)
  then have hist: "run_line ?K (message_line k m) s = cli_run_command ?K (message_line k m) ?s"
    by (simp add: run_line_def cli_add_history_def upd_cli_run)
  obtain cs1 u cs2 where cs: "cl_commands (cli s) = cs1 @ Command ''message'' (Some (client_fun ''cmd_message'')) u (Some ''Set a Message to be displayed'') 0 0 None [] # cs2"
      (is "_ = cs1 @ ?c # cs2") and miss: "\<And>c. c \<in> set cs1 \<Longrightarrow> \<not> word_matches c ''message''"
    using message_splits [OF tree] by metis
  have w': "locked (drive (su_os S) (su_libs S) (int k) m) (cworld ?s) = (Inr (), w)" using w by simp
  have "invoke ?K (client_fun ''cmd_message'') (cli_command_name [] ?c) (drop (Suc 0) ?ws) (int (length ?ws) - int 0 - 1) ?s = (Inr CLI_OK, ?s\<lparr>cworld := w\<rparr>)"
    using cmd_message_run [OF w' k, of "su_regex S"] by (simp add: su_client_rx lmb_command_def)
  from run_checks_run [OF this] obtain x where x: "run_checks ?K [] ?c (client_fun ''cmd_message'') ?ws 0 (length ?ws) [] ?s =
      (Inr CLI_OK, ?s\<lparr>cworld := w, screen := x, cli := (cli ?s)\<lparr>cl_filters := []\<rparr>\<rparr>)" by auto
  have "find_loop ?K ?ws [] [] 0 (cs1 @ ?c # cs2) None None ?s = (Inr CLI_OK, ?s\<lparr>cworld := w, screen := x, cli := (cli ?s)\<lparr>cl_filters := []\<rparr>\<rparr>)"
    using x mode miss own_word find_hits [of ?s "''message''" "client_fun ''cmd_message''" u _ None ?ws 0 ?K "[]" cs2]
    by (subst find_skips) simp_all
  then have found: "cli_find_command ?K ?ws [] [] 0 (cl_commands (cli s)) ?s = (Inr CLI_OK, ?s\<lparr>cworld := w, screen := x, cli := (cli ?s)\<lparr>cl_filters := []\<rparr>\<rparr>)"
    unfolding cs by (subst cli_find_command.simps) simp
  have "dropWhile is_space (message_line k m) = message_line k m" by (simp add: message_line_def is_space_def)
  moreover have "message_line k m \<noteq> []" by (simp add: message_line_def)
  ultimately have "cli_run_command ?K (message_line k m) ?s = (Inr CLI_OK, ?s\<lparr>cworld := w, screen := x, cli := (cli ?s)\<lparr>cl_filters := []\<rparr>\<rparr>)"
    using found by (simp add: cli_run_command_def Let_def message_line_words [OF m(1)] message_positions [OF m(2)] bindE_clif bindE_Inr [where m = "cli_find_command _ _ _ _ _ _"]
      bindE_def clif_def)
  then show ?thesis unfolding hist by (auto intro: exI [of _ x] exI [of _ ?h])
qed

section \<open>Typing it\<close>

lemma after_line_run:
  assumes l: "at_line u (b, a)" and e: "edit s = edit u" and st: "cl_state (cli s) \<noteq> STATE_REQUEST"
  shows "\<exists>t. after_line t2 CLI_OK s = (Inr False, t) \<and> at_line t ([], []) \<and> cworld t = cworld s"
proof -
  let ?s = "s\<lparr>clock := t2, cli := (if cl_idle_timeout (cli s) = 0 then cli s else (cli s)\<lparr>cl_last_action := t2\<rparr>)\<rparr>"
  have "length (cmd (edit ?s)) = CLI_MAX_LINE_LENGTH" "\<not> oldcmd (edit ?s)" "is_telnet_option (edit ?s) = 0"
    "skip_bytes (edit ?s) = 0" "esc (edit ?s) = 0" "cl_state (cli ?s) \<noteq> STATE_REQUEST"
    using l e st holds_length [of "edit u" "(b, a)"] by (simp_all add: at_line_def)
  then obtain t where t: "seqE new_line (seqE prompt (ret False)) ?s = (Inr False, t)" "at_line t ([], [])" "typed ?s t"
    by (rule next_line)
  have "after_line t2 CLI_OK s = (Inr False, t)"
    using t(1) by (cases "cl_idle_timeout (cli s) = 0") (simp_all add: after_line_def touch_run)
  then show ?thesis using t(2,3) by (intro exI [of _ t]) (simp add: typed_def quiet_step_def)
qed

definition message_ok :: "string \<Rightarrow> bool" where
  "message_ok m \<longleftrightarrow> list_all (\<lambda>c. plain_key c \<and> quoted_char c \<and> c \<noteq> CHR ''?'') m \<and> \<not> starts ''|'' m \<and> length m \<le> 4000"

lemma message_line_keys:
  assumes "message_ok m" and "k \<le> 64"
  shows "list_all (\<lambda>c. plain_key c \<and> (c \<noteq> CHR ''?'' \<or> b)) (message_line k m)" and "length (message_line k m) + 2 < CLI_MAX_LINE_LENGTH"
proof -
  have digits: "plain_key c \<and> c \<noteq> CHR ''?''" if c: "c \<in> set (show_nat k)" for c
  proof -
    obtain d where d: "d < 10" "c = digit_char d" using show_nat_digits [OF c] by blast
    then have n: "(of_char c :: nat) = 48 + d" by simp
    then show ?thesis using d(1) by (auto simp: plain_key_def editing_key_def)
  qed
  have fixed: "list_all plain_key ''message''" "CHR ''?'' \<notin> set ''message''" "plain_key (CHR '' '')" "plain_key (CHR 0x22)"
    by (simp_all add: plain_key_def editing_key_def)
  have parts: "plain_key c \<and> c \<noteq> CHR ''?''" if "c \<in> set (message_line k m)" for c
    using that assms(1) digits fixed unfolding message_line_def message_ok_def list_all_iff set_append by fastforce
  show "list_all (\<lambda>c. plain_key c \<and> (c \<noteq> CHR ''?'' \<or> b)) (message_line k m)"
    unfolding list_all_iff using parts by blast
  have "length (show_nat k) \<le> 2"
  proof (cases "k < 10")
    case True
    then show ?thesis by (simp add: show_nat.simps [of k])
  next
    case False
    moreover have "k div 10 < 10" using assms(2) by simp
    ultimately show ?thesis by (simp add: show_nat.simps [of k] show_nat.simps [of "k div 10"])
  qed
  then show "length (message_line k m) + 2 < CLI_MAX_LINE_LENGTH"
    using assms(1) by (simp add: message_line_def message_ok_def CLI_MAX_LINE_LENGTH_def)
qed

lemma message_events:
  assumes l: "at_line s ([], [])" and st: "cl_state (cli s) = STATE_NORMAL \<or> cl_state (cli s) = STATE_ENABLE"
    and tree: "map skeleton (cl_commands (cli s)) = lmb_tree" and mode: "cl_mode (cli s) = 0" "0 \<le> cl_privilege (cli s)"
    and m: "message_ok m" and w: "locked (drive (su_os S) (su_libs S) (int k) m) (cworld s) = (Inr (), w)" and k: "k \<le> 64"
  shows "\<exists>t. cli_events (su_client S) (keys n (message_line k m @ [CHR 0x0D])) s = (Inr False, t) \<and> at_line t ([], []) \<and> cworld t = w"
proof -
  let ?K = "su_client S" and ?l = "message_line k m"
  have keys: "list_all (\<lambda>c. plain_key c \<and> (c \<noteq> CHR ''?'' \<or> secret (cli s))) ?l" "length ([] :: string) + length ?l + 2 < CLI_MAX_LINE_LENGTH"
    using message_line_keys [OF m k] by simp_all
  obtain s1 where s1: "cli_events ?K (keys n ?l) s = (Inr False, s1)" "at_line s1 (?l, [])" "typed s s1"
    using events_type [OF l keys] by auto
  have st1: "cl_state (cli s1) = STATE_NORMAL \<or> cl_state (cli s1) = STATE_ENABLE" using st s1(3) by (simp add: typed_def quiet_step_def)
  have ne: "?l @ [] \<noteq> []" by (simp add: message_line_def)
  obtain s2 where s2: "cli_step ?K (Byte (CHR 0x0D), n, n) s1 = bindE (run_line ?K (?l @ [])) (after_line n) s2" "typed s1 s2" "edit s2 = edit s1"
    by (rule enter_runs [OF s1(2) ne st1, of ?K n n])
  have t: "typed s s2" using s1(3) s2(2) by (rule typed.trans_R)
  have "map skeleton (cl_commands (cli s2)) = lmb_tree" "cl_mode (cli s2) = 0" "0 \<le> cl_privilege (cli s2)" "cworld s2 = cworld s"
    using t tree mode by (simp_all add: typed_def quiet_step_def static_def)
  moreover have "list_all quoted_char m" "\<not> starts ''|'' m" "k < 2 ^ 31" using m k by (auto simp: message_ok_def list_all_iff)
  ultimately obtain x h where r: "run_line ?K ?l s2 = (Inr CLI_OK, s2\<lparr>cworld := w, screen := x, cli := (cli s2)\<lparr>cl_history := h, cl_filters := []\<rparr>\<rparr>)"
      (is "_ = (_, ?s3)")
    using run_line_message [of s2 m S k w] w by auto
  have st2: "cl_state (cli ?s3) \<noteq> STATE_REQUEST" using t st by (auto simp: typed_def quiet_step_def)
  obtain t where t': "after_line n CLI_OK ?s3 = (Inr False, t)" "at_line t ([], [])" "cworld t = cworld ?s3"
    using after_line_run [OF s1(2) _ st2] s2(3) by auto
  have "cli_step ?K (Byte (CHR 0x0D), n, n) s1 = (Inr False, t)"
    using s2(1) t'(1) by (simp add: bindE_Inr [where m = "run_line _ _", OF r])
  then have "cli_events ?K (keys n (?l @ [CHR 0x0D])) s = (Inr False, t)"
    by (simp only: map_append events_append [OF s1(1)] list.map events_single)
  with t' show ?thesis by auto
qed

section \<open>Properties\<close>


definition show_deps :: deps where
  "show_deps = demo_deps\<lparr>su_libs := rep_libs\<rparr>"


end
