(* ===== verification/Unplugged.thy ===== *)
theory Unplugged
  imports MonitorFacts
begin

text \<open>
  The daemon without its serial port. The driver does not catch the exceptions of the serial library, and
  nobody above it does: one message for a port that cannot be opened ends the program with all its sessions.
\<close>

definition no_port :: "os \<Rightarrow> bool" where
  "no_port sys \<longleftrightarrow> 0 < patience sys \<and>
     (\<forall>t p. ret_val (answer sys t (Open p)) = - 1 \<and> err_no (answer sys t (Open p)) \<noteq> EINTR)"

definition fails_with_exception :: "('s, 'a) prog \<Rightarrow> 's \<Rightarrow> bool" where
  "fails_with_exception m s \<longleftrightarrow> (\<exists>e t. m s = (Inl e, t) \<and> unwinds e)"

lemma fails_bind: "fails_with_exception m s \<Longrightarrow> fails_with_exception (bindE m k) s"
  by (auto simp: fails_with_exception_def bindE_def)

lemma fails_seq: "fails_with_exception m s \<Longrightarrow> fails_with_exception (seqE m n) s"
  unfolding seqE_def by (rule fails_bind)

lemma fails_later: "m s = (Inr x, t) \<Longrightarrow> fails_with_exception (k x) t \<Longrightarrow> fails_with_exception (bindE m k) s"
  by (simp add: fails_with_exception_def bindE_Inr)

lemma open_fails:
  assumes "no_port sys" and "\<not> ser_is_open s" and "ser_port s \<noteq> []"
  shows "fails_with_exception (impl_open sys) (s, t)"
proof -
  obtain n where n: "patience sys = Suc n" using assms(1) by (cases "patience sys") (auto simp: no_port_def)
  have "ret_val (answer sys t (Open (ser_port s))) = - 1" "err_no (answer sys t (Open (ser_port s))) \<noteq> EINTR"
    using assms(1) unfolding no_port_def by blast+
  then show ?thesis
    using assms(2,3) by (simp add: fails_with_exception_def impl_open_def n fld_def call_def upd_def bindE_def seqE_def gets_def modify_def throw_def)
qed

lemma Init_fails:
  assumes "no_port sys" and "may_start (ctx w)"
  shows "fails_with_exception (Driver_Init sys) w"
proof (cases "ctx_sp (ctx w)")
  case None
  then have p: "ctx_port (ctx w) \<noteq> []" using assms(2) by (simp add: may_start_def)
  let ?w = "w\<lparr>driver_bound := True\<rparr>"
  let ?s = "new_impl (ctx_port (ctx w)) 38400 eightbits parity_none stopbits_one flowcontrol_none 0"
  have "fails_with_exception (impl_open sys) (?s, wtrace w)" by (rule open_fails [OF assms(1)]) (simp_all add: new_impl_def p)
  then have "fails_with_exception (new_serial sys (ctx_port (ctx w)) 38400 (simpleTimeout 10)) ?w"
    using p by (auto simp: fails_with_exception_def new_serial_def serial_ctor_def impl_ctor_def fld_def seqE_def bindE_def gets_def new_impl_def)
  then have "fails_with_exception (seqE (new_serial sys (ctx_port (ctx w)) 38400 (simpleTimeout 10)) (init_port sys)) ?w" by (rule fails_seq)
  then show ?thesis using None p by (simp add: Driver_Init_def fails_with_exception_def ctxf_def)
next
  case (Some s)
  then have s: "port_idle s" using assms(2) by (simp add: may_start_def)
  let ?w = "w\<lparr>driver_bound := True\<rparr>"
  have "fails_with_exception (serial_open sys) (s, wtrace w)"
    unfolding serial_open_def by (rule open_fails [OF assms(1)]) (use s in \<open>simp_all add: port_idle_def line_pars_def\<close>)
  then have "fails_with_exception (on_sp (serial_open sys)) ?w"
    using Some by (auto simp: fails_with_exception_def on_sp_def)
  moreover have "on_sp serial_isOpen ?w = (Inr False, ?w)"
    using Some s by (simp add: on_sp_def serial_isOpen_def impl_isOpen_def fld_def port_idle_def)
  ultimately have "fails_with_exception (init_port sys) ?w"
    unfolding init_port_def by (intro fails_later [where m = "on_sp serial_isOpen" and x = False] fails_seq) simp_all
  then show ?thesis using Some by (simp add: Driver_Init_def fails_with_exception_def ctxf_def)
qed

lemma locked_fails:
  assumes "no_port sys" and "may_start (ctx w)" and "\<not> io_mutex w"
  shows "fails_with_exception (locked (drive sys L pos m)) w"
proof -
  let ?w = "w\<lparr>io_mutex := True\<rparr>"
  have "fails_with_exception (drive sys L pos m) ?w"
    unfolding drive_def show_message_def by (rule fails_seq) (rule Init_fails, use assms in simp_all)
  then show ?thesis
    using assms(3) by (auto simp: fails_with_exception_def locked_def io_lock_def io_unlock_def finallyE_def seqE_def bindE_def gets_def modify_def)
qed

section \<open>Properties\<close>

text \<open>
  C36: When the serial port cannot be opened, the next file that is written ends the whole program: the driver's exception leaves
  the monitoring thread, and no thread makes a step after it. It does not matter which slot the file belongs to, what it holds, or how the system
  answers any other call.
\<close>

theorem unplugged_port_ends_daemon:
  assumes "no_port (su_os S)" and "may_start (ctx (world_of s))" and "log_ok (logs (world_of s))" and "\<not> io_mutex (world_of s)"
    and "plain_inotify (ino (shared s))" and "mLastEventTime (ino (shared s)) \<le> t" and "mEventQueue (ino (shared s)) = []"
    and "mDirectorieMap (ino (shared s)) k = file" and "file \<noteq> []" and "- (2 ^ 31) \<le> k" and "k < 2 ^ 31"
  shows "crashed (wrote_action S file text ((Inr (event_bytes (k, IN_CLOSE_WRITE, 0, [])), t) # ins) s) \<and>
    (\<forall>a s'. \<not> sys_step S a (wrote_action S file text ((Inr (event_bytes (k, IN_CLOSE_WRITE, 0, [])), t) # ins) s) s')"
proof -
  let ?sys = "su_os S" and ?L = "su_libs S" and ?bs = "event_bytes (k, IN_CLOSE_WRITE, 0, [])"
  let ?m = "(shared s)\<lparr>spool := (spool (shared s))(file \<mapsto> text)\<rparr>"
  let ?txt = "filter (\<lambda>c. c \<noteq> CHR 0x0A) text"
  have ino: "plain_inotify (ino ?m)" "mLastEventTime (ino ?m) \<le> t" "mEventQueue (ino ?m) = []" "mDirectorieMap (ino ?m) k = file"
    using assms(5-8) by simp_all
  from get_written [OF ino assms(9-11)] obtain msk where get: "getNextEvent ?L ((Inr ?bs, t) # ins) ?m =
      (Inr (new_event k msk file, ins), ?m\<lparr>ino := (ino ?m)\<lparr>mLastEventTime := t, mEventQueue := []\<rparr>\<rparr>)" (is "_ = (_, ?m1)")
    by blast
  obtain l where l: "say eInfo (''Message in Slot '' @ show_int k @ '' was '' @ ?txt) (world_of s) = (Inr (), (world_of s)\<lparr>logs := l\<rparr>)"
    using say_ok [OF assms(3)] by blast
  let ?w = "(world_of s)\<lparr>logs := l\<rparr>"
  have "fails_with_exception (locked (drive ?sys ?L k ?txt)) ?w" by (rule locked_fails) (use assms in simp_all)
  then obtain e w' where e: "locked (drive ?sys ?L k ?txt) ?w = (Inl e, w')" "unwinds e" by (auto simp: fails_with_exception_def)
  have "monitor_round ?sys ?L ((Inr ?bs, t) # ins) ?m = (Inl e, ?m1\<lparr>mworld := w'\<rparr>)"
    unfolding monitor_round_def bindE_Inr [where m = "getNextEvent _ _", OF get] prod.case
    using l e(1) by (simp add: file_text_def new_event_def in_world_def seqE_def bindE_def world_of_def)
  then have "crashed (wrote_action S file text ((Inr ?bs, t) # ins) s)"
    using e(2) by (cases e) (simp_all add: wrote_action_def)
  then show ?thesis by (auto elim: sys_stepE)
qed

definition unplugged_os :: os where
  "unplugged_os = demo_os\<lparr>answer := (\<lambda>t c. case c of Open p \<Rightarrow> quiet_reply\<lparr>ret_val := - 1, err_no := 6\<rparr> | _ \<Rightarrow> demo_answer t c)\<rparr>"

theorem unplugged_port_ends_daemon_witness:
  "\<exists>S s. no_port (su_os S) \<and> \<not> crashed s \<and> length (connections s) = 1 \<and>
    crashed (wrote_action S ''b'' ''HI'' [(Inr (event_bytes (2, IN_CLOSE_WRITE, 0, [])), 5)] s)"
proof -
  let ?S = "\<lparr>su_os = unplugged_os, su_libs = demo_libs, su_regex = undefined, su_crypt = undefined\<rparr>"
  let ?s = "\<lparr>shared = demo_process\<lparr>ino := watching\<rparr>, connections = [fresh_connection 0], crashed = False\<rparr>"
  have port: "no_port (su_os ?S)" by (simp add: no_port_def unplugged_os_def EINTR_def)
  have "may_start (ctx (world_of ?s))" "log_ok (logs (world_of ?s))" "\<not> io_mutex (world_of ?s)"
    "plain_inotify (ino (shared ?s))" "mLastEventTime (ino (shared ?s)) \<le> 5" "mEventQueue (ino (shared ?s)) = []"
    "mDirectorieMap (ino (shared ?s)) 2 = ''b''" "''b'' \<noteq> []" "- (2 ^ 31) \<le> (2 :: int)" "(2 :: int) < 2 ^ 31"
    by (simp_all add: plain_inotify_def watching_def new_inotify_def demo_process_def demo_world_def initial_ctx_def may_start_def
        demo_log_def log_ok_def world_of_def)
  from unplugged_port_ends_daemon [OF port this, of "''HI''" "[]"] port show ?thesis
    by (intro exI [of _ ?S] exI [of _ ?s]) simp
qed

end
