(* ===== verification/CommandLocks.thy ===== *)
theory CommandLocks
  imports TypedMessage
begin

text \<open>
  The mutex of the context. A command that has returned, or has thrown an exception, has released it: what
  a command does while it holds the mutex leaves the mutex alone.
\<close>

interpretation mutex_body: world_order mutex_kept
  by unfold_locales

text \<open>Started with the mutex free, the program ends with it free unless no destructor runs.\<close>

definition frees :: "'a cmdprog \<Rightarrow> bool" where
  "frees m \<longleftrightarrow> (\<forall>s r t. m s = (r, t) \<longrightarrow> \<not> io_mutex (cworld s) \<longrightarrow> (\<forall>e. r = Inl e \<longrightarrow> unwinds e) \<longrightarrow> \<not> io_mutex (cworld t))"

lemma freesI:
  "(\<And>s r t. m s = (r, t) \<Longrightarrow> \<not> io_mutex (cworld s) \<Longrightarrow> (\<And>e. r = Inl e \<Longrightarrow> unwinds e) \<Longrightarrow> \<not> io_mutex (cworld t)) \<Longrightarrow> frees m"
  by (auto simp: frees_def)

lemma frees_body: "obeys (world_along mutex_kept) m \<Longrightarrow> frees m"
  by (rule freesI) (auto dest!: obeysD simp: world_along_def mutex_kept_def)

lemma frees_bindE: "frees m \<Longrightarrow> (\<And>x. frees (k x)) \<Longrightarrow> frees (bindE m k)"
  unfolding frees_def by (blast elim: bindE_cases)

lemma frees_seqE: "frees m \<Longrightarrow> frees n \<Longrightarrow> frees (seqE m n)"
  unfolding seqE_def by (rule frees_bindE)

lemma frees_if: "frees m \<Longrightarrow> frees n \<Longrightarrow> frees (if b then m else n)"
  by simp

lemma frees_option: "frees m \<Longrightarrow> (\<And>x. frees (f x)) \<Longrightarrow> frees (case z of None \<Rightarrow> m | Some x \<Rightarrow> f x)"
  by (cases z) auto

lemma frees_scoped:
  assumes "obeys (world_along mutex_kept) m"
  shows "frees (scoped_lock m)"
proof (rule freesI)
  fix s r t
  assume run: "scoped_lock m s = (r, t)" and free: "\<not> io_mutex (cworld s)" and un: "\<And>e. r = Inl e \<Longrightarrow> unwinds e"
  obtain r' u where m: "m (s\<lparr>cworld := (cworld s)\<lparr>io_mutex := True\<rparr>\<rparr>) = (r', u)" by fastforce
  show "\<not> io_mutex (cworld t)"
    using run free un m
    by (cases r') (auto simp: scoped_lock_def seqE_def bindE_def on_world_def io_lock_def io_unlock_def finallyE_def gets_def modify_def split: if_splits)
qed

lemmas frees_intro = frees_if frees_option frees_scoped frees_bindE frees_seqE
lemmas free_body = mutex_body.body_along

lemma save_mutex: "obeys mutex_kept (save L f)"
  by (auto simp: obeys_def save_def mutex_kept_def)

lemma upd_ctx_mutex: "obeys mutex_kept (upd_ctx f)"
  by (simp add: obeys_def upd_ctx_def mutex_kept_def)

lemma shows_frees:
  "frees (cmd_show_ports L X command argv argc)" "frees (cmd_show_port X)" "frees (cmd_show_messages X)"
  "frees (cmd_show_startupmsgs X)" "frees (cmd_show_logfiledir X)" "frees (cmd_show_monitorpath X)"
  unfolding cmd_show_port_def cmd_show_messages_def cmd_show_startupmsgs_def cmd_show_logfiledir_def cmd_show_monitorpath_def
  by (rule frees_body, unfold cmd_show_ports_def, intro free_body) (rule frees_scoped, intro free_body)+

lemma sets_frees:
  "frees cmd_set" "frees (cmd_save L X)" "frees (cmd_set_port L X argv)" "frees (cmd_set_startupmsg X argv argc)"
  "frees (cmd_set_logfiledir L X argv argc)" "frees (cmd_set_monitorpath L X argv argc)"
  "frees (cmd_message sys L X argv argc)" "frees (cmd_clear sys L X argv argc)"
proof -
  note body = free_body save_mutex upd_ctx_mutex mutex.say_R drive_mutex
  note quick = frees_body [OF mutex_body.answer_along] frees_body [OF mutex_body.arg_along] frees_body [OF mutex_body.print_along]
    frees_body [OF mutex_body.port_list_along]
  show "frees cmd_set" unfolding cmd_set_def by (rule frees_body, intro free_body)
  show "frees (cmd_save L X)" unfolding cmd_save_def by (rule frees_scoped, intro body)
  show "frees (cmd_set_port L X argv)"
    unfolding cmd_set_port_def by (intro frees_intro quick body)
  show "frees (cmd_set_startupmsg X argv argc)" unfolding cmd_set_startupmsg_def by (intro frees_intro quick body)
  show "frees (cmd_set_logfiledir L X argv argc)" "frees (cmd_set_monitorpath L X argv argc)"
    unfolding cmd_set_logfiledir_def cmd_set_monitorpath_def set_directory_def by (intro frees_intro quick body)+
  show "frees (cmd_message sys L X argv argc)" "frees (cmd_clear sys L X argv argc)"
    unfolding cmd_message_def cmd_clear_def by (intro frees_intro quick body)+
qed

lemma command_frees: "frees (lmb_command sys L X f command argv argc)"
proof -
  have "frees (throw (Undefined ''unknown function'') :: int cmdprog)" by (rule frees_body, intro free_body)
  then show ?thesis unfolding lmb_command_def by (intro frees_if shows_frees sets_frees)
qed

text \<open>
  C21: A command started with the context's mutex free leaves it free, whatever it returns, whatever exception it
  throws, and whatever its arguments are: only a command that ends the program, reaches undefined behaviour or never returns
  keeps it.
\<close>

theorem command_releases_mutex:
  assumes "lmb_command sys L X f command argv argc s = (r, t)" and "\<not> io_mutex (cworld s)"
    and "\<forall>e. r = Inl e \<longrightarrow> unwinds e"
  shows "\<not> io_mutex (cworld t)"
  using command_frees [of sys L X f command argv argc] assms by (simp add: frees_def)

theorem command_releases_mutex_witness:
  "\<exists>t. lmb_command demo_os rep_libs (su_regex demo_deps) ''cmd_message'' ''message 2 HI'' [''2'', ''HI''] 2 demo_session = (Inr CLI_OK, t) \<and>
    ctx_displayedmsgs (ctx (cworld t)) 2 = ''HI'' \<and> \<not> io_mutex (cworld t)"
proof -
  have sys: "works demo_os" "replaces_all (replace_all rep_libs)"
    using demo_works rep2_replaces_all by (simp_all add: rep_libs_def)
  have log: "log_ok (logs (cworld demo_session))" by (simp add: demo_session_def demo_world_def demo_log_def log_ok_def join_session_def)
  have disp: "(1 :: int) \<le> int 2" "int 2 \<le> int (ctx_messages (ctx (cworld demo_session)))"
    "length (ctx_msgdisplay (ctx (cworld demo_session))) = ctx_messages (ctx (cworld demo_session))"
    "ctx_messages (ctx (cworld demo_session)) \<le> 64" "may_start (ctx (cworld demo_session))"
    by (simp_all add: demo_log_ok(3) demo_ctx_def initial_ctx_def may_start_def)
  obtain w where w: "locked (drive demo_os rep_libs (int 2) ''HI'') (cworld demo_session) = (Inr (), w)" "ctx_displayedmsgs (ctx w) 2 = ''HI''"
    using drive_locked [OF sys disp log demo_log_ok(2), of "''HI''"] by (auto simp: displays_def)
  let ?t = "demo_session\<lparr>cworld := w\<rparr>"
  have two: "show_nat 2 = ''2''" by code_simp
  have run: "lmb_command demo_os rep_libs (su_regex demo_deps) ''cmd_message'' ''message 2 HI'' [''2'', ''HI''] 2 demo_session = (Inr CLI_OK, ?t)"
    using cmd_message_run [OF w(1), of "su_regex demo_deps"] two by (simp add: lmb_command_def)
  then have "\<not> io_mutex (cworld ?t)" by (rule command_releases_mutex [OF _ demo_log_ok(2)]) simp
  with run w(2) show ?thesis by (intro exI [of _ ?t]) simp
qed

end
