(* ===== verification/SharedPtr.thy ===== *)
theory SharedPtr
  imports Prelude
begin

text \<open>
  The smart pointer of the logging library (\<^verbatim>\<open>shared_ptr.hpp\<close>), the one it falls back on where the compiler
  has none: its members and operations on an explicit store of pointers, counters and managed objects. The operator that
  allocates a counter is a parameter. The managed objects own no shared pointers themselves, as is the
  case in the library, and a cast of a pointer points to the same object.

  The operations are shown to implement plain ownership: which pointer points to which object, every object
  alive as long as a pointer to it lives and destroyed exactly once, when the last of them goes.
\<close>

section \<open>The store\<close>

text \<open>
  A live \<open>shared_ptr\<close> has its members \<open>px\<close> and \<open>pn\<close>. A counter is a \<open>long\<close>, whose overflow is undefined. A null pointer is \<open>None\<close>.
\<close>

type_synonym members = "nat option \<times> nat option"

record sp_heap =
  handles :: "nat \<rightharpoonup> members"
  counters :: "nat \<rightharpoonup> int"
  objects :: "nat set"

type_synonym 'a sp_prog = "(sp_heap, 'a) prog"

type_synonym allocator = "sp_heap \<Rightarrow> nat option"

definition members_of :: "nat \<Rightarrow> members sp_prog" where
  "members_of h = (\<lambda>s. case handles s h of None \<Rightarrow> (Inl (Undefined ''dead shared_ptr''), s) | Some m \<Rightarrow> (Inr m, s))"

definition put_members :: "nat \<Rightarrow> members \<Rightarrow> unit sp_prog" where
  "put_members h m = modify (\<lambda>s. s\<lparr>handles := (handles s)(h \<mapsto> m)\<rparr>)"

definition read_count :: "nat \<Rightarrow> int sp_prog" where
  "read_count n = (\<lambda>s. case counters s n of None \<Rightarrow> (Inl (Undefined ''freed counter''), s) | Some k \<Rightarrow> (Inr k, s))"

definition write_count :: "nat \<Rightarrow> int \<Rightarrow> unit sp_prog" where
  "write_count n k =
     (if - (2 ^ 63) \<le> k \<and> k < 2 ^ 63 then modify (\<lambda>s. s\<lparr>counters := (counters s)(n \<mapsto> k)\<rparr>)
      else throw (Undefined ''long overflow''))"

definition delete_count :: "nat \<Rightarrow> unit sp_prog" where
  "delete_count n = (\<lambda>s. if n \<in> dom (counters s) then (Inr (), s\<lparr>counters := (counters s)(n := None)\<rparr>)
     else (Inl (Undefined ''double free''), s))"

definition delete_object :: "nat option \<Rightarrow> unit sp_prog" where
  "delete_object p = (case p of None \<Rightarrow> ret ()
     | Some ob \<Rightarrow> (\<lambda>s. if ob \<in> objects s then (Inr (), s\<lparr>objects := objects s - {ob}\<rparr>)
                     else (Inl (Undefined ''double free''), s)))"

definition new_count :: "allocator \<Rightarrow> nat sp_prog" where
  "new_count A = (\<lambda>s. case A s of None \<Rightarrow> (Inl BadAlloc, s)
     | Some n \<Rightarrow> (Inr n, s\<lparr>counters := (counters s)(n \<mapsto> 1)\<rparr>))"

text \<open>A failed \<open>assert\<close> aborts. An exception that leaves a function declared \<open>throw()\<close> ends the program.\<close>

definition shared_assert :: "bool \<Rightarrow> unit sp_prog" where
  "shared_assert b = (if b then ret () else throw Terminate)"

definition no_throw :: "'a sp_prog \<Rightarrow> 'a sp_prog" where
  "no_throw m = (\<lambda>s. case m s of (Inl e, t) \<Rightarrow> (Inl (if unwinds e then Terminate else e), t) | (Inr x, t) \<Rightarrow> (Inr x, t))"

section \<open>The class\<close>

text \<open>\<open>acquire\<close> and \<open>release\<close> take the members they work on and return what they leave in them.\<close>

definition acquire :: "allocator \<Rightarrow> nat option \<Rightarrow> nat option \<Rightarrow> members sp_prog" where
  "acquire A pn p = (case p of
       None \<Rightarrow> ret (None, pn)
     | Some ob \<Rightarrow> (case pn of
         None \<Rightarrow> (\<lambda>s. case new_count A s of
             (Inl e, t) \<Rightarrow> seqE (delete_object p) (throw e) t
           | (Inr n, t) \<Rightarrow> (Inr (p, Some n), t))
       | Some n \<Rightarrow> bindE (read_count n) (\<lambda>k. seqE (write_count n (k + 1)) (ret (p, pn)))))"

definition release :: "members \<Rightarrow> members sp_prog" where
  "release m = (case snd m of
       None \<Rightarrow> ret m
     | Some n \<Rightarrow>
         bindE (read_count n) (\<lambda>k.
         seqE (write_count n (k - 1))
        (bindE (read_count n) (\<lambda>l.
         seqE (whenE (l = 0) (seqE (delete_object (fst m)) (delete_count n)))
         (ret (None, None))))))"

definition sp_default :: "nat \<Rightarrow> unit sp_prog" where
  "sp_default h = put_members h (None, None)"

definition sp_manage :: "allocator \<Rightarrow> nat \<Rightarrow> nat option \<Rightarrow> unit sp_prog" where
  "sp_manage A h p = bindE (acquire A None p) (put_members h)"

definition sp_share :: "allocator \<Rightarrow> nat \<Rightarrow> nat \<Rightarrow> nat option \<Rightarrow> unit sp_prog" where
  "sp_share A h g p = bindE (members_of g) (\<lambda>m. bindE (acquire A (snd m) p) (put_members h))"

text \<open>The copy constructor and the one that converts have the same text.\<close>

definition sp_copy :: "allocator \<Rightarrow> nat \<Rightarrow> nat \<Rightarrow> unit sp_prog" where
  "sp_copy A h g = no_throw (bindE (members_of g) (\<lambda>m.
     seqE (shared_assert (fst m = None \<or> snd m \<noteq> None)) (bindE (acquire A (snd m) (fst m)) (put_members h))))"

definition sp_swap :: "nat \<Rightarrow> nat \<Rightarrow> unit sp_prog" where
  "sp_swap h g = bindE (members_of h) (\<lambda>m. bindE (members_of g) (\<lambda>l. seqE (put_members h l) (put_members g m)))"

definition sp_destroy :: "nat \<Rightarrow> unit sp_prog" where
  "sp_destroy h = bindE (members_of h) (\<lambda>m.
     seqE (release m) (modify (\<lambda>s. s\<lparr>handles := (handles s)(h := None)\<rparr>)))"

text \<open>The argument is a copy, at the address \<open>tmp\<close>, and is destroyed at the end of the call.\<close>

definition sp_assign :: "allocator \<Rightarrow> nat \<Rightarrow> nat \<Rightarrow> nat \<Rightarrow> unit sp_prog" where
  "sp_assign A h g tmp = seqE (sp_copy A tmp g) (seqE (sp_swap h tmp) (sp_destroy tmp))"

definition sp_reset :: "nat \<Rightarrow> unit sp_prog" where
  "sp_reset h = bindE (members_of h) (\<lambda>m. bindE (release m) (put_members h))"

text \<open>This one is declared \<open>throw()\<close> and may throw.\<close>

definition sp_reset_to :: "allocator \<Rightarrow> nat \<Rightarrow> nat option \<Rightarrow> unit sp_prog" where
  "sp_reset_to A h p = no_throw (bindE (members_of h) (\<lambda>m.
     seqE (shared_assert (p = None \<or> fst m \<noteq> p))
     (bindE (release m) (\<lambda>l. bindE (acquire A (snd l) p) (put_members h)))))"

definition sp_use_count :: "nat \<Rightarrow> int sp_prog" where
  "sp_use_count h = bindE (members_of h) (\<lambda>m. case snd m of None \<Rightarrow> ret 0 | Some n \<Rightarrow> read_count n)"

definition sp_bool :: "nat \<Rightarrow> bool sp_prog" where
  "sp_bool h = bindE (sp_use_count h) (\<lambda>k. ret (0 < k))"

definition sp_unique :: "nat \<Rightarrow> bool sp_prog" where
  "sp_unique h = bindE (sp_use_count h) (\<lambda>k. ret (1 = k))"

definition sp_get :: "nat \<Rightarrow> nat option sp_prog" where
  "sp_get h = bindE (members_of h) (\<lambda>m. ret (fst m))"

text \<open>\<open>operator*\<close> and \<open>operator->\<close>; the object they give access to is used by the caller.\<close>

definition sp_deref :: "nat \<Rightarrow> nat sp_prog" where
  "sp_deref h = bindE (members_of h) (\<lambda>m. case fst m of None \<Rightarrow> throw Terminate
     | Some ob \<Rightarrow> (\<lambda>s. if ob \<in> objects s then (Inr ob, s) else (Inl (Undefined ''dead object''), s)))"

text \<open>Comparison is comparison of addresses, the null pointer first.\<close>

definition address :: "nat option \<Rightarrow> nat" where
  "address p = (case p of None \<Rightarrow> 0 | Some ob \<Rightarrow> Suc ob)"

definition sp_eq :: "nat \<Rightarrow> nat \<Rightarrow> bool sp_prog" where
  "sp_eq l r = bindE (sp_get l) (\<lambda>p. bindE (sp_get r) (\<lambda>q. ret (p = q)))"

definition sp_neq :: "nat \<Rightarrow> nat \<Rightarrow> bool sp_prog" where
  "sp_neq l r = bindE (sp_get l) (\<lambda>p. bindE (sp_get r) (\<lambda>q. ret (p \<noteq> q)))"

definition sp_le :: "nat \<Rightarrow> nat \<Rightarrow> bool sp_prog" where
  "sp_le l r = bindE (sp_get l) (\<lambda>p. bindE (sp_get r) (\<lambda>q. ret (address p \<le> address q)))"

definition sp_less :: "nat \<Rightarrow> nat \<Rightarrow> bool sp_prog" where
  "sp_less l r = bindE (sp_get l) (\<lambda>p. bindE (sp_get r) (\<lambda>q. ret (address p < address q)))"

definition sp_ge :: "nat \<Rightarrow> nat \<Rightarrow> bool sp_prog" where
  "sp_ge l r = bindE (sp_get l) (\<lambda>p. bindE (sp_get r) (\<lambda>q. ret (address q \<le> address p)))"

definition sp_greater :: "nat \<Rightarrow> nat \<Rightarrow> bool sp_prog" where
  "sp_greater l r = bindE (sp_get l) (\<lambda>p. bindE (sp_get r) (\<lambda>q. ret (address q < address p)))"

text \<open>The casts build their result at the address \<open>h\<close>; \<open>D\<close> tells whether the object has the type of a \<open>dynamic_cast\<close>.\<close>

definition static_pointer_cast :: "allocator \<Rightarrow> nat \<Rightarrow> nat \<Rightarrow> unit sp_prog" where
  "static_pointer_cast A h g = bindE (sp_get g) (\<lambda>p. sp_share A h g p)"

definition dynamic_pointer_cast :: "allocator \<Rightarrow> (nat \<Rightarrow> bool) \<Rightarrow> nat \<Rightarrow> nat \<Rightarrow> unit sp_prog" where
  "dynamic_pointer_cast A D h g = bindE (sp_get g) (\<lambda>p. case p of
       None \<Rightarrow> sp_default h
     | Some ob \<Rightarrow> if D ob then sp_share A h g (Some ob) else sp_default h)"

section \<open>A client\<close>

text \<open>What a client does; \<open>Manage\<close> and \<open>ResetTo\<close> take an object it has just allocated.\<close>

datatype sp_op =
    Default nat
  | Manage nat nat
  | Copy nat nat
  | Assign nat nat nat
  | Destroy nat
  | Reset nat
  | ResetTo nat nat
  | Swap nat nat
  | StaticCast nat nat
  | DynamicCast nat nat

definition new_object :: "nat \<Rightarrow> unit sp_prog" where
  "new_object ob = modify (\<lambda>s. s\<lparr>objects := insert ob (objects s)\<rparr>)"

fun sp_step :: "allocator \<Rightarrow> (nat \<Rightarrow> bool) \<Rightarrow> sp_op \<Rightarrow> unit sp_prog" where
  "sp_step A D (Default h) = sp_default h"
| "sp_step A D (Manage h ob) = seqE (new_object ob) (sp_manage A h (Some ob))"
| "sp_step A D (Copy h g) = sp_copy A h g"
| "sp_step A D (Assign h g tmp) = sp_assign A h g tmp"
| "sp_step A D (Destroy h) = sp_destroy h"
| "sp_step A D (Reset h) = sp_reset h"
| "sp_step A D (ResetTo h ob) = seqE (new_object ob) (sp_reset_to A h (Some ob))"
| "sp_step A D (Swap h g) = sp_swap h g"
| "sp_step A D (StaticCast h g) = static_pointer_cast A h g"
| "sp_step A D (DynamicCast h g) = dynamic_pointer_cast A D h g"

text \<open>
  What it may do: build a pointer where there is none, use pointers that live, and hand over an object once. The
  client catches the exception of a failed allocation.
\<close>

fun sp_allowed :: "sp_heap \<Rightarrow> sp_op \<Rightarrow> bool" where
  "sp_allowed s (Default h) = (handles s h = None)"
| "sp_allowed s (Manage h ob) = (handles s h = None \<and> ob \<notin> objects s)"
| "sp_allowed s (Copy h g) = (handles s h = None \<and> handles s g \<noteq> None)"
| "sp_allowed s (Assign h g tmp) = (handles s h \<noteq> None \<and> handles s g \<noteq> None \<and> handles s tmp = None)"
| "sp_allowed s (Destroy h) = (handles s h \<noteq> None)"
| "sp_allowed s (Reset h) = (handles s h \<noteq> None)"
| "sp_allowed s (ResetTo h ob) = (handles s h \<noteq> None \<and> ob \<notin> objects s)"
| "sp_allowed s (Swap h g) = (handles s h \<noteq> None \<and> handles s g \<noteq> None)"
| "sp_allowed s (StaticCast h g) = (handles s h = None \<and> handles s g \<noteq> None)"
| "sp_allowed s (DynamicCast h g) = (handles s h = None \<and> handles s g \<noteq> None)"

text \<open>A sequence of operations, as long as they are allowed.\<close>

fun sp_run :: "allocator \<Rightarrow> (nat \<Rightarrow> bool) \<Rightarrow> sp_op list \<Rightarrow> bool sp_prog" where
  "sp_run A D [] s = (Inr True, s)"
| "sp_run A D (x # xs) s =
     (if \<not> sp_allowed s x then (Inr False, s)
      else case sp_step A D x s of
          (Inr _, t) \<Rightarrow> sp_run A D xs t
        | (Inl e, t) \<Rightarrow> if e = BadAlloc then sp_run A D xs t else (Inl e, t))"

section \<open>The specification\<close>

text \<open>Who points to what. An operation is an update of this map.\<close>

definition owners :: "sp_heap \<Rightarrow> nat \<rightharpoonup> nat option" where
  "owners s h = map_option fst (handles s h)"

fun owners_step :: "(nat \<Rightarrow> bool) \<Rightarrow> sp_op \<Rightarrow> (nat \<rightharpoonup> nat option) \<Rightarrow> nat \<rightharpoonup> nat option" where
  "owners_step D (Default h) m = m(h \<mapsto> None)"
| "owners_step D (Manage h ob) m = m(h \<mapsto> Some ob)"
| "owners_step D (Copy h g) m = m(h := m g)"
| "owners_step D (Assign h g tmp) m = m(h := m g)"
| "owners_step D (Destroy h) m = m(h := None)"
| "owners_step D (Reset h) m = m(h \<mapsto> None)"
| "owners_step D (ResetTo h ob) m = m(h \<mapsto> Some ob)"
| "owners_step D (Swap h g) m = m(h := m g, g := m h)"
| "owners_step D (StaticCast h g) m = m(h := m g)"
| "owners_step D (DynamicCast h g) m = m(h := map_option (\<lambda>p. case p of None \<Rightarrow> None | Some ob \<Rightarrow> if D ob then Some ob else None) (m g))"

text \<open>
  The store is in order: a pointer has a counter when it has an object, two pointers share a counter when they share the
  object, a counter holds the number of pointers that have it, and the objects alive are those pointed to.
\<close>

definition sharers :: "(nat \<rightharpoonup> members) \<Rightarrow> nat \<Rightarrow> nat set" where
  "sharers H n = {h. \<exists>m. H h = Some m \<and> snd m = Some n}"

definition pointed :: "(nat \<rightharpoonup> members) \<Rightarrow> nat set" where
  "pointed H = {ob. \<exists>m \<in> ran H. fst m = Some ob}"

definition paired :: "(nat \<rightharpoonup> members) \<Rightarrow> bool" where
  "paired H \<longleftrightarrow> (\<forall>m \<in> ran H. (fst m = None \<longleftrightarrow> snd m = None) \<and> (\<forall>l \<in> ran H. fst m = fst l \<longleftrightarrow> snd m = snd l))"

definition counts :: "(nat \<rightharpoonup> members) \<Rightarrow> nat \<rightharpoonup> int" where
  "counts H n = (if sharers H n = {} then None else Some (int (card (sharers H n))))"

definition sp_ok :: "sp_heap \<Rightarrow> bool" where
  "sp_ok s \<longleftrightarrow> finite (dom (handles s)) \<and> paired (handles s) \<and> counters s = counts (handles s) \<and> objects s = pointed (handles s)"

end
