(* ===== verification/SharedFacts.thy ===== *)
theory SharedFacts
  imports SharedPtr
begin

text \<open>
  The smart pointer implements plain ownership: its counters count the pointers, nothing is destroyed while a pointer to it
  lives, nothing is destroyed twice and nothing is left behind.
\<close>

section \<open>The order of the store\<close>

lemma sharers_iff: "h \<in> sharers H n \<longleftrightarrow> (\<exists>p. H h = Some (p, Some n))"
  by (auto simp: sharers_def)

lemma sharersI: "H h = Some m \<Longrightarrow> snd m = Some n \<Longrightarrow> h \<in> sharers H n"
  by (cases m) (simp add: sharers_def)

lemma pointedI: "H h = Some m \<Longrightarrow> fst m = Some ob \<Longrightarrow> ob \<in> pointed H"
  unfolding pointed_def by (blast intro: ranI)

lemma pointed_iff: "ob \<in> pointed H \<longleftrightarrow> (\<exists>h n. H h = Some (Some ob, n))"
  by (auto simp: pointed_def ran_def)

lemma sharers_put: "H h = None \<Longrightarrow> sharers (H(h \<mapsto> m)) l = (if snd m = Some l then insert h (sharers H l) else sharers H l)"
  by (cases m) (auto simp: sharers_def)

lemma sharers_del: "sharers (H(h := None)) l = sharers H l - {h}"
  by (auto simp: sharers_def)

lemma sharers_finite: "finite (dom H) \<Longrightarrow> finite (sharers H l)"
  by (rule finite_subset [of _ "dom H"]) (auto simp: sharers_def)

lemma sharers_small: "finite (dom H) \<Longrightarrow> card (sharers H l) \<le> card (dom H)"
  by (rule card_mono) (auto simp: sharers_def)

lemma pointed_put: "H h = None \<Longrightarrow> pointed (H(h \<mapsto> m)) = set_option (fst m) \<union> pointed H"
  by (cases "fst m") (auto simp: pointed_def ran_map_upd)

lemma pairedD: "paired H \<Longrightarrow> H h = Some m \<Longrightarrow> H g = Some l \<Longrightarrow> fst m = fst l \<longleftrightarrow> snd m = snd l"
  unfolding paired_def by (meson ranI)

lemma paired_null: "paired H \<Longrightarrow> H h = Some m \<Longrightarrow> fst m = None \<longleftrightarrow> snd m = None"
  unfolding paired_def by (meson ranI)

lemma ran_del: "x \<in> ran (H(h := None)) \<longleftrightarrow> (\<exists>g. g \<noteq> h \<and> H g = Some x)"
  by (auto simp: ran_def)

lemma pointed_del:
  assumes "paired H" and "H h = Some m" and "snd m = Some n"
  shows "pointed (H(h := None)) = (if sharers H n = {h} then pointed H - set_option (fst m) else pointed H)"
proof (cases "sharers H n = {h}")
  case True
  have "fst l \<noteq> fst m" if "H g = Some l" "g \<noteq> h" for g l
  proof
    assume "fst l = fst m"
    with pairedD [OF assms(1) that(1) assms(2)] assms(3) that(1) have "g \<in> sharers H n" by (auto intro: sharersI)
    with True that(2) show False by simp
  qed
  with True assms(2) show ?thesis by (auto simp: pointed_def ran_del ran_def split: if_splits) (metis fst_conv option.inject)+
next
  case False
  then obtain g where "g \<noteq> h" "g \<in> sharers H n" using sharersI [of H h m n] assms(2,3) by blast
  then obtain l where "g \<noteq> h" "H g = Some l" "snd l = Some n" by (auto simp: sharers_iff)
  moreover from this have "fst l = fst m" using pairedD [OF assms(1) _ assms(2)] assms(3) by simp
  ultimately have g: "g \<noteq> h" "H g = Some l" "fst l = fst m" by auto
  have "\<exists>k. k \<noteq> h \<and> (\<exists>x. H k = Some x \<and> fst x = Some ob)" if "H k = Some x" "fst x = Some ob" for k x ob
    using that g assms(2) by (metis option.inject)
  then have "pointed (H(h := None)) = pointed H"
    by (simp add: set_eq_iff pointed_iff) (metis fst_conv option.distinct(1) prod.collapse)
  with False show ?thesis by simp
qed

lemma paired_del: "paired H \<Longrightarrow> paired (H(h := None))"
  unfolding paired_def using ran_del [of _ H h] by (metis ranI)

lemma paired_share: "paired H \<Longrightarrow> H g = Some m \<Longrightarrow> H h = None \<Longrightarrow> paired (H(h \<mapsto> m))"
  by (simp add: paired_def ran_map_upd) (metis ranI insert_absorb)

lemma paired_put_null: "paired H \<Longrightarrow> H h = None \<Longrightarrow> paired (H(h \<mapsto> (None, None)))"
  by (auto simp: paired_def ran_map_upd)

lemma paired_new:
  assumes "paired H" and "H h = None" and "ob \<notin> pointed H" and "sharers H n = {}"
  shows "paired (H(h \<mapsto> (Some ob, Some n)))"
proof -
  have "fst l \<noteq> Some ob" "snd l \<noteq> Some n" if "l \<in> ran H" for l
    using that assms(3,4) by (auto simp: ran_def dest: pointedI sharersI)
  then have "\<forall>l \<in> ran H. fst l \<noteq> Some ob \<and> snd l \<noteq> Some n" by blast
  with assms(1,2) show ?thesis by (simp add: paired_def ran_map_upd) metis
qed

lemma counts_put:
  assumes "finite (dom H)" and "H h = None"
  shows "counts (H(h \<mapsto> m)) = (case snd m of None \<Rightarrow> counts H | Some n \<Rightarrow> (counts H)(n \<mapsto> int (card (sharers H n)) + 1))"
proof -
  have "h \<notin> sharers H n" for n using assms(2) by (simp add: sharers_iff)
  then show ?thesis
    using sharers_finite [OF assms(1)]
    by (cases "snd m") (auto simp: counts_def sharers_put [of H h] assms(2) fun_eq_iff)
qed

lemma counts_del:
  assumes "finite (dom H)" and "H h = Some m"
  shows "counts (H(h := None)) = (case snd m of None \<Rightarrow> counts H
    | Some n \<Rightarrow> (counts H)(n := if sharers H n = {h} then None else Some (int (card (sharers H n)) - 1)))"
proof -
  have other: "h \<notin> sharers H l" if "snd m \<noteq> Some l" for l using assms(2) that by (auto simp: sharers_iff)
  show ?thesis
  proof (cases "snd m")
    case None
    with other have "sharers H l - {h} = sharers H l" for l by simp
    then have "counts (H(h := None)) l = counts H l" for l by (simp only: counts_def sharers_del)
    then show ?thesis by (simp add: None fun_eq_iff)
  next
    case (Some n)
    have h: "h \<in> sharers H n" using sharersI [of H h m n] assms(2) Some by blast
    then have pos: "0 < card (sharers H n)" using sharers_finite [OF assms(1)] by (auto simp: card_gt_0_iff)
    have "counts (H(h := None)) l = ((counts H)(n := if sharers H n = {h} then None else Some (int (card (sharers H n)) - 1))) l" for l
    proof (cases "l = n")
      case True
      have "sharers H n - {h} = {} \<longleftrightarrow> sharers H n = {h}" using h by auto
      with True pos h sharers_finite [OF assms(1), of n] show ?thesis by (simp add: counts_def sharers_del card_Diff_singleton of_nat_diff)
    next
      case False
      then have "sharers H l - {h} = sharers H l" using other Some by simp
      with False show ?thesis by (simp add: counts_def sharers_del)
    qed
    then show ?thesis by (simp add: Some fun_eq_iff)
  qed
qed

text \<open>The store is in order for the pointers \<open>H\<close>, with the objects \<open>U\<close> the client still holds itself.\<close>

definition tracks :: "(nat \<rightharpoonup> members) \<Rightarrow> nat set \<Rightarrow> sp_heap \<Rightarrow> bool" where
  "tracks H U s \<longleftrightarrow> finite (dom H) \<and> paired H \<and> counters s = counts H \<and> objects s = pointed H \<union> U \<and> U \<inter> pointed H = {}"

definition room :: "sp_heap \<Rightarrow> bool" where
  "room s \<longleftrightarrow> card (dom (handles s)) < 2 ^ 63 - 1"

lemma sp_ok_tracks: "sp_ok s \<longleftrightarrow> tracks (handles s) {} s"
  by (simp add: sp_ok_def tracks_def)

lemma tracks_null: "tracks H U s \<Longrightarrow> H h = None \<Longrightarrow> tracks (H(h \<mapsto> (None, None))) U s"
  by (simp add: tracks_def paired_put_null counts_put pointed_put)

lemma acquire_share:
  assumes "tracks H U s" and "H g = Some m" and "H h = None" and "card (dom H) < 2 ^ 63 - 1"
  shows "\<exists>t. acquire A (snd m) (fst m) s = (Inr m, t) \<and> handles t = handles s \<and> tracks (H(h \<mapsto> m)) U t"
proof (cases "snd m")
  case None
  then have m: "m = (None, None)" using paired_null [of H g m] assms(1,2) by (cases m) (simp add: tracks_def)
  with tracks_null [OF assms(1,3)] show ?thesis by (simp add: acquire_def)
next
  case (Some n)
  then obtain ob where ob: "fst m = Some ob" using paired_null [of H g m] assms(1,2) by (auto simp: tracks_def)
  have "g \<in> sharers H n" using sharersI [of H g m n] assms(2) Some by blast
  then have k: "counters s n = Some (int (card (sharers H n)))" using assms(1) by (auto simp: tracks_def counts_def)
  have small: "int (card (sharers H n)) + 1 < 2 ^ 63"
    using sharers_small [of H n] assms(1,4) by (simp add: tracks_def)
  let ?t = "s\<lparr>counters := (counters s)(n \<mapsto> int (card (sharers H n)) + 1)\<rparr>"
  have "acquire A (snd m) (fst m) s = (Inr m, ?t)"
    using small ob Some by (cases m) (simp add: acquire_def read_count_def k write_count_def bindE_def)
  moreover have "tracks (H(h \<mapsto> m)) U ?t"
    using assms(1-3) pointedI [of H g m ob] ob Some ob
    by (auto simp: tracks_def paired_share counts_put pointed_put)
  ultimately show ?thesis by (intro exI [of _ ?t]) simp
qed

lemma acquire_new:
  assumes "tracks H {ob} s" and "H h = None" and "\<forall>n. A s = Some n \<longrightarrow> counters s n = None"
  shows "\<exists>t. handles t = handles s \<and>
    (if A s = None then acquire A None (Some ob) s = (Inl BadAlloc, t) \<and> tracks H {} t
     else acquire A None (Some ob) s = (Inr (Some ob, A s), t) \<and> tracks (H(h \<mapsto> (Some ob, A s))) {} t)"
proof (cases "A s")
  case None
  have "ob \<in> objects s" "ob \<notin> pointed H" using assms(1) by (auto simp: tracks_def)
  with None assms(1) show ?thesis
    by (intro exI [of _ "s\<lparr>objects := objects s - {ob}\<rparr>"]) (auto simp: acquire_def new_count_def delete_object_def seqE_def bindE_def tracks_def)
next
  case (Some n)
  then have "counts H n = None" using assms(1,3) Some by (simp add: tracks_def)
  then have n: "sharers H n = {}" by (simp add: counts_def split: if_splits)
  have "tracks (H(h \<mapsto> (Some ob, Some n))) {} (s\<lparr>counters := (counters s)(n \<mapsto> 1)\<rparr>)"
    using assms(1,2) n by (auto simp: tracks_def paired_new counts_put pointed_put)
  with Some show ?thesis
    by (intro exI [of _ "s\<lparr>counters := (counters s)(n \<mapsto> 1)\<rparr>"]) (simp add: acquire_def new_count_def)
qed

lemma release_run:
  assumes "tracks H U s" and "H h = Some m" and "card (dom H) < 2 ^ 63"
  shows "\<exists>t. release m s = (Inr (None, None), t) \<and> handles t = handles s \<and> tracks (H(h := None)) U t"
proof (cases "snd m")
  case None
  then have m: "m = (None, None)" using paired_null [of H h m] assms(1,2) by (cases m) (simp add: tracks_def)
  have "pointed (H(h := None)) = pointed H" using assms(2) m by (simp add: set_eq_iff pointed_iff) (metis option.distinct(1) option.inject prod.inject)
  then have "tracks (H(h := None)) U s"
    using assms(1) m by (simp add: tracks_def paired_del counts_del [where H = H, OF _ assms(2)])
  with m show ?thesis by (simp add: release_def)
next
  case (Some n)
  then obtain ob where ob: "fst m = Some ob" using paired_null [of H h m] assms(1,2) by (auto simp: tracks_def)
  have ok: "finite (dom H)" "paired H" "counters s = counts H" "objects s = pointed H \<union> U" "U \<inter> pointed H = {}"
    using assms(1) by (simp_all add: tracks_def)
  have h: "h \<in> sharers H n" using sharersI [of H h m n] assms(2) Some by blast
  then have k: "counters s n = Some (int (card (sharers H n)))" using ok(3) by (auto simp: counts_def)
  have pos: "0 < card (sharers H n)" using sharers_finite [OF ok(1)] h by (auto simp: card_gt_0_iff)
  have small: "int (card (sharers H n)) < 2 ^ 63"
    using sharers_small [OF ok(1), of n] assms(3) by simp
  have last: "card (sharers H n) = 1 \<longleftrightarrow> sharers H n = {h}" using h by (auto simp: card_1_singleton_iff)
  have alive: "ob \<in> objects s" "ob \<notin> U" using pointedI [of H h m ob] assms(2) ob ok(4,5) by auto
  let ?l = "int (card (sharers H n)) - 1"
  let ?u = "s\<lparr>counters := (counters s)(n \<mapsto> ?l)\<rparr>"
  let ?t = "if sharers H n = {h} then ?u\<lparr>objects := objects s - {ob}, counters := (counters s)(n := None)\<rparr> else ?u"
  have "write_count n ?l s = (Inr (), ?u)" using small pos by (simp add: write_count_def)
  then have "release m s = seqE (whenE (?l = 0) (seqE (delete_object (fst m)) (delete_count n))) (ret (None, None)) ?u"
    using Some k by (simp add: release_def bindE_def seqE_def read_count_def)
  also have "\<dots> = (Inr (None, None), ?t)"
    using alive ob last by (auto simp: seqE_def bindE_def whenE_def delete_object_def delete_count_def)
  finally have run: "release m s = (Inr (None, None), ?t)" .
  have "tracks (H(h := None)) U ?t"
    using ok Some ob alive(2) by (auto simp: tracks_def paired_del counts_del [where H = H, OF _ assms(2)] pointed_del [where H = H, OF ok(2) assms(2) Some])
  with run show ?thesis by (intro exI [of _ ?t]) simp
qed

definition other :: "nat \<Rightarrow> nat \<Rightarrow> nat \<Rightarrow> nat" where
  "other h g x = (if x = h then g else if x = g then h else x)"

lemma other_other [simp]: "other h g (other h g x) = x"
  by (simp add: other_def)

lemma inj_other: "inj_on (other h g) S"
  by (metis inj_onI other_other)

lemma swap_other: "H h = Some m \<Longrightarrow> H g = Some l \<Longrightarrow> H(h \<mapsto> l, g \<mapsto> m) = (\<lambda>x. H (other h g x))"
  by (auto simp: other_def fun_eq_iff)

lemma ran_other: "ran (\<lambda>x. H (other h g x)) = ran H"
  unfolding ran_def by (metis other_other)

lemma dom_other: "dom (\<lambda>x. H (other h g x)) = other h g ` dom H"
  by (auto simp: dom_def image_iff) (metis other_other)

lemma sharers_other: "sharers (\<lambda>x. H (other h g x)) n = other h g ` sharers H n"
proof (rule set_eqI)
  fix x
  have "x \<in> other h g ` sharers H n \<longleftrightarrow> other h g x \<in> sharers H n" by (metis (no_types) image_iff other_other)
  then show "x \<in> sharers (\<lambda>x. H (other h g x)) n \<longleftrightarrow> x \<in> other h g ` sharers H n" by (simp add: sharers_iff)
qed

lemma tracks_swap:
  assumes "tracks H U s" and "H h = Some m" and "H g = Some l"
  shows "tracks (H(h \<mapsto> l, g \<mapsto> m)) U s"
proof -
  have "counts (\<lambda>x. H (other h g x)) = counts H"
    by (rule ext) (simp add: counts_def sharers_other card_image inj_other)
  with assms(1) show ?thesis
    by (simp add: swap_other [where H = H, OF assms(2,3)] tracks_def paired_def pointed_def ran_other dom_other)
qed

section \<open>The operations\<close>

definition allocates :: "allocator \<Rightarrow> bool" where
  "allocates A \<longleftrightarrow> (\<forall>s n. A s = Some n \<longrightarrow> counters s n = None)"

lemma tracks_handles [simp]: "tracks H U (s\<lparr>handles := X\<rparr>) = tracks H U s"
  by (simp add: tracks_def)

lemma owners_upd [simp]: "owners (s\<lparr>handles := H\<rparr>) = (\<lambda>h. map_option fst (H h))"
  by (simp add: owners_def fun_eq_iff)

text \<open>What is to be shown of one operation: it ends well, with the specified owners.\<close>

definition ends_well :: "unit sp_prog \<Rightarrow> sp_heap \<Rightarrow> (nat \<rightharpoonup> nat option) \<Rightarrow> bool" where
  "ends_well m s P \<longleftrightarrow> (\<exists>t. m s = (Inr (), t) \<and> sp_ok t \<and> owners t = P)"

lemma members_run: "handles s h = Some m \<Longrightarrow> members_of h s = (Inr m, s)"
  by (simp add: members_of_def)

lemma put_members_run: "put_members h m s = (Inr (), s\<lparr>handles := (handles s)(h \<mapsto> m)\<rparr>)"
  by (simp add: put_members_def)

lemma share_run:
  assumes "sp_ok s" and "handles s g = Some m" and "handles s h = None" and "room s"
  shows "\<exists>t. bindE (acquire A (snd m) (fst m)) (put_members h) s = (Inr (), t) \<and> tracks (handles t) {} t \<and> handles t = (handles s)(h \<mapsto> m)"
proof -
  obtain t where t: "acquire A (snd m) (fst m) s = (Inr m, t)" "handles t = handles s" "tracks ((handles s)(h \<mapsto> m)) {} t"
    using acquire_share [of "handles s" "{}" s g m h A] assms by (auto simp: sp_ok_tracks room_def)
  then show ?thesis by (intro exI [of _ "t\<lparr>handles := (handles s)(h \<mapsto> m)\<rparr>"]) (simp add: bindE_def put_members_run)
qed

lemma copy_run:
  assumes "sp_ok s" and "handles s g = Some m" and "handles s h = None" and "room s"
  shows "\<exists>t. sp_copy A h g s = (Inr (), t) \<and> tracks (handles t) {} t \<and> handles t = (handles s)(h \<mapsto> m)"
proof -
  have "fst m = None \<or> snd m \<noteq> None" using paired_null [of "handles s" g m] assms(1,2) by (auto simp: sp_ok_def)
  with share_run [OF assms, of A] show ?thesis
    by (auto simp: sp_copy_def no_throw_def members_run [OF assms(2)] shared_assert_def bindE_Inr)
qed

lemma destroy_run:
  assumes "tracks (handles s) {} s" and "handles s h = Some m" and "card (dom (handles s)) < 2 ^ 63"
  shows "\<exists>t. sp_destroy h s = (Inr (), t) \<and> tracks (handles t) {} t \<and> handles t = (handles s)(h := None)"
proof -
  obtain t where "release m s = (Inr (None, None), t)" "handles t = handles s" "tracks ((handles s)(h := None)) {} t"
    using release_run [OF assms] by blast
  then show ?thesis
    by (intro exI [of _ "t\<lparr>handles := (handles s)(h := None)\<rparr>"]) (simp add: sp_destroy_def members_run [OF assms(2)] seqE_def bindE_def)
qed

lemma swap_run:
  assumes "tracks (handles s) {} s" and "handles s h = Some m" and "handles s g = Some l"
  shows "\<exists>t. sp_swap h g s = (Inr (), t) \<and> tracks (handles t) {} t \<and> handles t = (handles s)(h \<mapsto> l, g \<mapsto> m)"
  using tracks_swap [OF assms]
  by (simp add: sp_swap_def members_run [OF assms(2)] members_run [OF assms(3)] put_members_run seqE_def bindE_def)

lemma reset_run:
  assumes "tracks (handles s) U s" and "handles s h = Some m" and "card (dom (handles s)) < 2 ^ 63"
  shows "\<exists>t. release m s = (Inr (None, None), t) \<and> tracks ((handles s)(h \<mapsto> (None, None))) U t \<and>
    tracks ((handles s)(h := None)) U t \<and> handles t = handles s"
proof -
  obtain t where t: "release m s = (Inr (None, None), t)" "handles t = handles s" "tracks ((handles s)(h := None)) U t"
    using release_run [OF assms] by blast
  moreover from tracks_null [OF t(3), of h] have "tracks ((handles s)(h \<mapsto> (None, None))) U t" by simp
  ultimately show ?thesis by blast
qed

lemma nullify_run:
  assumes "sp_ok s" and "handles s h = None"
  shows "sp_ok (s\<lparr>handles := (handles s)(h \<mapsto> (None, None))\<rparr>)"
  using tracks_null [of "handles s" "{}" s h] assms by (simp add: sp_ok_tracks)

lemma ends_wellI:
  "m s = (Inr (), t) \<Longrightarrow> tracks (handles t) {} t \<Longrightarrow> owners t = P \<Longrightarrow> ends_well m s P"
  by (auto simp: ends_well_def sp_ok_tracks)

lemma owners_Some: "handles s h = Some m \<Longrightarrow> owners s h = Some (fst m)"
  by (simp add: owners_def)

lemma owners_eqI: "handles t = H \<Longrightarrow> (\<And>x. map_option fst (H x) = P x) \<Longrightarrow> owners t = P"
  by (auto simp: owners_def fun_eq_iff)

lemma default_ends: "sp_ok s \<Longrightarrow> handles s h = None \<Longrightarrow> ends_well (sp_default h) s ((owners s)(h \<mapsto> None))"
  using nullify_run [of s h] by (auto simp: ends_well_def sp_default_def put_members_run owners_def fun_eq_iff)

lemma copy_ends:
  assumes "sp_ok s" and "handles s g \<noteq> None" and "handles s h = None" and "room s"
  shows "ends_well (sp_copy A h g) s ((owners s)(h := owners s g))"
proof -
  from assms(2) obtain m where m: "handles s g = Some m" by blast
  from copy_run [OF assms(1) m assms(3,4)] obtain t where
    "sp_copy A h g s = (Inr (), t)" "tracks (handles t) {} t" "handles t = (handles s)(h \<mapsto> m)" by blast
  with m show ?thesis by (intro ends_wellI) (auto intro!: owners_eqI simp: owners_def)
qed

lemma destroy_ends:
  assumes "sp_ok s" and "handles s h \<noteq> None" and "room s"
  shows "ends_well (sp_destroy h) s ((owners s)(h := None))"
proof -
  from assms(2) obtain m where m: "handles s h = Some m" by blast
  from destroy_run [OF _ m] assms(1,3) obtain t where
    "sp_destroy h s = (Inr (), t)" "tracks (handles t) {} t" "handles t = (handles s)(h := None)"
    by (auto simp: sp_ok_tracks room_def)
  then show ?thesis by (intro ends_wellI) (auto intro!: owners_eqI simp: owners_def)
qed

lemma swap_ends:
  assumes "sp_ok s" and "handles s h \<noteq> None" and "handles s g \<noteq> None"
  shows "ends_well (sp_swap h g) s ((owners s)(h := owners s g, g := owners s h))"
proof -
  from assms(2,3) obtain m l where m: "handles s h = Some m" "handles s g = Some l" by blast
  from swap_run [OF _ m] assms(1) obtain t where
    "sp_swap h g s = (Inr (), t)" "tracks (handles t) {} t" "handles t = (handles s)(h \<mapsto> l, g \<mapsto> m)" by (auto simp: sp_ok_tracks)
  with m show ?thesis by (intro ends_wellI) (auto intro!: owners_eqI simp: owners_def)
qed

lemma reset_ends:
  assumes "sp_ok s" and "handles s h \<noteq> None" and "room s"
  shows "ends_well (sp_reset h) s ((owners s)(h \<mapsto> None))"
proof -
  from assms(2) obtain m where m: "handles s h = Some m" by blast
  from reset_run [OF _ m, of "{}"] assms(1,3) obtain t where
    t: "release m s = (Inr (None, None), t)" "tracks ((handles s)(h \<mapsto> (None, None))) {} t" "handles t = handles s"
    by (auto simp: sp_ok_tracks room_def)
  show ?thesis
    by (rule ends_wellI [where t = "t\<lparr>handles := (handles s)(h \<mapsto> (None, None))\<rparr>"])
       (use t in \<open>auto simp: sp_reset_def bindE_def members_run [OF m] put_members_run owners_def fun_eq_iff\<close>)
qed

text \<open>An assignment copies, swaps with the copy, and destroys it.\<close>

lemma assign_ends:
  assumes "sp_ok s" and "handles s h \<noteq> None" and "handles s g \<noteq> None" and "handles s tmp = None" and "room s"
  shows "ends_well (sp_assign A h g tmp) s ((owners s)(h := owners s g))"
proof -
  from assms(2,3) obtain m l where m: "handles s h = Some m" "handles s g = Some l" by blast
  have other: "h \<noteq> tmp" "g \<noteq> tmp" using assms(2-4) by auto
  obtain t where t: "sp_copy A tmp g s = (Inr (), t)" "tracks (handles t) {} t" "handles t = (handles s)(tmp \<mapsto> l)"
    using copy_run [OF assms(1) m(2) assms(4,5)] by blast
  obtain u where u: "sp_swap h tmp t = (Inr (), u)" "tracks (handles u) {} u" "handles u = (handles s)(tmp \<mapsto> l, h \<mapsto> l, tmp \<mapsto> m)"
    using swap_run [OF t(2), of h m tmp l] m(1) t(3) other by auto
  have fin: "finite (dom (handles s))" using assms(1) by (simp add: sp_ok_def)
  have "dom (handles u) = insert tmp (dom (handles s))" using u(3) m(1) by auto
  then have "card (dom (handles u)) < 2 ^ 63" using assms(4,5) fin by (simp add: room_def card_insert_if)
  then obtain v where v: "sp_destroy tmp u = (Inr (), v)" "tracks (handles v) {} v" "handles v = (handles u)(tmp := None)"
    using destroy_run [OF u(2), of tmp m] u(3) by auto
  have "sp_assign A h g tmp s = (Inr (), v)" using t(1) u(1) v(1) by (simp add: sp_assign_def seqE_def bindE_def)
  moreover have "owners v = (owners s)(h := owners s g)"
    using other m assms(4) v(3) u(3) by (intro owners_eqI [OF refl]) (auto simp: owners_def)
  ultimately show ?thesis using v(2) by (intro ends_wellI)
qed

lemma static_cast_ends:
  assumes "sp_ok s" and "handles s g \<noteq> None" and "handles s h = None" and "room s"
  shows "ends_well (static_pointer_cast A h g) s ((owners s)(h := owners s g))"
proof -
  from assms(2) obtain m where m: "handles s g = Some m" by blast
  from share_run [OF assms(1) m assms(3,4)] obtain t where
    t: "bindE (acquire A (snd m) (fst m)) (put_members h) s = (Inr (), t)" "tracks (handles t) {} t" "handles t = (handles s)(h \<mapsto> m)" by blast
  have "static_pointer_cast A h g s = (Inr (), t)"
    using t(1) by (simp add: static_pointer_cast_def sp_get_def sp_share_def bindE_def members_run [OF m])
  with m t(2,3) show ?thesis by (intro ends_wellI) (auto intro!: owners_eqI simp: owners_def)
qed

lemma dynamic_cast_ends:
  assumes "sp_ok s" and "handles s g \<noteq> None" and "handles s h = None" and "room s"
  shows "ends_well (dynamic_pointer_cast A D h g) s (owners_step D (DynamicCast h g) (owners s))"
proof -
  from assms(2) obtain m where m: "handles s g = Some m" by blast
  have get: "sp_get g s = (Inr (fst m), s)" by (simp add: sp_get_def bindE_def members_run [OF m])
  show ?thesis
  proof (cases "\<exists>ob. fst m = Some ob \<and> D ob")
    case True
    then have "dynamic_pointer_cast A D h g s = static_pointer_cast A h g s"
      using get by (auto simp: dynamic_pointer_cast_def static_pointer_cast_def bindE_def)
    with static_cast_ends [OF assms, of A] True show ?thesis by (auto simp: ends_well_def owners_Some [OF m])
  next
    case False
    then have "dynamic_pointer_cast A D h g s = sp_default h s"
      using get by (auto simp: dynamic_pointer_cast_def bindE_def split: option.split)
    with default_ends [OF assms(1,3)] False show ?thesis
      by (auto simp: ends_well_def owners_Some [OF m] split: option.splits)
  qed
qed

text \<open>A pointer to a new object, and a reset to one, can fail for want of a counter.\<close>

lemma new_object_run:
  assumes "sp_ok s" and "ob \<notin> objects s"
  shows "\<exists>u. new_object ob s = (Inr (), u) \<and> tracks (handles s) {ob} u \<and> handles u = handles s"
  using assms by (intro exI [of _ "s\<lparr>objects := insert ob (objects s)\<rparr>"]) (auto simp: new_object_def sp_ok_def tracks_def)

lemma manage_ends:
  assumes "sp_ok s" and "handles s h = None" and "ob \<notin> objects s" and "allocates A"
  shows "ends_well (sp_step A D (Manage h ob)) s ((owners s)(h \<mapsto> Some ob)) \<or>
    (\<exists>t. sp_step A D (Manage h ob) s = (Inl BadAlloc, t) \<and> sp_ok t \<and> owners t = owners s \<and> (\<exists>u. A u = None))"
proof -
  obtain u where u: "new_object ob s = (Inr (), u)" "tracks (handles s) {ob} u" "handles u = handles s"
    using new_object_run [OF assms(1,3)] by blast
  obtain t where t: "handles t = handles s" and res:
      "if A u = None then acquire A None (Some ob) u = (Inl BadAlloc, t) \<and> tracks (handles s) {} t
       else acquire A None (Some ob) u = (Inr (Some ob, A u), t) \<and> tracks ((handles s)(h \<mapsto> (Some ob, A u))) {} t"
    using acquire_new [OF u(2) assms(2), of A] assms(4) u(3) by (auto simp: allocates_def)
  show ?thesis
  proof (cases "A u = None")
    case True
    then have "sp_step A D (Manage h ob) s = (Inl BadAlloc, t)" using res u(1) by (simp add: seqE_def bindE_def sp_manage_def)
    moreover have "sp_ok t" "owners t = owners s" using True res t by (simp_all add: sp_ok_tracks owners_def [abs_def])
    ultimately show ?thesis using True by blast
  next
    case False
    with res u(1) t have run: "sp_step A D (Manage h ob) s = (Inr (), t\<lparr>handles := (handles s)(h \<mapsto> (Some ob, A u))\<rparr>)"
      by (simp add: seqE_def bindE_def sp_manage_def put_members_run)
    have "ends_well (sp_step A D (Manage h ob)) s ((owners s)(h \<mapsto> Some ob))"
      by (rule ends_wellI [where m = "sp_step A D _", OF run]) (use res False in \<open>auto simp: owners_def fun_eq_iff\<close>)
    then show ?thesis ..
  qed
qed

lemma reset_to_ends:
  assumes "sp_ok s" and "handles s h \<noteq> None" and "ob \<notin> objects s" and "allocates A" and "room s"
  shows "ends_well (sp_step A D (ResetTo h ob)) s ((owners s)(h \<mapsto> Some ob)) \<or>
    (\<exists>t. sp_step A D (ResetTo h ob) s = (Inl Terminate, t) \<and> (\<exists>u. A u = None))"
proof -
  from assms(2) obtain m where m: "handles s h = Some m" by blast
  obtain u where u: "new_object ob s = (Inr (), u)" "tracks (handles s) {ob} u" "handles u = handles s"
    using new_object_run [OF assms(1,3)] by blast
  have mu: "handles u h = Some m" using m u(3) by simp
  have "ob \<notin> pointed (handles s)" using assms(1,3) by (simp add: sp_ok_def)
  then have own: "fst m \<noteq> Some ob" using pointedI [of "handles s" h m ob] m by blast
  obtain v where v: "release m u = (Inr (None, None), v)" "tracks ((handles s)(h := None)) {ob} v" "handles v = handles s"
    using reset_run [OF _ mu, of "{ob}"] u(2,3) assms(5) by (auto simp: room_def)
  obtain t where t: "handles t = handles s" and res:
      "if A v = None then acquire A None (Some ob) v = (Inl BadAlloc, t) \<and> tracks ((handles s)(h := None)) {} t
       else acquire A None (Some ob) v = (Inr (Some ob, A v), t) \<and> tracks ((handles s)(h := None, h \<mapsto> (Some ob, A v))) {} t"
    using acquire_new [OF v(2), of h A] assms(4) v(3) by (auto simp: allocates_def)
  have step: "sp_step A D (ResetTo h ob) s = no_throw (bindE (acquire A None (Some ob)) (put_members h)) v"
    using u(1) v(1) own by (simp add: seqE_def bindE_def sp_reset_to_def members_run [OF mu] shared_assert_def no_throw_def)
  show ?thesis
  proof (cases "A v = None")
    case True
    then have "sp_step A D (ResetTo h ob) s = (Inl Terminate, t)" using res step by (simp add: no_throw_def bindE_def)
    with True show ?thesis by blast
  next
    case False
    with res t step have run: "sp_step A D (ResetTo h ob) s = (Inr (), t\<lparr>handles := (handles s)(h \<mapsto> (Some ob, A v))\<rparr>)"
      by (simp add: no_throw_def bindE_def put_members_run)
    have "ends_well (sp_step A D (ResetTo h ob)) s ((owners s)(h \<mapsto> Some ob))"
      by (rule ends_wellI [where m = "sp_step A D _", OF run]) (use res False in \<open>auto simp: owners_def fun_eq_iff\<close>)
    then show ?thesis ..
  qed
qed

section \<open>The pointer implements ownership\<close>

lemma step_refines:
  assumes "sp_ok s" and "sp_allowed s x" and "room s" and "allocates A"
  obtains t where "sp_step A D x s = (Inr (), t)" "sp_ok t" "owners t = owners_step D x (owners s)"
  | t h ob where "sp_step A D x s = (Inl BadAlloc, t)" "sp_ok t" "owners t = owners s" "x = Manage h ob" "\<exists>u. A u = None"
  | t h ob where "sp_step A D x s = (Inl Terminate, t)" "x = ResetTo h ob" "\<exists>u. A u = None"
proof (cases x)
  case (Manage h ob)
  with manage_ends [of s h ob A D] assms that(1,2) show thesis by (auto simp: ends_well_def)
next
  case (ResetTo h ob)
  with reset_to_ends [of s h ob A D] assms that(1,3) show thesis by (auto simp: ends_well_def)
next
  case (DynamicCast h g)
  with dynamic_cast_ends [of s g h A D] assms that(1) show thesis by (auto simp: ends_well_def)
next
  case (Default h)
  with default_ends [of s h] assms that(1) show thesis by (auto simp: ends_well_def)
next
  case (Copy h g)
  with copy_ends [of s g h A] assms that(1) show thesis by (auto simp: ends_well_def)
next
  case (Assign h g tmp)
  with assign_ends [of s h g tmp A] assms that(1) show thesis by (auto simp: ends_well_def)
next
  case (Destroy h)
  with destroy_ends [of s h] assms that(1) show thesis by (auto simp: ends_well_def)
next
  case (Reset h)
  with reset_ends [of s h] assms that(1) show thesis by (auto simp: ends_well_def)
next
  case (Swap h g)
  with swap_ends [of s h g] assms that(1) show thesis by (auto simp: ends_well_def)
next
  case (StaticCast h g)
  with static_cast_ends [of s g h A] assms that(1) show thesis by (auto simp: ends_well_def)
qed

text \<open>
  C27: Every operation a client may do on the pointers updates the map of who points to what exactly as specified and keeps
  the store in order, so a counter is the number of pointers that share it and the objects alive are those pointed to.
  Only where no counter can be allocated does an operation fail: a new pointer then throws, with nothing changed and its object
  destroyed, and a reset to a new object ends the program.
\<close>

theorem shared_ptr_refines_ownership:
  assumes "sp_ok s" and "sp_allowed s x" and "room s" and "allocates A"
  shows "\<exists>t. (sp_step A D x s = (Inr (), t) \<and> sp_ok t \<and> owners t = owners_step D x (owners s)) \<or>
    ((\<exists>u. A u = None) \<and>
      (sp_step A D x s = (Inl BadAlloc, t) \<and> sp_ok t \<and> owners t = owners s \<and> (\<exists>h ob. x = Manage h ob) \<or>
       sp_step A D x s = (Inl Terminate, t) \<and> (\<exists>h ob. x = ResetTo h ob)))"
  using assms by (cases rule: step_refines [where D = D]) blast+

text \<open>A store without pointers is in order; an allocator of one counter at a time.\<close>

definition no_pointers :: sp_heap where
  "no_pointers = \<lparr>handles = Map.empty, counters = Map.empty, objects = {}\<rparr>"

lemma no_pointers_ok: "sp_ok no_pointers"
  by (simp add: sp_ok_def no_pointers_def paired_def pointed_def counts_def sharers_def fun_eq_iff)

definition one_counter :: allocator where
  "one_counter s = (if counters s 7 = None then Some 7 else None)"

lemma one_counter_allocates: "allocates one_counter"
  by (simp add: allocates_def one_counter_def)

lemma no_pointers_room: "room no_pointers"
  by (simp add: room_def no_pointers_def)

theorem shared_ptr_refines_ownership_witness:
  "\<exists>t. sp_step one_counter (\<lambda>_. True) (Manage 1 5) no_pointers = (Inr (), t) \<and> sp_ok t \<and> owners t 1 = Some (Some 5)"
proof -
  have run: "fst (sp_step one_counter (\<lambda>_. True) (Manage 1 5) no_pointers) = Inr ()"
    by (simp add: no_pointers_def new_object_def sp_manage_def acquire_def new_count_def one_counter_def put_members_def bindE_def)
  have "sp_allowed no_pointers (Manage 1 5)" by (simp add: no_pointers_def)
  from shared_ptr_refines_ownership [OF no_pointers_ok this no_pointers_room one_counter_allocates, of "\<lambda>_. True"] run
  show ?thesis by auto
qed

section \<open>A program with pointers\<close>

lemma dom_owners: "dom (owners s) = dom (handles s)"
  by (auto simp: owners_def)

lemma sp_ok_finite: "sp_ok s \<Longrightarrow> finite (dom (owners s))"
  by (simp add: dom_owners sp_ok_def)

lemma step_adds:
  assumes "sp_allowed s x" and "sp_ok s"
  shows "card (dom (owners_step D x (owners s))) \<le> Suc (card (dom (owners s)))"
proof -
  have fin: "finite (dom (owners s))" using sp_ok_finite [OF assms(2)] .
  have "\<exists>h. dom (owners_step D x (owners s)) \<subseteq> insert h (dom (owners s))"
    using assms(1) by (cases x) (auto simp: owners_def split: if_splits)
  then obtain h where "dom (owners_step D x (owners s)) \<subseteq> insert h (dom (owners s))" ..
  then have "card (dom (owners_step D x (owners s))) \<le> card (insert h (dom (owners s)))"
    using fin by (intro card_mono) auto
  also have "\<dots> \<le> Suc (card (dom (owners s)))" using fin by (simp add: card_insert_if)
  finally show ?thesis .
qed

lemma run_in_order:
  assumes "allocates A" and "sp_ok s" and "card (dom (owners s)) + length xs < 2 ^ 63 - 1"
  shows "\<exists>t. sp_ok t \<and> (\<exists>b. sp_run A D xs s = (Inr b, t)) \<or> sp_run A D xs s = (Inl Terminate, t) \<and> (\<exists>u. A u = None)"
  using assms(2,3)
proof (induction xs arbitrary: s)
  case Nil
  then show ?case by auto
next
  case (Cons x xs)
  show ?case
  proof (cases "sp_allowed s x")
    case False
    then show ?thesis using Cons.prems by auto
  next
    case True
    have "room s" using Cons.prems(2) by (simp add: room_def dom_owners)
    from Cons.prems(1) True this assms(1) show ?thesis
    proof (cases rule: step_refines [where D = D])
      case (1 t)
      then have "card (dom (owners t)) + length xs < 2 ^ 63 - 1" using step_adds [OF True Cons.prems(1), of D] Cons.prems(2) by simp
      from Cons.IH [OF 1(2) this] 1(1) True show ?thesis by simp
    next
      case (2 t)
      then have "card (dom (owners t)) + length xs < 2 ^ 63 - 1" using Cons.prems(2) by simp
      from Cons.IH [OF 2(2) this] 2(1) True show ?thesis by simp
    next
      case (3 t)
      with True show ?thesis by auto
    qed
  qed
qed

lemma use_count_run:
  assumes "sp_ok s" and "owners s h = Some p"
  shows "sp_use_count h s = (Inr (if p = None then 0 else int (card {g. owners s g = Some p})), s)"
proof -
  obtain m where m: "handles s h = Some m" "p = fst m" using assms(2) by (auto simp: owners_def)
  show ?thesis
  proof (cases "snd m")
    case None
    with paired_null [of "handles s" h m] m assms(1) show ?thesis
      by (simp add: sp_ok_def sp_use_count_def bindE_def members_run [OF m(1)])
  next
    case (Some n)
    have same: "owners s g = Some p \<longleftrightarrow> g \<in> sharers (handles s) n" for g
    proof
      assume "owners s g = Some p"
      then obtain l where l: "handles s g = Some l" "fst l = fst m" using m(2) by (auto simp: owners_def)
      with pairedD [of "handles s" g l h m] m(1) assms(1) Some have "snd l = Some n" by (simp add: sp_ok_def)
      with l(1) show "g \<in> sharers (handles s) n" using sharersI [of "handles s" g l n] by blast
    next
      assume "g \<in> sharers (handles s) n"
      then obtain q where q: "handles s g = Some (q, Some n)" by (auto simp: sharers_iff)
      with pairedD [of "handles s" g "(q, Some n)" h m] m(1) assms(1) Some have "q = fst m" by (simp add: sp_ok_def)
      with q m(2) show "owners s g = Some p" by (simp add: owners_def)
    qed
    have "p \<noteq> None" using paired_null [of "handles s" h m] m assms(1) Some by (simp add: sp_ok_def)
    moreover have "h \<in> sharers (handles s) n" using same [of h] assms(2) by blast
    then have "counters s n = Some (int (card (sharers (handles s) n)))" using assms(1) by (auto simp: sp_ok_def counts_def)
    moreover have "{g. owners s g = Some p} = sharers (handles s) n" using same by blast
    ultimately show ?thesis using Some by (auto simp: sp_use_count_def bindE_def members_run [OF m(1)] read_count_def)
  qed
qed

lemma alive_owned: "sp_ok s \<Longrightarrow> ob \<in> objects s \<longleftrightarrow> (\<exists>h. owners s h = Some (Some ob))"
  by (auto simp: sp_ok_def pointed_iff owners_def)

lemma deref_run:
  assumes "sp_ok s" and "owners s h = Some (Some ob)"
  shows "sp_deref h s = (Inr ob, s)"
proof -
  obtain m where m: "handles s h = Some m" "fst m = Some ob" using assms(2) by (auto simp: owners_def)
  moreover have "ob \<in> objects s" using alive_owned [OF assms(1)] assms(2) by blast
  ultimately show ?thesis by (simp add: sp_deref_def bindE_def members_run [OF m(1)])
qed

text \<open>
  C28: A program that uses the pointers as allowed never frees or reads anything twice or too late, however the operations
  follow each other and whenever allocation fails: its run is without undefined behaviour. At its end the
  objects alive are those pointed to, so every pointer that is not null can be dereferenced; \<open>use_count\<close> is the number of pointers that share the object, and once no
  pointer is left neither an object nor a counter is.
\<close>

theorem shared_ptr_frees_once:
  assumes "allocates A" and "length xs < 2 ^ 63 - 1"
  shows "\<exists>t. (\<exists>u. A u = None) \<and> sp_run A D xs no_pointers = (Inl Terminate, t) \<or>
    (\<exists>b. sp_run A D xs no_pointers = (Inr b, t)) \<and>
      (\<forall>ob. ob \<in> objects t \<longleftrightarrow> (\<exists>h. owners t h = Some (Some ob))) \<and>
      (\<forall>h p. owners t h = Some p \<longrightarrow>
         sp_use_count h t = (Inr (if p = None then 0 else int (card {g. owners t g = Some p})), t)) \<and>
      (\<forall>h ob. owners t h = Some (Some ob) \<longrightarrow> sp_deref h t = (Inr ob, t)) \<and>
      (dom (handles t) = {} \<longrightarrow> objects t = {} \<and> counters t = Map.empty)"
proof -
  have "owners no_pointers = Map.empty" by (simp add: owners_def no_pointers_def fun_eq_iff)
  with run_in_order [OF assms(1) no_pointers_ok, of xs D] assms(2)
  obtain t where t: "sp_ok t \<and> (\<exists>b. sp_run A D xs no_pointers = (Inr b, t)) \<or>
      sp_run A D xs no_pointers = (Inl Terminate, t) \<and> (\<exists>u. A u = None)" by auto
  have "objects t = {} \<and> counters t = Map.empty" if "sp_ok t" "dom (handles t) = {}"
  proof -
    have "handles t = Map.empty" using that(2) by simp
    then have "pointed (handles t) = {}" "sharers (handles t) n = {}" for n
      by (simp_all add: pointed_def sharers_def)
    then show ?thesis using that(1) by (simp add: sp_ok_def counts_def fun_eq_iff)
  qed
  with t use_count_run [of t] alive_owned [of t] deref_run [of t] show ?thesis by blast
qed

theorem shared_ptr_frees_once_witness:
  "\<exists>t. sp_run one_counter (\<lambda>_. True) [Manage 1 5, Copy 2 1, Destroy 1] no_pointers = (Inr True, t) \<and> 5 \<in> objects t \<and>
    sp_use_count 2 t = (Inr 1, t)"
proof -
  let ?t = "no_pointers\<lparr>handles := [2 \<mapsto> (Some 5, Some 7)], counters := [7 \<mapsto> 1], objects := {5}\<rparr>"
  have "sp_run one_counter (\<lambda>_. True) [Manage 1 5, Copy 2 1, Destroy 1] no_pointers = (Inr True, ?t)"
    by (simp add: no_pointers_def new_object_def sp_manage_def acquire_def new_count_def one_counter_def put_members_def bindE_def
        seqE_def sp_copy_def no_throw_def members_of_def shared_assert_def read_count_def write_count_def sp_destroy_def release_def
        whenE_def fun_eq_iff)
  moreover have "owners ?t 2 = Some (Some 5)" "{g. owners ?t g = Some (Some 5)} = {2}" by (auto simp: owners_def)
  ultimately show ?thesis
    using shared_ptr_frees_once [OF one_counter_allocates, of "[Manage 1 5, Copy 2 1, Destroy 1]" "\<lambda>_. True"]
    by (intro exI [of _ ?t]) auto
qed

end
