(* ===== verification/CliShape.thy ===== *)
theory CliShape
  imports Sessions CliWorld
begin

text \<open>
  The shape of the line editor: the buffer keeps its size whatever happens, and as long as nothing undefined
  happens the cursor stays within the line and the line within the buffer, for every sequence of
  events and every command.
\<close>

section \<open>What leaves the line alone\<close>

definition edit_kept :: "'w sess \<Rightarrow> 'w sess \<Rightarrow> bool" where
  "edit_kept s t \<longleftrightarrow> edit t = edit s"

interpretation edit_kept: step_order edit_kept
  by unfold_locales (auto simp: edit_kept_def)

lemma silent_edit: "obeys silent m \<Longrightarrow> obeys edit_kept m"
  by (auto simp: obeys_def silent_def edit_kept_def)

section \<open>Following the line\<close>

definition sized :: "line_edit \<Rightarrow> bool" where
  "sized e \<longleftrightarrow> length (cmd e) = CLI_MAX_LINE_LENGTH"

text \<open>\<open>gives e m Q\<close>: started with the line \<open>e\<close>, the program keeps the size of the buffer, and where it returns, \<open>Q\<close> holds of its result and the line.\<close>

definition gives :: "line_edit \<Rightarrow> ('w, 'a) cliprog \<Rightarrow> ('a \<Rightarrow> line_edit \<Rightarrow> bool) \<Rightarrow> bool" where
  "gives e m Q \<longleftrightarrow> sized e \<and> (\<forall>s r t. edit s = e \<longrightarrow> m s = (r, t) \<longrightarrow> sized (edit t) \<and> (\<forall>x. r = Inr x \<longrightarrow> Q x (edit t)))"

lemma givesD: "gives e m Q \<Longrightarrow> m s = (r, t) \<Longrightarrow> edit s = e \<Longrightarrow> sized (edit t) \<and> (\<forall>x. r = Inr x \<longrightarrow> Q x (edit t))"
  by (auto simp: gives_def)

lemma gives_mono: "gives e m P \<Longrightarrow> (\<And>x e'. sized e' \<Longrightarrow> P x e' \<Longrightarrow> Q x e') \<Longrightarrow> gives e m Q"
  unfolding gives_def by blast

lemma gives_bindE:
  assumes "gives e m P" and "\<And>x e'. sized e' \<Longrightarrow> P x e' \<Longrightarrow> gives e' (k x) Q"
  shows "gives e (bindE m k) Q"
  unfolding gives_def
proof (intro conjI allI impI)
  show "sized e" using assms(1) by (simp add: gives_def)
  fix s :: "'a sess" and r t
  assume e: "edit s = e" and run: "bindE m k s = (r, t)"
  obtain r1 u where u: "m s = (r1, u)" by (cases "m s")
  note m = givesD [OF assms(1) u e]
  show "sized (edit t)"
  proof (cases r1)
    case (Inl x)
    with run u m show ?thesis by (simp add: bindE_def)
  next
    case (Inr x)
    with run u have "k x u = (r, t)" by (simp add: bindE_def)
    from givesD [OF assms(2) this refl] m Inr show ?thesis by blast
  qed
  fix x
  assume r: "r = Inr x"
  with run u obtain y where y: "r1 = Inr y" "k y u = (r, t)" by (cases r1) (auto simp: bindE_def)
  from givesD [OF assms(2) y(2) refl] m y(1) r show "Q x (edit t)" by blast
qed

lemma gives_seqE: "gives e m P \<Longrightarrow> (\<And>x e'. sized e' \<Longrightarrow> P x e' \<Longrightarrow> gives e' n Q) \<Longrightarrow> gives e (seqE m n) Q"
  unfolding seqE_def by (rule gives_bindE)

lemma gives_ret: "sized e \<Longrightarrow> Q x e \<Longrightarrow> gives e (ret x) Q"
  by (simp add: gives_def)

lemma gives_throw: "sized e \<Longrightarrow> gives e (throw x) Q"
  by (simp add: gives_def)

lemma gives_kept: "obeys edit_kept m \<Longrightarrow> sized e \<Longrightarrow> (\<And>x. Q x e) \<Longrightarrow> gives e m Q"
  by (auto simp: gives_def edit_kept_def dest: obeysD)

lemma gives_edf: "gives e (k (f e)) Q \<Longrightarrow> gives e (bindE (edf f) k) Q"
  by (auto simp: gives_def edf_def)

lemma gives_clif: "sized e \<Longrightarrow> (\<And>c. gives e (k (f c)) Q) \<Longrightarrow> gives e (bindE (clif f) k) Q"
  by (auto simp: gives_def clif_def)

lemma gives_upd: "sized e \<Longrightarrow> sized (f e) \<Longrightarrow> Q () (f e) \<Longrightarrow> gives e (upd_ed f) Q"
  by (auto simp: gives_def upd_ed_def)

lemma gives_whenE: "sized e \<Longrightarrow> (b \<Longrightarrow> gives e m Q) \<Longrightarrow> (\<not> b \<Longrightarrow> Q () e) \<Longrightarrow> gives e (whenE b m) Q"
  by (cases b) (simp_all add: gives_ret)

lemma gives_if: "(b \<Longrightarrow> gives e m Q) \<Longrightarrow> (\<not> b \<Longrightarrow> gives e n Q) \<Longrightarrow> gives e (if b then m else n) Q"
  by simp

lemma overlay_length [simp]: "i + length xs \<le> length b \<Longrightarrow> length (overlay i xs b) = length b"
  by (simp add: overlay_def)

lemma gives_poke:
  assumes "sized e" and "0 \<le> i \<Longrightarrow> nat i + length xs \<le> CLI_MAX_LINE_LENGTH \<Longrightarrow> Q () (e\<lparr>cmd := overlay (nat i) xs (cmd e)\<rparr>)"
  shows "gives e (poke i xs) Q"
  unfolding poke_def using assms
  by (intro gives_edf gives_if gives_throw gives_upd) (simp_all add: sized_def)

lemma gives_set_pos: "sized e \<Longrightarrow> Q () (e\<lparr>len := l, cursor := p\<rparr>) \<Longrightarrow> gives e (set_pos l p) Q"
  unfolding set_pos_def by (rule gives_upd) (simp_all add: sized_def)

lemma shift_left_length: "shift_left n i b = Inr b' \<Longrightarrow> length b' = length b"
  by (induction n i b rule: shift_left.induct) (auto simp: bindR_def arr_get_def arr_set_def split: sum.splits if_splits)

lemma shift_right_length: "shift_right n i b = Inr b' \<Longrightarrow> length b' = length b"
  by (induction n i b rule: shift_right.induct) (auto simp: bindR_def arr_get_def arr_set_def split: sum.splits if_splits)

lemma gives_buffer:
  assumes "sized e" and "\<And>b b'. f b = Inr b' \<Longrightarrow> length b' = length b" and "\<And>b. Q () (e\<lparr>cmd := b\<rparr>)"
  shows "gives e (on_buffer f) Q"
  using assms by (auto simp: gives_def on_buffer_def edf_def bindE_def lift_def upd_ed_def sized_def split: sum.splits)

section \<open>The keys\<close>

definition shaped :: "line_edit \<Rightarrow> bool" where
  "shaped e \<longleftrightarrow> sized e \<and> 0 \<le> cursor e \<and> cursor e \<le> len e \<and> len e \<le> int CLI_MAX_LINE_LENGTH \<and>
     (oldcmd e \<longrightarrow> 0 \<le> oldl e \<and> oldl e \<le> int CLI_MAX_LINE_LENGTH)"

lemma shaped_sized: "shaped e \<Longrightarrow> sized e"
  by (simp add: shaped_def)

lemma sized_upd [simp]:
  "sized (e\<lparr>len := l\<rparr>) = sized e" "sized (e\<lparr>cursor := p\<rparr>) = sized e" "sized (e\<lparr>in_history := i\<rparr>) = sized e"
  "sized (e\<lparr>lastchar := c\<rparr>) = sized e" "sized (e\<lparr>oldcmd := b\<rparr>) = sized e" "sized (e\<lparr>oldl := l\<rparr>) = sized e"
  "sized (e\<lparr>esc := n\<rparr>) = sized e" "sized (e\<lparr>is_telnet_option := n\<rparr>) = sized e" "sized (e\<lparr>skip_bytes := n\<rparr>) = sized e"
  "sized (e\<lparr>username := u\<rparr>) = sized e" "sized (e\<lparr>password := u\<rparr>) = sized e"
  by (simp_all add: sized_def)

lemma silent_reads: "obeys silent (peek i)" "obeys silent (text_at i)" "obeys silent (put_range i n)" "obeys silent reprompt"
  unfolding peek_def text_at_def put_range_def reprompt_def by (intro silent_intro)+

lemma silent_echo: "obeys silent m \<Longrightarrow> obeys silent (echo m)"
  unfolding echo_def by (intro silent_intro)

lemma silent_show_prompt: "obeys silent show_prompt"
  unfolding show_prompt_def by (intro silent_intro)

lemma silent_state:
  "obeys silent m1 \<Longrightarrow> obeys silent m2 \<Longrightarrow> obeys silent m3 \<Longrightarrow> obeys silent m4 \<Longrightarrow> obeys silent m5 \<Longrightarrow> obeys silent m6 \<Longrightarrow>
   obeys silent (case z of STATE_LOGIN \<Rightarrow> m1 | STATE_PASSWORD \<Rightarrow> m2 | STATE_NORMAL \<Rightarrow> m3
     | STATE_ENABLE_PASSWORD \<Rightarrow> m4 | STATE_ENABLE \<Rightarrow> m5 | STATE_REQUEST \<Rightarrow> m6)"
  by (cases z) auto

lemmas silent_line = silent_intro silent_reads silent_echo silent_show_prompt silent_state

lemma silent_prompt: "obeys silent prompt" "obeys silent touch"
  unfolding prompt_def touch_def by (intro silent_line)+

lemma gives_silent: "obeys silent m \<Longrightarrow> sized e \<Longrightarrow> (\<And>x. Q x e) \<Longrightarrow> gives e m Q"
  by (rule gives_kept [OF silent_edit])

lemma gives_echo: "gives e m Q \<Longrightarrow> Q () e \<Longrightarrow> gives e (echo m) Q"
  unfolding echo_def by (intro gives_clif gives_whenE) (auto simp: gives_def)

text \<open>Only the text of the buffer changes.\<close>

definition rewritten :: "line_edit \<Rightarrow> line_edit \<Rightarrow> bool" where
  "rewritten e e' \<longleftrightarrow> (\<exists>b. e' = e\<lparr>cmd := b\<rparr>)"

lemma rewritten_trans: "rewritten e e1 \<Longrightarrow> rewritten e1 e2 \<Longrightarrow> rewritten e e2"
  by (auto simp: rewritten_def)

lemma rewritten_refl: "rewritten e e"
  by (auto simp: rewritten_def intro: exI [of _ "cmd e"])

lemma shaped_rewritten: "rewritten e e' \<Longrightarrow> sized e' \<Longrightarrow> shaped e \<Longrightarrow> shaped e'"
  by (auto simp: rewritten_def shaped_def)

lemma poke_rewrites: "sized e \<Longrightarrow> gives e (poke i xs) (\<lambda>_. rewritten e)"
  by (rule gives_poke) (auto simp: rewritten_def)

lemma clear_rewrites: "sized e \<Longrightarrow> gives e cli_clear_line (\<lambda>_. rewritten e)"
  unfolding cli_clear_line_def Let_def
  by (rule gives_edf, rule gives_seqE [where P = "\<lambda>_ e'. e' = e"], rule gives_silent, intro silent_line, simp, simp,
      rule gives_seqE [where P = "\<lambda>_. rewritten e"], simp add: poke_rewrites,
      rule gives_seqE [where P = "\<lambda>_. rewritten e"], rule gives_silent, intro silent_line, simp, simp,
      rule gives_mono [OF poke_rewrites]) (auto intro: rewritten_trans)

text \<open>\<open>shapes m\<close>: started with a line in shape, the program leaves one in shape.\<close>

definition shapes :: "('w, 'a) cliprog \<Rightarrow> bool" where
  "shapes m \<longleftrightarrow> (\<forall>e. shaped e \<longrightarrow> gives e m (\<lambda>_. shaped))"

lemma shapes_silent: "obeys silent m \<Longrightarrow> shapes m"
  by (auto simp: shapes_def shaped_def intro: gives_silent)

lemma shapes_kept: "obeys edit_kept m \<Longrightarrow> shapes m"
  by (auto simp: shapes_def shaped_def intro: gives_kept)

lemma shapes_seqE: "shapes m \<Longrightarrow> shapes n \<Longrightarrow> shapes (seqE m n)"
  unfolding shapes_def by (blast intro: gives_seqE)

lemma shapes_bindE: "shapes m \<Longrightarrow> (\<And>x. shapes (k x)) \<Longrightarrow> shapes (bindE m k)"
  unfolding shapes_def by (blast intro: gives_bindE)

lemma shapes_edf: "(\<And>e. shaped e \<Longrightarrow> gives e (k (f e)) (\<lambda>_. shaped)) \<Longrightarrow> shapes (bindE (edf f) k)"
  unfolding shapes_def by (blast intro: gives_edf)

lemma shapes_clif: "(\<And>c. shapes (k (f c))) \<Longrightarrow> shapes (bindE (clif f) k)"
  unfolding shapes_def by (blast intro: gives_clif shaped_sized)

lemma shapes_if: "(b \<Longrightarrow> shapes m) \<Longrightarrow> (\<not> b \<Longrightarrow> shapes n) \<Longrightarrow> shapes (if b then m else n)"
  by simp

lemma shapes_echo: "shapes m \<Longrightarrow> shapes (echo m)"
  unfolding shapes_def by (blast intro: gives_echo)

lemma shapesD: "shapes m \<Longrightarrow> shaped e \<Longrightarrow> gives e m (\<lambda>_. shaped)"
  by (simp add: shapes_def)

lemma shapes_clear: "shapes cli_clear_line"
  unfolding shapes_def by (blast intro: gives_mono [OF clear_rewrites] shaped_rewritten shaped_sized)

lemma shapes_poke: "shapes (poke i xs)"
  unfolding shapes_def by (blast intro: gives_mono [OF poke_rewrites] shaped_rewritten shaped_sized)

lemma shapes_upd: "(\<And>e. shaped e \<Longrightarrow> shaped (f e)) \<Longrightarrow> shapes (upd_ed f)"
  unfolding shapes_def by (blast intro: gives_upd shaped_sized)

lemma shapes_pos: "0 \<le> p \<Longrightarrow> p \<le> l \<Longrightarrow> l \<le> int CLI_MAX_LINE_LENGTH \<Longrightarrow> shapes (set_pos l p)"
  unfolding set_pos_def by (rule shapes_upd) (simp add: shaped_def)

lemma erase1_shapes:
  assumes "shaped e" and "0 < cursor e"
  shows "gives e erase1 (\<lambda>_ e'. shaped e' \<and> cursor e' = cursor e - 1)"
proof -
  let ?e = "e\<lparr>cursor := cursor e - 1\<rparr>"
  have z: "sized ?e" using assms(1) by (simp add: shaped_def)
  have shift: "gives ?e (seqE (on_buffer (shift_left n i)) m) (\<lambda>_. rewritten ?e)" if "obeys silent m" for n i and m :: "('w, unit) cliprog"
    by (rule gives_seqE [where P = "\<lambda>_. rewritten ?e"], rule gives_buffer [OF z], erule shift_left_length)
       (fastforce simp: rewritten_def, rule gives_silent [OF that])
  have cut: "gives ?e (seqE (poke i [CHR 0x00]) m) (\<lambda>_. rewritten ?e)" if "obeys silent m" for i and m :: "('w, unit) cliprog"
    by (rule gives_seqE [where P = "\<lambda>_. rewritten ?e"], rule poke_rewrites [OF z]) (rule gives_silent [OF that])
  have body: "gives ?e (if len e = cursor e then seqE (poke (cursor e - 1) [CHR 0x00]) (echo (put (backspace @ '' '' @ backspace)))
      else echo (seqE (on_buffer (shift_left (nat (len e - (cursor e - 1) + 1)) (nat (cursor e - 1))))
        (seqE (put backspace) (bindE (text_at (cursor e - 1)) (\<lambda>t. put (t @ '' '' @ backs (length t + 1))))))) (\<lambda>_. rewritten ?e)"
    by (intro gives_if cut gives_echo shift rewritten_refl silent_line)
  show ?thesis
    unfolding erase1_def
  proof (rule gives_edf, rule gives_seqE [where P = "\<lambda>_ e'. e' = ?e"])
    show "gives e (upd_ed (\<lambda>e. e\<lparr>cursor := cursor e - 1\<rparr>)) (\<lambda>_ e'. e' = ?e)"
      using assms(1) by (intro gives_upd) (simp_all add: shaped_sized)
    fix x :: unit and e'
    assume "e' = ?e"
    moreover have "gives ?e (seqE (if len e = cursor e then seqE (poke (cursor e - 1) [CHR 0x00]) (echo (put (backspace @ '' '' @ backspace)))
      else echo (seqE (on_buffer (shift_left (nat (len e - (cursor e - 1) + 1)) (nat (cursor e - 1))))
        (seqE (put backspace) (bindE (text_at (cursor e - 1)) (\<lambda>t. put (t @ '' '' @ backs (length t + 1)))))))
      (upd_ed (\<lambda>e. e\<lparr>len := len e - 1\<rparr>))) (\<lambda>_ e'. shaped e' \<and> cursor e' = cursor e - 1)"
      by (rule gives_seqE [OF body], rule gives_upd) (use assms in \<open>auto simp: rewritten_def shaped_def sized_def\<close>)
    ultimately show "gives e' (seqE (if len e = cursor e then seqE (poke (cursor e - 1) [CHR 0x00]) (echo (put (backspace @ '' '' @ backspace)))
      else echo (seqE (on_buffer (shift_left (nat (len e - (cursor e - 1) + 1)) (nat (cursor e - 1))))
        (seqE (put backspace) (bindE (text_at (cursor e - 1)) (\<lambda>t. put (t @ '' '' @ backs (length t + 1)))))))
      (upd_ed (\<lambda>e. e\<lparr>len := len e - 1\<rparr>))) (\<lambda>_ e'. shaped e' \<and> cursor e' = cursor e - 1)" by simp
  qed
qed

lemma erase_shapes: "shaped e \<Longrightarrow> int n \<le> cursor e \<Longrightarrow> gives e (erase n) (\<lambda>_. shaped)"
proof (induction n arbitrary: e)
  case 0
  then show ?case unfolding erase.simps by (intro gives_ret shaped_sized)
next
  case (Suc n)
  have "0 < cursor e" using Suc.prems(2) by simp
  then show ?case unfolding erase.simps
    by (rule gives_seqE [OF erase1_shapes [OF Suc.prems(1)]], intro Suc.IH) (use Suc.prems(2) in auto)
qed

lemma word_back_le: "word_back b \<le> length b"
proof -
  let ?sp = "takeWhile (\<lambda>c. c = CHR '' '') (rev b)"
  have "length (takeWhile (\<lambda>c. c \<noteq> CHR '' '') (drop (length ?sp) (rev b))) \<le> length b - length ?sp"
    using length_takeWhile_le [of _ "drop (length ?sp) (rev b)"] by simp
  moreover have "length ?sp \<le> length b" using length_takeWhile_le [of _ "rev b"] by simp
  ultimately show ?thesis by (simp add: word_back_def Let_def)
qed

lemma key_erase_shapes: "shapes (key_erase c)"
  unfolding key_erase_def
proof (rule shapes_edf)
  fix e
  assume e: "shaped e"
  have w: "int (word_back (take (nat (cursor e)) (cmd e))) \<le> cursor e"
    using word_back_le [of "take (nat (cursor e)) (cmd e)"] e by (auto simp: shaped_def)
  have one: "int 1 \<le> cursor e" if "\<not> (len e = 0 \<or> cursor e = 0)" using that e by (auto simp: shaped_def)
  show "gives e (if c = CHR 0x17 then if len e = 0 \<or> cursor e = 0 then ret () else erase (word_back (take (nat (cursor e)) (cmd e)))
       else if len e = 0 \<or> cursor e = 0 then put bell else erase 1) (\<lambda>_. shaped)"
    by (intro gives_if gives_ret erase_shapes gives_silent silent_line w one) (auto simp: e shaped_sized)
qed

lemma key_clear_shapes: "shapes key_clear" and key_redraw_shapes: "shapes key_redraw"
proof -
  show "shapes key_clear"
    unfolding key_clear_def
    by (intro shapes_seqE shapes_clif shapes_if shapes_clear shapes_pos; (intro shapes_edf shapesD [OF shapes_poke])?) simp_all
  show "shapes key_redraw"
    unfolding key_redraw_def by (intro shapes_silent silent_line)
qed

lemma key_kill_shapes: "shapes key_kill"
  unfolding key_kill_def
proof (rule shapes_edf)
  fix e
  assume e: "shaped e"
  have "shapes (seqE (echo (put (blanks (nat (len e - cursor e)) @ backs (nat (len e - cursor e)))))
       (seqE (poke (cursor e) (nuls (nat (len e - cursor e)))) (set_pos (cursor e) (cursor e))))"
    by (intro shapes_seqE shapes_poke shapes_pos) (use e in \<open>auto simp: shaped_def intro: shapes_silent silent_line\<close>)
  then show "gives e (whenE (cursor e \<noteq> len e) (seqE (echo (put (blanks (nat (len e - cursor e)) @ backs (nat (len e - cursor e)))))
       (seqE (poke (cursor e) (nuls (nat (len e - cursor e)))) (set_pos (cursor e) (cursor e))))) (\<lambda>_. shaped)"
    by (intro gives_whenE shapesD e) (auto simp: e shaped_sized)
qed

lemma key_motion_shapes: "shapes (key_motion k)" "shapes key_home" "shapes key_end"
proof -
  have move: "gives e (seqE m (upd_ed f)) (\<lambda>_. shaped)"
    if "shaped e" "obeys silent m" "shaped (f e)" for e f and m :: "('w, unit) cliprog"
    by (rule gives_seqE [where P = "\<lambda>_ e'. e' = e"], rule gives_silent [OF that(2)], simp add: that(1) shaped_sized, simp, rule gives_upd)
       (use that in \<open>auto simp: shaped_sized\<close>)
  show "shapes (key_motion k)" unfolding key_motion_def
    by (rule shapes_edf) (intro gives_if gives_whenE move silent_line, auto simp: shaped_def)
  show "shapes key_home" unfolding key_home_def
    by (rule shapes_edf) (intro move silent_line, auto simp: shaped_def)
  show "shapes key_end" unfolding key_end_def
    by (rule shapes_edf) (intro gives_whenE move silent_line, auto simp: shaped_def)
qed

lemma key_history_shapes: "shapes (key_history k)"
proof -
  have recall: "shapes (seqE cli_clear_line (let t' = take (CLI_MAX_LINE_LENGTH - 1) t in
             seqE (poke 0 (nuls CLI_MAX_LINE_LENGTH))
            (seqE (poke 0 t') (seqE (set_pos (int (length t')) (int (length t'))) (put_range 0 (int (length t')))))))" for t
    unfolding Let_def by (intro shapes_seqE shapes_clear shapes_poke shapes_pos shapes_silent silent_line) simp_all
  have opt: "shapes (case h of None \<Rightarrow> ret () | Some t \<Rightarrow> f t)" if "\<And>t. shapes (f t)" for h and f :: "string \<Rightarrow> ('w, unit) cliprog"
    using that by (cases h) (auto intro: shapes_silent silent_line)
  have pair: "shapes (case z of (j, h) \<Rightarrow> f j h)" if "\<And>j h. shapes (f j h)" for z and f :: "int \<Rightarrow> string option \<Rightarrow> ('w, unit) cliprog"
    using that by (cases z) auto
  have body: "shapes (if b then ret () else bindE (lift z) (\<lambda>(j, h). seqE (upd_ed (\<lambda>e. e\<lparr>in_history := j\<rparr>))
      (case h of None \<Rightarrow> ret () | Some t \<Rightarrow> seqE cli_clear_line (let t' = take (CLI_MAX_LINE_LENGTH - 1) t in
             seqE (poke 0 (nuls CLI_MAX_LINE_LENGTH))
            (seqE (poke 0 t') (seqE (set_pos (int (length t')) (int (length t'))) (put_range 0 (int (length t')))))))))" for b z
    by (intro shapes_if shapes_bindE pair shapes_seqE opt recall shapes_upd) (auto simp: shaped_def intro: shapes_silent silent_line)
  show ?thesis
    unfolding key_history_def by (intro shapes_clif shapes_edf shapesD [OF body])
qed

lemma insert_shapes:
  assumes "shaped e"
  shows "gives e (insert_char c) (\<lambda>ok e'. shaped e' \<and> (ok \<longrightarrow> 0 < len e'))"
proof -
  have z: "sized e" using assms by (rule shaped_sized)
  have e: "0 \<le> cursor e" "cursor e \<le> len e" "len e \<le> int CLI_MAX_LINE_LENGTH" "oldcmd e \<longrightarrow> 0 \<le> oldl e \<and> oldl e \<le> int CLI_MAX_LINE_LENGTH"
    using assms by (simp_all add: shaped_def)
  let ?Q = "\<lambda>ok e'. shaped e' \<and> (ok \<longrightarrow> 0 < len e')"
  have append: "gives e (seqE (poke (cursor e) [c]) (if len e < int CLI_MAX_LINE_LENGTH - 1 then seqE (set_pos (len e + 1) (cursor e + 1)) (ret True)
      else seqE (put bell) (ret False))) ?Q" if "cursor e = len e"
  proof (rule gives_seqE [OF poke_rewrites [OF z]])
    fix x :: unit and e'
    assume e': "sized e'" "rewritten e e'"
    have full: "gives e' (seqE (put bell) (ret False)) ?Q"
      by (rule gives_seqE [where P = "\<lambda>_. shaped"], rule gives_silent, intro silent_line, rule e'(1))
         (auto intro: shaped_rewritten [OF e'(2,1) assms] gives_ret)
    have more: "gives e' (seqE (set_pos (len e + 1) (cursor e + 1)) (ret True)) ?Q" if "len e < int CLI_MAX_LINE_LENGTH - 1"
      by (rule gives_seqE [where P = "\<lambda>_ f. shaped f \<and> 0 < len f"], rule gives_set_pos [OF e'(1)])
         (use e' e that \<open>cursor e = len e\<close> in \<open>auto simp: rewritten_def shaped_def intro: gives_ret\<close>)
    show "gives e' (if len e < int CLI_MAX_LINE_LENGTH - 1 then seqE (set_pos (len e + 1) (cursor e + 1)) (ret True)
        else seqE (put bell) (ret False)) ?Q"
      by (intro gives_if full more)
  qed
  have inside: "gives e (seqE (on_buffer (shift_right n i)) (seqE (poke j [c]) (seqE (put_range j m) (seqE (put b)
      (seqE (set_pos (l + 1) (cursor e + 1)) (ret True)))))) ?Q"
    if "cursor e \<noteq> len e" "l = len e \<or> l = len e - 1" "l + 1 \<le> int CLI_MAX_LINE_LENGTH" for n i j m b l
  proof (rule gives_seqE [where P = "\<lambda>_. rewritten e"], rule gives_buffer [OF z], erule shift_right_length)
    show "rewritten e (e\<lparr>cmd := b\<rparr>)" for b by (auto simp: rewritten_def)
    fix x :: unit and e'
    assume e': "sized e'" "rewritten e e'"
    have pos: "gives f (seqE (set_pos (l + 1) (cursor e + 1)) (ret True)) ?Q" if "sized f" "rewritten e f" for f
      by (rule gives_seqE [where P = "\<lambda>_ g. shaped g \<and> 0 < len g"], rule gives_set_pos [OF that(1)])
         (use that e \<open>cursor e \<noteq> len e\<close> \<open>l = len e \<or> l = len e - 1\<close> \<open>l + 1 \<le> _\<close> in \<open>auto simp: rewritten_def shaped_def intro: gives_ret\<close>)
    show "gives e' (seqE (poke j [c]) (seqE (put_range j m) (seqE (put b) (seqE (set_pos (l + 1) (cursor e + 1)) (ret True))))) ?Q"
      by (rule gives_seqE [OF poke_rewrites [OF e'(1)]], rule gives_seqE [where P = "\<lambda>_. rewritten e"], rule gives_silent,
          intro silent_line, assumption, erule rewritten_trans [OF e'(2)],
          rule gives_seqE [where P = "\<lambda>_. rewritten e"], rule gives_silent, intro silent_line, assumption, assumption, erule (1) pos)
  qed
  show ?thesis
    unfolding insert_char_def Let_def
    by (intro gives_edf gives_if append inside) (use e in auto)
qed

text \<open>What a key leaves: a line in shape, or the end of the session.\<close>

definition ends_line :: "flow \<Rightarrow> line_edit \<Rightarrow> bool" where
  "ends_line f e \<longleftrightarrow> shaped e \<or> f = Break \<and> len e < 0"

lemma shapes_ends: "shapes m \<Longrightarrow> shaped e \<Longrightarrow> gives e m ends_line"
  by (rule gives_mono [OF shapesD]) (auto simp: ends_line_def)

lemma hang_up_ends: "shaped e \<Longrightarrow> gives e hang_up ends_line"
  unfolding hang_up_def
  by (rule gives_seqE [where P = "\<lambda>_ e'. len e' < 0"], rule gives_upd) (auto simp: shaped_sized ends_line_def intro: gives_ret)

lemma go_on_shapes: "shapes m \<Longrightarrow> shapes (go_on m)"
  unfolding go_on_def by (rule shapes_seqE, assumption, intro shapes_silent silent_line)

lemma key_char_shapes: "shapes (key_char c)"
proof -
  let ?tail = "\<lambda>b e :: line_edit. if \<not> b \<and> c = CHR ''?'' \<and> cursor e = len e then
         seqE (put crlf) (seqE (upd_ed (\<lambda>e. e\<lparr>oldcmd := True, oldl := len e - 1, cursor := len e - 1\<rparr>)) (ret Break))
       else seqE (whenE (\<not> b) (put [c])) (seqE (upd_ed (\<lambda>e. e\<lparr>oldcmd := False, oldl := 0, lastchar := c\<rparr>)) (ret Continue))"
  have tl: "gives e (seqE m (seqE (upd_ed f) (ret r))) (\<lambda>_. shaped)" if "shaped e" "obeys silent m" "shaped (f e)"
    for e f r and m :: "('w, unit) cliprog"
    by (rule gives_seqE [where P = "\<lambda>_ e'. e' = e"], rule gives_silent [OF that(2)], simp add: that(1) shaped_sized, simp,
        rule gives_seqE [where P = "\<lambda>_. shaped"], rule gives_upd) (use that in \<open>auto simp: shaped_sized intro: gives_ret\<close>)
  have tl2: "gives e (?tail b e) (\<lambda>_. shaped)" if "shaped e" "0 < len e" for b e
    by (intro gives_if tl silent_line) (use that in \<open>auto simp: shaped_def sized_def\<close>)
  have rest: "gives e (bindE (clif secret) (\<lambda>b. bindE (edf (\<lambda>e. e)) (?tail b))) (\<lambda>_. shaped)" if "shaped e" "0 < len e" for e
    using that by - (rule gives_clif [OF shaped_sized], assumption, rule gives_edf, rule tl2)
  have "gives e (key_char c) (\<lambda>_. shaped)" if "shaped e" for e
    unfolding key_char_def
  proof (rule gives_bindE [OF insert_shapes [OF that]])
    fix ok e'
    assume "sized e'" "shaped e' \<and> (ok \<longrightarrow> 0 < len e')"
    then show "gives e' (if \<not> ok then ret Continue else bindE (clif secret) (\<lambda>b. bindE (edf (\<lambda>e. e)) (?tail b))) (\<lambda>_. shaped)"
      by (intro gives_if gives_ret rest) auto
  qed
  then show ?thesis unfolding shapes_def by blast
qed

lemma key_eot_ends: "shaped e \<Longrightarrow> gives e key_eot ends_line"
  unfolding key_eot_def by (intro gives_clif gives_edf gives_if gives_ret hang_up_ends) (auto simp: shaped_sized ends_line_def)

lemma key_disable_shapes: "shapes key_disable"
proof -
  have "shapes (whenE b (seqE cli_clear_line (seqE (cli_set_configmode MODE_EXEC None) reprompt)))" for b
    unfolding whenE_def by (intro shapes_if shapes_seqE shapes_clear; intro shapes_silent silent_line)
  then show ?thesis unfolding key_disable_def by (intro shapes_clif shapes_if) (auto intro: shapes_silent silent_line)
qed

subsection \<open>Completion\<close>

lemma word_start_le: "word_start t \<le> length t"
  by (simp add: word_start_def)

text \<open>At the end of the line the cursor goes back with the line.\<close>

definition at_end :: "line_edit \<Rightarrow> bool" where
  "at_end e \<longleftrightarrow> shaped e \<and> cursor e = len e"

lemma retract_end: "at_end e \<Longrightarrow> gives e retract (\<lambda>_. at_end)"
proof -
  assume e: "at_end e"
  let ?k = "word_start (take (nat (len e)) (cmd e))"
  have k: "int ?k \<le> len e" using word_start_le [of "take (nat (len e)) (cmd e)"] e by (auto simp: at_end_def shaped_def)
  show ?thesis
    unfolding retract_def Let_def
    by (rule gives_edf, rule gives_seqE [where P = "\<lambda>_ e'. e' = e"], rule gives_silent, intro silent_line,
        use e in \<open>simp add: at_end_def shaped_sized\<close>, simp, rule gives_set_pos)
       (use e k in \<open>auto simp: at_end_def shaped_def sized_def\<close>)
qed

lemma fill_end: "at_end e \<Longrightarrow> gives e (fill cs :: ('w, unit) cliprog) (\<lambda>_. at_end)"
proof (induction cs arbitrary: e)
  case Nil
  then show ?case unfolding fill.simps by (intro gives_ret) (auto simp: at_end_def shaped_sized)
next
  case (Cons c cs)
  have z: "sized e" using Cons.prems by (simp add: at_end_def shaped_sized)
  have step: "gives e (seqE (poke (len e) [c]) (seqE (set_pos (len e + 1) (len e + 1)) (fill cs :: ('w, unit) cliprog))) (\<lambda>_. at_end)"
  proof (rule gives_seqE [where P = "\<lambda>_ e'. rewritten e e' \<and> len e + 1 \<le> int CLI_MAX_LINE_LENGTH"], rule gives_poke [OF z])
    fix x :: unit and e'
    assume e': "sized e'" "rewritten e e' \<and> len e + 1 \<le> int CLI_MAX_LINE_LENGTH"
    have "gives e' (set_pos (len e + 1) (len e + 1) :: ('w, unit) cliprog) (\<lambda>_. at_end)"
      by (rule gives_set_pos [OF e'(1)]) (use e' Cons.prems in \<open>auto simp: rewritten_def at_end_def shaped_def sized_def\<close>)
    then show "gives e' (seqE (set_pos (len e + 1) (len e + 1)) (fill cs :: ('w, unit) cliprog)) (\<lambda>_. at_end)"
      by (rule gives_seqE) (rule Cons.IH)
  qed (auto simp: rewritten_def)
  show ?case unfolding fill.simps
    by (rule gives_seqE [where P = "\<lambda>_ e'. e' = e"], rule gives_silent, intro silent_line, rule z, simp, simp, rule gives_edf, rule step)
qed

lemma complete_with_shapes:
  assumes "at_end e"
  shows "gives e (complete_with ns :: ('w, unit) cliprog) (\<lambda>_. shaped)"
proof -
  have e: "shaped e" "sized e" using assms by (simp_all add: at_end_def shaped_sized)
  have one: "gives e (seqE retract (bindE (edf len) (\<lambda>l. seqE (poke l (n @ [CHR 0x00])) (seqE (poke (l + int (length n)) '' '')
      (seqE (set_pos (l + int (length n) + 1) (l + int (length n) + 1)) (put (n @ '' '')))))) :: ('w, unit) cliprog) (\<lambda>_. shaped)" for n
  proof (rule gives_seqE [OF retract_end [OF assms]], rule gives_edf)
    fix f
    assume f: "sized f" "at_end f"
    let ?p = "len f + int (length n) + 1"
    have pos: "gives g (seqE (poke (len f + int (length n)) '' '') (seqE (set_pos ?p ?p) (put (n @ '' ''))) :: ('w, unit) cliprog) (\<lambda>_. shaped)"
      if g: "sized g" "rewritten f g" "?p \<le> int CLI_MAX_LINE_LENGTH" for g
    proof (rule gives_seqE [OF poke_rewrites [OF g(1)]])
      fix x :: unit and h
      assume h: "sized h" "rewritten g h"
      have "rewritten f h" by (rule rewritten_trans [OF g(2) h(2)])
      then have "gives h (set_pos ?p ?p :: ('w, unit) cliprog) (\<lambda>_. shaped)"
        using h(1) g(3) f by (intro gives_set_pos) (auto simp: rewritten_def at_end_def shaped_def sized_def)
      then show "gives h (seqE (set_pos ?p ?p) (put (n @ '' '')) :: ('w, unit) cliprog) (\<lambda>_. shaped)"
        by (rule gives_seqE) (intro shapesD shapes_silent silent_line)
    qed
    show "gives f (seqE (poke (len f) (n @ [CHR 0x00])) (seqE (poke (len f + int (length n)) '' '')
        (seqE (set_pos ?p ?p) (put (n @ '' '')))) :: ('w, unit) cliprog) (\<lambda>_. shaped)"
    proof (rule gives_seqE [where P = "\<lambda>_ g. rewritten f g \<and> ?p \<le> int CLI_MAX_LINE_LENGTH"], rule gives_poke [OF f(1)])
      assume "0 \<le> len f" "nat (len f) + length (n @ [CHR 0x00]) \<le> CLI_MAX_LINE_LENGTH"
      then show "rewritten f (f\<lparr>cmd := overlay (nat (len f)) (n @ [CHR 0x00]) (cmd f)\<rparr>) \<and> ?p \<le> int CLI_MAX_LINE_LENGTH"
        by (auto simp: rewritten_def)
    qed (blast intro: pos)
  qed
  have many: "gives e (seqE (upd_ed (\<lambda>e. e\<lparr>lastchar := CHR 0x09\<rparr>)) (seqE retract (seqE (fill t) (put bell))) :: ('w, unit) cliprog) (\<lambda>_. shaped)" for t
  proof (rule gives_seqE [where P = "\<lambda>_. at_end"])
    show "gives e (upd_ed (\<lambda>e. e\<lparr>lastchar := CHR 0x09\<rparr>) :: ('w, unit) cliprog) (\<lambda>_. at_end)"
      using assms e by (intro gives_upd) (auto simp: at_end_def shaped_def)
    fix x :: unit and f
    assume "sized f" "at_end f"
    then show "gives f (seqE retract (seqE (fill t) (put bell)) :: ('w, unit) cliprog) (\<lambda>_. shaped)"
      by - (rule gives_seqE [OF retract_end], assumption, rule gives_seqE [OF fill_end], assumption,
          rule gives_silent, intro silent_line, auto simp: at_end_def)
  qed
  have quiet: "gives e (put t :: ('w, unit) cliprog) (\<lambda>_. shaped)" "gives e (seqE (put t) reprompt :: ('w, unit) cliprog) (\<lambda>_. shaped)" for t
    by (intro shapesD [OF shapes_silent] silent_line e)+
  show ?thesis
    unfolding complete_with_def by (rule gives_edf) (auto split: list.split intro: one many quiet)
qed

section \<open>A session\<close>

lemma shapes_new_line: "shapes new_line"
proof -
  let ?f = "\<lambda>e. e\<lparr>in_history := 0, lastchar := CHR 0x00\<rparr>"
  have old: "gives e (seqE (set_pos (oldl e) (oldl e)) (seqE (poke (oldl e) [CHR 0x00]) (upd_ed (\<lambda>e. e\<lparr>oldcmd := False, oldl := 0\<rparr>))) :: ('w, unit) cliprog) (\<lambda>_. shaped)"
    if "shaped e" "oldcmd e" for e
    by (intro shapesD [OF shapes_seqE] shapes_seqE shapes_pos shapes_poke shapes_upd that(1)) (use that in \<open>auto simp: shaped_def\<close>)
  have new: "shapes (seqE (poke 0 (nuls CLI_MAX_LINE_LENGTH)) (set_pos 0 0) :: ('w, unit) cliprog)"
    by (intro shapes_seqE shapes_poke shapes_pos) simp_all
  show "shapes (new_line :: ('w, unit) cliprog)"
    unfolding new_line_def
    by (intro shapes_seqE shapes_upd shapes_silent [OF silent_reads(4)] shapes_edf gives_if old shapesD [OF new])
       (auto simp: shaped_def)
qed

lemma shapes_bytes: "shapes (telnet_byte c)" "shapes (escape_byte c)"
proof -
  have mark: "gives e (seqE (upd_ed f) (ret b)) (\<lambda>_. shaped)" if "shaped e" "shaped (f e)" for e f b
    by (rule gives_seqE [where P = "\<lambda>_. shaped"], rule gives_upd) (use that in \<open>auto simp: shaped_sized intro: gives_ret\<close>)
  show "shapes (telnet_byte c)"
    unfolding telnet_byte_def Let_def
    by (rule shapes_edf) (intro gives_if mark gives_ret; simp add: shaped_def)
  have mark': "shapes (seqE (upd_ed (\<lambda>e. e\<lparr>esc := n\<rparr>)) (ret b))" for n and b :: "char option"
    by (intro shapes_seqE shapes_upd shapes_silent silent_line) (simp add: shaped_def)
  show "shapes (escape_byte c)"
    unfolding escape_byte_def by (rule shapes_edf, rule shapesD) (intro shapes_if mark' shapes_silent silent_line)
qed

locale line_client = session_client edit_kept K for K :: "'w client" +
  assumes auth_R: "obeys edit_kept (on_auth K f u p)"
    and enable_R: "obeys edit_kept (on_enable K f p)"
    and request_R: "obeys edit_kept (on_request K f t)"
begin

lemma tab_shapes: "shapes (key_tab K)"
proof -
  have after: "obeys edit_kept (case z of Some f \<Rightarrow> whenE b (seqE (on_call K f) (ret ())) | None \<Rightarrow> ret ())" for z b
    by (cases z) (simp_all only: option.case, (intro R_intro call_R)+)
  have found: "obeys edit_kept (if b then bindE (cli_get_request_completions K t) (\<lambda>us. ret ([], us)) else cli_get_completions K t)" for b t
    by (intro R_intro completions_R)
  have tail: "gives e (bindE (text_at 0) (\<lambda>t. bindE (if b then bindE (cli_get_request_completions K t) (\<lambda>us. ret ([], us)) else cli_get_completions K t)
       (\<lambda>(ns, us). seqE (complete_with (ns @ us)) (case z of Some f \<Rightarrow> whenE (us \<noteq> []) (seqE (on_call K f) (ret ())) | None \<Rightarrow> ret ())))) (\<lambda>_. shaped)"
    if "at_end e" for e b z
  proof -
    have e: "sized e" using that by (simp add: at_end_def shaped_sized)
    have comp: "gives e (case p of (ns, us) \<Rightarrow> seqE (complete_with (ns @ us))
        (case z of Some f \<Rightarrow> whenE (us \<noteq> []) (seqE (on_call K f) (ret ())) | None \<Rightarrow> ret ())) (\<lambda>_. shaped)" for p
      unfolding case_prod_beta
      by (rule gives_seqE [OF complete_with_shapes [OF that]]) (intro shapesD shapes_kept after)
    show ?thesis
    proof (rule gives_bindE [where P = "\<lambda>_ e'. e' = e"])
      show "gives e (text_at 0 :: ('w, string) cliprog) (\<lambda>_ e'. e' = e)"
        by (rule gives_silent [OF silent_reads(2) e]) simp
      fix t e'
      assume "e' = e"
      then show "gives e' (bindE (if b then bindE (cli_get_request_completions K t) (\<lambda>us. ret ([], us)) else cli_get_completions K t)
         (\<lambda>(ns, us). seqE (complete_with (ns @ us)) (case z of Some f \<Rightarrow> whenE (us \<noteq> []) (seqE (on_call K f) (ret ())) | None \<Rightarrow> ret ()))) (\<lambda>_. shaped)"
        by - (rule gives_bindE [where P = "\<lambda>_ e'. e' = e"], rule gives_kept [OF found], simp_all only: e comp)
    qed
  qed
  show ?thesis
    unfolding key_tab_def shapes_def
    by (intro allI impI gives_clif gives_edf gives_if gives_ret tail) (auto simp: shaped_sized at_end_def)
qed

lemma abort_shapes: "shapes (key_abort K)"
  unfolding key_abort_def
  by (intro shapes_clif shapes_if shapes_seqE shapes_clear shapes_pos shapes_silent [OF silent_reads(4)] shapes_silent [OF silent_basic(3)]
        shapes_kept option_R call_R order_intros shapes_silent [OF silent_basic(4)]) simp_all

lemma key_ends:
  assumes "shaped e"
  shows "gives e (key K c) ends_line"
proof -
  have quiet: "gives e m ends_line" if "obeys silent m" for m :: "('w, flow) cliprog"
    by (rule shapes_ends [OF shapes_silent [OF that] assms])
  have go: "gives e (go_on m) ends_line" if "shapes m" for m :: "('w, unit) cliprog"
    by (rule shapes_ends [OF go_on_shapes [OF that] assms])
  have esc: "shapes (upd_ed (\<lambda>e. e\<lparr>esc := 1\<rparr>) :: ('w, unit) cliprog)" by (rule shapes_upd) (simp add: shaped_def)
  show ?thesis
    unfolding key_def
    by (intro gives_if quiet silent_line go esc key_eot_ends [OF assms] abort_shapes tab_shapes key_erase_shapes key_redraw_shapes key_clear_shapes
          key_kill_shapes key_disable_shapes key_history_shapes key_motion_shapes shapes_ends [OF key_char_shapes assms])
qed

lemma idle_call_ends:
  assumes "shaped e"
  shows "gives e (idle_call K) ends_line"
proof -
  have call: "obeys edit_kept (case h of client_fun f \<Rightarrow> on_call K f | _ \<Rightarrow> invoke K h [] [] 0)" for h
    by (intro handler_R call_R invoke_R)
  have goes: "gives e (bindE (gets clock) (\<lambda>t. seqE (upd_cli (g t)) (ret Continue)) :: ('w, flow) cliprog) ends_line" for g :: "int \<Rightarrow> cli_def \<Rightarrow> cli_def"
    by (rule shapes_ends [OF shapes_silent assms]) (intro silent_line)
  have "gives e (bindE (case h of client_fun f \<Rightarrow> on_call K f | _ \<Rightarrow> invoke K h [] [] 0) (\<lambda>r. if r = CLI_OK
      then bindE (gets clock) (\<lambda>t. seqE (upd_cli (\<lambda>c. c\<lparr>cl_last_action := t\<rparr>)) (ret Continue)) else hang_up)) ends_line" for h
  proof (rule gives_bindE [where P = "\<lambda>_ e'. e' = e"], rule gives_kept [OF call])
    fix r :: int and e'
    assume "e' = e"
    then show "gives e' (if r = CLI_OK then bindE (gets clock) (\<lambda>t. seqE (upd_cli (\<lambda>c. c\<lparr>cl_last_action := t\<rparr>)) (ret Continue)) else hang_up :: ('w, flow) cliprog) ends_line"
      using goes [of "\<lambda>t c. c\<lparr>cl_last_action := t\<rparr>"] by (simp add: hang_up_ends [OF assms])
  qed (simp_all add: assms shaped_sized)
  then show ?thesis
    unfolding idle_call_def by (intro gives_clif shaped_sized [OF assms]) (simp add: hang_up_ends [OF assms] split: option.split)
qed

lemma on_idle_ends:
  assumes "shaped e"
  shows "gives e (on_idle K) ends_line"
proof -
  have z: "sized e" by (rule shaped_sized [OF assms])
  have ask: "obeys edit_kept (case f of None \<Rightarrow> ret CLI_OK | Some f \<Rightarrow> on_call K f)" for f
    by (intro option_R order_intros call_R)
  have late: "gives e (bindE (clif (\<lambda>c. c)) (\<lambda>c. bindE (gets clock) (\<lambda>t. if P c t then idle_call K else ret Continue))) ends_line"
    for P :: "cli_def \<Rightarrow> int \<Rightarrow> bool"
    by (rule gives_clif [OF z], rule gives_bindE [where P = "\<lambda>_ e'. e' = e"], rule gives_silent, intro silent_line, rule z, simp)
       (use idle_call_ends [OF assms] in \<open>auto simp: ends_line_def assms z intro: gives_ret\<close>)
  have "gives e (bindE (case f of None \<Rightarrow> ret CLI_OK | Some f \<Rightarrow> on_call K f) (\<lambda>r. if r \<noteq> CLI_OK then hang_up
      else bindE (clif (\<lambda>c. c)) (\<lambda>c. bindE (gets clock) (\<lambda>t. if P c t then idle_call K else ret Continue)))) ends_line"
    for f and P :: "cli_def \<Rightarrow> int \<Rightarrow> bool"
    by (rule gives_bindE [where P = "\<lambda>_ e'. e' = e"], rule gives_kept [OF ask z]) (use hang_up_ends [OF assms] late in auto)
  then show ?thesis unfolding on_idle_def by (rule gives_clif [OF z])
qed

lemma byte_ends:
  assumes "shaped e"
  shows "gives e (handle_input K (Byte c)) ends_line"
proof -
  have key: "gives f (case k of None \<Rightarrow> ret Continue | Some k \<Rightarrow> key K k) ends_line" if "shaped f" for f k
    using key_ends [OF that] that by (cases k) (auto simp: ends_line_def shaped_sized intro: gives_ret)
  have esc: "gives f (bindE (escape_byte c) (\<lambda>k. case k of None \<Rightarrow> ret Continue | Some k \<Rightarrow> key K k)) ends_line" if "shaped f" for f
    by (rule gives_bindE [OF shapesD [OF shapes_bytes(2) that]]) (rule key)
  have "gives f (bindE (telnet_byte c) (\<lambda>mine. if \<not> mine then ret Continue
      else bindE (escape_byte c) (\<lambda>k. case k of None \<Rightarrow> ret Continue | Some k \<Rightarrow> key K k))) ends_line" if "shaped f" for f
    by (rule gives_bindE [OF shapesD [OF shapes_bytes(1) that]], intro gives_if esc gives_ret) (auto simp: ends_line_def shaped_sized)
  then show ?thesis
    unfolding handle_input_def input.case by (rule gives_seqE [OF shapesD [OF shapes_silent [OF silent_prompt(2)] assms]])
qed

lemma input_ends: "shaped e \<Longrightarrow> gives e (handle_input K i) ends_line"
proof (cases i)
  case Eof
  assume "shaped e"
  then show ?thesis
    unfolding handle_input_def Eof input.case by (rule gives_seqE [OF shapesD [OF shapes_silent [OF silent_prompt(2)]]]) (rule hang_up_ends)
next
  case (Byte c)
  assume "shaped e"
  then show ?thesis unfolding Byte by (rule byte_ends)
qed (auto simp: handle_input_def ends_line_def shaped_sized intro: on_idle_ends hang_up_ends gives_ret)

text \<open>A line that was entered is run, and leaves the editor as it is but for the name and the password.\<close>

lemma lines_shape: "shapes (line_login :: ('w, unit) cliprog)" "shapes (line_password K)" "shapes (line_enable K)" "shapes (line_request K)" "shapes (line_command K)"
proof -
  note kept = shapes_kept [OF silent_edit]
  have name: "shapes (upd_ed (\<lambda>e. e\<lparr>username := u\<rparr>) :: ('w, unit) cliprog)" "shapes (upd_ed (\<lambda>e. e\<lparr>password := v\<rparr>) :: ('w, unit) cliprog)"
      "shapes (upd_ed (\<lambda>e. e\<lparr>username := u, password := v\<rparr>) :: ('w, unit) cliprog)" for u v
    by (rule shapes_upd, simp add: shaped_def)+
  have parts: "shapes (text_at i :: ('w, string) cliprog)" "shapes (set_state st :: ('w, unit) cliprog)" "shapes (access_denied K)"
      "shapes (cli_error X t :: ('w, unit) cliprog)" "shapes (reprompt :: ('w, unit) cliprog)" for i st X t
    unfolding set_state_def access_denied_def by (intro kept silent_line)+
  show "shapes (line_login :: ('w, unit) cliprog)"
    unfolding line_login_def by (intro shapes_bindE shapes_seqE parts name)
  have opt: "shapes (case z of None \<Rightarrow> m | Some x \<Rightarrow> f x)" if "shapes m" "\<And>x. shapes (f x)" for z m and f :: "'a \<Rightarrow> ('w, 'b) cliprog"
    using that by (cases z) auto
  have auth: "shapes (case z of Some f \<Rightarrow> bindE (on_auth K f u p) (\<lambda>r. ret (r = CLI_OK)) | None \<Rightarrow> ret False)" for z u p
    by (intro opt shapes_kept R_intro auth_R)
  show "shapes (line_password K)"
    unfolding line_password_def
    by (intro shapes_bindE opt shapes_seqE shapes_if parts name auth kept) (intro silent_line)+
  have en: "shapes (case z of None \<Rightarrow> ret False | Some f \<Rightarrow> bindE (on_enable K f p) (\<lambda>r. ret (r \<noteq> 0)))" for z p
    by (intro opt shapes_kept R_intro enable_R)
  show "shapes (line_enable K)"
    unfolding line_enable_def Let_def
    by (intro shapes_bindE shapes_seqE shapes_if parts en kept) (intro silent_line)+
  show "shapes (line_request K)"
    unfolding line_request_def by (intro shapes_bindE shapes_seqE shapes_kept request_R silent_edit) (intro silent_line)+
  show "shapes (line_command K)"
    unfolding line_command_def cli_add_history_def
    by (intro shapes_bindE shapes_seqE shapes_kept run_command_R silent_edit) (intro silent_line)+
qed

lemma line_done_shapes:
  assumes "shaped e \<or> len e < 0 \<and> sized e"
  shows "gives e (line_done K after) (\<lambda>fin e'. fin \<or> shaped e')"
proof -
  have z: "sized e" using assms shaped_sized by blast
  let ?again = "seqE (modify (\<lambda>s. s\<lparr>clock := after\<rparr>)) (seqE touch (ret False)) :: ('w, bool) cliprog"
  have again: "shapes ?again" by (intro shapes_silent silent_line silent_prompt)
  have st: "shapes (case st of STATE_LOGIN \<Rightarrow> if b then ret False else seqE line_login ?again
     | STATE_PASSWORD \<Rightarrow> seqE (line_password K) ?again | STATE_ENABLE_PASSWORD \<Rightarrow> seqE (line_enable K) ?again
     | STATE_REQUEST \<Rightarrow> bindE (line_request K) (\<lambda>r. if r = CLI_QUIT then ret True else ?again)
     | _ \<Rightarrow> if b then ret False else bindE (line_command K) (\<lambda>r. if r = CLI_QUIT then ret True else ?again))" for st b
    by (cases st) (simp_all only: cli_state.case, (intro shapes_if shapes_seqE shapes_bindE lines_shape again shapes_silent silent_line)+)
  have "gives e (if len e < 0 then ret True else m) (\<lambda>fin e'. fin \<or> shaped e')" if "shapes m" for m :: "('w, bool) cliprog"
    using assms shapesD [OF that, of e] z by (auto intro: gives_ret elim: gives_mono)
  from this [OF st] show ?thesis
    unfolding line_done_def Let_def by (intro gives_edf gives_clif z)
qed

lemma step_shapes:
  assumes "shaped e"
  shows "gives e (cli_step K ev) (\<lambda>fin e'. fin \<or> shaped e')"
proof -
  obtain i t1 t2 where ev: "ev = (i, t1, t2)" by (cases ev)
  let ?Q = "\<lambda>fin e'. fin \<or> shaped e'"
  have on: "gives f (seqE prompt (ret False)) ?Q" if "shaped f" for f
    by (rule gives_mono [OF shapesD [OF shapes_silent that]]) (intro silent_line silent_prompt, simp)
  have next_line: "gives f (seqE new_line (seqE prompt (ret False))) ?Q" if "shaped f" for f
    by (rule gives_seqE [OF shapesD [OF shapes_new_line that]]) (rule on)
  have brk: "gives f (bindE (line_done K t2) (\<lambda>fin. if fin then ret True else seqE new_line (seqE prompt (ret False)))) ?Q"
    if "shaped f \<or> len f < 0 \<and> sized f" for f
    by (rule gives_bindE [OF line_done_shapes [OF that]], intro gives_if next_line gives_ret) auto
  have "gives e (bindE (handle_input K i) (\<lambda>fl. case fl of Continue \<Rightarrow> seqE prompt (ret False)
      | Break \<Rightarrow> bindE (line_done K t2) (\<lambda>fin. if fin then ret True else seqE new_line (seqE prompt (ret False))))) ?Q"
  proof (rule gives_bindE [OF input_ends [OF assms]])
    fix fl f
    assume "sized f" "ends_line fl f"
    then show "gives f (case fl of Continue \<Rightarrow> seqE prompt (ret False)
      | Break \<Rightarrow> bindE (line_done K t2) (\<lambda>fin. if fin then ret True else seqE new_line (seqE prompt (ret False)))) ?Q"
      by (cases fl) (auto simp: ends_line_def intro: on brk)
  qed
  moreover have "gives e (modify (\<lambda>s. s\<lparr>clock := t1\<rparr>) :: ('w, unit) cliprog) (\<lambda>_ e'. e' = e)"
    by (rule gives_silent, intro silent_line, rule shaped_sized [OF assms], simp)
  ultimately show ?thesis
    unfolding cli_step_def ev prod.case by - (rule gives_seqE, assumption, simp)
qed

lemma events_shape: "shaped e \<Longrightarrow> gives e (cli_events K es) (\<lambda>fin e'. fin \<or> shaped e')"
proof (induction es arbitrary: e)
  case Nil
  then show ?case unfolding cli_events.simps by (intro gives_ret) (auto simp: shaped_sized)
next
  case (Cons ev es)
  show ?case unfolding cli_events.simps
    by (rule gives_bindE [OF step_shapes [OF Cons.prems]], intro gives_if gives_ret Cons.IH) auto
qed

lemma start_shapes: "gives e (cli_start K) (\<lambda>_. shaped)" if "sized e"
proof -
  let ?e = "\<lparr>cmd = nuls CLI_MAX_LINE_LENGTH, len = 0, cursor = 0, oldcmd = False, oldl = 0, is_telnet_option = 0,
       skip_bytes = 0, esc = 0, in_history = 0, lastchar = CHR 0x00, username = None, password = None\<rparr>"
  have e: "shaped ?e" by (simp add: shaped_def sized_def nuls_def)
  have priv: "shapes (cli_set_privilege p :: ('w, int) cliprog)" for p by (intro shapes_silent silent_intro)
  have parts: "shapes (upd_cli g :: ('w, unit) cliprog)" "shapes (whenE b (put x) :: ('w, unit) cliprog)"
      "shapes ((case z of None \<Rightarrow> ret () | Some b \<Rightarrow> cli_error (rx K) b) :: ('w, unit) cliprog)"
      "shapes (whenE b (upd_cli g) :: ('w, unit) cliprog)" "shapes (cli_set_configmode m d :: ('w, int) cliprog)"
      "shapes (prompt :: ('w, unit) cliprog)" "shapes (touch :: ('w, unit) cliprog)" "shapes (clif g' :: ('w, cli_def) cliprog)" for g g' b x z m d
    by (intro shapes_silent silent_line silent_prompt)+
  show ?thesis
    unfolding cli_start_def rebuild_def set_state_def cli_free_history_def
    by (rule gives_seqE [where P = "\<lambda>_. shaped"], rule gives_upd, use that e in \<open>simp_all add: shaped_sized\<close>)
       (rule shapesD, intro shapes_seqE shapes_bindE priv parts shapes_new_line)
qed

end

section \<open>The sessions of the daemon\<close>

lemma lmb_call_kept: "obeys edit_kept (on_call (lmb_client sys L X cr) f)"
  unfolding lmb_client_def client.simps idle_timeout_def by (intro silent_edit silent_intro)

interpretation lmb_line: line_client "lmb_client sys L X cr" for sys L X cr
proof
  show "obeys edit_kept (on_command (lmb_client sys L X cr) f c argv argc)" for f c argv argc
    using command_kept [of sys L X f c argv argc]
    by (auto simp: lmb_client_def obeys_def world_along_def session_kept_def edit_kept_def)
  show "obeys edit_kept (on_call (lmb_client sys L X cr) f)" for f by (rule lmb_call_kept)
qed (simp_all add: edit_kept_def silent_def lmb_client_def obeys_def)


lemma at_line_shaped: "at_line s ln \<Longrightarrow> shaped (edit s)"
  by (cases ln) (auto simp: at_line_def holds_def shaped_def sized_def nuls_def)



end
