(* ===== verification/WinPort.thy ===== *)
theory WinPort
  imports SerialImpl
begin

text \<open>
  The Windows implementation of a serial port, \<^verbatim>\<open>src/src/serial/src/impl/win.cc\<close> with the class of
  \<^verbatim>\<open>win.h\<close>. The functions of the Windows API are a parameter that answers each call from the calls before
  it. The daemon is not built for Windows; the library is.
\<close>

section \<open>The Windows API\<close>

type_synonym wchar = "16 word"
type_synonym handle = int

definition INVALID_HANDLE_VALUE :: handle where "INVALID_HANDLE_VALUE = - 1"

text \<open>The fields of a \<open>DCB\<close> the code sets; \<open>dcb_rest\<close> stands for the others.\<close>

record dcb =
  BaudRate :: u32
  ByteSize :: u8
  Parity :: u8
  StopBits :: u8
  fOutxCtsFlow :: bool
  fRtsControl :: "2 word"
  fOutX :: bool
  fInX :: bool
  dcb_rest :: "u8 list"

record commtimeouts =
  ReadIntervalTimeout :: u32
  ReadTotalTimeoutMultiplier :: u32
  ReadTotalTimeoutConstant :: u32
  WriteTotalTimeoutMultiplier :: u32
  WriteTotalTimeoutConstant :: u32

datatype wincall =
    CreateFileW "wchar list"
  | CloseHandle handle
  | GetCommState handle
  | SetCommState handle dcb
  | SetCommTimeouts handle commtimeouts
  | ClearCommError handle
  | ReadFile handle u32
  | WriteFile handle "u8 list"
  | FlushFileBuffers handle
  | EscapeCommFunction handle u32
  | SetCommMask handle u32
  | WaitCommEvent handle
  | GetCommModemStatus handle
  | CreateMutex
  | WaitForSingleObject handle
  | ReleaseMutex handle

text \<open>
  A reply: whether the call succeeded, the handle or the wait result it returns, what \<open>GetLastError\<close> and \<open>errno\<close> give after it, and
  what it stores through its pointers.
\<close>

record winreply =
  w_ok :: bool
  w_handle :: handle
  w_wait :: u32
  w_last_error :: u32
  w_errno :: int
  w_dcb :: dcb
  w_in_que :: u32
  w_data :: "u8 list"
  w_written :: u32
  w_modem :: u32

type_synonym win_trace = "(wincall \<times> winreply) list"

type_synonym winapi = "win_trace \<Rightarrow> wincall \<Rightarrow> winreply"

definition SETRTS :: u32 where "SETRTS = 3"
definition CLRRTS :: u32 where "CLRRTS = 4"
definition SETDTR :: u32 where "SETDTR = 5"
definition CLRDTR :: u32 where "CLRDTR = 6"
definition SETBREAK :: u32 where "SETBREAK = 8"
definition CLRBREAK :: u32 where "CLRBREAK = 9"
definition EV_CTS :: u32 where "EV_CTS = 0x8"
definition EV_DSR :: u32 where "EV_DSR = 0x10"
definition EV_RLSD :: u32 where "EV_RLSD = 0x20"
definition EV_RING :: u32 where "EV_RING = 0x100"
definition MS_CTS_ON :: u32 where "MS_CTS_ON = 0x10"
definition MS_DSR_ON :: u32 where "MS_DSR_ON = 0x20"
definition MS_RING_ON :: u32 where "MS_RING_ON = 0x40"
definition MS_RLSD_ON :: u32 where "MS_RLSD_ON = 0x80"
definition ERROR_FILE_NOT_FOUND :: u32 where "ERROR_FILE_NOT_FOUND = 2"
definition WAIT_OBJECT_0 :: u32 where "WAIT_OBJECT_0 = 0"

section \<open>The object\<close>

record win_impl =
  win_port :: "wchar list"
  win_fd :: handle
  win_is_open :: bool
  win_timeout :: Timeout
  win_baudrate :: u32
  win_parity :: parity_t
  win_bytesize :: bytesize_t
  win_stopbits :: stopbits_t
  win_flowcontrol :: flowcontrol_t
  win_read_mutex :: handle
  win_write_mutex :: handle

type_synonym 'a win = "(win_impl \<times> win_trace, 'a) prog"

definition wcall :: "winapi \<Rightarrow> wincall \<Rightarrow> winreply win" where
  "wcall W c = (\<lambda>(s, t). (Inr (W t c), (s, t @ [(c, W t c)])))"

definition wfld :: "(win_impl \<Rightarrow> 'a) \<Rightarrow> 'a win" where
  "wfld f = gets (\<lambda>(s, t). f s)"

definition wupd :: "(win_impl \<Rightarrow> win_impl) \<Rightarrow> unit win" where
  "wupd f = modify (\<lambda>(s, t). (f s, t))"

text \<open>The pattern \<open>if (!call) THROW(...)\<close>.\<close>

definition wcall_or :: "winapi \<Rightarrow> wincall \<Rightarrow> (winreply \<Rightarrow> string) \<Rightarrow> winreply win" where
  "wcall_or W c e = bindE (wcall W c) (\<lambda>r. if w_ok r then ret r else throw (IOException (e r)))"

definition with_last_error :: "string \<Rightarrow> winreply \<Rightarrow> string" where
  "with_last_error what r = what @ show_nat (unat (w_last_error r))"

section \<open>The name of the port\<close>

text \<open>A \<open>char\<close> is signed; the narrowing back keeps the low byte.\<close>

definition widen :: "char \<Rightarrow> wchar" where
  "widen c = scast (of_char c :: u8)"

definition narrow :: "wchar \<Rightarrow> char" where
  "narrow w = char_of (unat w)"

definition com_port_prefix :: "wchar list" where
  "com_port_prefix = map widen [CHR 0x5C, CHR 0x5C, CHR ''.'', CHR 0x5C]"

text \<open>The comparison is with the whole name.\<close>

definition prefix_port_if_needed :: "wchar list \<Rightarrow> wchar list" where
  "prefix_port_if_needed input = (if input \<noteq> com_port_prefix then com_port_prefix @ input else input)"

definition win_setPort :: "string \<Rightarrow> unit win" where
  "win_setPort port = wupd (\<lambda>s. s\<lparr>win_port := map widen port\<rparr>)"

definition win_getPort :: "string win" where
  "win_getPort = wfld (\<lambda>s. map narrow (win_port s))"

section \<open>Configuring\<close>

text \<open>
  The cases of the \<open>switch\<close> whose constant the Windows headers define; each constant is the rate.
  The others are compiled out and reach the default.
\<close>

definition cbr_codes :: "(u32 \<times> u32) list" where
  "cbr_codes = [(110, 110), (300, 300), (600, 600), (1200, 1200), (2400, 2400), (4800, 4800), (9600, 9600), (14400, 14400),
     (19200, 19200), (57600, 57600), (38400, 38400), (115200, 115200), (128000, 128000), (256000, 256000)]"

definition win_baud :: "u32 \<Rightarrow> dcb \<Rightarrow> dcb" where
  "win_baud baud d = d\<lparr>BaudRate := (case map_of cbr_codes baud of Some c \<Rightarrow> c | None \<Rightarrow> baud)\<rparr>"

definition win_char_len :: "bytesize_t \<Rightarrow> dcb \<Rightarrow> exn + dcb" where
  "win_char_len b d = (case b of
       eightbits \<Rightarrow> Inr (d\<lparr>ByteSize := 8\<rparr>)
     | sevenbits \<Rightarrow> Inr (d\<lparr>ByteSize := 7\<rparr>)
     | sixbits \<Rightarrow> Inr (d\<lparr>ByteSize := 6\<rparr>)
     | fivebits \<Rightarrow> Inr (d\<lparr>ByteSize := 5\<rparr>)
     | bytesize_cast n \<Rightarrow> Inl (InvalidArgument ''invalid char len''))"

definition win_stop_bits :: "stopbits_t \<Rightarrow> dcb \<Rightarrow> exn + dcb" where
  "win_stop_bits b d = (case b of
       stopbits_one \<Rightarrow> Inr (d\<lparr>StopBits := 0\<rparr>)
     | stopbits_one_point_five \<Rightarrow> Inr (d\<lparr>StopBits := 1\<rparr>)
     | stopbits_two \<Rightarrow> Inr (d\<lparr>StopBits := 2\<rparr>)
     | stopbits_cast n \<Rightarrow> Inl (InvalidArgument ''invalid stop bit''))"

definition win_parity_bits :: "parity_t \<Rightarrow> dcb \<Rightarrow> exn + dcb" where
  "win_parity_bits p d = (case p of
       parity_none \<Rightarrow> Inr (d\<lparr>Parity := 0\<rparr>)
     | parity_even \<Rightarrow> Inr (d\<lparr>Parity := 2\<rparr>)
     | parity_odd \<Rightarrow> Inr (d\<lparr>Parity := 1\<rparr>)
     | parity_mark \<Rightarrow> Inr (d\<lparr>Parity := 3\<rparr>)
     | parity_space \<Rightarrow> Inr (d\<lparr>Parity := 4\<rparr>)
     | parity_cast n \<Rightarrow> Inl (InvalidArgument ''invalid parity''))"

definition win_flow :: "flowcontrol_t \<Rightarrow> dcb \<Rightarrow> dcb" where
  "win_flow f d = (case f of
       flowcontrol_none \<Rightarrow> d\<lparr>fOutxCtsFlow := False, fRtsControl := 0, fOutX := False, fInX := False\<rparr>
     | flowcontrol_software \<Rightarrow> d\<lparr>fOutxCtsFlow := False, fRtsControl := 0, fOutX := True, fInX := True\<rparr>
     | flowcontrol_hardware \<Rightarrow> d\<lparr>fOutxCtsFlow := True, fRtsControl := 3, fOutX := False, fInX := False\<rparr>
     | flowcontrol_cast n \<Rightarrow> d)"

definition win_settings :: "win_impl \<Rightarrow> dcb \<Rightarrow> exn + dcb" where
  "win_settings s d =
     bindR (win_char_len (win_bytesize s) (win_baud (win_baudrate s) d)) (\<lambda>d.
     bindR (win_stop_bits (win_stopbits s) d) (\<lambda>d.
     bindR (win_parity_bits (win_parity s) d) (\<lambda>d. Inr (win_flow (win_flowcontrol s) d))))"

definition win_timeouts :: "Timeout \<Rightarrow> commtimeouts" where
  "win_timeouts t = \<lparr>ReadIntervalTimeout = inter_byte_timeout t, ReadTotalTimeoutMultiplier = read_timeout_multiplier t,
     ReadTotalTimeoutConstant = read_timeout_constant t, WriteTotalTimeoutMultiplier = write_timeout_multiplier t,
     WriteTotalTimeoutConstant = write_timeout_constant t\<rparr>"

definition win_reconfigurePort :: "winapi \<Rightarrow> unit win" where
  "win_reconfigurePort W =
     bindE (wfld (\<lambda>s. s)) (\<lambda>s.
     if win_fd s = INVALID_HANDLE_VALUE then throw (IOException ''Invalid file descriptor, is the serial port open?'')
     else
       bindE (wcall_or W (GetCommState (win_fd s)) (\<lambda>r. ''Error getting the serial port state.'')) (\<lambda>r.
       bindE (lift (win_settings s (w_dcb r))) (\<lambda>d.
       bindE (wcall W (SetCommState (win_fd s) d)) (\<lambda>r.
       if \<not> w_ok r then
         seqE (wcall W (CloseHandle (win_fd s))) (throw (IOException ''Error setting serial port settings.''))
       else
         seqE (wcall_or W (SetCommTimeouts (win_fd s) (win_timeouts (win_timeout s))) (\<lambda>r. ''Error setting timeouts.''))
              (ret ())))))"

section \<open>Opening and closing\<close>

definition win_open :: "winapi \<Rightarrow> unit win" where
  "win_open W =
     bindE (wfld (\<lambda>s. s)) (\<lambda>s.
     if win_port s = [] then throw (InvalidArgument ''Empty port is invalid.'')
     else if win_is_open s then throw (SerialException ''Serial port already open.'')
     else
       bindE (wcall W (CreateFileW (prefix_port_if_needed (win_port s)))) (\<lambda>r.
       seqE (wupd (\<lambda>s. s\<lparr>win_fd := w_handle r\<rparr>))
       (if w_handle r = INVALID_HANDLE_VALUE then
          (if w_last_error r = ERROR_FILE_NOT_FOUND then
             bindE win_getPort (\<lambda>p. throw (IOException (''Specified port, '' @ p @ '', does not exist.'')))
           else throw (IOException (''Unknown error opening the serial port: '' @ show_int (w_errno r))))
        else seqE (win_reconfigurePort W) (wupd (\<lambda>s. s\<lparr>win_is_open := True\<rparr>)))))"

definition win_close :: "winapi \<Rightarrow> unit win" where
  "win_close W =
     bindE (wfld (\<lambda>s. s)) (\<lambda>s.
     whenE (win_is_open s)
       (seqE (whenE (win_fd s \<noteq> INVALID_HANDLE_VALUE)
               (bindE (wcall_or W (CloseHandle (win_fd s)) (with_last_error ''Error while closing serial port: '')) (\<lambda>r.
                wupd (\<lambda>s. s\<lparr>win_fd := INVALID_HANDLE_VALUE\<rparr>))))
             (wupd (\<lambda>s. s\<lparr>win_is_open := False\<rparr>))))"

definition win_isOpen :: "bool win" where
  "win_isOpen = wfld win_is_open"

text \<open>The members before the constructor's body runs, the body, and the destructor.\<close>

definition new_win :: "string \<Rightarrow> u32 \<Rightarrow> bytesize_t \<Rightarrow> parity_t \<Rightarrow> stopbits_t \<Rightarrow> flowcontrol_t \<Rightarrow> win_impl" where
  "new_win port baud b p st f = \<lparr>win_port = map widen port, win_fd = INVALID_HANDLE_VALUE, win_is_open = False,
     win_timeout = default_Timeout, win_baudrate = baud, win_parity = p, win_bytesize = b, win_stopbits = st, win_flowcontrol = f,
     win_read_mutex = 0, win_write_mutex = 0\<rparr>"

definition win_ctor :: "winapi \<Rightarrow> unit win" where
  "win_ctor W =
     bindE (wcall W CreateMutex) (\<lambda>r. seqE (wupd (\<lambda>s. s\<lparr>win_read_mutex := w_handle r\<rparr>))
    (bindE (wcall W CreateMutex) (\<lambda>r. seqE (wupd (\<lambda>s. s\<lparr>win_write_mutex := w_handle r\<rparr>))
    (bindE (wfld win_port) (\<lambda>p. whenE (p \<noteq> []) (win_open W))))))"

definition win_dtor :: "winapi \<Rightarrow> unit win" where
  "win_dtor W =
     seqE (win_close W)
    (bindE (wfld (\<lambda>s. s)) (\<lambda>s.
     seqE (wcall W (CloseHandle (win_read_mutex s))) (seqE (wcall W (CloseHandle (win_write_mutex s))) (ret ()))))"

section \<open>Reading and writing\<close>

definition if_open :: "string \<Rightarrow> (handle \<Rightarrow> 'a win) \<Rightarrow> 'a win" where
  "if_open who f = bindE (wfld (\<lambda>s. s)) (\<lambda>s.
     if \<not> win_is_open s then throw (PortNotOpenedException who) else f (win_fd s))"

definition win_available :: "winapi \<Rightarrow> nat win" where
  "win_available W =
     bindE (wfld (\<lambda>s. s)) (\<lambda>s.
     if \<not> win_is_open s then ret 0
     else bindE (wcall_or W (ClearCommError (win_fd s)) (with_last_error ''Error while checking status of the serial port: '')) (\<lambda>r.
       ret (unat (w_in_que r))))"

definition win_waitReadable :: "u32 \<Rightarrow> bool win" where
  "win_waitReadable timeout = throw (IOException ''waitReadable is not implemented on Windows.'')"

definition win_waitByteTimes :: "nat \<Rightarrow> unit win" where
  "win_waitByteTimes count = throw (IOException ''waitByteTimes is not implemented on Windows.'')"

text \<open>The lengths are cast to a \<open>DWORD\<close>.\<close>

definition win_read :: "winapi \<Rightarrow> nat \<Rightarrow> u8 list win" where
  "win_read W n = if_open ''Serial::read'' (\<lambda>fd.
     bindE (wcall_or W (ReadFile fd (of_nat n)) (with_last_error ''Error while reading from the serial port: '')) (\<lambda>r. ret (w_data r)))"

definition win_write :: "winapi \<Rightarrow> u8 list \<Rightarrow> nat win" where
  "win_write W bs = if_open ''Serial::write'' (\<lambda>fd.
     bindE (wcall_or W (WriteFile fd (take (unat (of_nat (length bs) :: u32)) bs))
        (with_last_error ''Error while writing to the serial port: '')) (\<lambda>r. ret (unat (w_written r))))"

definition win_flush :: "winapi \<Rightarrow> unit win" where
  "win_flush W = if_open ''Serial::flush'' (\<lambda>fd. seqE (wcall W (FlushFileBuffers fd)) (ret ()))"

definition win_flushInput :: "unit win" where
  "win_flushInput = throw (IOException ''flushInput is not supported on Windows.'')"

definition win_flushOutput :: "unit win" where
  "win_flushOutput = throw (IOException ''flushOutput is not supported on Windows.'')"

section \<open>Setting and getting\<close>

definition win_set :: "winapi \<Rightarrow> (win_impl \<Rightarrow> win_impl) \<Rightarrow> unit win" where
  "win_set W f = seqE (wupd f) (bindE (wfld win_is_open) (\<lambda>b. whenE b (win_reconfigurePort W)))"

definition win_setTimeout :: "winapi \<Rightarrow> Timeout \<Rightarrow> unit win" where
  "win_setTimeout W x = win_set W (\<lambda>s. s\<lparr>win_timeout := x\<rparr>)"

definition win_setBaudrate :: "winapi \<Rightarrow> u32 \<Rightarrow> unit win" where
  "win_setBaudrate W x = win_set W (\<lambda>s. s\<lparr>win_baudrate := x\<rparr>)"

definition win_setBytesize :: "winapi \<Rightarrow> bytesize_t \<Rightarrow> unit win" where
  "win_setBytesize W x = win_set W (\<lambda>s. s\<lparr>win_bytesize := x\<rparr>)"

definition win_setParity :: "winapi \<Rightarrow> parity_t \<Rightarrow> unit win" where
  "win_setParity W x = win_set W (\<lambda>s. s\<lparr>win_parity := x\<rparr>)"

definition win_setStopbits :: "winapi \<Rightarrow> stopbits_t \<Rightarrow> unit win" where
  "win_setStopbits W x = win_set W (\<lambda>s. s\<lparr>win_stopbits := x\<rparr>)"

definition win_setFlowcontrol :: "winapi \<Rightarrow> flowcontrol_t \<Rightarrow> unit win" where
  "win_setFlowcontrol W x = win_set W (\<lambda>s. s\<lparr>win_flowcontrol := x\<rparr>)"

definition win_getTimeout :: "Timeout win" where "win_getTimeout = wfld win_timeout"
definition win_getBaudrate :: "u32 win" where "win_getBaudrate = wfld win_baudrate"
definition win_getBytesize :: "bytesize_t win" where "win_getBytesize = wfld win_bytesize"
definition win_getParity :: "parity_t win" where "win_getParity = wfld win_parity"
definition win_getStopbits :: "stopbits_t win" where "win_getStopbits = wfld win_stopbits"
definition win_getFlowcontrol :: "flowcontrol_t win" where "win_getFlowcontrol = wfld win_flowcontrol"

section \<open>The lines of the port\<close>

definition win_sendBreak :: "int \<Rightarrow> unit win" where
  "win_sendBreak duration = throw (IOException ''sendBreak is not supported on Windows.'')"

definition escape :: "winapi \<Rightarrow> handle \<Rightarrow> u32 \<Rightarrow> unit win" where
  "escape W fd f = seqE (wcall W (EscapeCommFunction fd f)) (ret ())"

definition win_setBreak :: "winapi \<Rightarrow> bool \<Rightarrow> unit win" where
  "win_setBreak W level = if_open ''Serial::setBreak'' (\<lambda>fd. escape W fd (if level then SETBREAK else CLRBREAK))"

definition win_setRTS :: "winapi \<Rightarrow> bool \<Rightarrow> unit win" where
  "win_setRTS W level = if_open ''Serial::setRTS'' (\<lambda>fd. escape W fd (if level then SETRTS else CLRRTS))"

definition win_setDTR :: "winapi \<Rightarrow> bool \<Rightarrow> unit win" where
  "win_setDTR W level = if_open ''Serial::setDTR'' (\<lambda>fd. escape W fd (if level then SETDTR else CLRDTR))"

definition win_waitForChange :: "winapi \<Rightarrow> bool win" where
  "win_waitForChange W = if_open ''Serial::waitForChange'' (\<lambda>fd.
     bindE (wcall W (SetCommMask fd (EV_CTS OR EV_DSR OR EV_RING OR EV_RLSD))) (\<lambda>r.
     if \<not> w_ok r then ret False
     else bindE (wcall W (WaitCommEvent fd)) (\<lambda>r. ret (w_ok r))))"

definition modem_line :: "winapi \<Rightarrow> string \<Rightarrow> u32 \<Rightarrow> handle \<Rightarrow> bool win" where
  "modem_line W line ms fd =
     bindE (wcall_or W (GetCommModemStatus fd) (\<lambda>r. ''Error getting the status of the '' @ line @ '' line.'')) (\<lambda>r.
     ret (ms AND w_modem r \<noteq> 0))"

definition win_getCTS :: "winapi \<Rightarrow> bool win" where
  "win_getCTS W = if_open ''Serial::getCTS'' (modem_line W ''CTS'' MS_CTS_ON)"

definition win_getDSR :: "winapi \<Rightarrow> bool win" where
  "win_getDSR W = if_open ''Serial::getDSR'' (modem_line W ''DSR'' MS_DSR_ON)"

definition win_getRI :: "winapi \<Rightarrow> bool win" where
  "win_getRI W = if_open ''Serial::getRI'' (modem_line W ''RI'' MS_RING_ON)"

definition win_getCD :: "winapi \<Rightarrow> bool win" where
  "win_getCD W = if_open ''Serial::getCD'' (modem_line W ''CD'' MS_RLSD_ON)"

section \<open>The mutexes\<close>

definition claim_mutex :: "winapi \<Rightarrow> string \<Rightarrow> handle \<Rightarrow> unit win" where
  "claim_mutex W what m = bindE (wcall W (WaitForSingleObject m)) (\<lambda>r.
     if w_wait r \<noteq> WAIT_OBJECT_0 then throw (IOException (''Error claiming '' @ what @ '' mutex.'')) else ret ())"

definition release_mutex :: "winapi \<Rightarrow> string \<Rightarrow> handle \<Rightarrow> unit win" where
  "release_mutex W what m = bindE (wcall W (ReleaseMutex m)) (\<lambda>r.
     if \<not> w_ok r then throw (IOException (''Error releasing '' @ what @ '' mutex.'')) else ret ())"

definition win_readLock :: "winapi \<Rightarrow> unit win" where
  "win_readLock W = bindE (wfld win_read_mutex) (claim_mutex W ''read'')"

definition win_readUnlock :: "winapi \<Rightarrow> unit win" where
  "win_readUnlock W = bindE (wfld win_read_mutex) (release_mutex W ''read'')"

definition win_writeLock :: "winapi \<Rightarrow> unit win" where
  "win_writeLock W = bindE (wfld win_write_mutex) (claim_mutex W ''write'')"

definition win_writeUnlock :: "winapi \<Rightarrow> unit win" where
  "win_writeUnlock W = bindE (wfld win_write_mutex) (release_mutex W ''write'')"

end
