(* ===== verification/WinFacts.thy ===== *)
theory WinFacts
  imports WinPort "HOL-Library.Multiset"
begin

text \<open>
  The Windows implementation: what a successful configuration writes, who owns the handle of the port, and what is left
  when Windows rejects the settings.
\<close>

section \<open>The name of the port\<close>

lemma narrow_widen [simp]: "narrow (widen c) = c"
proof -
  have low: "unat (scast w :: wchar) mod 256 = unat w" for w :: u8
  proof -
    have "ucast (scast w :: wchar) = w" by (rule bit_word_eqI) (auto simp: bit_simps)
    then have "unat (ucast (scast w :: wchar) :: u8) = unat w" by simp
    then show ?thesis unfolding unsigned_ucast_eq take_bit_eq_mod by simp
  qed
  have "unat (of_char c :: u8) = unat (of_nat (of_char c) :: u8)" by (simp only: of_nat_of_char)
  also have "\<dots> = of_char c" by (simp only: unat_of_nat) simp
  finally have "unat (widen c) mod 256 = of_char c" using low [of "of_char c"] by (simp add: widen_def)
  then have "char_of (unat (widen c)) = (char_of (of_char c :: nat) :: char)" unfolding char_of_quasi_inj by simp
  then show ?thesis unfolding narrow_def by (simp only: char_of_char)
qed

lemma set_get_port: "win_setPort p (s, t) = (Inr (), (s\<lparr>win_port := map widen p\<rparr>, t))" "win_getPort (s\<lparr>win_port := map widen p\<rparr>, t) = (Inr p, (s\<lparr>win_port := map widen p\<rparr>, t))"
  by (simp_all add: win_setPort_def win_getPort_def wupd_def wfld_def comp_def)

section \<open>Running the primitives\<close>

lemma wcall_run: "wcall W c (s, t) = (Inr (W t c), (s, t @ [(c, W t c)]))"
  by (simp add: wcall_def)

lemma wcall_or_run:
  "wcall_or W c e (s, t) = (if w_ok (W t c) then Inr (W t c) else Inl (IOException (e (W t c))), (s, t @ [(c, W t c)]))"
  by (simp add: wcall_or_def bindE_def wcall_run)

lemma wfld_run: "wfld f (s, t) = (Inr (f s), (s, t))"
  by (simp add: wfld_def)

lemma wupd_run: "wupd f (s, t) = (Inr (), (f s, t))"
  by (simp add: wupd_def)

lemmas win_run = bindE_def seqE_def whenE_def wfld_run wupd_run wcall_run wcall_or_run if_open_def lift_def

section \<open>A successful configuration\<close>

definition enumerated :: "win_impl \<Rightarrow> bool" where
  "enumerated s \<longleftrightarrow> (\<forall>n. win_bytesize s \<noteq> bytesize_cast n) \<and> (\<forall>n. win_stopbits s \<noteq> stopbits_cast n) \<and> (\<forall>n. win_parity s \<noteq> parity_cast n)"

lemma baud_blind [simp]: "win_baud b d = d\<lparr>BaudRate := b\<rparr>"
proof -
  have "map_of cbr_codes b = Some c \<Longrightarrow> c = b" for c by (auto simp: cbr_codes_def split: if_splits)
  then show ?thesis by (cases "map_of cbr_codes b") (simp_all add: win_baud_def)
qed

lemma settings_run:
  assumes "enumerated s"
  obtains d' where "win_settings s d = Inr d'" "dcb_rest d' = dcb_rest d" "BaudRate d' = win_baudrate s"
    "int (bytesize_val (win_bytesize s)) = uint (ByteSize d')" "ByteSize d' \<in> {5, 6, 7, 8}"
  using assms that
  by (cases "win_bytesize s"; cases "win_stopbits s"; cases "win_parity s"; cases "win_flowcontrol s")
     (auto simp: enumerated_def win_settings_def win_char_len_def win_stop_bits_def win_parity_bits_def win_flow_def bindR_def)

text \<open>A system that accepts every configuration.\<close>

definition accepts :: "winapi \<Rightarrow> bool" where
  "accepts W \<longleftrightarrow> (\<forall>t h d c. w_ok (W t (GetCommState h)) \<and> w_ok (W t (SetCommState h d)) \<and> w_ok (W t (SetCommTimeouts h c)))"

section \<open>Who owns the handle\<close>

text \<open>The handles created for ports and not closed yet.\<close>

fun own1 :: "wincall \<times> winreply \<Rightarrow> handle multiset \<Rightarrow> handle multiset" where
  "own1 (CreateFileW n, r) M = (if w_handle r = INVALID_HANDLE_VALUE then M else add_mset (w_handle r) M)"
| "own1 (CloseHandle h, r) M = (if w_ok r then M - {#h#} else M)"
| "own1 _ M = M"

definition live :: "win_trace \<Rightarrow> handle multiset" where
  "live t = fold own1 t {#}"

lemma win_reconfigure_run:
  assumes "accepts W" and "enumerated s" and "win_fd s \<noteq> INVALID_HANDLE_VALUE"
  shows "\<exists>u. win_reconfigurePort W (s, t) = (Inr (), (s, t @ u)) \<and> (\<forall>M. fold own1 u M = M)"
proof -
  have ok: "w_ok (W u (GetCommState h))" "w_ok (W u (SetCommState h d))" "w_ok (W u (SetCommTimeouts h c))" for u h d c
    using assms(1) by (simp_all add: accepts_def)
  obtain d where d: "win_settings s (w_dcb (W t (GetCommState (win_fd s)))) = Inr d" using settings_run [OF assms(2)] by metis
  show ?thesis
    by (simp add: win_reconfigurePort_def win_run assms(3) ok d)
qed

lemma live_snoc: "live (t @ u) = fold own1 u (live t)"
  by (simp add: live_def)

definition owns :: "win_impl \<times> win_trace \<Rightarrow> bool" where
  "owns x \<longleftrightarrow> (case x of (s, t) \<Rightarrow> enumerated s \<and> (win_is_open s \<longrightarrow> win_fd s \<noteq> INVALID_HANDLE_VALUE) \<and>
     live t = (if win_is_open s then {#win_fd s#} else {#}))"

lemma owns_more: "owns (s, t) \<Longrightarrow> fold own1 u (live t) = live t \<Longrightarrow> owns (s, t @ u)"
  by (simp add: owns_def live_snoc)

lemma owns_reconfigure:
  assumes "accepts W" and "owns (s, t)" and "win_is_open s"
  shows "\<exists>u. win_reconfigurePort W (s, t) = (Inr (), (s, t @ u)) \<and> fold own1 u (live t) = live t"
proof -
  have "enumerated s" "win_fd s \<noteq> INVALID_HANDLE_VALUE" using assms(2,3) by (simp_all add: owns_def)
  from win_reconfigure_run [where W = W, OF assms(1) this, of t] show ?thesis by blast
qed

lemma owns_open:
  assumes "accepts W" and "owns (s, t)"
  shows "owns (snd (win_open W (s, t)))"
proof (cases "win_port s = [] \<or> win_is_open s")
  case True
  with assms(2) show ?thesis by (auto simp: win_open_def win_run)
next
  case False
  let ?c = "CreateFileW (prefix_port_if_needed (win_port s))"
  let ?r = "W t ?c"
  let ?s = "s\<lparr>win_fd := w_handle ?r\<rparr>"
  have inv: "enumerated s" "live t = {#}" using assms(2) False by (simp_all add: owns_def)
  show ?thesis
  proof (cases "w_handle ?r = INVALID_HANDLE_VALUE")
    case True
    with False inv show ?thesis
      by (auto simp: win_open_def win_run win_getPort_def owns_def live_snoc enumerated_def)
  next
    case valid: False
    have "enumerated ?s" "win_fd ?s \<noteq> INVALID_HANDLE_VALUE" using inv(1) valid by (simp_all add: enumerated_def)
    from win_reconfigure_run [where W = W, OF assms(1) this, of "t @ [(?c, ?r)]"] obtain u where
      re: "win_reconfigurePort W (?s, t @ [(?c, ?r)]) = (Inr (), (?s, (t @ [(?c, ?r)]) @ u))" "\<forall>M. fold own1 u M = M" by blast
    have "win_open W (s, t) = (Inr (), (?s\<lparr>win_is_open := True\<rparr>, (t @ [(?c, ?r)]) @ u))"
      using False valid re(1) by (simp add: win_open_def win_run)
    then show ?thesis using inv valid re(2) by (simp add: owns_def live_snoc enumerated_def)
  qed
qed

lemma owns_close:
  assumes "owns (s, t)"
  shows "owns (snd (win_close W (s, t)))"
proof (cases "win_is_open s")
  case False
  with assms show ?thesis by (simp add: win_close_def win_run)
next
  case True
  with assms have "win_fd s \<noteq> INVALID_HANDLE_VALUE" "live t = {#win_fd s#}" "enumerated s" by (simp_all add: owns_def)
  with True show ?thesis by (simp add: win_close_def win_run owns_def live_snoc enumerated_def)
qed

lemma owns_set:
  assumes "accepts W" and "owns (s, t)" and "win_fd (f s) = win_fd s" and "win_is_open (f s) = win_is_open s" and "enumerated (f s)"
  shows "owns (snd (win_set W f (s, t)))"
proof -
  have f: "owns (f s, t)" using assms(2-5) by (simp add: owns_def)
  show ?thesis
  proof (cases "win_is_open s")
    case False
    with f assms(4) show ?thesis by (simp add: win_set_def win_run)
  next
    case True
    then obtain u where "win_reconfigurePort W (f s, t) = (Inr (), (f s, t @ u))" "fold own1 u (live t) = live t"
      using owns_reconfigure [OF assms(1) f] assms(4) by auto
    with f True assms(4) show ?thesis by (simp add: win_set_def win_run owns_more)
  qed
qed

section \<open>Sequences of operations\<close>

text \<open>What a program can do with a port; exceptions are caught and the program goes on.\<close>

datatype win_op =
    WOpen | WClose | WAvailable | WRead nat | WWrite "u8 list" | WFlush | WSetPort string | WSetTimeout Timeout | WSetBaudrate u32
  | WSetBytesize bytesize_t | WSetParity parity_t | WSetStopbits stopbits_t | WSetFlowcontrol flowcontrol_t
  | WSetBreak bool | WSetRTS bool | WSetDTR bool | WWait | WGetCTS | WGetDSR | WGetRI | WGetCD

definition ignore :: "'a win \<Rightarrow> unit win" where
  "ignore m = seqE m (ret ())"

fun win_do :: "winapi \<Rightarrow> win_op \<Rightarrow> unit win" where
  "win_do W WOpen = win_open W"
| "win_do W WClose = win_close W"
| "win_do W WAvailable = ignore (win_available W)"
| "win_do W (WRead n) = ignore (win_read W n)"
| "win_do W (WWrite bs) = ignore (win_write W bs)"
| "win_do W WFlush = win_flush W"
| "win_do W (WSetPort p) = win_setPort p"
| "win_do W (WSetTimeout x) = win_setTimeout W x"
| "win_do W (WSetBaudrate x) = win_setBaudrate W x"
| "win_do W (WSetBytesize x) = win_setBytesize W x"
| "win_do W (WSetParity x) = win_setParity W x"
| "win_do W (WSetStopbits x) = win_setStopbits W x"
| "win_do W (WSetFlowcontrol x) = win_setFlowcontrol W x"
| "win_do W (WSetBreak b) = win_setBreak W b"
| "win_do W (WSetRTS b) = win_setRTS W b"
| "win_do W (WSetDTR b) = win_setDTR W b"
| "win_do W WWait = ignore (win_waitForChange W)"
| "win_do W WGetCTS = ignore (win_getCTS W)"
| "win_do W WGetDSR = ignore (win_getDSR W)"
| "win_do W WGetRI = ignore (win_getRI W)"
| "win_do W WGetCD = ignore (win_getCD W)"

fun win_ops :: "winapi \<Rightarrow> win_op list \<Rightarrow> win_impl \<times> win_trace \<Rightarrow> win_impl \<times> win_trace" where
  "win_ops W [] x = x"
| "win_ops W (p # ps) x = win_ops W ps (snd (win_do W p x))"

text \<open>The settings are enumerators, not casts.\<close>

fun enumerator :: "win_op \<Rightarrow> bool" where
  "enumerator (WSetBytesize (bytesize_cast n)) = False"
| "enumerator (WSetParity (parity_cast n)) = False"
| "enumerator (WSetStopbits (stopbits_cast n)) = False"
| "enumerator _ = True"

text \<open>An operation that leaves the object alone and neither opens nor closes keeps the ownership.\<close>

definition looks :: "'a win \<Rightarrow> bool" where
  "looks m \<longleftrightarrow> (\<forall>s t r x. m (s, t) = (r, x) \<longrightarrow> (\<exists>u. x = (s, t @ u) \<and> (\<forall>M. fold own1 u M = M)))"

lemma looks_owns: "looks m \<Longrightarrow> owns (s, t) \<Longrightarrow> owns (snd (m (s, t)))"
  unfolding looks_def by (metis owns_more prod.collapse)

lemma looks_pure: "looks (ret x)" "looks (throw e)" "looks (wfld f)"
  by (auto simp: looks_def wfld_def)

lemma looks_bindE: "looks m \<Longrightarrow> (\<And>x. looks (k x)) \<Longrightarrow> looks (bindE m k)"
  unfolding looks_def
proof (intro allI impI)
  fix s t r x
  assume m: "\<forall>s t r x. m (s, t) = (r, x) \<longrightarrow> (\<exists>u. x = (s, t @ u) \<and> (\<forall>M. fold own1 u M = M))"
    and k: "\<And>y. \<forall>s t r x. k y (s, t) = (r, x) \<longrightarrow> (\<exists>u. x = (s, t @ u) \<and> (\<forall>M. fold own1 u M = M))"
    and run: "bindE m k (s, t) = (r, x)"
  obtain r1 x1 where r1: "m (s, t) = (r1, x1)" by (cases "m (s, t)")
  with m obtain u where u: "x1 = (s, t @ u)" "\<forall>M. fold own1 u M = M" by blast
  show "\<exists>u. x = (s, t @ u) \<and> (\<forall>M. fold own1 u M = M)"
  proof (cases r1)
    case (Inl e)
    with run r1 u show ?thesis by (auto simp: bindE_def)
  next
    case (Inr y)
    with run r1 u(1) have "k y (s, t @ u) = (r, x)" by (simp add: bindE_def)
    with k obtain v where "x = (s, (t @ u) @ v)" "\<forall>M. fold own1 v M = M" by blast
    with u(2) show ?thesis by (intro exI [of _ "u @ v"]) simp
  qed
qed

lemma looks_seqE: "looks m \<Longrightarrow> looks n \<Longrightarrow> looks (seqE m n)"
  unfolding seqE_def by (rule looks_bindE)

lemma looks_if: "looks m \<Longrightarrow> looks n \<Longrightarrow> looks (if b then m else n)"
  by simp

definition neutral :: "wincall \<Rightarrow> bool" where
  "neutral c \<longleftrightarrow> (\<forall>r M. own1 (c, r) M = M)"

lemma looks_call: "neutral c \<Longrightarrow> looks (wcall W c)" "neutral c \<Longrightarrow> looks (wcall_or W c e)"
  by (auto simp: looks_def neutral_def wcall_run wcall_or_run)

lemma neutral_calls:
  "neutral (ClearCommError h)" "neutral (ReadFile h n)" "neutral (WriteFile h bs)" "neutral (FlushFileBuffers h)"
  "neutral (EscapeCommFunction h f)" "neutral (SetCommMask h k)" "neutral (WaitCommEvent h)" "neutral (GetCommModemStatus h)"
  by (simp_all add: neutral_def)

lemmas looks_intro = looks_if looks_seqE looks_bindE looks_pure looks_call neutral_calls

lemma looks_ops:
  "looks (ignore (win_available W))" "looks (ignore (win_read W n))" "looks (ignore (win_write W bs))" "looks (win_flush W)"
  "looks (win_setBreak W b)" "looks (win_setRTS W b)" "looks (win_setDTR W b)" "looks (ignore (win_waitForChange W))"
  "looks (ignore (win_getCTS W))" "looks (ignore (win_getDSR W))" "looks (ignore (win_getRI W))" "looks (ignore (win_getCD W))"
  unfolding ignore_def win_available_def win_read_def win_write_def win_flush_def win_setBreak_def win_setRTS_def win_setDTR_def
    win_waitForChange_def win_getCTS_def win_getDSR_def win_getRI_def win_getCD_def escape_def modem_line_def if_open_def
  by (intro looks_intro)+

lemma owns_do:
  assumes "accepts W" and "owns (s, t)" and "enumerator p"
  shows "owns (snd (win_do W p (s, t)))"
proof -
  have e: "enumerated s" using assms(2) by (simp add: owns_def)
  note set = owns_set [OF assms(1,2)]
  show ?thesis
  proof (cases p)
    case (WSetBytesize x)
    with assms(3) e show ?thesis by (cases x) (auto simp: win_setBytesize_def enumerated_def intro!: set)
  next
    case (WSetParity x)
    with assms(3) e show ?thesis by (cases x) (auto simp: win_setParity_def enumerated_def intro!: set)
  next
    case (WSetStopbits x)
    with assms(3) e show ?thesis by (cases x) (auto simp: win_setStopbits_def enumerated_def intro!: set)
  next
    case (WSetPort q)
    with assms(2) show ?thesis by (simp add: win_setPort_def wupd_run owns_def enumerated_def)
  next
    case (WSetTimeout x)
    with e show ?thesis by (auto simp: win_setTimeout_def enumerated_def intro!: set)
  next
    case (WSetBaudrate x)
    with e show ?thesis by (auto simp: win_setBaudrate_def enumerated_def intro!: set)
  next
    case (WSetFlowcontrol x)
    with e show ?thesis by (auto simp: win_setFlowcontrol_def enumerated_def intro!: set)
  qed (use e in \<open>auto intro!: owns_open [OF assms(1,2)] owns_close [OF assms(2)] looks_owns [OF _ assms(2)] looks_ops\<close>)
qed

lemma owns_ops: "accepts W \<Longrightarrow> owns x \<Longrightarrow> list_all enumerator ps \<Longrightarrow> owns (win_ops W ps x)"
proof (induction ps arbitrary: x)
  case (Cons p ps)
  obtain s t where x: "x = (s, t)" by (cases x)
  show ?case using Cons.IH [OF Cons.prems(1) owns_do [OF Cons.prems(1), of s t p]] Cons.prems(2,3) by (simp add: x)
qed simp

text \<open>
  C29: Where Windows accepts the settings, no sequence of operations on a port leaks a handle, closes one twice or works on
  one that is closed, whatever the system answers to every other call and whatever exceptions the caller passes over:
  the handles created and not closed are the port's handle while it is open, and none otherwise.
\<close>

theorem win_session_owns_handle:
  assumes "accepts W" and "list_all enumerator ps" and "enumerated (new_win port baud b p st f)"
  shows "case win_ops W ps (new_win port baud b p st f, []) of (s, t) \<Rightarrow>
    live t = (if win_is_open s then {#win_fd s#} else {#}) \<and> (win_is_open s \<longrightarrow> win_fd s \<noteq> INVALID_HANDLE_VALUE)"
proof -
  have "owns (new_win port baud b p st f, [])" using assms(3) by (simp add: owns_def live_def new_win_def)
  from owns_ops [OF assms(1) this assms(2)] show ?thesis by (auto simp: owns_def split: prod.splits)
qed

definition demo_reply :: "bool \<Rightarrow> winreply" where
  "demo_reply b = \<lparr>w_ok = b, w_handle = 4, w_wait = 0, w_last_error = 0, w_errno = 0,
     w_dcb = \<lparr>BaudRate = 0, ByteSize = 8, Parity = 0, StopBits = 0, fOutxCtsFlow = False, fRtsControl = 0, fOutX = False, fInX = False, dcb_rest = []\<rparr>,
     w_in_que = 0, w_data = [], w_written = 0, w_modem = 0\<rparr>"

definition demo_port :: win_impl where
  "demo_port = new_win ''COM1'' 9600 eightbits parity_none stopbits_one flowcontrol_none"

lemma demo_port_enumerated: "enumerated demo_port"
  by (simp add: enumerated_def demo_port_def new_win_def)

theorem win_session_owns_handle_witness:
  "case win_ops (\<lambda>t c. demo_reply True) [WOpen, WSetParity parity_even] (demo_port, []) of (s, t) \<Rightarrow>
     live t = (if win_is_open s then {#win_fd s#} else {#}) \<and> (win_is_open s \<longrightarrow> win_fd s \<noteq> INVALID_HANDLE_VALUE)"
  unfolding demo_port_def
  by (rule win_session_owns_handle) (simp_all add: accepts_def demo_reply_def demo_port_enumerated [unfolded demo_port_def])

text \<open>
  C39: When Windows rejects a setting of an open port, the handle of the port is closed and the port still counts as open: the
  exception says that the settings failed, the next write goes to the closed handle, and so does the close that follows.
\<close>

theorem win_rejected_setting_dangles:
  assumes "win_is_open s" and "win_fd s = h" and "h \<noteq> INVALID_HANDLE_VALUE" and "enumerated s"
    and "\<And>u. w_ok (W u (GetCommState h))" and "\<And>u d. \<not> w_ok (W u (SetCommState h d))"
  shows "\<exists>s' d r1 r2 r3. win_setBaudrate W baud (s, t) = (Inl (IOException ''Error setting serial port settings.''),
      (s', t @ [(GetCommState h, r1), (SetCommState h d, r2), (CloseHandle h, r3)])) \<and>
    win_is_open s' \<and> win_fd s' = h \<and>
    (\<forall>u bs. \<exists>cs r. snd (snd (win_write W bs (s', u))) = u @ [(WriteFile h cs, r)]) \<and>
    (\<forall>u. \<exists>r. snd (snd (win_close W (s', u))) = u @ [(CloseHandle h, r)])"
proof -
  let ?s = "s\<lparr>win_baudrate := baud\<rparr>"
  have "enumerated ?s" using assms(4) by (simp add: enumerated_def)
  from settings_run [OF this] obtain d where d: "win_settings ?s (w_dcb (W t (GetCommState h))) = Inr d" by metis
  have "win_setBaudrate W baud (s, t) = (Inl (IOException ''Error setting serial port settings.''),
      (?s, t @ [(GetCommState h, W t (GetCommState h)),
        (SetCommState h d, W (t @ [(GetCommState h, W t (GetCommState h))]) (SetCommState h d)),
        (CloseHandle h, W (t @ [(GetCommState h, W t (GetCommState h)),
           (SetCommState h d, W (t @ [(GetCommState h, W t (GetCommState h))]) (SetCommState h d))]) (CloseHandle h))]))"
    using assms(1-3,5,6) d by (simp add: win_setBaudrate_def win_set_def win_reconfigurePort_def win_run)
  moreover have "\<exists>cs r. snd (snd (win_write W bs (?s, u))) = u @ [(WriteFile h cs, r)]" for u bs
    using assms(1,2) by (auto simp: win_write_def win_run)
  moreover have "\<exists>r. snd (snd (win_close W (?s, u))) = u @ [(CloseHandle h, r)]" for u
    using assms(1-3) by (auto simp: win_close_def win_run)
  ultimately show ?thesis using assms(1,2) by (intro exI [of _ ?s]) auto
qed

theorem win_rejected_setting_dangles_witness:
  "\<exists>s' t'. win_setBaudrate (\<lambda>t c. demo_reply (case c of SetCommState _ _ \<Rightarrow> False | _ \<Rightarrow> True)) 7
      (demo_port\<lparr>win_is_open := True, win_fd := 4\<rparr>, []) = (Inl (IOException ''Error setting serial port settings.''), (s', t')) \<and>
    win_is_open s' \<and> win_fd s' = 4 \<and> CloseHandle 4 \<in> fst ` set t'"
proof -
  let ?W = "\<lambda>t :: win_trace. \<lambda>c. demo_reply (case c of SetCommState _ _ \<Rightarrow> False | _ \<Rightarrow> True)"
  let ?s = "demo_port\<lparr>win_is_open := True, win_fd := 4\<rparr>"
  have "win_is_open ?s" "win_fd ?s = 4" "(4 :: handle) \<noteq> INVALID_HANDLE_VALUE" "enumerated ?s"
    "\<And>u. w_ok (?W u (GetCommState 4))" "\<And>u d. \<not> w_ok (?W u (SetCommState 4 d))"
    using demo_port_enumerated by (simp_all add: INVALID_HANDLE_VALUE_def enumerated_def demo_reply_def)
  from win_rejected_setting_dangles [where W = ?W, OF this, of 7 "[]"] show ?thesis by force
qed

end
