(* ===== verification/OtherPorts.thy ===== *)
theory OtherPorts
  imports ListPorts
begin

text \<open>
  The serial ports of the machine on macOS, \<^verbatim>\<open>list_ports_osx.cc\<close>, and on Windows, \<^verbatim>\<open>list_ports_win.cc\<close>. The registry of
  the I/O Kit and the device classes of Windows are parameters. Objects of the I/O Kit are numbers, the null object is 0; what is
  only retained and released is not modelled.
\<close>

section \<open>macOS\<close>

text \<open>A property of an object; a number is given as the 16 bits it converts to, where it does.\<close>

datatype cf_value = CFString string | CFNumber "16 word option" | CFOther

record iokit =
  io_master :: bool
  io_matching :: bool
  io_services :: "nat list option"
  io_class :: "nat \<Rightarrow> string option"
  io_parent :: "nat \<Rightarrow> nat option"
  io_property :: "nat \<Rightarrow> string \<Rightarrow> cf_value option"

definition MAXPATHLEN :: nat where "MAXPATHLEN = 1024"

text \<open>The conversion to ASCII fails when the text does not fit into the buffer with its end, or is not ASCII.\<close>

definition cfstring_to_string :: "string \<Rightarrow> string" where
  "cfstring_to_string t =
     (if length t < MAXPATHLEN \<and> list_all (\<lambda>c. (of_char c :: nat) < 128) t then takeWhile (\<lambda>c. c \<noteq> CHR 0x00) t else [])"

definition string_value :: "cf_value option \<Rightarrow> string" where
  "string_value v = (case v of Some (CFString t) \<Rightarrow> cfstring_to_string t | _ \<Rightarrow> [])"

definition get_device_path :: "iokit \<Rightarrow> nat \<Rightarrow> string" where
  "get_device_path R d = string_value (io_property R d ''IOCalloutDevice'')"

definition get_class_name :: "iokit \<Rightarrow> nat \<Rightarrow> string" where
  "get_class_name R d = (case io_class R d of None \<Rightarrow> [] | Some n \<Rightarrow> n)"

text \<open>
  The walk up the registry. \<open>found\<close> is whether the last call succeeded; at the start no call has been made, so a port that is itself
  a device of this class is not found.
\<close>

partial_function (option) parent_loop :: "iokit \<Rightarrow> nat \<Rightarrow> bool \<Rightarrow> nat option" where
  "parent_loop R device found =
     (if get_class_name R device = ''IOUSBDevice'' then Some (if found then device else 0)
      else (case io_parent R device of
          None \<Rightarrow> Some 0
        | Some p \<Rightarrow> parent_loop R p True))"

definition get_parent_iousb_device :: "iokit \<Rightarrow> nat \<Rightarrow> nat option" where
  "get_parent_iousb_device R d = parent_loop R d False"

definition get_string_property :: "iokit \<Rightarrow> nat \<Rightarrow> string \<Rightarrow> string" where
  "get_string_property R d prop = (if d \<noteq> 0 then string_value (io_property R d prop) else [])"

definition get_int_property :: "iokit \<Rightarrow> nat \<Rightarrow> string \<Rightarrow> 16 word" where
  "get_int_property R d prop =
     (if d \<noteq> 0 then (case io_property R d prop of Some (CFNumber (Some n)) \<Rightarrow> n | _ \<Rightarrow> 0) else 0)"

definition whitespace :: string where
  "whitespace = [CHR '' '', CHR 0x09, CHR 0x0C, CHR 0x0B, CHR 0x0A, CHR 0x0D]"

definition rtrim :: "string \<Rightarrow> string" where
  "rtrim str = rev (dropWhile (\<lambda>c. c \<in> set whitespace) (rev str))"

definition hex_digit :: "nat \<Rightarrow> char" where
  "hex_digit d = (if d < 10 then digit_char d else char_of (87 + d))"

definition hex4 :: "16 word \<Rightarrow> string" where
  "hex4 w = map (\<lambda>k. hex_digit (unat w div 16 ^ k mod 16)) [3, 2, 1, 0]"

definition HARDWARE_ID_STRING_LENGTH :: nat where "HARDWARE_ID_STRING_LENGTH = 128"

definition mac_hardware_id :: "16 word \<Rightarrow> 16 word \<Rightarrow> string \<Rightarrow> string" where
  "mac_hardware_id vendor product serial_number =
     (if vendor \<noteq> 0 \<and> product \<noteq> 0 then
        (let t = ''USB VID:PID='' @ hex4 vendor @ '':'' @ hex4 product @ '' SNR='' @ (if serial_number = [] then ''None'' else serial_number)
         in if length t < HARDWARE_ID_STRING_LENGTH then t else ''n/a'')
      else ''n/a'')"

definition mac_port :: "iokit \<Rightarrow> string \<Rightarrow> nat \<Rightarrow> PortInfo" where
  "mac_port R path parent =
     (let device_name = rtrim (get_string_property R parent ''USB Product Name'');
          vendor_name = rtrim (get_string_property R parent ''USB Vendor Name'');
          description = rtrim (vendor_name @ '' '' @ device_name);
          serial_number = rtrim (get_string_property R parent ''USB Serial Number'')
      in \<lparr>pi_port = path, pi_description = (if description \<noteq> [] then description else ''n/a''),
          pi_hardware_id = mac_hardware_id (get_int_property R parent ''idVendor'') (get_int_property R parent ''idProduct'') serial_number\<rparr>)"

text \<open>The loop over the iterator; \<open>None\<close> where a walk up the registry does not end.\<close>

fun mac_loop :: "iokit \<Rightarrow> nat list \<Rightarrow> PortInfo list option" where
  "mac_loop R [] = Some []"
| "mac_loop R (d # ds) =
     (case get_parent_iousb_device R d of
        None \<Rightarrow> None
      | Some parent \<Rightarrow>
          (let path = get_device_path R d in
           if path = [] then mac_loop R ds
           else map_option (\<lambda>ps. mac_port R path parent # ps) (mac_loop R ds)))"

definition mac_list_ports :: "iokit \<Rightarrow> PortInfo list option" where
  "mac_list_ports R =
     (if \<not> io_master R \<or> \<not> io_matching R then Some []
      else case io_services R of None \<Rightarrow> Some [] | Some ds \<Rightarrow> mac_loop R ds)"

text \<open>In a registry without cycles, as a tree is, every walk ends.\<close>

lemma parent_loop_ends:
  assumes "\<And>d p. io_parent R d = Some p \<Longrightarrow> depth p < (depth d :: nat)"
  shows "\<exists>r. parent_loop R d b = Some r"
proof (induction "depth d" arbitrary: d b rule: less_induct)
  case less
  show ?case
  proof (cases "get_class_name R d = ''IOUSBDevice''")
    case True
    then show ?thesis by (simp add: parent_loop.simps [of R d])
  next
    case False
    then show ?thesis using less assms
      by (cases "io_parent R d") (simp_all add: parent_loop.simps [of R d])
  qed
qed

lemma mac_loop_ends:
  assumes "\<And>d p. io_parent R d = Some p \<Longrightarrow> depth p < (depth d :: nat)"
  shows "\<exists>ps. mac_loop R ds = Some ps \<and> map pi_port ps = filter (\<lambda>p. p \<noteq> []) (map (get_device_path R) ds)"
proof (induction ds)
  case (Cons d ds)
  obtain q where "parent_loop R d False = Some q" using parent_loop_ends [where depth = depth, OF assms] by blast
  with Cons.IH show ?case by (auto simp: get_parent_iousb_device_def Let_def mac_port_def)
qed simp

text \<open>The ports listed are the device paths of the services, in their order, without those that have none.\<close>

lemma mac_list_ports_paths:
  assumes "\<And>d p. io_parent R d = Some p \<Longrightarrow> depth p < (depth d :: nat)" and "io_master R" "io_matching R" "io_services R = Some ds"
  shows "\<exists>ps. mac_list_ports R = Some ps \<and> map pi_port ps = filter (\<lambda>p. p \<noteq> []) (map (get_device_path R) ds)"
  using mac_loop_ends [where depth = depth and R = R and ds = ds, OF assms(1)] assms(2-4) by (simp add: mac_list_ports_def)

section \<open>Windows\<close>

text \<open>
  A device of the class of ports: the bytes stored for its port name with the length the registry reports, where the query
  succeeds, and the same for its friendly name and hardware id. The functions are those of the build without \<open>UNICODE\<close>.
\<close>

record setup_device =
  sd_port_name :: "(string \<times> nat) option"
  sd_friendly_name :: "(string \<times> nat) option"
  sd_hardware_id :: "(string \<times> nat) option"

definition c_text :: "string \<Rightarrow> string" where
  "c_text buf = takeWhile (\<lambda>c. c \<noteq> CHR 0x00) buf"

text \<open>The last of the bytes is overwritten by the end of the text.\<close>

definition win_name :: "string \<Rightarrow> nat \<Rightarrow> string" where
  "win_name buf n = (if 0 < n \<and> n \<le> 256 then c_text (take (n - 1) buf) else [])"

definition win_property :: "(string \<times> nat) option \<Rightarrow> string" where
  "win_property v = (case v of Some (buf, n) \<Rightarrow> (if 0 < n then c_text (take (n - 1) buf) else []) | None \<Rightarrow> [])"

fun win_list_ports :: "setup_device list \<Rightarrow> PortInfo list" where
  "win_list_ports [] = []"
| "win_list_ports (d # ds) =
     (case sd_port_name d of
        None \<Rightarrow> win_list_ports ds
      | Some (buf, n) \<Rightarrow>
          (let port_name = win_name buf n in
           if contains port_name ''LPT'' then win_list_ports ds
           else \<lparr>pi_port = port_name, pi_description = win_property (sd_friendly_name d), pi_hardware_id = win_property (sd_hardware_id d)\<rparr>
             # win_list_ports ds))"

text \<open>No parallel port is listed.\<close>

lemma win_list_ports_serial: "p \<in> set (win_list_ports ds) \<Longrightarrow> \<not> contains (pi_port p) ''LPT''"
  by (induction ds) (auto simp: Let_def split: option.splits if_splits)

end
