(* ===== verification/LogTime.thy ===== *)
theory LogTime
  imports LoggerFacts
begin

text \<open>
  The time of a log line (\<^verbatim>\<open>DateTime.cpp\<close>) and the output to the debugger of Windows
  (\<^verbatim>\<open>OutputDebug.cpp\<close>). The conversion of seconds to local time is a parameter.
\<close>

section \<open>Reading the clock\<close>

text \<open>The fields of \<open>struct tm\<close> and of \<open>SYSTEMTIME\<close> that the code reads.\<close>

record tm =
  tm_year :: nat
  tm_mon :: nat
  tm_mday :: nat
  tm_hour :: nat
  tm_min :: nat
  tm_sec :: nat

record SYSTEMTIME =
  wYear :: nat
  wMonth :: nat
  wDay :: nat
  wHour :: nat
  wMinute :: nat
  wSecond :: nat
  wMilliseconds :: nat

definition DateTime_new :: DateTime where
  "DateTime_new = \<lparr>dt_year = 0, dt_month = 0, dt_day = 0, dt_hour = 0, dt_minute = 0, dt_second = 0, dt_ms = 0, dt_us = 0\<rparr>"

definition DateTime_make :: "('sec \<Rightarrow> tm) \<Rightarrow> 'sec \<Rightarrow> nat \<Rightarrow> DateTime \<Rightarrow> DateTime" where
  "DateTime_make localtime tv_sec tv_usec t =
     (let timeinfo = localtime tv_sec
      in t\<lparr>dt_year := tm_year timeinfo + 1900, dt_month := tm_mon timeinfo + 1, dt_day := tm_mday timeinfo,
           dt_hour := tm_hour timeinfo, dt_minute := tm_min timeinfo, dt_second := tm_sec timeinfo,
           dt_ms := tv_usec div 1000, dt_us := tv_usec mod 1000\<rparr>)"

definition DateTime_make_win :: "SYSTEMTIME \<Rightarrow> DateTime \<Rightarrow> DateTime" where
  "DateTime_make_win now t =
     t\<lparr>dt_year := wYear now, dt_month := wMonth now, dt_day := wDay now, dt_hour := wHour now,
       dt_minute := wMinute now, dt_second := wSecond now, dt_ms := wMilliseconds now, dt_us := 0\<rparr>"

section \<open>The line for the debugger\<close>

text \<open>
  \<open>_snprintf\<close> writes at most 256 characters, and a terminator only when there is room; the code puts one
  at the last index. The debugger gets what is before the first terminator.
\<close>

definition debug_line :: "DateTime \<Rightarrow> string \<Rightarrow> Level \<Rightarrow> string \<Rightarrow> string" where
  "debug_line t channel lvl msg = take 255 (file_line t channel lvl msg)"

section \<open>Facts\<close>

definition calendar :: "tm \<Rightarrow> bool" where
  "calendar d \<longleftrightarrow> tm_year d < 8100 \<and> tm_mon d < 12 \<and> tm_mday d < 32 \<and> tm_hour d < 24 \<and> tm_min d < 60 \<and> tm_sec d < 61"

lemma length_show_nat_less: "n < 10 ^ k \<Longrightarrow> 0 < k \<Longrightarrow> length (show_nat n) \<le> k"
proof (induction n arbitrary: k rule: show_nat.induct)
  case (1 n)
  show ?case
  proof (cases "n < 10")
    case False
    with 1(2,3) obtain j where k: "k = Suc j" "0 < j" by (cases k; cases "k - 1") auto
    with 1(2) have "n div 10 < 10 ^ j" by auto
    with 1(1) [OF False this] k show ?thesis using False by (subst show_nat.simps) auto
  qed (use 1(3) in \<open>subst show_nat.simps; simp\<close>)
qed

lemma length_pad_num: "n < 10 ^ k \<Longrightarrow> 0 < k \<Longrightarrow> length (pad_num k n) = k"
  using length_show_nat_less [of n k] by (simp add: pad_num_def)

text \<open>The parts of a second add up to what the clock said, and the constructor's values do not survive.\<close>

lemma make_keeps_micros: "dt_ms (DateTime_make lt s u t) * 1000 + dt_us (DateTime_make lt s u t) = u"
  by (simp add: DateTime_make_def Let_def)

lemma make_forgets: "DateTime_make lt s u t = DateTime_make lt s u t'"
  by (cases t; cases t') (simp add: DateTime_make_def Let_def)

text \<open>Every line starts with a stamp of the same width, so the channel stands in the same column.\<close>

lemma stamp_width:
  assumes "calendar (lt s)" "u < 1000000"
  shows "length (stamp (DateTime_make lt s u t)) = 23"
proof -
  have "length (pad_num 4 (tm_year (lt s) + 1900)) = 4" "length (pad_num 2 (tm_mon (lt s) + 1)) = 2"
    "length (pad_num 2 (tm_mday (lt s))) = 2" "length (pad_num 2 (tm_hour (lt s))) = 2" "length (pad_num 2 (tm_min (lt s))) = 2"
    "length (pad_num 2 (tm_sec (lt s))) = 2" "length (pad_num 3 (u div 1000)) = 3"
    using assms by (auto simp: calendar_def intro!: length_pad_num)
  then show ?thesis by (simp add: stamp_def DateTime_make_def Let_def)
qed

lemma length_debug_line: "length (debug_line t channel lvl msg) \<le> 255"
  by (simp add: debug_line_def)

text \<open>With a channel of up to twelve letters, the debugger gets the line of the log file up to 211 characters of text.\<close>

lemma debug_line_whole:
  assumes "calendar (lt s)" "u < 1000000" "length channel \<le> 12" "length msg \<le> 211"
  shows "debug_line (DateTime_make lt s u t) channel lvl msg = file_line (DateTime_make lt s u t) channel lvl msg"
proof -
  have "length (toString lvl) = 4" by (cases lvl) simp_all
  then have "length (file_line (DateTime_make lt s u t) channel lvl msg) \<le> 255"
    using assms(3,4) stamp_width [where lt = lt and s = s and t = t, OF assms(1,2)] by (simp add: file_line_def pad_right_def newline_def)
  then show ?thesis by (simp add: debug_line_def)
qed

end
