(* ===== verification/CliMemory.thy ===== *)
theory CliMemory
  imports CliFind "HOL-Library.Multiset"
begin

text \<open>
  The memory of a terminal session: the functions of \<^verbatim>\<open>libcli.c\<close> that allocate, link and free, on a
  store of blocks and pointers. The other theories on the library have its data as values; here the commands are nodes with
  pointers to their siblings, children and parent, the users a linked list, every text a block of its own. The
  allocator is a parameter. The number of blocks bounds the loops over linked structures: a loop that takes more iterations is in a cycle.
\<close>

section \<open>The store\<close>

type_synonym ptr = "nat option"

text \<open>The structs, with the members that hold pointers to allocated memory and those the functions below look at.\<close>

record cli_node =
  n_command :: ptr
  n_callback :: "handler option"
  n_unique_len :: nat
  n_help :: ptr
  n_privilege :: int
  n_mode :: int
  n_completion :: "string option"
  n_next :: ptr
  n_children :: ptr
  n_parent :: ptr

record unp =
  u_username :: ptr
  u_password :: ptr
  u_next :: ptr

record cli_object =
  o_commands :: ptr
  o_banner :: ptr
  o_users :: ptr
  o_enable_password :: ptr
  o_history :: "ptr list"
  o_promptchar :: ptr
  o_hostname :: ptr
  o_modestring :: ptr
  o_privilege :: int
  o_mode :: int
  o_requesting :: bool
  o_commandname :: ptr
  o_buffer :: ptr
  o_buf_size :: nat
  o_hooks :: ptr
  o_request_prompt :: ptr

datatype block = Text string | Node cli_node | User unp | Object cli_object | Hooks

record memory =
  blocks :: "(nat \<times> block) list"

type_synonym 'a mprog = "(memory, 'a) prog"

text \<open>What the allocator answers: the address of the new block, or nothing.\<close>

type_synonym malloc = "memory \<Rightarrow> ptr"

definition live :: "memory \<Rightarrow> nat set" where
  "live s = fst ` set (blocks s)"

definition mem_read :: "nat \<Rightarrow> block mprog" where
  "mem_read a = (\<lambda>s. case map_of (blocks s) a of None \<Rightarrow> (Inl (Undefined ''use after free''), s) | Some b \<Rightarrow> (Inr b, s))"

definition mem_write :: "nat \<Rightarrow> block \<Rightarrow> unit mprog" where
  "mem_write a b = (\<lambda>s. case map_of (blocks s) a of None \<Rightarrow> (Inl (Undefined ''use after free''), s)
     | Some _ \<Rightarrow> (Inr (), s\<lparr>blocks := map (\<lambda>(x, y). (x, if x = a then b else y)) (blocks s)\<rparr>))"

definition mem_free :: "ptr \<Rightarrow> unit mprog" where
  "mem_free p = (case p of None \<Rightarrow> ret ()
     | Some a \<Rightarrow> (\<lambda>s. case map_of (blocks s) a of None \<Rightarrow> (Inl (Undefined ''double free''), s)
         | Some _ \<Rightarrow> (Inr (), s\<lparr>blocks := filter (\<lambda>x. fst x \<noteq> a) (blocks s)\<rparr>)))"

definition mem_alloc :: "malloc \<Rightarrow> block \<Rightarrow> ptr mprog" where
  "mem_alloc A b = (\<lambda>s. case A s of None \<Rightarrow> (Inr None, s) | Some a \<Rightarrow> (Inr (Some a), s\<lparr>blocks := (a, b) # blocks s\<rparr>))"

definition strdup :: "malloc \<Rightarrow> string \<Rightarrow> ptr mprog" where
  "strdup A txt = mem_alloc A (Text txt)"

text \<open>\<open>realloc\<close> of a text: the block stays when there is no other.\<close>

definition mem_realloc :: "malloc \<Rightarrow> nat \<Rightarrow> ptr mprog" where
  "mem_realloc A a = bindE (mem_read a) (\<lambda>b s.
     let t = s\<lparr>blocks := filter (\<lambda>x. fst x \<noteq> a) (blocks s)\<rparr>
     in case A t of None \<Rightarrow> (Inr None, s) | Some c \<Rightarrow> (Inr (Some c), t\<lparr>blocks := (c, b) # blocks t\<rparr>))"

text \<open>Typed accesses.\<close>

definition read_node :: "nat \<Rightarrow> cli_node mprog" where
  "read_node a = bindE (mem_read a) (\<lambda>b. case b of Node n \<Rightarrow> ret n | _ \<Rightarrow> throw (Undefined ''wrong type''))"

definition upd_node :: "nat \<Rightarrow> (cli_node \<Rightarrow> cli_node) \<Rightarrow> unit mprog" where
  "upd_node a f = bindE (read_node a) (\<lambda>n. mem_write a (Node (f n)))"

definition read_user :: "nat \<Rightarrow> unp mprog" where
  "read_user a = bindE (mem_read a) (\<lambda>b. case b of User n \<Rightarrow> ret n | _ \<Rightarrow> throw (Undefined ''wrong type''))"

definition upd_user :: "nat \<Rightarrow> (unp \<Rightarrow> unp) \<Rightarrow> unit mprog" where
  "upd_user a f = bindE (read_user a) (\<lambda>n. mem_write a (User (f n)))"

definition read_obj :: "nat \<Rightarrow> cli_object mprog" where
  "read_obj a = bindE (mem_read a) (\<lambda>b. case b of Object n \<Rightarrow> ret n | _ \<Rightarrow> throw (Undefined ''wrong type''))"

definition upd_obj :: "nat \<Rightarrow> (cli_object \<Rightarrow> cli_object) \<Rightarrow> unit mprog" where
  "upd_obj a f = bindE (read_obj a) (\<lambda>n. mem_write a (Object (f n)))"

definition read_text :: "ptr \<Rightarrow> string mprog" where
  "read_text p = (case p of None \<Rightarrow> throw (Undefined ''null pointer'')
     | Some a \<Rightarrow> bindE (mem_read a) (\<lambda>b. case b of Text t \<Rightarrow> ret t | _ \<Rightarrow> throw (Undefined ''wrong type'')))"

text \<open>A loop over a linked structure, with the bound of its iterations.\<close>

definition bounded :: "(nat \<Rightarrow> 'a mprog) \<Rightarrow> 'a mprog" where
  "bounded f = (\<lambda>s. f (Suc (length (blocks s))) s)"

text \<open>\<open>if (!(p = ...)) return NULL;\<close>\<close>

definition or_null :: "ptr mprog \<Rightarrow> (nat \<Rightarrow> ptr mprog) \<Rightarrow> ptr mprog" where
  "or_null m k = bindE m (\<lambda>p. case p of None \<Rightarrow> ret None | Some a \<Rightarrow> k a)"

section \<open>Texts of the session\<close>

text \<open>\<open>free_z(cli->f)\<close>, for a member with its access and update functions.\<close>

definition free_z :: "(cli_object \<Rightarrow> ptr) \<Rightarrow> ((ptr \<Rightarrow> ptr) \<Rightarrow> cli_object \<Rightarrow> cli_object) \<Rightarrow> nat \<Rightarrow> unit mprog" where
  "free_z get upd ob = bindE (read_obj ob) (\<lambda>d. seqE (mem_free (get d)) (upd_obj ob (upd (\<lambda>_. None))))"

definition dup_into :: "((ptr \<Rightarrow> ptr) \<Rightarrow> cli_object \<Rightarrow> cli_object) \<Rightarrow> malloc \<Rightarrow> nat \<Rightarrow> string \<Rightarrow> unit mprog" where
  "dup_into upd A ob txt = bindE (strdup A txt) (\<lambda>p. upd_obj ob (upd (\<lambda>_. p)))"

definition mem_set_banner :: "malloc \<Rightarrow> nat \<Rightarrow> string \<Rightarrow> unit mprog" where
  "mem_set_banner A ob banner = seqE (free_z o_banner o_banner_update ob)
     (whenE (banner \<noteq> []) (dup_into o_banner_update A ob banner))"

definition mem_set_hostname :: "malloc \<Rightarrow> nat \<Rightarrow> string \<Rightarrow> unit mprog" where
  "mem_set_hostname A ob hostname = seqE (free_z o_hostname o_hostname_update ob)
     (whenE (hostname \<noteq> []) (dup_into o_hostname_update A ob hostname))"

definition mem_set_promptchar :: "malloc \<Rightarrow> nat \<Rightarrow> string \<Rightarrow> unit mprog" where
  "mem_set_promptchar A ob promptchar = seqE (free_z o_promptchar o_promptchar_update ob)
     (dup_into o_promptchar_update A ob promptchar)"

definition mem_allow_enable :: "malloc \<Rightarrow> nat \<Rightarrow> string \<Rightarrow> unit mprog" where
  "mem_allow_enable A ob pword = seqE (free_z o_enable_password o_enable_password_update ob)
     (dup_into o_enable_password_update A ob pword)"

definition mem_set_modestring :: "malloc \<Rightarrow> nat \<Rightarrow> string option \<Rightarrow> unit mprog" where
  "mem_set_modestring A ob m = seqE (free_z o_modestring o_modestring_update ob)
     (case m of None \<Rightarrow> ret () | Some txt \<Rightarrow> dup_into o_modestring_update A ob txt)"

section \<open>Users\<close>

fun last_user :: "nat \<Rightarrow> nat \<Rightarrow> nat mprog" where
  "last_user 0 u = throw NoReturn"
| "last_user (Suc k) u = bindE (read_user u) (\<lambda>x. case u_next x of None \<Rightarrow> ret u | Some v \<Rightarrow> last_user k v)"

definition link_user :: "nat \<Rightarrow> nat \<Rightarrow> unit mprog" where
  "link_user ob n = bindE (read_obj ob) (\<lambda>d. case o_users d of
       None \<Rightarrow> upd_obj ob (\<lambda>d. d\<lparr>o_users := Some n\<rparr>)
     | Some u \<Rightarrow> bindE (bounded (\<lambda>k. last_user k u)) (\<lambda>l. upd_user l (\<lambda>x. x\<lparr>u_next := Some n\<rparr>)))"

definition mem_allow_user :: "malloc \<Rightarrow> nat \<Rightarrow> string \<Rightarrow> string \<Rightarrow> unit mprog" where
  "mem_allow_user A ob uname pword =
     bindE (mem_alloc A (User \<lparr>u_username = None, u_password = None, u_next = None\<rparr>)) (\<lambda>p. case p of None \<Rightarrow> ret ()
     | Some n \<Rightarrow> bindE (strdup A uname) (\<lambda>q. case q of None \<Rightarrow> mem_free p
     | Some _ \<Rightarrow> seqE (upd_user n (\<lambda>x. x\<lparr>u_username := q\<rparr>)) (bindE (strdup A pword) (\<lambda>r. case r of
           None \<Rightarrow> seqE (mem_free q) (mem_free p)
         | Some _ \<Rightarrow> seqE (upd_user n (\<lambda>x. x\<lparr>u_password := r, u_next := None\<rparr>))
            (link_user ob n)))))"

definition free_user :: "nat \<Rightarrow> unit mprog" where
  "free_user u = bindE (read_user u) (\<lambda>x. seqE (mem_free (u_username x)) (seqE (mem_free (u_password x)) (mem_free (Some u))))"

fun deny_loop :: "nat \<Rightarrow> nat \<Rightarrow> string \<Rightarrow> ptr \<Rightarrow> ptr \<Rightarrow> unit mprog" where
  "deny_loop 0 ob name p u = throw NoReturn"
| "deny_loop (Suc k) ob name p None = ret ()"
| "deny_loop (Suc k) ob name p (Some u) =
     bindE (read_user u) (\<lambda>x. bindE (read_text (u_username x)) (\<lambda>n.
     if n = name
     then seqE (case p of None \<Rightarrow> upd_obj ob (\<lambda>d. d\<lparr>o_users := u_next x\<rparr>)
                  | Some v \<Rightarrow> upd_user v (\<lambda>y. y\<lparr>u_next := u_next x\<rparr>))
            (free_user u)
     else deny_loop k ob name (Some u) (u_next x)))"

definition mem_deny_user :: "nat \<Rightarrow> string \<Rightarrow> unit mprog" where
  "mem_deny_user ob uname = bindE (read_obj ob) (\<lambda>d. bounded (\<lambda>k. deny_loop k ob uname None (o_users d)))"

fun free_users :: "nat \<Rightarrow> ptr \<Rightarrow> unit mprog" where
  "free_users 0 u = throw NoReturn"
| "free_users (Suc k) None = ret ()"
| "free_users (Suc k) (Some u) =
     bindE (read_user u) (\<lambda>x. seqE (mem_free (u_username x)) (seqE (mem_free (u_password x))
       (bindE (read_user u) (\<lambda>y. seqE (mem_free (Some u)) (free_users k (u_next y))))))"

section \<open>Commands\<close>

fun last_node :: "nat \<Rightarrow> nat \<Rightarrow> nat mprog" where
  "last_node 0 c = throw NoReturn"
| "last_node (Suc k) c = bindE (read_node c) (\<lambda>x. case n_next x of None \<Rightarrow> ret c | Some d \<Rightarrow> last_node k d)"

definition append_node :: "nat \<Rightarrow> nat \<Rightarrow> unit mprog" where
  "append_node f c = bindE (bounded (\<lambda>k. last_node k f)) (\<lambda>l. upd_node l (\<lambda>x. x\<lparr>n_next := Some c\<rparr>))"

definition link_node :: "nat \<Rightarrow> ptr \<Rightarrow> nat \<Rightarrow> unit mprog" where
  "link_node ob parent c = (case parent of
       Some p \<Rightarrow> bindE (read_node p) (\<lambda>x. case n_children x of
           None \<Rightarrow> upd_node p (\<lambda>x. x\<lparr>n_children := Some c\<rparr>)
         | Some f \<Rightarrow> append_node f c)
     | None \<Rightarrow> bindE (read_obj ob) (\<lambda>d. case o_commands d of
           None \<Rightarrow> upd_obj ob (\<lambda>d. d\<lparr>o_commands := Some c\<rparr>)
         | Some f \<Rightarrow> append_node f c))"

definition blank_node :: cli_node where
  "blank_node = \<lparr>n_command = None, n_callback = None, n_unique_len = 0, n_help = None, n_privilege = 0, n_mode = 0,
     n_completion = None, n_next = None, n_children = None, n_parent = None\<rparr>"

definition mem_register_command ::
  "malloc \<Rightarrow> nat \<Rightarrow> ptr \<Rightarrow> string \<Rightarrow> handler option \<Rightarrow> int \<Rightarrow> int \<Rightarrow> string option \<Rightarrow> ptr mprog" where
  "mem_register_command A ob parent command callback privilege mode help =
     or_null (mem_alloc A (Node blank_node)) (\<lambda>c.
     seqE (upd_node c (\<lambda>x. x\<lparr>n_callback := callback, n_next := None\<rparr>))
    (or_null (strdup A command) (\<lambda>q.
     seqE (upd_node c (\<lambda>x. x\<lparr>n_command := Some q, n_parent := parent, n_privilege := privilege, n_mode := mode\<rparr>))
    (case help of
       None \<Rightarrow> seqE (link_node ob parent c) (ret (Some c))
     | Some h \<Rightarrow> or_null (strdup A h) (\<lambda>r.
         seqE (upd_node c (\<lambda>x. x\<lparr>n_help := Some r\<rparr>)) (seqE (link_node ob parent c) (ret (Some c))))))))"

definition drop_node :: "nat \<Rightarrow> unit mprog" where
  "drop_node c = bindE (read_node c) (\<lambda>x. seqE (mem_free (n_command x)) (seqE (mem_free (n_help x)) (mem_free (Some c))))"

text \<open>The loop of \<open>cli_free_command\<close> over the children, which calls the function itself.\<close>

fun free_children :: "nat \<Rightarrow> ptr \<Rightarrow> unit mprog" where
  "free_children 0 c = throw NoReturn"
| "free_children (Suc k) None = ret ()"
| "free_children (Suc k) (Some c) =
     bindE (read_node c) (\<lambda>x. seqE (bindE (read_node c) (\<lambda>y. seqE (free_children k (n_children y)) (drop_node c)))
       (free_children k (n_next x)))"

definition mem_free_command :: "nat \<Rightarrow> unit mprog" where
  "mem_free_command c = bindE (read_node c) (\<lambda>x. seqE (bounded (\<lambda>k. free_children k (n_children x))) (drop_node c))"

fun unregister_loop :: "nat \<Rightarrow> nat \<Rightarrow> string \<Rightarrow> ptr \<Rightarrow> ptr \<Rightarrow> unit mprog" where
  "unregister_loop 0 ob name p c = throw NoReturn"
| "unregister_loop (Suc k) ob name p None = ret ()"
| "unregister_loop (Suc k) ob name p (Some c) =
     bindE (read_node c) (\<lambda>x. bindE (read_text (n_command x)) (\<lambda>n.
     if n = name
     then seqE (case p of None \<Rightarrow> upd_obj ob (\<lambda>d. d\<lparr>o_commands := n_next x\<rparr>)
                  | Some v \<Rightarrow> upd_node v (\<lambda>y. y\<lparr>n_next := n_next x\<rparr>))
            (mem_free_command c)
     else unregister_loop k ob name (Some c) (n_next x)))"

definition mem_unregister_command :: "nat \<Rightarrow> string \<Rightarrow> int mprog" where
  "mem_unregister_command ob command = bindE (read_obj ob) (\<lambda>d.
     seqE (bounded (\<lambda>k. unregister_loop k ob command None (o_commands d))) (ret CLI_OK))"

text \<open>The loop of \<open>cli_unregister_all\<close>; the recursive call is only made for a node with children.\<close>

fun unregister_all :: "nat \<Rightarrow> ptr \<Rightarrow> unit mprog" where
  "unregister_all 0 c = throw NoReturn"
| "unregister_all (Suc k) None = ret ()"
| "unregister_all (Suc k) (Some c) =
     bindE (read_node c) (\<lambda>x. seqE (whenE (n_children x \<noteq> None) (unregister_all k (n_children x)))
       (seqE (drop_node c) (unregister_all k (n_next x))))"

definition mem_unregister_all :: "nat \<Rightarrow> ptr \<Rightarrow> unit mprog" where
  "mem_unregister_all ob command = bindE (read_obj ob) (\<lambda>d.
     bounded (\<lambda>k. unregister_all k (if command = None then o_commands d else command)))"

section \<open>Shortest unique prefixes\<close>

definition node_hidden :: "cli_object \<Rightarrow> cli_node \<Rightarrow> bool" where
  "node_hidden d x \<longleftrightarrow> (n_mode x \<noteq> MODE_ANY \<and> n_mode x \<noteq> o_mode d) \<or> o_privilege d < n_privilege x"

fun shortest_inner :: "nat \<Rightarrow> cli_object \<Rightarrow> nat \<Rightarrow> ptr \<Rightarrow> unit mprog" where
  "shortest_inner 0 d c p = throw NoReturn"
| "shortest_inner (Suc k) d c None = ret ()"
| "shortest_inner (Suc k) d c (Some p) =
     bindE (read_node p) (\<lambda>x. seqE
       (if c = p \<or> node_hidden d x then ret ()
        else bindE (read_node c) (\<lambda>y. bindE (read_text (n_command y)) (\<lambda>cp. bindE (read_text (n_command x)) (\<lambda>pp.
          whenE (Suc (prefix_len cp pp) > n_unique_len y) (upd_node c (\<lambda>y. y\<lparr>n_unique_len := Suc (prefix_len cp pp)\<rparr>))))))
       (shortest_inner k d c (n_next x)))"

fun build_shortest :: "nat \<Rightarrow> cli_object \<Rightarrow> ptr \<Rightarrow> ptr \<Rightarrow> unit mprog" where
  "build_shortest 0 d commands c = throw NoReturn"
| "build_shortest (Suc k) d commands None = ret ()"
| "build_shortest (Suc k) d commands (Some c) =
     bindE (read_node c) (\<lambda>x. bindE (read_text (n_command x)) (\<lambda>n.
     seqE (upd_node c (\<lambda>y. y\<lparr>n_unique_len := length n\<rparr>))
    (seqE (if node_hidden d x then ret ()
           else seqE (upd_node c (\<lambda>y. y\<lparr>n_unique_len := 1\<rparr>))
               (seqE (bounded (\<lambda>m. shortest_inner m d c commands))
                     (whenE (n_children x \<noteq> None) (build_shortest k d (n_children x) (n_children x)))))
          (build_shortest k d commands (n_next x)))))"

definition mem_build_shortest :: "nat \<Rightarrow> unit mprog" where
  "mem_build_shortest ob = bindE (read_obj ob) (\<lambda>d. bounded (\<lambda>k. build_shortest k d (o_commands d) (o_commands d)))"

definition mem_set_privilege :: "malloc \<Rightarrow> nat \<Rightarrow> int \<Rightarrow> int mprog" where
  "mem_set_privilege A ob priv = bindE (read_obj ob) (\<lambda>d.
     seqE (upd_obj ob (\<lambda>d. d\<lparr>o_privilege := priv\<rparr>))
    (seqE (whenE (priv \<noteq> o_privilege d)
            (seqE (mem_set_promptchar A ob (if priv = PRIVILEGE_PRIVILEGED then ''# '' else ''> '')) (mem_build_shortest ob)))
          (ret (o_privilege d))))"

definition mem_set_configmode :: "malloc \<Rightarrow> nat \<Rightarrow> int \<Rightarrow> string option \<Rightarrow> int mprog" where
  "mem_set_configmode A ob mode desc = bindE (read_obj ob) (\<lambda>d.
     seqE (upd_obj ob (\<lambda>d. d\<lparr>o_mode := mode\<rparr>))
    (seqE (whenE (mode \<noteq> o_mode d)
            (seqE (if mode = 0 then mem_set_modestring A ob None
                   else (case desc of
                       Some (x # xs) \<Rightarrow> mem_set_modestring A ob (Some (take 63 (''(config-'' @ x # xs @ '')'')))
                     | _ \<Rightarrow> mem_set_modestring A ob (Some ''(config)'')))
              (mem_build_shortest ob)))
          (ret (o_mode d))))"

section \<open>The name of a command\<close>

text \<open>\<open>asprintf\<close> allocates the new text before the old one is freed.\<close>

fun name_climb :: "malloc \<Rightarrow> nat \<Rightarrow> nat \<Rightarrow> ptr \<Rightarrow> ptr mprog" where
  "name_climb A 0 name c = throw NoReturn"
| "name_climb A (Suc k) name None = ret (Some name)"
| "name_climb A (Suc k) name (Some c) =
     bindE (read_node c) (\<lambda>x. bindE (read_text (n_command x)) (\<lambda>n. bindE (read_text (Some name)) (\<lambda>old.
     bindE (strdup A (n @ (if old = [] then [] else '' '') @ old)) (\<lambda>p. case p of
         None \<Rightarrow> seqE (mem_free (Some name)) (ret None)
       | Some name' \<Rightarrow> seqE (mem_free (Some name)) (name_climb A k name' (n_parent x))))))"

definition mem_command_name :: "malloc \<Rightarrow> nat \<Rightarrow> nat \<Rightarrow> ptr mprog" where
  "mem_command_name A ob command = bindE (read_obj ob) (\<lambda>d.
     seqE (mem_free (o_commandname d))
    (or_null (strdup A []) (\<lambda>name.
     or_null (bounded (\<lambda>k. name_climb A k name (Some command))) (\<lambda>r.
     seqE (upd_obj ob (\<lambda>d. d\<lparr>o_commandname := Some r\<rparr>)) (ret (Some r))))))"

section \<open>History\<close>

text \<open>The first loop returns \<open>None\<close> when there is no free slot.\<close>

fun history_slot :: "malloc \<Rightarrow> nat \<Rightarrow> string \<Rightarrow> nat \<Rightarrow> ptr \<Rightarrow> ptr list \<Rightarrow> int option mprog" where
  "history_slot A ob line i prev [] = ret None"
| "history_slot A ob line i prev (Some h # hs) = history_slot A ob line (Suc i) (Some h) hs"
| "history_slot A ob line i prev (None # hs) =
     bindE (if i = 0 then ret True else bindE (read_text prev) (\<lambda>t. ret (\<not> strcasecmp_eq t line))) (\<lambda>differs.
     if differs
     then bindE (strdup A line) (\<lambda>p. seqE (upd_obj ob (\<lambda>d. d\<lparr>o_history := (o_history d)[i := p]\<rparr>))
            (ret (Some (if p = None then CLI_ERROR else CLI_OK))))
     else ret (Some CLI_OK))"

definition mem_add_history :: "malloc \<Rightarrow> nat \<Rightarrow> string \<Rightarrow> int mprog" where
  "mem_add_history A ob line = bindE (read_obj ob) (\<lambda>d.
     bindE (history_slot A ob line 0 None (o_history d)) (\<lambda>r. case r of
         Some x \<Rightarrow> ret x
       | None \<Rightarrow> seqE (mem_free (hd (o_history d)))
          (bindE (strdup A line) (\<lambda>p. seqE (upd_obj ob (\<lambda>d. d\<lparr>o_history := tl (o_history d) @ [p]\<rparr>))
            (ret (if p = None then CLI_ERROR else CLI_OK))))))"

fun free_history_loop :: "nat \<Rightarrow> nat \<Rightarrow> ptr list \<Rightarrow> unit mprog" where
  "free_history_loop ob i [] = ret ()"
| "free_history_loop ob i (h # hs) =
     seqE (whenE (h \<noteq> None) (seqE (mem_free h) (upd_obj ob (\<lambda>d. d\<lparr>o_history := (o_history d)[i := None]\<rparr>))))
       (free_history_loop ob (Suc i) hs)"

definition mem_free_history :: "nat \<Rightarrow> unit mprog" where
  "mem_free_history ob = bindE (read_obj ob) (\<lambda>d. free_history_loop ob 0 (o_history d))"

section \<open>The print buffer\<close>

text \<open>The loop that formats into the buffer and makes it grow; it returns whether there is a text to print.\<close>

fun print_fill :: "malloc \<Rightarrow> nat \<Rightarrow> nat \<Rightarrow> string \<Rightarrow> bool mprog" where
  "print_fill A 0 ob txt = throw NoReturn"
| "print_fill A (Suc k) ob txt = bindE (read_obj ob) (\<lambda>d. case o_buffer d of
       None \<Rightarrow> throw (Undefined ''null pointer'')
     | Some b \<Rightarrow> seqE (mem_write b (Text (take (o_buf_size d - 1) txt)))
         (if o_buf_size d \<le> length txt
          then seqE (upd_obj ob (\<lambda>d. d\<lparr>o_buf_size := length txt + 1\<rparr>))
                (bindE (mem_realloc A b) (\<lambda>p. seqE (upd_obj ob (\<lambda>d. d\<lparr>o_buffer := p\<rparr>))
                  (if p = None then ret False else print_fill A k ob txt)))
          else ret True))"

text \<open>
  What \<open>_print\<close> leaves in the buffer. The newlines of the text are terminators by then, and
  \<open>memmove\<close> moves the rest to the front without its own.
\<close>

definition print_rest :: "bool \<Rightarrow> string \<Rightarrow> string" where
  "print_rest buffered txt =
     (let rest = last (split_lines txt);
          cut = map (\<lambda>c. if c = CHR 0x0A then CHR 0x00 else c) txt
      in if buffered \<and> rest \<noteq> [] then takeWhile (\<lambda>c. c \<noteq> CHR 0x00) (rest @ drop (length rest) cut) else [])"

definition mem_print :: "malloc \<Rightarrow> nat \<Rightarrow> bool \<Rightarrow> string \<Rightarrow> unit mprog" where
  "mem_print A ob buffered txt =
     bindE (bounded (\<lambda>k. print_fill A (Suc k) ob txt)) (\<lambda>filled. whenE filled
       (bindE (read_obj ob) (\<lambda>d. case o_buffer d of
           None \<Rightarrow> throw (Undefined ''null pointer'')
         | Some b \<Rightarrow> mem_write b (Text (print_rest buffered txt)))))"

section \<open>Requests\<close>

text \<open>\<open>vsnprintf\<close> writes at most 1023 characters and a terminator into the block of 1024.\<close>

definition mem_request :: "malloc \<Rightarrow> nat \<Rightarrow> bool \<Rightarrow> string \<Rightarrow> int mprog" where
  "mem_request A ob callback prompt = bindE (read_obj ob) (\<lambda>d.
     if o_requesting d \<or> \<not> callback then ret CLI_ERROR
     else seqE (upd_obj ob (\<lambda>d. d\<lparr>o_requesting := True\<rparr>))
         (bindE (strdup A (take 1023 prompt)) (\<lambda>p. seqE (upd_obj ob (\<lambda>d. d\<lparr>o_request_prompt := p\<rparr>))
           (if p = None then throw (Undefined ''null pointer'') else ret CLI_OK))))"

text \<open>The end of a request in \<open>cli_loop\<close>; the state before it is no request.\<close>

definition mem_end_request :: "nat \<Rightarrow> unit mprog" where
  "mem_end_request ob = seqE (upd_obj ob (\<lambda>d. d\<lparr>o_requesting := False\<rparr>)) (free_z o_request_prompt o_request_prompt_update ob)"

section \<open>Beginning and end\<close>

definition blank_object :: cli_object where
  "blank_object = \<lparr>o_commands = None, o_banner = None, o_users = None, o_enable_password = None,
     o_history = replicate MAX_HISTORY None, o_promptchar = None, o_hostname = None, o_modestring = None,
     o_privilege = 0, o_mode = 0, o_requesting = False, o_commandname = None, o_buffer = None, o_buf_size = 0, o_hooks = None,
     o_request_prompt = None\<rparr>"

text \<open>The commands every session has, with \<open>terminal\<close> below \<open>configure\<close>.\<close>

definition own_commands :: "(string \<times> handler option \<times> int \<times> int \<times> string) list" where
  "own_commands =
     [(''help'', Some cli_int_help, PRIVILEGE_UNPRIVILEGED, MODE_ANY, ''Show available commands''),
      (''quit'', Some cli_int_quit, PRIVILEGE_UNPRIVILEGED, MODE_ANY, ''Disconnect''),
      (''logout'', Some cli_int_quit, PRIVILEGE_UNPRIVILEGED, MODE_ANY, ''Disconnect''),
      (''exit'', Some cli_int_exit, PRIVILEGE_UNPRIVILEGED, MODE_ANY, ''Exit from current mode''),
      (''history'', Some cli_int_history, PRIVILEGE_UNPRIVILEGED, MODE_ANY, ''Show a list of previously run commands''),
      (''enable'', Some cli_int_enable, PRIVILEGE_UNPRIVILEGED, MODE_EXEC, ''Turn on privileged commands''),
      (''disable'', Some cli_int_disable, PRIVILEGE_PRIVILEGED, MODE_EXEC, ''Turn off privileged commands'')]"

fun register_list :: "malloc \<Rightarrow> nat \<Rightarrow> ptr \<Rightarrow> (string \<times> handler option \<times> int \<times> int \<times> string) list \<Rightarrow> unit mprog" where
  "register_list A ob parent [] = ret ()"
| "register_list A ob parent ((name, h, priv, mode, help) # xs) =
     seqE (mem_register_command A ob parent name h priv mode (Some help)) (register_list A ob parent xs)"

definition fill_cli :: "malloc \<Rightarrow> nat \<Rightarrow> unit mprog" where
  "fill_cli A ob =
     seqE (register_list A ob None own_commands)
    (bindE (mem_register_command A ob None ''configure'' None PRIVILEGE_PRIVILEGED MODE_EXEC (Some ''Enter configuration mode'')) (\<lambda>c.
     seqE (register_list A ob c
        [(''terminal'', Some cli_int_configure_terminal, PRIVILEGE_PRIVILEGED, MODE_EXEC, ''Configure from the terminal'')])
    (seqE (upd_obj ob (\<lambda>d. d\<lparr>o_privilege := - 1, o_mode := - 1\<rparr>))
    (seqE (mem_set_privilege A ob PRIVILEGE_UNPRIVILEGED)
    (seqE (mem_set_configmode A ob MODE_EXEC None) (ret ()))))))"

definition mem_init :: "malloc \<Rightarrow> ptr mprog" where
  "mem_init A =
     or_null (mem_alloc A (Object blank_object)) (\<lambda>ob.
     seqE (upd_obj ob (\<lambda>d. d\<lparr>o_buf_size := 1024\<rparr>))
    (bindE (mem_alloc A (Text [])) (\<lambda>b. case b of None \<Rightarrow> seqE (mem_free (Some ob)) (ret None)
     | Some _ \<Rightarrow> seqE (upd_obj ob (\<lambda>d. d\<lparr>o_buffer := b\<rparr>))
    (bindE (mem_alloc A Hooks) (\<lambda>h. case h of None \<Rightarrow> seqE (mem_free (Some ob)) (ret None)
     | Some _ \<Rightarrow> seqE (upd_obj ob (\<lambda>d. d\<lparr>o_hooks := h\<rparr>)) (seqE (fill_cli A ob) (ret (Some ob))))))))"

definition mem_done :: "nat \<Rightarrow> int mprog" where
  "mem_done ob = bindE (read_obj ob) (\<lambda>d.
     seqE (mem_free_history ob)
    (seqE (bounded (\<lambda>k. free_users k (o_users d)))
    (seqE (mem_unregister_all ob None)
    (seqE (free_z o_commandname o_commandname_update ob)
    (seqE (free_z o_modestring o_modestring_update ob)
    (seqE (free_z o_banner o_banner_update ob)
    (seqE (free_z o_promptchar o_promptchar_update ob)
    (seqE (free_z o_hostname o_hostname_update ob)
    (seqE (free_z o_buffer o_buffer_update ob)
    (seqE (free_z o_hooks o_hooks_update ob)
    (seqE (free_z o_request_prompt o_request_prompt_update ob)
    (seqE (mem_free (Some ob)) (ret CLI_OK)))))))))))))"

end
