(* ===== verification/CliLayout.thy ===== *)
theory CliLayout
  imports CliMemory
begin

text \<open>
  What the store of \<open>CliMemory\<close> holds, as a multiset of addresses with their blocks, and the rules to run a program on it.
  A tree of commands, a list of users and the object of a session each have a layout, the blocks they consist of;
  whatever else is in the store is the rest \<open>R\<close> of a sum.
\<close>

section \<open>Programs on a store with given blocks\<close>

type_synonym heap = "(nat \<times> block) multiset"

definition holds :: "memory \<Rightarrow> heap \<Rightarrow> bool" where
  "holds s M \<longleftrightarrow> distinct (map fst (blocks s)) \<and> mset (blocks s) = M"

text \<open>The program returns normally, with a value and a store as \<open>Q\<close> says.\<close>

definition runs :: "heap \<Rightarrow> 'a mprog \<Rightarrow> ('a \<Rightarrow> heap \<Rightarrow> bool) \<Rightarrow> bool" where
  "runs M m Q \<longleftrightarrow> (\<forall>s. holds s M \<longrightarrow> (\<exists>x t N. m s = (Inr x, t) \<and> holds t N \<and> Q x N))"

text \<open>The allocator answers every time, with an address that is not in use.\<close>

definition malloc_ok :: "malloc \<Rightarrow> bool" where
  "malloc_ok A \<longleftrightarrow> (\<forall>s. \<exists>a. A s = Some a \<and> a \<notin> live s)"

lemma runsD: "runs M m Q \<Longrightarrow> holds s M \<Longrightarrow> \<exists>x t N. m s = (Inr x, t) \<and> holds t N \<and> Q x N"
  by (simp add: runs_def)

lemma runs_mono: "runs M m P \<Longrightarrow> (\<And>x N. P x N \<Longrightarrow> Q x N) \<Longrightarrow> runs M m Q"
  unfolding runs_def by blast

lemma runs_ret: "Q x M \<Longrightarrow> runs M (ret x) Q"
  by (auto simp: runs_def)

lemma runs_bind: "runs M m P \<Longrightarrow> (\<And>x N. P x N \<Longrightarrow> runs N (k x) Q) \<Longrightarrow> runs M (bindE m k) Q"
  unfolding runs_def by (metis bindE_Inr)

lemma runs_seq: "runs M m P \<Longrightarrow> (\<And>x N. P x N \<Longrightarrow> runs N n Q) \<Longrightarrow> runs M (seqE m n) Q"
  unfolding seqE_def by (rule runs_bind)

lemma holds_size: "holds s M \<Longrightarrow> length (blocks s) = size M"
  by (auto simp: holds_def)

lemma runs_bounded: "runs M (f (Suc (size M))) Q \<Longrightarrow> runs M (bounded f) Q"
  by (auto simp: runs_def bounded_def holds_size)

lemma holds_map_of: "holds s M \<Longrightarrow> (a, b) \<in># M \<Longrightarrow> map_of (blocks s) a = Some b"
  by (auto simp: holds_def)

text \<open>No two blocks have the same address.\<close>

definition apart :: "heap \<Rightarrow> bool" where
  "apart M \<longleftrightarrow> (\<forall>a. count (image_mset fst M) a \<le> 1)"

lemma holds_apart: "holds s M \<Longrightarrow> apart M"
  unfolding holds_def apart_def by (metis distinct_count_atmost_1 dual_order.refl mset_map zero_le_one)

lemma runs_apart: "(apart M \<Longrightarrow> runs M m Q) \<Longrightarrow> runs M m Q"
  unfolding runs_def using holds_apart by blast

lemma apart_add: "apart (add_mset (a, b) M) \<longleftrightarrow> a \<notin> fst ` set_mset M \<and> apart M"
proof -
  have "count (image_mset fst M) a = 0 \<longleftrightarrow> a \<notin> fst ` set_mset M"
    by (simp add: not_in_iff [symmetric])
  then show ?thesis unfolding apart_def by (auto simp: le_Suc_eq)
qed

lemma apart_plus:
  assumes "apart (M + N)"
  shows "apart M" "apart N" "fst ` set_mset M \<inter> fst ` set_mset N = {}"
proof -
  have le: "count (image_mset fst M) a + count (image_mset fst N) a \<le> 1" for a
    using assms by (simp add: apart_def)
  then show "apart M" "apart N" unfolding apart_def using add_leD1 add_leD2 by blast+
  have "count (image_mset fst M) a = 0 \<or> count (image_mset fst N) a = 0" for a
    using le [of a] by linarith
  then have "a \<notin># image_mset fst M \<or> a \<notin># image_mset fst N" for a
    by (metis not_in_iff)
  then show "fst ` set_mset M \<inter> fst ` set_mset N = {}" by (metis disjoint_iff set_image_mset)
qed

section \<open>The accesses\<close>

lemma runs_mem_read: "(a, b) \<in># M \<Longrightarrow> runs M (mem_read a) (\<lambda>x N. x = b \<and> N = M)"
  by (auto simp: runs_def mem_read_def holds_map_of)

lemma mset_map_key:
  fixes xs :: "(nat \<times> block) list"
  assumes "distinct (map fst xs)" and "mset xs = add_mset (a, b) M"
  shows "mset (map (\<lambda>(x, y). (x, if x = a then c else y)) xs) = add_mset (a, c) M"
    and "mset (filter (\<lambda>x. fst x \<noteq> a) xs) = M"
proof -
  have "apart (add_mset (a, b) M)" using assms holds_apart [of "\<lparr>blocks = xs\<rparr>"] by (simp add: holds_def)
  then have out: "x \<noteq> a" if "(x, y) \<in># M" for x y using that by (auto simp: apart_add image_iff)
  have "image_mset (\<lambda>(x, y). (x, if x = a then c else y)) M = image_mset (\<lambda>x. x) M"
    by (rule image_mset_cong) (auto dest: out)
  with assms(2) show "mset (map (\<lambda>(x, y). (x, if x = a then c else y)) xs) = add_mset (a, c) M" by simp
  have "filter_mset (\<lambda>x. fst x \<noteq> a) M = M"
    by (rule filter_mset_eq_conv [THEN iffD2]) (auto dest: out)
  with assms(2) show "mset (filter (\<lambda>x. fst x \<noteq> a) xs) = M" by simp
qed

lemma runs_mem_write: "runs (add_mset (a, b) M) (mem_write a c) (\<lambda>_ N. N = add_mset (a, c) M)"
proof -
  have "mem_write a c s = (Inr (), s\<lparr>blocks := map (\<lambda>(x, y). (x, if x = a then c else y)) (blocks s)\<rparr>)
      \<and> holds (s\<lparr>blocks := map (\<lambda>(x, y). (x, if x = a then c else y)) (blocks s)\<rparr>) (add_mset (a, c) M)"
    if "holds s (add_mset (a, b) M)" for s
    using that mset_map_key(1) [of "blocks s" a b M c] holds_map_of [OF that, of a b]
    by (auto simp: mem_write_def holds_def comp_def case_prod_beta)
  then show ?thesis unfolding runs_def by blast
qed

lemma runs_mem_free: "runs (add_mset (a, b) M) (mem_free (Some a)) (\<lambda>_ N. N = M)"
proof -
  have "mem_free (Some a) s = (Inr (), s\<lparr>blocks := filter (\<lambda>x. fst x \<noteq> a) (blocks s)\<rparr>)
      \<and> holds (s\<lparr>blocks := filter (\<lambda>x. fst x \<noteq> a) (blocks s)\<rparr>) M"
    if "holds s (add_mset (a, b) M)" for s
    using that mset_map_key(2) [of "blocks s" a b M] holds_map_of [OF that, of a b]
    by (auto simp: mem_free_def holds_def distinct_map_filter)
  then show ?thesis unfolding runs_def by blast
qed

lemma mem_free_None [simp]: "mem_free None = ret ()"
  by (simp add: mem_free_def)

lemma runs_mem_alloc:
  assumes "malloc_ok A"
  shows "runs M (mem_alloc A b) (\<lambda>p N. \<exists>a. p = Some a \<and> N = add_mset (a, b) M)"
proof -
  have "\<exists>a. mem_alloc A b s = (Inr (Some a), s\<lparr>blocks := (a, b) # blocks s\<rparr>) \<and> holds (s\<lparr>blocks := (a, b) # blocks s\<rparr>) (add_mset (a, b) M)"
    if "holds s M" for s
  proof -
    from assms obtain a where "A s = Some a" "a \<notin> live s" unfolding malloc_ok_def by blast
    with that show ?thesis by (auto simp: mem_alloc_def holds_def live_def)
  qed
  then show ?thesis unfolding runs_def by blast
qed

lemma runs_strdup: "malloc_ok A \<Longrightarrow> runs M (strdup A txt) (\<lambda>p N. \<exists>a. p = Some a \<and> N = add_mset (a, Text txt) M)"
  unfolding strdup_def by (rule runs_mem_alloc)

lemma runs_mem_realloc:
  assumes "malloc_ok A"
  shows "runs (add_mset (a, b) M) (mem_realloc A a) (\<lambda>p N. \<exists>c. p = Some c \<and> N = add_mset (c, b) M)"
proof -
  have "\<exists>c t. mem_realloc A a s = (Inr (Some c), t) \<and> holds t (add_mset (c, b) M)" if "holds s (add_mset (a, b) M)" for s
  proof -
    let ?t = "s\<lparr>blocks := filter (\<lambda>x. fst x \<noteq> a) (blocks s)\<rparr>"
    from assms obtain c where c: "A ?t = Some c" "c \<notin> live ?t" unfolding malloc_ok_def by blast
    have "mem_read a s = (Inr b, s)" using holds_map_of [OF that, of a b] by (simp add: mem_read_def)
    moreover have "holds ?t M" using that mset_map_key(2) [of "blocks s" a b M] by (auto simp: holds_def distinct_map_filter)
    ultimately show ?thesis using c by (auto simp: mem_realloc_def bindE_def holds_def live_def)
  qed
  then show ?thesis unfolding runs_def by blast
qed

text \<open>Typed accesses.\<close>

lemma runs_read_node: "(a, Node n) \<in># M \<Longrightarrow> runs M (read_node a) (\<lambda>x N. x = n \<and> N = M)"
  unfolding read_node_def by (rule runs_bind, erule runs_mem_read) (auto intro: runs_ret)

lemma runs_read_user: "(a, User n) \<in># M \<Longrightarrow> runs M (read_user a) (\<lambda>x N. x = n \<and> N = M)"
  unfolding read_user_def by (rule runs_bind, erule runs_mem_read) (auto intro: runs_ret)

lemma runs_read_obj: "(a, Object n) \<in># M \<Longrightarrow> runs M (read_obj a) (\<lambda>x N. x = n \<and> N = M)"
  unfolding read_obj_def by (rule runs_bind, erule runs_mem_read) (auto intro: runs_ret)

lemma runs_read_text: "(a, Text t) \<in># M \<Longrightarrow> runs M (read_text (Some a)) (\<lambda>x N. x = t \<and> N = M)"
  unfolding read_text_def by (simp, rule runs_bind, erule runs_mem_read) (auto intro: runs_ret)

lemma runs_upd_node: "runs (add_mset (a, Node n) M) (upd_node a f) (\<lambda>_ N. N = add_mset (a, Node (f n)) M)"
  unfolding upd_node_def by (rule runs_bind, rule runs_read_node [of a n], simp) (auto intro: runs_mem_write)

lemma runs_upd_user: "runs (add_mset (a, User n) M) (upd_user a f) (\<lambda>_ N. N = add_mset (a, User (f n)) M)"
  unfolding upd_user_def by (rule runs_bind, rule runs_read_user [of a n], simp) (auto intro: runs_mem_write)

lemma runs_upd_obj: "runs (add_mset (a, Object n) M) (upd_obj a f) (\<lambda>_ N. N = add_mset (a, Object (f n)) M)"
  unfolding upd_obj_def by (rule runs_bind, rule runs_read_obj [of a n], simp) (auto intro: runs_mem_write)

text \<open>The rules with what follows, for a store that has the block somewhere.\<close>

lemma read_node_then: "(a, Node n) \<in># M \<Longrightarrow> runs M (k n) Q \<Longrightarrow> runs M (bindE (read_node a) k) Q"
  by (rule runs_bind, erule runs_read_node) simp

lemma read_user_then: "(a, User n) \<in># M \<Longrightarrow> runs M (k n) Q \<Longrightarrow> runs M (bindE (read_user a) k) Q"
  by (rule runs_bind, erule runs_read_user) simp

lemma read_obj_then: "(a, Object n) \<in># M \<Longrightarrow> runs M (k n) Q \<Longrightarrow> runs M (bindE (read_obj a) k) Q"
  by (rule runs_bind, erule runs_read_obj) simp

lemma read_text_then: "p = Some a \<Longrightarrow> (a, Text t) \<in># M \<Longrightarrow> runs M (k t) Q \<Longrightarrow> runs M (bindE (read_text p) k) Q"
  by (simp, rule runs_bind, erule runs_read_text) simp

lemma upd_node_then:
  "M = add_mset (a, Node n) N \<Longrightarrow> runs (add_mset (a, Node (f n)) N) m Q \<Longrightarrow> runs M (seqE (upd_node a f) m) Q"
  by (simp, rule runs_seq, rule runs_upd_node) simp

lemma upd_user_then:
  "M = add_mset (a, User n) N \<Longrightarrow> runs (add_mset (a, User (f n)) N) m Q \<Longrightarrow> runs M (seqE (upd_user a f) m) Q"
  by (simp, rule runs_seq, rule runs_upd_user) simp

lemma upd_obj_then:
  "M = add_mset (a, Object n) N \<Longrightarrow> runs (add_mset (a, Object (f n)) N) m Q \<Longrightarrow> runs M (seqE (upd_obj a f) m) Q"
  by (simp, rule runs_seq, rule runs_upd_obj) simp

lemma upd_node_last: "M = add_mset (a, Node n) N \<Longrightarrow> Q () (add_mset (a, Node (f n)) N) \<Longrightarrow> runs M (upd_node a f) Q"
  by (simp, rule runs_mono, rule runs_upd_node) simp

lemma upd_user_last: "M = add_mset (a, User n) N \<Longrightarrow> Q () (add_mset (a, User (f n)) N) \<Longrightarrow> runs M (upd_user a f) Q"
  by (simp, rule runs_mono, rule runs_upd_user) simp

lemma upd_obj_last: "M = add_mset (a, Object n) N \<Longrightarrow> Q () (add_mset (a, Object (f n)) N) \<Longrightarrow> runs M (upd_obj a f) Q"
  by (simp, rule runs_mono, rule runs_upd_obj) simp

lemma free_then: "p = Some a \<Longrightarrow> M = add_mset (a, b) N \<Longrightarrow> runs N m Q \<Longrightarrow> runs M (seqE (mem_free p) m) Q"
  by (simp, rule runs_seq, rule runs_mem_free) simp

lemma free_last: "p = Some a \<Longrightarrow> M = add_mset (a, b) N \<Longrightarrow> Q () N \<Longrightarrow> runs M (mem_free p) Q"
  by (simp, rule runs_mono, rule runs_mem_free) simp

lemma strdup_then:
  "malloc_ok A \<Longrightarrow> (\<And>a. runs (add_mset (a, Text txt) M) (k (Some a)) Q) \<Longrightarrow> runs M (bindE (strdup A txt) k) Q"
  by (rule runs_bind, erule runs_strdup) auto

lemma alloc_then:
  "malloc_ok A \<Longrightarrow> (\<And>a. runs (add_mset (a, b) M) (k (Some a)) Q) \<Longrightarrow> runs M (bindE (mem_alloc A b) k) Q"
  by (rule runs_bind, erule runs_mem_alloc) auto

lemma runs_whenE: "(b \<Longrightarrow> runs M m Q) \<Longrightarrow> (\<not> b \<Longrightarrow> Q () M) \<Longrightarrow> runs M (whenE b m) Q"
  by (cases b) (auto intro: runs_ret)

section \<open>Layouts\<close>

text \<open>A text with its address, or a null pointer.\<close>

definition lay_text :: "(nat \<times> string) option \<Rightarrow> heap" where
  "lay_text x = (case x of None \<Rightarrow> {#} | Some (a, t) \<Rightarrow> {#(a, Text t)#})"

lemma lay_text_simps [simp]: "lay_text None = {#}" "lay_text (Some x) = {#(fst x, Text (snd x))#}"
  by (simp_all add: lay_text_def case_prod_beta)

lemma free_text_then: "M = lay_text x + N \<Longrightarrow> runs N m Q \<Longrightarrow> runs M (seqE (mem_free (map_option fst x)) m) Q"
  by (cases x) (auto intro: free_then)

lemma free_text_last: "M = lay_text x + N \<Longrightarrow> Q () N \<Longrightarrow> runs M (mem_free (map_option fst x)) Q"
  by (cases x) (auto intro: free_last runs_ret)

text \<open>
  A tree of commands with the addresses of its blocks. The pointers of a node are computed from its place; \<open>nx\<close> is the
  address behind the last sibling.
\<close>

datatype ctree = CT (t_at: nat) (t_name: "nat \<times> string") (t_help: "(nat \<times> string) option") (t_node: cli_node) (t_kids: "ctree list")

fun first :: "ptr \<Rightarrow> ctree list \<Rightarrow> ptr" where
  "first nx [] = nx"
| "first nx (t # ts) = Some (t_at t)"

definition node_of :: "ptr \<Rightarrow> ptr \<Rightarrow> ctree \<Rightarrow> cli_node" where
  "node_of p nx t = (t_node t)\<lparr>n_command := Some (fst (t_name t)), n_help := map_option fst (t_help t),
     n_next := nx, n_children := first None (t_kids t), n_parent := p\<rparr>"

fun lay :: "ptr \<Rightarrow> ptr \<Rightarrow> ctree list \<Rightarrow> heap" where
  "lay p nx [] = {#}"
| "lay p nx (CT a nm hp nd ks # ts) =
     add_mset (a, Node (node_of p (first nx ts) (CT a nm hp nd ks))) (add_mset (fst nm, Text (snd nm))
       (lay_text hp + lay (Some a) None ks + lay p nx ts))"

lemma lay_Cons:
  "lay p nx (t # ts) = add_mset (t_at t, Node (node_of p (first nx ts) t)) (add_mset (fst (t_name t), Text (snd (t_name t)))
     (lay_text (t_help t) + lay (Some (t_at t)) None (t_kids t) + lay p nx ts))"
  by (cases t) simp

text \<open>The command the tree stands for.\<close>

fun command_of :: "ctree \<Rightarrow> cli_command" where
  "command_of (CT a nm hp nd ks) = Command (snd nm) (n_callback nd) (n_unique_len nd) (map_option snd hp)
     (n_privilege nd) (n_mode nd) (n_completion nd) (map command_of ks)"

fun addresses :: "ctree list \<Rightarrow> nat list" where
  "addresses [] = []"
| "addresses (CT a nm hp nd ks # ts) = a # addresses ks @ addresses ts"

text \<open>Users.\<close>

type_synonym cuser = "nat \<times> (nat \<times> string) \<times> (nat \<times> string)"

fun first_user :: "ptr \<Rightarrow> cuser list \<Rightarrow> ptr" where
  "first_user nx [] = nx"
| "first_user nx (u # us) = Some (fst u)"

fun lay_users :: "ptr \<Rightarrow> cuser list \<Rightarrow> heap" where
  "lay_users nx [] = {#}"
| "lay_users nx ((a, n, p) # us) =
     add_mset (a, User \<lparr>u_username = Some (fst n), u_password = Some (fst p), u_next = first_user nx us\<rparr>)
       (add_mset (fst n, Text (snd n)) (add_mset (fst p, Text (snd p)) (lay_users nx us)))"

definition user_of :: "cuser \<Rightarrow> string \<times> string" where
  "user_of u = (snd (fst (snd u)), snd (snd (snd u)))"

fun lay_texts :: "(nat \<times> string) option list \<Rightarrow> heap" where
  "lay_texts [] = {#}"
| "lay_texts (x # xs) = lay_text x + lay_texts xs"

text \<open>The object of a session with everything it owns.\<close>

record cview =
  v_tree :: "ctree list"
  v_users :: "cuser list"
  v_history :: "(nat \<times> string) option list"
  v_banner :: "(nat \<times> string) option"
  v_enable :: "(nat \<times> string) option"
  v_prompt :: "(nat \<times> string) option"
  v_hostname :: "(nat \<times> string) option"
  v_modestring :: "(nat \<times> string) option"
  v_name :: "(nat \<times> string) option"
  v_request :: "(nat \<times> string) option"
  v_buffer :: "nat \<times> string"
  v_buf_size :: nat
  v_hooks :: nat
  v_privilege :: int
  v_mode :: int

definition object_of :: "cview \<Rightarrow> cli_object" where
  "object_of v = \<lparr>o_commands = first None (v_tree v), o_banner = map_option fst (v_banner v), o_users = first_user None (v_users v),
     o_enable_password = map_option fst (v_enable v), o_history = map (map_option fst) (v_history v),
     o_promptchar = map_option fst (v_prompt v), o_hostname = map_option fst (v_hostname v),
     o_modestring = map_option fst (v_modestring v), o_privilege = v_privilege v, o_mode = v_mode v,
     o_requesting = (v_request v \<noteq> None), o_commandname = map_option fst (v_name v), o_buffer = Some (fst (v_buffer v)),
     o_buf_size = v_buf_size v, o_hooks = Some (v_hooks v), o_request_prompt = map_option fst (v_request v)\<rparr>"

definition lay_rest :: "cview \<Rightarrow> heap" where
  "lay_rest v = lay None None (v_tree v) + lay_users None (v_users v) + lay_texts (v_history v) + lay_text (v_banner v)
     + lay_text (v_enable v) + lay_text (v_prompt v) + lay_text (v_hostname v) + lay_text (v_modestring v)
     + lay_text (v_name v) + lay_text (v_request v) + {#(fst (v_buffer v), Text (snd (v_buffer v))), (v_hooks v, Hooks)#}"

definition lay_cli :: "nat \<Rightarrow> cview \<Rightarrow> heap" where
  "lay_cli ob v = add_mset (ob, Object (object_of v)) (lay_rest v)"

end
