(* ===== verification/CliFields.thy ===== *)
theory CliFields
  imports CliLayout
begin

text \<open>
  The texts, the users and the history of a session on the store: what each operation does to the layout.
\<close>

section \<open>Members that hold a text\<close>

lemma free_z_raw:
  assumes "get d = map_option fst x" and "M = add_mset (ob, Object d) (lay_text x + N)"
    and "runs (add_mset (ob, Object (upd (\<lambda>_. None) d)) N) m Q"
  shows "runs M (seqE (free_z get upd ob) m) Q"
  unfolding free_z_def
  by (rule runs_seq [where P = "\<lambda>_ L. L = add_mset (ob, Object (upd (\<lambda>_. None) d)) N"])
     (auto simp: assms(1,2) intro!: assms(3) read_obj_then [where n = d] free_text_then [where x = x and N = "add_mset (ob, Object d) N"]
        upd_obj_last [where n = d])

text \<open>A member of the object with the field of the view it stands for. The laws are those of a record and its layout.\<close>

locale text_field =
  fixes get :: "cli_object \<Rightarrow> ptr"
    and upd :: "(ptr \<Rightarrow> ptr) \<Rightarrow> cli_object \<Rightarrow> cli_object"
    and vget :: "cview \<Rightarrow> (nat \<times> string) option"
    and vset :: "(nat \<times> string) option \<Rightarrow> cview \<Rightarrow> cview"
  assumes get_object: "get (object_of v) = map_option fst (vget v)"
    and upd_object: "upd (\<lambda>_. map_option fst x) (object_of v) = object_of (vset x v)"
    and lay_split: "lay_rest v = lay_text (vget v) + lay_rest (vset None v)"
    and vget_vset [simp]: "vget (vset x v) = x"
    and vset_vset [simp]: "vset x (vset y v) = vset x v"
begin

lemma upd_None: "upd (\<lambda>_. None) (object_of v) = object_of (vset None v)"
  using upd_object [of None v] by simp

lemma upd_Some: "upd (\<lambda>_. Some a) (object_of v) = object_of (vset (Some (a, tx)) v)"
  using upd_object [of "Some (a, tx)" v] by simp

lemma free_field_then:
  assumes "runs (lay_cli ob (vset None v) + R) m Q"
  shows "runs (lay_cli ob v + R) (seqE (free_z get upd ob) m) Q"
  by (rule free_z_raw [where get = get and d = "object_of v" and x = "vget v" and N = "lay_rest (vset None v) + R"])
     (use assms in \<open>simp_all add: get_object lay_cli_def lay_split [of v] upd_None ac_simps\<close>)

lemma vset_text:
  assumes "vget v = None"
  shows "add_mset (a, Text tx) (lay_rest v) = lay_rest (vset (Some (a, tx)) v)"
  using lay_split [of v] lay_split [of "vset (Some (a, tx)) v"] assms by simp

lemma dup_runs:
  assumes "malloc_ok A" and "vget v = None"
  shows "runs (lay_cli ob v + R) (dup_into upd A ob tx) (\<lambda>_ N. \<exists>a. N = lay_cli ob (vset (Some (a, tx)) v) + R)"
  unfolding dup_into_def
proof (rule strdup_then [OF assms(1)])
  fix a
  have "add_mset (a, Text tx) (lay_cli ob v + R) = add_mset (ob, Object (object_of v)) (lay_rest (vset (Some (a, tx)) v) + R)"
    by (simp add: lay_cli_def vset_text [OF assms(2), symmetric])
  then show "runs (add_mset (a, Text tx) (lay_cli ob v + R)) (upd_obj ob (upd (\<lambda>_. Some a)))
      (\<lambda>_ N. \<exists>a. N = lay_cli ob (vset (Some (a, tx)) v) + R)"
    by (rule upd_obj_last) (auto simp: lay_cli_def upd_Some [of a v tx])
qed

lemma set_runs:
  assumes "malloc_ok A"
  shows "runs (lay_cli ob v + R) (seqE (free_z get upd ob) (dup_into upd A ob tx)) (\<lambda>_ N. \<exists>a. N = lay_cli ob (vset (Some (a, tx)) v) + R)"
  by (rule free_field_then) (use dup_runs [OF assms, of "vset None v" ob R tx] in simp)

lemma set_opt_runs:
  assumes "malloc_ok A"
  shows "runs (lay_cli ob v + R) (seqE (free_z get upd ob) (whenE b (dup_into upd A ob tx)))
    (\<lambda>_ N. \<exists>x. map_option snd x = (if b then Some tx else None) \<and> N = lay_cli ob (vset x v) + R)"
proof (rule free_field_then, rule runs_whenE)
  show "runs (lay_cli ob (vset None v) + R) (dup_into upd A ob tx)
      (\<lambda>_ N. \<exists>x. map_option snd x = (if b then Some tx else None) \<and> N = lay_cli ob (vset x v) + R)" if b
    by (rule runs_mono, rule dup_runs [OF assms])
       (use that in \<open>simp_all, metis option.map(2) snd_conv\<close>)
qed auto

end

lemmas view_defs = object_of_def lay_rest_def

interpretation banner: text_field o_banner o_banner_update v_banner "\<lambda>x. v_banner_update (\<lambda>_. x)"
  by unfold_locales (simp_all add: view_defs ac_simps)

interpretation hostname: text_field o_hostname o_hostname_update v_hostname "\<lambda>x. v_hostname_update (\<lambda>_. x)"
  by unfold_locales (simp_all add: view_defs ac_simps)

interpretation promptchar: text_field o_promptchar o_promptchar_update v_prompt "\<lambda>x. v_prompt_update (\<lambda>_. x)"
  by unfold_locales (simp_all add: view_defs ac_simps)

interpretation modestring: text_field o_modestring o_modestring_update v_modestring "\<lambda>x. v_modestring_update (\<lambda>_. x)"
  by unfold_locales (simp_all add: view_defs ac_simps)

interpretation enable: text_field o_enable_password o_enable_password_update v_enable "\<lambda>x. v_enable_update (\<lambda>_. x)"
  by unfold_locales (simp_all add: view_defs ac_simps)

interpretation name: text_field o_commandname o_commandname_update v_name "\<lambda>x. v_name_update (\<lambda>_. x)"
  by unfold_locales (simp_all add: view_defs ac_simps)

section \<open>Users\<close>

lemma first_user_append [simp]: "first_user nx (us @ vs) = first_user (first_user nx vs) us"
  by (cases us) auto

lemma lay_users_append: "lay_users nx (us @ vs) = lay_users (first_user nx vs) us + lay_users nx vs"
  by (induction us) auto

lemma subset_add_mset: "A \<subseteq># B \<Longrightarrow> A \<subseteq># add_mset x B"
  by (metis add_mset_add_single mset_subset_eq_add_left subset_mset.trans)

lemma subset_plus: "A \<subseteq># B \<Longrightarrow> A \<subseteq># B + C"
  by (metis mset_subset_eq_add_left subset_mset.trans)

lemma last_user_runs:
  "lay_users None (us @ [l]) \<subseteq># M \<Longrightarrow> length us < k \<Longrightarrow> first_user None (us @ [l]) = Some u \<Longrightarrow>
    runs M (last_user k u) (\<lambda>x N. x = fst l \<and> N = M)"
proof (induction us arbitrary: k u)
  case Nil
  then obtain k' a n p where k: "k = Suc k'" and l: "l = (a, n, p)" by (cases l; cases k) auto
  show ?case unfolding k last_user.simps
    by (rule read_user_then, rule mset_subset_eqD [OF Nil(1)]) (use l Nil(3) in \<open>auto intro: runs_ret\<close>)
next
  case (Cons v us)
  then obtain k' a n p where k: "k = Suc k'" and v: "v = (a, n, p)" by (cases v; cases k) auto
  obtain w where w: "first_user None (us @ [l]) = Some w" by (cases us) auto
  have "lay_users None (us @ [l]) \<subseteq># M" by (rule subset_mset.trans [OF _ Cons(2)]) (simp add: v)
  from Cons(1) [OF this _ w, of k'] Cons(3) k have IH: "runs M (last_user k' w) (\<lambda>x N. x = fst l \<and> N = M)" by simp
  show ?case unfolding k last_user.simps
    by (rule read_user_then, rule mset_subset_eqD [OF Cons(2)]) (use v Cons(4) w IH in auto)
qed

lemma size_lay_users: "length us \<le> size (lay_users nx us)"
  by (induction us) auto

text \<open>The new user goes behind the last.\<close>

lemma link_user_runs:
  "runs (add_mset (n, User \<lparr>u_username = Some q, u_password = Some r, u_next = None\<rparr>)
       (add_mset (q, Text uname) (add_mset (r, Text pword) (lay_cli ob v + R))))
     (link_user ob n)
     (\<lambda>_ N. N = lay_cli ob (v\<lparr>v_users := v_users v @ [(n, (q, uname), (r, pword))]\<rparr>) + R)"
    (is "runs ?M _ (\<lambda>_ N. N = ?T)")
proof (cases "v_users v" rule: rev_cases)
  case Nil
  have "runs ?M (upd_obj ob (\<lambda>d. d\<lparr>o_users := Some n\<rparr>)) (\<lambda>_ N. N = ?T)"
    by (rule upd_obj_last [where n = "object_of v"]) (simp_all add: lay_cli_def lay_rest_def object_of_def Nil)
  then show ?thesis
    unfolding link_user_def by (intro read_obj_then [where n = "object_of v"]) (simp_all add: lay_cli_def object_of_def Nil)
next
  case (snoc us l)
  obtain a x y where l: "l = (a, x, y)" by (cases l)
  obtain u where u: "first_user None (v_users v) = Some u" by (cases us) (auto simp: snoc)
  have le: "lay_users None (us @ [l]) \<subseteq># lay_rest v" by (simp add: lay_rest_def snoc [symmetric])
  then have le': "lay_users None (us @ [l]) \<subseteq># ?M"
    unfolding lay_cli_def by (intro subset_add_mset subset_plus)
  have "length us < size (lay_users None (us @ [l]))" using size_lay_users [of "us @ [l]" None] by simp
  also have "\<dots> \<le> size ?M" by (rule size_mset_mono [OF le'])
  finally have "length us < Suc (size ?M)" by simp
  from last_user_runs [OF le' this, of u] u have "runs ?M (bounded (\<lambda>k. last_user k u)) (\<lambda>z N. z = a \<and> N = ?M)"
    by (intro runs_bounded) (simp add: snoc l)
  then have "runs ?M (bindE (bounded (\<lambda>k. last_user k u)) (\<lambda>l. upd_user l (\<lambda>x. x\<lparr>u_next := Some n\<rparr>))) (\<lambda>_ N. N = ?T)"
  proof (rule runs_bind, clarsimp)
    show "runs ?M (upd_user a (\<lambda>x. x\<lparr>u_next := Some n\<rparr>)) (\<lambda>_ N. N = ?T)"
      by (rule upd_user_last [where n = "\<lparr>u_username = Some (fst x), u_password = Some (fst y), u_next = None\<rparr>"])
         (simp_all add: lay_cli_def lay_rest_def object_of_def snoc l lay_users_append)
  qed
  then show ?thesis
    unfolding link_user_def by (intro read_obj_then [where n = "object_of v"]) (simp_all add: lay_cli_def object_of_def u)
qed

lemma mem_allow_user_runs:
  assumes "malloc_ok A"
  shows "runs (lay_cli ob v + R) (mem_allow_user A ob uname pword)
    (\<lambda>_ N. \<exists>n q r. N = lay_cli ob (v\<lparr>v_users := v_users v @ [(n, (q, uname), (r, pword))]\<rparr>) + R)"
  unfolding mem_allow_user_def
proof (rule alloc_then [OF assms], simp only: option.case, rule strdup_then [OF assms], simp only: option.case)
  fix n q
  let ?N = "add_mset (q, Text uname) (lay_cli ob v + R)"
  let ?u = "\<lparr>u_username = None, u_password = None, u_next = None\<rparr>"
  let ?Q = "\<lambda>_ N. \<exists>n q r. N = lay_cli ob (v\<lparr>v_users := v_users v @ [(n, (q, uname), (r, pword))]\<rparr>) + R"
  show "runs (add_mset (q, Text uname) (add_mset (n, User ?u) (lay_cli ob v + R)))
     (seqE (upd_user n (u_username_update (\<lambda>_. Some q))) (bindE (strdup A pword) (\<lambda>r. case r of
           None \<Rightarrow> seqE (mem_free (Some q)) (mem_free (Some n))
         | Some _ \<Rightarrow> seqE (upd_user n (\<lambda>x. x\<lparr>u_password := r, u_next := None\<rparr>)) (link_user ob n)))) ?Q"
  proof (rule upd_user_then [where N = ?N], simp, rule strdup_then [OF assms], simp only: option.case)
    fix r
    show "runs (add_mset (r, Text pword) (add_mset (n, User (u_username_update (\<lambda>_. Some q) ?u)) ?N))
        (seqE (upd_user n (\<lambda>x. x\<lparr>u_password := Some r, u_next := None\<rparr>)) (link_user ob n)) ?Q"
      by (rule upd_user_then [where N = "add_mset (r, Text pword) ?N"], simp add: add_mset_commute, rule runs_mono)
         (use link_user_runs [of n q r uname pword ob v R] in \<open>simp add: add_mset_commute\<close>, blast)
  qed
qed

lemma lay_users_Cons:
  "lay_users nx (u # us) = add_mset (fst u, User \<lparr>u_username = Some (fst (fst (snd u))), u_password = Some (fst (snd (snd u))),
      u_next = first_user nx us\<rparr>) (add_mset (fst (fst (snd u)), Text (snd (fst (snd u))))
      (add_mset (fst (snd (snd u)), Text (snd (snd (snd u)))) (lay_users nx us)))"
  by (cases u) auto

lemma free_two_then:
  "M = add_mset (a, b) (add_mset (c, d) N) \<Longrightarrow> runs N m Q \<Longrightarrow> runs M (seqE (mem_free (Some a)) (seqE (mem_free (Some c)) m)) Q"
  by (rule free_then [where b = b and N = "add_mset (c, d) N"], simp, simp) (rule free_then [where b = d], simp_all)

lemma free_users_runs:
  "length us < k \<Longrightarrow> runs (lay_users None us + N) (free_users k (first_user None us)) (\<lambda>_ M. M = N)"
proof (induction us arbitrary: k)
  case Nil
  then show ?case by (cases k) (auto simp: runs_def)
next
  case (Cons u us)
  then obtain k' where k: "k = Suc k'" and IH: "runs (lay_users None us + N) (free_users k' (first_user None us)) (\<lambda>_ M. M = N)"
    by (cases k) auto
  let ?x = "\<lparr>u_username = Some (fst (fst (snd u))), u_password = Some (fst (snd (snd u))), u_next = first_user None us\<rparr>"
  let ?M = "lay_users None us + N"
  have "runs (add_mset (fst u, User ?x) ?M) (bindE (read_user (fst u)) (\<lambda>y. seqE (mem_free (Some (fst u))) (free_users k' (u_next y)))) (\<lambda>_ M. M = N)"
    by (rule read_user_then [where n = ?x], simp) (rule free_then [where N = ?M], simp_all, rule IH)
  then have "runs (add_mset (fst u, User ?x) (add_mset (fst (fst (snd u)), Text (snd (fst (snd u))))
        (add_mset (fst (snd (snd u)), Text (snd (snd (snd u)))) ?M))) (free_users k (Some (fst u))) (\<lambda>_ M. M = N)"
    unfolding k free_users.simps
    by (intro read_user_then [where n = ?x]) (simp, simp, rule free_two_then [where N = "add_mset (fst u, User ?x) ?M"], simp_all add: add_mset_commute)
  then show ?case by (simp add: lay_users_Cons)
qed

lemma free_user_runs: "runs (lay_users nx [u] + N) (free_user (fst u)) (\<lambda>_ M. M = N)"
proof -
  let ?x = "\<lparr>u_username = Some (fst (fst (snd u))), u_password = Some (fst (snd (snd u))), u_next = nx\<rparr>"
  show ?thesis unfolding free_user_def
    by (rule read_user_then [where n = ?x], simp add: lay_users_Cons, simp,
        rule free_two_then [where N = "add_mset (fst u, User ?x) N"], simp add: lay_users_Cons add_mset_commute)
       (rule free_last, simp_all)
qed

section \<open>Denying a user\<close>

fun del_user :: "string \<Rightarrow> cuser list \<Rightarrow> cuser list" where
  "del_user name [] = []"
| "del_user name (u # us) = (if fst (user_of u) = name then us else u # del_user name us)"

lemma del_user_deny: "map user_of (del_user name us) = deny_user name (map user_of us)"
  by (induction us) auto

lemma relink_users:
  "lay_users nx (us @ [u]) = add_mset (fst u, User \<lparr>u_username = Some (fst (fst (snd u))), u_password = Some (fst (snd (snd u))), u_next = nx\<rparr>)
     (lay_users (Some (fst u)) us + {#(fst (fst (snd u)), Text (snd (fst (snd u)))), (fst (snd (snd u)), Text (snd (snd (snd u))))#})"
  by (simp add: lay_users_append lay_users_Cons add_mset_commute)

lemma unlink_user_runs:
  assumes "o_users d = first_user None (pre @ u # us)"
  shows "runs (add_mset (ob, Object d) (lay_users None (pre @ u # us) + N))
    (seqE (case (if pre = [] then None else Some (fst (last pre))) of
          None \<Rightarrow> upd_obj ob (\<lambda>d. d\<lparr>o_users := first_user None us\<rparr>)
        | Some v \<Rightarrow> upd_user v (\<lambda>y. y\<lparr>u_next := first_user None us\<rparr>)) (free_user (fst u)))
    (\<lambda>_ M. M = add_mset (ob, Object (d\<lparr>o_users := first_user None (pre @ us)\<rparr>)) (lay_users None (pre @ us) + N))"
proof (cases pre rule: rev_cases)
  case Nil
  have "runs (add_mset (ob, Object d) (lay_users None (u # us) + N)) (seqE (upd_obj ob (\<lambda>d. d\<lparr>o_users := first_user None us\<rparr>)) (free_user (fst u)))
      (\<lambda>_ M. M = add_mset (ob, Object (d\<lparr>o_users := first_user None us\<rparr>)) (lay_users None us + N))"
    by (rule upd_obj_then [where n = d], simp)
       (use free_user_runs [of "first_user None us" u "add_mset (ob, Object (d\<lparr>o_users := first_user None us\<rparr>)) (lay_users None us + N)"]
        in \<open>simp add: lay_users_Cons add_mset_commute\<close>)
  with Nil show ?thesis by simp
next
  case (snoc p v)
  let ?v = "\<lambda>nx. \<lparr>u_username = Some (fst (fst (snd v))), u_password = Some (fst (snd (snd v))), u_next = nx\<rparr>"
  let ?K = "lay_users (Some (fst v)) p + {#(fst (fst (snd v)), Text (snd (fst (snd v)))), (fst (snd (snd v)), Text (snd (snd (snd v))))#}
    + lay_users None us + add_mset (ob, Object d) N"
  have d: "d\<lparr>o_users := first_user None (pre @ us)\<rparr> = d" using assms by (cases p) (simp_all add: snoc)
  have "runs (add_mset (ob, Object d) (lay_users None (pre @ u # us) + N))
      (seqE (upd_user (fst v) (\<lambda>y. y\<lparr>u_next := first_user None us\<rparr>)) (free_user (fst u)))
      (\<lambda>_ M. M = add_mset (ob, Object d) (lay_users None (pre @ us) + N))"
    by (rule upd_user_then [where n = "?v (Some (fst u))" and N = "lay_users (first_user None us) [u] + ?K"])
       (use free_user_runs [of "first_user None us" u "add_mset (fst v, User (?v (first_user None us))) ?K"]
        in \<open>simp_all add: snoc lay_users_append lay_users_Cons add_mset_commute ac_simps\<close>)
  with d show ?thesis by (simp add: snoc)
qed

lemma deny_loop_runs:
  assumes "o_users d = first_user None (pre @ us)" and "length us < k"
  shows "runs (add_mset (ob, Object d) (lay_users None (pre @ us) + N))
    (deny_loop k ob name (if pre = [] then None else Some (fst (last pre))) (first_user None us))
    (\<lambda>_ M. M = add_mset (ob, Object (d\<lparr>o_users := first_user None (pre @ del_user name us)\<rparr>)) (lay_users None (pre @ del_user name us) + N))"
  using assms
proof (induction us arbitrary: pre k)
  case Nil
  then have d: "d\<lparr>o_users := first_user None pre\<rparr> = d" by simp
  from Nil show ?case by (cases k) (auto simp: runs_def d simp del: cli_object.select_convs)
next
  case (Cons u us)
  then obtain k' where k: "k = Suc k'" by (cases k) auto
  let ?x = "\<lparr>u_username = Some (fst (fst (snd u))), u_password = Some (fst (snd (snd u))), u_next = first_user None us\<rparr>"
  note IH = Cons(1) [of "pre @ [u]" k']
  have *: "runs (add_mset (ob, Object d) (lay_users None (pre @ u # us) + N))
    (if snd (fst (snd u)) = name
     then seqE (case (if pre = [] then None else Some (fst (last pre))) of
          None \<Rightarrow> upd_obj ob (\<lambda>d. d\<lparr>o_users := u_next ?x\<rparr>)
        | Some v \<Rightarrow> upd_user v (\<lambda>y. y\<lparr>u_next := u_next ?x\<rparr>)) (free_user (fst u))
     else deny_loop k' ob name (Some (fst u)) (u_next ?x))
    (\<lambda>_ M. M = add_mset (ob, Object (d\<lparr>o_users := first_user None (pre @ del_user name (u # us))\<rparr>)) (lay_users None (pre @ del_user name (u # us)) + N))"
    using unlink_user_runs [OF Cons(2)] IH Cons(2,3) k by (cases "pre = []"; cases "snd (fst (snd u)) = name") (simp_all add: user_of_def)
  show ?case unfolding k first_user.simps deny_loop.simps
    by (rule read_user_then [where n = ?x], simp add: lay_users_append lay_users_Cons,
        rule read_text_then [where a = "fst (fst (snd u))" and t = "snd (fst (snd u))"], simp, simp add: lay_users_append lay_users_Cons, rule *)
qed

lemma mem_deny_user_runs:
  "runs (lay_cli ob v + R) (mem_deny_user ob name) (\<lambda>_ N. N = lay_cli ob (v\<lparr>v_users := del_user name (v_users v)\<rparr>) + R)"
proof -
  let ?N = "lay_rest (v\<lparr>v_users := []\<rparr>) + R"
  have M: "lay_cli ob (v\<lparr>v_users := us\<rparr>) + R = add_mset (ob, Object (object_of v\<lparr>o_users := first_user None us\<rparr>)) (lay_users None us + ?N)" for us
    by (simp add: lay_cli_def lay_rest_def object_of_def ac_simps)
  have "length (v_users v) < Suc (size (lay_cli ob v + R))"
    using size_lay_users [of "v_users v" None] by (simp add: lay_cli_def lay_rest_def)
  then have "runs (lay_cli ob v + R) (deny_loop (Suc (size (lay_cli ob v + R))) ob name None (first_user None (v_users v)))
     (\<lambda>_ N. N = lay_cli ob (v\<lparr>v_users := del_user name (v_users v)\<rparr>) + R)"
    using deny_loop_runs [where pre = "[]" and d = "object_of v\<lparr>o_users := first_user None (v_users v)\<rparr>" and us = "v_users v" and N = ?N and name = name and ob = ob]
    unfolding M [of "del_user name (v_users v)"] M [of "v_users v", simplified] by (simp add: add.assoc)
  then show ?thesis unfolding mem_deny_user_def
    by (intro read_obj_then [where n = "object_of v"] runs_bounded) (simp_all add: lay_cli_def object_of_def)
qed

end
