(* ===== verification/CliTree.thy ===== *)
theory CliTree
  imports CliFields
begin

text \<open>
  The tree of commands on the store: registering and unregistering commands and freeing them, against the lists of commands
  of \<open>CliCore\<close>.
\<close>

section \<open>Segments of siblings\<close>

text \<open>What a command owns besides its node.\<close>

definition parts :: "ctree \<Rightarrow> heap" where
  "parts t = add_mset (fst (t_name t), Text (snd (t_name t))) (lay_text (t_help t) + lay (Some (t_at t)) None (t_kids t))"

lemma lay_node: "lay p nx (t # ts) = add_mset (t_at t, Node (node_of p (first nx ts) t)) (parts t + lay p nx ts)"
  by (simp add: lay_Cons parts_def)

lemma first_append [simp]: "first nx (ts @ us) = first (first nx us) ts"
  by (cases ts) auto

lemma lay_append: "lay p nx (ts @ us) = lay p (first nx us) ts + lay p nx us"
  by (induction ts) (simp_all add: lay_node)

lemma relink: "lay p nx (ts @ [t]) = add_mset (t_at t, Node (node_of p nx t)) (lay p (Some (t_at t)) ts + parts t)"
  by (simp add: lay_append lay_node)

lemma length_addresses: "length ts \<le> length (addresses ts)"
  by (induction ts rule: addresses.induct) auto

lemma size_lay: "length (addresses ts) \<le> size (lay p nx ts)"
  by (induction p nx ts rule: lay.induct) auto

lemma addresses_lay: "set (addresses ts) \<subseteq> fst ` set_mset (lay p nx ts)"
  by (induction p nx ts rule: lay.induct) auto

lemma addresses_append [simp]: "addresses (ts @ us) = addresses ts @ addresses us"
  by (induction ts rule: addresses.induct) auto

lemma n_next_node_of [simp]: "n_next (node_of p nx t) = nx"
  and n_children_node_of [simp]: "n_children (node_of p nx t) = first None (t_kids t)"
  and n_parent_node_of [simp]: "n_parent (node_of p nx t) = p"
  and n_command_node_of [simp]: "n_command (node_of p nx t) = Some (fst (t_name t))"
  and n_help_node_of [simp]: "n_help (node_of p nx t) = map_option fst (t_help t)"
  by (simp_all add: node_of_def)

lemma set_next [simp]: "node_of p nx t\<lparr>n_next := nx'\<rparr> = node_of p nx' t"
  by (simp add: node_of_def)

section \<open>Appending\<close>

lemma last_node_runs:
  "lay p None (ts @ [l]) \<subseteq># M \<Longrightarrow> length ts < k \<Longrightarrow> first None (ts @ [l]) = Some c \<Longrightarrow>
    runs M (last_node k c) (\<lambda>x N. x = t_at l \<and> N = M)"
proof (induction ts arbitrary: k c)
  case Nil
  then obtain k' where k: "k = Suc k'" by (cases k) auto
  show ?case unfolding k last_node.simps
    by (rule read_node_then, rule mset_subset_eqD [OF Nil(1)]) (use Nil(3) in \<open>auto simp: lay_node intro: runs_ret\<close>)
next
  case (Cons t ts)
  then obtain k' where k: "k = Suc k'" by (cases k) auto
  obtain w where w: "first None (ts @ [l]) = Some w" by (cases ts) auto
  have "lay p None (ts @ [l]) \<subseteq># M" by (rule subset_mset.trans [OF _ Cons(2)]) (simp add: lay_node subset_add_mset)
  from Cons(1) [OF this _ w, of k'] Cons(3) k have IH: "runs M (last_node k' w) (\<lambda>x N. x = t_at l \<and> N = M)" by simp
  show ?case unfolding k last_node.simps
    by (rule read_node_then, rule mset_subset_eqD [OF Cons(2)]) (use Cons(4) w IH in \<open>auto simp: lay_node\<close>)
qed

lemma append_node_runs:
  assumes "first None ts = Some f"
  shows "runs (lay p None ts + lay p None [t] + N) (append_node f (t_at t)) (\<lambda>_ M. M = lay p None (ts @ [t]) + N)"
proof -
  obtain us l where ts: "ts = us @ [l]" using assms by (cases ts rule: rev_cases) auto
  let ?M = "lay p None ts + lay p None [t] + N"
  have le: "lay p None (us @ [l]) \<subseteq># ?M" by (simp add: ts subset_plus)
  have "length us < size (lay p None (us @ [l]))"
    using size_lay [of "us @ [l]" p None] length_addresses [of "us @ [l]"] by simp
  also have "\<dots> \<le> size ?M" by (rule size_mset_mono [OF le])
  finally have "runs ?M (bounded (\<lambda>k. last_node k f)) (\<lambda>x M. x = t_at l \<and> M = ?M)"
    by (intro runs_bounded last_node_runs [OF le]) (use assms ts in simp_all)
  then show ?thesis unfolding append_node_def
  proof (rule runs_bind, clarsimp)
    show "runs ?M (upd_node (t_at l) (\<lambda>x. x\<lparr>n_next := Some (t_at t)\<rparr>)) (\<lambda>_ M. M = lay p None (ts @ [t]) + N)"
      by (rule upd_node_last [where n = "node_of p None l"]) (simp_all add: ts relink lay_append lay_node ac_simps)
  qed
qed

section \<open>A node somewhere in the tree\<close>

fun at_node :: "nat \<Rightarrow> (ctree \<Rightarrow> ctree) \<Rightarrow> ctree list \<Rightarrow> ctree list" where
  "at_node q g [] = []"
| "at_node q g (CT a nm hp nd ks # ts) =
     (if a = q then g (CT a nm hp nd ks) else CT a nm hp nd (at_node q g ks)) # at_node q g ts"

lemma at_node_out [simp]: "q \<notin> set (addresses ts) \<Longrightarrow> at_node q g ts = ts"
  by (induction q g ts rule: at_node.induct) auto

lemma first_at_node: "(\<And>t. t_at (g t) = t_at t) \<Longrightarrow> first nx (at_node q g ts) = first nx ts"
  by (induction q g ts rule: at_node.induct) auto

lemma focus:
  assumes "q \<in> set (addresses ts)" and "apart (lay p nx ts)"
  shows "\<exists>t pp nn C. t_at t = q \<and> lay p nx ts = add_mset (q, Node (node_of pp nn t)) (parts t + C)
    \<and> (\<forall>g. (\<forall>t. t_at (g t) = t_at t) \<longrightarrow> lay p nx (at_node q g ts) = add_mset (q, Node (node_of pp nn (g t))) (parts (g t) + C))"
  using assms
proof (induction p nx ts rule: lay.induct)
  case (2 p nx a nm hp nd ks ts)
  let ?t = "CT a nm hp nd ks"
  have "apart (lay_text hp + (lay (Some a) None ks + lay p nx ts))" using 2(4) by (simp add: apart_add add.assoc)
  then have disj: "apart (lay (Some a) None ks + lay p nx ts)" by (rule apart_plus(2))
  have ap: "a \<notin> fst ` set_mset (lay (Some a) None ks)" "a \<notin> fst ` set_mset (lay p nx ts)"
      "apart (lay (Some a) None ks)" "apart (lay p nx ts)" "fst ` set_mset (lay (Some a) None ks) \<inter> fst ` set_mset (lay p nx ts) = {}"
    using 2(4) apart_plus [OF disj] by (auto simp: apart_add)
  then have out: "a \<notin> set (addresses ks)" "a \<notin> set (addresses ts)" "set (addresses ks) \<inter> set (addresses ts) = {}"
    using addresses_lay [of ks "Some a" None] addresses_lay [of ts p nx] by blast+
  consider (here) "q = a" | (below) "q \<in> set (addresses ks)" | (behind) "q \<in> set (addresses ts)" using 2(3) by auto
  then show ?case
  proof cases
    case here
    with out show ?thesis
      by (intro exI [of _ ?t] exI [of _ p] exI [of _ "first nx ts"] exI [of _ "lay p nx ts"]) (auto simp: lay_node parts_def)
  next
    case below
    from 2(1) [OF this ap(3)] obtain t pp nn C where C: "t_at t = q"
        "lay (Some a) None ks = add_mset (q, Node (node_of pp nn t)) (parts t + C)"
        "\<And>g. (\<forall>t. t_at (g t) = t_at t) \<Longrightarrow> lay (Some a) None (at_node q g ks) = add_mset (q, Node (node_of pp nn (g t))) (parts (g t) + C)"
      by blast
    have ne: "a \<noteq> q" "q \<notin> set (addresses ts)" using below out by auto
    have "lay p nx (at_node q g (?t # ts)) = add_mset (q, Node (node_of pp nn (g t))) (parts (g t)
        + (add_mset (a, Node (node_of p (first nx ts) ?t)) (add_mset (fst nm, Text (snd nm)) (lay_text hp + C + lay p nx ts))))"
      if "\<forall>t. t_at (g t) = t_at t" for g
    proof -
      have "first None (at_node q g ks) = first None ks" by (rule first_at_node) (use that in simp)
      then have "node_of p (first nx ts) (CT a nm hp nd (at_node q g ks)) = node_of p (first nx ts) ?t" by (simp add: node_of_def)
      with that ne show ?thesis by (simp add: C(3) ac_simps)
    qed
    then show ?thesis
      using C(1,2) by (intro exI [of _ t] exI [of _ pp] exI [of _ nn]
        exI [of _ "add_mset (a, Node (node_of p (first nx ts) ?t)) (add_mset (fst nm, Text (snd nm)) (lay_text hp + C + lay p nx ts))"])
        (auto simp: ac_simps)
  next
    case behind
    from 2(2) [OF this ap(4)] obtain t pp nn C where C: "t_at t = q"
        "lay p nx ts = add_mset (q, Node (node_of pp nn t)) (parts t + C)"
        "\<And>g. (\<forall>t. t_at (g t) = t_at t) \<Longrightarrow> lay p nx (at_node q g ts) = add_mset (q, Node (node_of pp nn (g t))) (parts (g t) + C)"
      by blast
    have ne: "a \<noteq> q" "q \<notin> set (addresses ks)" using behind out by auto
    have "lay p nx (at_node q g (?t # ts)) = add_mset (q, Node (node_of pp nn (g t))) (parts (g t)
        + (add_mset (a, Node (node_of p (first nx ts) ?t)) (parts ?t + C)))"
      if "\<forall>t. t_at (g t) = t_at t" for g
      using that ne first_at_node [of g nx q ts] by (simp add: C(3) parts_def ac_simps)
    then show ?thesis
      using C(1,2) by (intro exI [of _ t] exI [of _ pp] exI [of _ nn] exI [of _ "add_mset (a, Node (node_of p (first nx ts) ?t)) (parts ?t + C)"])
        (auto simp: parts_def ac_simps)
  qed
qed simp

section \<open>Registering a command\<close>

fun add_kid :: "ctree \<Rightarrow> ctree \<Rightarrow> ctree" where
  "add_kid c (CT a nm hp nd ks) = CT a nm hp nd (ks @ [c])"

lemma add_kid_sel [simp]: "t_at (add_kid c t) = t_at t" "t_name (add_kid c t) = t_name t" "t_help (add_kid c t) = t_help t"
    "t_node (add_kid c t) = t_node t" "t_kids (add_kid c t) = t_kids t @ [c]"
  by (cases t; simp)+

text \<open>The tree with a new command below \<open>parent\<close>.\<close>

definition grow :: "ptr \<Rightarrow> ctree \<Rightarrow> ctree list \<Rightarrow> ctree list" where
  "grow parent c ts = (case parent of None \<Rightarrow> ts @ [c] | Some q \<Rightarrow> at_node q (add_kid c) ts)"

lemma tree_split:
  "lay_cli ob (v\<lparr>v_tree := ts\<rparr>) + R =
    add_mset (ob, Object (object_of v\<lparr>o_commands := first None ts\<rparr>)) (lay None None ts + (lay_rest (v\<lparr>v_tree := []\<rparr>) + R))"
  by (simp add: lay_cli_def lay_rest_def object_of_def ac_simps)

lemma tree_split_id:
  "lay_cli ob v + R = add_mset (ob, Object (object_of v)) (lay None None (v_tree v) + (lay_rest (v\<lparr>v_tree := []\<rparr>) + R))"
  using tree_split [of ob "v_tree v" v R] by (simp add: object_of_def)

lemma link_top_runs:
  "runs (lay_cli ob v + R + lay None None [t]) (link_node ob None (t_at t)) (\<lambda>_ N. N = lay_cli ob (v\<lparr>v_tree := v_tree v @ [t]\<rparr>) + R)"
proof -
  let ?K = "lay_rest (v\<lparr>v_tree := []\<rparr>) + R"
  let ?M = "lay_cli ob v + R + lay None None [t]"
  show ?thesis
  proof (cases "v_tree v")
    case Nil
    have "runs ?M (upd_obj ob (\<lambda>d. d\<lparr>o_commands := Some (t_at t)\<rparr>)) (\<lambda>_ N. N = lay_cli ob (v\<lparr>v_tree := [t]\<rparr>) + R)"
      unfolding tree_split_id [of ob v] tree_split
      by (rule upd_obj_last [where n = "object_of v" and N = "lay None None [t] + ?K"]) (simp_all add: Nil ac_simps)
    then show ?thesis
      unfolding link_node_def by (simp, intro read_obj_then [where n = "object_of v"]) (simp_all add: lay_cli_def object_of_def Nil)
  next
    case (Cons u us)
    have "runs (lay None None (v_tree v) + lay None None [t] + add_mset (ob, Object (object_of v)) ?K) (append_node (t_at u) (t_at t))
      (\<lambda>_ N. N = lay None None (v_tree v @ [t]) + add_mset (ob, Object (object_of v)) ?K)"
      by (rule append_node_runs) (simp add: Cons)
    moreover have "object_of v\<lparr>o_commands := first None (v_tree v @ [t])\<rparr> = object_of v" by (simp add: object_of_def Cons)
    ultimately have "runs ?M (append_node (t_at u) (t_at t)) (\<lambda>_ N. N = lay_cli ob (v\<lparr>v_tree := v_tree v @ [t]\<rparr>) + R)"
      unfolding tree_split_id [of ob v] tree_split by (simp add: ac_simps)
    then show ?thesis
      unfolding link_node_def by (simp, intro read_obj_then [where n = "object_of v"]) (simp_all add: lay_cli_def object_of_def Cons)
  qed
qed

lemma link_below_runs:
  assumes "q \<in> set (addresses (v_tree v))"
  shows "runs (lay_cli ob v + R + lay (Some q) None [t]) (link_node ob (Some q) (t_at t))
    (\<lambda>_ N. N = lay_cli ob (v\<lparr>v_tree := at_node q (add_kid t) (v_tree v)\<rparr>) + R)"
proof (rule runs_apart)
  let ?M = "lay_cli ob v + R + lay (Some q) None [t]"
  let ?K = "add_mset (ob, Object (object_of v)) (lay_rest (v\<lparr>v_tree := []\<rparr>) + R)"
  assume "apart ?M"
  then have "apart (lay None None (v_tree v) + (?K + lay (Some q) None [t]))" by (simp add: tree_split_id ac_simps)
  from focus [OF assms apart_plus(1) [OF this]] obtain x pp nn C where x: "t_at x = q"
      and C: "lay None None (v_tree v) = add_mset (q, Node (node_of pp nn x)) (parts x + C)"
      and C': "lay None None (at_node q (add_kid t) (v_tree v)) = add_mset (q, Node (node_of pp nn (add_kid t x))) (parts (add_kid t x) + C)"
    by auto
  have M: "?M = add_mset (q, Node (node_of pp nn x)) (parts x + C + ?K + lay (Some q) None [t])"
    by (simp add: tree_split_id C ac_simps)
  have T: "lay_cli ob (v\<lparr>v_tree := at_node q (add_kid t) (v_tree v)\<rparr>) + R
      = add_mset (q, Node (node_of pp nn (add_kid t x))) (parts (add_kid t x) + C + ?K)"
  proof -
    have "object_of v\<lparr>o_commands := first None (at_node q (add_kid t) (v_tree v))\<rparr> = object_of v"
      by (simp add: object_of_def first_at_node)
    then show ?thesis unfolding tree_split C' by (simp add: ac_simps)
  qed
  have "runs ?M (case first None (t_kids x) of None \<Rightarrow> upd_node q (\<lambda>x. x\<lparr>n_children := Some (t_at t)\<rparr>) | Some f \<Rightarrow> append_node f (t_at t))
      (\<lambda>_ N. N = lay_cli ob (v\<lparr>v_tree := at_node q (add_kid t) (v_tree v)\<rparr>) + R)"
  proof (cases "t_kids x")
    case Nil
    have "node_of pp nn x\<lparr>n_children := Some (t_at t)\<rparr> = node_of pp nn (add_kid t x)" by (simp add: node_of_def Nil)
    then show ?thesis unfolding M T
      by (simp add: Nil, intro upd_node_last [where n = "node_of pp nn x" and N = "parts x + C + ?K + lay (Some q) None [t]"])
         (simp_all add: parts_def Nil x ac_simps)
  next
    case (Cons u us)
    let ?L = "add_mset (q, Node (node_of pp nn x)) (add_mset (fst (t_name x), Text (snd (t_name x))) (lay_text (t_help x) + C + ?K))"
    have "runs (lay (Some q) None (t_kids x) + lay (Some q) None [t] + ?L) (append_node (t_at u) (t_at t))
        (\<lambda>_ N. N = lay (Some q) None (t_kids x @ [t]) + ?L)"
      by (rule append_node_runs) (simp add: Cons)
    moreover have "node_of pp nn (add_kid t x) = node_of pp nn x" by (simp add: node_of_def Cons)
    ultimately show ?thesis unfolding M T by (simp add: Cons parts_def x ac_simps)
  qed
  then show "runs ?M (link_node ob (Some q) (t_at t)) (\<lambda>_ N. N = lay_cli ob (v\<lparr>v_tree := at_node q (add_kid t) (v_tree v)\<rparr>) + R)"
    unfolding link_node_def by (simp, intro read_node_then [where n = "node_of pp nn x"]) (simp_all add: M)
qed

lemma link_node_runs:
  assumes "set_option parent \<subseteq> set (addresses (v_tree v))"
  shows "runs (lay_cli ob v + R + lay parent None [t]) (link_node ob parent (t_at t)) (\<lambda>_ N. N = lay_cli ob (v\<lparr>v_tree := grow parent t (v_tree v)\<rparr>) + R)"
  using assms link_top_runs [of ob v R t] link_below_runs [of _ v ob R t] by (cases parent) (auto simp: grow_def)

definition new_node :: "handler option \<Rightarrow> int \<Rightarrow> int \<Rightarrow> cli_node" where
  "new_node h priv mode = blank_node\<lparr>n_callback := h, n_privilege := priv, n_mode := mode\<rparr>"

lemma mem_register_command_runs:
  assumes "malloc_ok A" and "set_option parent \<subseteq> set (addresses (v_tree v))"
  shows "runs (lay_cli ob v + R) (mem_register_command A ob parent command h priv mode hlp)
    (\<lambda>p N. \<exists>c q r. p = Some c \<and> map_option snd r = hlp
       \<and> N = lay_cli ob (v\<lparr>v_tree := grow parent (CT c (q, command) r (new_node h priv mode) []) (v_tree v)\<rparr>) + R)"
    (is "runs _ _ ?Q")
proof -
  let ?M = "lay_cli ob v + R"
  let ?t = "\<lambda>c q r. CT c (q, command) r (new_node h priv mode) []"
  let ?x = "blank_node\<lparr>n_callback := h, n_next := None\<rparr>"
  let ?y = "\<lambda>q. ?x\<lparr>n_command := Some q, n_parent := parent, n_privilege := priv, n_mode := mode\<rparr>"
  have link: "runs (lay parent None [?t c q r] + ?M) (seqE (link_node ob parent c) (ret (Some c))) ?Q" if "map_option snd r = hlp" for c q r
  proof (subst add.commute, rule runs_seq)
    show "runs (?M + lay parent None [?t c q r]) (link_node ob parent c) (\<lambda>_ N. N = lay_cli ob (v\<lparr>v_tree := grow parent (?t c q r) (v_tree v)\<rparr>) + R)"
      using link_node_runs [OF assms(2), of ob R "?t c q r"] by (simp del: lay.simps)
    show "runs N (ret (Some c)) ?Q" if "N = lay_cli ob (v\<lparr>v_tree := grow parent (?t c q r) (v_tree v)\<rparr>) + R" for N
      by (rule runs_ret) (use that \<open>map_option snd r = hlp\<close> in blast)
  qed
  have node: "lay parent None [?t c q r] = add_mset (c, Node (?y q\<lparr>n_help := map_option fst r\<rparr>)) (add_mset (q, Text command) (lay_text r))" for c q r
    by (simp add: node_of_def new_node_def blank_node_def)
  have hlp: "runs (add_mset (c, Node (?y q)) (add_mset (q, Text command) ?M))
    (case hlp of
       None \<Rightarrow> seqE (link_node ob parent c) (ret (Some c))
     | Some h \<Rightarrow> or_null (strdup A h) (\<lambda>r.
         seqE (upd_node c (\<lambda>x. x\<lparr>n_help := Some r\<rparr>)) (seqE (link_node ob parent c) (ret (Some c))))) ?Q" for c q
  proof (cases hlp)
    case None
    have "?y q\<lparr>n_help := None\<rparr> = ?y q" by (simp add: blank_node_def)
    with link [of None c q] node [of c q None] None show ?thesis by simp
  next
    case (Some t)
    have "runs (add_mset (a, Text t) (add_mset (c, Node (?y q)) (add_mset (q, Text command) ?M)))
        (seqE (upd_node c (\<lambda>x. x\<lparr>n_help := Some a\<rparr>)) (seqE (link_node ob parent c) (ret (Some c)))) ?Q" for a
    proof (rule upd_node_then [where n = "?y q" and N = "add_mset (q, Text command) (add_mset (a, Text t) ?M)"], simp add: add_mset_commute)
      show "runs (add_mset (c, Node (?y q\<lparr>n_help := Some a\<rparr>)) (add_mset (q, Text command) (add_mset (a, Text t) ?M)))
        (seqE (link_node ob parent c) (ret (Some c))) ?Q"
        using link [of "Some (a, t)" c q] node [of c q "Some (a, t)"] Some by simp
    qed
    with Some show ?thesis by (simp add: or_null_def) (intro strdup_then [OF assms(1)], simp)
  qed
  have name: "runs (add_mset (c, Node blank_node) ?M) (seqE (upd_node c (\<lambda>x. x\<lparr>n_callback := h, n_next := None\<rparr>))
      (or_null (strdup A command) (\<lambda>q.
     seqE (upd_node c (\<lambda>x. x\<lparr>n_command := Some q, n_parent := parent, n_privilege := priv, n_mode := mode\<rparr>))
    (case hlp of
       None \<Rightarrow> seqE (link_node ob parent c) (ret (Some c))
     | Some h \<Rightarrow> or_null (strdup A h) (\<lambda>r.
         seqE (upd_node c (\<lambda>x. x\<lparr>n_help := Some r\<rparr>)) (seqE (link_node ob parent c) (ret (Some c)))))))) ?Q" for c
    unfolding or_null_def [of "strdup A command"]
  proof (rule upd_node_then [OF refl], rule strdup_then [OF assms(1)], simp only: option.case)
    fix q
    show "runs (add_mset (q, Text command) (add_mset (c, Node ?x) ?M))
      (seqE (upd_node c (\<lambda>x. x\<lparr>n_command := Some q, n_parent := parent, n_privilege := priv, n_mode := mode\<rparr>))
        (case hlp of
           None \<Rightarrow> seqE (link_node ob parent c) (ret (Some c))
         | Some h \<Rightarrow> or_null (strdup A h) (\<lambda>r.
             seqE (upd_node c (\<lambda>x. x\<lparr>n_help := Some r\<rparr>)) (seqE (link_node ob parent c) (ret (Some c)))))) ?Q"
      by (rule upd_node_then [where n = ?x and N = "add_mset (q, Text command) ?M"], simp add: add_mset_commute) (rule hlp)
  qed
  show ?thesis unfolding mem_register_command_def or_null_def [of "mem_alloc A (Node blank_node)"]
    by (rule alloc_then [OF assms(1)], simp only: option.case, rule name)
qed

text \<open>On the lists of commands it is the operation of the library, at the place of the parent.\<close>

fun find_path :: "nat \<Rightarrow> nat \<Rightarrow> ctree list \<Rightarrow> nat list option" where
  "find_path q i [] = None"
| "find_path q i (CT a nm hp nd ks # ts) =
     (if a = q then Some [i] else case find_path q 0 ks of Some p \<Rightarrow> Some (i # p) | None \<Rightarrow> find_path q (Suc i) ts)"

lemma find_path_found: "q \<in> set (addresses ts) \<longleftrightarrow> find_path q i ts \<noteq> None"
  by (induction q i ts rule: find_path.induct) (auto split: option.splits)

lemma find_path_less: "find_path q i ts = Some p \<Longrightarrow> \<exists>j r. p = (i + j) # r \<and> j < length ts"
proof (induction q i ts arbitrary: p rule: find_path.induct)
  case (2 q i a nm hp nd ks ts)
  show ?case
  proof (cases "a = q \<or> find_path q 0 ks \<noteq> None")
    case True
    with 2(3) show ?thesis by (auto intro!: exI [of _ 0] split: if_splits)
  next
    case False
    with 2(2) [of p] 2(3) obtain j r where "p = (Suc i + j) # r" "j < length ts" by auto
    then show ?thesis by (intro exI [of _ "Suc j"] exI [of _ r]) simp
  qed
qed simp

lemma add_command_find:
  assumes "find_path q i ts = Some (j # p)" and "distinct (addresses ts)"
  shows "add_command ((j - i) # p) (command_of c) (map command_of ts) = map command_of (at_node q (add_kid c) ts)"
  using assms
proof (induction q i ts arbitrary: j p rule: find_path.induct)
  case (2 q i a nm hp nd ks ts)
  consider (here) "a = q" | (below) p' where "a \<noteq> q" "find_path q 0 ks = Some p'" | (behind) "a \<noteq> q" "find_path q 0 ks = None"
    by (cases "find_path q 0 ks") auto
  then show ?case
  proof cases
    case here
    with 2(3,4) show ?thesis by auto
  next
    case below
    from find_path_less [OF below(2)] obtain j' r where p': "p' = j' # r" by auto
    have "q \<in> set (addresses ks)" using below(2) find_path_found [of q ks 0] by auto
    then have "q \<notin> set (addresses ts)" using 2(4) by auto
    moreover have "distinct (addresses ks)" using 2(4) by simp
    ultimately show ?thesis using 2(1) [OF below(1), of j' r] 2(3) below p' by auto
  next
    case behind
    from find_path_found [of q ks 0] behind have out: "q \<notin> set (addresses ks)" by auto
    from 2(3) behind have f: "find_path q (Suc i) ts = Some (j # p)" by simp
    with find_path_less [OF f] have "Suc i \<le> j" by auto
    then obtain m where m: "j - i = Suc m" "j - Suc i = m" by (metis Suc_diff_le diff_Suc_Suc)
    have "add_command (m # p) (command_of c) (map command_of ts) = map command_of (at_node q (add_kid c) ts)"
      using 2(2) [OF behind f] 2(4) m by simp
    with behind out show ?thesis by (auto simp: m split: if_splits cli_command.splits)
  qed
qed simp

text \<open>The place of a command in the lists: the empty path is the top.\<close>

definition place :: "ptr \<Rightarrow> ctree list \<Rightarrow> nat list" where
  "place parent ts = (case parent of None \<Rightarrow> [] | Some q \<Rightarrow> the (find_path q 0 ts))"

lemma apart_addresses: "apart (lay p nx ts) \<Longrightarrow> distinct (addresses ts)"
proof (induction p nx ts rule: lay.induct)
  case (2 p nx a nm hp nd ks ts)
  then have "apart (lay_text hp + (lay (Some a) None ks + lay p nx ts))" by (simp add: apart_add add.assoc)
  then have disj: "apart (lay (Some a) None ks + lay p nx ts)" by (rule apart_plus(2))
  with 2 apart_plus [OF disj] addresses_lay [of ks "Some a" None] addresses_lay [of ts p nx] show ?case
    by (auto simp: apart_add)
qed simp

lemma grow_commands:
  assumes "set_option parent \<subseteq> set (addresses ts)" and "distinct (addresses ts)"
  shows "map command_of (grow parent c ts) = add_command (place parent ts) (command_of c) (map command_of ts)"
proof (cases parent)
  case None
  then show ?thesis by (simp add: grow_def place_def)
next
  case (Some q)
  with assms(1) find_path_found [of q ts 0] obtain p where p: "find_path q 0 ts = Some p" by auto
  with find_path_less [OF p] obtain j r where "p = j # r" by auto
  with add_command_find [of q 0 ts j r c] p assms(2) Some show ?thesis by (simp add: grow_def place_def)
qed

section \<open>Freeing commands\<close>

lemma drop_node_runs:
  "runs (add_mset (t_at t, Node (node_of p nx t)) (add_mset (fst (t_name t), Text (snd (t_name t))) (lay_text (t_help t) + N)))
    (drop_node (t_at t)) (\<lambda>_ M. M = N)"
  unfolding drop_node_def
  by (rule read_node_then [where n = "node_of p nx t"], simp)
     (simp, rule free_then [where b = "Text (snd (t_name t))" and N = "add_mset (t_at t, Node (node_of p nx t)) (lay_text (t_help t) + N)"],
      simp_all add: add_mset_commute,
      rule free_text_then [where N = "add_mset (t_at t, Node (node_of p nx t)) N"], simp, rule free_last, simp_all)

lemma free_children_runs:
  "length (addresses ts) < k \<Longrightarrow> runs (lay p None ts + N) (free_children k (first None ts)) (\<lambda>_ M. M = N)"
proof (induction k arbitrary: p ts N)
  case (Suc k)
  show ?case
  proof (cases ts)
    case Nil
    then show ?thesis by (auto simp: runs_def)
  next
    case (Cons t us)
    let ?x = "node_of p (first None us) t"
    let ?D = "\<lambda>N. add_mset (t_at t, Node ?x) (add_mset (fst (t_name t), Text (snd (t_name t))) (lay_text (t_help t) + N))"
    let ?K = "lay p None us + N"
    have len: "length (addresses (t_kids t)) < k" "length (addresses us) < k" using Suc(2) by (cases t; simp add: Cons)+
    have kids: "runs (lay (Some (t_at t)) None (t_kids t) + ?D ?K) (free_children k (first None (t_kids t))) (\<lambda>_ M. M = ?D ?K)"
      by (rule Suc(1) [OF len(1)])
    have drop: "runs (?D ?K) (drop_node (t_at t)) (\<lambda>_ M. M = ?K)" by (rule drop_node_runs)
    have rest: "runs ?K (free_children k (first None us)) (\<lambda>_ M. M = N)" by (rule Suc(1) [OF len(2)])
    have M: "lay p None ts + N = lay (Some (t_at t)) None (t_kids t) + ?D ?K" by (simp add: Cons lay_node parts_def ac_simps)
    have "runs (lay p None ts + N) (bindE (read_node (t_at t)) (\<lambda>y. seqE (free_children k (n_children y)) (drop_node (t_at t)))) (\<lambda>_ M. M = ?K)"
      unfolding M by (rule read_node_then [where n = ?x], simp) (use runs_seq [OF kids] drop in simp)
    from runs_seq [OF this] rest have "runs (lay p None ts + N)
        (seqE (bindE (read_node (t_at t)) (\<lambda>y. seqE (free_children k (n_children y)) (drop_node (t_at t)))) (free_children k (first None us))) (\<lambda>_ M. M = N)"
      by simp
    then show ?thesis
      by (simp add: Cons, intro read_node_then [where n = ?x]) (simp_all add: lay_node)
  qed
qed simp

lemma unregister_all_runs:
  "length (addresses ts) < k \<Longrightarrow> runs (lay p None ts + N) (unregister_all k (first None ts)) (\<lambda>_ M. M = N)"
proof (induction k arbitrary: p ts N)
  case (Suc k)
  show ?case
  proof (cases ts)
    case Nil
    then show ?thesis by (auto simp: runs_def)
  next
    case (Cons t us)
    let ?x = "node_of p (first None us) t"
    let ?D = "\<lambda>N. add_mset (t_at t, Node ?x) (add_mset (fst (t_name t), Text (snd (t_name t))) (lay_text (t_help t) + N))"
    let ?K = "lay p None us + N"
    have len: "length (addresses (t_kids t)) < k" "length (addresses us) < k" using Suc(2) by (cases t; simp add: Cons)+
    have kids: "runs (lay (Some (t_at t)) None (t_kids t) + ?D ?K) (whenE (first None (t_kids t) \<noteq> None) (unregister_all k (first None (t_kids t)))) (\<lambda>_ M. M = ?D ?K)"
      by (rule runs_whenE, rule Suc(1) [OF len(1)]) (cases "t_kids t"; simp)
    have drop: "runs (?D ?K) (drop_node (t_at t)) (\<lambda>_ M. M = ?K)" by (rule drop_node_runs)
    have rest: "runs ?K (unregister_all k (first None us)) (\<lambda>_ M. M = N)" by (rule Suc(1) [OF len(2)])
    have M: "lay p None ts + N = lay (Some (t_at t)) None (t_kids t) + ?D ?K" by (simp add: Cons lay_node parts_def ac_simps)
    have "runs (?D ?K) (seqE (drop_node (t_at t)) (unregister_all k (first None us))) (\<lambda>_ M. M = N)"
      using runs_seq [OF drop] rest by simp
    from runs_seq [OF kids] this have "runs (lay p None ts + N)
        (seqE (whenE (first None (t_kids t) \<noteq> None) (unregister_all k (first None (t_kids t))))
          (seqE (drop_node (t_at t)) (unregister_all k (first None us)))) (\<lambda>_ M. M = N)"
      unfolding M by simp
    then show ?thesis
      by (simp add: Cons, intro read_node_then [where n = ?x]) (simp_all add: lay_node)
  qed
qed simp

lemma mem_free_command_runs: "runs (lay p nx [t] + N) (mem_free_command (t_at t)) (\<lambda>_ M. M = N)"
proof -
  let ?x = "node_of p nx t"
  let ?D = "add_mset (t_at t, Node ?x) (add_mset (fst (t_name t), Text (snd (t_name t))) (lay_text (t_help t) + N))"
  have M: "lay p nx [t] + N = lay (Some (t_at t)) None (t_kids t) + ?D" by (simp add: lay_node parts_def ac_simps)
  have kids: "runs (lay (Some (t_at t)) None (t_kids t) + ?D) (bounded (\<lambda>k. free_children k (n_children ?x))) (\<lambda>_ M. M = ?D)"
    by (rule runs_bounded, simp only: n_children_node_of, rule free_children_runs)
       (use size_lay [of "t_kids t" "Some (t_at t)" None] in simp)
  have "runs (lay p nx [t] + N) (seqE (bounded (\<lambda>k. free_children k (n_children ?x))) (drop_node (t_at t))) (\<lambda>_ M. M = N)"
    unfolding M using runs_seq [OF kids] drop_node_runs [of t p nx N] by simp
  then show ?thesis unfolding mem_free_command_def
    by (intro read_node_then [where n = ?x]) (simp_all add: lay_node)
qed

end
