(* ===== verification/CliPrefix.thy ===== *)
theory CliPrefix
  imports CliTree
begin

text \<open>
  Unregistering a command, the shortest unique prefixes, and the name of a command, on the store.
\<close>

section \<open>Unregistering\<close>

fun del_command :: "string \<Rightarrow> ctree list \<Rightarrow> ctree list" where
  "del_command name [] = []"
| "del_command name (t # ts) = (if snd (t_name t) = name then ts else t # del_command name ts)"

lemma cmd_name_of [simp]: "cmd_name (command_of t) = snd (t_name t)"
  by (cases t) simp

lemma del_command_unregister: "map command_of (del_command name ts) = unregister name (map command_of ts)"
  by (induction ts) auto

lemma unlink_node_runs:
  assumes "o_commands d = first None (pre @ t # ts)"
  shows "runs (add_mset (ob, Object d) (lay p None (pre @ t # ts) + N))
    (seqE (case (if pre = [] then None else Some (t_at (last pre))) of
          None \<Rightarrow> upd_obj ob (\<lambda>d. d\<lparr>o_commands := first None ts\<rparr>)
        | Some v \<Rightarrow> upd_node v (\<lambda>y. y\<lparr>n_next := first None ts\<rparr>)) (mem_free_command (t_at t)))
    (\<lambda>_ M. M = add_mset (ob, Object (d\<lparr>o_commands := first None (pre @ ts)\<rparr>)) (lay p None (pre @ ts) + N))"
proof (cases pre rule: rev_cases)
  case Nil
  have "runs (add_mset (ob, Object d) (lay p None (t # ts) + N)) (seqE (upd_obj ob (\<lambda>d. d\<lparr>o_commands := first None ts\<rparr>)) (mem_free_command (t_at t)))
      (\<lambda>_ M. M = add_mset (ob, Object (d\<lparr>o_commands := first None ts\<rparr>)) (lay p None ts + N))"
    by (rule upd_obj_then [where n = d], simp)
       (use mem_free_command_runs [of p "first None ts" t "add_mset (ob, Object (d\<lparr>o_commands := first None ts\<rparr>)) (lay p None ts + N)"]
        in \<open>simp add: lay_node ac_simps\<close>)
  with Nil show ?thesis by simp
next
  case (snoc us v)
  let ?K = "lay p (Some (t_at v)) us + parts v + lay p None ts + add_mset (ob, Object d) N"
  have d: "d\<lparr>o_commands := first None (pre @ ts)\<rparr> = d" using assms by (cases us) (simp_all add: snoc)
  have "runs (add_mset (ob, Object d) (lay p None (pre @ t # ts) + N))
      (seqE (upd_node (t_at v) (\<lambda>y. y\<lparr>n_next := first None ts\<rparr>)) (mem_free_command (t_at t)))
      (\<lambda>_ M. M = add_mset (ob, Object d) (lay p None (pre @ ts) + N))"
    by (rule upd_node_then [where n = "node_of p (Some (t_at t)) v" and N = "lay p (first None ts) [t] + ?K"])
       (use mem_free_command_runs [of p "first None ts" t "add_mset (t_at v, Node (node_of p (first None ts) v)) ?K"]
        in \<open>simp_all add: snoc lay_append lay_node ac_simps add_mset_commute\<close>)
  with d show ?thesis by (simp add: snoc)
qed

lemma unregister_loop_runs:
  assumes "o_commands d = first None (pre @ ts)" and "length ts < k"
  shows "runs (add_mset (ob, Object d) (lay p None (pre @ ts) + N))
    (unregister_loop k ob name (if pre = [] then None else Some (t_at (last pre))) (first None ts))
    (\<lambda>_ M. M = add_mset (ob, Object (d\<lparr>o_commands := first None (pre @ del_command name ts)\<rparr>)) (lay p None (pre @ del_command name ts) + N))"
  using assms
proof (induction ts arbitrary: pre k)
  case Nil
  then have d: "d\<lparr>o_commands := first None pre\<rparr> = d" by simp
  from Nil show ?case by (cases k) (auto simp: runs_def d simp del: cli_object.select_convs)
next
  case (Cons t ts)
  then obtain k' where k: "k = Suc k'" by (cases k) auto
  let ?x = "node_of p (first None ts) t"
  note IH = Cons(1) [of "pre @ [t]" k']
  have *: "runs (add_mset (ob, Object d) (lay p None (pre @ t # ts) + N))
    (if snd (t_name t) = name
     then seqE (case (if pre = [] then None else Some (t_at (last pre))) of
          None \<Rightarrow> upd_obj ob (\<lambda>d. d\<lparr>o_commands := n_next ?x\<rparr>)
        | Some v \<Rightarrow> upd_node v (\<lambda>y. y\<lparr>n_next := n_next ?x\<rparr>)) (mem_free_command (t_at t))
     else unregister_loop k' ob name (Some (t_at t)) (n_next ?x))
    (\<lambda>_ M. M = add_mset (ob, Object (d\<lparr>o_commands := first None (pre @ del_command name (t # ts))\<rparr>)) (lay p None (pre @ del_command name (t # ts)) + N))"
    using unlink_node_runs [OF Cons(2)] IH Cons(2,3) k by (cases "pre = []"; cases "snd (t_name t) = name") simp_all
  show ?case unfolding k first.simps unregister_loop.simps
    by (rule read_node_then [where n = ?x], simp add: lay_append lay_node,
        rule read_text_then [where a = "fst (t_name t)" and t = "snd (t_name t)"], simp, simp add: lay_append lay_node parts_def, rule *)
qed

lemma mem_unregister_command_runs:
  "runs (lay_cli ob v + R) (mem_unregister_command ob name) (\<lambda>r N. r = CLI_OK \<and> N = lay_cli ob (v\<lparr>v_tree := del_command name (v_tree v)\<rparr>) + R)"
proof -
  let ?N = "lay_rest (v\<lparr>v_tree := []\<rparr>) + R" and ?k = "Suc (size (lay_cli ob v + R))"
  have "length (v_tree v) < ?k"
    using size_lay [of "v_tree v" None None] length_addresses [of "v_tree v"] by (simp add: tree_split_id)
  then have "runs (lay_cli ob v + R) (unregister_loop ?k ob name None (first None (v_tree v)))
     (\<lambda>_ N. N = lay_cli ob (v\<lparr>v_tree := del_command name (v_tree v)\<rparr>) + R)"
    using unregister_loop_runs [where pre = "[]" and d = "object_of v" and ts = "v_tree v" and N = ?N and name = name and ob = ob]
    unfolding tree_split [of ob "del_command name (v_tree v)"] tree_split_id [of ob v]
    by (simp add: object_of_def)
  then have "runs (lay_cli ob v + R) (seqE (bounded (\<lambda>k. unregister_loop k ob name None (first None (v_tree v)))) (ret CLI_OK))
     (\<lambda>r N. r = CLI_OK \<and> N = lay_cli ob (v\<lparr>v_tree := del_command name (v_tree v)\<rparr>) + R)"
    by (rule runs_seq [OF runs_bounded]) (simp add: runs_ret)
  then show ?thesis unfolding mem_unregister_command_def
    by (intro read_obj_then [where n = "object_of v"]) (simp_all add: lay_cli_def object_of_def)
qed

section \<open>Shortest unique prefixes\<close>

fun set_len :: "nat \<Rightarrow> ctree \<Rightarrow> ctree" where
  "set_len u (CT a nm hp nd ks) = CT a nm hp (nd\<lparr>n_unique_len := u\<rparr>) ks"

lemma set_len_sel [simp]: "t_at (set_len u t) = t_at t" "t_name (set_len u t) = t_name t" "t_help (set_len u t) = t_help t"
    "t_node (set_len u t) = t_node t\<lparr>n_unique_len := u\<rparr>" "t_kids (set_len u t) = t_kids t" "set_len u (set_len w t) = set_len u t"
  by (cases t; simp)+

lemma node_of_set_len [simp]: "node_of p nx (set_len u t) = node_of p nx t\<lparr>n_unique_len := u\<rparr>"
  by (simp add: node_of_def)

lemma parts_set_len [simp]: "parts (set_len u t) = parts t"
  by (simp add: parts_def)

text \<open>What the prefixes depend on.\<close>

definition key :: "cli_command \<Rightarrow> string \<times> int \<times> int" where
  "key c = (cmd_name c, cmd_mode c, cmd_privilege c)"

lemma key_Command [simp]: "key (Command n cb u h p m f ch) = (n, m, p)"
  by (simp add: key_def)

lemma hidden_key: "key c = key c' \<Longrightarrow> hidden s c = hidden s c'"
  by (simp add: key_def hidden_def)

lemma shortest_loop_key: "map key ps = map key ps' \<Longrightarrow> key c = key c' \<Longrightarrow> shortest_loop s c i j ps u = shortest_loop s c' i j ps' u"
proof (induction s c i j ps u arbitrary: ps' rule: shortest_loop.induct)
  case (2 s c i j p ps u)
  then obtain q qs where q: "ps' = q # qs" "key p = key q" "map key ps = map key qs" by (cases ps') auto
  then show ?case using 2 hidden_key [OF q(2)] by (auto simp: key_def Let_def)
qed auto

lemma shortest_key: "map key cs = map key cs' \<Longrightarrow> key c = key c' \<Longrightarrow> shortest s cs i c = shortest s cs' i c'"
  using shortest_loop_key [of cs cs' c c' s i 0 1] hidden_key [of c c' s] by (simp add: shortest_def key_def)

lemma key_set_len [simp]: "key (command_of (set_len u t)) = key (command_of t)"
  by (cases t) (simp add: key_def)

text \<open>The library's object and the object on the store see the same.\<close>

definition sees :: "cli_def \<Rightarrow> cli_object \<Rightarrow> bool" where
  "sees s d \<longleftrightarrow> cl_mode s = o_mode d \<and> cl_privilege s = o_privilege d"

lemma node_hidden: "sees s d \<Longrightarrow> node_hidden d (node_of p nx t) = hidden s (command_of t)"
  by (cases t) (auto simp: sees_def node_hidden_def hidden_def node_of_def)

lemma n_unique_len_node_of [simp]: "n_unique_len (node_of p nx t) = n_unique_len (t_node t)"
  by (simp add: node_of_def)

lemma t_at_addresses: "t \<in> set ts \<Longrightarrow> t_at t \<in> set (addresses ts)"
  by (induction ts rule: addresses.induct) auto

lemma shortest_inner_runs:
  assumes "sees s d" and "apart (lay p None (pre @ set_len u0 c # post) + N)"
  shows "length ys < k \<Longrightarrow> xs @ ys = pre @ c # post \<Longrightarrow>
    runs (lay p None (pre @ set_len u c # post) + N) (shortest_inner k d (t_at c) (first None ys))
    (\<lambda>_ M. M = lay p None (pre @ set_len (shortest_loop s (command_of c) (length pre) (length xs) (map command_of ys) u) c # post) + N)"
proof (induction ys arbitrary: k xs u)
  case Nil
  then show ?case by (cases k) (auto simp: runs_def)
next
  case (Cons y ys)
  then obtain k' where k: "k = Suc k'" and len: "length ys < k'" by (cases k) auto
  let ?M = "\<lambda>u. lay p None (pre @ set_len u c # post) + N"
  let ?u = "shortest_loop s (command_of c) (length pre) (length xs) (map command_of (y # ys)) u"
  let ?n = "Suc (prefix_len (snd (t_name c)) (snd (t_name y)))"
  let ?w = "if length pre = length xs \<or> hidden s (command_of y) then u else if ?n > u then ?n else u"
  have IH: "runs (?M w) (shortest_inner k' d (t_at c) (first None ys))
      (\<lambda>_ M. M = ?M (shortest_loop s (command_of c) (length pre) (Suc (length xs)) (map command_of ys) w))" for w
    using Cons(1) [OF len, of "xs @ [y]" w] Cons(3) by simp
  have cnode: "?M w = add_mset (t_at c, Node (node_of p (first None post) c\<lparr>n_unique_len := w\<rparr>))
      (lay p (Some (t_at c)) pre + parts c + lay p None post + N)" for w
    by (simp add: lay_append lay_node)
  show ?case
  proof (cases "length pre = length xs")
    case True
    with Cons(3) have same: "y = c" "ys = post" "xs = pre" by auto
    show ?thesis unfolding k first.simps shortest_inner.simps
      by (rule read_node_then [where n = "node_of p (first None post) c\<lparr>n_unique_len := u\<rparr>"], simp add: cnode same)
         (use IH [of u] in \<open>simp add: same\<close>)
  next
    case False
    consider (before) zs where "pre = xs @ y # zs" "ys = zs @ c # post" | (behind) zs where "post = zs @ y # ys"
    proof -
      from Cons(3) obtain us where "xs = pre @ us \<and> us @ y # ys = c # post \<or> xs @ us = pre \<and> y # ys = us @ c # post"
        by (auto simp: append_eq_append_conv2)
      with False that show thesis by (cases us) auto
    qed
    then have at: "(t_at y, Node (node_of p (first None ys) y)) \<in># ?M u" "(fst (t_name y), Text (snd (t_name y))) \<in># ?M u" "y \<in> set pre \<union> set post"
      by (cases; simp add: lay_append lay_node parts_def)+
    have "distinct (addresses (pre @ set_len u0 c # post))" using assms(2) apart_plus(1) apart_addresses by blast
    then have "t_at c \<notin> set (addresses (pre @ post))" by (cases c) auto
    with at(3) have ne: "t_at c \<noteq> t_at y" using t_at_addresses [of y "pre @ post"] by auto
    let ?x = "node_of p (first None ys) y" and ?c = "node_of p (first None post) c\<lparr>n_unique_len := u\<rparr>"
    have step: "runs (?M u) (if t_at c = t_at y \<or> node_hidden d ?x then ret ()
        else bindE (read_node (t_at c)) (\<lambda>y. bindE (read_text (n_command y)) (\<lambda>cp. bindE (read_text (n_command ?x)) (\<lambda>pp.
          whenE (Suc (prefix_len cp pp) > n_unique_len y) (upd_node (t_at c) (\<lambda>y. y\<lparr>n_unique_len := Suc (prefix_len cp pp)\<rparr>))))))
        (\<lambda>_ M. M = ?M ?w)"
    proof (cases "hidden s (command_of y)")
      case True
      then show ?thesis by (auto simp: node_hidden [OF assms(1)] intro: runs_ret)
    next
      case nh: False
      have "runs (?M u) (whenE (?n > u) (upd_node (t_at c) (\<lambda>y. y\<lparr>n_unique_len := ?n\<rparr>))) (\<lambda>_ M. M = ?M ?w)"
        by (rule runs_whenE, rule upd_node_last [OF cnode]) (use nh False in \<open>simp_all add: cnode\<close>)
      then have "runs (?M u) (bindE (read_node (t_at c)) (\<lambda>y. bindE (read_text (n_command y)) (\<lambda>cp. bindE (read_text (n_command ?x)) (\<lambda>pp.
          whenE (Suc (prefix_len cp pp) > n_unique_len y) (upd_node (t_at c) (\<lambda>y. y\<lparr>n_unique_len := Suc (prefix_len cp pp)\<rparr>))))))
        (\<lambda>_ M. M = ?M ?w)"
        using at(2)
        by (intro read_node_then [where n = ?c] read_text_then [where a = "fst (t_name c)" and t = "snd (t_name c)"]
             read_text_then [where a = "fst (t_name y)" and t = "snd (t_name y)"]) (simp_all add: cnode parts_def)
      with nh ne show ?thesis by (simp add: node_hidden [OF assms(1)])
    qed
    have u: "?u = shortest_loop s (command_of c) (length pre) (Suc (length xs)) (map command_of ys) ?w"
      using False by (auto simp: Let_def)
    have rest: "runs (?M ?w) (shortest_inner k' d (t_at c) (first None ys)) (\<lambda>_ M. M = ?M ?u)"
      unfolding u by (rule IH)
    show ?thesis unfolding k first.simps shortest_inner.simps
      by (rule read_node_then [OF at(1)], rule runs_seq [OF step]) (use rest in \<open>simp only: n_next_node_of\<close>)
  qed
qed

text \<open>The tree with the prefixes computed: the siblings of the commands \<open>cs\<close> from position \<open>i\<close>.\<close>

fun shortest_tree :: "cli_def \<Rightarrow> cli_command list \<Rightarrow> nat \<Rightarrow> ctree list \<Rightarrow> ctree list" where
  "shortest_tree s cs i [] = []"
| "shortest_tree s cs i (CT a nm hp nd ks # ts) =
     CT a nm hp (nd\<lparr>n_unique_len := shortest s cs i (command_of (CT a nm hp nd ks))\<rparr>)
       (if hidden s (command_of (CT a nm hp nd ks)) then ks else shortest_tree s (map command_of ks) 0 ks)
     # shortest_tree s cs (Suc i) ts"

lemma shortest_tree_map:
  "map command_of (shortest_tree s cs i ts) =
     map (\<lambda>(j, c). case c of Command n cb u h p m f ch \<Rightarrow>
        Command n cb (shortest s cs j c) h p m f (if hidden s c then ch else cli_build_shortest s ch))
       (zip [i..<i + length ts] (map command_of ts))"
proof (induction s cs i ts rule: shortest_tree.induct)
  case (2 s cs i a nm hp nd ks ts)
  have "map command_of (shortest_tree s (map command_of ks) 0 ks) = cli_build_shortest s (map command_of ks)"
    if "\<not> hidden s (command_of (CT a nm hp nd ks))"
    using 2(1) [OF that] by (subst cli_build_shortest.simps) simp
  with 2(2) show ?case by (auto simp: upt_conv_Cons simp del: upt_Suc)
qed simp

lemma shortest_tree_build: "map command_of (shortest_tree s (map command_of ts) 0 ts) = cli_build_shortest s (map command_of ts)"
  by (subst cli_build_shortest.simps) (simp add: shortest_tree_map)

lemma shortest_tree_first [simp]: "first nx (shortest_tree s cs i ts) = first nx ts"
  by (cases ts rule: list.exhaust; cases "hd ts") auto

lemma build_shortest_runs:
  assumes "sees s d"
  shows "length (addresses ts) < k \<Longrightarrow> map key (map command_of (pre @ ts)) = map key cs \<Longrightarrow>
    runs (lay p None (pre @ ts) + N) (build_shortest k d (first None (pre @ ts)) (first None ts))
    (\<lambda>_ M. M = lay p None (pre @ shortest_tree s cs (length pre) ts) + N)"
proof (induction k arbitrary: p pre ts cs N)
  case (Suc k)
  show ?case
  proof (cases ts)
    case Nil
    then show ?thesis by (auto simp: runs_def)
  next
    case (Cons c post)
    obtain a nm hp nd ks where c: "c = CT a nm hp nd ks" by (cases c)
    let ?M = "\<lambda>u ks. lay p None (pre @ CT a nm hp (nd\<lparr>n_unique_len := u\<rparr>) ks # post) + N"
    let ?x = "node_of p (first None post) c"
    let ?hd = "first None (pre @ ts)"
    let ?u = "shortest s cs (length pre) (command_of c)"
    let ?hid = "hidden s (command_of c)"
    let ?ks = "if ?hid then ks else shortest_tree s (map command_of ks) 0 ks"
    have len: "length (addresses ks) < k" "length (addresses post) < k" using Suc(2) by (simp_all add: Cons c)
    have node: "?M u ks = add_mset (a, Node (?x\<lparr>n_unique_len := u\<rparr>))
        (lay p (Some a) pre + parts c + lay p None post + N)" for u
      by (simp add: lay_append lay_node c node_of_def parts_def)
    have M: "lay p None (pre @ ts) + N = ?M (n_unique_len nd) ks" by (simp add: Cons c)
    have kids: "?M u ks' = lay (Some a) None ks' + (add_mset (a, Node (?x\<lparr>n_unique_len := u\<rparr>)) (lay p (Some a) pre
        + add_mset (fst nm, Text (snd nm)) (lay_text hp) + lay p None post + N))" if "first None ks' = first None ks" for u ks'
      using that by (simp add: lay_append lay_node c node_of_def parts_def ac_simps)
    have inner: "runs (?M 1 ks) (bounded (\<lambda>m. shortest_inner m d a ?hd)) (\<lambda>_ M. M = ?M ?u ks)" if "\<not> ?hid"
    proof (rule runs_apart, rule runs_bounded)
      let ?k = "Suc (size (?M 1 ks))"
      assume ap: "apart (?M 1 ks)"
      have "length (pre @ ts) < ?k"
        using size_lay [of "pre @ ts" p None] length_addresses [of "pre @ ts"]
        by (simp add: Cons c lay_append lay_node parts_def)
      from shortest_inner_runs [where c = c and pre = pre and post = post and xs = "[]" and ys = "pre @ ts" and u = 1 and ?u0.0 = 1, OF assms _ this]
      have "runs (?M 1 ks) (shortest_inner ?k d a ?hd) (\<lambda>_ M. M = ?M (shortest_loop s (command_of c) (length pre) 0 (map command_of (pre @ ts)) 1) ks)"
        using ap by (simp add: Cons c)
      moreover have "shortest_loop s (command_of c) (length pre) 0 (map command_of (pre @ ts)) 1 = ?u"
        using that shortest_loop_key [OF Suc(3) refl] by (simp add: shortest_def)
      ultimately show "runs (?M 1 ks) (shortest_inner ?k d a ?hd) (\<lambda>_ M. M = ?M ?u ks)" by simp
    qed
    have below: "runs (?M ?u ks) (whenE (n_children ?x \<noteq> None) (build_shortest k d (n_children ?x) (n_children ?x))) (\<lambda>_ M. M = ?M ?u ?ks)" if "\<not> ?hid"
    proof -
      have ch: "n_children ?x = first None ks" by (simp add: c)
      let ?K = "add_mset (a, Node (?x\<lparr>n_unique_len := ?u\<rparr>)) (lay p (Some a) pre
        + add_mset (fst nm, Text (snd nm)) (lay_text hp) + lay p None post + N)"
      have eqs: "?M ?u ks = lay (Some a) None ks + ?K" "?M ?u ?ks = lay (Some a) None (shortest_tree s (map command_of ks) 0 ks) + ?K"
        using that kids [OF refl] kids [OF shortest_tree_first] by (simp_all only: if_False)
      have "runs (?M ?u ks) (build_shortest k d (first None ks) (first None ks)) (\<lambda>_ M. M = ?M ?u ?ks)"
        unfolding eqs using Suc(1) [OF len(1), of "[]" "map command_of ks" "Some a" ?K] by simp
      then show ?thesis unfolding ch by (rule runs_whenE) (cases ks; simp)
    qed
    have post: "runs (?M ?u ?ks) (build_shortest k d ?hd (first None post)) (\<lambda>_ M. M = lay p None (pre @ shortest_tree s cs (length pre) ts) + N)"
    proof -
      let ?c = "CT a nm hp (nd\<lparr>n_unique_len := ?u\<rparr>) ?ks"
      have "map key (map command_of ((pre @ [?c]) @ post)) = map key cs" using Suc(3) by (simp add: Cons c)
      from Suc(1) [OF len(2) this, of p N] show ?thesis by (simp add: Cons c)
    qed
    have visit: "runs (?M (length (snd nm)) ks) (if node_hidden d ?x then ret ()
           else seqE (upd_node a (\<lambda>y. y\<lparr>n_unique_len := 1\<rparr>))
               (seqE (bounded (\<lambda>m. shortest_inner m d a ?hd))
                     (whenE (n_children ?x \<noteq> None) (build_shortest k d (n_children ?x) (n_children ?x))))) (\<lambda>_ M. M = ?M ?u ?ks)"
    proof (cases ?hid)
      case True
      then have "?u = length (snd nm)" by (simp add: shortest_def c)
      with True show ?thesis by (simp add: node_hidden [OF assms] runs_ret)
    next
      case False
      have "runs (?M 1 ks) (seqE (bounded (\<lambda>m. shortest_inner m d a ?hd))
                     (whenE (n_children ?x \<noteq> None) (build_shortest k d (n_children ?x) (n_children ?x)))) (\<lambda>_ M. M = ?M ?u ?ks)"
        by (rule runs_seq [OF inner [OF False]]) (use below [OF False] in simp)
      then have "runs (?M (length (snd nm)) ks) (seqE (upd_node a (\<lambda>y. y\<lparr>n_unique_len := 1\<rparr>)) (seqE (bounded (\<lambda>m. shortest_inner m d a ?hd))
                     (whenE (n_children ?x \<noteq> None) (build_shortest k d (n_children ?x) (n_children ?x))))) (\<lambda>_ M. M = ?M ?u ?ks)"
        by (intro upd_node_then [OF node]) (simp add: node)
      with False show ?thesis by (simp only: node_hidden [OF assms] if_False)
    qed
    have "runs (?M (length (snd nm)) ks) (seqE (if node_hidden d ?x then ret ()
           else seqE (upd_node a (\<lambda>y. y\<lparr>n_unique_len := 1\<rparr>))
               (seqE (bounded (\<lambda>m. shortest_inner m d a ?hd))
                     (whenE (n_children ?x \<noteq> None) (build_shortest k d (n_children ?x) (n_children ?x)))))
          (build_shortest k d ?hd (n_next ?x))) (\<lambda>_ M. M = lay p None (pre @ shortest_tree s cs (length pre) ts) + N)"
      by (rule runs_seq [OF visit]) (use post in \<open>simp only: n_next_node_of\<close>)
    then have "runs (?M (n_unique_len nd) ks) (seqE (upd_node a (\<lambda>y. y\<lparr>n_unique_len := length (snd nm)\<rparr>))
       (seqE (if node_hidden d ?x then ret ()
           else seqE (upd_node a (\<lambda>y. y\<lparr>n_unique_len := 1\<rparr>))
               (seqE (bounded (\<lambda>m. shortest_inner m d a ?hd))
                     (whenE (n_children ?x \<noteq> None) (build_shortest k d (n_children ?x) (n_children ?x)))))
          (build_shortest k d ?hd (n_next ?x)))) (\<lambda>_ M. M = lay p None (pre @ shortest_tree s cs (length pre) ts) + N)"
      by (intro upd_node_then [OF node]) (simp add: node)
    moreover have "(a, Node ?x) \<in># ?M (n_unique_len nd) ks" "(fst nm, Text (snd nm)) \<in># ?M (n_unique_len nd) ks"
      by (simp_all add: lay_append lay_node c node_of_def parts_def)
    ultimately have "runs (?M (n_unique_len nd) ks) (build_shortest (Suc k) d ?hd (Some a))
        (\<lambda>_ M. M = lay p None (pre @ shortest_tree s cs (length pre) ts) + N)"
      unfolding build_shortest.simps
      by (intro read_node_then [where n = ?x] read_text_then [where a = "fst nm" and t = "snd nm"]) (simp_all only: n_command_node_of c ctree.sel)
    then show ?thesis unfolding M by (simp only: Cons c first.simps ctree.sel)
  qed
qed simp

text \<open>The library's record stands for the view of the store when it has the same contents.\<close>

definition rebuilt :: "cli_def \<Rightarrow> cview \<Rightarrow> cview" where
  "rebuilt s v = v\<lparr>v_tree := shortest_tree s (map command_of (v_tree v)) 0 (v_tree v)\<rparr>"

lemma mem_build_shortest_runs:
  assumes "cl_mode s = v_mode v" and "cl_privilege s = v_privilege v"
  shows "runs (lay_cli ob v + R) (mem_build_shortest ob) (\<lambda>_ N. N = lay_cli ob (rebuilt s v) + R)"
proof -
  let ?K = "add_mset (ob, Object (object_of v)) (lay_rest (v\<lparr>v_tree := []\<rparr>) + R)"
  let ?ts = "shortest_tree s (map command_of (v_tree v)) 0 (v_tree v)"
  have sees: "sees s (object_of v)" using assms by (simp add: sees_def object_of_def)
  have M: "lay_cli ob v + R = lay None None (v_tree v) + ?K" by (simp add: tree_split_id)
  have "object_of v\<lparr>o_commands := first None ?ts\<rparr> = object_of v" by (simp add: object_of_def)
  then have T: "lay_cli ob (rebuilt s v) + R = lay None None ?ts + ?K" unfolding rebuilt_def tree_split by simp
  have "length (addresses (v_tree v)) < Suc (size (lay_cli ob v + R))"
    using size_lay [of "v_tree v" None None] by (simp add: M)
  from build_shortest_runs [OF sees this, of "[]" "map command_of (v_tree v)" None ?K]
  have "runs (lay_cli ob v + R) (bounded (\<lambda>k. build_shortest k (object_of v) (first None (v_tree v)) (first None (v_tree v))))
      (\<lambda>_ N. N = lay_cli ob (rebuilt s v) + R)"
    unfolding T by (intro runs_bounded) (simp add: M)
  then show ?thesis unfolding mem_build_shortest_def
    by (intro read_obj_then [where n = "object_of v"]) (simp_all add: lay_cli_def object_of_def)
qed

section \<open>Modes and privileges\<close>

lemma set_object:
  "f (object_of v) = object_of v' \<Longrightarrow> lay_rest v' = lay_rest v \<Longrightarrow> runs (lay_cli ob v' + R) m Q \<Longrightarrow> runs (lay_cli ob v + R) (seqE (upd_obj ob f) m) Q"
  by (intro upd_obj_then [where n = "object_of v"]) (simp_all add: lay_cli_def)

definition prompt_for :: "int \<Rightarrow> string" where
  "prompt_for priv = (if priv = PRIVILEGE_PRIVILEGED then ''# '' else ''> '')"

lemma mem_set_privilege_runs:
  assumes "malloc_ok A" and "cl_mode s = v_mode v" and "cl_privilege s = priv"
  shows "runs (lay_cli ob v + R) (mem_set_privilege A ob priv)
    (\<lambda>r N. if priv = v_privilege v then N = lay_cli ob v + R
       else \<exists>a. N = lay_cli ob (rebuilt s (v\<lparr>v_privilege := priv, v_prompt := Some (a, prompt_for priv)\<rparr>)) + R)"
    (is "runs _ _ ?Q")
proof -
  let ?v = "v\<lparr>v_privilege := priv\<rparr>"
  have "runs (lay_cli ob ?v + R) (seqE (whenE (priv \<noteq> o_privilege (object_of v))
            (seqE (mem_set_promptchar A ob (if priv = PRIVILEGE_PRIVILEGED then ''# '' else ''> '')) (mem_build_shortest ob)))
          (ret (o_privilege (object_of v)))) ?Q"
  proof (cases "priv = v_privilege v")
    case True
    then have "?v = v" by simp
    with True show ?thesis by (simp add: object_of_def runs_ret)
  next
    case False
    have set: "runs (lay_cli ob ?v + R) (seqE (mem_set_promptchar A ob (prompt_for priv)) (mem_build_shortest ob))
      (\<lambda>_ N. \<exists>a. N = lay_cli ob (rebuilt s (?v\<lparr>v_prompt := Some (a, prompt_for priv)\<rparr>)) + R)"
      unfolding mem_set_promptchar_def
      by (rule runs_seq [OF promptchar.set_runs [OF assms(1)]], elim exE, simp)
         (rule runs_mono [OF mem_build_shortest_runs [of s]], use assms(2,3) in auto)
    from False have "whenE (priv \<noteq> o_privilege (object_of v)) m = m" for m :: "unit mprog" by (simp add: object_of_def)
    then show ?thesis unfolding prompt_for_def [symmetric]
      by (simp only:) (rule runs_seq [OF set], rule runs_ret, use False in simp)
  qed
  then show ?thesis unfolding mem_set_privilege_def
    by (intro read_obj_then [where n = "object_of v"] set_object [where v' = ?v]) (simp_all add: lay_cli_def lay_rest_def object_of_def)
qed

definition modestring_for :: "int \<Rightarrow> string option \<Rightarrow> string option" where
  "modestring_for mode desc = (if mode = 0 then None
     else Some (case desc of Some (x # xs) \<Rightarrow> take 63 (''(config-'' @ x # xs @ '')'') | _ \<Rightarrow> ''(config)''))"

lemma mem_set_modestring_runs:
  assumes "malloc_ok A"
  shows "runs (lay_cli ob v + R) (mem_set_modestring A ob m) (\<lambda>_ N. \<exists>x. map_option snd x = m \<and> N = lay_cli ob (v\<lparr>v_modestring := x\<rparr>) + R)"
  using modestring.set_opt_runs [OF assms, of ob v R "m \<noteq> None" "the m"]
  by (cases m) (simp_all add: mem_set_modestring_def)

lemma mem_set_configmode_runs:
  assumes "malloc_ok A" and "cl_mode s = mode" and "cl_privilege s = v_privilege v"
  shows "runs (lay_cli ob v + R) (mem_set_configmode A ob mode desc)
    (\<lambda>r N. if mode = v_mode v then N = lay_cli ob v + R
       else \<exists>x. map_option snd x = modestring_for mode desc \<and> N = lay_cli ob (rebuilt s (v\<lparr>v_mode := mode, v_modestring := x\<rparr>)) + R)"
    (is "runs _ _ ?Q")
proof -
  let ?v = "v\<lparr>v_mode := mode\<rparr>"
  let ?m = "if mode = 0 then mem_set_modestring A ob None
                   else (case desc of
                       Some (x # xs) \<Rightarrow> mem_set_modestring A ob (Some (take 63 (''(config-'' @ x # xs @ '')'')))
                     | _ \<Rightarrow> mem_set_modestring A ob (Some ''(config)''))"
  have m: "?m = mem_set_modestring A ob (modestring_for mode desc)"
    by (simp add: modestring_for_def split: option.split list.split)
  have "runs (lay_cli ob ?v + R) (seqE (whenE (mode \<noteq> o_mode (object_of v)) (seqE ?m (mem_build_shortest ob)))
          (ret (o_mode (object_of v)))) ?Q"
  proof (cases "mode = v_mode v")
    case True
    then have "?v = v" by simp
    with True show ?thesis by (simp add: object_of_def runs_ret)
  next
    case False
    have set: "runs (lay_cli ob ?v + R) (seqE ?m (mem_build_shortest ob))
      (\<lambda>_ N. \<exists>x. map_option snd x = modestring_for mode desc \<and> N = lay_cli ob (rebuilt s (?v\<lparr>v_modestring := x\<rparr>)) + R)"
      unfolding m
      by (rule runs_seq [OF mem_set_modestring_runs [OF assms(1)]], elim exE conjE, simp)
         (rule runs_mono [OF mem_build_shortest_runs [of s]], use assms(2,3) in auto)
    from False have "whenE (mode \<noteq> o_mode (object_of v)) m = m" for m :: "unit mprog" by (simp add: object_of_def)
    then show ?thesis by (simp only:) (rule runs_seq [OF set], rule runs_ret, use False in simp)
  qed
  then show ?thesis unfolding mem_set_configmode_def
    by (intro read_obj_then [where n = "object_of v"] set_object [where v' = ?v]) (simp_all add: lay_cli_def lay_rest_def object_of_def)
qed

section \<open>The name of a command\<close>

text \<open>The way from a node up to the top.\<close>

fun trail :: "nat \<Rightarrow> ctree list \<Rightarrow> ctree list" where
  "trail q [] = []"
| "trail q (CT a nm hp nd ks # ts) =
     (if a = q then [CT a nm hp nd ks] else case trail q ks of [] \<Rightarrow> trail q ts | x # xs \<Rightarrow> (x # xs) @ [CT a nm hp nd ks])"

fun climbs :: "heap \<Rightarrow> ptr \<Rightarrow> ctree list \<Rightarrow> ptr \<Rightarrow> bool" where
  "climbs M c [] p \<longleftrightarrow> c = p"
| "climbs M c (t # ts) p \<longleftrightarrow> c = Some (t_at t) \<and> (\<exists>nx pp. (t_at t, Node (node_of pp nx t)) \<in># M
     \<and> (fst (t_name t), Text (snd (t_name t))) \<in># M \<and> climbs M pp ts p)"

lemma climbs_append: "climbs M c (ts @ us) p \<longleftrightarrow> (\<exists>q. climbs M c ts q \<and> climbs M q us p)"
  by (induction ts arbitrary: c) auto

lemma climbs_mono: "climbs M c ts p \<Longrightarrow> M \<subseteq># L \<Longrightarrow> climbs L c ts p"
  by (induction ts arbitrary: c) (auto dest: mset_subset_eqD)

lemma trail_climbs:
  "q \<in> set (addresses ts) \<Longrightarrow> trail q ts \<noteq> [] \<and> climbs (lay p nx ts) (Some q) (trail q ts) p"
proof (induction p nx ts rule: lay.induct)
  case (2 p nx a nm hp nd ks ts)
  let ?t = "CT a nm hp nd ks"
  let ?M = "lay p nx (?t # ts)"
  consider (here) "a = q" | (below) "a \<noteq> q" "q \<in> set (addresses ks)" | (behind) "a \<noteq> q" "q \<notin> set (addresses ks)" "q \<in> set (addresses ts)"
    using 2(3) by auto
  then show ?case
  proof cases
    case here
    then show ?thesis by auto
  next
    case below
    with 2(1) have IH: "trail q ks \<noteq> []" "climbs (lay (Some a) None ks) (Some q) (trail q ks) (Some a)" by auto
    then have "climbs ?M (Some q) (trail q ks) (Some a)" by (elim climbs_mono) (simp add: subset_add_mset subset_plus add.commute [of "lay_text hp"] add.assoc)
    moreover have "climbs ?M (Some a) [?t] p" by auto
    ultimately show ?thesis using below IH(1) by (cases "trail q ks") (auto simp: climbs_append simp del: lay.simps)
  next
    case behind
    have none: "trail q ks = []" if "q \<notin> set (addresses ks)" for ks
      using that by (induction q ks rule: trail.induct) auto
    from 2(2) behind have IH: "trail q ts \<noteq> []" "climbs (lay p nx ts) (Some q) (trail q ts) p" by auto
    then have "climbs ?M (Some q) (trail q ts) p" by (elim climbs_mono) (simp add: subset_add_mset)
    with IH(1) behind none show ?thesis by simp
  qed
qed simp

lemma name_climb_runs:
  assumes "malloc_ok A"
  shows "climbs M c ts None \<Longrightarrow> length ts < k \<Longrightarrow>
    runs (add_mset (nm, Text old) M) (name_climb A k nm c) (\<lambda>r N. \<exists>a. r = Some a \<and> N = add_mset (a, Text (name_loop (map command_of ts) old)) M)"
proof (induction ts arbitrary: k c nm old)
  case Nil
  then show ?case by (cases k) (auto simp: runs_def)
next
  case (Cons t ts)
  then obtain k' where k: "k = Suc k'" "length ts < k'" by (cases k) auto
  from Cons(2) obtain nx pp where t: "c = Some (t_at t)" "(t_at t, Node (node_of pp nx t)) \<in># M"
      "(fst (t_name t), Text (snd (t_name t))) \<in># M" "climbs M pp ts None" by auto
  let ?new = "snd (t_name t) @ (if old = [] then [] else '' '') @ old"
  let ?Q = "\<lambda>r N. \<exists>a. r = Some a \<and> N = add_mset (a, Text (name_loop (map command_of ts) ?new)) M"
  have "runs (add_mset (a, Text ?new) (add_mset (nm, Text old) M)) (seqE (mem_free (Some nm)) (name_climb A k' a pp)) ?Q" for a
    by (rule free_then [where b = "Text old" and N = "add_mset (a, Text ?new) M"]) (use Cons(1) [OF t(4) k(2), of a ?new] in \<open>simp_all add: add_mset_commute\<close>)
  then have alloc: "runs (add_mset (nm, Text old) M) (bindE (strdup A ?new) (\<lambda>p. case p of
         None \<Rightarrow> seqE (mem_free (Some nm)) (ret None)
       | Some name' \<Rightarrow> seqE (mem_free (Some nm)) (name_climb A k' name' (n_parent (node_of pp nx t))))) ?Q"
    by (intro strdup_then [OF assms]) simp
  have "runs (add_mset (nm, Text old) M) (name_climb A k nm c) ?Q"
    unfolding k t(1) name_climb.simps
    by (rule read_node_then [where n = "node_of pp nx t"], simp add: t(2), simp only: n_command_node_of,
        rule read_text_then [where a = "fst (t_name t)" and t = "snd (t_name t)"], rule refl, simp add: t(3),
        rule read_text_then [where a = nm and t = old], rule refl, simp, rule alloc)
  then show ?case by simp
qed

lemma length_trail: "length (trail q ts) \<le> length (addresses ts)"
  by (induction q ts rule: trail.induct) (auto split: list.split)

lemma mem_command_name_runs:
  assumes "malloc_ok A" and "q \<in> set (addresses (v_tree v))"
  shows "runs (lay_cli ob v + R) (mem_command_name A ob q)
    (\<lambda>r N. \<exists>a. r = Some a \<and> N = lay_cli ob (v\<lparr>v_name := Some (a, name_loop (map command_of (trail q (v_tree v))) [])\<rparr>) + R)"
    (is "runs _ _ ?Q")
proof -
  let ?d = "object_of v" and ?ts = "trail q (v_tree v)"
  let ?K = "lay_rest (v\<lparr>v_name := None\<rparr>) + R"
  let ?M = "add_mset (ob, Object ?d) ?K"
  let ?nm = "name_loop (map command_of ?ts) []"
  have M: "lay_cli ob v + R = lay_text (v_name v) + ?M" by (simp add: lay_cli_def lay_rest_def ac_simps)
  have "climbs (lay None None (v_tree v)) (Some q) ?ts None" using trail_climbs [OF assms(2)] by blast
  then have up: "climbs ?M (Some q) ?ts None" by (rule climbs_mono) (simp add: lay_rest_def subset_add_mset subset_plus)
  have "length (addresses (v_tree v)) \<le> size ?M" using size_lay [of "v_tree v" None None] by (simp add: lay_rest_def)
  with length_trail [of q "v_tree v"] have len: "length ?ts < Suc (size (add_mset (a, Text []) ?M))" for a by simp
  have named: "runs (add_mset (b, Text ?nm) ?M) (seqE (upd_obj ob (\<lambda>d. d\<lparr>o_commandname := Some b\<rparr>)) (ret (Some b))) ?Q" for b
    by (rule upd_obj_then [where n = ?d and N = "add_mset (b, Text ?nm) ?K"])
       (auto simp: lay_cli_def lay_rest_def object_of_def add_mset_commute intro!: runs_ret exI [of _ b])
  have climb: "runs (add_mset (a, Text []) ?M) (or_null (bounded (\<lambda>k. name_climb A k a (Some q))) (\<lambda>r.
     seqE (upd_obj ob (\<lambda>d. d\<lparr>o_commandname := Some r\<rparr>)) (ret (Some r)))) ?Q" for a
    unfolding or_null_def
    by (rule runs_bind, rule runs_bounded, rule name_climb_runs [OF assms(1) up len]) (use named in auto)
  have "runs ?M (or_null (strdup A []) (\<lambda>name. or_null (bounded (\<lambda>k. name_climb A k name (Some q))) (\<lambda>r.
     seqE (upd_obj ob (\<lambda>d. d\<lparr>o_commandname := Some r\<rparr>)) (ret (Some r))))) ?Q"
    unfolding or_null_def [of "strdup A []"] by (rule strdup_then [OF assms(1)]) (simp add: climb)
  then have "runs (lay_cli ob v + R) (seqE (mem_free (o_commandname ?d)) (or_null (strdup A []) (\<lambda>name.
     or_null (bounded (\<lambda>k. name_climb A k name (Some q))) (\<lambda>r.
     seqE (upd_obj ob (\<lambda>d. d\<lparr>o_commandname := Some r\<rparr>)) (ret (Some r)))))) ?Q"
    using free_text_then [OF M] by (simp add: object_of_def)
  then show ?thesis unfolding mem_command_name_def
    by (intro read_obj_then [where n = ?d]) (simp_all add: lay_cli_def)
qed

end
