(* ===== verification/CliHistory.thy ===== *)
theory CliHistory
  imports CliFields
begin

text \<open>
  The history, the print buffer and the requests of a session on the store.
\<close>

section \<open>History\<close>

lemma lay_texts_append: "lay_texts (xs @ ys) = lay_texts xs + lay_texts ys"
  by (induction xs) auto

lemma lay_texts_replicate [simp]: "lay_texts (replicate n None) = {#}"
  by (induction n) auto

lemma lay_texts_mem: "Some x \<in> set xs \<Longrightarrow> (fst x, Text (snd x)) \<in># lay_texts xs"
  by (induction xs) auto

lemma history_split:
  "lay_cli ob (v\<lparr>v_history := hs\<rparr>) + R =
    add_mset (ob, Object (object_of v\<lparr>o_history := map (map_option fst) hs\<rparr>)) (lay_texts hs + (lay_rest (v\<lparr>v_history := []\<rparr>) + R))"
  by (simp add: lay_cli_def lay_rest_def object_of_def ac_simps)

lemma free_history_runs:
  assumes "o_history d = pre @ map (map_option fst) hs"
  shows "runs (add_mset (ob, Object d) (lay_texts hs + N)) (free_history_loop ob (length pre) (map (map_option fst) hs))
    (\<lambda>_ M. M = add_mset (ob, Object (d\<lparr>o_history := pre @ replicate (length hs) None\<rparr>)) N)"
  using assms
proof (induction hs arbitrary: d pre)
  case Nil
  then have d: "d\<lparr>o_history := pre\<rparr> = d" by simp
  show ?case by (auto simp: runs_def d simp del: cli_object.select_convs)
next
  case (Cons h hs)
  let ?d = "d\<lparr>o_history := (o_history d)[length pre := None]\<rparr>"
  have o: "o_history ?d = (pre @ [None]) @ map (map_option fst) hs" using Cons(2) by simp
  have IH: "runs (add_mset (ob, Object ?d) (lay_texts hs + N)) (free_history_loop ob (Suc (length pre)) (map (map_option fst) hs))
      (\<lambda>_ M. M = add_mset (ob, Object (d\<lparr>o_history := pre @ replicate (length (h # hs)) None\<rparr>)) N)"
    using Cons(1) [OF o] by (simp add: replicate_append_same [symmetric])
  show ?case
  proof (cases h)
    case None
    with Cons(2) have "?d = d" by (simp add: list_update_same_conv)
    with IH None show ?thesis by simp
  next
    case (Some x)
    have "runs (add_mset (ob, Object d) (lay_texts (h # hs) + N))
        (seqE (mem_free (map_option fst h)) (upd_obj ob (\<lambda>d. d\<lparr>o_history := (o_history d)[length pre := None]\<rparr>)))
        (\<lambda>_ M. M = add_mset (ob, Object ?d) (lay_texts hs + N))"
      by (rule free_text_then [where N = "add_mset (ob, Object d) (lay_texts hs + N)"], simp) (rule upd_obj_last, simp_all)
    from runs_seq [OF this] IH show ?thesis by (simp add: Some)
  qed
qed

lemma mem_free_history_runs:
  "runs (lay_cli ob v + R) (mem_free_history ob) (\<lambda>_ N. N = lay_cli ob (v\<lparr>v_history := replicate (length (v_history v)) None\<rparr>) + R)"
proof -
  let ?K = "lay_rest (v\<lparr>v_history := []\<rparr>) + R"
  have "runs (lay_cli ob (v\<lparr>v_history := v_history v\<rparr>) + R) (free_history_loop ob 0 (map (map_option fst) (v_history v)))
      (\<lambda>_ N. N = lay_cli ob (v\<lparr>v_history := replicate (length (v_history v)) None\<rparr>) + R)"
    unfolding history_split using free_history_runs [where pre = "[]" and hs = "v_history v" and N = ?K and ob = ob
        and d = "object_of v\<lparr>o_history := map (map_option fst) (v_history v)\<rparr>"] by simp
  then show ?thesis unfolding mem_free_history_def
    by (intro read_obj_then [where n = "object_of v"]) (simp_all add: lay_cli_def object_of_def)
qed

lemma history_slot_runs:
  assumes "malloc_ok A" and "v_history v = pre @ hs" and "None \<notin> set pre"
  shows "runs (lay_cli ob v + R)
    (history_slot A ob line (length pre) (if pre = [] then None else map_option fst (last pre)) (map (map_option fst) hs))
    (\<lambda>r N. case history_free (if pre = [] then None else map_option snd (last pre)) (map (map_option snd) hs) line of
        None \<Rightarrow> r = None \<and> N = lay_cli ob v + R
      | Some hs' \<Rightarrow> r \<noteq> None \<and> (\<exists>ws. map (map_option snd) ws = hs' \<and> N = lay_cli ob (v\<lparr>v_history := pre @ ws\<rparr>) + R))"
  using assms(2,3)
proof (induction hs arbitrary: pre)
  case Nil
  then show ?case by (auto simp: runs_def)
next
  case (Cons h hs)
  show ?case
  proof (cases h)
    case (Some x)
    let ?pre = "pre @ [Some x]"
    have "v_history v = ?pre @ hs" "None \<notin> set ?pre" using Cons(2,3) Some by auto
    from Cons(1) [OF this] have IH: "runs (lay_cli ob v + R) (history_slot A ob line (Suc (length pre)) (Some (fst x)) (map (map_option fst) hs))
      (\<lambda>r N. case history_free (Some (snd x)) (map (map_option snd) hs) line of
        None \<Rightarrow> r = None \<and> N = lay_cli ob v + R
      | Some hs' \<Rightarrow> r \<noteq> None \<and> (\<exists>ws. map (map_option snd) ws = hs' \<and> N = lay_cli ob (v\<lparr>v_history := ?pre @ ws\<rparr>) + R))"
      by simp
    have Q: "case history_free (if pre = [] then None else map_option snd (last pre)) (map (map_option snd) (h # hs)) line of
        None \<Rightarrow> r = None \<and> N = lay_cli ob v + R
      | Some hs' \<Rightarrow> r \<noteq> None \<and> (\<exists>ws. map (map_option snd) ws = hs' \<and> N = lay_cli ob (v\<lparr>v_history := pre @ ws\<rparr>) + R)"
      if "case history_free (Some (snd x)) (map (map_option snd) hs) line of
        None \<Rightarrow> r = None \<and> N = lay_cli ob v + R
      | Some hs' \<Rightarrow> r \<noteq> None \<and> (\<exists>ws. map (map_option snd) ws = hs' \<and> N = lay_cli ob (v\<lparr>v_history := ?pre @ ws\<rparr>) + R)" for r :: "int option" and N
      using that Some by (fastforce split: option.splits intro: exI [of _ "Some x # ws" for ws])
    show ?thesis using runs_mono [OF IH Q] by (simp add: Some)
  next
    case None
    define prev where "prev = (if pre = [] then None else last pre)"
    define differs where "differs \<longleftrightarrow> prev = None \<or> \<not> strcasecmp_eq (snd (the prev)) line"
    have *: "runs (lay_cli ob v + R) (if length pre = 0 then ret True else bindE (read_text (map_option fst prev)) (\<lambda>t. ret (\<not> strcasecmp_eq t line)))
      (\<lambda>x N. x = differs \<and> N = lay_cli ob v + R)"
    proof (cases "pre = []")
      case False
      with Cons(3) obtain y where y: "last pre = Some y" using last_in_set by (metis not_None_eq)
      with False have "Some y \<in> set (v_history v)" using Cons(2) last_in_set by fastforce
      then have "(fst y, Text (snd y)) \<in># lay_cli ob v + R" by (auto simp: lay_cli_def lay_rest_def dest: lay_texts_mem)
      with False y show ?thesis
        by (auto simp: prev_def differs_def intro!: read_text_then [where a = "fst y" and t = "snd y"] runs_ret)
    qed (auto simp: prev_def differs_def intro: runs_ret)
    have free: "history_free (map_option snd prev) (None # map (map_option snd) hs) line
        = Some (if differs then Some line # map (map_option snd) hs else None # map (map_option snd) hs)"
      by (cases prev) (auto simp: differs_def)
    let ?K = "lay_rest (v\<lparr>v_history := []\<rparr>) + R"
    have put: "runs (add_mset (a, Text line) (lay_cli ob v + R)) (upd_obj ob (\<lambda>d. d\<lparr>o_history := (o_history d)[length pre := Some a]\<rparr>))
        (\<lambda>_ N. N = lay_cli ob (v\<lparr>v_history := pre @ Some (a, line) # hs\<rparr>) + R)" for a
    proof -
      have v: "lay_cli ob v + R = add_mset (ob, Object (object_of v)) (lay_texts (v_history v) + ?K)"
        using history_split [of ob "v_history v" v R] by (simp add: object_of_def)
      show ?thesis unfolding v history_split
        by (rule upd_obj_last [where n = "object_of v" and N = "add_mset (a, Text line) (lay_texts (v_history v) + ?K)"])
           (simp_all add: Cons(2) None lay_texts_append object_of_def add_mset_commute list_update_append)
    qed
    have "runs (lay_cli ob v + R) (if differs
        then bindE (strdup A line) (\<lambda>p. seqE (upd_obj ob (\<lambda>d. d\<lparr>o_history := (o_history d)[length pre := p]\<rparr>))
              (ret (Some (if p = None then CLI_ERROR else CLI_OK)))) else ret (Some CLI_OK))
       (\<lambda>r N. r \<noteq> None \<and> (\<exists>ws. map (map_option snd) ws = (if differs then Some line # map (map_option snd) hs else None # map (map_option snd) hs)
          \<and> N = lay_cli ob (v\<lparr>v_history := pre @ ws\<rparr>) + R))"
    proof (cases differs)
      case True
      then show ?thesis
        by (simp, intro strdup_then [OF assms(1)], simp, intro runs_seq [OF put])
           (fastforce intro: runs_ret exI [of _ "Some (a, line) # hs" for a])
    next
      case False
      have "v\<lparr>v_history := pre @ None # hs\<rparr> = v" using Cons(2) None by (cases v) simp
      with False show ?thesis by (auto intro!: runs_ret exI [of _ "None # hs"])
    qed
    then have "runs (lay_cli ob v + R) (bindE (if length pre = 0 then ret True else bindE (read_text (map_option fst prev)) (\<lambda>t. ret (\<not> strcasecmp_eq t line)))
       (\<lambda>differs. if differs
        then bindE (strdup A line) (\<lambda>p. seqE (upd_obj ob (\<lambda>d. d\<lparr>o_history := (o_history d)[length pre := p]\<rparr>))
              (ret (Some (if p = None then CLI_ERROR else CLI_OK)))) else ret (Some CLI_OK)))
       (\<lambda>r N. r \<noteq> None \<and> (\<exists>ws. map (map_option snd) ws = (if differs then Some line # map (map_option snd) hs else None # map (map_option snd) hs)
          \<and> N = lay_cli ob (v\<lparr>v_history := pre @ ws\<rparr>) + R))"
      by (intro runs_bind [OF *]) blast
    then show ?thesis
      using free by (cases "pre = []") (simp_all add: None prev_def)
  qed
qed

lemma mem_add_history_runs:
  assumes "malloc_ok A" and "v_history v \<noteq> []"
  shows "runs (lay_cli ob v + R) (mem_add_history A ob line)
    (\<lambda>_ N. \<exists>ws. map (map_option snd) ws = add_history line (map (map_option snd) (v_history v)) \<and> N = lay_cli ob (v\<lparr>v_history := ws\<rparr>) + R)"
    (is "runs ?M _ ?Q")
proof -
  let ?hs = "map (map_option snd) (v_history v)"
  have slot: "runs ?M (history_slot A ob line 0 None (o_history (object_of v)))
    (\<lambda>r N. case history_free None ?hs line of
        None \<Rightarrow> r = None \<and> N = ?M
      | Some hs' \<Rightarrow> r \<noteq> None \<and> (\<exists>ws. map (map_option snd) ws = hs' \<and> N = lay_cli ob (v\<lparr>v_history := ws\<rparr>) + R))"
    using history_slot_runs [OF assms(1), of v "[]" "v_history v" ob R line] by (simp add: object_of_def cong: option.case_cong)
  have rest: "runs N (case r of Some x \<Rightarrow> ret x
       | None \<Rightarrow> seqE (mem_free (hd (o_history (object_of v))))
          (bindE (strdup A line) (\<lambda>p. seqE (upd_obj ob (\<lambda>d. d\<lparr>o_history := tl (o_history d) @ [p]\<rparr>))
            (ret (if p = None then CLI_ERROR else CLI_OK))))) ?Q"
    if "case history_free None ?hs line of
        None \<Rightarrow> r = None \<and> N = ?M
      | Some hs' \<Rightarrow> r \<noteq> None \<and> (\<exists>ws. map (map_option snd) ws = hs' \<and> N = lay_cli ob (v\<lparr>v_history := ws\<rparr>) + R)" for r N
  proof (cases "history_free None ?hs line")
    case (Some hs')
    with that show ?thesis by (auto simp: add_history_def intro!: runs_ret)
  next
    case None
    obtain x xs where v: "v_history v = x # xs" using assms(2) by (cases "v_history v") auto
    let ?K = "lay_texts xs + (lay_rest (v\<lparr>v_history := []\<rparr>) + R)"
    have M: "?M = lay_text x + add_mset (ob, Object (object_of v)) ?K"
      using history_split [of ob "v_history v" v R] by (simp add: object_of_def) (simp add: v)
    have hd: "hd (o_history (object_of v)) = map_option fst x" by (simp add: object_of_def v)
    have put: "runs (add_mset (a, Text line) (add_mset (ob, Object (object_of v)) ?K))
       (seqE (upd_obj ob (\<lambda>d. d\<lparr>o_history := tl (o_history d) @ [Some a]\<rparr>)) (ret CLI_OK)) ?Q" for a
    proof (rule upd_obj_then [where n = "object_of v" and N = "add_mset (a, Text line) ?K"])
      have "lay_cli ob (v\<lparr>v_history := xs @ [Some (a, line)]\<rparr>) + R =
          add_mset (ob, Object (object_of v\<lparr>o_history := tl (o_history (object_of v)) @ [Some a]\<rparr>)) (add_mset (a, Text line) ?K)"
        by (simp add: history_split lay_texts_append object_of_def v add_mset_commute)
      moreover have "map (map_option snd) (xs @ [Some (a, line)]) = add_history line ?hs" using None by (simp add: add_history_def v)
      ultimately show "runs (add_mset (ob, Object (object_of v\<lparr>o_history := tl (o_history (object_of v)) @ [Some a]\<rparr>)) (add_mset (a, Text line) ?K)) (ret CLI_OK) ?Q"
        by (intro runs_ret) metis
    qed (simp add: add_mset_commute)
    have "runs ?M (seqE (mem_free (hd (o_history (object_of v))))
          (bindE (strdup A line) (\<lambda>p. seqE (upd_obj ob (\<lambda>d. d\<lparr>o_history := tl (o_history d) @ [p]\<rparr>))
            (ret (if p = None then CLI_ERROR else CLI_OK))))) ?Q"
      unfolding hd by (rule free_text_then [OF M], rule strdup_then [OF assms(1)]) (simp add: put)
    with that None show ?thesis by simp
  qed
  show ?thesis unfolding mem_add_history_def
    by (rule read_obj_then [where n = "object_of v"], simp add: lay_cli_def) (rule runs_bind [OF slot rest])
qed

section \<open>The print buffer\<close>

lemma buffer_split:
  "lay_cli ob (v\<lparr>v_buffer := (b, t), v_buf_size := n\<rparr>) + R =
    add_mset (ob, Object (object_of v\<lparr>o_buffer := Some b, o_buf_size := n\<rparr>))
      (add_mset (b, Text t) (lay_rest v - {#(fst (v_buffer v), Text (snd (v_buffer v)))#} + R))"
  by (simp add: lay_cli_def lay_rest_def object_of_def)

lemma write_buffer:
  "runs (lay_cli ob (v\<lparr>v_buffer := (b, t), v_buf_size := n\<rparr>) + R) (mem_write b (Text u))
    (\<lambda>_ N. N = lay_cli ob (v\<lparr>v_buffer := (b, u), v_buf_size := n\<rparr>) + R)"
  using runs_mem_write [where a = b and b = "Text t" and c = "Text u" and M = "add_mset (ob, Object (object_of v\<lparr>o_buffer := Some b, o_buf_size := n\<rparr>))
    (lay_rest v - {#(fst (v_buffer v), Text (snd (v_buffer v)))#} + R)"]
  unfolding buffer_split by (simp add: add_mset_commute)

lemma print_fill_once:
  assumes "length line < n"
  shows "runs (lay_cli ob (v\<lparr>v_buffer := (b, t), v_buf_size := n\<rparr>) + R) (print_fill A (Suc k) ob line)
    (\<lambda>filled N. filled \<and> N = lay_cli ob (v\<lparr>v_buffer := (b, line), v_buf_size := n\<rparr>) + R)"
  unfolding print_fill.simps
  by (rule read_obj_then [where n = "object_of (v\<lparr>v_buffer := (b, t), v_buf_size := n\<rparr>)"], simp add: lay_cli_def)
     (use assms in \<open>auto simp: object_of_def intro!: runs_seq [OF write_buffer] runs_ret\<close>)

lemma print_fill_runs:
  assumes "malloc_ok A"
  shows "runs (lay_cli ob v + R) (print_fill A (Suc (Suc k)) ob line)
    (\<lambda>filled N. filled \<and> (\<exists>b n. N = lay_cli ob (v\<lparr>v_buffer := (b, line), v_buf_size := n\<rparr>) + R))"
    (is "runs _ _ ?Q")
proof -
  obtain b t where b: "v_buffer v = (b, t)" by (cases "v_buffer v")
  define n where "n = v_buf_size v"
  let ?v = "\<lambda>b t n. v\<lparr>v_buffer := (b, t), v_buf_size := n\<rparr>"
  have v: "v = ?v b t n" by (simp add: b [symmetric] n_def)
  show ?thesis
  proof (cases "length line < n")
    case True
    then have "runs (lay_cli ob (?v b t n) + R) (print_fill A (Suc (Suc k)) ob line) ?Q"
      by (intro runs_mono [OF print_fill_once]) auto
    with v show ?thesis by simp
  next
    case False
    let ?n = "length line + 1" and ?u = "take (n - Suc 0) line"
    let ?K = "lay_rest v - {#(fst (v_buffer v), Text (snd (v_buffer v)))#} + R"
    let ?d = "object_of v\<lparr>o_buffer := Some b, o_buf_size := ?n\<rparr>"
    have again: "runs (add_mset (c, Text ?u) (add_mset (ob, Object ?d) ?K))
          (seqE (upd_obj ob (\<lambda>d. d\<lparr>o_buffer := Some c\<rparr>)) (print_fill A (Suc k) ob line)) ?Q" for c
    proof (rule upd_obj_then [where N = "add_mset (c, Text ?u) ?K" and n = ?d], simp add: add_mset_commute)
      have "runs (lay_cli ob (?v c ?u ?n) + R) (print_fill A (Suc k) ob line) ?Q"
        by (rule runs_mono [OF print_fill_once]) auto
      moreover have "?d\<lparr>o_buffer := Some c\<rparr> = object_of v\<lparr>o_buffer := Some c, o_buf_size := ?n\<rparr>" by simp
      ultimately show "runs (add_mset (ob, Object (?d\<lparr>o_buffer := Some c\<rparr>)) (add_mset (c, Text ?u) ?K)) (print_fill A (Suc k) ob line) ?Q"
        unfolding buffer_split by (simp only:)
    qed
    have "runs (add_mset (b, Text ?u) (add_mset (ob, Object ?d) ?K))
        (bindE (mem_realloc A b) (\<lambda>p. seqE (upd_obj ob (\<lambda>d. d\<lparr>o_buffer := p\<rparr>))
           (if p = None then ret False else print_fill A (Suc k) ob line))) ?Q"
      by (rule runs_bind [OF runs_mem_realloc [OF assms]]) (use again in auto)
    then have "runs (lay_cli ob (?v b ?u n) + R)
      (seqE (upd_obj ob (\<lambda>d. d\<lparr>o_buf_size := ?n\<rparr>))
        (bindE (mem_realloc A b) (\<lambda>p. seqE (upd_obj ob (\<lambda>d. d\<lparr>o_buffer := p\<rparr>))
           (if p = None then ret False else print_fill A (Suc k) ob line)))) ?Q"
      by (subst buffer_split, intro upd_obj_then [OF refl]) (simp add: add_mset_commute)
    then have "runs (lay_cli ob (?v b t n) + R) (seqE (mem_write b (Text ?u))
       (seqE (upd_obj ob (\<lambda>d. d\<lparr>o_buf_size := ?n\<rparr>))
        (bindE (mem_realloc A b) (\<lambda>p. seqE (upd_obj ob (\<lambda>d. d\<lparr>o_buffer := p\<rparr>))
           (if p = None then ret False else print_fill A (Suc k) ob line))))) ?Q"
      by (intro runs_seq [OF write_buffer]) simp
    then have "runs (lay_cli ob (?v b t n) + R) (print_fill A (Suc (Suc k)) ob line) ?Q"
      using False unfolding print_fill.simps(2) [of A "Suc k"]
      by (intro read_obj_then [where n = "object_of (?v b t n)"]) (simp add: lay_cli_def, simp add: object_of_def)
    with v show ?thesis by simp
  qed
qed

lemma mem_print_runs:
  assumes "malloc_ok A"
  shows "runs (lay_cli ob v + R) (mem_print A ob buffered line)
    (\<lambda>_ N. \<exists>b n. N = lay_cli ob (v\<lparr>v_buffer := (b, print_rest buffered line), v_buf_size := n\<rparr>) + R)"
  unfolding mem_print_def
proof (rule runs_bind, rule runs_bounded, rule print_fill_runs [OF assms], clarsimp)
  fix b n
  show "runs (lay_cli ob (v\<lparr>v_buffer := (b, line), v_buf_size := n\<rparr>) + R)
     (bindE (read_obj ob) (\<lambda>d. case o_buffer d of None \<Rightarrow> throw (Undefined ''null pointer'')
           | Some b \<Rightarrow> mem_write b (Text (print_rest buffered line))))
     (\<lambda>_ N. \<exists>b n. N = lay_cli ob (v\<lparr>v_buffer := (b, print_rest buffered line), v_buf_size := n\<rparr>) + R)"
    by (rule read_obj_then [where n = "object_of (v\<lparr>v_buffer := (b, line), v_buf_size := n\<rparr>)"], simp add: lay_cli_def)
       (auto simp: object_of_def intro!: runs_mono [OF write_buffer])
qed

section \<open>Requests\<close>

lemma mem_request_runs:
  assumes "malloc_ok A"
  shows "runs (lay_cli ob v + R) (mem_request A ob callback prompt)
    (\<lambda>r N. if v_request v \<noteq> None \<or> \<not> callback then r = CLI_ERROR \<and> N = lay_cli ob v + R
       else r = CLI_OK \<and> (\<exists>a. N = lay_cli ob (v\<lparr>v_request := Some (a, take 1023 prompt)\<rparr>) + R))"
    (is "runs _ _ ?Q")
proof (cases "v_request v \<noteq> None \<or> \<not> callback")
  case True
  then show ?thesis unfolding mem_request_def
    by (intro read_obj_then [where n = "object_of v"]) (auto simp: lay_cli_def object_of_def intro!: runs_ret)
next
  case False
  then have none: "v_request v = None" by (cases "v_request v") auto
  let ?K = "lay_rest v + R" and ?d = "object_of v\<lparr>o_requesting := True\<rparr>"
  have "runs (add_mset (a, Text (take 1023 prompt)) (add_mset (ob, Object ?d) ?K))
      (seqE (upd_obj ob (\<lambda>d. d\<lparr>o_request_prompt := Some a\<rparr>)) (ret CLI_OK)) ?Q" for a
    by (rule upd_obj_then [where n = ?d and N = "add_mset (a, Text (take 1023 prompt)) ?K"], simp add: add_mset_commute)
       (use False in \<open>auto simp: none lay_cli_def lay_rest_def object_of_def intro!: runs_ret exI [of _ a]\<close>)
  then have "runs (add_mset (ob, Object (object_of v)) ?K)
     (seqE (upd_obj ob (\<lambda>d. d\<lparr>o_requesting := True\<rparr>))
         (bindE (strdup A (take 1023 prompt)) (\<lambda>p. seqE (upd_obj ob (\<lambda>d. d\<lparr>o_request_prompt := p\<rparr>))
           (if p = None then throw (Undefined ''null pointer'') else ret CLI_OK)))) ?Q"
    by (intro upd_obj_then [OF refl] strdup_then [OF assms]) simp
  with False show ?thesis unfolding mem_request_def
    by (intro read_obj_then [where n = "object_of v"]) (auto simp: lay_cli_def object_of_def)
qed

lemma mem_end_request_runs:
  "runs (lay_cli ob v + R) (mem_end_request ob) (\<lambda>_ N. N = lay_cli ob (v\<lparr>v_request := None\<rparr>) + R)"
proof -
  let ?d = "object_of v\<lparr>o_requesting := False\<rparr>" and ?K = "lay_rest (v\<lparr>v_request := None\<rparr>) + R"
  have split: "lay_rest v = lay_text (v_request v) + lay_rest (v\<lparr>v_request := None\<rparr>)" by (simp add: lay_rest_def ac_simps)
  have "runs (add_mset (ob, Object ?d) (lay_text (v_request v) + ?K)) (free_z o_request_prompt o_request_prompt_update ob)
      (\<lambda>_ N. N = lay_cli ob (v\<lparr>v_request := None\<rparr>) + R)"
    unfolding free_z_def
    by (rule read_obj_then [where n = ?d], simp)
       (auto simp: object_of_def lay_cli_def intro!: free_text_then [where x = "v_request v" and N = "add_mset (ob, Object ?d) ?K"]
         upd_obj_last [where n = ?d])
  then show ?thesis unfolding mem_end_request_def lay_cli_def split
    by (intro upd_obj_then [where n = "object_of v"]) (simp_all add: ac_simps)
qed

end
