(* ===== verification/CliSession.thy ===== *)
theory CliSession
  imports CliPrefix CliHistory CliLoop
begin

text \<open>
  A client of the library on the store and on the library's values: the same calls on both, with pointers to commands here and
  places in the tree there. What the store does implements what the theories on the library say of its values.
\<close>

section \<open>Calls\<close>

text \<open>A client keeps the pointers to the commands it has registered and names them by their number.\<close>

datatype mem_op =
    Register "nat option" string "handler option" int int "string option"
  | Unregister string
  | AllowUser string string
  | DenyUser string
  | AllowEnable string
  | SetBanner string
  | SetHostname string
  | SetPromptchar string
  | SetModestring "string option"
  | SetPrivilege int
  | SetConfigmode int "string option"
  | AddHistory string
  | FreeHistory
  | CommandName nat
  | Print bool string
  | Request bool string
  | EndRequest

fun op_ok :: "nat \<Rightarrow> mem_op \<Rightarrow> bool" where
  "op_ok n (Register (Some i) _ _ _ _ _) = (i < n)"
| "op_ok n (CommandName i) = (i < n)"
| "op_ok n _ = True"

text \<open>The calls on the store. The pointers are worthless once commands have been freed.\<close>

fun mem_step :: "malloc \<Rightarrow> nat \<Rightarrow> nat list \<Rightarrow> mem_op \<Rightarrow> nat list mprog" where
  "mem_step A ob cs (Register i name h priv mode hlp) =
     bindE (mem_register_command A ob (map_option (\<lambda>i. cs ! i) i) name h priv mode hlp) (\<lambda>p.
       ret (case p of None \<Rightarrow> cs | Some c \<Rightarrow> cs @ [c]))"
| "mem_step A ob cs (Unregister name) = seqE (mem_unregister_command ob name) (ret [])"
| "mem_step A ob cs (AllowUser n p) = seqE (mem_allow_user A ob n p) (ret cs)"
| "mem_step A ob cs (DenyUser n) = seqE (mem_deny_user ob n) (ret cs)"
| "mem_step A ob cs (AllowEnable p) = seqE (mem_allow_enable A ob p) (ret cs)"
| "mem_step A ob cs (SetBanner t) = seqE (mem_set_banner A ob t) (ret cs)"
| "mem_step A ob cs (SetHostname t) = seqE (mem_set_hostname A ob t) (ret cs)"
| "mem_step A ob cs (SetPromptchar t) = seqE (mem_set_promptchar A ob t) (ret cs)"
| "mem_step A ob cs (SetModestring m) = seqE (mem_set_modestring A ob m) (ret cs)"
| "mem_step A ob cs (SetPrivilege p) = seqE (mem_set_privilege A ob p) (ret cs)"
| "mem_step A ob cs (SetConfigmode m d) = seqE (mem_set_configmode A ob m d) (ret cs)"
| "mem_step A ob cs (AddHistory l) = seqE (mem_add_history A ob l) (ret cs)"
| "mem_step A ob cs FreeHistory = seqE (mem_free_history ob) (ret cs)"
| "mem_step A ob cs (CommandName i) = seqE (mem_command_name A ob (cs ! i)) (ret cs)"
| "mem_step A ob cs (Print b t) = seqE (mem_print A ob b t) (ret cs)"
| "mem_step A ob cs (Request b t) = seqE (mem_request A ob b t) (ret cs)"
| "mem_step A ob cs EndRequest = seqE (mem_end_request ob) (ret cs)"

text \<open>A call with a number that names no command is not made.\<close>

fun mem_run :: "malloc \<Rightarrow> nat \<Rightarrow> nat list \<Rightarrow> mem_op list \<Rightarrow> nat list mprog" where
  "mem_run A ob cs [] = ret cs"
| "mem_run A ob cs (x # xs) = bindE (if op_ok (length cs) x then mem_step A ob cs x else ret cs) (\<lambda>cs. mem_run A ob cs xs)"

text \<open>The same calls on the values.\<close>

fun spec_step :: "nat list list \<Rightarrow> mem_op \<Rightarrow> ('w, nat list list) cliprog" where
  "spec_step ps (Register i name h priv mode hlp) =
     bindE (cli_register_command (case i of None \<Rightarrow> [] | Some i \<Rightarrow> ps ! i) name h priv mode hlp) (\<lambda>p. ret (ps @ [p]))"
| "spec_step ps (Unregister name) = seqE (cli_unregister_command name) (ret [])"
| "spec_step ps (AllowUser n p) = seqE (cli_allow_user n p) (ret ps)"
| "spec_step ps (DenyUser n) = seqE (cli_deny_user n) (ret ps)"
| "spec_step ps (AllowEnable p) = seqE (cli_allow_enable p) (ret ps)"
| "spec_step ps (SetBanner t) = seqE (cli_set_banner t) (ret ps)"
| "spec_step ps (SetHostname t) = seqE (cli_set_hostname t) (ret ps)"
| "spec_step ps (SetPromptchar t) = seqE (cli_set_promptchar t) (ret ps)"
| "spec_step ps (SetModestring m) = seqE (cli_set_modestring m) (ret ps)"
| "spec_step ps (SetPrivilege p) = seqE (cli_set_privilege p) (ret ps)"
| "spec_step ps (SetConfigmode m d) = seqE (cli_set_configmode m d) (ret ps)"
| "spec_step ps (AddHistory l) = seqE (cli_add_history l) (ret ps)"
| "spec_step ps FreeHistory = seqE cli_free_history (ret ps)"
| "spec_step ps (CommandName i) = ret ps"
| "spec_step ps (Print b t) = ret ps"
| "spec_step ps (Request b t) = seqE (cli_request (if b then Some [] else None) None None t) (ret ps)"
| "spec_step ps EndRequest =
     seqE (upd_cli (\<lambda>c. c\<lparr>cl_state := cl_request_prior_state c, cl_request_prior_state := STATE_LOGIN, cl_request_prompt := None\<rparr>)) (ret ps)"

fun spec_run :: "nat list list \<Rightarrow> mem_op list \<Rightarrow> ('w, nat list list) cliprog" where
  "spec_run ps [] = ret ps"
| "spec_run ps (x # xs) = bindE (if op_ok (length ps) x then spec_step ps x else ret ps) (\<lambda>ps. spec_run ps xs)"

section \<open>The relation between them\<close>

definition text_of :: "(nat \<times> string) option \<Rightarrow> string" where
  "text_of x = (case x of None \<Rightarrow> [] | Some (a, t) \<Rightarrow> t)"

definition stands_for :: "cview \<Rightarrow> cli_def \<Rightarrow> bool" where
  "stands_for v c \<longleftrightarrow>
     map command_of (v_tree v) = cl_commands c \<and> map user_of (v_users v) = cl_users c
   \<and> map (map_option snd) (v_history v) = cl_history c \<and> length (cl_history c) = MAX_HISTORY
   \<and> map_option snd (v_banner v) = cl_banner c \<and> map_option snd (v_enable v) = cl_enable_password c
   \<and> text_of (v_prompt v) = cl_promptchar c \<and> map_option snd (v_hostname v) = cl_hostname c
   \<and> map_option snd (v_modestring v) = cl_modestring c \<and> map_option snd (v_request v) = cl_request_prompt c
   \<and> v_privilege v = cl_privilege c \<and> v_mode v = cl_mode c
   \<and> (cl_state c = STATE_REQUEST \<longleftrightarrow> v_request v \<noteq> None) \<and> cl_request_prior_state c \<noteq> STATE_REQUEST"

text \<open>The pointers of the client and its places name the same commands.\<close>

definition linked :: "ctree list \<Rightarrow> nat list \<Rightarrow> nat list list \<Rightarrow> bool" where
  "linked ts cs ps \<longleftrightarrow> list_all2 (\<lambda>c p. find_path c 0 ts = Some p) cs ps"

definition matches :: "heap \<Rightarrow> nat \<Rightarrow> heap \<Rightarrow> nat list \<Rightarrow> nat list list \<Rightarrow> cli_def \<Rightarrow> bool" where
  "matches M ob R cs ps c \<longleftrightarrow> (\<exists>v. M = lay_cli ob v + R \<and> stands_for v c \<and> linked (v_tree v) cs ps)"

section \<open>Places after a change of the tree\<close>

lemma find_path_shortest: "find_path q i (shortest_tree s cs j ts) = find_path q i ts"
proof (induction q i ts arbitrary: cs j rule: find_path.induct)
  case (2 q i a nm hp nd ks ts)
  have "find_path q 0 (shortest_tree s (map command_of ks) 0 ks) = find_path q 0 ks" if "a \<noteq> q"
    using 2(1) [OF that] .
  with 2(2) show ?case by (auto split: option.split)
qed simp

lemma find_path_append: "find_path q i (ts @ us) = (case find_path q i ts of Some p \<Rightarrow> Some p | None \<Rightarrow> find_path q (i + length ts) us)"
  by (induction q i ts rule: find_path.induct) (auto split: option.split)

lemma find_path_single [simp]: "t_kids c = [] \<Longrightarrow> find_path q i [c] = (if t_at c = q then Some [i] else None)"
  by (cases c) simp

lemma find_path_at_node:
  assumes "q \<noteq> t_at c" and "t_kids c = []"
  shows "find_path q i (at_node r (add_kid c) ts) = find_path q i ts"
proof (induction ts arbitrary: i rule: addresses.induct)
  case (2 a nm hp nd ks ts)
  then show ?case using assms by (auto simp: find_path_append split: option.split)
qed simp

lemma find_path_new:
  assumes "t_kids c = []"
  shows "find_path r i ts = Some (j # p) \<Longrightarrow> t_at c \<notin> set (addresses ts) \<Longrightarrow> distinct (addresses ts) \<Longrightarrow>
    find_path (t_at c) i (at_node r (add_kid c) ts) = Some (j # p @ [length (siblings ((j - i) # p) (map command_of ts))])"
proof (induction ts arbitrary: i j p rule: addresses.induct)
  case (2 a nm hp nd ks ts)
  have none: "find_path (t_at c) k ks = None" for k using 2(4) find_path_found [of "t_at c" ks k] by auto
  consider (here) "a = r" | (below) p' where "a \<noteq> r" "find_path r 0 ks = Some p'" | (behind) "a \<noteq> r" "find_path r 0 ks = None"
    by (cases "find_path r 0 ks") auto
  then show ?case
  proof cases
    case here
    with 2(3,4) assms none show ?thesis by (auto simp: find_path_append)
  next
    case below
    from find_path_less [OF below(2)] obtain j' q where p': "p' = j' # q" by auto
    with below 2(3) have jp: "j = i" "p = j' # q" by auto
    have "find_path (t_at c) 0 (at_node r (add_kid c) ks) = Some (j' # q @ [length (siblings (j' # q) (map command_of ks))])"
      using 2(1) [of 0 j' q] below p' 2(4,5) by simp
    with below 2(4) jp show ?thesis by simp
  next
    case behind
    from find_path_found [of r ks 0] behind have out: "r \<notin> set (addresses ks)" by auto
    from 2(3) behind have f: "find_path r (Suc i) ts = Some (j # p)" by simp
    with find_path_less [OF f] obtain m where m: "j - i = Suc m" "j - Suc i = m" by auto
    with 2(2) [OF f] 2(4,5) behind out none show ?thesis by simp
  qed
qed simp

lemma linked_grow:
  assumes "linked ts cs ps" and "t_kids c = []" and "t_at c \<notin> set (addresses ts)" and "distinct (addresses ts)"
    and "set_option parent \<subseteq> set (addresses ts)"
  shows "linked (grow parent c ts) (cs @ [t_at c]) (ps @ [place parent ts @ [length (siblings (place parent ts) (map command_of ts))]])"
proof -
  have old: "find_path q 0 (grow parent c ts) = Some p" if "find_path q 0 ts = Some p" for q p
  proof -
    from that assms(3) find_path_found [of q ts 0] have "q \<noteq> t_at c" by auto
    with that assms(2) show ?thesis by (cases parent) (simp_all add: grow_def find_path_at_node find_path_append)
  qed
  have new: "find_path (t_at c) 0 (grow parent c ts) = Some (place parent ts @ [length (siblings (place parent ts) (map command_of ts))])"
  proof (cases parent)
    case None
    have "find_path (t_at c) 0 ts = None" using assms(3) find_path_found [of "t_at c" ts 0] by auto
    with None assms(2) show ?thesis by (simp add: grow_def place_def find_path_append)
  next
    case (Some r)
    with assms(5) find_path_found [of r ts 0] obtain q where q: "find_path r 0 ts = Some q" by auto
    with find_path_less [OF q] obtain j p where "q = j # p" by auto
    with find_path_new [OF assms(2), of r 0 ts j p] q assms(3,4) Some show ?thesis by (simp add: grow_def place_def)
  qed
  from assms(1) have "list_all2 (\<lambda>c p. find_path c 0 ts = Some p) cs ps" by (simp add: linked_def)
  then have "list_all2 (\<lambda>q p. find_path q 0 (grow parent c ts) = Some p) cs ps" by (rule list_all2_mono) (rule old)
  with new show ?thesis by (simp add: linked_def list_all2_appendI)
qed

lemma linked_shortest [simp]: "linked (shortest_tree s ds j ts) cs ps = linked ts cs ps"
  by (simp add: linked_def find_path_shortest)

lemma linked_Nil [simp]: "linked ts [] []"
  by (simp add: linked_def)

lemma linked_nth: "linked ts cs ps \<Longrightarrow> i < length cs \<Longrightarrow> cs ! i \<in> set (addresses ts) \<and> place (Some (cs ! i)) ts = ps ! i"
  by (auto simp: linked_def place_def list_all2_conv_all_nth find_path_found [of _ ts 0])

section \<open>One call\<close>

text \<open>What a call does on the store, for a session that stands for \<open>c\<close>.\<close>

definition implements :: "malloc \<Rightarrow> mem_op \<Rightarrow> 'w sess \<Rightarrow> nat list list \<Rightarrow> bool" where
  "implements A x ss ps \<longleftrightarrow> (\<forall>ob R cs M. matches M ob R cs ps (cli ss) \<longrightarrow> op_ok (length cs) x \<longrightarrow>
     (\<exists>ps' ss'. spec_step ps x ss = (Inr ps', ss') \<and> runs M (mem_step A ob cs x) (\<lambda>cs' N. matches N ob R cs' ps' (cli ss'))))"

lemmas spec_simps = upd_cli_def seqE_def bindE_def cli_allow_user_def cli_deny_user_def cli_allow_enable_def cli_set_banner_def
  cli_set_hostname_def cli_set_promptchar_def cli_set_modestring_def cli_add_history_def cli_free_history_def opt_text_def
  cli_unregister_command_def cli_register_command_def clif_def

lemma implementsI:
  assumes "\<And>ob R cs v. stands_for v (cli ss) \<Longrightarrow> linked (v_tree v) cs ps \<Longrightarrow> op_ok (length cs) x \<Longrightarrow>
     \<exists>ps' ss'. spec_step ps x ss = (Inr ps', ss') \<and> runs (lay_cli ob v + R) (mem_step A ob cs x) (\<lambda>cs' N. matches N ob R cs' ps' (cli ss'))"
  shows "implements A x ss ps"
  unfolding implements_def
proof (intro allI impI)
  fix ob R cs M
  assume "matches M ob R cs ps (cli ss)" and ok: "op_ok (length cs) x"
  then obtain v where "M = lay_cli ob v + R" "stands_for v (cli ss)" "linked (v_tree v) cs ps" by (auto simp: matches_def)
  with assms ok show "\<exists>ps' ss'. spec_step ps x ss = (Inr ps', ss') \<and> runs M (mem_step A ob cs x) (\<lambda>cs' N. matches N ob R cs' ps' (cli ss'))"
    by blast
qed

text \<open>A call that leaves the pointers alone.\<close>

lemma implements_keep:
  assumes "\<And>ob v R. stands_for v (cli ss) \<Longrightarrow> runs (lay_cli ob v + R) (m ob)
      (\<lambda>_ N. \<exists>v'. N = lay_cli ob v' + R \<and> (\<forall>cs. linked (v_tree v) cs ps \<longrightarrow> linked (v_tree v') cs ps) \<and> stands_for v' (cli ss'))"
    and "\<And>ob cs. mem_step A ob cs x = seqE (m ob) (ret cs)" and "spec_step ps x ss = (Inr ps, ss')"
  shows "implements A x ss ps"
proof (rule implementsI, unfold assms(2,3))
  fix ob R cs v
  assume v: "stands_for v (cli ss)" "linked (v_tree v) cs ps"
  have "runs (lay_cli ob v + R) (seqE (m ob) (ret cs)) (\<lambda>cs' N. matches N ob R cs' ps (cli ss'))"
    by (rule runs_seq [OF assms(1) [OF v(1)]]) (use v(2) in \<open>auto simp: matches_def intro!: runs_ret\<close>)
  then show "\<exists>ps' ss'a. (Inr ps, ss') = (Inr ps', ss'a) \<and> runs (lay_cli ob v + R) (seqE (m ob) (ret cs)) (\<lambda>cs' N. matches N ob R cs' ps' (cli ss'a))"
    by blast
qed

lemma implements_det:
  assumes "\<And>ob v R. runs (lay_cli ob v + R) (m ob) (\<lambda>_ N. N = lay_cli ob (f v) + R)" and "\<And>v. v_tree (f v) = v_tree v"
    and "\<And>v. stands_for v (cli ss) \<Longrightarrow> stands_for (f v) (cli ss')"
    and "\<And>ob cs. mem_step A ob cs x = seqE (m ob) (ret cs)" and "spec_step ps x ss = (Inr ps, ss')"
  shows "implements A x ss ps"
proof (rule implements_keep [OF _ assms(4,5)])
  fix ob v R
  assume "stands_for v (cli ss)"
  with assms(2,3) show "runs (lay_cli ob v + R) (m ob)
      (\<lambda>_ N. \<exists>v'. N = lay_cli ob v' + R \<and> (\<forall>cs. linked (v_tree v) cs ps \<longrightarrow> linked (v_tree v') cs ps) \<and> stands_for v' (cli ss'))"
    by (intro runs_mono [OF assms(1)]) (metis (no_types))
qed

text \<open>The calls that change one text.\<close>

lemma implements_texts:
  fixes ss :: "'w sess"
  assumes "malloc_ok A"
  shows "implements A (AllowEnable t) ss ps" "implements A (SetBanner t) ss ps" "implements A (SetHostname t) ss ps"
    "implements A (SetPromptchar t) ss ps" "implements A (SetModestring m) ss ps"
proof -
  note texts = stands_for_def text_of_def spec_simps mem_allow_enable_def mem_set_promptchar_def mem_set_banner_def mem_set_hostname_def
  show "implements A (AllowEnable t) ss ps"
    by (rule implements_keep [where m = "\<lambda>ob. mem_allow_enable A ob t" and ss' = "ss\<lparr>cli := (cli ss)\<lparr>cl_enable_password := Some t\<rparr>\<rparr>"])
       (auto simp: texts intro!: runs_mono [OF enable.set_runs [OF assms, unfolded texts]])
  show "implements A (SetBanner t) ss ps"
    by (rule implements_keep [where m = "\<lambda>ob. mem_set_banner A ob t" and ss' = "ss\<lparr>cli := (cli ss)\<lparr>cl_banner := opt_text t\<rparr>\<rparr>"])
       (auto simp: texts intro!: runs_mono [OF banner.set_opt_runs [OF assms, unfolded texts]])
  show "implements A (SetHostname t) ss ps"
    by (rule implements_keep [where m = "\<lambda>ob. mem_set_hostname A ob t" and ss' = "ss\<lparr>cli := (cli ss)\<lparr>cl_hostname := opt_text t\<rparr>\<rparr>"])
       (auto simp: texts intro!: runs_mono [OF hostname.set_opt_runs [OF assms, unfolded texts]])
  show "implements A (SetPromptchar t) ss ps"
    by (rule implements_keep [where m = "\<lambda>ob. mem_set_promptchar A ob t" and ss' = "ss\<lparr>cli := (cli ss)\<lparr>cl_promptchar := t\<rparr>\<rparr>"])
       (auto simp: texts intro!: runs_mono [OF promptchar.set_runs [OF assms, unfolded texts]])
  show "implements A (SetModestring m) ss ps"
    by (rule implements_keep [where m = "\<lambda>ob. mem_set_modestring A ob m" and ss' = "ss\<lparr>cli := (cli ss)\<lparr>cl_modestring := m\<rparr>\<rparr>"])
       (auto simp: texts intro!: runs_mono [OF mem_set_modestring_runs [OF assms, unfolded texts]])
qed

lemma implements_users:
  fixes ss :: "'w sess"
  assumes "malloc_ok A"
  shows "implements A (AllowUser n p) ss ps" "implements A (DenyUser n) ss ps"
proof -
  note users = stands_for_def text_of_def spec_simps user_of_def del_user_deny
  show "implements A (AllowUser n p) ss ps"
    by (rule implements_keep [where m = "\<lambda>ob. mem_allow_user A ob n p" and ss' = "ss\<lparr>cli := (cli ss)\<lparr>cl_users := cl_users (cli ss) @ [(n, p)]\<rparr>\<rparr>"])
       (auto simp: users intro!: runs_mono [OF mem_allow_user_runs [OF assms]])
  show "implements A (DenyUser n) ss ps"
    by (rule implements_keep [where m = "\<lambda>ob. mem_deny_user ob n" and ss' = "ss\<lparr>cli := (cli ss)\<lparr>cl_users := deny_user n (cl_users (cli ss))\<rparr>\<rparr>"])
       (auto simp: users intro!: runs_mono [OF mem_deny_user_runs])
qed

lemma length_history_free: "history_free prev hs line = Some hs' \<Longrightarrow> length hs' = length hs"
  by (induction prev hs line arbitrary: hs' rule: history_free.induct) (auto split: option.splits)

lemma length_add_history: "hs \<noteq> [] \<Longrightarrow> length (add_history line hs) = length hs"
  by (auto simp: add_history_def dest: length_history_free split: option.splits)

lemma implements_history:
  fixes ss :: "'w sess"
  assumes "malloc_ok A"
  shows "implements A (AddHistory l) ss ps" "implements A FreeHistory ss ps"
proof -
  note history = stands_for_def text_of_def spec_simps
  have len: "length hs = MAX_HISTORY \<Longrightarrow> hs \<noteq> []" for hs :: "'x list" by (auto simp: MAX_HISTORY_def)
  show "implements A (AddHistory l) ss ps"
  proof (rule implements_keep [where m = "\<lambda>ob. mem_add_history A ob l" and ss' = "ss\<lparr>cli := (cli ss)\<lparr>cl_history := add_history l (cl_history (cli ss))\<rparr>\<rparr>"])
    fix ob v R
    assume v: "stands_for v (cli ss)"
    then have ne: "v_history v \<noteq> []" using len [of "v_history v"] by (auto simp: stands_for_def dest: arg_cong [of _ _ length])
    show "runs (lay_cli ob v + R) (mem_add_history A ob l)
      (\<lambda>_ N. \<exists>v'. N = lay_cli ob v' + R \<and> (\<forall>cs. linked (v_tree v) cs ps \<longrightarrow> linked (v_tree v') cs ps)
         \<and> stands_for v' (cli (ss\<lparr>cli := (cli ss)\<lparr>cl_history := add_history l (cl_history (cli ss))\<rparr>\<rparr>)))"
    proof (rule runs_mono [OF mem_add_history_runs [OF assms ne]], elim exE conjE)
      fix N ws
      assume ws: "map (map_option snd) ws = add_history l (map (map_option snd) (v_history v))" "N = lay_cli ob (v\<lparr>v_history := ws\<rparr>) + R"
      have "length (add_history l (cl_history (cli ss))) = MAX_HISTORY"
        using v len [of "cl_history (cli ss)"] by (simp add: stands_for_def length_add_history)
      then show "\<exists>v'. N = lay_cli ob v' + R \<and> (\<forall>cs. linked (v_tree v) cs ps \<longrightarrow> linked (v_tree v') cs ps)
         \<and> stands_for v' (cli (ss\<lparr>cli := (cli ss)\<lparr>cl_history := add_history l (cl_history (cli ss))\<rparr>\<rparr>))"
        using v ws by (intro exI [of _ "v\<lparr>v_history := ws\<rparr>"]) (simp add: history)
    qed
  qed (simp_all add: spec_simps)
  show "implements A FreeHistory ss ps"
    by (rule implements_det [where f = "\<lambda>v. v\<lparr>v_history := replicate (length (v_history v)) None\<rparr>" and ss' = "ss\<lparr>cli := (cli ss)\<lparr>cl_history := replicate MAX_HISTORY None\<rparr>\<rparr>",
          OF mem_free_history_runs])
       (auto simp: history map_replicate_const dest: arg_cong [of _ _ length])
qed

lemma implements_requests:
  fixes ss :: "'w sess"
  assumes "malloc_ok A"
  shows "implements A (Request b t) ss ps" "implements A EndRequest ss ps"
proof -
  show "implements A EndRequest ss ps"
    by (rule implements_det [where f = "\<lambda>v. v\<lparr>v_request := None\<rparr>" and ss' = "ss\<lparr>cli := (cli ss)\<lparr>cl_state := cl_request_prior_state (cli ss),
          cl_request_prior_state := STATE_LOGIN, cl_request_prompt := None\<rparr>\<rparr>", OF mem_end_request_runs])
       (auto simp: stands_for_def spec_simps)
  show "implements A (Request b t) ss ps"
  proof (cases "cl_state (cli ss) = STATE_REQUEST \<or> \<not> b")
    case True
    have "runs (lay_cli ob v + R) (mem_request A ob b t) (\<lambda>_ N. N = lay_cli ob v + R)" if "stands_for v (cli ss)" for ob v R
      by (rule runs_mono [OF mem_request_runs [OF assms]]) (use True that in \<open>auto simp: stands_for_def split: if_splits\<close>)
    moreover have "spec_step ps (Request b t) ss = (Inr ps, ss)" using True by (auto simp: spec_simps cli_request_def)
    ultimately show ?thesis by (intro implements_keep [where m = "\<lambda>ob. mem_request A ob b t" and ss' = ss]) (blast intro: runs_mono, simp)
  next
    case False
    let ?ss = "ss\<lparr>cli := (cli ss)\<lparr>cl_request_callback := [], cl_request_completion := None,
             cl_request_abort := None, cl_request_prior_state := cl_state (cli ss), cl_state := STATE_REQUEST,
             cl_request_prompt := Some (take 1023 t)\<rparr>\<rparr>"
    have run: "runs (lay_cli ob v + R) (mem_request A ob b t) (\<lambda>_ N. \<exists>a. N = lay_cli ob (v\<lparr>v_request := Some (a, take 1023 t)\<rparr>) + R)"
      if "stands_for v (cli ss)" for ob v R
      by (rule runs_mono [OF mem_request_runs [OF assms]]) (use False that in \<open>auto simp: stands_for_def split: if_splits\<close>)
    have spec: "spec_step ps (Request b t) ss = (Inr ps, ?ss)" using False by (auto simp: spec_simps cli_request_def)
    have st: "stands_for (v\<lparr>v_request := Some (a, take 1023 t)\<rparr>) (cli ?ss)" if "stands_for v (cli ss)" for v a
      using that False by (auto simp: stands_for_def)
    show ?thesis
    proof (rule implements_keep [OF _ mem_step.simps(16) spec])
      show "runs (lay_cli ob v + R) (mem_request A ob b t)
          (\<lambda>_ N. \<exists>v'. N = lay_cli ob v' + R \<and> (\<forall>cs. linked (v_tree v) cs ps \<longrightarrow> linked (v_tree v') cs ps) \<and> stands_for v' (cli ?ss))"
        if v: "stands_for v (cli ss)" for ob v R
      proof (rule runs_mono [OF run [OF v]], elim exE)
        fix N a
        assume "N = lay_cli ob (v\<lparr>v_request := Some (a, take 1023 t)\<rparr>) + R"
        with st [OF v, of a] show "\<exists>v'. N = lay_cli ob v' + R \<and> (\<forall>cs. linked (v_tree v) cs ps \<longrightarrow> linked (v_tree v') cs ps) \<and> stands_for v' (cli ?ss)"
          by (intro exI [of _ "v\<lparr>v_request := Some (a, take 1023 t)\<rparr>"]) simp
      qed
    qed
  qed
qed

lemma stands_for_views [simp]:
  "stands_for (v\<lparr>v_name := x\<rparr>) c = stands_for v c" "stands_for (v\<lparr>v_buffer := y, v_buf_size := n\<rparr>) c = stands_for v c"
  by (simp_all add: stands_for_def)

lemma implements_print:
  fixes ss :: "'w sess"
  assumes "malloc_ok A"
  shows "implements A (Print b t) ss ps"
proof (rule implements_keep [OF _ mem_step.simps(15) spec_step.simps(15) [THEN fun_cong, unfolded ret_run]])
  fix ob v R
  assume v: "stands_for v (cli ss)"
  show "runs (lay_cli ob v + R) (mem_print A ob b t)
      (\<lambda>_ N. \<exists>v'. N = lay_cli ob v' + R \<and> (\<forall>cs. linked (v_tree v) cs ps \<longrightarrow> linked (v_tree v') cs ps) \<and> stands_for v' (cli ss))"
  proof (rule runs_mono [OF mem_print_runs [OF assms]], elim exE)
    fix N c n
    assume "N = lay_cli ob (v\<lparr>v_buffer := (c, print_rest b t), v_buf_size := n\<rparr>) + R"
    with v show "\<exists>v'. N = lay_cli ob v' + R \<and> (\<forall>cs. linked (v_tree v) cs ps \<longrightarrow> linked (v_tree v') cs ps) \<and> stands_for v' (cli ss)"
      by (intro exI [of _ "v\<lparr>v_buffer := (c, print_rest b t), v_buf_size := n\<rparr>"]) simp
  qed
qed

lemma implements_name:
  fixes ss :: "'w sess"
  assumes "malloc_ok A"
  shows "implements A (CommandName i) ss ps"
proof (rule implementsI)
  fix ob R cs v
  assume v: "stands_for v (cli ss)" "linked (v_tree v) cs ps" "op_ok (length cs) (CommandName i)"
  then have "cs ! i \<in> set (addresses (v_tree v))" using linked_nth by auto
  from mem_command_name_runs [OF assms this]
  have "runs (lay_cli ob v + R) (seqE (mem_command_name A ob (cs ! i)) (ret cs)) (\<lambda>cs' N. matches N ob R cs' ps (cli ss))"
    by (rule runs_seq) (use v in \<open>fastforce simp: matches_def intro!: runs_ret exI [of _ "v\<lparr>v_name := x\<rparr>" for x]\<close>)
  then show "\<exists>ps' ss'. spec_step ps (CommandName i) ss = (Inr ps', ss')
      \<and> runs (lay_cli ob v + R) (mem_step A ob cs (CommandName i)) (\<lambda>cs' N. matches N ob R cs' ps' (cli ss'))"
    by simp
qed

lemma stands_for_rebuilt:
  assumes "stands_for v c"
  shows "stands_for (rebuilt c v) (c\<lparr>cl_commands := cli_build_shortest c (cl_commands c)\<rparr>)"
  using assms shortest_tree_build [of c "v_tree v"] by (simp add: rebuilt_def stands_for_def)

lemma implements_modes:
  fixes ss :: "'w sess"
  assumes "malloc_ok A"
  shows "implements A (SetPrivilege p) ss ps" "implements A (SetConfigmode m d) ss ps"
proof -
  have keep: "linked (v_tree (rebuilt c v)) cs ps = linked (v_tree v) cs ps" for c v cs by (simp add: rebuilt_def)
  show "implements A (SetPrivilege p) ss ps"
  proof (cases "p = cl_privilege (cli ss)")
    case True
    then have spec: "spec_step ps (SetPrivilege p) ss = (Inr ps, ss)"
      by (cases ss; cases "cli ss") (simp add: spec_simps cli_set_privilege_def)
    show ?thesis
      by (rule implements_keep [OF _ mem_step.simps(10) spec], rule runs_mono [OF mem_set_privilege_runs [OF assms, where s = "(cli ss)\<lparr>cl_privilege := p\<rparr>"]])
         (use True in \<open>auto simp: stands_for_def\<close>)
  next
    case False
    let ?c = "(cli ss)\<lparr>cl_privilege := p, cl_promptchar := prompt_for p\<rparr>"
    let ?c' = "?c\<lparr>cl_commands := cli_build_shortest ?c (cl_commands ?c)\<rparr>"
    have spec: "spec_step ps (SetPrivilege p) ss = (Inr ps, ss\<lparr>cli := ?c'\<rparr>)"
      using False by (simp add: spec_simps cli_set_privilege_def rebuild_def prompt_for_def)
    show ?thesis
    proof (rule implements_keep [OF _ mem_step.simps(10) spec])
      fix ob v R
      assume v: "stands_for v (cli ss)"
      show "runs (lay_cli ob v + R) (mem_set_privilege A ob p)
        (\<lambda>_ N. \<exists>v'. N = lay_cli ob v' + R \<and> (\<forall>cs. linked (v_tree v) cs ps \<longrightarrow> linked (v_tree v') cs ps) \<and> stands_for v' (cli (ss\<lparr>cli := ?c'\<rparr>)))"
      proof (rule runs_mono [OF mem_set_privilege_runs [OF assms, where s = ?c]])
        show "cl_mode ?c = v_mode v" "cl_privilege ?c = p" using v by (simp_all add: stands_for_def)
        fix N
        assume "if p = v_privilege v then N = lay_cli ob v + R
           else \<exists>a. N = lay_cli ob (rebuilt ?c (v\<lparr>v_privilege := p, v_prompt := Some (a, prompt_for p)\<rparr>)) + R"
        then obtain a where "N = lay_cli ob (rebuilt ?c (v\<lparr>v_privilege := p, v_prompt := Some (a, prompt_for p)\<rparr>)) + R"
          using v False by (auto simp: stands_for_def split: if_splits)
        moreover have "stands_for (rebuilt ?c (v\<lparr>v_privilege := p, v_prompt := Some (a, prompt_for p)\<rparr>)) ?c'"
          by (rule stands_for_rebuilt) (use v in \<open>auto simp: stands_for_def text_of_def\<close>)
        ultimately show "\<exists>v'. N = lay_cli ob v' + R \<and> (\<forall>cs. linked (v_tree v) cs ps \<longrightarrow> linked (v_tree v') cs ps) \<and> stands_for v' (cli (ss\<lparr>cli := ?c'\<rparr>))"
          using keep by (intro exI [of _ "rebuilt ?c (v\<lparr>v_privilege := p, v_prompt := Some (a, prompt_for p)\<rparr>)"]) simp
      qed
    qed
  qed
  show "implements A (SetConfigmode m d) ss ps"
  proof (cases "m = cl_mode (cli ss)")
    case True
    then have spec: "spec_step ps (SetConfigmode m d) ss = (Inr ps, ss)"
      by (cases ss; cases "cli ss") (simp add: spec_simps cli_set_configmode_def)
    show ?thesis
      by (rule implements_keep [OF _ mem_step.simps(11) spec], rule runs_mono [OF mem_set_configmode_runs [OF assms, where s = "(cli ss)\<lparr>cl_mode := m\<rparr>"]])
         (use True in \<open>auto simp: stands_for_def\<close>)
  next
    case False
    let ?c = "(cli ss)\<lparr>cl_mode := m, cl_modestring := modestring_for m d\<rparr>"
    let ?c' = "?c\<lparr>cl_commands := cli_build_shortest ?c (cl_commands ?c)\<rparr>"
    have spec: "spec_step ps (SetConfigmode m d) ss = (Inr ps, ss\<lparr>cli := ?c'\<rparr>)"
      using False by (simp add: spec_simps cli_set_configmode_def rebuild_def modestring_for_def split: option.split list.split)
    show ?thesis
    proof (rule implements_keep [OF _ mem_step.simps(11) spec])
      fix ob v R
      assume v: "stands_for v (cli ss)"
      show "runs (lay_cli ob v + R) (mem_set_configmode A ob m d)
        (\<lambda>_ N. \<exists>v'. N = lay_cli ob v' + R \<and> (\<forall>cs. linked (v_tree v) cs ps \<longrightarrow> linked (v_tree v') cs ps) \<and> stands_for v' (cli (ss\<lparr>cli := ?c'\<rparr>)))"
      proof (rule runs_mono [OF mem_set_configmode_runs [OF assms, where s = ?c]])
        show "cl_mode ?c = m" "cl_privilege ?c = v_privilege v" using v by (simp_all add: stands_for_def)
        fix N
        assume "if m = v_mode v then N = lay_cli ob v + R
           else \<exists>x. map_option snd x = modestring_for m d \<and> N = lay_cli ob (rebuilt ?c (v\<lparr>v_mode := m, v_modestring := x\<rparr>)) + R"
        then obtain x where x: "map_option snd x = modestring_for m d" and "N = lay_cli ob (rebuilt ?c (v\<lparr>v_mode := m, v_modestring := x\<rparr>)) + R"
          using v False by (auto simp: stands_for_def split: if_splits)
        moreover have "stands_for (rebuilt ?c (v\<lparr>v_mode := m, v_modestring := x\<rparr>)) ?c'"
          by (rule stands_for_rebuilt) (use v x in \<open>auto simp: stands_for_def text_of_def\<close>)
        ultimately show "\<exists>v'. N = lay_cli ob v' + R \<and> (\<forall>cs. linked (v_tree v) cs ps \<longrightarrow> linked (v_tree v') cs ps) \<and> stands_for v' (cli (ss\<lparr>cli := ?c'\<rparr>))"
          using keep by (intro exI [of _ "rebuilt ?c (v\<lparr>v_mode := m, v_modestring := x\<rparr>)"]) simp
      qed
    qed
  qed
qed

text \<open>The calls that change the tree.\<close>

lemma runs_then_apart: "runs M m Q \<Longrightarrow> runs M m (\<lambda>x N. Q x N \<and> apart N)"
  unfolding runs_def using holds_apart by blast

lemma addresses_single: "t_kids c = [] \<Longrightarrow> addresses [c] = [t_at c]"
  by (cases c) simp

lemma addresses_at_node:
  assumes "t_kids c = []"
  shows "q \<in> set (addresses ts) \<Longrightarrow> distinct (addresses ts) \<Longrightarrow>
    mset (addresses (at_node q (add_kid c) ts)) = add_mset (t_at c) (mset (addresses ts))"
proof (induction ts rule: addresses.induct)
  case (2 a nm hp nd ks ts)
  consider "a = q" | "a \<noteq> q" "q \<in> set (addresses ks)" "q \<notin> set (addresses ts)" | "a \<noteq> q" "q \<in> set (addresses ts)" "q \<notin> set (addresses ks)"
    using 2(3,4) by auto
  then show ?case
    by cases (use 2 assms in \<open>auto simp: addresses_single disjoint_iff\<close>)
qed simp

lemma addresses_grow:
  assumes "t_kids c = []" and "set_option parent \<subseteq> set (addresses ts)" and "distinct (addresses ts)" and "distinct (addresses (grow parent c ts))"
  shows "t_at c \<notin> set (addresses ts)"
proof -
  have "mset (addresses (grow parent c ts)) = add_mset (t_at c) (mset (addresses ts))"
    using assms addresses_at_node [OF assms(1)] by (cases parent) (auto simp: grow_def addresses_single)
  then have "distinct (addresses (grow parent c ts)) = distinct (t_at c # addresses ts)"
    by (metis mset.simps(2) mset_eq_imp_distinct_iff)
  with assms(4) show ?thesis by simp
qed

lemma apart_tree: "apart (lay_cli ob v + R) \<Longrightarrow> distinct (addresses (v_tree v))"
  by (simp add: tree_split_id apart_add) (metis apart_addresses apart_plus(1) add.assoc)

lemma implements_register:
  fixes ss :: "'w sess"
  assumes "malloc_ok A"
  shows "implements A (Register i name h priv mode hlp) ss ps"
proof (rule implementsI)
  fix ob R cs v
  assume v: "stands_for v (cli ss)" "linked (v_tree v) cs ps" "op_ok (length cs) (Register i name h priv mode hlp)"
  let ?parent = "map_option (\<lambda>i. cs ! i) i" and ?place = "case i of None \<Rightarrow> [] | Some i \<Rightarrow> ps ! i"
  let ?cmd = "Command name h 0 hlp priv mode None []"
  let ?ss = "ss\<lparr>cli := (cli ss)\<lparr>cl_commands := add_command ?place ?cmd (cl_commands (cli ss))\<rparr>\<rparr>"
  have place: "place ?parent (v_tree v) = ?place" and owned: "set_option ?parent \<subseteq> set (addresses (v_tree v))"
    using v linked_nth [OF v(2)] by (cases i; simp add: place_def)+
  let ?ps = "ps @ [?place @ [length (siblings ?place (cl_commands (cli ss)))]]"
  let ?t = "\<lambda>c q r. CT c (q, name) r (new_node h priv mode) []"
  have spec: "spec_step ps (Register i name h priv mode hlp) ss = (Inr ?ps, ?ss)" by (simp add: spec_simps)
  have "runs (lay_cli ob v + R) (mem_step A ob cs (Register i name h priv mode hlp)) (\<lambda>cs' N. matches N ob R cs' ?ps (cli ?ss))"
  proof (rule runs_apart)
    assume "apart (lay_cli ob v + R)"
    then have dist: "distinct (addresses (v_tree v))" by (rule apart_tree)
    have found: "matches N ob R (cs @ [c]) ?ps (cli ?ss)"
      if "apart N" "map_option snd r = hlp" "N = lay_cli ob (v\<lparr>v_tree := grow ?parent (?t c q r) (v_tree v)\<rparr>) + R" for N c q r
    proof -
      let ?g = "grow ?parent (?t c q r) (v_tree v)" and ?v = "v\<lparr>v_tree := grow ?parent (?t c q r) (v_tree v)\<rparr>"
      have "distinct (addresses ?g)" using apart_tree [of ob ?v R] that(1,3) by simp
      from addresses_grow [OF _ owned dist this] have c: "c \<notin> set (addresses (v_tree v))" by simp
      have cmds: "map command_of (v_tree v) = cl_commands (cli ss)" using v(1) by (simp add: stands_for_def)
      have "map command_of ?g = add_command ?place ?cmd (cl_commands (cli ss))"
        using grow_commands [OF owned dist, of "?t c q r"] that(2) place cmds by (simp add: new_node_def blank_node_def)
      then have "stands_for ?v (cli ?ss)" using v(1) by (simp add: stands_for_def)
      moreover have "linked ?g (cs @ [c]) ?ps"
        using linked_grow [OF v(2) _ _ dist owned, of "?t c q r"] c place cmds by simp
      ultimately show ?thesis using that(3) by (auto simp: matches_def)
    qed
    show "runs (lay_cli ob v + R) (mem_step A ob cs (Register i name h priv mode hlp)) (\<lambda>cs' N. matches N ob R cs' ?ps (cli ?ss))"
      unfolding mem_step.simps
      by (rule runs_bind [OF runs_then_apart [OF mem_register_command_runs [OF assms owned]]]) (use found in \<open>auto intro!: runs_ret\<close>)
  qed
  with spec show "\<exists>ps' ss'. spec_step ps (Register i name h priv mode hlp) ss = (Inr ps', ss')
      \<and> runs (lay_cli ob v + R) (mem_step A ob cs (Register i name h priv mode hlp)) (\<lambda>cs' N. matches N ob R cs' ps' (cli ss'))"
    by blast
qed

lemma implements_unregister:
  fixes ss :: "'w sess"
  shows "implements A (Unregister name) ss ps"
proof (rule implementsI)
  fix ob R cs v
  assume v: "stands_for v (cli ss)"
  let ?ss = "ss\<lparr>cli := (cli ss)\<lparr>cl_commands := unregister name (cl_commands (cli ss))\<rparr>\<rparr>"
  have "stands_for (v\<lparr>v_tree := del_command name (v_tree v)\<rparr>) (cli ?ss)"
    using v del_command_unregister [of name "v_tree v"] by (simp add: stands_for_def)
  then have "runs (lay_cli ob v + R) (mem_step A ob cs (Unregister name)) (\<lambda>cs' N. matches N ob R cs' [] (cli ?ss))"
    unfolding mem_step.simps by (intro runs_seq [OF mem_unregister_command_runs]) (auto simp: matches_def intro!: runs_ret)
  moreover have "spec_step ps (Unregister name) ss = (Inr [], ?ss)" by (simp add: spec_simps)
  ultimately show "\<exists>ps' ss'. spec_step ps (Unregister name) ss = (Inr ps', ss')
      \<and> runs (lay_cli ob v + R) (mem_step A ob cs (Unregister name)) (\<lambda>cs' N. matches N ob R cs' ps' (cli ss'))"
    by blast
qed

lemma implements_call: "malloc_ok A \<Longrightarrow> implements A x ss ps"
  by (cases x) (simp_all only: implements_texts implements_users implements_history implements_requests implements_print
    implements_name implements_modes implements_register implements_unregister)

section \<open>Sequences of calls\<close>

lemma matches_length: "matches M ob R cs ps c \<Longrightarrow> length ps = length cs"
  by (auto simp: matches_def linked_def dest: list_all2_lengthD)

lemma spec_step_returns: "\<exists>ps' ss'. spec_step ps x ss = (Inr ps', ss')"
  by (cases x) (auto simp: spec_simps cli_set_privilege_def cli_set_configmode_def rebuild_def cli_request_def whenE_def split: option.split list.split)

lemma spec_run_returns: "\<exists>ps' ss'. spec_run ps xs ss = (Inr ps', ss')"
proof (induction xs arbitrary: ps ss)
  case (Cons x xs)
  obtain ps1 ss1 where "(if op_ok (length ps) x then spec_step ps x else ret ps) ss = (Inr ps1, ss1)"
    using spec_step_returns [of ps x ss] by (cases "op_ok (length ps) x") auto
  with Cons [of ps1 ss1] show ?case by (auto simp: bindE_Inr)
qed simp

lemma run_implements:
  fixes ss :: "'w sess"
  assumes "malloc_ok A" and "matches M ob R cs ps (cli ss)" and "spec_run ps xs ss = (Inr ps', ss')"
  shows "runs M (mem_run A ob cs xs) (\<lambda>cs' N. matches N ob R cs' ps' (cli ss'))"
  using assms(2,3)
proof (induction xs arbitrary: M cs ps ss)
  case Nil
  then show ?case by (auto simp: runs_def)
next
  case (Cons x xs)
  define ok where "ok = op_ok (length cs) x"
  let ?m = "if ok then mem_step A ob cs x else ret cs"
  have "\<exists>ps1 ss1. (if ok then spec_step ps x else ret ps) ss = (Inr ps1, ss1) \<and> runs M ?m (\<lambda>cs1 N. matches N ob R cs1 ps1 (cli ss1))"
    using implements_call [OF assms(1), of x ss ps] Cons(2) by (cases ok) (auto simp: implements_def ok_def runs_def)
  then obtain ps1 ss1 where f: "(if ok then spec_step ps x else ret ps) ss = (Inr ps1, ss1)"
    and m: "runs M ?m (\<lambda>cs1 N. matches N ob R cs1 ps1 (cli ss1))" by blast
  have "spec_run ps1 xs ss1 = (Inr ps', ss')"
    using Cons(3) f matches_length [OF Cons(2)] by (simp add: ok_def bindE_Inr)
  then have "runs N (mem_run A ob cs1 xs) (\<lambda>cs' N. matches N ob R cs' ps' (cli ss'))" if "matches N ob R cs1 ps1 (cli ss1)" for N cs1
    using Cons(1) that by blast
  then show ?case unfolding mem_run.simps by (rule runs_bind [OF m [unfolded ok_def]])
qed

section \<open>The beginning of a session\<close>

lemma runs_bind_ret: "runs M (bindE m (\<lambda>x. ret (f x))) Q \<Longrightarrow> runs M m (\<lambda>x N. Q (f x) N)"
  unfolding runs_def
proof (intro allI impI)
  fix s
  assume run: "\<forall>s. holds s M \<longrightarrow> (\<exists>x t N. bindE m (\<lambda>x. ret (f x)) s = (Inr x, t) \<and> holds t N \<and> Q x N)" and "holds s M"
  then obtain y t N where y: "bindE m (\<lambda>x. ret (f x)) s = (Inr y, t)" "holds t N" "Q y N" by blast
  from y(1) show "\<exists>x t N. m s = (Inr x, t) \<and> holds t N \<and> Q (f x) N"
    by (cases rule: bindE_cases) (use y in auto)
qed

lemma runs_seq_ret: "runs M (seqE m (ret y)) Q \<Longrightarrow> runs M m (\<lambda>_ N. Q y N)"
  unfolding seqE_def by (rule runs_bind_ret)

lemma matches_drop: "matches M ob R cs ps c \<Longrightarrow> matches M ob R [] [] c"
  by (auto simp: matches_def)

text \<open>What the registration of a list of commands does to the values.\<close>

fun regs :: "nat list \<Rightarrow> (string \<times> handler option \<times> int \<times> int \<times> string) list \<Rightarrow> ('w, unit) cliprog" where
  "regs path [] = ret ()"
| "regs path ((name, h, priv, mode, hlp) # xs) = seqE (reg path name h priv mode hlp) (regs path xs)"

lemma reg_cli: "reg path name h priv mode hlp ss
    = (Inr (), ss\<lparr>cli := (cli ss)\<lparr>cl_commands := add_command path (Command name h 0 (Some hlp) priv mode None []) (cl_commands (cli ss))\<rparr>\<rparr>)"
  by (simp add: reg_def spec_simps)

lemma register_list_runs:
  fixes ss :: "'w sess"
  assumes "malloc_ok A" and "matches M ob R cs ps (cli ss)" and "op_ok (length cs) (Register i [] None 0 0 None)"
    and "regs (case i of None \<Rightarrow> [] | Some i \<Rightarrow> ps ! i) xs ss = (Inr (), ss')"
  shows "runs M (register_list A ob (map_option (\<lambda>i. cs ! i) i) xs) (\<lambda>_ N. matches N ob R cs ps (cli ss'))"
  using assms(2,4)
proof (induction xs arbitrary: M ss)
  case Nil
  then show ?case by (auto simp: runs_def)
next
  case (Cons x xs)
  obtain name h priv mode hlp where x: "x = (name, h, priv, mode, hlp)" by (cases x)
  let ?path = "case i of None \<Rightarrow> [] | Some i \<Rightarrow> ps ! i"
  obtain ss1 where r: "reg ?path name h priv mode hlp ss = (Inr (), ss1)" by (simp add: reg_cli)
  have rest: "regs ?path xs ss1 = (Inr (), ss')" using Cons(3) r by (simp add: x seqE_Inr)
  have ok: "op_ok (length cs) (Register i name h priv mode (Some hlp))" using assms(3) by (cases i) auto
  from implements_call [OF assms(1), of "Register i name h priv mode (Some hlp)" ss ps] Cons(2) ok
  obtain ps1 ss2 where "spec_step ps (Register i name h priv mode (Some hlp)) ss = (Inr ps1, ss2)"
    and m: "runs M (mem_step A ob cs (Register i name h priv mode (Some hlp))) (\<lambda>cs1 N. matches N ob R cs1 ps1 (cli ss2))"
    unfolding implements_def by blast
  then have p: "ps1 = ps @ [?path @ [length (siblings ?path (cl_commands (cli ss)))]]" "cli ss2 = cli ss1"
    using r by (auto simp: spec_simps reg_cli)
  have same: "matches N ob R cs ps (cli ss1)" if "matches N ob R (case q of None \<Rightarrow> cs | Some c \<Rightarrow> cs @ [c]) ps1 (cli ss2)" for N q
    using that matches_length [OF Cons(2)] matches_length [OF that] unfolding p
    by (cases q) (auto simp: matches_def linked_def list_all2_append)
  have "runs M (mem_register_command A ob (map_option (\<lambda>i. cs ! i) i) name h priv mode (Some hlp)) (\<lambda>_ N. matches N ob R cs ps (cli ss1))"
    by (rule runs_mono [OF runs_bind_ret [OF m [unfolded mem_step.simps]] same])
  then show ?case unfolding x register_list.simps by (rule runs_seq) (rule Cons(1) [OF _ rest])
qed

lemma cli_init_steps:
  "(cli_init :: ('w, unit) cliprog) =
     seqE (upd_cli (\<lambda>_. blank_cli\<lparr>cl_telnet_protocol := True\<rparr>)) (seqE (regs [] own_commands)
    (bindE (cli_register_command [] ''configure'' None PRIVILEGE_PRIVILEGED MODE_EXEC (Some ''Enter configuration mode'')) (\<lambda>c.
     seqE (regs c [(''terminal'', Some cli_int_configure_terminal, PRIVILEGE_PRIVILEGED, MODE_EXEC, ''Configure from the terminal'')])
    (seqE (upd_cli (\<lambda>c. c\<lparr>cl_privilege := - 1, cl_mode := - 1\<rparr>))
    (seqE (cli_set_privilege PRIVILEGE_UNPRIVILEGED)
    (seqE (cli_set_configmode MODE_EXEC None)
    (seqE (upd_cli (\<lambda>c. c\<lparr>cl_timeout := 1\<rparr>))
          (cli_set_idle_timeout_callback 0 cli_int_idle_timeout))))))))"
  by (simp only: cli_init_def own_commands_def regs.simps seqE_assoc [symmetric] seqE_ret)

definition blank_view :: "nat \<Rightarrow> nat \<Rightarrow> cview" where
  "blank_view b h = \<lparr>v_tree = [], v_users = [], v_history = replicate MAX_HISTORY None, v_banner = None, v_enable = None,
     v_prompt = None, v_hostname = None, v_modestring = None, v_name = None, v_request = None, v_buffer = (b, []),
     v_buf_size = 1024, v_hooks = h, v_privilege = 0, v_mode = 0\<rparr>"

lemma blank_view_object: "object_of (blank_view b h) = blank_object\<lparr>o_buf_size := 1024, o_buffer := Some b, o_hooks := Some h\<rparr>"
  by (simp add: blank_view_def blank_object_def object_of_def map_replicate_const)

lemma blank_view_rest: "lay_rest (blank_view b h) = {#(b, Text []), (h, Hooks)#}"
  by (simp add: blank_view_def lay_rest_def)

lemma blank_view_stands: "stands_for (blank_view b h) (blank_cli\<lparr>cl_telnet_protocol := True\<rparr>)"
  by (simp add: stands_for_def blank_view_def blank_cli_def text_of_def map_replicate_const)

lemma matches_blank: "matches (lay_cli ob (blank_view b h) + R) ob R [] [] (blank_cli\<lparr>cl_telnet_protocol := True\<rparr>)"
  unfolding matches_def using blank_view_stands by (intro exI [of _ "blank_view b h"]) simp

lemma regs_returns: "\<exists>ss'. regs p xs ss = (Inr (), ss')"
  by (induction p xs arbitrary: ss rule: regs.induct) (auto simp: seqE_Inr [OF reg_cli])

lemma register_first_runs:
  fixes ss :: "'w sess"
  assumes "malloc_ok A" and "matches M ob R [] [] (cli ss)" and "cli_register_command [] name h priv mode hlp ss = (Inr p, ss')"
  shows "runs M (mem_register_command A ob None name h priv mode hlp) (\<lambda>q N. \<exists>c. q = Some c \<and> matches N ob R [c] [p] (cli ss'))"
proof -
  from implements_call [OF assms(1), of "Register None name h priv mode hlp" ss "[]"] assms(2)
  obtain ps1 ss2 where spec: "spec_step [] (Register None name h priv mode hlp) ss = (Inr ps1, ss2)"
    and m: "runs M (mem_step A ob [] (Register None name h priv mode hlp)) (\<lambda>cs1 N. matches N ob R cs1 ps1 (cli ss2))"
    by (fastforce simp: implements_def)
  from spec assms(3) have p: "ps1 = [p]" "ss2 = ss'" by (auto simp: bindE_Inr)
  have "\<exists>c. q = Some c \<and> matches N ob R [c] [p] (cli ss')" if "matches N ob R (case q of None \<Rightarrow> [] | Some c \<Rightarrow> [] @ [c]) ps1 (cli ss2)" for q N
    using that matches_length [OF that] unfolding p by (cases q) auto
  from runs_mono [OF runs_bind_ret [OF m [unfolded mem_step.simps]] this] show ?thesis by simp
qed

lemma matches_modes:
  assumes "matches M ob R cs ps c"
  shows "runs M (upd_obj ob (\<lambda>d. d\<lparr>o_privilege := p, o_mode := m\<rparr>)) (\<lambda>_ N. matches N ob R cs ps (c\<lparr>cl_privilege := p, cl_mode := m\<rparr>))"
proof -
  from assms obtain v where v: "M = lay_cli ob v + R" "stands_for v c" "linked (v_tree v) cs ps" by (auto simp: matches_def)
  let ?v = "v\<lparr>v_privilege := p, v_mode := m\<rparr>"
  have "stands_for ?v (c\<lparr>cl_privilege := p, cl_mode := m\<rparr>)" using v(2) by (simp add: stands_for_def)
  with v(3) have "matches (lay_cli ob ?v + R) ob R cs ps (c\<lparr>cl_privilege := p, cl_mode := m\<rparr>)"
    unfolding matches_def by (intro exI [of _ ?v]) simp
  then show ?thesis unfolding v(1)
    by (intro upd_obj_last [where n = "object_of v" and N = "lay_rest v + R"]) (simp_all add: lay_cli_def lay_rest_def object_of_def)
qed

lemma fill_cli_runs:
  fixes ss :: "'w sess"
  assumes "malloc_ok A"
  shows "\<exists>ss'. cli_init ss = (Inr (), ss') \<and> runs (lay_cli ob (blank_view b h) + R) (fill_cli A ob) (\<lambda>_ N. matches N ob R [] [] (cli ss'))"
proof -
  let ?ss0 = "ss\<lparr>cli := blank_cli\<lparr>cl_telnet_protocol := True\<rparr>\<rparr>"
  let ?terminal = "[(''terminal'', Some cli_int_configure_terminal, PRIVILEGE_PRIVILEGED, MODE_EXEC, ''Configure from the terminal'')]"
  obtain ss1 where ss1: "regs [] own_commands ?ss0 = (Inr (), ss1)" using regs_returns by blast
  obtain q ss2 where ss2: "cli_register_command [] ''configure'' None PRIVILEGE_PRIVILEGED MODE_EXEC (Some ''Enter configuration mode'') ss1 = (Inr q, ss2)"
    by (simp add: spec_simps)
  obtain ss3 where ss3: "regs q ?terminal ss2 = (Inr (), ss3)" using regs_returns by blast
  let ?ss4 = "ss3\<lparr>cli := (cli ss3)\<lparr>cl_privilege := - 1, cl_mode := - 1\<rparr>\<rparr>"
  from spec_step_returns [of "[]" "SetPrivilege PRIVILEGE_UNPRIVILEGED" ?ss4]
  obtain x ss5 where ss5: "cli_set_privilege PRIVILEGE_UNPRIVILEGED ?ss4 = (Inr x, ss5)"
    by (auto simp: seqE_def bindE_def split: prod.splits sum.splits)
  from spec_step_returns [of "[]" "SetConfigmode MODE_EXEC None" ss5]
  obtain y ss6 where ss6: "cli_set_configmode MODE_EXEC None ss5 = (Inr y, ss6)"
    by (auto simp: seqE_def bindE_def split: prod.splits sum.splits)
  let ?ss7 = "ss6\<lparr>cli := (cli ss6)\<lparr>cl_timeout := 1, cl_idle_timeout := 0, cl_last_action := clock ss6, cl_idle_callback := Some cli_int_idle_timeout\<rparr>\<rparr>"
  have "cli_init ss = (Inr (), ?ss7)"
    unfolding cli_init_steps
    by (simp add: upd_cli_def seqE_def bindE_def ss1 ss2 ss3 ss5 ss6 cli_set_idle_timeout_callback_def cli_set_idle_timeout_def
      del: regs.simps)
  moreover have "runs (lay_cli ob (blank_view b h) + R) (fill_cli A ob) (\<lambda>_ N. matches N ob R [] [] (cli ?ss7))"
  proof -
    have m0: "matches (lay_cli ob (blank_view b h) + R) ob R [] [] (cli ?ss0)" using matches_blank by simp
    have last: "matches N ob R [] [] (cli ?ss7)" if "matches N ob R cs ps (cli ss6)" for N cs ps
      using matches_drop [OF that] by (simp add: matches_def stands_for_def)
    have step6: "runs M (mem_set_configmode A ob MODE_EXEC None) (\<lambda>_ N. matches N ob R cs ps (cli ss6))" if "matches M ob R cs ps (cli ss5)" for M cs ps
      using implements_call [OF assms, of "SetConfigmode MODE_EXEC None" ss5 ps] that ss6
      by (fastforce simp: implements_def seqE_Inr intro: runs_mono [OF runs_seq_ret])
    have step5: "runs M (mem_set_privilege A ob PRIVILEGE_UNPRIVILEGED) (\<lambda>_ N. matches N ob R cs ps (cli ss5))" if "matches M ob R cs ps (cli ?ss4)" for M cs ps
      using implements_call [OF assms, of "SetPrivilege PRIVILEGE_UNPRIVILEGED" ?ss4 ps] that ss5
      by (fastforce simp: implements_def seqE_Inr intro: runs_mono [OF runs_seq_ret])
    show ?thesis unfolding fill_cli_def
    proof (rule runs_seq, rule register_list_runs [OF assms m0, of None, simplified, OF ss1],
        rule runs_bind, erule register_first_runs [OF assms _ ss2], elim exE conjE)
      fix M c p
      assume "p = Some c" and c: "matches M ob R [c] [q] (cli ss2)"
      show "runs M (seqE (register_list A ob p ?terminal) (seqE (upd_obj ob (\<lambda>d. d\<lparr>o_privilege := - 1, o_mode := - 1\<rparr>))
            (seqE (mem_set_privilege A ob PRIVILEGE_UNPRIVILEGED) (seqE (mem_set_configmode A ob MODE_EXEC None) (ret ())))))
          (\<lambda>_ N. matches N ob R [] [] (cli ?ss7))"
        unfolding \<open>p = Some c\<close>
        by (rule runs_seq, rule register_list_runs [OF assms c, of "Some 0", simplified, OF ss3], rule runs_seq, erule matches_modes,
            rule runs_seq, rule step5, simp, rule runs_seq, erule step6, rule runs_ret, erule last)
    qed
  qed
  ultimately show ?thesis by blast
qed

end
