(* ===== verification/CliOwnership.thy ===== *)
theory CliOwnership
  imports CliSession
begin

text \<open>
  Who owns the memory of a terminal session, from \<open>cli_init\<close> to \<open>cli_done\<close>: the store implements the library's values,
  nothing is used after it was freed or freed twice, and what is left behind.
\<close>

section \<open>Beginning and end\<close>

lemma mem_init_runs:
  fixes ss :: "'w sess"
  assumes "malloc_ok A" and "cli_init ss = (Inr (), ss')"
  shows "runs R (mem_init A) (\<lambda>p N. \<exists>ob. p = Some ob \<and> matches N ob R [] [] (cli ss'))"
    (is "runs _ _ ?Q")
proof -
  let ?d = "blank_object\<lparr>o_buf_size := 1024\<rparr>"
  have hooks: "runs (add_mset (h, Hooks) (add_mset (ob, Object (?d\<lparr>o_buffer := Some b\<rparr>)) (add_mset (b, Text []) R)))
      (seqE (upd_obj ob (\<lambda>d. d\<lparr>o_hooks := Some h\<rparr>)) (seqE (fill_cli A ob) (ret (Some ob)))) ?Q" for ob b h
  proof (rule upd_obj_then [where n = "?d\<lparr>o_buffer := Some b\<rparr>" and N = "add_mset (b, Text []) (add_mset (h, Hooks) R)"], simp add: add_mset_commute)
    have M: "add_mset (ob, Object (?d\<lparr>o_buffer := Some b, o_hooks := Some h\<rparr>)) (add_mset (b, Text []) (add_mset (h, Hooks) R))
        = lay_cli ob (blank_view b h) + R"
      by (simp add: lay_cli_def blank_view_object blank_view_rest)
    from fill_cli_runs [OF assms(1), of ss ob b h R] assms(2)
    have "runs (lay_cli ob (blank_view b h) + R) (fill_cli A ob) (\<lambda>_ N. matches N ob R [] [] (cli ss'))" by simp
    then show "runs (add_mset (ob, Object (?d\<lparr>o_buffer := Some b, o_hooks := Some h\<rparr>)) (add_mset (b, Text []) (add_mset (h, Hooks) R)))
        (seqE (fill_cli A ob) (ret (Some ob))) ?Q"
      unfolding M by (rule runs_seq) (auto intro: runs_ret)
  qed
  have buffer: "runs (add_mset (b, Text []) (add_mset (ob, Object ?d) R))
      (seqE (upd_obj ob (\<lambda>d. d\<lparr>o_buffer := Some b\<rparr>)) (bindE (mem_alloc A Hooks) (\<lambda>h. case h of None \<Rightarrow> seqE (mem_free (Some ob)) (ret None)
     | Some _ \<Rightarrow> seqE (upd_obj ob (\<lambda>d. d\<lparr>o_hooks := h\<rparr>)) (seqE (fill_cli A ob) (ret (Some ob)))))) ?Q" for ob b
    by (rule upd_obj_then [where n = ?d and N = "add_mset (b, Text []) R"], simp add: add_mset_commute)
       (rule alloc_then [OF assms(1)], simp only: option.case, rule hooks)
  have object: "runs (add_mset (ob, Object blank_object) R)
    (seqE (upd_obj ob (\<lambda>d. d\<lparr>o_buf_size := 1024\<rparr>))
    (bindE (mem_alloc A (Text [])) (\<lambda>b. case b of None \<Rightarrow> seqE (mem_free (Some ob)) (ret None)
     | Some _ \<Rightarrow> seqE (upd_obj ob (\<lambda>d. d\<lparr>o_buffer := b\<rparr>)) (bindE (mem_alloc A Hooks) (\<lambda>h. case h of None \<Rightarrow> seqE (mem_free (Some ob)) (ret None)
     | Some _ \<Rightarrow> seqE (upd_obj ob (\<lambda>d. d\<lparr>o_hooks := h\<rparr>)) (seqE (fill_cli A ob) (ret (Some ob)))))))) ?Q" for ob
    by (rule upd_obj_then [OF refl], rule alloc_then [OF assms(1)], simp only: option.case, rule buffer)
  show ?thesis unfolding mem_init_def or_null_def
    by (rule alloc_then [OF assms(1)], simp only: option.case, rule object)
qed

text \<open>The history, the users and the commands go first; the object keeps the dangling pointers to them.\<close>

definition owned_texts :: "cview \<Rightarrow> heap" where
  "owned_texts v = lay_text (v_banner v) + lay_text (v_enable v) + lay_text (v_prompt v) + lay_text (v_hostname v) + lay_text (v_modestring v)
     + lay_text (v_name v) + lay_text (v_request v) + {#(fst (v_buffer v), Text (snd (v_buffer v))), (v_hooks v, Hooks)#}"

definition emptied :: "cview \<Rightarrow> cview" where
  "emptied v = v\<lparr>v_history := replicate (length (v_history v)) None\<rparr>"

lemma done_history:
  "runs (add_mset (ob, Object (object_of v)) (lay_texts (v_history v) + K)) (mem_free_history ob)
     (\<lambda>_ N. N = add_mset (ob, Object (object_of (emptied v))) K)"
proof -
  have "runs (add_mset (ob, Object (object_of v)) (lay_texts (v_history v) + K)) (free_history_loop ob 0 (map (map_option fst) (v_history v)))
     (\<lambda>_ N. N = add_mset (ob, Object (object_of (emptied v))) K)"
    using free_history_runs [where pre = "[]" and d = "object_of v" and hs = "v_history v" and N = K and ob = ob]
    by (simp add: object_of_def emptied_def map_replicate_const)
  then show ?thesis unfolding mem_free_history_def by (intro read_obj_then [where n = "object_of v"]) (simp_all add: object_of_def)
qed

lemma done_users:
  "runs (lay_users None us + K) (bounded (\<lambda>k. free_users k (first_user None us))) (\<lambda>_ N. N = K)"
  by (rule runs_bounded, rule free_users_runs) (use size_lay_users [of us None] in simp)

lemma done_tree:
  assumes "(ob, Object d) \<in># K" and "o_commands d = first None ts"
  shows "runs (lay None None ts + K) (mem_unregister_all ob None) (\<lambda>_ N. N = K)"
proof -
  have "runs (lay None None ts + K) (bounded (\<lambda>k. unregister_all k (first None ts))) (\<lambda>_ N. N = K)"
    by (rule runs_bounded, rule unregister_all_runs) (use size_lay [of ts None None] in simp)
  with assms show ?thesis unfolding mem_unregister_all_def by (intro read_obj_then [where n = d]) simp_all
qed

lemma done_lists:
  assumes "M = add_mset (ob, Object (object_of v)) (lay_texts (v_history v) + (lay_users None (v_users v) + (lay None None (v_tree v) + K)))"
  shows "runs M (seqE (mem_free_history ob) (seqE (bounded (\<lambda>k. free_users k (o_users (object_of v)))) (mem_unregister_all ob None)))
     (\<lambda>_ N. N = add_mset (ob, Object (object_of (emptied v))) K)"
  unfolding assms
proof (rule runs_seq [OF done_history], simp only:)
  let ?T = "add_mset (ob, Object (object_of (emptied v))) K"
  have "runs (lay_users None (v_users v) + (lay None None (v_tree v) + ?T))
      (seqE (bounded (\<lambda>k. free_users k (first_user None (v_users v)))) (mem_unregister_all ob None)) (\<lambda>_ N. N = ?T)"
    by (rule runs_seq [OF done_users], simp only:, rule done_tree) (auto simp: object_of_def emptied_def)
  then show "runs (add_mset (ob, Object (object_of (emptied v))) (lay_users None (v_users v) + (lay None None (v_tree v) + K)))
      (seqE (bounded (\<lambda>k. free_users k (o_users (object_of v)))) (mem_unregister_all ob None)) (\<lambda>_ N. N = ?T)"
    by (simp add: object_of_def)
qed

lemma free_z_block:
  assumes "get d = Some a" and "M = add_mset (ob, Object d) (add_mset (a, b) N)"
    and "runs (add_mset (ob, Object (upd (\<lambda>_. None) d)) N) m Q"
  shows "runs M (seqE (free_z get upd ob) m) Q"
  unfolding free_z_def
  by (rule runs_seq [where P = "\<lambda>_ L. L = add_mset (ob, Object (upd (\<lambda>_. None) d)) N"])
     (auto simp: assms(1,2) intro!: assms(3) read_obj_then [where n = d] free_then [where b = b and N = "add_mset (ob, Object d) N"]
        upd_obj_last [where n = d] simp: add_mset_commute)

lemma mem_done_runs: "runs (lay_cli ob v + R) (mem_done ob) (\<lambda>r N. r = CLI_OK \<and> N = lay_text (v_enable v) + R)"
proof -
  let ?d = "object_of (emptied v)"
  note sel = object_of_def emptied_def
  have texts: "runs (add_mset (ob, Object ?d) (owned_texts v + R))
     (seqE (free_z o_commandname o_commandname_update ob)
    (seqE (free_z o_modestring o_modestring_update ob)
    (seqE (free_z o_banner o_banner_update ob)
    (seqE (free_z o_promptchar o_promptchar_update ob)
    (seqE (free_z o_hostname o_hostname_update ob)
    (seqE (free_z o_buffer o_buffer_update ob)
    (seqE (free_z o_hooks o_hooks_update ob)
    (seqE (free_z o_request_prompt o_request_prompt_update ob)
    (seqE (mem_free (Some ob)) (ret CLI_OK))))))))))
    (\<lambda>r N. r = CLI_OK \<and> N = lay_text (v_enable v) + R)"
  proof -
    let ?N = "lay_text (v_enable v) + R"
    let ?request = "lay_text (v_request v) + ?N"
    let ?hooks = "add_mset (v_hooks v, Hooks) ?request"
    let ?buffer = "add_mset (fst (v_buffer v), Text (snd (v_buffer v))) ?hooks"
    let ?host = "lay_text (v_hostname v) + ?buffer"
    let ?prompt = "lay_text (v_prompt v) + ?host"
    let ?banner = "lay_text (v_banner v) + ?prompt"
    let ?mode = "lay_text (v_modestring v) + ?banner"
    have M: "owned_texts v + R = lay_text (v_name v) + ?mode" by (simp add: owned_texts_def ac_simps)
    show ?thesis unfolding M
      by (rule free_z_raw [where x = "v_name v" and N = ?mode, OF _ refl], simp add: sel,
          rule free_z_raw [where x = "v_modestring v" and N = ?banner, OF _ refl], simp add: sel,
          rule free_z_raw [where x = "v_banner v" and N = ?prompt, OF _ refl], simp add: sel,
          rule free_z_raw [where x = "v_prompt v" and N = ?host, OF _ refl], simp add: sel,
          rule free_z_raw [where x = "v_hostname v" and N = ?buffer, OF _ refl], simp add: sel,
          rule free_z_block [where N = ?hooks, OF _ refl], simp add: sel,
          rule free_z_block [where N = ?request, OF _ refl], simp add: sel,
          rule free_z_raw [where x = "v_request v" and N = ?N, OF _ refl], simp add: sel,
          rule free_then, rule refl, rule refl, rule runs_ret) simp
  qed
  have "lay_cli ob v + R = add_mset (ob, Object (object_of v)) (lay_texts (v_history v) + (lay_users None (v_users v)
      + (lay None None (v_tree v) + (owned_texts v + R))))"
    by (simp add: lay_cli_def lay_rest_def owned_texts_def ac_simps)
  note lists = done_lists [OF this]
  have "runs (lay_cli ob v + R) (seqE (seqE (mem_free_history ob) (seqE (bounded (\<lambda>k. free_users k (o_users (object_of v)))) (mem_unregister_all ob None))) m) Q"
    if "runs (add_mset (ob, Object ?d) (owned_texts v + R)) m Q" for m and Q :: "int \<Rightarrow> heap \<Rightarrow> bool"
    by (rule runs_seq [OF lists]) (use that in simp)
  note chain = this [OF texts, unfolded seqE_assoc [symmetric]]
  show ?thesis unfolding mem_done_def
    by (rule read_obj_then [where n = "object_of v"], simp add: lay_cli_def, rule chain)
qed

text \<open>A session: what is done between \<open>cli_init\<close> and \<open>cli_done\<close>.\<close>

definition mem_session :: "malloc \<Rightarrow> mem_op list \<Rightarrow> int mprog" where
  "mem_session A xs = bindE (mem_init A) (\<lambda>p. case p of None \<Rightarrow> ret CLI_ERROR
     | Some ob \<Rightarrow> seqE (mem_run A ob [] xs) (mem_done ob))"

text \<open>The enable password at the end of the calls.\<close>

fun last_enable :: "string option \<Rightarrow> mem_op list \<Rightarrow> string option" where
  "last_enable e [] = e"
| "last_enable e (AllowEnable p # xs) = last_enable (Some p) xs"
| "last_enable e (x # xs) = last_enable e xs"

lemma spec_step_enable:
  "spec_step ps x ss = (Inr ps', ss') \<Longrightarrow> cl_enable_password (cli ss') = (case x of AllowEnable p \<Rightarrow> Some p | _ \<Rightarrow> cl_enable_password (cli ss))"
  by (cases x) (auto simp: spec_simps cli_set_privilege_def cli_set_configmode_def rebuild_def cli_request_def whenE_def
    split: option.splits list.splits if_splits)

lemma spec_run_enable:
  "spec_run ps xs ss = (Inr ps', ss') \<Longrightarrow> cl_enable_password (cli ss') = last_enable (cl_enable_password (cli ss)) xs"
proof (induction xs arbitrary: ps ss)
  case (Cons x xs)
  from Cons(2) obtain ps1 ss1 where s1: "(if op_ok (length ps) x then spec_step ps x else ret ps) ss = (Inr ps1, ss1)"
    and r: "spec_run ps1 xs ss1 = (Inr ps', ss')"
    by (auto elim: bindE_cases)
  show ?case
  proof (cases "op_ok (length ps) x")
    case True
    with s1 spec_step_enable [of ps x ss ps1 ss1] Cons(1) [OF r] show ?thesis by (cases x) auto
  next
    case False
    with s1 Cons(1) [OF r] show ?thesis by (cases x) auto
  qed
qed simp

lemma cli_init_enable: "cli_init ss = (Inr (), ss') \<Longrightarrow> cl_enable_password (cli ss') = None"
  by (auto simp: cli_init_def seqE_def bindE_def reg_cli upd_cli_def cli_register_command_def clif_def cli_set_privilege_def
    cli_set_configmode_def cli_set_modestring_def cli_set_promptchar_def rebuild_def whenE_def cli_set_idle_timeout_callback_def
    cli_set_idle_timeout_def blank_cli_def)

section \<open>The connections of the daemon\<close>

text \<open>\<open>Startcliloop\<close> up to the call of \<open>cli_loop\<close>; the commands with children are the first and the seventh.\<close>

definition set_commands :: "mem_op list" where
  "set_commands =
     [Register None ''set'' (Some (client_fun ''cmd_set'')) PRIVILEGE_PRIVILEGED MODE_EXEC None,
      Register (Some 0) ''port'' (Some (client_fun ''cmd_set_port'')) PRIVILEGE_PRIVILEGED MODE_EXEC (Some ''Set Serial Port''),
      Register (Some 0) ''startupmsg'' (Some (client_fun ''cmd_set_startupmsg'')) PRIVILEGE_PRIVILEGED MODE_EXEC (Some ''Set Serial Port''),
      Register (Some 0) ''logfilepath'' (Some (client_fun ''cmd_set_logfiledir'')) PRIVILEGE_PRIVILEGED MODE_EXEC (Some ''Set Log File Directory''),
      Register (Some 0) ''monitorpath'' (Some (client_fun ''cmd_set_monitorpath'')) PRIVILEGE_PRIVILEGED MODE_EXEC (Some ''Set Monitor File Directory'')]"

definition show_commands :: "mem_op list" where
  "show_commands =
     [Register None ''show'' None PRIVILEGE_UNPRIVILEGED MODE_EXEC None,
      Register (Some 6) ''ports'' (Some (client_fun ''cmd_show_ports'')) PRIVILEGE_UNPRIVILEGED MODE_EXEC (Some ''Show available Serial Ports''),
      Register (Some 6) ''port'' (Some (client_fun ''cmd_show_port'')) PRIVILEGE_UNPRIVILEGED MODE_EXEC (Some ''Show Configured Serial Port''),
      Register (Some 6) ''messages'' (Some (client_fun ''cmd_show_messages'')) PRIVILEGE_UNPRIVILEGED MODE_EXEC (Some ''Show Current Messages''),
      Register (Some 6) ''startupmsg'' (Some (client_fun ''cmd_show_startupmsgs'')) PRIVILEGE_UNPRIVILEGED MODE_EXEC (Some ''Show Current Messages''),
      Register (Some 6) ''logfiledir'' (Some (client_fun ''cmd_show_logfiledir'')) PRIVILEGE_UNPRIVILEGED MODE_EXEC (Some ''Show LogFile Directory''),
      Register (Some 6) ''monitorpath'' (Some (client_fun ''cmd_show_monitorpath'')) PRIVILEGE_UNPRIVILEGED MODE_EXEC (Some ''Show Monitor file Directory'')]"

definition connection_setup :: "string \<Rightarrow> string \<Rightarrow> string \<Rightarrow> mem_op list" where
  "connection_setup uname pword enablepass =
     [SetBanner ''Led Message Board'', SetHostname ''LMB'', AllowUser uname pword, AllowEnable enablepass]
     @ set_commands
     @ [Register None ''save'' (Some (client_fun ''cmd_save'')) PRIVILEGE_PRIVILEGED MODE_EXEC (Some ''Save Config'')]
     @ show_commands
     @ [Register None ''message'' (Some (client_fun ''cmd_message'')) PRIVILEGE_UNPRIVILEGED MODE_EXEC (Some ''Set a Message to be displayed''),
        Register None ''clear'' (Some (client_fun ''cmd_clear'')) PRIVILEGE_UNPRIVILEGED MODE_EXEC (Some ''Clear a Message'')]"

text \<open>A connection is the credentials it starts with and the calls its session makes.\<close>

record connection =
  con_user :: string
  con_password :: string
  con_enable :: string
  con_calls :: "mem_op list"

fun serve :: "malloc \<Rightarrow> connection list \<Rightarrow> unit mprog" where
  "serve A [] = ret ()"
| "serve A (c # cs) =
     seqE (mem_session A (connection_setup (con_user c) (con_password c) (con_enable c) @ con_calls c)) (serve A cs)"

definition sets_enable :: "mem_op \<Rightarrow> bool" where
  "sets_enable x \<longleftrightarrow> (\<exists>p. x = AllowEnable p)"

lemma last_enable_append: "last_enable e (xs @ ys) = last_enable (last_enable e xs) ys"
  by (induction e xs rule: last_enable.induct) auto

lemma last_enable_none: "\<forall>x \<in> set xs. \<not> sets_enable x \<Longrightarrow> last_enable e xs = e"
  by (induction e xs rule: last_enable.induct) (auto simp: sets_enable_def)

lemma last_enable_setup: "last_enable e (connection_setup uname pword enablepass) = Some enablepass"
  by (simp add: connection_setup_def set_commands_def show_commands_def)

section \<open>What holds of every session\<close>

lemma spec_run_total:
  obtains ps and ss' :: "'w sess" where "spec_run ps0 xs ss = (Inr ps, ss')"
  using spec_run_returns [of ps0 xs ss] by blast

text \<open>An allocator that takes the address behind the last.\<close>

definition demo_malloc :: malloc where
  "demo_malloc s = Some (Suc (foldr max (map fst (blocks s)) 0))"

lemma demo_malloc_ok: "malloc_ok demo_malloc"
proof -
  have "(x :: nat) \<in> set xs \<Longrightarrow> x \<le> foldr max xs 0" for x xs by (induction xs) auto
  then have "Suc (foldr max (map fst (blocks s)) 0) \<notin> live s" for s
    unfolding live_def by (metis Suc_n_not_le_n list.set_map)
  then show ?thesis by (simp add: malloc_ok_def demo_malloc_def)
qed

lemma cli_init_total:
  fixes ss :: "'w sess"
  obtains ss' where "cli_init ss = (Inr (), ss')"
  using fill_cli_runs [OF demo_malloc_ok, of ss] by blast

lemma mem_session_runs:
  assumes "malloc_ok A"
  shows "runs R (mem_session A xs) (\<lambda>r N. r = CLI_OK \<and> (\<exists>e. map_option snd e = last_enable None xs \<and> N = lay_text e + R))"
proof -
  obtain ss1 :: "unit sess" where init: "cli_init undefined = (Inr (), ss1)" by (rule cli_init_total)
  obtain ps ss2 where run: "spec_run [] xs ss1 = (Inr ps, ss2)" by (rule spec_run_total)
  have e: "cl_enable_password (cli ss2) = last_enable None xs"
    using spec_run_enable [OF run] cli_init_enable [OF init] by simp
  show ?thesis unfolding mem_session_def
  proof (rule runs_bind [OF mem_init_runs [OF assms init]], elim exE conjE, simp only: option.case)
    fix p M ob
    assume "matches M ob R [] [] (cli ss1)"
    then have body: "runs M (mem_run A ob [] xs) (\<lambda>cs N. matches N ob R cs ps (cli ss2))" by (rule run_implements [OF assms _ run])
    show "runs M (seqE (mem_run A ob [] xs) (mem_done ob)) (\<lambda>r N. r = CLI_OK \<and> (\<exists>e. map_option snd e = last_enable None xs \<and> N = lay_text e + R))"
    proof (rule runs_seq [OF body])
      fix cs N
      assume "matches N ob R cs ps (cli ss2)"
      then obtain v where v: "N = lay_cli ob v + R" "stands_for v (cli ss2)" by (auto simp: matches_def)
      then have "map_option snd (v_enable v) = last_enable None xs" using e by (simp add: stands_for_def)
      with v(1) show "runs N (mem_done ob) (\<lambda>r N. r = CLI_OK \<and> (\<exists>e. map_option snd e = last_enable None xs \<and> N = lay_text e + R))"
        by (auto intro: runs_mono [OF mem_done_runs])
    qed
  qed
qed





lemma serve_runs:
  assumes "malloc_ok A" and "\<forall>c \<in> set cs. \<forall>x \<in> set (con_calls c). \<not> sets_enable x"
  shows "runs R (serve A cs) (\<lambda>_ N. \<exists>as. length as = length cs \<and> N = mset (zip as (map (\<lambda>c. Text (con_enable c)) cs)) + R)"
  using assms(2)
proof (induction cs arbitrary: R)
  case Nil
  then show ?case by (auto simp: runs_def)
next
  case (Cons c cs)
  let ?xs = "connection_setup (con_user c) (con_password c) (con_enable c) @ con_calls c"
  let ?Q = "\<lambda>_ N. \<exists>as. length as = length (c # cs) \<and> N = mset (zip as (map (\<lambda>c. Text (con_enable c)) (c # cs))) + R"
  have e: "last_enable None ?xs = Some (con_enable c)"
    using Cons(2) by (simp add: last_enable_append last_enable_setup last_enable_none)
  show ?case unfolding serve.simps
  proof (rule runs_seq [OF mem_session_runs [OF assms(1)]], unfold e, elim conjE exE)
    fix r N x
    assume "map_option snd x = Some (con_enable c)" and N: "N = lay_text x + R"
    then obtain a where x: "x = Some (a, con_enable c)" by (cases x) auto
    have "\<forall>c \<in> set cs. \<forall>x \<in> set (con_calls c). \<not> sets_enable x" using Cons(2) by simp
    from Cons(1) [OF this, of N] show "runs N (serve A cs) ?Q"
    proof (rule runs_mono, elim exE conjE)
      fix L as
      assume "length as = length cs" "L = mset (zip as (map (\<lambda>c. Text (con_enable c)) cs)) + N"
      then show "\<exists>as. length as = length (c # cs) \<and> L = mset (zip as (map (\<lambda>c. Text (con_enable c)) (c # cs))) + R"
        by (intro exI [of _ "a # as"]) (simp add: N x)
    qed
  qed
qed



section \<open>A failed allocation\<close>

definition stops :: "heap \<Rightarrow> 'a mprog \<Rightarrow> exn \<Rightarrow> bool" where
  "stops M m e \<longleftrightarrow> (\<forall>s. holds s M \<longrightarrow> fst (m s) = Inl e)"

lemma stops_seq: "runs M m (\<lambda>_ N. N = K) \<Longrightarrow> stops K n e \<Longrightarrow> stops M (seqE m n) e"
  unfolding stops_def runs_def seqE_def by (metis bindE_Inr)

lemma stops_read: "(ob, Object d) \<in># M \<Longrightarrow> stops M (k d) e \<Longrightarrow> stops M (bindE (read_obj ob) k) e"
  unfolding stops_def using runs_read_obj [of ob d M] unfolding runs_def by (metis bindE_Inr)

lemma stops_free:
  assumes "a \<notin> fst ` set_mset M"
  shows "stops M (seqE (mem_free (Some a)) m) (Undefined ''double free'')"
proof -
  have "mem_free (Some a) s = (Inl (Undefined ''double free''), s)" if "holds s M" for s
  proof -
    from that assms have "map_of (blocks s) a = None" by (auto simp: holds_def map_of_eq_None_iff)
    then show ?thesis by (simp add: mem_free_def)
  qed
  then show ?thesis by (simp add: stops_def seqE_Inl)
qed

lemma stops_first: "stops M m e \<Longrightarrow> stops M (seqE m n) e"
  unfolding stops_def by (metis prod.collapse seqE_Inl fst_conv)

lemma free_z_dangling:
  assumes "(ob, Object d) \<in># M" and "get d = Some a" and "a \<notin> fst ` set_mset M"
  shows "stops M (free_z get upd ob) (Undefined ''double free'')"
  unfolding free_z_def by (rule stops_read [OF assms(1)], simp only: assms(2), rule stops_free [OF assms(3)])

lemma command_name_out_of_memory:
  assumes "\<forall>s. A s = None"
  shows "runs (lay_cli ob v + R) (mem_command_name A ob c)
     (\<lambda>r N. r = None \<and> N = add_mset (ob, Object (object_of v)) (lay_rest (v\<lparr>v_name := None\<rparr>) + R))"
proof -
  have M: "lay_cli ob v + R = lay_text (v_name v) + add_mset (ob, Object (object_of v)) (lay_rest (v\<lparr>v_name := None\<rparr>) + R)"
    by (simp add: lay_cli_def lay_rest_def ac_simps)
  have none: "or_null (strdup A []) k = ret None" for k :: "nat \<Rightarrow> ptr mprog"
    using assms by (auto simp: or_null_def strdup_def mem_alloc_def bindE_def ret_def fun_eq_iff)
  have nm: "o_commandname (object_of v) = map_option fst (v_name v)" by (simp add: object_of_def)
  have free: "runs (lay_cli ob v + R) (seqE (mem_free (o_commandname (object_of v))) (ret None))
     (\<lambda>r N. r = None \<and> N = add_mset (ob, Object (object_of v)) (lay_rest (v\<lparr>v_name := None\<rparr>) + R))"
    unfolding nm by (rule free_text_then [OF M], rule runs_ret) simp
  show ?thesis unfolding mem_command_name_def none
    by (rule read_obj_then [where n = "object_of v"], simp add: lay_cli_def, rule free)
qed

lemma done_dangling_name:
  assumes "v_name v = Some (a, name)"
    and "a \<notin> fst ` set_mset (add_mset (ob, Object (object_of v)) (lay_rest (v\<lparr>v_name := None\<rparr>) + R))"
  shows "stops (add_mset (ob, Object (object_of v)) (lay_rest (v\<lparr>v_name := None\<rparr>) + R)) (mem_done ob) (Undefined ''double free'')"
    (is "stops ?M _ _")
proof -
  let ?v = "v\<lparr>v_name := None\<rparr>"
  let ?d = "object_of (emptied v)"
  let ?K = "add_mset (ob, Object ?d) (owned_texts ?v + R)"
  have M: "?M = add_mset (ob, Object (object_of v)) (lay_texts (v_history v) + (lay_users None (v_users v)
      + (lay None None (v_tree v) + (owned_texts ?v + R))))"
    by (simp add: lay_rest_def owned_texts_def ac_simps)
  note lists = done_lists [OF this]
  have "fst ` set_mset ?K \<subseteq> fst ` set_mset ?M" unfolding M by auto
  with assms(2) have gone: "a \<notin> fst ` set_mset ?K" by blast
  have name: "stops ?K (free_z o_commandname o_commandname_update ob) (Undefined ''double free'')"
    by (rule free_z_dangling [where d = ?d, OF _ _ gone]) (simp_all add: object_of_def emptied_def assms(1))
  note chain = stops_seq [OF lists stops_first [OF name], unfolded seqE_assoc [symmetric]]
  show ?thesis unfolding mem_done_def
    by (rule stops_read [where d = "object_of v"], simp, rule chain)
qed

text \<open>C35: When there is no memory for the name of a command, the old name has been freed and the object still points to it: the end of the
  session frees it a second time.\<close>

theorem command_name_frees_twice:
  assumes "holds s (lay_cli ob v + R)" and "v_name v = Some (a, name)" and "\<forall>s. A s = None"
  shows "\<exists>t. mem_command_name A ob c s = (Inr None, t) \<and> fst (mem_done ob t) = Inl (Undefined ''double free'')"
proof -
  let ?M = "add_mset (ob, Object (object_of v)) (lay_rest (v\<lparr>v_name := None\<rparr>) + R)"
  have M: "lay_cli ob v + R = add_mset (a, Text name) ?M" by (simp add: lay_cli_def lay_rest_def assms(2) ac_simps)
  have "apart (add_mset (a, Text name) ?M)" using holds_apart [OF assms(1)] unfolding M .
  then have gone: "a \<notin> fst ` set_mset ?M" by (simp add: apart_add)
  from runsD [OF command_name_out_of_memory [OF assms(3)] assms(1)]
  obtain t where "mem_command_name A ob c s = (Inr None, t)" "holds t ?M" by auto
  with done_dangling_name [OF assms(2) gone] show ?thesis by (auto simp: stops_def)
qed

definition named_view :: cview where
  "named_view = (blank_view 1 2)\<lparr>v_name := Some (3, ''show ports'')\<rparr>"

theorem command_name_frees_twice_witness:
  "\<exists>t. mem_command_name (\<lambda>s. None) 0 5
        \<lparr>blocks = [(0, Object (object_of named_view)), (1, Text []), (2, Hooks), (3, Text ''show ports'')]\<rparr> = (Inr None, t)
    \<and> fst (mem_done 0 t) = Inl (Undefined ''double free'')"
proof (rule command_name_frees_twice [where v = named_view and a = 3 and name = "''show ports''" and R = "{#}"])
  show "holds \<lparr>blocks = [(0, Object (object_of named_view)), (1, Text []), (2, Hooks), (3, Text ''show ports'')]\<rparr>
      (lay_cli 0 named_view + {#})"
    by (simp add: holds_def lay_cli_def lay_rest_def named_view_def blank_view_def add_mset_commute)
qed (simp_all add: named_view_def)

end
