(* ===== verification/CliWrite.thy ===== *)
theory CliWrite
  imports Posix CliCore "HOL-Library.Sublist"
begin

text \<open>
  The writing of \<^verbatim>\<open>libcli.c\<close> on the socket of a session, \<open>_write\<close>, against the system calls. The other theories on the
  library take a write for complete; here is when it is.
\<close>

section \<open>The loop\<close>

type_synonym 'a sock = "(trace, 'a) prog"

definition EPIPE :: int where "EPIPE = 32"

definition sock_call :: "os \<Rightarrow> syscall \<Rightarrow> reply sock" where
  "sock_call sys c = (\<lambda>t. (Inr (answer sys t c), t @ [(c, answer sys t c)]))"

text \<open>
  \<open>write\<close> on a connection the other side has closed also raises \<open>SIGPIPE\<close>, which ends the process: the daemon
  neither ignores nor catches it.
\<close>

definition sock_write1 :: "os \<Rightarrow> int \<Rightarrow> u8 list \<Rightarrow> reply sock" where
  "sock_write1 sys fd bs = bindE (sock_call sys (Write fd bs)) (\<lambda>r. if ret_val r = - 1 \<and> err_no r = EPIPE then throw Terminate else ret r)"

fun write_loop :: "os \<Rightarrow> nat \<Rightarrow> int \<Rightarrow> u8 list \<Rightarrow> nat \<Rightarrow> int sock" where
  "write_loop sys 0 fd buf written = throw NoReturn"
| "write_loop sys (Suc k) fd buf written =
     (if length buf = written then ret (int written)
      else bindE (sock_write1 sys fd (drop written buf)) (\<lambda>r.
        if ret_val r = - 1 then (if err_no r = EINTR then write_loop sys k fd buf written else ret (- 1))
        else write_loop sys k fd buf (written + nat (ret_val r))))"

definition sock_write :: "os \<Rightarrow> int \<Rightarrow> u8 list \<Rightarrow> int sock" where
  "sock_write sys fd buf = write_loop sys (patience sys) fd buf 0"

section \<open>When it is complete\<close>

text \<open>A blocking socket takes at least a byte or fails, and no signal arrives.\<close>

definition responsive :: "os \<Rightarrow> bool" where
  "responsive sys \<longleftrightarrow> (\<forall>t fd bs. bs \<noteq> [] \<longrightarrow>
     (0 < ret_val (answer sys t (Write fd bs)) \<or> ret_val (answer sys t (Write fd bs)) = - 1 \<and> err_no (answer sys t (Write fd bs)) \<noteq> EINTR))"

lemma strict_prefix_take: "strict_prefix ys (drop n xs) \<Longrightarrow> strict_prefix (take n xs @ ys) xs"
proof -
  assume "strict_prefix ys (drop n xs)"
  then obtain zs where "drop n xs = ys @ zs" "zs \<noteq> []" by (auto simp: strict_prefix_def prefix_def)
  then have "xs = (take n xs @ ys) @ zs" by (metis append.assoc append_take_drop_id)
  with \<open>zs \<noteq> []\<close> show ?thesis by (metis strict_prefixI' prefixI append_self_conv strict_prefix_def)
qed

lemma sock_loop_sends:
  assumes "kernel_ok sys" and "responsive sys"
  shows "w \<le> length buf \<Longrightarrow> length buf - w < k \<Longrightarrow> \<exists>r u. write_loop sys k fd buf w t = (r, t @ u)
    \<and> (r = Inr (int (length buf)) \<and> sent u = drop w buf \<or> (r = Inr (- 1) \<or> r = Inl Terminate) \<and> strict_prefix (sent u) (drop w buf))"
proof (induction k arbitrary: w t)
  case (Suc k)
  show ?case
  proof (cases "length buf = w")
    case False
    let ?c = "Write fd (drop w buf)"
    let ?r = "answer sys t ?c"
    have data: "drop w buf \<noteq> []" using False Suc(2) by simp
    then have short: "strict_prefix [] (drop w buf)" by (simp add: strict_prefix_def)
    have call: "sock_call sys ?c t = (Inr ?r, t @ [(?c, ?r)])" by (simp add: sock_call_def)
    from assms(2) data consider (some) "0 < ret_val ?r" | (error) "ret_val ?r = - 1" "err_no ?r \<noteq> EINTR" unfolding responsive_def by blast
    then show ?thesis
    proof cases
      case error
      with False short show ?thesis
        by (cases "err_no ?r = EPIPE") (auto simp: sock_write1_def bindE_def throw_def ret_def call)
    next
      case some
      let ?n = "nat (ret_val ?r)"
      have n: "0 < ?n" "?n \<le> length (drop w buf)" using some kernel_ok_write [OF assms(1), of t fd "drop w buf"] by auto
      with Suc(2,3) have "w + ?n \<le> length buf" "length buf - (w + ?n) < k" by auto
      from Suc(1) [OF this, of "t @ [(?c, ?r)]"] obtain r u where go: "write_loop sys k fd buf (w + ?n) (t @ [(?c, ?r)]) = (r, (t @ [(?c, ?r)]) @ u)"
        and r: "r = Inr (int (length buf)) \<and> sent u = drop (w + ?n) buf
          \<or> (r = Inr (- 1) \<or> r = Inl Terminate) \<and> strict_prefix (sent u) (drop (w + ?n) buf)" by blast
      have "write_loop sys (Suc k) fd buf w t = (r, t @ (?c, ?r) # u)"
        using False some go by (auto simp: sock_write1_def bindE_def throw_def ret_def call)
      moreover have d: "drop w buf = take ?n (drop w buf) @ drop (w + ?n) buf"
        using append_take_drop_id [of ?n "drop w buf"] by (simp add: add.commute)
      have first: "sent ((?c, ?r) # u) = take ?n (drop w buf) @ sent u" by simp
      have "strict_prefix (sent ((?c, ?r) # u)) (drop w buf)" if "strict_prefix (sent u) (drop (w + ?n) buf)"
        unfolding first by (rule strict_prefix_take) (use that in \<open>simp add: add.commute\<close>)
      moreover have "sent ((?c, ?r) # u) = drop w buf" if "sent u = drop (w + ?n) buf"
        unfolding first that by (rule d [symmetric])
      ultimately show ?thesis using r by blast
    qed
  qed (auto simp: ret_def)
qed simp

text \<open>
  A write sends everything, or it fails, or it ends the daemon, with a beginning of the text sent. The callers of \<open>_write\<close>
  never look at what it returns.
\<close>

lemma sock_write_sends:
  assumes "kernel_ok sys" and "responsive sys" and "length buf < patience sys"
  shows "\<exists>r u. sock_write sys fd buf t = (r, t @ u)
    \<and> (r = Inr (int (length buf)) \<and> sent u = buf \<or> (r = Inr (- 1) \<or> r = Inl Terminate) \<and> strict_prefix (sent u) buf)"
  unfolding sock_write_def using sock_loop_sends [OF assms(1,2), of 0 buf "patience sys" fd t] assms(3) by simp

text \<open>A socket that takes nothing and reports no error keeps the session in the loop for ever.\<close>

lemma write_loop_spins:
  assumes "\<And>t. ret_val (answer sys t (Write fd (drop w buf))) = 0" and "length buf \<noteq> w"
  shows "fst (write_loop sys k fd buf w t) = Inl NoReturn"
proof (induction k arbitrary: t)
  case (Suc k)
  with assms show ?case by (simp add: sock_write1_def sock_call_def bindE_def throw_def ret_def)
qed (simp add: throw_def)

end
