(* ===== verification/SerialEcho.thy ===== *)
theory SerialEcho
  imports DriverWire
begin

text \<open>
  A port whose device sends back what it receives: what is written is read back, whatever mixture of
  writes and reads with whatever sizes and timeouts, as from a queue.
\<close>

section \<open>A device that loops back\<close>

definition pending :: "trace \<Rightarrow> u8 list" where
  "pending t = drop (length (received t)) (sent t)"

text \<open>
  The system calls succeed, a write takes everything, a read delivers what was written and not yet read and does not
  wait (the port is configured with \<open>VMIN\<close> and \<open>VTIME\<close> 0), \<open>select\<close> times out when there is nothing, and a call takes at most
  two milliseconds. The number of iterations is enough for a second.
\<close>

definition loopback :: "os \<Rightarrow> int \<Rightarrow> bool" where
  "loopback sys d \<longleftrightarrow> mutex_ok sys \<and> clock_advances sys d \<and> 10 ^ 9 \<le> d * int (patience sys) \<and>
     (\<forall>t c. ret_val (answer sys t c) \<noteq> - 1) \<and>
     (\<forall>t fd. ret_val (answer sys t (Close fd)) = 0) \<and>
     (\<forall>t fd ts. 0 < ret_val (answer sys t (SelectWrite fd ts)) \<and> fd_is_set (answer sys t (SelectWrite fd ts))) \<and>
     (\<forall>t fd bs. ret_val (answer sys t (Write fd bs)) = int (length bs)) \<and>
     (\<forall>t fd n. rdata (answer sys t (Read fd n)) = take n (pending t) \<and> ret_val (answer sys t (Read fd n)) = int (length (take n (pending t)))) \<and>
     (\<forall>t fd ts. pending t = [] \<longrightarrow> ret_val (answer sys t (SelectRead fd ts)) = 0) \<and>
     (\<forall>t e. nanos (tspec (answer sys (t @ [e]) ClockGettime)) \<le> nanos (tspec (answer sys t ClockGettime)) + 2 * 10 ^ 6)"

lemma loopbackD:
  assumes "loopback sys d"
  shows "mutex_ok sys" "clock_advances sys d" "10 ^ 9 \<le> d * int (patience sys)" "ret_val (answer sys t c) \<noteq> - 1"
    "ret_val (answer sys t (Close fd)) = 0" "0 < ret_val (answer sys t (SelectWrite fd ts))" "fd_is_set (answer sys t (SelectWrite fd ts))"
    "ret_val (answer sys t (Write fd bs)) = int (length bs)" "rdata (answer sys t (Read fd n)) = take n (pending t)"
    "ret_val (answer sys t (Read fd n)) = int (length (take n (pending t)))"
    "pending t = [] \<Longrightarrow> ret_val (answer sys t (SelectRead fd ts)) = 0"
    "nanos (tspec (answer sys (t @ [e]) ClockGettime)) \<le> nanos (tspec (answer sys t ClockGettime)) + 2 * 10 ^ 6"
  using assms unfolding loopback_def by blast+

lemma loopback_patience: "loopback sys d \<Longrightarrow> 0 < patience sys"
  using loopbackD(3) [of sys d] by (cases "patience sys") auto

lemma pending_step [simp]:
  "sent u = [] \<Longrightarrow> received u = [] \<Longrightarrow> pending (t @ u) = pending t"
  by (simp add: pending_def)

section \<open>Reading and writing\<close>

text \<open>Timeouts of 10 milliseconds to a second that do not depend on the size.\<close>

definition short_timeout :: "Timeout \<Rightarrow> bool" where
  "short_timeout tmo \<longleftrightarrow> read_timeout_multiplier tmo = 0 \<and> write_timeout_multiplier tmo = 0
     \<and> 10 \<le> uint (read_timeout_constant tmo) \<and> uint (read_timeout_constant tmo) \<le> 1000
     \<and> 10 \<le> uint (write_timeout_constant tmo) \<and> uint (write_timeout_constant tmo) \<le> 1000"

lemma total_constant: "total_timeout_ms c 0 n = c"
  by (simp add: total_timeout_ms_def)

lemma short_timer:
  assumes "loopback sys d" and "10 \<le> uint ms" and "uint ms \<le> 1000"
  obtains e where "timer_expiry (tspec (answer sys t ClockGettime)) ms = Inr e"
    and "nanos (tspec (answer sys t ClockGettime)) + 10 ^ 7 \<le> nanos e"
proof -
  let ?now = "tspec (answer sys t ClockGettime)"
  have "0 \<le> snd ?now" "snd ?now < 10 ^ 9" using loopbackD(2) [OF assms(1)] by (simp_all add: clock_advances_def)
  then obtain e where e: "timer_expiry ?now ms = Inr e" using timer_expiry_short [of ?now ms] assms(3) by auto
  with timer_expiry_nanos [OF e] assms(2) that show thesis by simp
qed

lemma impl_write_echo:
  assumes ok: "loopback sys d" and "ser_is_open s" and "short_timeout (ser_timeout s)"
  shows "\<exists>u. impl_write sys data (s, t) = (Inr (length data), (s, t @ u)) \<and> sent u = data \<and> received u = []"
proof -
  obtain e where e: "timer_expiry (tspec (answer sys t ClockGettime)) (write_timeout_constant (ser_timeout s)) = Inr e"
      "nanos (tspec (answer sys t ClockGettime)) + 10 ^ 7 \<le> nanos e"
    using short_timer [OF ok] assms(3) unfolding short_timeout_def by blast
  let ?t1 = "t @ [(ClockGettime, answer sys t ClockGettime)]"
  have pos: "\<not> remaining_ms e (tspec (answer sys ?t1 ClockGettime)) \<le> 0"
    using e(2) loopbackD(12) [OF ok, of t "(ClockGettime, answer sys t ClockGettime)"] remaining_ms_ge [of e "tspec (answer sys ?t1 ClockGettime)"] by simp
  obtain n where n: "patience sys = Suc n" using loopback_patience [OF ok] by (cases "patience sys") auto
  have sel: "\<not> ret_val (answer sys u (SelectWrite fd ts)) < 0" "ret_val (answer sys u (SelectWrite fd ts)) \<noteq> 0"
    "fd_is_set (answer sys u (SelectWrite fd ts))" for u fd ts
    using loopbackD(6,7) [OF ok, of u fd ts] by auto
  have wr: "ret_val (answer sys u (Write fd data)) = int (length data)" for u fd by (rule loopbackD(8) [OF ok])
  show ?thesis
  proof (cases "data = []")
    case True
    with assms(2,3) e(1) show ?thesis
      by (simp add: impl_write_def new_timer_run ser_run short_timeout_def total_constant n)
  next
    case False
    then have "\<not> int (length data) < 1" by (simp add: Suc_le_eq)
    with False assms(2,3) e(1) pos sel wr show ?thesis
      by (simp add: impl_write_def new_timer_run ser_run short_timeout_def total_constant n remaining_def Let_def)
  qed
qed

text \<open>With nothing to come the loop waits until the time is over.\<close>

lemma wait_out:
  assumes ok: "loopback sys d"
  shows "pending t = [] \<Longrightarrow> length got < sz \<Longrightarrow> 0 < n \<Longrightarrow> nanos e - nanos (tspec (answer sys t ClockGettime)) \<le> d * (int n - 1) \<Longrightarrow>
    \<exists>u. impl_read_loop sys n sz e got (s, t) = (Inr got, (s, t @ u)) \<and> sent u = [] \<and> received u = []"
proof (induction n arbitrary: t)
  case (Suc n)
  let ?r1 = "answer sys t ClockGettime"
  let ?ms = "remaining_ms e (tspec ?r1)"
  show ?case
  proof (cases "?ms \<le> 0")
    case True
    with Suc(3) show ?thesis by (simp add: remaining_def ser_run)
  next
    case False
    let ?c = "SelectRead (ser_fd s) (timespec_from_ms (min (word_of_int ?ms) (inter_byte_timeout (ser_timeout s))))"
    let ?u = "[(ClockGettime, ?r1), (?c, answer sys (t @ [(ClockGettime, ?r1)]) ?c)]"
    have "ret_val (answer sys (t @ [(ClockGettime, ?r1)]) ?c) = 0" by (rule loopbackD(11) [OF ok]) (simp add: Suc(2))
    with False Suc(3) have run: "impl_read_loop sys (Suc n) sz e got (s, t) = impl_read_loop sys n sz e got (s, t @ ?u)"
      by (simp add: remaining_def impl_waitReadable_def ser_run)
    from iter_fuel [OF loopbackD(2) [OF ok] _ Suc(5), of ?u] False
    have fuel: "0 < n" "nanos e - nanos (tspec (answer sys (t @ ?u) ClockGettime)) \<le> d * (int n - 1)" by auto
    have "pending (t @ ?u) = []" by (simp add: Suc(2))
    from Suc(1) [OF this Suc(3) fuel] run show ?thesis by fastforce
  qed
qed simp

lemma impl_read_echo:
  assumes ok: "loopback sys d" and "ser_is_open s" and "short_timeout (ser_timeout s)"
  shows "\<exists>u. impl_read sys sz (s, t) = (Inr (take sz (pending t)), (s, t @ u)) \<and> sent u = [] \<and> received u = take sz (pending t)"
proof -
  let ?ms = "read_timeout_constant (ser_timeout s)"
  obtain e where e: "timer_expiry (tspec (answer sys t ClockGettime)) ?ms = Inr e"
    using short_timer [OF ok] assms(3) unfolding short_timeout_def by blast
  let ?u = "[(ClockGettime, answer sys t ClockGettime)]" and ?c = "Read (ser_fd s) sz"
  let ?r = "answer sys (t @ ?u) ?c"
  have pend: "pending (t @ ?u) = pending t" by simp
  have r: "rdata ?r = take sz (pending t)" "ret_val ?r = int (length (take sz (pending t)))"
    using loopbackD(9,10) [OF ok, of "t @ ?u"] by (simp_all add: pend)
  then have got: "(if read_count ?r > 0 then rdata ?r else []) = take sz (pending t)" by (auto simp: read_count_def min_def split: if_splits)
  have recv: "received (?u @ [(?c, ?r)]) = take sz (pending t)" using r by (auto simp: read_count_def min_def split: if_splits)
  have tot: "total_timeout_ms ?ms (read_timeout_multiplier (ser_timeout s)) sz = ?ms" using assms(3) by (simp add: short_timeout_def total_constant)
  have start: "impl_read sys sz (s, t) = impl_read_loop sys (patience sys) sz e (take sz (pending t)) (s, t @ ?u @ [(?c, ?r)])"
    using impl_read_start [OF assms(2) _ refl refl refl, of sys t sz e] e got by (simp add: tot)
  show ?thesis
  proof (cases "length (take sz (pending t)) < sz")
    case False
    obtain n where "patience sys = Suc n" using loopback_patience [OF ok] by (cases "patience sys") auto
    with False start recv show ?thesis by (intro exI [of _ "?u @ [(?c, ?r)]"]) simp
  next
    case True
    then have all: "take sz (pending t) = pending t" by (auto simp: min_def split: if_splits)
    have "pending (t @ ?u @ [(?c, ?r)]) = []" using recv all by (simp add: pending_def)
    moreover have "uint ?ms * 10 ^ 6 \<le> d * int (patience sys)"
      using assms(3) loopbackD(3) [OF ok] by (simp add: short_timeout_def)
    then have "nanos e - nanos (tspec (answer sys (t @ ?u @ [(?c, ?r)]) ClockGettime)) \<le> d * (int (patience sys) - 1)"
      by (rule timer_fuel [OF loopbackD(2) [OF ok] e]) simp
    ultimately obtain v where v: "impl_read_loop sys (patience sys) sz e (take sz (pending t)) (s, t @ ?u @ [(?c, ?r)])
        = (Inr (take sz (pending t)), (s, (t @ ?u @ [(?c, ?r)]) @ v))" "sent v = []" "received v = []"
      using wait_out [OF ok _ True loopback_patience [OF ok], where t = "t @ ?u @ [(?c, ?r)]" and e = e and s = s] by blast
    have "sent (?u @ [(?c, ?r)] @ v) = []" "received (?u @ [(?c, ?r)] @ v) = take sz (pending t)" using v(2,3) recv by simp_all
    with start v(1) show ?thesis by (intro exI [of _ "?u @ [(?c, ?r)] @ v"]) simp
  qed
qed

section \<open>The public operations\<close>

lemma write_echo:
  assumes "loopback sys d" and "ser_is_open s" and "short_timeout (ser_timeout s)" and "length (received t) \<le> length (sent t)"
  shows "\<exists>u. serial_write sys data (s, t) = (Inr (length data), (s, t @ u)) \<and> pending (t @ u) = pending t @ data
    \<and> length (received (t @ u)) \<le> length (sent (t @ u))"
proof -
  let ?l = "[(MutexLock WriteMutex, answer sys t (MutexLock WriteMutex))]"
  from impl_write_echo [OF assms(1-3), of data "t @ ?l"] obtain u
    where u: "impl_write sys data (s, t @ ?l) = (Inr (length data), (s, (t @ ?l) @ u))" "sent u = data" "received u = []" by blast
  let ?w = "[(MutexUnlock WriteMutex, answer sys ((t @ ?l) @ u) (MutexUnlock WriteMutex))]"
  have "serial_write sys data (s, t) = (Inr (length data), (s, t @ ?l @ u @ ?w))"
    using u(1) loopbackD(1) [OF assms(1)]
    by (simp add: serial_write_def serial_write1_def ScopedWriteLock_def writeLock_def writeUnlock_def seqE_def bindE_def finallyE_def mutex_call_run mutex_ok_def)
  with u(2,3) assms(4) show ?thesis by (intro exI [of _ "?l @ u @ ?w"]) (simp add: pending_def)
qed

lemma read_echo:
  assumes "loopback sys d" and "ser_is_open s" and "short_timeout (ser_timeout s)" and "length (received t) \<le> length (sent t)"
  shows "\<exists>u. serial_read_string sys sz (s, t) = (Inr (take sz (pending t)), (s, t @ u)) \<and> pending (t @ u) = drop sz (pending t)
    \<and> length (received (t @ u)) \<le> length (sent (t @ u))"
proof -
  let ?l = "[(MutexLock ReadMutex, answer sys t (MutexLock ReadMutex))]"
  have p: "pending (t @ ?l) = pending t" by simp
  from impl_read_echo [OF assms(1-3), of sz "t @ ?l"] obtain u where u: "impl_read sys sz (s, t @ ?l) = (Inr (take sz (pending t)), (s, (t @ ?l) @ u))"
    "sent u = []" "received u = take sz (pending t)" unfolding p by blast
  let ?w = "[(MutexUnlock ReadMutex, answer sys ((t @ ?l) @ u) (MutexUnlock ReadMutex))]"
  have run: "serial_read_string sys sz (s, t) = (Inr (take sz (pending t)), (s, t @ ?l @ u @ ?w))"
    using u(1) loopbackD(1) [OF assms(1)]
    by (simp add: serial_read_string_def serial_read_append_def ScopedReadLock_def readLock_def readUnlock_def seqE_def bindE_def finallyE_def
        mutex_call_run mutex_ok_def)
  have "pending (t @ ?l @ u @ ?w) = drop sz (pending t)"
    using u(2,3) by (simp add: pending_def min_def add.commute)
  moreover have "length (received (t @ ?l @ u @ ?w)) \<le> length (sent (t @ ?l @ u @ ?w))"
    using u(2,3) assms(4) by (simp add: pending_def)
  ultimately show ?thesis using run by blast
qed

end
