(* ===== verification/SerialExample.thy ===== *)
theory SerialExample
  imports SerialEcho ListPorts Packet
begin

text \<open>
  The example program of the serial library, \<^verbatim>\<open>src/src/serial/examples/serial_example.cc\<close>: it writes a text to a port and
  reads it back with different timeouts and sizes. It is run here on a device that sends back what it receives, as
  its comment asks for.
\<close>

section \<open>The program\<close>

text \<open>What the program prints, line by line; a caught exception stands for the line with its text.\<close>

datatype printed = Line string | Caught exn

type_synonym 'a example = "(ser_state \<times> printed list, 'a) prog"

definition on_port :: "'a ser \<Rightarrow> 'a example" where
  "on_port m = (\<lambda>(s, out). case m s of (r, s') \<Rightarrow> (r, (s', out)))"

definition say :: "string \<Rightarrow> unit example" where
  "say l = modify (\<lambda>(s, out). (s, out @ [Line l]))"

fun print_ports :: "PortInfo list \<Rightarrow> unit example" where
  "print_ports [] = ret ()"
| "print_ports (d # ds) = seqE (say (''('' @ pi_port d @ '', '' @ pi_description d @ '', '' @ pi_hardware_id d @ '')'')) (print_ports ds)"

definition enumerate_ports :: "sysfs \<Rightarrow> unit example" where
  "enumerate_ports F = print_ports (list_ports F)"

definition print_usage :: "unit example" where
  "print_usage = say ''Usage: test_serial {-e|<serial port address>} <baudrate> [test string]''"

text \<open>\<open>sscanf\<close> with \<open>%lu\<close> into a variable that is 0 before: the value saturates, a negative one wraps around.\<close>

definition scan_lu :: "string \<Rightarrow> nat" where
  "scan_lu s = (case dropWhile is_space s of [] \<Rightarrow> 0 | c # cs \<Rightarrow>
     let n = nat (unsigned_prefix (if c = CHR ''-'' \<or> c = CHR ''+'' then cs else c # cs))
     in if n \<ge> 2 ^ 64 then 2 ^ 64 - 1 else if c = CHR ''-'' then (2 ^ 64 - n) mod 2 ^ 64 else n)"

text \<open>\<open>read\<close> allocates a buffer of the size it is asked for.\<close>

definition read_string :: "os \<Rightarrow> nat \<Rightarrow> u8 list ser" where
  "read_string sys sz = (if sz < 2 ^ 63 then serial_read_string sys sz else ScopedReadLock sys (throw BadAlloc))"

definition round_line :: "nat \<Rightarrow> nat \<Rightarrow> string \<Rightarrow> string" where
  "round_line i wrote result = ''Iteration: '' @ show_nat i @ '', Bytes written: '' @ show_nat wrote @ '', Bytes read: ''
     @ show_nat (length result) @ '', String read: '' @ result"

text \<open>One of the four loops: \<open>n\<close> more iterations, the next with number \<open>i\<close>.\<close>

fun rounds :: "os \<Rightarrow> string \<Rightarrow> nat \<Rightarrow> nat \<Rightarrow> nat \<Rightarrow> unit example" where
  "rounds sys test_string sz 0 i = ret ()"
| "rounds sys test_string sz (Suc n) i =
     bindE (on_port (serial_write sys (map char_byte test_string))) (\<lambda>bytes_wrote.
     bindE (on_port (read_string sys sz)) (\<lambda>result.
     seqE (say (round_line i bytes_wrote (map byte_char result))) (rounds sys test_string sz n (Suc i))))"

definition example_tests :: "os \<Rightarrow> string \<Rightarrow> unit example" where
  "example_tests sys test_string =
     bindE (on_port serial_isOpen) (\<lambda>op.
     seqE (say (''Is the serial port open?'' @ (if op then '' Yes.'' else '' No.'')))
    (seqE (say ''Timeout == 1000ms, asking for 1 more byte than written.'')
    (seqE (rounds sys test_string (length test_string + 1) 10 0)
    (seqE (on_port (serial_setTimeout \<lparr>inter_byte_timeout = Timeout_max, read_timeout_constant = 250, read_timeout_multiplier = 0,
        write_timeout_constant = 250, write_timeout_multiplier = 0\<rparr>))
    (seqE (say ''Timeout == 250ms, asking for 1 more byte than written.'')
    (seqE (rounds sys test_string (length test_string + 1) 10 0)
    (seqE (say ''Timeout == 250ms, asking for exactly what was written.'')
    (seqE (rounds sys test_string (length test_string) 10 0)
    (seqE (say ''Timeout == 250ms, asking for 1 less than was written.'')
          (rounds sys test_string ((length test_string + 2 ^ 64 - 1) mod 2 ^ 64) 10 0))))))))))"

text \<open>The port is an object of the function: its destructor closes it whatever happens after the constructor.\<close>

definition example_session :: "os \<Rightarrow> string \<Rightarrow> string \<Rightarrow> string \<Rightarrow> int example" where
  "example_session sys port b test_string =
     seqE (modify (\<lambda>((s, t), out). ((new_impl port (scan_lu b mod 2 ^ 32) eightbits parity_none stopbits_one flowcontrol_none 0, t), out)))
    (seqE (on_port (serial_ctor sys (simpleTimeout 1000)))
      (finallyE (seqE (example_tests sys test_string) (ret 0)) (on_port (serial_dtor sys))))"

definition example_run :: "sysfs \<Rightarrow> os \<Rightarrow> string list \<Rightarrow> int example" where
  "example_run F sys argv = (case argv of
       prg # port # args \<Rightarrow>
         if port = ''-e'' then seqE (enumerate_ports F) (ret 0)
         else (case args of [] \<Rightarrow> seqE print_usage (ret 1)
           | [b, test_string] \<Rightarrow> example_session sys port b test_string
           | b # _ \<Rightarrow> example_session sys port b ''Testing.'')
     | _ \<Rightarrow> seqE print_usage (ret 0))"

definition example_main :: "sysfs \<Rightarrow> os \<Rightarrow> string list \<Rightarrow> int example" where
  "example_main F sys argv = (\<lambda>x. case example_run F sys argv x of
       (Inl e, (s, out)) \<Rightarrow> if unwinds e then (Inr 0, (s, out @ [Caught e])) else (Inl e, (s, out))
     | (Inr c, y) \<Rightarrow> (Inr c, y))"

section \<open>On a device that loops back\<close>

text \<open>What the rounds print when the reads take from a queue what the writes put there.\<close>

fun queue_lines :: "string \<Rightarrow> nat \<Rightarrow> nat \<Rightarrow> nat \<Rightarrow> string \<Rightarrow> printed list" where
  "queue_lines txt sz 0 i q = []"
| "queue_lines txt sz (Suc n) i q = Line (round_line i (length txt) (take sz (q @ txt))) # queue_lines txt sz n (Suc i) (drop sz (q @ txt))"

fun queue_rest :: "string \<Rightarrow> nat \<Rightarrow> nat \<Rightarrow> string \<Rightarrow> string" where
  "queue_rest txt sz 0 q = q"
| "queue_rest txt sz (Suc n) q = queue_rest txt sz n (drop sz (q @ txt))"

lemma queue_all:
  "length txt \<le> sz \<Longrightarrow> queue_lines txt sz n i [] = map (\<lambda>k. Line (round_line k (length txt) txt)) [i..<i + n] \<and> queue_rest txt sz n [] = []"
proof (induction n arbitrary: i)
  case (Suc n)
  have "[i..<i + Suc n] = i # [Suc i..<Suc i + n]" by (simp add: upt_conv_Cons)
  with Suc show ?case by simp
qed simp

lemma concat_replicate_snoc: "concat (replicate n xs) @ xs = concat (replicate (Suc n) xs)"
  by (induction n) simp_all

lemma queue_short:
  assumes "sz \<le> length txt"
  shows "queue_lines txt sz n i (drop (i * sz) (concat (replicate i txt)))
    = map (\<lambda>k. Line (round_line k (length txt) (take sz (drop (k * sz) (concat (replicate (Suc k) txt)))))) [i..<i + n]"
proof (induction n arbitrary: i)
  case (Suc n)
  have "i * sz \<le> length (concat (replicate i txt))"
    using assms by (simp add: length_concat sum_list_replicate)
  then have q: "drop (i * sz) (concat (replicate i txt)) @ txt = drop (i * sz) (concat (replicate (Suc i) txt))"
    by (simp only: concat_replicate_snoc [symmetric] drop_append) simp
  have "drop sz (drop (i * sz) (concat (replicate (Suc i) txt))) = drop (Suc i * sz) (concat (replicate (Suc i) txt))"
    by (simp only: drop_drop mult_Suc)
  moreover have "[i..<i + Suc n] = i # [Suc i..<Suc i + n]" by (simp add: upt_conv_Cons)
  ultimately show ?case using Suc [of "Suc i"] by (simp only: queue_lines.simps q list.map)
qed simp

text \<open>The rounds print this.\<close>

lemma rounds_echo:
  assumes ok: "loopback sys d" and s: "ser_is_open s" "short_timeout (ser_timeout s)" and sz: "sz < 2 ^ 63"
  shows "length (received t) \<le> length (sent t) \<Longrightarrow> pending t = map char_byte q \<Longrightarrow>
    \<exists>t'. rounds sys txt sz n i ((s, t), out) = (Inr (), ((s, t'), out @ queue_lines txt sz n i q))
      \<and> length (received t') \<le> length (sent t') \<and> pending t' = map char_byte (queue_rest txt sz n q)"
proof (induction n arbitrary: t q i out)
  case (Suc n)
  from write_echo [OF ok s Suc(2), of "map char_byte txt"] obtain u where u: "serial_write sys (map char_byte txt) (s, t) = (Inr (length txt), (s, t @ u))"
    "pending (t @ u) = map char_byte (q @ txt)" "length (received (t @ u)) \<le> length (sent (t @ u))"
    by (auto simp: Suc(3))
  from read_echo [OF ok s u(3), of sz] obtain w where v: "serial_read_string sys sz (s, t @ u) = (Inr (take sz (pending (t @ u))), (s, w))"
    "pending w = drop sz (pending (t @ u))" "length (received w) \<le> length (sent w)" by blast
  have read: "map byte_char (take sz (pending (t @ u))) = take sz (q @ txt)" unfolding u(2) by (simp add: take_map comp_def)
  have rest: "pending w = map char_byte (drop sz (q @ txt))" unfolding v(2) u(2) by (simp add: drop_map)
  have "rounds sys txt sz (Suc n) i ((s, t), out)
      = rounds sys txt sz n (Suc i) ((s, w), out @ [Line (round_line i (length txt) (take sz (q @ txt)))])"
    using sz u(1) v(1) by (simp add: on_port_def read_string_def say_def seqE_def bindE_def read)
  with Suc(1) [OF v(3) rest, of "Suc i" "out @ [Line (round_line i (length txt) (take sz (q @ txt)))]"] show ?case by fastforce
qed auto

section \<open>The whole program\<close>

lemma configure_echo:
  assumes ok: "loopback sys d" and "ser_fd s \<noteq> - 1" and "ser_baudrate s \<in> set linux_bauds" "ser_baudrate s \<noteq> 0"
    and "ser_bytesize s = eightbits" "ser_parity s = parity_none" "ser_stopbits s = stopbits_one"
  shows "\<exists>bt u. reconfigurePort sys (s, t) = (Inr (), ((setup_flow s)\<lparr>ser_byte_time_ns := bt\<rparr>, t @ u)) \<and> sent u = [] \<and> received u = []"
proof -
  obtain bt where bt: "byte_time (ser_baudrate s) eightbits parity_none stopbits_one = Inr bt"
    using assms(4) by (simp add: byte_time_def Let_def)
  let ?o = "tios (answer sys t (Tcgetattr (ser_fd s)))"
  obtain o1 where o1: "setup_baud sys (ser_fd s) (ser_baudrate s) (raw_mode ?o) = ret o1"
    using assms(3) by (simp add: setup_baud_def)
  obtain o2 where o2: "setup_bytesize eightbits o1 = Inr o2" by (simp add: setup_bytesize_def Let_def)
  obtain o3 where o3: "setup_stopbits stopbits_one o2 = Inr o3" by (simp add: setup_stopbits_def)
  obtain o4 where o4: "setup_parity parity_none o3 = Inr o4" by (simp add: setup_parity_def Let_def)
  have "\<exists>u. reconfigurePort sys (s, t) = (Inr (), ((setup_flow s)\<lparr>ser_byte_time_ns := bt\<rparr>, t @ u)) \<and> sent u = [] \<and> received u = []"
    using assms(2,5-7) loopbackD(4) [OF ok] o1 o2 o3 o4 bt
    by (simp add: reconfigurePort_def call_or_throw_def ser_run)
  then show ?thesis by blast
qed

lemma ctor_echo:
  assumes ok: "loopback sys d" and "port \<noteq> []" and "baud \<in> set linux_bauds" "baud \<noteq> 0"
  shows "\<exists>s u. serial_ctor sys tmo (new_impl port baud eightbits parity_none stopbits_one flowcontrol_none 0, t) = (Inr (), (s, t @ u))
    \<and> ser_is_open s \<and> ser_fd s \<noteq> - 1 \<and> ser_timeout s = tmo \<and> sent u = [] \<and> received u = []"
proof -
  let ?n = "new_impl port baud eightbits parity_none stopbits_one flowcontrol_none 0"
  let ?r = "answer sys t (Open port)"
  let ?s = "?n\<lparr>ser_fd := ret_val ?r\<rparr>"
  obtain k where k: "patience sys = Suc k" using loopback_patience [OF ok] by (cases "patience sys") auto
  have r: "ret_val ?r \<noteq> - 1" by (rule loopbackD(4) [OF ok])
  then obtain bt u where rc: "reconfigurePort sys (?s, t @ [(Open port, ?r)]) = (Inr (), ((setup_flow ?s)\<lparr>ser_byte_time_ns := bt\<rparr>, (t @ [(Open port, ?r)]) @ u))"
      "sent u = []" "received u = []"
    using configure_echo [OF ok, of ?s "t @ [(Open port, ?r)]"] assms(3,4) by (auto simp: new_impl_def)
  have n: "ser_port ?n = port" "\<not> ser_is_open ?n" by (simp_all add: new_impl_def)
  have "impl_open sys (?n, t) = (Inr (), (((setup_flow ?s)\<lparr>ser_byte_time_ns := bt\<rparr>)\<lparr>ser_is_open := True\<rparr>, (t @ [(Open port, ?r)]) @ u))"
    using n assms(2) r rc(1) by (simp add: impl_open_def k fld_def upd_def bindE_call seqE_Inr)
  then have "serial_ctor sys tmo (?n, t) = (Inr (), ((((setup_flow ?s)\<lparr>ser_byte_time_ns := bt\<rparr>)\<lparr>ser_is_open := True\<rparr>)\<lparr>ser_timeout := tmo\<rparr>, t @ [(Open port, ?r)] @ u))"
    using n assms(2) by (simp add: serial_ctor_def impl_ctor_def impl_setTimeout_def fld_def upd_def seqE_Inr seqE_def bindE_def)
  moreover have "ser_fd (setup_flow ?s) \<noteq> - 1" using r by (simp add: setup_flow_def new_impl_def)
  ultimately show ?thesis using rc(2,3)
    by (intro exI [of _ "(((setup_flow ?s)\<lparr>ser_byte_time_ns := bt\<rparr>)\<lparr>ser_is_open := True\<rparr>)\<lparr>ser_timeout := tmo\<rparr>"] exI [of _ "[(Open port, ?r)] @ u"]) simp
qed

definition echoed :: "string \<Rightarrow> (nat \<Rightarrow> string) \<Rightarrow> printed list" where
  "echoed txt f = map (\<lambda>k. Line (round_line k (length txt) (f k))) [0..<10]"

lemma tests_echo:
  assumes ok: "loopback sys d" and s: "ser_is_open s" "ser_timeout s = simpleTimeout 1000"
    and ne: "txt \<noteq> []" "length txt + 1 < 2 ^ 63" and p: "length (received t) \<le> length (sent t)" "pending t = []"
  shows "\<exists>tmo t'. example_tests sys txt ((s, t), out) = (Inr (), ((s\<lparr>ser_timeout := tmo\<rparr>, t'), out
      @ [Line ''Is the serial port open? Yes.'', Line ''Timeout == 1000ms, asking for 1 more byte than written.'']
      @ echoed txt (\<lambda>k. txt) @ [Line ''Timeout == 250ms, asking for 1 more byte than written.'']
      @ echoed txt (\<lambda>k. txt) @ [Line ''Timeout == 250ms, asking for exactly what was written.'']
      @ echoed txt (\<lambda>k. txt) @ [Line ''Timeout == 250ms, asking for 1 less than was written.'']
      @ echoed txt (\<lambda>k. take (length txt - 1) (drop (k * (length txt - 1)) (concat (replicate (Suc k) txt))))))"
proof -
  define pieces where "pieces = echoed txt (\<lambda>k. take (length txt - 1) (drop (k * (length txt - 1)) (concat (replicate (Suc k) txt))))"
  let ?t2 = "\<lparr>inter_byte_timeout = Timeout_max, read_timeout_constant = 250, read_timeout_multiplier = 0,
        write_timeout_constant = 250, write_timeout_multiplier = 0\<rparr>"
  let ?s2 = "s\<lparr>ser_timeout := ?t2\<rparr>"
  have less: "(length txt + 2 ^ 64 - 1) mod 2 ^ 64 = length txt - 1"
  proof -
    have "length txt + 2 ^ 64 - 1 = length txt - 1 + 2 ^ 64" using ne(1) by (cases "txt") auto
    then have "(length txt + 2 ^ 64 - 1) mod 2 ^ 64 = (length txt - 1) mod 2 ^ 64" by (simp only: mod_add_self2)
    then show ?thesis using ne(2) by simp
  qed
  have s1: "short_timeout (ser_timeout s)" using s(2) by (simp add: short_timeout_def simpleTimeout_def)
  have s2: "ser_is_open ?s2" "short_timeout (ser_timeout ?s2)" using s(1) by (simp_all add: short_timeout_def)
  note rounds1 = rounds_echo [OF ok s(1) s1, of "length txt + 1" _ "[]" "txt" 10 0]
  note rounds2 = rounds_echo [OF ok s2, of _ _ "[]" "txt" 10 0]
  have q: "queue_lines txt (length txt + 1) 10 0 [] = echoed txt (\<lambda>k. txt)" "queue_rest txt (length txt + 1) 10 [] = []"
    "queue_lines txt (length txt) 10 0 [] = echoed txt (\<lambda>k. txt)" "queue_rest txt (length txt) 10 [] = []"
    using queue_all [of "txt" _ 10 0] by (simp_all add: echoed_def)
  have q1: "queue_lines txt (length txt - 1) 10 0 [] = pieces"
    using queue_short [of "length txt - 1" "txt" 10 0] by (simp add: echoed_def pieces_def)
  let ?o1 = "out @ [Line ''Is the serial port open? Yes.'', Line ''Timeout == 1000ms, asking for 1 more byte than written.'']"
  from rounds1 [of t ?o1] ne p obtain t1 where u1: "rounds sys txt (length txt + 1) 10 0 ((s, t), ?o1) = (Inr (), ((s, t1), ?o1 @ echoed txt (\<lambda>k. txt)))"
    "length (received t1) \<le> length (sent t1)" "pending t1 = []" unfolding q by auto
  let ?o2 = "?o1 @ echoed txt (\<lambda>k. txt) @ [Line ''Timeout == 250ms, asking for 1 more byte than written.'']"
  from rounds2 [of "length txt + 1" "t1" ?o2] ne u1(2,3) obtain t2 where
    u2: "rounds sys txt (length txt + 1) 10 0 ((?s2, t1), ?o2) = (Inr (), ((?s2, t2), ?o2 @ echoed txt (\<lambda>k. txt)))"
    "length (received t2) \<le> length (sent t2)" "pending t2 = []" unfolding q by auto
  let ?o3 = "?o2 @ echoed txt (\<lambda>k. txt) @ [Line ''Timeout == 250ms, asking for exactly what was written.'']"
  from rounds2 [of "length txt" "t2" ?o3] ne u2(2,3) obtain t3 where
    u3: "rounds sys txt (length txt) 10 0 ((?s2, t2), ?o3) = (Inr (), ((?s2, t3), ?o3 @ echoed txt (\<lambda>k. txt)))"
    "length (received t3) \<le> length (sent t3)" "pending t3 = []" unfolding q by auto
  let ?o4 = "?o3 @ echoed txt (\<lambda>k. txt) @ [Line ''Timeout == 250ms, asking for 1 less than was written.'']"
  have sz: "length txt - 1 < 2 ^ 63" using ne(2) by simp
  from rounds_echo [OF ok s2 sz u3(2), of "[]" "txt" 10 0 ?o4] u3(3) obtain t4 where
    u4: "rounds sys txt (length txt - 1) 10 0 ((?s2, t3), ?o4) = (Inr (), ((?s2, t4), ?o4 @ pieces))" unfolding q1 by auto
  have set: "on_port (serial_setTimeout ?t2) ((s, x), o') = (Inr (), ((?s2, x), o'))" for x o'
    by (simp add: on_port_def serial_setTimeout_def impl_setTimeout_def upd_def)
  have op: "on_port serial_isOpen ((s, x), o') = (Inr True, ((s, x), o'))" for x o'
    using s(1) by (simp add: on_port_def serial_isOpen_def impl_isOpen_def fld_def)
  have tell: "say l (y, o') = (Inr (), (y, o' @ [Line l]))" for l y o' by (simp add: say_def)
  show ?thesis unfolding pieces_def [symmetric] example_tests_def less
    using u1(1) u2(1) u3(1) u4
    by (intro exI [of _ ?t2] exI [of _ t4])
       (simp add: seqE_def bindE_def op tell set)
qed


text \<open>A concrete device that loops back.\<close>

definition echo_answer :: "trace \<Rightarrow> syscall \<Rightarrow> reply" where
  "echo_answer t c = (case c of
       Read fd n \<Rightarrow> quiet_reply\<lparr>ret_val := int (length (take n (pending t))), rdata := take n (pending t)\<rparr>
     | SelectRead fd ts \<Rightarrow> quiet_reply\<lparr>ret_val := (if pending t = [] then 0 else 1)\<rparr>
     | _ \<Rightarrow> demo_answer t c)"

definition echo_os :: os where
  "echo_os = \<lparr>answer = echo_answer, patience = 1000\<rparr>"

lemma echo_nanos: "nanos (tspec (answer echo_os t ClockGettime)) = int (clock_reads t) * 10 ^ 6"
  by (simp only: echo_os_def os.simps echo_answer_def syscall.case demo_nanos)

lemma echo_loopback: "loopback echo_os (10 ^ 6)"
  unfolding loopback_def
proof (intro conjI allI impI)
  show "mutex_ok echo_os" by (simp add: mutex_ok_def echo_os_def echo_answer_def quiet_reply_def)
  have "answer echo_os t ClockGettime = answer demo_os t ClockGettime" for t by (simp add: echo_os_def demo_os_def echo_answer_def)
  then show "clock_advances echo_os (10 ^ 6)" using demo_clock_advances by (simp add: clock_advances_def)
  fix t c e
  show "ret_val (answer echo_os t c) \<noteq> - 1" by (cases c) (simp_all add: echo_os_def echo_answer_def quiet_reply_def)
  show "nanos (tspec (answer echo_os (t @ [e]) ClockGettime)) \<le> nanos (tspec (answer echo_os t ClockGettime)) + 2 * 10 ^ 6"
    unfolding echo_nanos by (cases e) simp
qed (simp_all add: echo_os_def echo_answer_def quiet_reply_def)


end
