(* ===== verification/Spec2Isabelle.thy ===== *)
theory Spec2Isabelle
  imports Attributes DriverWire SerialLocks SerialClaims LoggerFacts ContextFacts Sessions
    DisplaySession MonitorFacts SystemFacts TypedMessage Unplugged CommandLocks SharedFacts CliShape
    WinFacts OtherPorts LogTime CliOwnership CliWrite SerialExample
begin

text \<open>
  The LED message board daemon \<open>LMBd\<close>: a development of its program, its libraries as they are bundled with
  it, and what can be proved about them.

  \<^bold>\<open>The program.\<close> \<^verbatim>\<open>src/src/lmbd.cpp\<close> loads a JSON configuration into one shared
  context (\<^verbatim>\<open>struct LMBCTX\<close>, \<^verbatim>\<open>lmbd.hpp\<close>), greets the display over a serial port, shows the
  start-up messages, starts a thread that watches one file for each slot of the display, and accepts connections on
  a socket, each in a thread of its own that runs a terminal session. A session (\<^verbatim>\<open>lmbcli.cpp\<close> on top of the
  bundled \<^verbatim>\<open>libcli\<close>) and the file monitor (\<^verbatim>\<open>FileMonitor.cpp\<close> on top of \<^verbatim>\<open>iNotifyEngine.hpp\<close>) put
  messages on the display through the driver (\<^verbatim>\<open>Driver-DX.cpp\<close>), which builds four packets a message and writes them with
  the bundled \<^verbatim>\<open>serial\<close> library. Everything logs through the bundled \<^verbatim>\<open>LoggerCpp\<close>.

  \<^bold>\<open>How code is modelled.\<close> A C++ function on the state \<open>'s\<close> that returns an \<open>'a\<close> is a program
  \<open>'s \<Rightarrow> (exn + 'a) \<times> 's\<close> (theory \<open>Prelude\<close>): exceptions are values, nothing is rolled back, destructors are \<open>finallyE\<close>.
  Three values of \<open>exn\<close> are no exceptions: \<open>Terminate\<close> (\<^verbatim>\<open>std::terminate\<close>, or a signal that ends the process), \<open>Undefined\<close> (undefined behaviour, such as an access outside
  an array or through a null pointer) and \<open>NoReturn\<close> (a loop or a wait that does not end). Bytes and machine words are \<open>8 word\<close> and \<open>32 word\<close>;
  strings are lists of characters; C integers that cannot reach their bounds are \<open>int\<close> or \<open>nat\<close>. Records have the fields of the structs.

  \<^bold>\<open>Theories and what they model.\<close>
  \<^item> \<open>Prelude\<close>: programs, step orders (\<open>obeys\<close>, the locale \<open>step_order\<close>), arrays, numbers as text. \<open>CText\<close>: the functions of the
    C library on strings that the code calls.
  \<^item> \<open>Posix\<close>: the system calls as a parameter \<open>os\<close>, which answers each call from the trace of all calls before it; the bytes written (\<open>sent\<close>) and read
    are functions of the trace. The field \<open>patience\<close> is the fuel of the loops that end only by the system's answers.
  \<^item> \<open>SerialImpl\<close>, \<open>SerialIO\<close>: \<^verbatim>\<open>serial/src/impl/unix.cc\<close>, one definition for each member function. \<open>SerialPort\<close>: \<^verbatim>\<open>serial/src/serial.cc\<close> with
    its scoped locks. \<open>SerialOrder\<close>: the locale \<open>line_order\<close> of facts every operation on the line respects. \<open>SerialFacts\<close>, \<open>SerialConfig\<close>, \<open>SerialLocks\<close>, \<open>SerialClaims\<close>:
    what is proved of them. \<open>SerialEcho\<close>: a device that sends back what it receives (\<open>loopback\<close>), on which the port is a queue;
    \<open>SerialExample\<close>: the program \<^verbatim>\<open>serial_example.cc\<close> on it. \<open>ListPorts\<close>: \<^verbatim>\<open>list_ports_linux.cc\<close>.
    \<open>WinPort\<close>, \<open>WinFacts\<close>: \<^verbatim>\<open>win.cc\<close>, the implementation for Windows, which the daemon does not use, and the ownership of its handle.
    \<open>OtherPorts\<close>: \<^verbatim>\<open>list_ports_osx.cc\<close> and \<^verbatim>\<open>list_ports_win.cc\<close>.
  \<^item> \<open>Logger\<close>, \<open>LoggerFacts\<close>: \<^verbatim>\<open>LoggerCpp\<close>: levels, channels, outputs, rotation of the log file. \<open>LogTime\<close>: \<^verbatim>\<open>DateTime.cpp\<close>, which
    reads the clock, and \<^verbatim>\<open>OutputDebug.cpp\<close>, the line for the debugger of Windows.
    \<open>SharedPtr\<close>, \<open>SharedFacts\<close>: the smart pointer of \<^verbatim>\<open>shared_ptr.hpp\<close> on a store of counters and objects, and that it implements plain ownership.
  \<^item> \<open>Context\<close>, \<open>ContextFacts\<close>: the context with \<open>load\<close> and \<open>save\<close>. The world of a thread is the context, the trace, the log, the configuration
    files and the mutex \<^verbatim>\<open>io_mutex\<close>.
  \<^item> \<open>Packet\<close>, \<open>Driver\<close>: \<^verbatim>\<open>Driver-DX.cpp\<close>; \<open>Attributes\<close>, \<open>DriverFacts\<close>, \<open>DriverWire\<close>, \<open>DisplaySession\<close>: the attribute codes, the parts
    of the context the driver leaves alone (the locales \<open>port_order\<close> and \<open>iDriver\<close>, the abstract class of the code), and the bytes of a session with the display.
  \<^item> \<open>CliCore\<close>, \<open>CliFind\<close>, \<open>CliLoop\<close>: \<^verbatim>\<open>libcli.c\<close>, from the data structures over the search for a command to the loop. The client's functions are a
    parameter, the record \<open>client\<close>. \<open>CliFrame\<close>, \<open>CliSafety\<close>, \<open>CliWorld\<close>: what the library never touches by itself, who may do what (locale \<open>guarded_client\<close>), and
    how a client's order on its world lifts to sessions (locales \<open>session_client\<close> and \<open>world_client\<close>). \<open>CliEdit\<close>: the line editor against a line with a cursor.
    \<open>CliShape\<close>: its buffer, length and cursor in every session (locale \<open>line_client\<close>).
  \<^item> \<open>CliMemory\<close>: the functions of \<^verbatim>\<open>libcli.c\<close> that allocate, link or free, on a store (\<open>memory\<close>) of blocks and pointers: a text, a command node, a user,
    the object, its hooks. \<open>mem_f\<close> is the function \<open>cli_f\<close>; a read or write of a block that is not allocated and a second \<open>free\<close> are \<open>Undefined\<close>, a failed allocation is the null pointer.
    \<open>CliLayout\<close>: what blocks a session consists of (\<open>lay_cli\<close>, multisets of blocks, so that nothing is shared) and the rules for programs on them (\<open>runs\<close>); the other theories follow
    the kinds of data: \<open>CliFields\<close> (the locale \<open>text_field\<close>, interpreted for each text of the object), \<open>CliHistory\<close>, \<open>CliTree\<close>, \<open>CliPrefix\<close>. \<open>CliSession\<close>: a sequence of calls
    on the store implements the functions of \<open>CliCore\<close> on values. \<open>CliOwnership\<close>: from \<open>cli_init\<close> to \<open>cli_done\<close>, what is freed, what is leaked, and what a failed allocation does.
    \<open>CliWrite\<close>: the loop \<open>_write\<close> on the system calls; the other theories take a write for complete, which it is when the system is \<open>responsive\<close> and the connection open.
  \<^item> \<open>Commands\<close>: \<^verbatim>\<open>lmbcli.cpp\<close>; \<open>CommandFacts\<close>, \<open>Sessions\<close>: the daemon as a client of the library. \<open>CommandLocks\<close>: no
    command keeps the mutex. \<open>TypedMessage\<close>: from a typed line to the bytes on the wire.
  \<^item> \<open>Inotify\<close>, \<open>MonitorFacts\<close>: the notification wrapper and the file monitor. \<open>Unplugged\<close>: a port that cannot be opened.
  \<^item> \<open>Daemon\<close>: \<open>main\<close>, and the threads as a step relation \<open>sys_step\<close>: an accepted connection, an event of a session, a written file. The steps of a thread
    between two events are one step, because every command holds \<^verbatim>\<open>io_mutex\<close> for its accesses to the context. \<open>StartUp\<close>: the start-up succeeds; \<open>SystemFacts\<close>: what
    all interleavings keep.

  \<^bold>\<open>Parameters and hypotheses.\<close> What is not under \<^verbatim>\<open>src/\<close> is a parameter: the system calls (\<open>os\<close>), Boost's property tree, file system and
  \<open>replace_all\<close> (\<open>libs\<close>), inotify (\<open>kernel\<close>), the Windows API (\<open>winapi\<close>), the I/O Kit (\<open>iokit\<close>), regular expressions (\<open>regex\<close>), \<open>crypt\<close>, the sockets' results (\<open>network\<close>), the allocator (\<open>malloc\<close>). The hypotheses
  are named: \<open>works\<close> (every call succeeds and the clock is fast against the timeouts), \<open>mutex_ok\<close>, \<open>clock_advances\<close>, \<open>loopback\<close>, \<open>replaces_all\<close> (what Boost documents of \<open>replace_all\<close>),
  \<open>conversions_ok\<close> (a printed value reads back), \<open>numbers_watches\<close> (inotify numbers the watches of an instance from 1), \<open>log_ok\<close> (the log files can be
  opened), \<open>malloc_ok\<close> (every allocation succeeds, with an address that is free). Each property with a hypothesis has a witness on concrete instances (\<open>demo_os\<close>, \<open>demo_libs\<close>, \<open>demo_kernel\<close>, ...).

  \<^bold>\<open>Bounds and fuel.\<close> Loops over data recurse on the data. Loops that wait for the system (opening, reading and writing the port)
  take \<open>patience\<close> iterations and end in \<open>NoReturn\<close> when it runs out; that they end is a property of its own, with
  a bound computed from the timeout and the step of the clock. A session takes the list of its events, the file monitor the list of the
  kernel's answers; an exhausted list is a thread that waits. A loop over a linked structure of the store takes at most as many iterations as there are blocks (\<open>bounded\<close>), which
  only a cycle exceeds; that the loops end is part of every fact about them.

  \<^bold>\<open>Not modelled.\<close> Messages of the log level debug and texts on the standard output of \<open>main\<close>; the memory of
  the C++ code, and in libcli that of filters and completions; libcli's print callback and user context pointer; the \<open>UNICODE\<close> build of the Windows port listing; the tests of the serial library; the owners of shared pointers in the logging library itself are
  modelled by value; the dead functions
  \<open>InsertString\<close> and \<open>uint_from_hex\<close> of the driver. Data races inside a step are outside the model: a connection is
  counted by the accepting thread without the mutex.
\<close>

end
